(* ===== verification/Prelude.thy ===== *)
theory Prelude
  imports Main "HOL-Library.Word"
begin

section \<open>Shared types, collections and generic lemmas\<close>

text \<open>
  What every component of the model uses: the exceptions the C++ code throws as a value type, the
  result type of code that may throw, the ranges of the fixed-width signed integers, and generic
  facts on lists.  A signed C++ integer is a HOL \<open>int\<close> together with the range predicates
  \<open>in_i32\<close> and \<open>in_i64\<close>; an unsigned one is a \<open>word\<close> of its width, or a \<open>nat\<close> where it is a size
  or an index.  A \<open>std::string\<close> is a HOL \<open>string\<close>: its characters are the bytes of the C++ string.
\<close>

named_theorems codec_simps \<open>append/read round trips of the payload fields\<close>
named_theorems result_simps \<open>unfolding of the result monad\<close>

subsection \<open>Exceptions and results\<close>

text \<open>
  One constructor per exception class the modelled code throws, carrying the message that
  \<open>what()\<close> returns.
\<close>

datatype exn =
    Protocol_error string
  | Buffer_insufficient string
  | Length_error string
  | Invalid_argument string
  | Runtime_error string
  | Yaml_exception string

primrec exn_what :: "exn \<Rightarrow> string" where
  "exn_what (Protocol_error s) = s"
| "exn_what (Buffer_insufficient s) = s"
| "exn_what (Length_error s) = s"
| "exn_what (Invalid_argument s) = s"
| "exn_what (Runtime_error s) = s"
| "exn_what (Yaml_exception s) = s"

type_synonym 'a res = "exn + 'a"

definition res_bind :: "'e + 'a \<Rightarrow> ('a \<Rightarrow> 'e + 'b) \<Rightarrow> 'e + 'b" where
  "res_bind m f = (case m of Inl e \<Rightarrow> Inl e | Inr x \<Rightarrow> f x)"

lemma res_bind_Inl [simp, result_simps]: "res_bind (Inl e) f = Inl e"
  by (simp add: res_bind_def)

lemma res_bind_Inr [simp, result_simps]: "res_bind (Inr x) f = f x"
  by (simp add: res_bind_def)

lemma res_bind_eq_Inr:
  "res_bind m f = Inr y \<longleftrightarrow> (\<exists>x. m = Inr x \<and> f x = Inr y)"
  by (cases m) auto

lemma res_bind_eq_Inl:
  "res_bind m f = Inl e \<longleftrightarrow> m = Inl e \<or> (\<exists>x. m = Inr x \<and> f x = Inl e)"
  by (cases m) auto

lemma res_bind_assoc: "res_bind (res_bind m f) g = res_bind m (\<lambda>x. res_bind (f x) g)"
  by (cases m) auto

subsection \<open>Fixed-width signed integers\<close>

definition in_i32 :: "int \<Rightarrow> bool" where
  "in_i32 n \<longleftrightarrow> - (2 ^ 31) \<le> n \<and> n < 2 ^ 31"

definition in_i64 :: "int \<Rightarrow> bool" where
  "in_i64 n \<longleftrightarrow> - (2 ^ 63) \<le> n \<and> n < 2 ^ 63"

lemma sint_word_of_int_i32: "in_i32 n \<Longrightarrow> sint (word_of_int n :: 32 word) = n"
  by (simp add: in_i32_def sint_sbintrunc' signed_take_bit_int_eq_self)

lemma sint_word_of_int_i64: "in_i64 n \<Longrightarrow> sint (word_of_int n :: 64 word) = n"
  by (simp add: in_i64_def sint_sbintrunc' signed_take_bit_int_eq_self)

lemma in_i32_sint [simp]: "in_i32 (sint (w :: 32 word))"
  using sint_range_size [of w] by (simp add: in_i32_def word_size)

lemma in_i64_sint [simp]: "in_i64 (sint (w :: 64 word))"
  using sint_range_size [of w] by (simp add: in_i64_def word_size)

text \<open>\<open>std::to_string\<close> and \<open>operator<<\<close> of an integer: the decimal digits, with a sign when negative.\<close>

fun nat_to_string :: "nat \<Rightarrow> string" where
  "nat_to_string n =
     (if n < 10 then [char_of (48 + n)] else nat_to_string (n div 10) @ [char_of (48 + n mod 10)])"

declare nat_to_string.simps [simp del]

definition int_to_string :: "int \<Rightarrow> string" where
  "int_to_string n = (if n < 0 then ''-'' @ nat_to_string (nat (- n)) else nat_to_string (nat n))"

subsection \<open>Lists\<close>

lemma filter_update_length:
  "i < length xs \<Longrightarrow>
   length (filter P (xs[i := x])) + (if P (xs ! i) then 1 else 0)
     = length (filter P xs) + (if P x then 1 else 0)"
proof (induction xs arbitrary: i)
  case Nil
  then show ?case by simp
next
  case (Cons y ys)
  then show ?case by (cases i) auto
qed

lemma nth_list_update_if: "xs[i := x] ! j = (if j = i \<and> i < length xs then x else xs ! j)"
  by (cases "i < length xs") (auto simp: nth_list_update list_update_beyond)

lemma nth_mem_take: "j < k \<Longrightarrow> j < length xs \<Longrightarrow> xs ! j \<in> set (take k xs)"
  by (metis in_set_conv_nth length_take min_less_iff_conj nth_take)

lemma distinct_nth_take:
  "distinct xs \<Longrightarrow> i < length xs \<Longrightarrow> xs ! i \<in> set (take k xs) \<longleftrightarrow> i < k"
  by (auto simp: in_set_conv_nth nth_eq_iff_index_eq)

subsection \<open>Machines with an invariant\<close>

text \<open>
  Most components are state machines driven by a sequence of calls.  The contract is that every
  allowed call keeps the invariant; a whole run of allowed calls then keeps it, and so does every
  prefix of it.  Each component interprets this locale on its own step function.
\<close>

locale invariant_machine =
  fixes step :: "'e \<Rightarrow> 's \<Rightarrow> 's"
    and allowed :: "'e \<Rightarrow> bool"
    and inv :: "'s \<Rightarrow> bool"
  assumes inv_step: "allowed e \<Longrightarrow> inv s \<Longrightarrow> inv (step e s)"
begin

lemma inv_run: "inv s \<Longrightarrow> list_all allowed es \<Longrightarrow> inv (fold step es s)"
  by (induction es arbitrary: s) (simp_all add: inv_step)

lemma inv_run_prefix: "inv s \<Longrightarrow> list_all allowed (es1 @ es2) \<Longrightarrow> inv (fold step es1 s)"
  by (simp add: inv_run)

end

end
