(* ===== verification/Frame_Stream.thy ===== *)
theory Frame_Stream
  imports Prelude
begin

unbundle bit_operations_syntax

section \<open>Byte frames (core/frame_stream)\<close>

text \<open>
  The big-endian integers and length-prefixed strings that every payload of the control protocol is
  made of.  An \<open>oframe_stream\<close> operation maps the frame written so far to the longer one, or throws; an
  \<open>iframe_stream\<close> operation maps the bytes not yet read to a value and the bytes after it, or throws.
  What a frame holds when an append has thrown is not modelled: every caller drops it.
\<close>

type_synonym byte = "8 word"
type_synonym frame = "byte list"
type_synonym 'a reader = "frame \<Rightarrow> exn + ('a \<times> frame)"
type_synonym appender = "frame \<Rightarrow> exn + frame"

definition protocol_v3_max_payload :: nat where
  "protocol_v3_max_payload = 4 * 1024 * 1024"

definition frame_max_length :: nat where
  "frame_max_length = 4 * 2 ^ 20"

subsection \<open>Escaping\<close>

definition byte_of_char :: "char \<Rightarrow> byte" where
  "byte_of_char c = word_of_nat (of_char c)"

definition char_of_byte :: "byte \<Rightarrow> char" where
  "char_of_byte b = char_of (unat b)"

fun frame_escape :: "(byte \<rightharpoonup> byte list) \<Rightarrow> frame \<Rightarrow> frame" where
  "frame_escape escapes [] = []"
| "frame_escape escapes (b # bs) =
     (case escapes b of
        Some r \<Rightarrow> r @ frame_escape escapes bs
      | None \<Rightarrow> b # frame_escape escapes bs)"

fun frame_unescape :: "(byte \<rightharpoonup> (byte \<rightharpoonup> byte)) \<Rightarrow> frame \<Rightarrow> frame" where
  "frame_unescape unescapes [] = []"
| "frame_unescape unescapes [b] = [b]"
| "frame_unescape unescapes (b # c # bs) =
     (case unescapes b of
        None \<Rightarrow> b # frame_unescape unescapes (c # bs)
      | Some m \<Rightarrow>
          (case m c of
             Some d \<Rightarrow> d # frame_unescape unescapes bs
           | None \<Rightarrow> b # frame_unescape unescapes (c # bs)))"

text \<open>The tables of the two-argument overloads: newline and backslash.\<close>

definition default_escapes :: "byte \<rightharpoonup> byte list" where
  "default_escapes = [0x0A \<mapsto> [0x5C, 0x6E], 0x5C \<mapsto> [0x5C, 0x5C]]"

definition default_unescapes :: "byte \<rightharpoonup> (byte \<rightharpoonup> byte)" where
  "default_unescapes = [0x5C \<mapsto> [0x5C \<mapsto> 0x5C, 0x6E \<mapsto> 0x0A]]"

subsection \<open>Writing\<close>

text \<open>The bytes that \<open>fappend_value\<close> appends for an unsigned value of \<open>n\<close> bytes, highest first.\<close>

definition be_bytes :: "nat \<Rightarrow> 'a::len word \<Rightarrow> frame" where
  "be_bytes n v = map (\<lambda>i. ucast (drop_bit ((n - i - 1) * 8) v AND 0xFF)) [0..<n]"

definition fappend_u16 :: "16 word \<Rightarrow> appender" where
  "fappend_u16 v f = Inr (f @ be_bytes 2 v)"

definition fappend_u32 :: "32 word \<Rightarrow> appender" where
  "fappend_u32 v f = Inr (f @ be_bytes 4 v)"

definition fappend_u64 :: "64 word \<Rightarrow> appender" where
  "fappend_u64 v f = Inr (f @ be_bytes 8 v)"

text \<open>A signed value is first converted to the unsigned type of its width.\<close>

definition fappend_i32 :: "int \<Rightarrow> appender" where
  "fappend_i32 n = fappend_u32 (word_of_int n)"

definition fappend_i64 :: "int \<Rightarrow> appender" where
  "fappend_i64 n = fappend_u64 (word_of_int n)"

definition fappend_string :: "string \<Rightarrow> appender" where
  "fappend_string str f =
     (if length str > protocol_v3_max_payload
      then Inl (Length_error ''string exceeds protocol maximum size'')
      else res_bind (fappend_u32 (word_of_nat (length str)) f)
             (\<lambda>f'. Inr (f' @ map byte_of_char str)))"

text \<open>A function body that makes several appends to the same frame, one after the other.\<close>

fun append_all :: "appender list \<Rightarrow> appender" where
  "append_all [] f = Inr f"
| "append_all (a # as) f = res_bind (a f) (append_all as)"

subsection \<open>Reading\<close>

definition insufficient :: exn where
  "insufficient = Buffer_insufficient ''Insufficient buffer data to complete the read operation.''"

definition be_value :: "frame \<Rightarrow> 'a::len word" where
  "be_value bs = foldl (\<lambda>v b. push_bit 8 v OR ucast b) 0 bs"

definition fget_value :: "nat \<Rightarrow> 'a::len word reader" where
  "fget_value n bs = (if length bs < n then Inl insufficient else Inr (be_value (take n bs), drop n bs))"

definition fget_u16 :: "16 word reader" where
  "fget_u16 = fget_value 2"

definition fget_u32 :: "32 word reader" where
  "fget_u32 = fget_value 4"

definition fget_u64 :: "64 word reader" where
  "fget_u64 = fget_value 8"

definition rbind :: "'a reader \<Rightarrow> ('a \<Rightarrow> 'b reader) \<Rightarrow> 'b reader" where
  "rbind r k bs = res_bind (r bs) (\<lambda>(x, rest). k x rest)"

definition rreturn :: "'a \<Rightarrow> 'a reader" where
  "rreturn x bs = Inr (x, bs)"

definition rfail :: "exn \<Rightarrow> 'a reader" where
  "rfail e bs = Inl e"

text \<open>\<open>if (c) throw e;\<close> in the middle of a reader.\<close>

definition rguard :: "bool \<Rightarrow> exn \<Rightarrow> 'a reader \<Rightarrow> 'a reader" where
  "rguard c e k bs = (if c then Inl e else k bs)"

definition fget_i32 :: "int reader" where
  "fget_i32 = rbind fget_u32 (\<lambda>v. rreturn (sint v))"

definition fget_i64 :: "int reader" where
  "fget_i64 = rbind fget_u64 (\<lambda>v. rreturn (sint v))"

definition fget_string :: "string reader" where
  "fget_string =
     rbind fget_u32 (\<lambda>len.
     rguard (unat len > protocol_v3_max_payload)
       (Buffer_insufficient ''String length exceeds protocol maximum.'')
     (\<lambda>bs. if length bs < unat len then Inl insufficient
           else Inr (map char_of_byte (take (unat len) bs), drop (unat len) bs)))"

subsection \<open>Messages split over several frames\<close>

definition substr :: "nat \<Rightarrow> nat \<Rightarrow> 'a list \<Rightarrow> 'a list" where
  "substr pos len s = take len (drop pos s)"

definition split_contents :: "nat \<Rightarrow> string \<Rightarrow> string list" where
  "split_contents frame_size msg =
     (let n_frame = length msg div frame_size in
      map (\<lambda>i. substr (frame_size * i) frame_size msg) [0..<n_frame] @
      (if length msg mod frame_size \<noteq> 0 then [drop (n_frame * frame_size) msg] else []))"

definition make_frame :: "int \<Rightarrow> string \<Rightarrow> exn + frame" where
  "make_frame msg_type content = append_all [fappend_i32 msg_type, fappend_string content] []"

fun make_frames :: "int \<Rightarrow> string list \<Rightarrow> exn + frame list" where
  "make_frames msg_type [] = Inr []"
| "make_frames msg_type (c # cs) =
     res_bind (make_frame (if cs \<noteq> [] then 2 else msg_type) c) (\<lambda>f.
     res_bind (make_frames msg_type cs) (\<lambda>fs. Inr (f # fs)))"

definition str_to_frames :: "int \<Rightarrow> string \<Rightarrow> exn + frame list" where
  "str_to_frames msg_type msg_content =
     (let frame_size = frame_max_length div 2 in
      if length msg_content \<le> frame_size
      then res_bind (make_frame msg_type msg_content) (\<lambda>f. Inr [f])
      else make_frames msg_type (split_contents frame_size msg_content))"

subsection \<open>The reader combinators\<close>

lemma rbind_eq_Inr:
  "rbind r k bs = Inr y \<longleftrightarrow> (\<exists>x rest. r bs = Inr (x, rest) \<and> k x rest = Inr y)"
  by (auto simp: rbind_def res_bind_eq_Inr)

lemma rreturn_eq_Inr: "rreturn x bs = Inr (y, rest) \<longleftrightarrow> y = x \<and> rest = bs"
  by (auto simp: rreturn_def)

lemma rguard_eq_Inr: "rguard c e k bs = Inr y \<longleftrightarrow> \<not> c \<and> k bs = Inr y"
  by (simp add: rguard_def)

lemma rfail_eq_Inr: "rfail e bs = Inr y \<longleftrightarrow> False"
  by (simp add: rfail_def)

lemmas reader_iffs = rbind_eq_Inr rreturn_eq_Inr rguard_eq_Inr rfail_eq_Inr

subsection \<open>Big-endian integers\<close>

lemma length_be_bytes [simp]: "length (be_bytes n v) = n"
  by (simp add: be_bytes_def)

lemma be_bytes_0: "be_bytes 0 v = []"
  by (simp add: be_bytes_def)

lemma nth_be_bytes:
  "i < n \<Longrightarrow> be_bytes n v ! i = ucast (drop_bit ((n - i - 1) * 8) v AND 0xFF)"
  by (simp add: be_bytes_def)

lemma be_bytes_Suc: "be_bytes (Suc n) v = ucast (drop_bit (n * 8) v AND 0xFF) # be_bytes n v"
  by (rule nth_equalityI) (auto simp: nth_be_bytes nth_Cons split: nat.splits)

lemma be_bytes_snoc: "be_bytes (Suc n) v = be_bytes n (drop_bit 8 v) @ [ucast (v AND 0xFF)]"
proof (rule nth_equalityI)
  fix i
  assume "i < length (be_bytes (Suc n) v)"
  then show "be_bytes (Suc n) v ! i = (be_bytes n (drop_bit 8 v) @ [ucast (v AND 0xFF)]) ! i"
    by (cases "i < n") (auto simp: be_bytes_def nth_append drop_bit_drop_bit less_Suc_eq
        Suc_diff_le algebra_simps)
qed simp

lemma mask_byte: "(x :: 'a::len word) AND 0xFF = take_bit 8 x"
  by (simp add: take_bit_eq_mask mask_eq_exp_minus_1)

lemma foldl_be_bytes:
  "foldl (\<lambda>v b. push_bit 8 v OR ucast b) acc (be_bytes n v)
     = push_bit (n * 8) acc OR take_bit (n * 8) (v :: 'a::len word)"
proof (induction n arbitrary: acc)
  case 0
  then show ?case by (simp add: be_bytes_0)
next
  case (Suc n)
  have "push_bit (n * 8) (push_bit 8 acc OR ucast (ucast (take_bit 8 (drop_bit (n * 8) v)) :: byte))
      OR take_bit (n * 8) v = push_bit (Suc n * 8) acc OR take_bit (Suc n * 8) v"
    by (rule bit_word_eqI) (auto simp: bit_simps le_diff_conv add.commute)
  then show ?case by (simp add: be_bytes_Suc Suc mask_byte)
qed

lemma be_value_be_bytes: "LENGTH('a) = n * 8 \<Longrightarrow> be_value (be_bytes n v) = (v :: 'a::len word)"
  by (simp add: be_value_def foldl_be_bytes take_bit_word_eq_self)

lemma be_bytes_take_bit: "n * 8 \<le> m \<Longrightarrow> be_bytes n (take_bit m v) = be_bytes n v"
  unfolding be_bytes_def mask_byte
  by (rule map_cong [OF refl], rule bit_word_eqI) (auto simp: bit_simps)

lemma be_bytes_foldl:
  "length bs = n \<Longrightarrow> n * 8 \<le> LENGTH('a) \<Longrightarrow>
     be_bytes n (foldl (\<lambda>v b. push_bit 8 v OR ucast b) (acc :: 'a::len word) bs) = bs"
proof (induction bs arbitrary: n rule: rev_induct)
  case Nil
  then show ?case by (simp add: be_bytes_0)
next
  case (snoc b bs)
  let ?v = "foldl (\<lambda>v b. push_bit 8 v OR ucast b) acc bs"
  from snoc.prems obtain m where n: "n = Suc m" "length bs = m" by auto
  with snoc.prems(2) have m: "m * 8 + 8 \<le> LENGTH('a)" by simp
  have "drop_bit 8 (push_bit 8 ?v OR ucast b) = take_bit (LENGTH('a) - 8) ?v"
    by (rule bit_word_eqI) (use m in \<open>auto simp: bit_simps dest: bit_imp_le_length\<close>)
  moreover have "be_bytes m (take_bit (LENGTH('a) - 8) ?v) = be_bytes m ?v"
    by (rule be_bytes_take_bit) (use m in simp)
  moreover have "ucast (take_bit 8 (push_bit 8 ?v OR ucast b)) = b"
    by (rule bit_word_eqI) (use m in \<open>auto simp: bit_simps\<close>)
  ultimately show ?case
    using snoc.IH [of m] n m by (simp add: be_bytes_snoc mask_byte)
qed

lemma be_bytes_be_value:
  "length bs = n \<Longrightarrow> LENGTH('a) = n * 8 \<Longrightarrow> be_bytes n (be_value bs :: 'a::len word) = bs"
  by (simp add: be_value_def be_bytes_foldl)

lemma fget_value_iff:
  assumes "LENGTH('a) = n * 8"
  shows "fget_value n bs = Inr (v :: 'a::len word, rest) \<longleftrightarrow> bs = be_bytes n v @ rest"
proof
  assume "fget_value n bs = Inr (v, rest)"
  then have *: "n \<le> length bs" "v = be_value (take n bs)" "rest = drop n bs"
    by (auto simp: fget_value_def split: if_splits)
  then have "be_bytes n v = take n bs" using assms by (simp add: be_bytes_be_value)
  with * show "bs = be_bytes n v @ rest" by simp
next
  assume "bs = be_bytes n v @ rest"
  then show "fget_value n bs = Inr (v, rest)"
    using assms by (simp add: fget_value_def be_value_be_bytes)
qed

subsection \<open>The contract of a payload field\<close>

text \<open>
  A field is written by \<open>put\<close> and read by \<open>get\<close>; \<open>enc\<close> is its format.  On the values the reader can
  return (\<open>ok\<close>), the writer appends exactly the format, and the reader accepts exactly the bytes that
  begin with the format of such a value, and consumes just that.  So a value survives a round trip
  with anything behind it, no two values share a format, and no format is a prefix of another.
\<close>

fun read_n :: "nat \<Rightarrow> 'a reader \<Rightarrow> 'a list reader" where
  "read_n 0 get = rreturn []"
| "read_n (Suc n) get = rbind get (\<lambda>x. rbind (read_n n get) (\<lambda>xs. rreturn (x # xs)))"

locale codec =
  fixes put :: "'a \<Rightarrow> appender"
    and get :: "'a reader"
    and ok :: "'a \<Rightarrow> bool"
    and enc :: "'a \<Rightarrow> frame"
  assumes put_ok: "ok x \<Longrightarrow> put x f = Inr (f @ enc x)"
    and get_iff: "get bs = Inr (x, rest) \<longleftrightarrow> ok x \<and> bs = enc x @ rest"
begin

lemma roundtrip: "ok x \<Longrightarrow> \<exists>bs. put x f = Inr (f @ bs) \<and> get (bs @ rest) = Inr (x, rest)"
  by (auto simp: put_ok get_iff)

lemma enc_prefix_free:
  assumes "ok x" "ok y" "enc x @ r = enc y @ r'"
  shows "x = y \<and> r = r'"
proof -
  have "get (enc x @ r) = Inr (x, r)" using assms(1) by (simp add: get_iff)
  then have "Inr (x, r) = get (enc x @ r)" by (rule sym)
  also have "\<dots> = get (enc y @ r')" by (simp only: assms(3))
  also have "\<dots> = Inr (y, r')" using assms(2) by (simp add: get_iff)
  finally show ?thesis by simp
qed

lemma truncated_rejected:
  assumes "ok x" "k < length (enc x)"
  shows "\<exists>e. get (take k (enc x)) = Inl e"
proof (cases "get (take k (enc x))")
  case (Inr p)
  then have y: "ok (fst p)" "take k (enc x) = enc (fst p) @ snd p"
    using get_iff [of "take k (enc x)" "fst p" "snd p"] by simp_all
  have "enc x @ [] = enc (fst p) @ (snd p @ drop k (enc x))"
    unfolding append.assoc [symmetric] y(2) [symmetric] by simp
  from enc_prefix_free [OF assms(1) y(1) this] have "[] = snd p @ drop k (enc x)" by (rule conjunct2)
  with assms(2) show ?thesis by simp
qed auto

lemma put_list: "list_all ok xs \<Longrightarrow> append_all (map put xs) f = Inr (f @ concat (map enc xs))"
  by (induction xs arbitrary: f) (simp_all add: put_ok)

lemma read_n_iff:
  "read_n n get bs = Inr (xs, rest) \<longleftrightarrow>
     length xs = n \<and> list_all ok xs \<and> bs = concat (map enc xs) @ rest"
proof (induction n arbitrary: bs xs)
  case 0
  then show ?case by (auto simp: rreturn_eq_Inr)
next
  case (Suc n)
  then show ?case by (cases xs) (auto simp: reader_iffs get_iff)
qed

end

subsection \<open>The primitive fields\<close>

definition enc_i32 :: "int \<Rightarrow> frame" where
  "enc_i32 n = be_bytes 4 (word_of_int n :: 32 word)"

definition enc_i64 :: "int \<Rightarrow> frame" where
  "enc_i64 n = be_bytes 8 (word_of_int n :: 64 word)"

definition ok_string :: "string \<Rightarrow> bool" where
  "ok_string s \<longleftrightarrow> length s \<le> protocol_v3_max_payload"

definition enc_string :: "string \<Rightarrow> frame" where
  "enc_string s = be_bytes 4 (word_of_nat (length s) :: 32 word) @ map byte_of_char s"

lemma char_of_byte_of_char [simp]: "char_of_byte (byte_of_char c) = c"
proof -
  have "of_char c < (256 :: nat)" by simp
  then show ?thesis by (simp add: char_of_byte_def byte_of_char_def unat_of_nat)
qed

lemma byte_of_char_of_byte [simp]: "byte_of_char (char_of_byte b) = b"
proof -
  have "unat b < 2 ^ LENGTH(8)" by (rule unsigned_less)
  then show ?thesis by (simp add: char_of_byte_def byte_of_char_def)
qed

lemma map_char_byte [simp]: "map (char_of_byte \<circ> byte_of_char) s = s"
  "map (byte_of_char \<circ> char_of_byte) f = f"
  by (simp_all add: comp_def)

interpretation u16: codec fappend_u16 fget_u16 "\<lambda>_. True" "be_bytes 2"
  by unfold_locales (simp_all add: fappend_u16_def fget_u16_def fget_value_iff)

interpretation u32: codec fappend_u32 fget_u32 "\<lambda>_. True" "be_bytes 4"
  by unfold_locales (simp_all add: fappend_u32_def fget_u32_def fget_value_iff)

interpretation u64: codec fappend_u64 fget_u64 "\<lambda>_. True" "be_bytes 8"
  by unfold_locales (simp_all add: fappend_u64_def fget_u64_def fget_value_iff)

interpretation i32: codec fappend_i32 fget_i32 in_i32 enc_i32
  by unfold_locales (auto simp: fappend_i32_def fget_i32_def enc_i32_def u32.put_ok reader_iffs
      u32.get_iff sint_word_of_int_i32)

interpretation i64: codec fappend_i64 fget_i64 in_i64 enc_i64
  by unfold_locales (auto simp: fappend_i64_def fget_i64_def enc_i64_def u64.put_ok reader_iffs
      u64.get_iff sint_word_of_int_i64)

lemma unat_string_length: "ok_string s \<Longrightarrow> unat (word_of_nat (length s) :: 32 word) = length s"
  by (simp add: ok_string_def protocol_v3_max_payload_def unat_of_nat)

interpretation str: codec fappend_string fget_string ok_string enc_string
proof
  fix x f
  assume "ok_string x"
  then show "fappend_string x f = Inr (f @ enc_string x)"
    by (simp add: fappend_string_def ok_string_def enc_string_def fappend_u32_def)
next
  fix bs x rest
  show "fget_string bs = Inr (x, rest) \<longleftrightarrow> ok_string x \<and> bs = enc_string x @ rest"
  proof
    assume "fget_string bs = Inr (x, rest)"
    then obtain len :: "32 word" and bs' where l: "bs = be_bytes 4 len @ bs'" "unat len \<le> protocol_v3_max_payload"
      "unat len \<le> length bs'" "x = map char_of_byte (take (unat len) bs')" "rest = drop (unat len) bs'"
      by (auto simp: fget_string_def reader_iffs u32.get_iff not_less split: if_splits)
    then have "length x = unat len" "map byte_of_char x = take (unat len) bs'" by simp_all
    with l show "ok_string x \<and> bs = enc_string x @ rest"
      by (simp add: ok_string_def enc_string_def)
  next
    assume *: "ok_string x \<and> bs = enc_string x @ rest"
    then show "fget_string bs = Inr (x, rest)"
      by (auto simp: fget_string_def reader_iffs u32.get_iff enc_string_def unat_string_length
          intro!: exI [of _ "word_of_nat (length x)"]) (simp_all add: ok_string_def)
  qed
qed

lemmas primitive_puts = u16.put_ok u32.put_ok u64.put_ok i32.put_ok i64.put_ok str.put_ok
lemmas primitive_gets = u16.get_iff u32.get_iff u64.get_iff i32.get_iff i64.get_iff str.get_iff

subsection \<open>Escaping is lossless\<close>

lemma default_tables:
  "default_escapes 0x5C = Some [0x5C, 0x5C]" "default_escapes 0x0A = Some [0x5C, 0x6E]"
  "b \<noteq> 0x5C \<Longrightarrow> b \<noteq> 0x0A \<Longrightarrow> default_escapes b = None"
  "default_unescapes 0x5C = Some [0x5C \<mapsto> 0x5C, 0x6E \<mapsto> 0x0A]"
  "b \<noteq> 0x5C \<Longrightarrow> default_unescapes b = None"
  by (simp_all add: default_escapes_def default_unescapes_def)

lemma unescape_plain:
  "b \<noteq> 0x5C \<Longrightarrow> frame_unescape default_unescapes (b # bs) = b # frame_unescape default_unescapes bs"
  by (cases bs) (simp_all add: default_tables)

lemma unescape_escape: "frame_unescape default_unescapes (frame_escape default_escapes f) = f"
proof (induction f)
  case (Cons b f)
  consider "b = 0x5C" | "b = 0x0A" | "b \<noteq> 0x5C" "b \<noteq> 0x0A" by blast
  then show ?case by cases (use Cons in \<open>simp_all add: default_tables unescape_plain\<close>)
qed simp

lemma escape_no_newline: "0x0A \<notin> set (frame_escape default_escapes f)"
proof (induction f)
  case (Cons b f)
  consider "b = 0x5C" | "b = 0x0A" | "b \<noteq> 0x5C" "b \<noteq> 0x0A" by blast
  then show ?case by cases (use Cons in \<open>simp_all add: default_tables\<close>)
qed simp

subsection \<open>Splitting a message\<close>

lemma concat_substr:
  "concat (map (\<lambda>i. substr (n * i) n s) [0..<k]) = take (n * k) s"
proof (induction k)
  case (Suc k)
  have "n * Suc k = n * k + n" by simp
  then have "take (n * k) s @ substr (n * k) n s = take (n * Suc k) s"
    by (simp only: substr_def take_add)
  with Suc show ?case by simp
qed simp

lemma concat_split_contents: "concat (split_contents n s) = s"
proof -
  have "take (n * (length s div n)) s @ drop (length s div n * n) s = s" by (simp add: mult.commute)
  moreover have "length s mod n = 0 \<Longrightarrow> take (n * (length s div n)) s = s"
    by (simp add: minus_mod_eq_mult_div [symmetric])
  ultimately show ?thesis by (simp add: split_contents_def Let_def concat_substr)
qed

lemma split_contents_bound:
  assumes "0 < n" "c \<in> set (split_contents n s)"
  shows "length c \<le> n"
proof -
  have "length s - length s div n * n < n"
    using assms(1) by (simp add: minus_div_mult_eq_mod)
  then show ?thesis
    using assms(2) by (auto simp: split_contents_def Let_def substr_def split: if_splits)
qed

lemma make_frames_ok:
  "list_all ok_string cs \<Longrightarrow> in_i32 t \<Longrightarrow>
     make_frames t cs = Inr (map (\<lambda>i. enc_i32 (if Suc i < length cs then 2 else t) @ enc_string (cs ! i))
       [0..<length cs])"
proof (induction cs)
  case Nil
  then show ?case by simp
next
  case (Cons c cs)
  have two: "in_i32 2" by (simp add: in_i32_def)
  let ?F = "\<lambda>cs i. enc_i32 (if Suc i < length cs then 2 else t) @ enc_string (cs ! i)"
  have "map (?F (c # cs)) [0..<length (c # cs)]
    = (enc_i32 (if cs \<noteq> [] then 2 else t) @ enc_string c) # map (?F cs) [0..<length cs]"
    by (rule nth_equalityI) (auto simp: nth_Cons simp del: upt_Suc split: nat.splits)
  with Cons two show ?case by (simp add: make_frame_def primitive_puts)
qed

subsection \<open>Properties\<close>

text \<open>
  A message of any length, split into frames, arrives whole: every frame reads back as its type
  and its part with nothing left over, the parts concatenate to the message, the last frame carries
  the message's type, and every earlier one the type 2 that announces more.
\<close>

lemma str_to_frames_reassembles:
  assumes "in_i32 t"
  shows "\<exists>frames parts. str_to_frames t msg = Inr frames \<and> concat parts = msg \<and>
    length frames = length parts \<and> frames \<noteq> [] \<and>
    list_all (\<lambda>i. rbind fget_i32 (\<lambda>ty. rbind fget_string (\<lambda>s. rreturn (ty, s))) (frames ! i)
      = Inr ((if Suc i < length parts then 2 else t, parts ! i), [])) [0..<length frames]"
proof -
  let ?n = "frame_max_length div 2"
  have n: "?n \<le> protocol_v3_max_payload" "0 < ?n"
    by (simp_all add: frame_max_length_def protocol_v3_max_payload_def)
  have rd: "rbind fget_i32 (\<lambda>ty. rbind fget_string (\<lambda>s. rreturn (ty, s))) (enc_i32 u @ enc_string s)
      = Inr ((u, s), [])" if "in_i32 u" "ok_string s" for u s
    using that by (simp add: reader_iffs primitive_gets)
  have two: "in_i32 2" by (simp add: in_i32_def)
  show ?thesis
  proof (cases "length msg \<le> ?n")
    case True
    then have "ok_string msg" using n by (simp add: ok_string_def)
    with True assms rd [of t msg] show ?thesis
      by (intro exI [of _ "[enc_i32 t @ enc_string msg]"] exI [of _ "[msg]"])
        (simp add: str_to_frames_def make_frame_def primitive_puts)
  next
    case False
    let ?ps = "split_contents ?n msg"
    have ok: "list_all ok_string ?ps"
      using split_contents_bound [OF n(2)] n(1) by (fastforce simp: list_all_iff ok_string_def)
    have "?ps \<noteq> []" using concat_split_contents [of ?n msg] False by auto
    moreover have "ok_string (?ps ! i)" if "i < length ?ps" for i
      using ok that by (auto simp: list_all_iff)
    ultimately show ?thesis
      using False make_frames_ok [OF ok assms] concat_split_contents [of ?n msg] rd assms two
      by (intro exI [of _ "map (\<lambda>i. enc_i32 (if Suc i < length ?ps then 2 else t) @ enc_string (?ps ! i))
            [0..<length ?ps]"] exI [of _ ?ps]) (auto simp: str_to_frames_def Let_def list_all_iff)
  qed
qed

lemma str_to_frames_reassembles_example:
  "\<exists>frames parts. str_to_frames 0 ''ok'' = Inr frames \<and> concat parts = ''ok'' \<and> frames \<noteq> []"
  using str_to_frames_reassembles [of 0 "''ok''"] by (auto simp: in_i32_def)

text \<open>
  Escaping is undone by unescaping, and an escaped frame has no newline in it, so newlines can
  delimit frames.
\<close>

lemma escape_roundtrip:
  "frame_unescape default_unescapes (frame_escape default_escapes f) = f \<and>
   0x0A \<notin> set (frame_escape default_escapes f)"
  by (simp add: unescape_escape escape_no_newline)

text \<open>
  Frames carry messages unchanged.  A message of any length, split into frames, arrives whole: every frame reads back as
  its type and its part with nothing left over, the parts concatenate to the message, the last frame carries the
  message's type, and every earlier one the type 2 that announces more.  Escaping is undone by unescaping, and an
  escaped frame has no newline in it, so newlines can delimit frames.
\<close>

lemma frames_roundtrip:
  assumes "in_i32 t"
  shows "(\<exists>frames parts. str_to_frames t msg = Inr frames \<and> concat parts = msg \<and>
    length frames = length parts \<and> frames \<noteq> [] \<and>
    list_all (\<lambda>i. rbind fget_i32 (\<lambda>ty. rbind fget_string (\<lambda>s. rreturn (ty, s))) (frames ! i)
      = Inr ((if Suc i < length parts then 2 else t, parts ! i), [])) [0..<length frames]) \<and>
    frame_unescape default_unescapes (frame_escape default_escapes f) = f \<and>
    0x0A \<notin> set (frame_escape default_escapes f)"
  by (intro conjI str_to_frames_reassembles [OF assms] escape_roundtrip [THEN conjunct1] escape_roundtrip [THEN conjunct2])

lemma frames_roundtrip_example:
  "(\<exists>frames parts. str_to_frames 0 ''ok'' = Inr frames \<and> concat parts = ''ok'' \<and> frames \<noteq> []) \<and>
   frame_unescape default_unescapes (frame_escape default_escapes [0x0A]) = [0x0A]"
  using frames_roundtrip [of 0 "''ok''" "[0x0A]"] by (auto simp: in_i32_def)

end
