(* ===== verification/Prog_Cfg.thy ===== *)
theory Prog_Cfg
  imports Frame_Stream
begin

section \<open>Program configurations and their wire format (core/prog_cfg, core/protocol_v3)\<close>

text \<open>
  The configuration record of a program, its enumerations, and \<open>append_prog_cfg\<close> and \<open>read_prog_cfg\<close>,
  which carry it in start requests and inspect replies.  The reader accepts exactly the canonical
  encodings of well-formed configurations, so a configuration survives the wire unchanged.
\<close>

datatype failure_action_t = FA_skip | FA_restart | FA_reboot

datatype log_mode_t = LM_split | LM_combined

text \<open>The casts between the enumerations and their underlying integers.\<close>

fun failure_action_code :: "failure_action_t \<Rightarrow> int" where
  "failure_action_code FA_skip = 0"
| "failure_action_code FA_restart = 1"
| "failure_action_code FA_reboot = 2"

definition failure_action_of :: "int \<Rightarrow> failure_action_t" where
  "failure_action_of n = (if n = 0 then FA_skip else if n = 1 then FA_restart else FA_reboot)"

fun failure_action_to_str :: "failure_action_t \<Rightarrow> string" where
  "failure_action_to_str FA_skip = ''skip''"
| "failure_action_to_str FA_restart = ''restart''"
| "failure_action_to_str FA_reboot = ''reboot''"

definition str_to_failure_action :: "string \<Rightarrow> failure_action_t res" where
  "str_to_failure_action s =
     (if s = ''skip'' then Inr FA_skip
      else if s = ''restart'' then Inr FA_restart
      else if s = ''reboot'' then Inr FA_reboot
      else Inl (Invalid_argument (''illegal `'' @ s @ ''`'')))"

fun log_mode_code :: "log_mode_t \<Rightarrow> int" where
  "log_mode_code LM_split = 0"
| "log_mode_code LM_combined = 1"

definition log_mode_of :: "int \<Rightarrow> log_mode_t" where
  "log_mode_of n = (if n = 0 then LM_split else LM_combined)"

record prog_cfg_t =
  cfg_name :: string
  cfg_cwd :: string
  cfg_executable :: string
  cfg_args :: "string list"
  cfg_kill_timeout_s :: int
  cfg_run_as :: string
  cfg_envs :: "string list"
  cfg_depends_on :: "string list"
  cfg_start_timeout :: int
  cfg_failure_action :: failure_action_t
  cfg_daemon :: bool
  cfg_heartbeat_timeout :: int
  cfg_env_vars :: "string list"
  cfg_oom_score_adj :: int
  cfg_pty :: bool
  cfg_log_mode :: log_mode_t
  cfg_log_dir :: string
  cfg_log_file_name :: string
  cfg_log_max_size_kb :: int
  cfg_log_archive_count :: int
  cfg_restart_delay_ms :: int
  cfg_restart_max_delay_ms :: int
  cfg_restart_window_ms :: int
  cfg_restart_max_attempts :: int
  cfg_restart_reset_after_ms :: int

definition default_prog_cfg :: prog_cfg_t where
  "default_prog_cfg =
     \<lparr>cfg_name = [], cfg_cwd = [], cfg_executable = [], cfg_args = [], cfg_kill_timeout_s = 3,
      cfg_run_as = [], cfg_envs = [], cfg_depends_on = [], cfg_start_timeout = 0,
      cfg_failure_action = FA_skip, cfg_daemon = True, cfg_heartbeat_timeout = -1,
      cfg_env_vars = [], cfg_oom_score_adj = 0, cfg_pty = False, cfg_log_mode = LM_split,
      cfg_log_dir = [], cfg_log_file_name = [], cfg_log_max_size_kb = 4096,
      cfg_log_archive_count = 3, cfg_restart_delay_ms = 1000, cfg_restart_max_delay_ms = 30000,
      cfg_restart_window_ms = 60000, cfg_restart_max_attempts = 10,
      cfg_restart_reset_after_ms = 60000\<rparr>"

subsection \<open>Booleans and lists of strings\<close>

definition append_bool :: "bool \<Rightarrow> appender" where
  "append_bool v = fappend_i32 (if v then 1 else 0)"

definition read_bool :: "string \<Rightarrow> bool reader" where
  "read_bool field = rbind fget_i32 (\<lambda>v.
     rguard (v \<noteq> 0 \<and> v \<noteq> 1) (Protocol_error field) (rreturn (v \<noteq> 0)))"

definition int32_max :: nat where
  "int32_max = 2 ^ 31 - 1"

text \<open>A counted list: the writer throws \<open>e\<close> above \<open>INT32_MAX\<close>, the reader above its own maximum.\<close>

definition append_counted :: "exn \<Rightarrow> string list \<Rightarrow> appender" where
  "append_counted e xs f =
     (if length xs > int32_max then Inl e
      else res_bind (fappend_i32 (int (length xs)) f) (append_all (map fappend_string xs)))"

definition read_counted :: "int \<Rightarrow> string \<Rightarrow> string list reader" where
  "read_counted max_items field = rbind fget_i32 (\<lambda>count.
     rguard (count < 0 \<or> count > max_items) (Protocol_error field)
       (read_n (nat count) fget_string))"

definition max_start_items :: int where
  "max_start_items = 100000"

definition append_strings :: "string list \<Rightarrow> appender" where
  "append_strings = append_counted (Protocol_error ''start list is too large'')"

definition read_strings :: "string \<Rightarrow> string list reader" where
  "read_strings = read_counted max_start_items"

subsection \<open>The configuration\<close>

definition prog_cfg_schema_version :: int where
  "prog_cfg_schema_version = 2"

definition append_prog_cfg :: "prog_cfg_t \<Rightarrow> appender" where
  "append_prog_cfg cfg = append_all
     [fappend_i32 prog_cfg_schema_version,
      fappend_string (cfg_name cfg),
      fappend_string (cfg_cwd cfg),
      fappend_string (cfg_executable cfg),
      append_strings (cfg_args cfg),
      fappend_i32 (cfg_kill_timeout_s cfg),
      fappend_string (cfg_run_as cfg),
      append_strings (cfg_env_vars cfg),
      append_strings (cfg_depends_on cfg),
      fappend_i32 (cfg_start_timeout cfg),
      fappend_i32 (failure_action_code (cfg_failure_action cfg)),
      append_bool (cfg_daemon cfg),
      fappend_i32 (cfg_heartbeat_timeout cfg),
      fappend_i32 (cfg_oom_score_adj cfg),
      append_bool (cfg_pty cfg),
      fappend_i32 (log_mode_code (cfg_log_mode cfg)),
      fappend_string (cfg_log_dir cfg),
      fappend_string (cfg_log_file_name cfg),
      fappend_i32 (cfg_log_max_size_kb cfg),
      fappend_i32 (cfg_log_archive_count cfg),
      fappend_i32 (cfg_restart_delay_ms cfg),
      fappend_i32 (cfg_restart_max_delay_ms cfg),
      fappend_i32 (cfg_restart_window_ms cfg),
      fappend_i32 (cfg_restart_max_attempts cfg),
      fappend_i32 (cfg_restart_reset_after_ms cfg)]"

definition read_prog_cfg :: "prog_cfg_t reader" where
  "read_prog_cfg =
     rbind fget_i32 (\<lambda>schema.
     rguard (schema \<noteq> prog_cfg_schema_version) (Protocol_error ''unsupported program-config schema'') (
     rbind fget_string (\<lambda>name.
     rbind fget_string (\<lambda>cwd.
     rbind fget_string (\<lambda>executable.
     rbind (read_strings ''invalid start argv count'') (\<lambda>args.
     rbind fget_i32 (\<lambda>kill_timeout_s.
     rbind fget_string (\<lambda>run_as.
     rbind (read_strings ''invalid explicit environment count'') (\<lambda>env_vars.
     rbind (read_strings ''invalid dependency count'') (\<lambda>depends_on.
     rbind fget_i32 (\<lambda>start_timeout.
     rbind fget_i32 (\<lambda>failure_action.
     rguard (failure_action < 0 \<or> failure_action > 2) (Protocol_error ''invalid failure action'') (
     rbind (read_bool ''invalid daemon flag'') (\<lambda>daemon.
     rbind fget_i32 (\<lambda>heartbeat_timeout.
     rbind fget_i32 (\<lambda>oom_score_adj.
     rbind (read_bool ''invalid PTY flag'') (\<lambda>pty.
     rbind fget_i32 (\<lambda>log_mode.
     rbind fget_string (\<lambda>log_dir.
     rbind fget_string (\<lambda>log_file_name.
     rbind fget_i32 (\<lambda>log_max_size_kb.
     rbind fget_i32 (\<lambda>log_archive_count.
     rguard (log_mode < 0 \<or> log_mode > 1) (Protocol_error ''invalid log mode'') (
     rbind fget_i32 (\<lambda>restart_delay_ms.
     rbind fget_i32 (\<lambda>restart_max_delay_ms.
     rbind fget_i32 (\<lambda>restart_window_ms.
     rbind fget_i32 (\<lambda>restart_max_attempts.
     rbind fget_i32 (\<lambda>restart_reset_after_ms.
     rreturn (default_prog_cfg
       \<lparr>cfg_name := name, cfg_cwd := cwd, cfg_executable := executable, cfg_args := args,
        cfg_kill_timeout_s := kill_timeout_s, cfg_run_as := run_as, cfg_env_vars := env_vars,
        cfg_depends_on := depends_on, cfg_start_timeout := start_timeout,
        cfg_failure_action := failure_action_of failure_action, cfg_daemon := daemon,
        cfg_heartbeat_timeout := heartbeat_timeout, cfg_oom_score_adj := oom_score_adj,
        cfg_pty := pty, cfg_log_mode := log_mode_of log_mode, cfg_log_dir := log_dir,
        cfg_log_file_name := log_file_name, cfg_log_max_size_kb := log_max_size_kb,
        cfg_log_archive_count := log_archive_count, cfg_restart_delay_ms := restart_delay_ms,
        cfg_restart_max_delay_ms := restart_max_delay_ms, cfg_restart_window_ms := restart_window_ms,
        cfg_restart_max_attempts := restart_max_attempts,
        cfg_restart_reset_after_ms := restart_reset_after_ms\<rparr>)))))))))))))))))))))))))))))"

subsection \<open>Round trips of the pieces\<close>

lemma failure_action_code_inverse [simp]: "failure_action_of (failure_action_code a) = a"
  by (cases a) (simp_all add: failure_action_of_def)

lemma failure_action_of_inverse:
  "\<not> (n < 0 \<or> n > 2) \<Longrightarrow> failure_action_code (failure_action_of n) = n"
  by (auto simp: failure_action_of_def)

lemma log_mode_code_inverse [simp]: "log_mode_of (log_mode_code m) = m"
  by (cases m) (simp_all add: log_mode_of_def)

lemma log_mode_of_inverse: "\<not> (n < 0 \<or> n > 1) \<Longrightarrow> log_mode_code (log_mode_of n) = n"
  by (auto simp: log_mode_of_def)

lemma enum_code_range [simp]:
  "in_i32 (failure_action_code a)" "in_i32 (log_mode_code m)"
  "\<not> failure_action_code a < 0" "\<not> 2 < failure_action_code a"
  "\<not> log_mode_code m < 0" "\<not> 1 < log_mode_code m"
  by (cases a; cases m; simp add: in_i32_def)+

lemma str_to_failure_action_inverse:
  "str_to_failure_action (failure_action_to_str a) = Inr a"
  by (cases a) (simp_all add: str_to_failure_action_def)

definition enc_bool :: "bool \<Rightarrow> frame" where
  "enc_bool v = enc_i32 (if v then 1 else 0)"

definition enc_strings :: "string list \<Rightarrow> frame" where
  "enc_strings xs = enc_i32 (int (length xs)) @ concat (map enc_string xs)"

definition ok_strings :: "int \<Rightarrow> string list \<Rightarrow> bool" where
  "ok_strings m xs \<longleftrightarrow> int (length xs) \<le> m \<and> list_all ok_string xs"

lemma in_i32_small [simp]: "in_i32 0" "in_i32 1" "in_i32 2" "in_i32 5"
  by (simp_all add: in_i32_def)

interpretation bool: codec append_bool "read_bool field" "\<lambda>_. True" enc_bool for field
proof
  fix x :: bool and f :: frame
  show "append_bool x f = Inr (f @ enc_bool x)" by (simp add: append_bool_def enc_bool_def i32.put_ok)
next
  fix bs x rest
  have "(0 \<noteq> v \<and> v = 1) = (v = (1 :: int))" for v by auto
  then show "read_bool field bs = Inr (x, rest) \<longleftrightarrow> True \<and> bs = enc_bool x @ rest"
    by (cases x) (auto simp: read_bool_def reader_iffs i32.get_iff enc_bool_def intro: exI [of _ "1::int"])
qed

lemma append_counted_ok:
  "ok_strings m xs \<Longrightarrow> m \<le> 100000 \<Longrightarrow> append_counted e xs f = Inr (f @ enc_strings xs)"
proof -
  assume *: "ok_strings m xs" "m \<le> 100000"
  then have "in_i32 (int (length xs))" "\<not> length xs > int32_max" "list_all ok_string xs"
    by (auto simp: ok_strings_def in_i32_def int32_max_def)
  then show ?thesis by (simp add: append_counted_def i32.put_ok str.put_list enc_strings_def)
qed

lemma read_counted_iff:
  assumes "m \<le> 100000"
  shows "read_counted m field bs = Inr (xs, rest) \<longleftrightarrow> ok_strings m xs \<and> bs = enc_strings xs @ rest"
proof
  assume "read_counted m field bs = Inr (xs, rest)"
  then show "ok_strings m xs \<and> bs = enc_strings xs @ rest"
    by (auto simp: read_counted_def reader_iffs i32.get_iff str.read_n_iff ok_strings_def enc_strings_def)
next
  assume *: "ok_strings m xs \<and> bs = enc_strings xs @ rest"
  then have "in_i32 (int (length xs))" using assms by (auto simp: ok_strings_def in_i32_def)
  with * show "read_counted m field bs = Inr (xs, rest)"
    by (auto simp: read_counted_def reader_iffs i32.get_iff str.read_n_iff ok_strings_def enc_strings_def
        intro!: exI [of _ "int (length xs)"])
qed

interpretation strings: codec append_strings "read_strings field" "ok_strings max_start_items" enc_strings
  for field
  by unfold_locales (simp_all add: append_strings_def read_strings_def append_counted_ok read_counted_iff
      max_start_items_def)

lemmas field_puts = primitive_puts bool.put_ok strings.put_ok
lemmas field_gets = primitive_gets bool.get_iff strings.get_iff

text \<open>Reading a field whose format comes next.\<close>

lemma rbind_enc:
  "in_i32 n \<Longrightarrow> rbind fget_i32 k (enc_i32 n @ r) = k n r"
  "in_i64 n \<Longrightarrow> rbind fget_i64 k (enc_i64 n @ r) = k n r"
  "rbind fget_u64 ku (be_bytes 8 w @ r) = ku w r"
  "ok_string s \<Longrightarrow> rbind fget_string ks (enc_string s @ r) = ks s r"
  "rbind (read_bool field) kb (enc_bool b @ r) = kb b r"
  "ok_strings max_start_items xs \<Longrightarrow> rbind (read_strings field) kl (enc_strings xs @ r) = kl xs r"
  using i32.get_iff [of "enc_i32 n @ r" n r] i64.get_iff [of "enc_i64 n @ r" n r]
    u64.get_iff [of "be_bytes 8 w @ r" w r] str.get_iff [of "enc_string s @ r" s r]
    bool.get_iff [of field "enc_bool b @ r" b r] strings.get_iff [of field "enc_strings xs @ r" xs r]
  by (simp_all add: rbind_def)

lemma rguard_False [simp]: "rguard False e k = k"
  by (simp add: rguard_def fun_eq_iff)

subsection \<open>Round trip of the configuration\<close>

definition ok_prog_cfg :: "prog_cfg_t \<Rightarrow> bool" where
  "ok_prog_cfg cfg \<longleftrightarrow>
     cfg_envs cfg = [] \<and>
     list_all ok_string [cfg_name cfg, cfg_cwd cfg, cfg_executable cfg, cfg_run_as cfg, cfg_log_dir cfg,
       cfg_log_file_name cfg] \<and>
     list_all (ok_strings max_start_items) [cfg_args cfg, cfg_env_vars cfg, cfg_depends_on cfg] \<and>
     list_all in_i32 [cfg_kill_timeout_s cfg, cfg_start_timeout cfg, cfg_heartbeat_timeout cfg,
       cfg_oom_score_adj cfg, cfg_log_max_size_kb cfg, cfg_log_archive_count cfg,
       cfg_restart_delay_ms cfg, cfg_restart_max_delay_ms cfg, cfg_restart_window_ms cfg,
       cfg_restart_max_attempts cfg, cfg_restart_reset_after_ms cfg]"

definition enc_prog_cfg :: "prog_cfg_t \<Rightarrow> frame" where
  "enc_prog_cfg cfg = concat
     [enc_i32 prog_cfg_schema_version,
      enc_string (cfg_name cfg), enc_string (cfg_cwd cfg), enc_string (cfg_executable cfg),
      enc_strings (cfg_args cfg), enc_i32 (cfg_kill_timeout_s cfg), enc_string (cfg_run_as cfg),
      enc_strings (cfg_env_vars cfg), enc_strings (cfg_depends_on cfg),
      enc_i32 (cfg_start_timeout cfg), enc_i32 (failure_action_code (cfg_failure_action cfg)),
      enc_bool (cfg_daemon cfg), enc_i32 (cfg_heartbeat_timeout cfg), enc_i32 (cfg_oom_score_adj cfg),
      enc_bool (cfg_pty cfg), enc_i32 (log_mode_code (cfg_log_mode cfg)),
      enc_string (cfg_log_dir cfg), enc_string (cfg_log_file_name cfg),
      enc_i32 (cfg_log_max_size_kb cfg), enc_i32 (cfg_log_archive_count cfg),
      enc_i32 (cfg_restart_delay_ms cfg), enc_i32 (cfg_restart_max_delay_ms cfg),
      enc_i32 (cfg_restart_window_ms cfg), enc_i32 (cfg_restart_max_attempts cfg),
      enc_i32 (cfg_restart_reset_after_ms cfg)]"

lemma read_prog_cfg_sound:
  "read_prog_cfg bs = Inr (cfg, rest) \<Longrightarrow> ok_prog_cfg cfg \<and> bs = enc_prog_cfg cfg @ rest"
  by (auto simp: read_prog_cfg_def reader_iffs field_gets ok_prog_cfg_def enc_prog_cfg_def
      default_prog_cfg_def prog_cfg_schema_version_def failure_action_of_inverse log_mode_of_inverse)

lemma read_prog_cfg_complete:
  "ok_prog_cfg cfg \<Longrightarrow> read_prog_cfg (enc_prog_cfg cfg @ rest) = Inr (cfg, rest)"
  by (simp add: read_prog_cfg_def enc_prog_cfg_def ok_prog_cfg_def rbind_enc rreturn_def
      prog_cfg_schema_version_def default_prog_cfg_def)

interpretation prog_cfg: codec append_prog_cfg read_prog_cfg ok_prog_cfg enc_prog_cfg
proof
  fix x f
  assume "ok_prog_cfg x"
  then show "append_prog_cfg x f = Inr (f @ enc_prog_cfg x)"
    by (simp add: append_prog_cfg_def enc_prog_cfg_def ok_prog_cfg_def field_puts prog_cfg_schema_version_def)
next
  fix bs x rest
  show "read_prog_cfg bs = Inr (x, rest) \<longleftrightarrow> ok_prog_cfg x \<and> bs = enc_prog_cfg x @ rest"
    using read_prog_cfg_sound read_prog_cfg_complete by blast
qed

end
