(* ===== verification/Protocol_V3.thy ===== *)
theory Protocol_V3
  imports Prog_Cfg
begin

section \<open>Protocol version 3: framing and start messages (core/protocol_v3)\<close>

text \<open>
  The message header, \<open>protocol_encode\<close>, the incremental \<open>protocol_decoder\<close>, and the start request and
  response.  The decoder is a state machine fed with whatever the socket delivers; the exception
  it may throw is returned beside the state the object is left in.
\<close>

subsection \<open>Messages\<close>

record protocol_message =
  pm_type :: "16 word"
  pm_flags :: byte
  pm_request_id :: "32 word"
  pm_payload :: frame

definition header_size :: nat where
  "header_size = 16"

definition magic :: frame where
  "magic = map byte_of_char ''PMT3''"

definition protocol_v3_version :: byte where
  "protocol_v3_version = 3"

definition protocol_flag_response :: byte where "protocol_flag_response = 0x01"
definition protocol_flag_error :: byte where "protocol_flag_error = 0x02"
definition protocol_flag_stream :: byte where "protocol_flag_stream = 0x04"
definition protocol_flag_more :: byte where "protocol_flag_more = 0x08"

definition put16 :: "16 word \<Rightarrow> frame" where
  "put16 v = [ucast (drop_bit 8 v), ucast v]"

definition put32 :: "32 word \<Rightarrow> frame" where
  "put32 v = [ucast (drop_bit 24 v), ucast (drop_bit 16 v), ucast (drop_bit 8 v), ucast v]"

definition get16 :: "frame \<Rightarrow> 16 word" where
  "get16 p = push_bit 8 (ucast (p ! 0)) OR ucast (p ! 1)"

definition get32 :: "frame \<Rightarrow> 32 word" where
  "get32 p = push_bit 24 (ucast (p ! 0)) OR push_bit 16 (ucast (p ! 1)) OR
     push_bit 8 (ucast (p ! 2)) OR ucast (p ! 3)"

text \<open>\<open>True\<close> when \<open>validate_flags\<close> does not throw.\<close>

definition valid_flags :: "byte \<Rightarrow> bool" where
  "valid_flags flags \<longleftrightarrow>
     (let allowed = protocol_flag_response OR protocol_flag_error OR protocol_flag_stream OR
            protocol_flag_more in
      \<not> (flags AND NOT allowed \<noteq> 0 \<or>
         (flags AND protocol_flag_error \<noteq> 0 \<and> flags AND protocol_flag_response = 0) \<or>
         (flags AND protocol_flag_more \<noteq> 0 \<and> flags AND protocol_flag_stream = 0)))"

definition protocol_encode :: "protocol_message \<Rightarrow> exn + frame" where
  "protocol_encode m =
     (if length (pm_payload m) > protocol_v3_max_payload
        then Inl (Protocol_error ''protocol payload exceeds maximum size'')
      else if \<not> valid_flags (pm_flags m) then Inl (Protocol_error ''invalid protocol flags'')
      else Inr (magic @ [protocol_v3_version, pm_flags m] @ put16 (pm_type m) @
        put32 (pm_request_id m) @ put32 (word_of_nat (length (pm_payload m))) @ pm_payload m))"

subsection \<open>The decoder\<close>

record protocol_decoder =
  pd_buffer :: frame
  pd_messages :: "protocol_message list"

definition empty_decoder :: protocol_decoder where
  "empty_decoder = \<lparr>pd_buffer = [], pd_messages = []\<rparr>"

text \<open>The checks of the loop on a buffer that holds at least a header.\<close>

definition header_error :: "frame \<Rightarrow> exn option" where
  "header_error buffer =
     (if take 4 buffer \<noteq> magic then Some (Protocol_error ''invalid protocol magic'')
      else if buffer ! 4 \<noteq> protocol_v3_version then Some (Protocol_error ''unsupported protocol version'')
      else if \<not> valid_flags (buffer ! 5) then Some (Protocol_error ''invalid protocol flags'')
      else if unat (get32 (drop 12 buffer)) > protocol_v3_max_payload
        then Some (Protocol_error ''protocol payload exceeds maximum size'')
      else None)"

definition total_size :: "frame \<Rightarrow> nat" where
  "total_size buffer = header_size + unat (get32 (drop 12 buffer))"

definition head_message :: "frame \<Rightarrow> protocol_message" where
  "head_message buffer =
     \<lparr>pm_type = get16 (drop 6 buffer), pm_flags = buffer ! 5, pm_request_id = get32 (drop 8 buffer),
      pm_payload = drop header_size (take (total_size buffer) buffer)\<rparr>"

function decode_loop ::
  "frame \<Rightarrow> protocol_message list \<Rightarrow> exn option \<times> frame \<times> protocol_message list" where
  "decode_loop buffer messages =
     (if length buffer < header_size then (None, buffer, messages)
      else (case header_error buffer of
              Some e \<Rightarrow> (Some e, buffer, messages)
            | None \<Rightarrow>
                if length buffer < total_size buffer then (None, buffer, messages)
                else decode_loop (drop (total_size buffer) buffer) (messages @ [head_message buffer])))"
  by pat_completeness auto
termination
  by (relation "measure (\<lambda>(buffer, messages). length buffer)") (auto simp: header_size_def total_size_def)

declare decode_loop.simps [simp del]

definition feed :: "frame \<Rightarrow> protocol_decoder \<Rightarrow> exn option \<times> protocol_decoder" where
  "feed data d =
     (if data = [] then (None, d)
      else (case decode_loop (pd_buffer d @ data) (pd_messages d) of
              (e, buffer, messages) \<Rightarrow> (e, \<lparr>pd_buffer = buffer, pd_messages = messages\<rparr>)))"

definition pop :: "protocol_decoder \<Rightarrow> exn + (protocol_message \<times> protocol_decoder)" where
  "pop d =
     (case pd_messages d of
        [] \<Rightarrow> Inl (Protocol_error ''no decoded protocol message'')
      | m # ms \<Rightarrow> Inr (m, d\<lparr>pd_messages := ms\<rparr>))"

definition has_buffered_input :: "protocol_decoder \<Rightarrow> bool" where
  "has_buffered_input d \<longleftrightarrow> pd_buffer d \<noteq> []"

text \<open>A sequence of reads from the socket; the caller stops at the first exception.\<close>

fun feed_all :: "frame list \<Rightarrow> protocol_decoder \<Rightarrow> exn option \<times> protocol_decoder" where
  "feed_all [] d = (None, d)"
| "feed_all (c # cs) d =
     (case feed c d of (None, d') \<Rightarrow> feed_all cs d' | (Some e, d') \<Rightarrow> (Some e, d'))"

subsection \<open>Start requests and responses\<close>

datatype start_mode = SM_existing | SM_create

fun start_mode_code :: "start_mode \<Rightarrow> int" where
  "start_mode_code SM_existing = 0"
| "start_mode_code SM_create = 1"

definition start_mode_of :: "int \<Rightarrow> start_mode" where
  "start_mode_of n = (if n = 0 then SM_existing else SM_create)"

datatype start_result = SR_started | SR_waiting | SR_blocked

fun start_result_code :: "start_result \<Rightarrow> int" where
  "start_result_code SR_started = 0"
| "start_result_code SR_waiting = 1"
| "start_result_code SR_blocked = 2"

definition start_result_of :: "int \<Rightarrow> start_result" where
  "start_result_of n = (if n = 0 then SR_started else if n = 1 then SR_waiting else SR_blocked)"

record start_request =
  sq_mode :: start_mode
  sq_name :: string
  sq_config :: prog_cfg_t
  sq_inherited_env :: "string list"
  sq_show_log :: bool

record start_response =
  sp_result :: start_result
  sp_pid :: int
  sp_state :: string
  sp_blocked_by :: "string list"
  sp_message :: string

definition start_schema_version :: int where
  "start_schema_version = 2"

definition env_entry_error :: "string \<Rightarrow> exn option" where
  "env_entry_error env =
     (if env = [] \<or> env ! 0 = CHR ''='' \<or> CHR ''='' \<notin> set env
        then Some (Protocol_error ''invalid explicit environment entry'')
      else if take 8 env = ''PM_TINY_''
        then Some (Protocol_error ''reserved PM_TINY environment override'')
      else None)"

text \<open>What \<open>validate_start_config\<close> throws, if anything.\<close>

definition validate_start_config :: "prog_cfg_t \<Rightarrow> exn option" where
  "validate_start_config cfg =
     (if cfg_name cfg = [] \<or> cfg_cwd cfg = [] \<or> cfg_executable cfg = []
        then Some (Protocol_error ''start definition requires name, cwd and executable'')
      else if cfg_kill_timeout_s cfg < 1 then Some (Protocol_error ''kill timeout must be positive'')
      else if cfg_oom_score_adj cfg < -1000 \<or> cfg_oom_score_adj cfg > 1000
        then Some (Protocol_error ''oom score adjustment is out of range'')
      else if cfg_restart_delay_ms cfg < 0 \<or> cfg_restart_max_delay_ms cfg < cfg_restart_delay_ms cfg \<or>
        cfg_restart_window_ms cfg < 1 \<or> cfg_restart_max_attempts cfg < 0 \<or>
        cfg_restart_reset_after_ms cfg < 0
        then Some (Protocol_error ''invalid restart policy'')
      else if cfg_log_max_size_kb cfg < 1 \<or> cfg_log_max_size_kb cfg > 1048576 \<or>
        cfg_log_archive_count cfg < 0 \<or> cfg_log_archive_count cfg > 100
        then Some (Protocol_error ''invalid log rotation configuration'')
      else if cfg_pty cfg \<and> cfg_log_mode cfg = LM_split
        then Some (Protocol_error ''PTY requires combined log mode'')
      else (case filter (\<lambda>env. env_entry_error env \<noteq> None) (cfg_env_vars cfg) of
              [] \<Rightarrow> None
            | env # _ \<Rightarrow> env_entry_error env))"

definition append_start_request :: "start_request \<Rightarrow> appender" where
  "append_start_request q = append_all
     [fappend_i32 start_schema_version,
      fappend_i32 (start_mode_code (sq_mode q)),
      fappend_string (sq_name q),
      append_prog_cfg (sq_config q),
      append_strings (sq_inherited_env q),
      append_bool (sq_show_log q)]"

text \<open>The check that nothing is left, at the end of a payload.\<close>

definition rguard_end :: "exn \<Rightarrow> 'a reader \<Rightarrow> 'a reader" where
  "rguard_end e k bs = (if bs \<noteq> [] then Inl e else k bs)"

definition read_payload :: "'a reader \<Rightarrow> frame \<Rightarrow> exn + 'a" where
  "read_payload r payload = res_bind (r payload) (\<lambda>(x, rest). Inr x)"

definition throw_if :: "exn option \<Rightarrow> 'a reader \<Rightarrow> 'a reader" where
  "throw_if e k bs = (case e of Some e' \<Rightarrow> Inl e' | None \<Rightarrow> k bs)"

definition start_request_reader :: "start_request reader" where
  "start_request_reader =
     rbind fget_i32 (\<lambda>schema.
     rbind fget_i32 (\<lambda>mode.
     rguard (schema \<noteq> start_schema_version) (Protocol_error ''unsupported start-request schema'') (
     rguard (mode < 0 \<or> mode > 1) (Protocol_error ''invalid start mode'') (
     rbind fget_string (\<lambda>name.
     rbind read_prog_cfg (\<lambda>config.
     rbind (read_strings ''invalid inherited environment count'') (\<lambda>inherited_env.
     rbind (read_bool ''invalid log flag'') (\<lambda>show_log.
     rguard_end (Protocol_error ''trailing start-request data'') (
     rguard (name = []) (Protocol_error ''start name is empty'') (
     throw_if (if start_mode_of mode = SM_create then validate_start_config config else None) (
     rreturn \<lparr>sq_mode = start_mode_of mode, sq_name = name, sq_config = config,
       sq_inherited_env = inherited_env, sq_show_log = show_log\<rparr>)))))))))))"

definition read_start_request :: "frame \<Rightarrow> exn + start_request" where
  "read_start_request = read_payload start_request_reader"

definition append_start_response :: "start_response \<Rightarrow> appender" where
  "append_start_response p = append_all
     [fappend_i32 start_schema_version,
      fappend_i32 (start_result_code (sp_result p)),
      fappend_i64 (sp_pid p),
      fappend_string (sp_state p),
      append_strings (sp_blocked_by p),
      fappend_string (sp_message p)]"

definition start_response_reader :: "start_response reader" where
  "start_response_reader =
     rbind fget_i32 (\<lambda>schema.
     rbind fget_i32 (\<lambda>result_value.
     rguard (schema \<noteq> start_schema_version) (Protocol_error ''unsupported start-response schema'') (
     rguard (result_value < 0 \<or> result_value > 2) (Protocol_error ''invalid start result'') (
     rbind fget_i64 (\<lambda>pid.
     rbind fget_string (\<lambda>state.
     rbind (read_strings ''invalid blocker count'') (\<lambda>blocked_by.
     rbind fget_string (\<lambda>message.
     rguard_end (Protocol_error ''trailing start-response data'') (
     rreturn \<lparr>sp_result = start_result_of result_value, sp_pid = pid, sp_state = state,
       sp_blocked_by = blocked_by, sp_message = message\<rparr>)))))))))"

definition read_start_response :: "frame \<Rightarrow> exn + start_response" where
  "read_start_response = read_payload start_response_reader"

end
