(* ===== verification/Protocol_V3_Correct.thy ===== *)
theory Protocol_V3_Correct
  imports Protocol_V3
begin

section \<open>Correctness of the protocol\<close>

text \<open>
  The decoder is the inverse of the encoder however the byte stream is cut into reads, it loses and
  invents nothing on streams it accepts, and its buffer is bounded; the start messages are read back
  exactly as they were written, and nothing else is accepted.
\<close>

subsection \<open>Whole payloads\<close>

text \<open>
  The contract of a payload that must be consumed to its end.  It gives the round trip, and that
  a truncated payload, or one with anything behind it, is refused.
\<close>

locale payload_codec =
  fixes put :: "'a \<Rightarrow> appender"
    and read :: "frame \<Rightarrow> exn + 'a"
    and ok :: "'a \<Rightarrow> bool"
    and enc :: "'a \<Rightarrow> frame"
  assumes payload_put: "ok x \<Longrightarrow> put x f = Inr (f @ enc x)"
    and payload_iff: "read bs = Inr x \<longleftrightarrow> ok x \<and> bs = enc x"
begin

lemma payload_roundtrip: "ok x \<Longrightarrow> \<exists>bs. put x [] = Inr bs \<and> read bs = Inr x"
  by (simp add: payload_put payload_iff)

lemma payload_canonical: "read bs = Inr x \<Longrightarrow> put x [] = Inr bs"
  by (simp add: payload_put payload_iff)

lemma payload_iff_put: "read bs = Inr x \<longleftrightarrow> ok x \<and> put x [] = Inr bs"
  by (auto simp: payload_put payload_iff)

end

lemma rguard_end_eq_Inr: "rguard_end e k bs = Inr y \<longleftrightarrow> bs = [] \<and> k bs = Inr y"
  by (simp add: rguard_end_def)

lemma throw_if_eq_Inr: "throw_if e k bs = Inr y \<longleftrightarrow> e = None \<and> k bs = Inr y"
  by (cases e) (simp_all add: throw_if_def)

lemma read_payload_eq_Inr: "read_payload r bs = Inr x \<longleftrightarrow> (\<exists>rest. r bs = Inr (x, rest))"
  by (auto simp: read_payload_def res_bind_eq_Inr)

lemmas payload_iffs = reader_iffs rguard_end_eq_Inr throw_if_eq_Inr read_payload_eq_Inr

subsection \<open>Header fields\<close>

lemma put16_be: "put16 v = be_bytes 2 v"
  by (simp add: put16_def be_bytes_def mask_byte numeral_eq_Suc upt_rec)
    (intro conjI; rule bit_word_eqI; simp add: bit_simps)

lemma put32_be: "put32 v = be_bytes 4 v"
  by (simp add: put32_def be_bytes_def mask_byte numeral_eq_Suc upt_rec)
    (intro conjI; rule bit_word_eqI; simp add: bit_simps)

lemma get16_be: "2 \<le> length p \<Longrightarrow> get16 p = be_value (take 2 p)"
  by (cases p; cases "tl p") (auto simp: get16_def be_value_def numeral_eq_Suc)

lemma take_4_nth: "4 \<le> length p \<Longrightarrow> take 4 p = [p ! 0, p ! 1, p ! 2, p ! 3]"
  by (rule nth_equalityI) (auto simp: nth_Cons numeral_eq_Suc less_Suc_eq split: nat.splits)

lemma get32_be: "4 \<le> length p \<Longrightarrow> get32 p = be_value (take 4 p)"
  by (simp add: get32_def be_value_def take_4_nth push_bit_or or.assoc)

lemma get_put [simp]: "get16 (put16 v @ r) = v" "get32 (put32 w @ r) = w"
  by (simp_all add: get16_be get32_be put16_be put32_be be_value_be_bytes)

lemma put_get: "2 \<le> length p \<Longrightarrow> put16 (get16 p) = take 2 p" "4 \<le> length p \<Longrightarrow> put32 (get32 p) = take 4 p"
  by (simp_all add: get16_be get32_be put16_be put32_be be_bytes_be_value)

lemma length_put [simp]: "length (put16 v) = 2" "length (put32 w) = 4" "length magic = 4"
  by (simp_all add: put16_def put32_def magic_def)

subsection \<open>One message\<close>

definition encodable :: "protocol_message \<Rightarrow> bool" where
  "encodable m \<longleftrightarrow> length (pm_payload m) \<le> protocol_v3_max_payload \<and> valid_flags (pm_flags m)"

definition enc_message :: "protocol_message \<Rightarrow> frame" where
  "enc_message m = magic @ [protocol_v3_version, pm_flags m] @ put16 (pm_type m) @
     put32 (pm_request_id m) @ put32 (word_of_nat (length (pm_payload m))) @ pm_payload m"

lemma protocol_encode_iff: "protocol_encode m = Inr bs \<longleftrightarrow> encodable m \<and> bs = enc_message m"
  by (auto simp: protocol_encode_def encodable_def enc_message_def)

lemma length_enc_message: "length (enc_message m) = header_size + length (pm_payload m)"
  by (simp add: enc_message_def header_size_def)

lemma unat_payload_length:
  "encodable m \<Longrightarrow> unat (word_of_nat (length (pm_payload m)) :: 32 word) = length (pm_payload m)"
  by (simp add: encodable_def protocol_v3_max_payload_def unat_of_nat)

lemma magic_cells: "take 4 (magic @ r) = magic" "drop 4 (magic @ r) = r" "(magic @ r) ! 4 = r ! 0"
  "(magic @ r) ! 5 = r ! 1" "n \<ge> 4 \<Longrightarrow> drop n (magic @ r) = drop (n - 4) r"
  by (simp_all add: nth_append)

lemma header_of_message:
  assumes "encodable m"
  shows "header_error (enc_message m @ r) = None" "total_size (enc_message m @ r) = length (enc_message m)"
    "head_message (enc_message m @ r) = m"
proof -
  have c: "take 4 (enc_message m @ r) = magic" "(enc_message m @ r) ! 4 = protocol_v3_version"
    "(enc_message m @ r) ! 5 = pm_flags m"
    "drop 6 (enc_message m @ r) = put16 (pm_type m) @ put32 (pm_request_id m) @
      put32 (word_of_nat (length (pm_payload m))) @ pm_payload m @ r"
    "drop 8 (enc_message m @ r) = put32 (pm_request_id m) @
      put32 (word_of_nat (length (pm_payload m))) @ pm_payload m @ r"
    "drop 12 (enc_message m @ r) = put32 (word_of_nat (length (pm_payload m))) @ pm_payload m @ r"
    by (simp_all add: enc_message_def nth_append)
  show t: "total_size (enc_message m @ r) = length (enc_message m)"
    using assms by (simp add: total_size_def c unat_payload_length length_enc_message del: drop_append)
  show "header_error (enc_message m @ r) = None"
    using assms by (simp add: header_error_def c unat_payload_length del: drop_append take_append) (simp add: encodable_def)
  have "drop header_size (enc_message m) = pm_payload m"
    by (simp add: enc_message_def header_size_def)
  then show "head_message (enc_message m @ r) = m" by (simp add: head_message_def c t del: drop_append)
qed

lemma message_of_header:
  assumes "header_size \<le> length b" "header_error b = None" "total_size b \<le> length b"
  shows "encodable (head_message b)" "take (total_size b) b = enc_message (head_message b)"
proof -
  let ?n = "unat (get32 (drop 12 b))"
  have h: "take 4 b = magic" "b ! 4 = protocol_v3_version" "valid_flags (b ! 5)"
    "?n \<le> protocol_v3_max_payload"
    using assms(2) by (auto simp: header_error_def not_less split: if_splits)
  have len: "16 \<le> length b" "16 + ?n \<le> length b"
    using assms(1,3) by (auto simp: header_size_def total_size_def)
  have pay: "pm_payload (head_message b) = take ?n (drop 16 b)"
    by (simp add: head_message_def total_size_def header_size_def drop_take)
  then have plen: "length (pm_payload (head_message b)) = ?n" using len by simp
  with h show "encodable (head_message b)" by (simp add: encodable_def head_message_def)
  have two: "take 2 (drop 4 b) = [b ! 4, b ! 5]"
    by (rule nth_equalityI) (use len in \<open>auto simp: nth_Cons less_2_cases_iff split: nat.splits\<close>)
  have "take (4 + (2 + (2 + (4 + (4 + ?n))))) b = take 4 b @ take 2 (drop 4 b) @ take 2 (drop 6 b) @
      take 4 (drop 8 b) @ take 4 (drop 12 b) @ take ?n (drop 16 b)"
    by (simp only: take_add drop_drop) simp
  also have "\<dots> = magic @ [protocol_v3_version, b ! 5] @ put16 (get16 (drop 6 b)) @
      put32 (get32 (drop 8 b)) @ put32 (get32 (drop 12 b)) @ take ?n (drop 16 b)"
    using len h(1,2) two by (simp add: put_get)
  also have "\<dots> = enc_message (head_message b)"
    unfolding enc_message_def plen pay [symmetric]
    by (simp add: head_message_def)
  finally show "take (total_size b) b = enc_message (head_message b)"
    by (simp add: total_size_def header_size_def)
qed

subsection \<open>The decoding loop\<close>

lemma header_extends:
  assumes "header_size \<le> length b"
  shows "header_error (b @ r) = header_error b" "total_size (b @ r) = total_size b"
    and "total_size b \<le> length b \<Longrightarrow> head_message (b @ r) = head_message b"
proof -
  have l: "16 \<le> length b" using assms by (simp add: header_size_def)
  then have g: "get32 (drop 12 (b @ r)) = get32 (drop 12 b)" "get32 (drop 8 (b @ r)) = get32 (drop 8 b)"
    "get16 (drop 6 (b @ r)) = get16 (drop 6 b)"
    by (simp_all add: get32_be get16_be)
  have n: "(b @ r) ! 4 = b ! 4" "(b @ r) ! 5 = b ! 5" "take 4 (b @ r) = take 4 b"
    using l by (simp_all add: nth_append)
  show t: "total_size (b @ r) = total_size b" by (simp only: total_size_def g)
  show "header_error (b @ r) = header_error b" by (simp only: header_error_def g n)
  show "total_size b \<le> length b \<Longrightarrow> head_message (b @ r) = head_message b"
    unfolding head_message_def t g n by simp
qed

lemma decode_loop_split:
  "decode_loop b ms = (None, b', ms') \<Longrightarrow> decode_loop (b @ r) ms = decode_loop (b' @ r) ms'"
proof (induction b ms rule: decode_loop.induct)
  case (1 b ms)
  show ?case
  proof (cases "header_size \<le> length b \<and> header_error b = None \<and> total_size b \<le> length b")
    case False
    with 1(2) show ?thesis by (subst (asm) decode_loop.simps) (auto split: if_splits option.splits)
  next
    case True
    then have "decode_loop (drop (total_size b) b) (ms @ [head_message b]) = (None, b', ms')"
      using 1(2) by (subst (asm) decode_loop.simps) simp
    with 1(1) True have "decode_loop (drop (total_size b) b @ r) (ms @ [head_message b])
      = decode_loop (b' @ r) ms'" by simp
    then show ?thesis
      using True header_extends [of b r] by (subst decode_loop.simps) simp
  qed
qed

lemma decode_loop_error:
  "decode_loop b ms = (Some e, b', ms') \<Longrightarrow> decode_loop (b @ r) ms = (Some e, b' @ r, ms')"
proof (induction b ms rule: decode_loop.induct)
  case (1 b ms)
  from 1(2) have hd: "header_size \<le> length b"
    by (subst (asm) decode_loop.simps) (auto split: if_splits)
  show ?case
  proof (cases "header_error b")
    case (Some e')
    with 1(2) hd have "e' = e" "b' = b" "ms' = ms"
      by (subst (asm) decode_loop.simps, simp)+
    with Some hd header_extends(1) [of b r] show ?thesis
      by (subst decode_loop.simps) simp
  next
    case None
    with 1(2) hd have len: "total_size b \<le> length b"
      by (subst (asm) decode_loop.simps) (auto split: if_splits)
    then have "decode_loop (drop (total_size b) b) (ms @ [head_message b]) = (Some e, b', ms')"
      using 1(2) hd None by (subst (asm) decode_loop.simps) simp
    with 1(1) hd None len have "decode_loop (drop (total_size b) b @ r) (ms @ [head_message b])
      = (Some e, b' @ r, ms')" by simp
    then show ?thesis
      using hd None len header_extends [of b r] by (subst decode_loop.simps) simp
  qed
qed

lemma decode_loop_lossless:
  "decode_loop b ms = (e, b', ms') \<Longrightarrow>
     \<exists>new. ms' = ms @ new \<and> list_all encodable new \<and> b = concat (map enc_message new) @ b' \<and>
       (e = None \<longrightarrow> length b' < header_size + protocol_v3_max_payload)"
proof (induction b ms rule: decode_loop.induct)
  case (1 b ms)
  show ?case
  proof (cases "header_size \<le> length b \<and> header_error b = None \<and> total_size b \<le> length b")
    case True
    then have "decode_loop (drop (total_size b) b) (ms @ [head_message b]) = (e, b', ms')"
      using 1(2) by (subst (asm) decode_loop.simps) simp
    with 1(1) True obtain new where new: "ms' = (ms @ [head_message b]) @ new" "list_all encodable new"
      "drop (total_size b) b = concat (map enc_message new) @ b'"
      "e = None \<longrightarrow> length b' < header_size + protocol_v3_max_payload" by fastforce
    have "b = enc_message (head_message b) @ drop (total_size b) b"
      using message_of_header(2) [of b] True append_take_drop_id [of "total_size b" b] by simp
    with new message_of_header(1) [of b] True show ?thesis
      by (intro exI [of _ "head_message b # new"]) simp
  next
    case False
    have "length b < header_size + protocol_v3_max_payload"
      if "header_error b = None" "length b < total_size b"
      using that by (auto simp: header_error_def total_size_def split: if_splits)
    moreover have "length b < header_size \<Longrightarrow> length b < header_size + protocol_v3_max_payload" by simp
    ultimately show ?thesis
      using False 1(2) by (subst (asm) decode_loop.simps) (auto split: if_splits option.splits)
  qed
qed

lemma decode_loop_messages:
  "list_all encodable new \<Longrightarrow>
     decode_loop (concat (map enc_message new) @ r) ms = decode_loop r (ms @ new)"
proof (induction new arbitrary: ms)
  case Nil
  then show ?case by simp
next
  case (Cons m new)
  let ?b = "enc_message m @ concat (map enc_message new) @ r"
  have "decode_loop ?b ms = decode_loop (drop (length (enc_message m)) ?b) (ms @ [m])"
    using Cons.prems header_of_message [of m "concat (map enc_message new) @ r"] length_enc_message [of m]
    by (subst decode_loop.simps) simp
  with Cons show ?case by simp
qed

lemma decode_loop_Nil: "decode_loop [] ms = (None, [], ms)"
  by (simp add: decode_loop.simps header_size_def)

subsection \<open>Reads of any size\<close>

lemma feed_append:
  assumes "feed a d = (None, d')"
  shows "feed (a @ b) d = feed b d'"
proof (cases "a = [] \<or> b = []")
  case True
  with assms show ?thesis by (auto simp: feed_def)
next
  case False
  then obtain buf ms where l: "decode_loop (pd_buffer d @ a) (pd_messages d) = (None, buf, ms)"
    "d' = \<lparr>pd_buffer = buf, pd_messages = ms\<rparr>"
    using assms by (auto simp: feed_def split: prod.splits)
  from decode_loop_split [OF l(1), of b] l(2) False show ?thesis by (simp add: feed_def)
qed

lemma feed_prefix_ok:
  assumes "feed (a @ b) d = (None, d')"
  obtains d1 where "feed a d = (None, d1)"
proof (cases "a = []")
  case True
  with that show ?thesis by (simp add: feed_def)
next
  case False
  obtain e buf ms where l: "decode_loop (pd_buffer d @ a) (pd_messages d) = (e, buf, ms)"
    by (cases "decode_loop (pd_buffer d @ a) (pd_messages d)") auto
  show ?thesis
  proof (cases e)
    case None
    with l False that show ?thesis by (simp add: feed_def)
  next
    case (Some x)
    with decode_loop_error [of "pd_buffer d @ a" "pd_messages d" x buf ms b] l False assms
    show ?thesis by (simp add: feed_def)
  qed
qed

lemma feed_all_concat: "feed_all cs d = (None, d') \<longleftrightarrow> feed (concat cs) d = (None, d')"
proof (induction cs arbitrary: d)
  case Nil
  then show ?case by (simp add: feed_def)
next
  case (Cons c cs)
  show ?case
  proof (cases "\<exists>d1. feed c d = (None, d1)")
    case True
    then obtain d1 where d1: "feed c d = (None, d1)" by auto
    with Cons feed_append [OF d1] show ?thesis by simp
  next
    case False
    then have "feed_all (c # cs) d \<noteq> (None, d')" by (auto split: prod.splits option.splits)
    moreover have "feed (concat (c # cs)) d \<noteq> (None, d')"
      using False feed_prefix_ok [of c "concat cs" d d'] by auto
    ultimately show ?thesis by simp
  qed
qed

subsection \<open>Start messages\<close>

lemma start_code_inverse [simp]:
  "start_mode_of (start_mode_code m) = m" "start_result_of (start_result_code r) = r"
  "in_i32 (start_mode_code m)" "in_i32 (start_result_code r)"
  "\<not> start_mode_code m < 0" "\<not> 1 < start_mode_code m"
  "\<not> start_result_code r < 0" "\<not> 2 < start_result_code r"
  by (cases m; cases r; simp add: start_mode_of_def start_result_of_def)+

lemma start_of_inverse:
  "\<not> (n < 0 \<or> n > 1) \<Longrightarrow> start_mode_code (start_mode_of n) = n"
  "\<not> (n < 0 \<or> n > 2) \<Longrightarrow> start_result_code (start_result_of n) = n"
  by (auto simp: start_mode_of_def start_result_of_def)

definition ok_start_request :: "start_request \<Rightarrow> bool" where
  "ok_start_request q \<longleftrightarrow>
     sq_name q \<noteq> [] \<and> ok_string (sq_name q) \<and> ok_prog_cfg (sq_config q) \<and>
     ok_strings max_start_items (sq_inherited_env q) \<and>
     (sq_mode q = SM_create \<longrightarrow> validate_start_config (sq_config q) = None)"

definition enc_start_request :: "start_request \<Rightarrow> frame" where
  "enc_start_request q = concat
     [enc_i32 start_schema_version, enc_i32 (start_mode_code (sq_mode q)), enc_string (sq_name q),
      enc_prog_cfg (sq_config q), enc_strings (sq_inherited_env q), enc_bool (sq_show_log q)]"

definition ok_start_response :: "start_response \<Rightarrow> bool" where
  "ok_start_response p \<longleftrightarrow>
     in_i64 (sp_pid p) \<and> ok_string (sp_state p) \<and> ok_strings max_start_items (sp_blocked_by p) \<and>
     ok_string (sp_message p)"

definition enc_start_response :: "start_response \<Rightarrow> frame" where
  "enc_start_response p = concat
     [enc_i32 start_schema_version, enc_i32 (start_result_code (sp_result p)), enc_i64 (sp_pid p),
      enc_string (sp_state p), enc_strings (sp_blocked_by p), enc_string (sp_message p)]"

lemma rbind_prog_cfg:
  "ok_prog_cfg c \<Longrightarrow> rbind read_prog_cfg k (enc_prog_cfg c @ r) = k c r"
  using prog_cfg.get_iff [of "enc_prog_cfg c @ r" c r] by (simp add: rbind_def)

lemma rbind_end:
  "in_i32 n \<Longrightarrow> rbind fget_i32 ki (enc_i32 n) = ki n []"
  "in_i64 n \<Longrightarrow> rbind fget_i64 ki (enc_i64 n) = ki n []"
  "rbind fget_u64 ku (be_bytes 8 w) = ku w []"
  "ok_string s \<Longrightarrow> rbind fget_string ks (enc_string s) = ks s []"
  "rbind (read_bool field) kb (enc_bool b) = kb b []"
  "ok_strings max_start_items xs \<Longrightarrow> rbind (read_strings field) kl (enc_strings xs) = kl xs []"
  using rbind_enc(3) [of ku w "[]"] rbind_enc(4) [of s ks "[]"]
    rbind_enc(5) [of field kb b "[]"] rbind_enc(6) [of xs field kl "[]"] rbind_enc(2) [of n ki "[]"]
    rbind_enc(1) [of n ki "[]"]
  by simp_all

lemma if_None: "(if b then x else None) = None \<longleftrightarrow> (b \<longrightarrow> x = None)"
  by simp

lemma start_request_exact: "read_start_request bs = Inr q \<longleftrightarrow> ok_start_request q \<and> bs = enc_start_request q"
proof
  assume "read_start_request bs = Inr q"
  then show "ok_start_request q \<and> bs = enc_start_request q"
    by (clarsimp simp: read_start_request_def start_request_reader_def payload_iffs field_gets
        prog_cfg.get_iff ok_start_request_def enc_start_request_def start_schema_version_def
        start_of_inverse if_None)
next
  assume "ok_start_request q \<and> bs = enc_start_request q"
  then show "read_start_request bs = Inr q"
    by (auto simp: read_start_request_def start_request_reader_def read_payload_def
        enc_start_request_def ok_start_request_def rbind_enc rbind_end rbind_prog_cfg rreturn_def
        rguard_def rguard_end_def throw_if_def start_schema_version_def)
qed

lemma start_response_exact:
  "read_start_response bs = Inr p \<longleftrightarrow> ok_start_response p \<and> bs = enc_start_response p"
proof
  assume "read_start_response bs = Inr p"
  then show "ok_start_response p \<and> bs = enc_start_response p"
    by (auto simp: read_start_response_def start_response_reader_def payload_iffs field_gets
        ok_start_response_def enc_start_response_def start_schema_version_def start_of_inverse)
next
  assume "ok_start_response p \<and> bs = enc_start_response p"
  then show "read_start_response bs = Inr p"
    by (auto simp: read_start_response_def start_response_reader_def read_payload_def
        enc_start_response_def ok_start_response_def rbind_enc rbind_end rreturn_def
        rguard_def rguard_end_def start_schema_version_def)
qed

interpretation start_request: payload_codec append_start_request read_start_request ok_start_request
  enc_start_request
  by unfold_locales (auto simp: start_request_exact append_start_request_def enc_start_request_def
      ok_start_request_def field_puts prog_cfg.put_ok start_schema_version_def)

interpretation start_response: payload_codec append_start_response read_start_response ok_start_response
  enc_start_response
  by unfold_locales (auto simp: start_response_exact append_start_response_def enc_start_response_def
      ok_start_response_def field_puts start_schema_version_def)

subsection \<open>Properties\<close>

text \<open>
  C8: a stream of messages that the encoder accepts is decoded to exactly those messages, in order,
  with an empty buffer and no error, however the bytes are cut into reads.
\<close>

theorem decoder_roundtrip:
  assumes "map protocol_encode ms = map Inr encodings" "concat chunks = concat encodings"
  shows "feed_all chunks empty_decoder = (None, \<lparr>pd_buffer = [], pd_messages = ms\<rparr>)"
proof -
  have e: "list_all encodable ms" "encodings = map enc_message ms"
    using assms(1) by (induction ms arbitrary: encodings)
      (auto simp: protocol_encode_iff Cons_eq_map_conv)
  have "feed (concat chunks) empty_decoder = (None, \<lparr>pd_buffer = [], pd_messages = ms\<rparr>)"
  proof (cases "ms = []")
    case True
    with assms(2) e(2) show ?thesis by (simp add: feed_def empty_decoder_def)
  next
    case False
    then have "concat encodings \<noteq> []"
      using e(2) length_enc_message by (cases ms) (auto simp: header_size_def magic_def enc_message_def)
    with decode_loop_messages [OF e(1), of "[]" "[]"] assms(2) e(2) show ?thesis
      by (simp add: feed_def empty_decoder_def decode_loop_Nil del: concat_eq_Nil_conv)
  qed
  then show ?thesis by (simp add: feed_all_concat)
qed

definition sample_message :: protocol_message where
  "sample_message = \<lparr>pm_type = 0x23, pm_flags = 1, pm_request_id = 7, pm_payload = [1, 2]\<rparr>"

lemma sample_message_encode:
  "protocol_encode sample_message = Inr [0x50, 0x4D, 0x54, 0x33, 3, 1, 0, 0x23, 0, 0, 0, 7, 0, 0, 0, 2, 1, 2]"
  by (simp add: protocol_encode_def sample_message_def put16_def put32_def magic_def byte_of_char_def
      valid_flags_def Let_def protocol_flag_response_def protocol_flag_error_def
      protocol_flag_stream_def protocol_flag_more_def protocol_v3_version_def
      protocol_v3_max_payload_def)

theorem decoder_roundtrip_witness:
  "feed_all [[0x50], [0x4D, 0x54, 0x33, 3, 1, 0, 0x23, 0, 0, 0, 7, 0, 0], [0, 2, 1, 2]] empty_decoder
     = (None, \<lparr>pd_buffer = [], pd_messages = [sample_message]\<rparr>)"
  by (rule decoder_roundtrip [of "[sample_message]"
        "[[0x50, 0x4D, 0x54, 0x33, 3, 1, 0, 0x23, 0, 0, 0, 7, 0, 0, 0, 2, 1, 2]]"])
    (simp_all add: sample_message_encode)

text \<open>
  C20: the decoder is lossless and bounded on any input.  As long as it does not throw, the bytes fed
  so far are exactly the encodings of the messages it has produced followed by its buffer, every
  message it produces can be encoded, the buffer stays below one header and one maximal payload,
  and the result does not depend on how the bytes were cut into reads.
\<close>

theorem decoder_lossless:
  assumes "feed_all chunks empty_decoder = (None, d)"
  shows "concat chunks = concat (map (\<lambda>m. projr (protocol_encode m)) (pd_messages d)) @ pd_buffer d \<and>
    list_all (\<lambda>m. \<not> isl (protocol_encode m)) (pd_messages d) \<and>
    length (pd_buffer d) < header_size + protocol_v3_max_payload \<and>
    feed_all [concat chunks] empty_decoder = (None, d)"
proof -
  have f: "feed (concat chunks) empty_decoder = (None, d)" using assms by (simp add: feed_all_concat)
  have "\<exists>new. pd_messages d = new \<and> list_all encodable new \<and>
      concat chunks = concat (map enc_message new) @ pd_buffer d \<and>
      length (pd_buffer d) < header_size + protocol_v3_max_payload"
  proof (cases "concat chunks = []")
    case True
    with f show ?thesis by (auto simp: feed_def empty_decoder_def header_size_def)
  next
    case False
    with f obtain buf ms where "decode_loop (concat chunks) [] = (None, buf, ms)"
      "d = \<lparr>pd_buffer = buf, pd_messages = ms\<rparr>"
      by (cases "decode_loop (concat chunks) []")
        (auto simp: feed_def empty_decoder_def simp del: concat_eq_Nil_conv)
    with decode_loop_lossless [of "concat chunks" "[]"] show ?thesis by fastforce
  qed
  then have e: "list_all encodable (pd_messages d)"
    "concat chunks = concat (map enc_message (pd_messages d)) @ pd_buffer d"
    "length (pd_buffer d) < header_size + protocol_v3_max_payload" by auto
  have enc: "encodable m \<Longrightarrow> protocol_encode m = Inr (enc_message m)" for m
    by (simp add: protocol_encode_iff)
  have m: "map (\<lambda>m. projr (protocol_encode m)) (pd_messages d) = map enc_message (pd_messages d)"
    "list_all (\<lambda>m. \<not> isl (protocol_encode m)) (pd_messages d)"
    using e(1) enc by (auto simp: list_all_iff)
  show ?thesis unfolding m(1) using e m(2) f by simp
qed

theorem decoder_lossless_witness:
  "\<exists>d. feed_all [[0x50], [0x4D, 0x54]] empty_decoder = (None, d) \<and>
     [0x50, 0x4D, 0x54] = concat (map (\<lambda>m. projr (protocol_encode m)) (pd_messages d)) @ pd_buffer d"
proof -
  have "feed_all [[0x50], [0x4D, 0x54]] empty_decoder
      = (None, \<lparr>pd_buffer = [0x50, 0x4D, 0x54], pd_messages = []\<rparr>)"
    by (simp add: feed_def empty_decoder_def decode_loop.simps header_size_def)
  from decoder_lossless [OF this] this show ?thesis by auto
qed

text \<open>
  A start request is read back exactly as it was written.  The reader accepts a payload if and
  only if it is what the writer produces for a well-formed request (a name, fields in range, and for
  a request to create a program a valid configuration), and it returns that request.
\<close>

lemma start_request_roundtrip:
  "read_start_request bs = Inr q \<longleftrightarrow> ok_start_request q \<and> append_start_request q [] = Inr bs"
  by (rule start_request.payload_iff_put)

text \<open>
  A start response is read back exactly as it was written, and nothing else is accepted.
\<close>

lemma start_response_roundtrip:
  "read_start_response bs = Inr p \<longleftrightarrow> ok_start_response p \<and> append_start_response p [] = Inr bs"
  by (rule start_response.payload_iff_put)

text \<open>
  A start request and a start response are read back exactly as they were written.  The reader of a request accepts
  a payload if and only if it is what the writer produces for a well-formed request (a name, fields in range, and for
  a request to create a program a valid configuration), and returns that request; likewise for a response.
\<close>

lemma start_messages_roundtrip:
  "(read_start_request bs = Inr q \<longleftrightarrow> ok_start_request q \<and> append_start_request q [] = Inr bs) \<and>
   (read_start_response bs = Inr p \<longleftrightarrow> ok_start_response p \<and> append_start_response p [] = Inr bs)"
  by (intro conjI start_request_roundtrip start_response_roundtrip)

end
