(* ===== verification/Program_Log.thy ===== *)
theory Program_Log
  imports Protocol_V3_Correct
begin

section \<open>Program logs (core/program_log)\<close>

text \<open>
  The names of the log files, the log request and response of the protocol, the ring buffer that keeps
  the tail of a program's output for late readers, and the health record of a log sink with its
  retry back-off.  The byte counter \<open>total_bytes_\<close> of the ring is a natural number here: a 64-bit
  counter of output bytes does not wrap in practice.
\<close>

subsection \<open>Log modes and file names\<close>

fun log_mode_name :: "log_mode_t \<Rightarrow> string" where
  "log_mode_name LM_split = ''split''"
| "log_mode_name LM_combined = ''combined''"

definition parse_log_mode :: "string \<Rightarrow> log_mode_t option" where
  "parse_log_mode s =
     (if s = ''split'' then Some LM_split else if s = ''combined'' then Some LM_combined else None)"

text \<open>\<open>find_last_of\<close>: the last position of a character of the set, if there is one.\<close>

fun find_last_of_from :: "char set \<Rightarrow> nat \<Rightarrow> string \<Rightarrow> nat option" where
  "find_last_of_from cs i [] = None"
| "find_last_of_from cs i (c # s) =
     (case find_last_of_from cs (Suc i) s of
        Some j \<Rightarrow> Some j
      | None \<Rightarrow> if c \<in> cs then Some i else None)"

definition find_last_of :: "char set \<Rightarrow> string \<Rightarrow> nat option" where
  "find_last_of cs s = find_last_of_from cs 0 s"

definition backslash :: char where
  "backslash = char_of (0x5C :: nat)"

definition derive_log_file_names :: "string \<Rightarrow> log_mode_t \<Rightarrow> string \<Rightarrow> string list" where
  "derive_log_file_names program_name mode configured_name =
     (let base = (if configured_name = [] then program_name @ ''.log'' else configured_name) in
      if mode = LM_combined then [base]
      else
        let slash = find_last_of {CHR ''/'', backslash} base;
            dot = find_last_of {CHR ''.''} base;
            has_extension = (case dot of
                None \<Rightarrow> False
              | Some d \<Rightarrow> d \<noteq> 0 \<and> (case slash of None \<Rightarrow> True | Some sl \<Rightarrow> d > sl + 1));
            stem = (if has_extension then take (the dot) base else base);
            extension = (if has_extension then drop (the dot) base else [])
        in [stem @ ''_stdout'' @ extension, stem @ ''_stderr'' @ extension])"

definition derive_log_paths :: "string \<Rightarrow> string \<Rightarrow> log_mode_t \<Rightarrow> string \<Rightarrow> string list" where
  "derive_log_paths directory program_name mode configured_name =
     (let names = derive_log_file_names program_name mode configured_name in
      if directory = [] then names
      else
        let separator = (if last directory = CHR ''/'' \<or> last directory = backslash then [] else ''/'')
        in map (\<lambda>name. directory @ separator @ name) names)"

subsection \<open>Log requests and responses\<close>

datatype log_request_mode = LR_live | LR_history

fun log_request_mode_code :: "log_request_mode \<Rightarrow> int" where
  "log_request_mode_code LR_live = 0"
| "log_request_mode_code LR_history = 1"

definition log_request_mode_of :: "int \<Rightarrow> log_request_mode" where
  "log_request_mode_of n = (if n = 0 then LR_live else LR_history)"

record program_log_request =
  lq_name :: string
  lq_mode :: log_request_mode

record program_log_response =
  lp_mode :: log_request_mode
  lp_generation :: "64 word"
  lp_last_pid :: int
  lp_last_exit_time_unix_ms :: int
  lp_exit_reason :: string
  lp_exit_code :: int

definition program_log_request_schema_version :: int where
  "program_log_request_schema_version = 1"

definition program_log_response_schema_version :: int where
  "program_log_response_schema_version = 1"

definition append_program_log_request :: "program_log_request \<Rightarrow> appender" where
  "append_program_log_request q = append_all
     [fappend_string (lq_name q),
      fappend_i32 program_log_request_schema_version,
      fappend_i32 (log_request_mode_code (lq_mode q))]"

text \<open>A request that ends after the name is the older form and asks for the live log.\<close>

definition program_log_request_reader :: "program_log_request reader" where
  "program_log_request_reader =
     rbind fget_string (\<lambda>name.
     rguard (name = []) (Protocol_error ''program-log name is empty'') (\<lambda>bs.
     if bs = [] then rreturn \<lparr>lq_name = name, lq_mode = LR_live\<rparr> bs
     else
     rbind fget_i32 (\<lambda>schema.
     rbind fget_i32 (\<lambda>mode.
     rguard (schema \<noteq> program_log_request_schema_version)
       (Protocol_error ''unsupported program-log request schema'') (
     rguard (mode < 0 \<or> mode > 1) (Protocol_error ''invalid program-log mode'') (
     rguard_end (Protocol_error ''trailing program-log request data'') (
     rreturn \<lparr>lq_name = name, lq_mode = log_request_mode_of mode\<rparr>))))) bs))"

definition read_program_log_request :: "frame \<Rightarrow> exn + program_log_request" where
  "read_program_log_request = read_payload program_log_request_reader"

definition append_program_log_response :: "program_log_response \<Rightarrow> appender" where
  "append_program_log_response p = append_all
     [fappend_i32 program_log_response_schema_version,
      fappend_i32 (log_request_mode_code (lp_mode p)),
      fappend_u64 (lp_generation p),
      fappend_i64 (lp_last_pid p),
      fappend_i64 (lp_last_exit_time_unix_ms p),
      fappend_string (lp_exit_reason p),
      fappend_i32 (lp_exit_code p)]"

definition read_program_log_response :: "program_log_response reader" where
  "read_program_log_response =
     rbind fget_i32 (\<lambda>schema.
     rbind fget_i32 (\<lambda>mode.
     rguard (schema \<noteq> program_log_response_schema_version)
       (Protocol_error ''unsupported program-log response schema'') (
     rguard (mode < 0 \<or> mode > 1) (Protocol_error ''invalid program-log mode'') (
     rbind fget_u64 (\<lambda>generation.
     rbind fget_i64 (\<lambda>last_pid.
     rbind fget_i64 (\<lambda>last_exit_time_unix_ms.
     rbind fget_string (\<lambda>exit_reason.
     rbind fget_i32 (\<lambda>exit_code.
     rguard (generation = 0) (Protocol_error ''invalid program-log generation'') (
     rguard (log_request_mode_of mode = LR_history \<and>
         (last_pid \<le> 0 \<or> last_exit_time_unix_ms \<le> 0 \<or> exit_reason = []))
       (Protocol_error ''incomplete program-log history metadata'') (
     rreturn \<lparr>lp_mode = log_request_mode_of mode, lp_generation = generation, lp_last_pid = last_pid,
       lp_last_exit_time_unix_ms = last_exit_time_unix_ms, lp_exit_reason = exit_reason,
       lp_exit_code = exit_code\<rparr>)))))))))))"

subsection \<open>The bounded log tail\<close>

record bounded_log_tail =
  lt_storage :: string
  lt_begin :: nat
  lt_size :: nat
  lt_total_bytes :: nat

definition new_log_tail :: "nat \<Rightarrow> bounded_log_tail" where
  "new_log_tail capacity = \<lparr>lt_storage = replicate capacity (char_of (0 :: nat)), lt_begin = 0, lt_size = 0,
     lt_total_bytes = 0\<rparr>"

definition clear_tail :: "bounded_log_tail \<Rightarrow> bounded_log_tail" where
  "clear_tail t = t\<lparr>lt_begin := 0, lt_size := 0, lt_total_bytes := 0\<rparr>"

fun write_ring :: "string \<Rightarrow> nat \<Rightarrow> string \<Rightarrow> string" where
  "write_ring storage pos [] = storage"
| "write_ring storage pos (c # cs) = write_ring (storage[pos mod length storage := c]) (Suc pos) cs"

definition append_tail :: "string \<Rightarrow> bounded_log_tail \<Rightarrow> bounded_log_tail" where
  "append_tail data t =
     (let cap = length (lt_storage t) in
      if data = [] then t
      else if cap = 0 then t\<lparr>lt_total_bytes := lt_total_bytes t + length data\<rparr>
      else if length data \<ge> cap
        then t\<lparr>lt_total_bytes := lt_total_bytes t + length data,
               lt_storage := drop (length data - cap) data, lt_begin := 0, lt_size := cap\<rparr>
      else
        let overflow = (if lt_size t + length data > cap then lt_size t + length data - cap else 0);
            begin' = (lt_begin t + overflow) mod cap;
            size' = lt_size t - overflow
        in t\<lparr>lt_total_bytes := lt_total_bytes t + length data,
             lt_storage := write_ring (lt_storage t) (begin' + size') data,
             lt_begin := begin', lt_size := size' + length data\<rparr>)"

definition begin_offset :: "bounded_log_tail \<Rightarrow> nat" where
  "begin_offset t = lt_total_bytes t - lt_size t"

definition read_tail :: "nat \<Rightarrow> nat \<Rightarrow> bounded_log_tail \<Rightarrow> string" where
  "read_tail offset max_size t =
     (let offset = (if offset < begin_offset t then begin_offset t else offset) in
      if offset \<ge> lt_total_bytes t \<or> max_size = 0 \<or> lt_storage t = [] then []
      else
        let local = offset - begin_offset t;
            count = min max_size (lt_size t - local)
        in map (\<lambda>i. lt_storage t ! ((lt_begin t + local + i) mod length (lt_storage t))) [0..<count])"

definition snapshot_tail :: "bounded_log_tail \<Rightarrow> string" where
  "snapshot_tail t = read_tail (begin_offset t) (lt_size t) t"

subsection \<open>The health of a log sink\<close>

record log_sink_health =
  lh_degraded :: bool
  lh_dropped_bytes :: nat
  lh_last_error :: string
  lh_retry_due_ms :: int
  lh_retry_delay_ms :: int

definition new_health :: log_sink_health where
  "new_health = \<lparr>lh_degraded = False, lh_dropped_bytes = 0, lh_last_error = [], lh_retry_due_ms = 0,
     lh_retry_delay_ms = 1000\<rparr>"

definition reset_health :: "log_sink_health \<Rightarrow> log_sink_health" where
  "reset_health h = h\<lparr>lh_degraded := False, lh_dropped_bytes := 0, lh_last_error := [],
     lh_retry_due_ms := 0, lh_retry_delay_ms := 1000\<rparr>"

definition retry_ready :: "int \<Rightarrow> log_sink_health \<Rightarrow> bool" where
  "retry_ready now_ms h \<longleftrightarrow> lh_degraded h \<and> now_ms \<ge> lh_retry_due_ms h"

definition record_failure :: "int \<Rightarrow> nat \<Rightarrow> string \<Rightarrow> log_sink_health \<Rightarrow> log_sink_health" where
  "record_failure now_ms dropped err h =
     h\<lparr>lh_degraded := True, lh_dropped_bytes := lh_dropped_bytes h + dropped, lh_last_error := err,
       lh_retry_due_ms := now_ms + lh_retry_delay_ms h,
       lh_retry_delay_ms := min (lh_retry_delay_ms h * 2) 60000\<rparr>"

definition record_recovery :: "log_sink_health \<Rightarrow> log_sink_health" where
  "record_recovery h = h\<lparr>lh_degraded := False, lh_retry_due_ms := 0, lh_retry_delay_ms := 1000\<rparr>"

subsection \<open>The ring keeps the last bytes\<close>

lemma mod_shift_inj_le:
  assumes "i \<le> j" "j < n" "(b + j) mod n = (b + i) mod (n :: nat)"
  shows "i = j"
proof -
  have "n dvd (b + j) - (b + i)"
    using assms(1,3) mod_eq_dvd_iff_nat [of "b + i" "b + j" n] by simp
  then have "n dvd j - i" by simp
  moreover have "j - i < n" using assms(2) by simp
  ultimately have "j - i = 0" by (metis nat_dvd_not_less neq0_conv)
  with assms(1) show ?thesis by simp
qed

lemma mod_shift_inj: "i < n \<Longrightarrow> j < n \<Longrightarrow> (b + i) mod n = (b + j) mod (n :: nat) \<Longrightarrow> i = j"
  using mod_shift_inj_le [of i j n b] mod_shift_inj_le [of j i n b] by (cases "i \<le> j") auto

lemma length_write_ring [simp]: "length (write_ring st pos cs) = length st"
  by (induction st pos cs rule: write_ring.induct) simp_all

lemma write_ring_other:
  "\<forall>i < length cs. k \<noteq> (pos + i) mod length st \<Longrightarrow> write_ring st pos cs ! k = st ! k"
proof (induction st pos cs rule: write_ring.induct)
  case (2 st pos c cs)
  have "k \<noteq> pos mod length st" using 2(2) by force
  moreover have "\<forall>i < length cs. k \<noteq> (Suc pos + i) mod length st" using 2(2) by fastforce
  ultimately show ?case using 2(1) by simp
qed simp

lemma write_ring_nth:
  "i < length cs \<Longrightarrow> length cs \<le> length st \<Longrightarrow> write_ring st pos cs ! ((pos + i) mod length st) = cs ! i"
proof (induction st pos cs arbitrary: i rule: write_ring.induct)
  case (2 st pos c cs)
  show ?case
  proof (cases i)
    case (Suc j)
    with 2(1) [of j] 2(2,3) show ?thesis by simp
  next
    case 0
    have "pos mod length st \<noteq> (Suc pos + j) mod length st" if "j < length cs" for j
    proof
      assume "pos mod length st = (Suc pos + j) mod length st"
      then have "(pos + 0) mod length st = (pos + Suc j) mod length st" by simp
      then have "0 = Suc j" by (rule mod_shift_inj [rotated 2]) (use that 2(3) in auto)
      then show False by simp
    qed
    then have "write_ring (st[pos mod length st := c]) (Suc pos) cs ! (pos mod length st)
      = st[pos mod length st := c] ! (pos mod length st)"
      by (intro write_ring_other) simp
    moreover have "pos mod length st < length st" using 2(3) by (intro mod_less_divisor) auto
    ultimately show ?thesis using 0 by simp
  qed
qed simp

text \<open>What a tail stands for: the bytes it still holds, oldest first.\<close>

definition tail_bytes :: "bounded_log_tail \<Rightarrow> string" where
  "tail_bytes t = map (\<lambda>i. lt_storage t ! ((lt_begin t + i) mod length (lt_storage t))) [0..<lt_size t]"

definition tail_wf :: "bounded_log_tail \<Rightarrow> bool" where
  "tail_wf t \<longleftrightarrow> lt_size t \<le> length (lt_storage t) \<and> lt_size t \<le> lt_total_bytes t \<and>
     (lt_storage t \<noteq> [] \<longrightarrow> lt_begin t < length (lt_storage t))"

lemma length_tail_bytes [simp]: "length (tail_bytes t) = lt_size t"
  by (simp add: tail_bytes_def)

definition last_bytes :: "nat \<Rightarrow> 'a list \<Rightarrow> 'a list" where
  "last_bytes n xs = drop (length xs - n) xs"

lemma last_bytes_last_bytes: "last_bytes n (last_bytes n xs @ ys) = last_bytes n (xs @ ys)"
proof -
  have "length xs + length ys - (length xs - n + n) + (length xs - n) = length xs + length ys - n \<or>
      length xs \<le> length xs + length ys - n \<and>
      length xs \<le> length xs + length ys - (length xs - n + n) + (length xs - n)"
    by linarith
  then show ?thesis by (auto simp: last_bytes_def)
qed

lemma tail_bytes_append:
  assumes "tail_wf t"
  shows "tail_wf (append_tail data t) \<and>
    length (lt_storage (append_tail data t)) = length (lt_storage t) \<and>
    lt_total_bytes (append_tail data t) = lt_total_bytes t + length data \<and>
    tail_bytes (append_tail data t) = last_bytes (length (lt_storage t)) (tail_bytes t @ data)"
proof -
  let ?cap = "length (lt_storage t)" and ?n = "length data"
  consider "data = []" | "data \<noteq> []" "?cap = 0" | "data \<noteq> []" "?cap \<noteq> 0" "?n \<ge> ?cap"
    | "data \<noteq> []" "?cap \<noteq> 0" "?n < ?cap" by linarith
  then show ?thesis
  proof cases
    case 1
    then show ?thesis using assms by (simp add: append_tail_def last_bytes_def tail_wf_def Let_def)
  next
    case 2
    then show ?thesis using assms by (simp add: append_tail_def last_bytes_def tail_wf_def tail_bytes_def)
  next
    case 3
    let ?t = "append_tail data t"
    have t: "lt_storage ?t = drop (?n - ?cap) data" "lt_begin ?t = 0" "lt_size ?t = ?cap"
      "lt_total_bytes ?t = lt_total_bytes t + ?n"
      using 3 by (simp_all add: append_tail_def Let_def)
    have "tail_bytes ?t = drop (?n - ?cap) data"
      using 3 unfolding tail_bytes_def t by (intro nth_equalityI) auto
    moreover have "last_bytes ?cap (tail_bytes t @ data) = drop (?n - ?cap) data"
      using 3 by (simp add: last_bytes_def)
    ultimately show ?thesis using 3 t by (auto simp: tail_wf_def)
  next
    case 4
    let ?t = "append_tail data t"
    define ov where "ov = (if lt_size t + ?n > ?cap then lt_size t + ?n - ?cap else 0)"
    define b where "b = (lt_begin t + ov) mod ?cap"
    define sz where "sz = lt_size t - ov"
    have t: "lt_storage ?t = write_ring (lt_storage t) (b + sz) data" "lt_begin ?t = b"
      "lt_size ?t = sz + ?n" "lt_total_bytes ?t = lt_total_bytes t + ?n"
      using 4 by (simp_all add: append_tail_def Let_def ov_def b_def sz_def)
    have wf: "lt_size t \<le> ?cap" "lt_size t \<le> lt_total_bytes t" using assms by (auto simp: tail_wf_def)
    have bounds: "ov \<le> lt_size t" "sz + ?n \<le> ?cap" "b < ?cap" "sz = lt_size t - ov"
      "ov = lt_size t + ?n - ?cap"
      using wf 4 by (auto simp: ov_def sz_def b_def split: if_splits)
    have old: "lt_storage ?t ! ((b + i) mod ?cap) = tail_bytes t ! (ov + i)" if "i < sz" for i
    proof -
      have "(b + i) mod ?cap \<noteq> (b + sz + j) mod ?cap" if "j < ?n" for j
        using mod_shift_inj [of i ?cap "sz + j" b] \<open>i < sz\<close> that bounds(2) by (auto simp: add.assoc)
      then have e1: "lt_storage ?t ! ((b + i) mod ?cap) = lt_storage t ! ((b + i) mod ?cap)"
        unfolding t by (intro write_ring_other) simp
      have e2: "(b + i) mod ?cap = (lt_begin t + (ov + i)) mod ?cap"
        by (simp add: b_def mod_add_left_eq add.assoc)
      have "ov + i < lt_size t" using that bounds(4) by simp
      then have "tail_bytes t ! (ov + i) = lt_storage t ! ((lt_begin t + (ov + i)) mod ?cap)"
        by (simp add: tail_bytes_def)
      then show ?thesis using e1 unfolding e2 by (rule trans [OF _ sym, rotated])
    qed
    have new: "lt_storage ?t ! ((b + (sz + j)) mod ?cap) = data ! j" if "j < ?n" for j
      unfolding t using write_ring_nth [of j data "lt_storage t" "b + sz"] that 4(3) by (simp add: add.assoc)
    have "tail_bytes ?t = drop ov (tail_bytes t) @ data"
    proof (rule nth_equalityI)
      show "length (tail_bytes ?t) = length (drop ov (tail_bytes t) @ data)"
        using bounds by (simp add: t(3))
      fix i
      assume "i < length (tail_bytes ?t)"
      then have i: "i < sz + ?n" by (simp add: t(3))
      have "tail_bytes ?t ! i = lt_storage ?t ! ((b + i) mod ?cap)"
        using i by (simp add: tail_bytes_def t)
      also have "\<dots> = (drop ov (tail_bytes t) @ data) ! i"
      proof (cases "i < sz")
        case True
        with old [OF True] bounds(4) show ?thesis by (simp add: nth_append)
      next
        case False
        then have "i - sz < ?n" "b + (sz + (i - sz)) = b + i" using i by auto
        with new [of "i - sz"] False bounds(4) show ?thesis by (simp add: nth_append)
      qed
      finally show "tail_bytes ?t ! i = (drop ov (tail_bytes t) @ data) ! i" .
    qed
    moreover have "last_bytes ?cap (tail_bytes t @ data) = drop ov (tail_bytes t) @ data"
      using bounds by (simp add: last_bytes_def)
    moreover have "sz + ?n \<le> lt_total_bytes t + ?n" using bounds(4) wf(2) by linarith
    ultimately show ?thesis using t bounds(2,3) unfolding tail_wf_def by simp
  qed
qed

lemma fold_append_tail:
  assumes "tail_wf t" "tail_bytes t = last_bytes (length (lt_storage t)) s" "lt_total_bytes t = length s"
  shows "tail_wf (fold append_tail ds t) \<and> length (lt_storage (fold append_tail ds t)) = length (lt_storage t) \<and>
    lt_total_bytes (fold append_tail ds t) = length (s @ concat ds) \<and>
    tail_bytes (fold append_tail ds t) = last_bytes (length (lt_storage t)) (s @ concat ds)"
  using assms
proof (induction ds arbitrary: t s)
  case Nil
  then show ?case by simp
next
  case (Cons d ds)
  note a = tail_bytes_append [OF Cons.prems(1), of d]
  have "tail_bytes (append_tail d t) = last_bytes (length (lt_storage (append_tail d t))) (s @ d)"
    using a Cons.prems(2) by (simp add: last_bytes_last_bytes)
  from Cons.IH [OF _ this] a Cons.prems(3) show ?case by simp
qed

lemma read_tail_eq:
  assumes "tail_wf t"
  shows "read_tail off m t = take m (drop (max off (begin_offset t) - begin_offset t) (tail_bytes t))"
proof -
  let ?o = "max off (begin_offset t)" and ?l = "max off (begin_offset t) - begin_offset t"
  have o: "(if off < begin_offset t then begin_offset t else off) = ?o" by simp
  have tot: "lt_total_bytes t = begin_offset t + lt_size t" using assms by (simp add: begin_offset_def tail_wf_def)
  show ?thesis
  proof (cases "?o \<ge> lt_total_bytes t \<or> m = 0 \<or> lt_storage t = []")
    case True
    moreover have "lt_storage t = [] \<Longrightarrow> lt_size t = 0" using assms by (simp add: tail_wf_def)
    moreover have "?o \<ge> lt_total_bytes t \<Longrightarrow> lt_size t \<le> ?l" using tot by simp
    ultimately show ?thesis unfolding read_tail_def o Let_def by auto
  next
    case False
    then have l: "?l < lt_size t" using tot by linarith
    have "read_tail off m t = map (\<lambda>i. lt_storage t ! ((lt_begin t + ?l + i) mod length (lt_storage t)))
        [0..<min m (lt_size t - ?l)]"
      using False unfolding read_tail_def o Let_def by simp
    also have "\<dots> = take m (drop ?l (tail_bytes t))"
      using l by (intro nth_equalityI) (auto simp: tail_bytes_def add.assoc)
    finally show ?thesis .
  qed
qed

subsection \<open>Log messages\<close>

lemma log_request_mode_codes [simp]:
  "log_request_mode_of (log_request_mode_code m) = m" "in_i32 (log_request_mode_code m)"
  "\<not> log_request_mode_code m < 0" "\<not> 1 < log_request_mode_code m"
  by (cases m; simp add: log_request_mode_of_def)+

lemma log_request_mode_of_inverse:
  "\<not> (n < 0 \<or> n > 1) \<Longrightarrow> log_request_mode_code (log_request_mode_of n) = n"
  by (auto simp: log_request_mode_of_def)

definition ok_log_response :: "program_log_response \<Rightarrow> bool" where
  "ok_log_response p \<longleftrightarrow>
     in_i64 (lp_last_pid p) \<and> in_i64 (lp_last_exit_time_unix_ms p) \<and> in_i32 (lp_exit_code p) \<and>
     ok_string (lp_exit_reason p) \<and> lp_generation p \<noteq> 0 \<and>
     \<not> (lp_mode p = LR_history \<and>
        (lp_last_pid p \<le> 0 \<or> lp_last_exit_time_unix_ms p \<le> 0 \<or> lp_exit_reason p = []))"

definition enc_log_response :: "program_log_response \<Rightarrow> frame" where
  "enc_log_response p = concat
     [enc_i32 program_log_response_schema_version, enc_i32 (log_request_mode_code (lp_mode p)),
      be_bytes 8 (lp_generation p), enc_i64 (lp_last_pid p), enc_i64 (lp_last_exit_time_unix_ms p),
      enc_string (lp_exit_reason p), enc_i32 (lp_exit_code p)]"

interpretation log_response: codec append_program_log_response read_program_log_response ok_log_response
  enc_log_response
proof
  fix x f
  assume "ok_log_response x"
  then show "append_program_log_response x f = Inr (f @ enc_log_response x)"
    by (simp add: append_program_log_response_def enc_log_response_def ok_log_response_def field_puts
        program_log_response_schema_version_def)
next
  fix bs x rest
  show "read_program_log_response bs = Inr (x, rest) \<longleftrightarrow> ok_log_response x \<and> bs = enc_log_response x @ rest"
  proof
    assume "read_program_log_response bs = Inr (x, rest)"
    then show "ok_log_response x \<and> bs = enc_log_response x @ rest"
      by (clarsimp simp: read_program_log_response_def reader_iffs field_gets ok_log_response_def
          enc_log_response_def program_log_response_schema_version_def log_request_mode_of_inverse)
  next
    assume "ok_log_response x \<and> bs = enc_log_response x @ rest"
    then show "read_program_log_response bs = Inr (x, rest)"
      by (cases "lp_mode x") (auto simp: read_program_log_response_def enc_log_response_def ok_log_response_def rbind_enc
          rreturn_def rguard_def program_log_response_schema_version_def log_request_mode_of_def)
  qed
qed

lemma fappend_string_Inr: "fappend_string name f = Inr bs \<longleftrightarrow> ok_string name \<and> bs = f @ enc_string name"
  by (cases "ok_string name") (auto simp: str.put_ok, auto simp: fappend_string_def ok_string_def)

lemma log_request_legacy:
  "name \<noteq> [] \<Longrightarrow> fappend_string name [] = Inr bs \<Longrightarrow>
     read_program_log_request bs = Inr \<lparr>lq_name = name, lq_mode = LR_live\<rparr>"
  by (simp add: fappend_string_Inr read_program_log_request_def read_payload_def
      program_log_request_reader_def rbind_end rguard_def rreturn_def)

lemma log_request_roundtrip:
  assumes "lq_name q \<noteq> []" "append_program_log_request q [] = Inr bs"
  shows "read_program_log_request bs = Inr q"
proof -
  have s: "ok_string (lq_name q)"
    using assms(2) by (auto simp: append_program_log_request_def fappend_string_def ok_string_def split: if_splits)
  have "enc_i32 n \<noteq> []" for n by (metis enc_i32_def length_be_bytes list.size(3) zero_neq_numeral)
  with s assms show ?thesis
    by (auto simp: append_program_log_request_def field_puts read_program_log_request_def read_payload_def
        program_log_request_reader_def rbind_enc rbind_end rguard_def rguard_end_def rreturn_def
        program_log_request_schema_version_def)
qed

subsection \<open>File names and back-off\<close>

lemma find_last_of_from_spec:
  "find_last_of_from cs i s = Some d \<Longrightarrow>
     i \<le> d \<and> d < i + length s \<and> s ! (d - i) \<in> cs \<and> (\<forall>j. d - i < j \<and> j < length s \<longrightarrow> s ! j \<notin> cs)"
  "find_last_of_from cs i s = None \<Longrightarrow> set s \<inter> cs = {}"
proof (induction cs i s rule: find_last_of_from.induct)
  case (2 cs i c s)
  {
    case 1
    show ?case
    proof (cases "find_last_of_from cs (Suc i) s")
      case (Some e)
      with 1 have d: "find_last_of_from cs (Suc i) s = Some d" by simp
      from 2(1) [OF d] have *: "Suc i \<le> d" "d < Suc i + length s" "s ! (d - Suc i) \<in> cs"
        "\<forall>j. d - Suc i < j \<and> j < length s \<longrightarrow> s ! j \<notin> cs" by auto
      then have "d - i = Suc (d - Suc i)" by simp
      with * show ?thesis by (auto simp: nth_Cons split: nat.splits)
    next
      case None
      with 2(2) have "set s \<inter> cs = {}" by simp
      then have "\<forall>j < length s. s ! j \<notin> cs" by (auto simp: disjoint_iff)
      with 1 None show ?thesis by (auto simp: nth_Cons split: if_splits nat.splits)
    qed
  next
    case 2
    then show ?case using \<open>find_last_of_from cs (Suc i) s = None \<Longrightarrow> set s \<inter> cs = {}\<close>
      by (auto split: option.splits if_splits)
  }
qed simp_all

lemma find_last_of_spec:
  "find_last_of cs s = Some d \<Longrightarrow> d < length s \<and> s ! d \<in> cs \<and> (\<forall>j. d < j \<and> j < length s \<longrightarrow> s ! j \<notin> cs)"
  using find_last_of_from_spec(1) [of cs 0 s d] by (simp add: find_last_of_def)

lemma split_names_spec:
  assumes "base = (if configured = [] then name @ ''.log'' else configured)"
  shows "\<exists>stem ext. base = stem @ ext \<and> (ext = [] \<or> hd ext = CHR ''.'') \<and>
    CHR ''/'' \<notin> set ext \<and> backslash \<notin> set ext \<and>
    derive_log_file_names name LM_split configured = [stem @ ''_stdout'' @ ext, stem @ ''_stderr'' @ ext]"
proof -
  let ?slash = "find_last_of {CHR ''/'', backslash} base" and ?dot = "find_last_of {CHR ''.''} base"
  let ?has = "case ?dot of None \<Rightarrow> False
    | Some d \<Rightarrow> d \<noteq> 0 \<and> (case ?slash of None \<Rightarrow> True | Some sl \<Rightarrow> d > sl + 1)"
  show ?thesis
  proof (cases ?has)
    case False
    then show ?thesis
      by (intro exI [of _ base] exI [of _ "[]"])
        (simp add: derive_log_file_names_def Let_def flip: assms)
  next
    case True
    then obtain d where d: "?dot = Some d" and sl: "case ?slash of None \<Rightarrow> True | Some sl \<Rightarrow> d > sl + 1"
      by (auto split: option.splits)
    from find_last_of_spec [OF d] have db: "d < length base" "base ! d = CHR ''.''" by auto
    have "drop d base ! j \<notin> {CHR ''/'', backslash}" if "j < length (drop d base)" for j
    proof (cases ?slash)
      case None
      then have "set base \<inter> {CHR ''/'', backslash} = {}"
        using find_last_of_from_spec(2) [of "{CHR ''/'', backslash}" 0 base] by (simp add: find_last_of_def)
      then show ?thesis using that by (metis IntI empty_iff in_set_dropD nth_mem)
    next
      case (Some l)
      with sl find_last_of_spec [OF Some] that show ?thesis by simp
    qed
    then have "set (drop d base) \<inter> {CHR ''/'', backslash} = {}"
      by (auto simp: in_set_conv_nth)
    moreover have "hd (drop d base) = CHR ''.''" using db by (simp add: hd_drop_conv_nth)
    ultimately show ?thesis
      using True d by (intro exI [of _ "take d base"] exI [of _ "drop d base"])
        (simp add: derive_log_file_names_def Let_def flip: assms)
  qed
qed

fun record_failures :: "(int \<times> nat \<times> string) list \<Rightarrow> log_sink_health \<Rightarrow> log_sink_health" where
  "record_failures [] h = h"
| "record_failures ((now, dropped, err) # fs) h = record_failures fs (record_failure now dropped err h)"

lemma record_failures_delay:
  "lh_retry_delay_ms h = min (1000 * 2 ^ k) 60000 \<Longrightarrow>
   lh_retry_delay_ms (record_failures fs h) = min (1000 * 2 ^ (k + length fs)) 60000 \<and>
   lh_dropped_bytes (record_failures fs h) = lh_dropped_bytes h + sum_list (map (\<lambda>(_, n, _). n) fs) \<and>
   (fs \<noteq> [] \<longrightarrow> lh_degraded (record_failures fs h) \<and>
     lh_last_error (record_failures fs h) = snd (snd (last fs)) \<and>
     lh_retry_due_ms (record_failures fs h) = fst (last fs) + min (1000 * 2 ^ (k + length fs - 1)) 60000)"
proof (induction fs h arbitrary: k rule: record_failures.induct)
  case (1 h)
  then show ?case by simp
next
  case (2 now dropped err fs h)
  have "lh_retry_delay_ms (record_failure now dropped err h) = min (1000 * 2 ^ Suc k) 60000"
    using 2(2) by (simp add: record_failure_def min_def)
  from 2(1) [OF this] 2(2) show ?case
    by (cases fs) (auto simp: record_failure_def)
qed

subsection \<open>Properties\<close>

text \<open>
  Whatever the program writes and in whatever pieces, the tail holds exactly the last
  \<open>capacity\<close> bytes of its output, counts all of it, and a reader that asks for up to \<open>m\<close> bytes from
  an offset of the whole stream gets the stream's bytes there, from the first byte still held.
\<close>

lemma log_tail_keeps_last:
  "let t = fold append_tail pieces (new_log_tail cap) in
     snapshot_tail t = last_bytes cap (concat pieces) \<and>
     lt_total_bytes t = length (concat pieces) \<and>
     begin_offset t = length (concat pieces) - cap \<and>
     read_tail off m t = take m (drop (max off (begin_offset t)) (concat pieces))"
proof -
  let ?s = "concat pieces"
  define t where "t = fold append_tail pieces (new_log_tail cap)"
  have wf0: "tail_wf (new_log_tail cap)" "tail_bytes (new_log_tail cap) = last_bytes cap []"
    by (auto simp: tail_wf_def new_log_tail_def tail_bytes_def last_bytes_def)
  have c: "length (lt_storage (new_log_tail cap)) = cap" "lt_total_bytes (new_log_tail cap) = 0"
    by (simp_all add: new_log_tail_def)
  from fold_append_tail [of "new_log_tail cap" "[]" pieces] wf0 c
  have f: "tail_wf t" "lt_total_bytes t = length ?s" "tail_bytes t = last_bytes cap ?s"
    by (simp_all add: t_def)
  have "lt_size t = length (last_bytes cap ?s)" using f(3) length_tail_bytes [of t] by simp
  then have b: "begin_offset t = length ?s - cap" "lt_size t = length ?s - (length ?s - cap)"
    using f(2) by (simp_all add: begin_offset_def last_bytes_def)
  have "drop (max off (begin_offset t) - begin_offset t) (last_bytes cap ?s)
    = drop (max off (begin_offset t)) ?s"
    by (simp add: last_bytes_def b(1))
  with f b read_tail_eq [OF f(1)] show ?thesis
    by (simp add: snapshot_tail_def length_tail_bytes [symmetric] t_def [symmetric] del: length_tail_bytes)
qed

text \<open>
  After \<open>n\<close> consecutive failures a log sink is degraded, has added up what it dropped, keeps the
  last error, and may retry 1 s doubled with every failure, at most 60 s, after the last failure;
  a recovery clears the degradation and the back-off.
\<close>

lemma log_sink_backoff:
  assumes "fs \<noteq> []" "h = record_failures fs new_health"
  shows "lh_degraded h \<and> lh_dropped_bytes h = sum_list (map (\<lambda>(_, n, _). n) fs) \<and>
    lh_last_error h = snd (snd (last fs)) \<and>
    (retry_ready now h \<longleftrightarrow> fst (last fs) + min (1000 * 2 ^ (length fs - 1)) 60000 \<le> now) \<and>
    \<not> lh_degraded (record_recovery h) \<and> lh_retry_delay_ms (record_recovery h) = lh_retry_delay_ms new_health"
  using record_failures_delay [of new_health 0 fs] assms
  by (auto simp: retry_ready_def record_recovery_def new_health_def)

lemma log_sink_backoff_example:
  "retry_ready 4000 (record_failures [(0, 5, ''io''), (1000, 7, ''full'')] new_health) \<and>
   \<not> retry_ready 2999 (record_failures [(0, 5, ''io''), (1000, 7, ''full'')] new_health)"
  using log_sink_backoff [OF _ refl, of "[(0, 5, ''io''), (1000, 7, ''full'')]" 4000]
    log_sink_backoff [OF _ refl, of "[(0, 5, ''io''), (1000, 7, ''full'')]" 2999] by simp

text \<open>
  Log responses are read back exactly as written and nothing else is accepted; a log request is
  read back as written, and a request in the older form, the name alone, asks for the live log.
\<close>

lemma log_message_roundtrips:
  "(read_program_log_response bs = Inr (p, rest) \<longleftrightarrow>
     ok_log_response p \<and> (\<exists>pre. append_program_log_response p [] = Inr pre \<and> bs = pre @ rest)) \<and>
   (lq_name q \<noteq> [] \<and> append_program_log_request q [] = Inr qs \<longrightarrow> read_program_log_request qs = Inr q) \<and>
   (name \<noteq> [] \<and> fappend_string name [] = Inr ns \<longrightarrow>
     read_program_log_request ns = Inr \<lparr>lq_name = name, lq_mode = LR_live\<rparr>)"
  by (auto simp: log_response.get_iff log_response.put_ok log_request_roundtrip log_request_legacy)

lemma log_message_roundtrips_example:
  "read_program_log_request (enc_string ''web'') = Inr \<lparr>lq_name = ''web'', lq_mode = LR_live\<rparr>"
  using log_message_roundtrips [where name = "''web''" and ns = "enc_string ''web''", THEN conjunct2, THEN conjunct2]
  by (simp add: fappend_string_Inr ok_string_def protocol_v3_max_payload_def)

text \<open>
  In split mode the two log files are the base name with \<open>_stdout\<close> and \<open>_stderr\<close> put before its
  extension, where the extension is in the last path component; so they differ, and joining a
  directory in front keeps them apart.
\<close>

lemma split_log_names:
  "\<exists>stem ext. (if configured = [] then name @ ''.log'' else configured) = stem @ ext \<and>
     (ext = [] \<or> hd ext = CHR ''.'') \<and> CHR ''/'' \<notin> set ext \<and> backslash \<notin> set ext \<and>
     derive_log_file_names name LM_split configured = [stem @ ''_stdout'' @ ext, stem @ ''_stderr'' @ ext] \<and>
     distinct (derive_log_paths directory name LM_split configured)"
proof -
  from split_names_spec [OF refl, of configured name] obtain stem ext where
    s: "(if configured = [] then name @ ''.log'' else configured) = stem @ ext"
    "ext = [] \<or> hd ext = CHR ''.''" "CHR ''/'' \<notin> set ext" "backslash \<notin> set ext"
    "derive_log_file_names name LM_split configured = [stem @ ''_stdout'' @ ext, stem @ ''_stderr'' @ ext]"
    by blast
  then have "distinct (derive_log_paths directory name LM_split configured)"
    by (simp add: derive_log_paths_def Let_def)
  with s show ?thesis by blast
qed

text \<open>
  C22: logs in memory and their sinks.  Whatever the program writes and in whatever pieces, the tail holds exactly the last
  \<open>capacity\<close> bytes of its output, counts all of it, and a reader that asks for up to \<open>m\<close> bytes from an offset of the whole
  stream gets the stream's bytes there, from the first byte still held.  After \<open>n\<close> consecutive failures a log sink is
  degraded, has added up what it dropped, keeps the last error, and may retry 1 s doubled with every failure, at most
  60 s, after the last failure; a recovery clears the degradation and the back-off.
\<close>

theorem program_log_correct:
  "(let t = fold append_tail pieces (new_log_tail cap) in
     snapshot_tail t = last_bytes cap (concat pieces) \<and>
     lt_total_bytes t = length (concat pieces) \<and>
     begin_offset t = length (concat pieces) - cap \<and>
     read_tail off m t = take m (drop (max off (begin_offset t)) (concat pieces))) \<and>
   (fs \<noteq> [] \<longrightarrow> (let h = record_failures fs new_health in
     lh_degraded h \<and> lh_dropped_bytes h = sum_list (map (\<lambda>(_, n, _). n) fs) \<and>
     lh_last_error h = snd (snd (last fs)) \<and>
     (retry_ready now h \<longleftrightarrow> fst (last fs) + min (1000 * 2 ^ (length fs - 1)) 60000 \<le> now) \<and>
     \<not> lh_degraded (record_recovery h) \<and> lh_retry_delay_ms (record_recovery h) = lh_retry_delay_ms new_health))"
  using log_tail_keeps_last [of pieces cap off m] log_sink_backoff [OF _ refl, of fs now] by (simp add: Let_def)

theorem program_log_correct_witness:
  "retry_ready 4000 (record_failures [(0, 5, ''io''), (1000, 7, ''full'')] new_health) \<and>
   \<not> retry_ready 2999 (record_failures [(0, 5, ''io''), (1000, 7, ''full'')] new_health)"
  using program_log_correct [of "[]" 0 0 0 "[(0, 5, ''io''), (1000, 7, ''full'')]" 4000]
    program_log_correct [of "[]" 0 0 0 "[(0, 5, ''io''), (1000, 7, ''full'')]" 2999] by (simp add: Let_def)

end
