(* ===== verification/Dependency_Graph_Correct.thy ===== *)
theory Dependency_Graph_Correct
  imports Dependency_Graph
begin

section \<open>Correctness of the dependency graph\<close>

text \<open>
  What \<open>dependency_graph::build\<close> promises: it accepts exactly the configurations whose names are
  non-empty and distinct, whose dependencies are known, distinct and not the program itself, and
  whose \<open>depends_on\<close> relation has no cycle; the order it returns takes at each step the smallest
  program all of whose dependencies have been taken; a cycle it reports is a real one; and
  \<open>transitive_dependents\<close> is the transitive closure, listed in start order.
\<close>

subsection \<open>What a valid configuration is\<close>

definition valid_names :: "dependency_node_config list \<Rightarrow> bool" where
  "valid_names cs \<longleftrightarrow> (\<forall>c \<in> set cs. dn_name c \<noteq> []) \<and> distinct (map dn_name cs)"

definition valid_depends_on :: "string list \<Rightarrow> dependency_node_config \<Rightarrow> bool" where
  "valid_depends_on names c \<longleftrightarrow>
     distinct (dn_depends_on c) \<and> dn_name c \<notin> set (dn_depends_on c) \<and>
     set (dn_depends_on c) \<subseteq> set names"

definition depends_rel :: "dependency_node_config list \<Rightarrow> (string \<times> string) set" where
  "depends_rel cs = {(dn_name c, d) | c d. c \<in> set cs \<and> d \<in> set (dn_depends_on c)}"

definition valid_configs :: "dependency_node_config list \<Rightarrow> bool" where
  "valid_configs cs \<longleftrightarrow>
     valid_names cs \<and> (\<forall>c \<in> set cs. valid_depends_on (map dn_name cs) c) \<and>
     acyclic (depends_rel cs)"

definition config_ids :: "dependency_node_config list \<Rightarrow> nat list list" where
  "config_ids cs = map (\<lambda>c. map (position (map dn_name cs)) (dn_depends_on c)) cs"

subsection \<open>Positions in a list\<close>

lemma position_less: "x \<in> set xs \<Longrightarrow> position xs x < length xs"
  by (induction xs) auto

lemma nth_position: "x \<in> set xs \<Longrightarrow> xs ! position xs x = x"
  by (induction xs) auto

lemma position_nth: "distinct xs \<Longrightarrow> i < length xs \<Longrightarrow> position xs (xs ! i) = i"
proof (induction xs arbitrary: i)
  case (Cons y ys)
  then show ?case by (cases i) auto
qed simp

lemma inj_on_position: "inj_on (position xs) (set xs)"
  by (metis inj_onI nth_position)

lemma position_take: "x \<in> set (take k xs) \<Longrightarrow> position xs x < k"
proof (induction xs arbitrary: k)
  case (Cons y ys)
  then show ?case by (cases k) auto
qed simp

subsection \<open>The name table\<close>

definition name_table :: "nat \<Rightarrow> string list \<Rightarrow> (string \<rightharpoonup> nat) \<Rightarrow> string \<rightharpoonup> nat" where
  "name_table i nms ix = (\<lambda>x. if x \<in> set nms then Some (i + position nms x) else ix x)"

lemma name_table_Cons:
  "nm \<notin> set nms \<Longrightarrow> name_table (Suc i) nms (ix(nm \<mapsto> i)) = name_table i (nm # nms) ix"
  by (auto simp: name_table_def fun_eq_iff)

lemma add_names_Inr:
  "add_names nms i ns ix = Inr r \<longleftrightarrow>
     (\<forall>nm \<in> set nms. nm \<noteq> [] \<and> ix nm = None) \<and> distinct nms \<and>
     r = (ns @ nms, name_table i nms ix)"
proof (induction nms arbitrary: i ns ix)
  case Nil
  then show ?case by (auto simp: name_table_def)
next
  case (Cons nm nms)
  show ?case
  proof (cases "nm = [] \<or> ix nm \<noteq> None")
    case True
    then show ?thesis by auto
  next
    case False
    then have "nm \<noteq> []" "ix nm = None" by auto
    have fresh: "(\<forall>x \<in> set nms. x \<noteq> [] \<and> (ix(nm \<mapsto> i)) x = None) \<longleftrightarrow>
        nm \<notin> set nms \<and> (\<forall>x \<in> set nms. x \<noteq> [] \<and> ix x = None)" by auto
    have tab: "nm \<notin> set nms \<Longrightarrow> name_table i (nm # nms) ix = name_table (Suc i) nms (ix(nm \<mapsto> i))"
      by (rule name_table_Cons [symmetric])
    have eq: "add_names (nm # nms) i ns ix = add_names nms (Suc i) (ns @ [nm]) (ix(nm \<mapsto> i))"
      using \<open>nm \<noteq> []\<close> \<open>ix nm = None\<close> by simp
    show ?thesis
    proof (cases "nm \<in> set nms")
      case True
      then show ?thesis unfolding eq Cons.IH fresh by simp
    next
      case False
      then show ?thesis
        unfolding eq Cons.IH fresh tab [OF False]
        using \<open>nm \<noteq> []\<close> \<open>ix nm = None\<close> by simp
    qed
  qed
qed

lemma add_names_Inl_code:
  "add_names nms i ns ix = Inl e \<Longrightarrow> de_code e \<in> {DE_empty_name, DE_duplicate_name}"
  by (induction nms i ns ix rule: add_names.induct) (auto simp: error_of_def split: if_splits)

subsection \<open>The edge tables\<close>

definition adjacency :: "nat \<Rightarrow> nat list list \<Rightarrow> nat list list \<Rightarrow> bool" where
  "adjacency n deps rdeps \<longleftrightarrow>
     length deps = n \<and> length rdeps = n \<and>
     (\<forall>i < n. distinct (deps ! i) \<and> set (deps ! i) \<subseteq> {..<n}) \<and>
     (\<forall>d < n. distinct (rdeps ! d) \<and> set (rdeps ! d) = {i. i < n \<and> d \<in> set (deps ! i)})"

definition tables_ok :: "nat \<Rightarrow> edge_tables \<Rightarrow> bool" where
  "tables_ok n t \<longleftrightarrow>
     adjacency n (et_dependencies t) (et_dependents t) \<and>
     et_indegree t = map (\<lambda>ds. int (length ds)) (et_dependencies t)"

lemma length_push_at [simp]: "length (push_at xss i x) = length xss"
  by (simp add: push_at_def)

lemma nth_push_at:
  "j < length xss \<Longrightarrow> push_at xss i x ! j = (if j = i then xss ! i @ [x] else xss ! j)"
  by (simp add: push_at_def nth_list_update)

lemma tables_ok_add_edge:
  assumes "tables_ok n t" "i < n" "d < n" "d \<notin> set (et_dependencies t ! i)"
  shows "tables_ok n (add_edge i d t)"
    and "et_dependencies (add_edge i d t) = (et_dependencies t)[i := et_dependencies t ! i @ [d]]"
proof -
  from assms have len: "length (et_dependencies t) = n" "length (et_dependents t) = n"
    by (auto simp: tables_ok_def adjacency_def)
  show "et_dependencies (add_edge i d t) = (et_dependencies t)[i := et_dependencies t ! i @ [d]]"
    by (simp add: add_edge_def push_at_def)
  have "adjacency n (et_dependencies (add_edge i d t)) (et_dependents (add_edge i d t))"
    using assms len by (auto simp: tables_ok_def adjacency_def add_edge_def nth_push_at split: if_splits)
  moreover have "et_indegree (add_edge i d t)
      = map (\<lambda>ds. int (length ds)) (et_dependencies (add_edge i d t))"
    using assms len by (auto simp: tables_ok_def add_edge_def push_at_def map_update algebra_simps)
  ultimately show "tables_ok n (add_edge i d t)"
    by (simp add: tables_ok_def)
qed

lemma tables_ok_add_edges:
  assumes "tables_ok n t" "i < n" "distinct ids" "set ids \<subseteq> {..<n}"
    "set ids \<inter> set (et_dependencies t ! i) = {}"
  shows "tables_ok n (fold (add_edge i) ids t) \<and>
    et_dependencies (fold (add_edge i) ids t) = (et_dependencies t)[i := et_dependencies t ! i @ ids]"
  using assms
proof (induction ids arbitrary: t)
  case Nil
  then show ?case by simp
next
  case (Cons d ids)
  from Cons.prems have e: "tables_ok n (add_edge i d t)"
    "et_dependencies (add_edge i d t) = (et_dependencies t)[i := et_dependencies t ! i @ [d]]"
    by (auto intro!: tables_ok_add_edge)
  from Cons.prems have "i < length (et_dependencies t)"
    by (simp add: tables_ok_def adjacency_def)
  with Cons.prems e Cons.IH [OF e(1)] show ?case by auto
qed

lemma add_dependencies_Inr:
  "add_dependencies ix nm i seen deps t = Inr t' \<longleftrightarrow>
     distinct deps \<and> set deps \<inter> set seen = {} \<and> nm \<notin> set deps \<and> (\<forall>d \<in> set deps. ix d \<noteq> None) \<and>
     t' = fold (add_edge i) (map (\<lambda>d. the (ix d)) deps) t"
proof (induction deps arbitrary: seen t)
  case Nil
  then show ?case by auto
next
  case (Cons d deps)
  then show ?case by (auto split: option.splits)
qed

lemma add_dependencies_Inl_code:
  "add_dependencies ix nm i seen deps t = Inl e \<Longrightarrow>
     de_code e \<in> {DE_duplicate_dependency, DE_self_dependency, DE_missing_dependency}"
  by (induction ix nm i seen deps t rule: add_dependencies.induct)
    (auto simp: error_of_def split: if_splits option.splits)

lemma add_all_dependencies_Inl_code:
  "add_all_dependencies ix i cs t = Inl e \<Longrightarrow>
     de_code e \<in> {DE_duplicate_dependency, DE_self_dependency, DE_missing_dependency}"
  by (induction ix i cs t rule: add_all_dependencies.induct)
    (auto simp: res_bind_eq_Inl dest: add_dependencies_Inl_code)

definition checked_depends_on :: "(string \<rightharpoonup> nat) \<Rightarrow> dependency_node_config \<Rightarrow> bool" where
  "checked_depends_on ix c \<longleftrightarrow> distinct (dn_depends_on c) \<and> dn_name c \<notin> set (dn_depends_on c) \<and>
     (\<forall>d \<in> set (dn_depends_on c). ix d \<noteq> None)"

lemma add_all_dependencies_Inr_iff:
  "(\<exists>t'. add_all_dependencies ix i cs t = Inr t') \<longleftrightarrow> (\<forall>c \<in> set cs. checked_depends_on ix c)"
  by (induction cs arbitrary: i t)
    (auto simp: res_bind_eq_Inr add_dependencies_Inr checked_depends_on_def)

lemma add_all_dependencies_tables:
  assumes "add_all_dependencies ix i cs t = Inr t'"
    and "tables_ok n t" "i + length cs = n"
    and "\<forall>j. i \<le> j \<and> j < n \<longrightarrow> et_dependencies t ! j = []"
    and "inj_on (\<lambda>d. the (ix d)) (dom ix)" "ran ix \<subseteq> {..<n}"
  shows "tables_ok n t' \<and> et_dependencies t' = take i (et_dependencies t)
    @ map (\<lambda>c. map (\<lambda>d. the (ix d)) (dn_depends_on c)) cs"
  using assms
proof (induction cs arbitrary: i t)
  case Nil
  then show ?case by (simp add: tables_ok_def adjacency_def)
next
  case (Cons c cs)
  let ?ids = "map (\<lambda>d. the (ix d)) (dn_depends_on c)"
  from Cons.prems(1) obtain t1 where
    c: "add_dependencies ix (dn_name c) i [] (dn_depends_on c) t = Inr t1"
    and rest: "add_all_dependencies ix (Suc i) cs t1 = Inr t'"
    by (auto simp: res_bind_eq_Inr)
  from c have t1: "t1 = fold (add_edge i) ?ids t"
    and dist: "distinct (dn_depends_on c)" and dom: "set (dn_depends_on c) \<subseteq> dom ix"
    by (auto simp: add_dependencies_Inr)
  have "distinct ?ids"
    using dist inj_on_subset [OF Cons.prems(5) dom] by (simp add: distinct_map)
  moreover have "set ?ids \<subseteq> {..<n}"
    using dom Cons.prems(6) by (force simp: ran_def)
  ultimately have e: "tables_ok n t1 \<and> et_dependencies t1 = (et_dependencies t)[i := ?ids]"
    using tables_ok_add_edges [of n t i ?ids] Cons.prems(2-4) by (simp add: t1)
  have len: "length (et_dependencies t) = n"
    using Cons.prems(2) by (simp add: tables_ok_def adjacency_def)
  have "tables_ok n t' \<and> et_dependencies t' = take (Suc i) (et_dependencies t1)
    @ map (\<lambda>c. map (\<lambda>d. the (ix d)) (dn_depends_on c)) cs"
    by (rule Cons.IH) (use Cons.prems(3-6) e rest in auto)
  moreover have "take (Suc i) (et_dependencies t1) = take i (et_dependencies t) @ [?ids]"
    using e len Cons.prems(3) by (simp add: take_Suc_conv_app_nth)
  ultimately show ?case by simp
qed

subsection \<open>The ordering loop\<close>

definition dep_rel :: "nat list list \<Rightarrow> (nat \<times> nat) set" where
  "dep_rel deps = {(i, d). i < length deps \<and> d \<in> set (deps ! i)}"

text \<open>
  \<open>closed_order\<close>: every node comes after its dependencies.  \<open>least_first\<close>: each step takes the
  smallest node whose dependencies have all been taken, which is what makes the order stable.
\<close>

definition closed_order :: "nat list list \<Rightarrow> nat list \<Rightarrow> bool" where
  "closed_order deps ord \<longleftrightarrow>
     (\<forall>k < length ord. set (deps ! (ord ! k)) \<subseteq> set (take k ord))"

definition available :: "nat list list \<Rightarrow> nat list \<Rightarrow> nat set" where
  "available deps taken = {i. i < length deps \<and> i \<notin> set taken \<and> set (deps ! i) \<subseteq> set taken}"

definition least_first :: "nat list list \<Rightarrow> nat list \<Rightarrow> bool" where
  "least_first deps ord \<longleftrightarrow>
     (\<forall>k < length ord. ord ! k \<in> available deps (take k ord) \<and>
        (\<forall>j \<in> available deps (take k ord). ord ! k \<le> j))"

lemma least_first_closed: "least_first deps ord \<Longrightarrow> closed_order deps ord"
  by (auto simp: least_first_def closed_order_def available_def)

lemma least_first_distinct: "least_first deps ord \<Longrightarrow> distinct ord"
  unfolding distinct_conv_nth
proof (intro allI impI)
  fix i j
  assume lf: "least_first deps ord" and ij: "i < length ord" "j < length ord" "i \<noteq> j"
  have "ord ! b \<noteq> ord ! a" if "a < b" "b < length ord" for a b
    using lf that nth_mem_take [of a b ord] by (auto simp: least_first_def available_def)
  with ij show "ord ! i \<noteq> ord ! j" by (metis linorder_neqE_nat)
qed

lemma least_first_range: "least_first deps ord \<Longrightarrow> set ord \<subseteq> {..<length deps}"
  by (auto simp: least_first_def available_def in_set_conv_nth)

lemma least_first_snoc:
  assumes "least_first deps ord" "i \<in> available deps ord"
    "\<And>j. j \<in> available deps ord \<Longrightarrow> i \<le> j"
  shows "least_first deps (ord @ [i])"
  using assms by (auto simp: least_first_def nth_append less_Suc_eq)

text \<open>Closed forms of one round of decrements.\<close>

lemma release_indegree:
  assumes "distinct ds" "set ds \<subseteq> {..<length ind}"
  shows "length (snd (release ds r ind)) = length ind \<and>
    (\<forall>j < length ind. snd (release ds r ind) ! j = (if j \<in> set ds then ind ! j - 1 else ind ! j))"
  using assms
proof (induction ds r ind rule: release.induct)
  case (1 r ind)
  then show ?case by simp
next
  case (2 d ds r ind)
  then show ?case by (auto simp: Let_def nth_list_update)
qed

lemma release_ready_set:
  assumes "distinct ds" "set ds \<subseteq> {..<length ind}"
  shows "set (fst (release ds r ind)) = set r \<union> {j \<in> set ds. ind ! j = 1}"
  using assms
proof (induction ds r ind rule: release.induct)
  case (1 r ind)
  then show ?case by simp
next
  case (2 d ds r ind)
  then show ?case by (auto simp: Let_def set_insort_key nth_list_update split: if_splits)
qed

lemma release_ready_sorted: "sorted r \<Longrightarrow> sorted (fst (release ds r ind))"
  by (induction ds r ind rule: release.induct) (auto simp: Let_def sorted_insort)

lemma release_ready_distinct:
  assumes "distinct ds" "set ds \<subseteq> {..<length ind}" "distinct r"
    "\<forall>j \<in> set ds. ind ! j = 1 \<longrightarrow> j \<notin> set r"
  shows "distinct (fst (release ds r ind))"
  using assms
proof (induction ds r ind rule: release.induct)
  case (1 r ind)
  then show ?case by simp
next
  case (2 d ds r ind)
  then show ?case
    by (auto simp: Let_def distinct_insort set_insort_key nth_list_update split: if_splits)
qed

text \<open>
  The loop invariant: the counters are the numbers of dependencies not yet taken, the queue holds
  exactly the available nodes in ascending order, and the nodes taken so far were taken smallest
  first.
\<close>

definition kahn_inv :: "nat list list \<Rightarrow> nat list \<Rightarrow> int list \<Rightarrow> nat list \<Rightarrow> bool" where
  "kahn_inv deps ready ind ord \<longleftrightarrow>
     length ind = length deps \<and>
     (\<forall>i < length deps. ind ! i = int (card (set (deps ! i) - set ord))) \<and>
     sorted ready \<and> distinct ready \<and> set ready = available deps ord \<and> least_first deps ord"

lemma kahn_indegree_nonneg: "kahn_inv deps ready ind ord \<Longrightarrow> x \<in> set ind \<Longrightarrow> 0 \<le> x"
  by (auto simp: kahn_inv_def in_set_conv_nth)

lemma card_diff_snoc:
  assumes "finite A"
  shows "int (card (A - set (ord @ [i]))) =
    (if i \<in> A \<and> i \<notin> set ord then int (card (A - set ord)) - 1 else int (card (A - set ord)))"
proof (cases "i \<in> A \<and> i \<notin> set ord")
  case True
  then have "A - set ord = insert i (A - set (ord @ [i]))" by auto
  then have "card (A - set ord) = Suc (card (A - set (ord @ [i])))"
    using assms by (metis Diff_iff card_insert_disjoint finite_Diff in_set_conv_decomp)
  with True show ?thesis by simp
next
  case False
  then have "A - set (ord @ [i]) = A - set ord" by auto
  with False show ?thesis by simp
qed

lemma kahn_inv_step:
  assumes adj: "adjacency n deps rdeps" and inv: "kahn_inv deps (i # ready) ind ord"
    and rel: "release (rdeps ! i) ready ind = (ready', ind')"
  shows "kahn_inv deps ready' ind' (ord @ [i])"
proof -
  have n: "length deps = n" "length rdeps = n" using adj by (auto simp: adjacency_def)
  from inv have i: "i \<in> available deps ord" and len: "length ind = n"
    and ready: "sorted ready" "distinct ready" "i \<notin> set ready" "\<forall>j \<in> set ready. i \<le> j"
    and rset: "insert i (set ready) = available deps ord"
    and ind: "\<And>j. j < n \<Longrightarrow> ind ! j = int (card (set (deps ! j) - set ord))"
    and lf: "least_first deps ord"
    using n by (auto simp: kahn_inv_def)
  from i n have i_n: "i < n" "i \<notin> set ord" by (auto simp: available_def)
  let ?ds = "rdeps ! i"
  have ds: "distinct ?ds" "set ?ds = {j. j < n \<and> i \<in> set (deps ! j)}" "set ?ds \<subseteq> {..<length ind}"
    using adj i_n len by (auto simp: adjacency_def)
  have ind': "length ind' = n" "\<And>j. j < n \<Longrightarrow> ind' ! j = (if j \<in> set ?ds then ind ! j - 1 else ind ! j)"
    using release_indegree [OF ds(1,3), of ready] rel len by auto
  have count: "ind' ! j = int (card (set (deps ! j) - set (ord @ [i])))" if "j < n" for j
    using card_diff_snoc [of "set (deps ! j)" ord i] ind' ds ind that i_n by auto
  have avail: "j \<in> available deps (ord @ [i]) \<longleftrightarrow> j < n \<and> j \<notin> set ord \<and> j \<noteq> i \<and> ind' ! j = 0" for j
    using count [of j] n by (auto simp: available_def card_eq_0_iff)
  have one: "j \<in> set ?ds \<Longrightarrow> ind ! j = 1 \<longleftrightarrow> ind' ! j = 0" for j
    using ind' ds by auto
  have not_ready: "j \<in> set ?ds \<Longrightarrow> j \<notin> set ready" for j
    using rset ds i_n by (auto simp: available_def)
  have in_ord: "j \<in> set ord \<Longrightarrow> j \<in> set ?ds \<Longrightarrow> False" for j
  proof -
    assume "j \<in> set ord" "j \<in> set ?ds"
    then obtain k where "k < length ord" "ord ! k = j" "i \<in> set (deps ! (ord ! k))"
      using ds by (auto simp: in_set_conv_nth)
    then have "i \<in> set (take k ord)"
      using least_first_closed [OF lf] by (auto simp: closed_order_def)
    with i_n(2) show False by (auto dest: in_set_takeD)
  qed
  have self: "i \<notin> set ?ds"
    using i i_n ds by (auto simp: available_def)
  have "set ready' = set ready \<union> {j \<in> set ?ds. ind ! j = 1}"
    using release_ready_set [OF ds(1,3), of ready] rel by simp
  also have "\<dots> = available deps (ord @ [i])"
  proof (intro set_eqI)
    fix j
    show "j \<in> set ready \<union> {j \<in> set ?ds. ind ! j = 1} \<longleftrightarrow> j \<in> available deps (ord @ [i])"
    proof (cases "j \<in> set ?ds")
      case True
      then show ?thesis
        using not_ready in_ord self avail one [OF True] ds(2) by auto
    next
      case False
      then have "j < n \<Longrightarrow> ind' ! j = ind ! j" using ind' by simp
      moreover have "j \<in> set ready \<longleftrightarrow> j \<in> available deps ord \<and> j \<noteq> i"
        using rset ready(3) by auto
      ultimately show ?thesis
        using False avail ind n by (auto simp: available_def card_eq_0_iff)
    qed
  qed
  finally have set': "set ready' = available deps (ord @ [i])" .
  have "sorted ready'" using release_ready_sorted [OF ready(1), of ?ds ind] rel by simp
  moreover have "distinct ready'"
    using release_ready_distinct [OF ds(1,3) ready(2)] not_ready rel by fastforce
  moreover have "least_first deps (ord @ [i])"
    using lf i rset ready(4) by (intro least_first_snoc) auto
  ultimately show ?thesis
    using ind'(1) count set' n by (simp add: kahn_inv_def)
qed

lemma kahn_inv_final:
  "adjacency n deps rdeps \<Longrightarrow> kahn_inv deps ready ind ord \<Longrightarrow>
     \<exists>ind'. kahn_inv deps [] ind' (kahn rdeps ready ind ord)"
proof (induction rdeps ready ind ord rule: kahn.induct)
  case (1 rdeps ind ord)
  then show ?case by auto
next
  case (2 rdeps i ready ind ord)
  then have "i < length rdeps"
    by (auto simp: kahn_inv_def available_def adjacency_def)
  obtain ready' ind' where rel: "release (rdeps ! i) ready ind = (ready', ind')"
    by (cases "release (rdeps ! i) ready ind") auto
  with kahn_inv_step [OF 2(2,3) rel] 2(1) 2(2) \<open>i < length rdeps\<close> show ?case
    by simp
qed

lemma kahn_inv_initial:
  assumes "adjacency n deps rdeps"
  shows "kahn_inv deps (initially_ready (map (\<lambda>ds. int (length ds)) deps))
           (map (\<lambda>ds. int (length ds)) deps) []"
proof -
  have "card (set (deps ! i)) = length (deps ! i)" if "i < length deps" for i
    using assms that by (simp add: adjacency_def distinct_card)
  then show ?thesis
    by (auto simp: kahn_inv_def initially_ready_def available_def least_first_def
        intro!: sorted_wrt_filter)
qed

text \<open>What the loop computes, and when it takes every node.\<close>

definition ordering :: "nat list list \<Rightarrow> nat list list \<Rightarrow> nat list" where
  "ordering deps rdeps = kahn rdeps (initially_ready (map (\<lambda>ds. int (length ds)) deps))
     (map (\<lambda>ds. int (length ds)) deps) []"

lemma ordering_correct:
  assumes "adjacency n deps rdeps"
  shows "least_first deps (ordering deps rdeps)" "available deps (ordering deps rdeps) = {}"
proof -
  from kahn_inv_final [OF assms kahn_inv_initial [OF assms]] obtain ind' where
    "kahn_inv deps [] ind' (ordering deps rdeps)"
    by (auto simp: ordering_def)
  then show "least_first deps (ordering deps rdeps)" "available deps (ordering deps rdeps) = {}"
    by (auto simp: kahn_inv_def)
qed

lemma closed_order_acyclic:
  assumes "closed_order deps ord" "distinct ord" "{..<length deps} \<subseteq> set ord"
  shows "acyclic (dep_rel deps)"
proof (rule acyclicI_order)
  fix i d
  assume e: "(i, d) \<in> dep_rel deps"
  then have "i \<in> set ord" using assms(3) by (auto simp: dep_rel_def)
  then obtain k where k: "k < length ord" "ord ! k = i" by (auto simp: in_set_conv_nth)
  with e assms(1) have "d \<in> set (take k ord)"
    by (auto simp: closed_order_def dep_rel_def)
  with k assms(2) show "position ord d < position ord i"
    by (metis position_nth position_take)
qed

lemma acyclic_has_available:
  assumes adj: "adjacency n deps rdeps" and "acyclic (dep_rel deps)"
    and "j < n" "j \<notin> set taken"
  shows "available deps taken \<noteq> {}"
proof -
  have "dep_rel deps \<subseteq> {..<n} \<times> {..<n}"
    using adj by (auto simp: dep_rel_def adjacency_def)
  then have "finite (dep_rel deps)" by (rule finite_subset) simp
  then have "wf ((dep_rel deps)\<inverse>)"
    using assms(2) by (rule finite_acyclic_wf_converse)
  moreover have "{m. m < n \<and> m \<notin> set taken} \<noteq> {}" using assms(3,4) by auto
  ultimately obtain m where m: "m \<in> {m. m < n \<and> m \<notin> set taken}"
    "\<And>y. (y, m) \<in> (dep_rel deps)\<inverse> \<Longrightarrow> y \<notin> {m. m < n \<and> m \<notin> set taken}"
    by (rule wfE_min') (rule that)
  then have "m \<in> available deps taken"
    using adj by (fastforce simp: available_def dep_rel_def adjacency_def)
  then show ?thesis by auto
qed

lemma ordering_complete_iff:
  assumes adj: "adjacency n deps rdeps"
  shows "length (ordering deps rdeps) = n \<longleftrightarrow> acyclic (dep_rel deps)"
proof
  let ?ord = "ordering deps rdeps"
  have n: "length deps = n" using adj by (simp add: adjacency_def)
  have lf: "least_first deps ?ord" by (rule ordering_correct [OF adj])
  have dist: "distinct ?ord" and rng: "set ?ord \<subseteq> {..<n}"
    using least_first_distinct [OF lf] least_first_range [OF lf] n by auto
  {
    assume "length ?ord = n"
    then have "set ?ord = {..<n}"
      using dist rng by (simp add: card_subset_eq distinct_card)
    then show "acyclic (dep_rel deps)"
      using closed_order_acyclic [OF least_first_closed [OF lf] dist] n by simp
  }
  {
    assume ac: "acyclic (dep_rel deps)"
    then have "{..<n} \<subseteq> set ?ord"
      using acyclic_has_available [OF adj ac] ordering_correct(2) [OF adj] by blast
    then show "length ?ord = n"
      using rng dist by (metis card_lessThan distinct_card subset_antisym)
  }
qed

subsection \<open>The cycle search\<close>

text \<open>
  Frames are a chain of dependencies from the root, their nodes are exactly the nodes coloured 1,
  the dependencies a frame has passed are finished or being visited by the next inner frame, and
  the finished nodes can be listed so that each comes after its dependencies.
\<close>

fun frames_ok :: "nat list list \<Rightarrow> nat list \<Rightarrow> nat option \<Rightarrow> visit_frame list \<Rightarrow> bool" where
  "frames_ok deps color child [] = True"
| "frames_ok deps color child ((i, ds) # fs) =
     (set ds \<subseteq> set (deps ! i) \<and> (\<forall>c. child = Some c \<longrightarrow> c \<in> set (deps ! i)) \<and>
      (\<forall>d \<in> set (deps ! i) - set ds. color ! d = 2 \<or> child = Some d) \<and>
      frames_ok deps color (Some i) fs)"

definition finished_order :: "nat list list \<Rightarrow> nat list \<Rightarrow> nat list \<Rightarrow> bool" where
  "finished_order deps color fin \<longleftrightarrow>
     distinct fin \<and> set fin = {i. i < length deps \<and> color ! i = 2} \<and> closed_order deps fin"

definition visit_inv :: "nat list list \<Rightarrow> visit_frame list \<Rightarrow> nat list \<Rightarrow> bool" where
  "visit_inv deps fs color \<longleftrightarrow>
     length color = length deps \<and>
     distinct (map fst fs) \<and> set (map fst fs) = {i. i < length deps \<and> color ! i = 1} \<and>
     frames_ok deps color None fs \<and> (\<forall>i < length deps. color ! i \<in> {0, 1, 2}) \<and>
     (\<exists>fin. finished_order deps color fin)"

definition real_cycle :: "nat list list \<Rightarrow> nat list \<Rightarrow> bool" where
  "real_cycle deps p \<longleftrightarrow>
     2 \<le> length p \<and> hd p = last p \<and> set p \<subseteq> {..<length deps} \<and>
     (\<forall>k. Suc k < length p \<longrightarrow> p ! Suc k \<in> set (deps ! (p ! k)))"

lemma chain_snoc:
  assumes "\<forall>k. Suc k < length xs \<longrightarrow> P (xs ! k) (xs ! Suc k)" "xs \<noteq> [] \<longrightarrow> P (last xs) y"
  shows "\<forall>k. Suc k < length (xs @ [y]) \<longrightarrow> P ((xs @ [y]) ! k) ((xs @ [y]) ! Suc k)"
proof (intro allI impI)
  fix k
  assume k: "Suc k < length (xs @ [y])"
  show "P ((xs @ [y]) ! k) ((xs @ [y]) ! Suc k)"
  proof (cases "Suc k < length xs")
    case True
    with assms(1) show ?thesis by (simp add: nth_append)
  next
    case False
    with k have "k = length xs - 1" "xs \<noteq> []" "k < length xs" "Suc k = length xs" by auto
    with assms(2) show ?thesis by (simp add: nth_append last_conv_nth)
  qed
qed

lemma frames_chain:
  "frames_ok deps color child fs \<Longrightarrow>
     \<forall>k. Suc k < length (rev (map fst fs)) \<longrightarrow>
        rev (map fst fs) ! Suc k \<in> set (deps ! (rev (map fst fs) ! k))"
proof (induction deps color child fs rule: frames_ok.induct)
  case (1 deps color child)
  then show ?case by simp
next
  case (2 deps color child i ds fs)
  have "\<forall>k. Suc k < length (rev (map fst fs)) \<longrightarrow>
      rev (map fst fs) ! Suc k \<in> set (deps ! (rev (map fst fs) ! k))"
    using 2 by simp
  moreover have "rev (map fst fs) \<noteq> [] \<longrightarrow> i \<in> set (deps ! last (rev (map fst fs)))"
    using 2(2) by (cases fs) auto
  ultimately show ?case
    using chain_snoc [of "rev (map fst fs)" "\<lambda>x y. y \<in> set (deps ! x)" i] by simp
qed

lemma dropWhile_chain:
  assumes "\<forall>k. Suc k < length xs \<longrightarrow> P (xs ! k) (xs ! Suc k)"
  shows "\<forall>k. Suc k < length (dropWhile Q xs) \<longrightarrow> P (dropWhile Q xs ! k) (dropWhile Q xs ! Suc k)"
  using assms
proof (induction xs)
  case (Cons x xs)
  have "\<forall>k. Suc k < length xs \<longrightarrow> P (xs ! k) (xs ! Suc k)"
    using Cons.prems by force
  with Cons show ?case by auto
qed simp

lemma last_dropWhile_eq: "dropWhile P xs \<noteq> [] \<Longrightarrow> last (dropWhile P xs) = last xs"
  by (metis last_append takeWhile_dropWhile_id)

lemma real_cycle_of_frames:
  assumes "visit_inv deps ((i, d # ds) # fs) color" "d < length color" "color ! d = 1"
  shows "real_cycle deps (dropWhile (\<lambda>x. x \<noteq> d) (rev (i # map fst fs)) @ [d])"
proof -
  let ?st = "rev (i # map fst fs)"
  let ?p = "dropWhile (\<lambda>x. x \<noteq> d) ?st"
  from assms have nodes: "set ?st = {i. i < length deps \<and> color ! i = 1}"
    and d_dep: "d \<in> set (deps ! i)" and ok: "frames_ok deps color None ((i, d # ds) # fs)"
    and len: "length color = length deps"
    by (auto simp: visit_inv_def)
  from nodes assms(2,3) len have d_in: "d \<in> set ?st" and rng: "set ?st \<subseteq> {..<length deps}" by auto
  from d_in have ne: "?p \<noteq> []" by (auto simp: dropWhile_eq_Nil_conv)
  have hd: "hd ?p = d" using hd_dropWhile [OF ne] by simp
  have last: "last ?p = i" using last_dropWhile_eq [OF ne] by simp
  have "\<forall>k. Suc k < length ?st \<longrightarrow> ?st ! Suc k \<in> set (deps ! (?st ! k))"
    using frames_chain [OF ok] by simp
  from dropWhile_chain [OF this]
  have "\<forall>k. Suc k < length ?p \<longrightarrow> ?p ! Suc k \<in> set (deps ! (?p ! k))" .
  then have "\<forall>k. Suc k < length (?p @ [d]) \<longrightarrow> (?p @ [d]) ! Suc k \<in> set (deps ! ((?p @ [d]) ! k))"
    by (rule chain_snoc) (simp only: last d_dep simp_thms)
  moreover have "set (?p @ [d]) \<subseteq> {..<length deps}"
    using rng d_in set_dropWhileD [of _ "\<lambda>x. x \<noteq> d" ?st] by auto
  moreover have "2 \<le> length (?p @ [d])" using ne by (cases ?p) auto
  ultimately show ?thesis
    using ne hd by (simp add: real_cycle_def)
qed

lemma frames_ok_mono:
  "frames_ok deps color child fs \<Longrightarrow> (\<And>d. color ! d = 2 \<Longrightarrow> color' ! d = 2) \<Longrightarrow>
     frames_ok deps color' child fs"
  by (induction deps color child fs rule: frames_ok.induct) auto

lemma frames_ok_child:
  "frames_ok deps color (Some i) fs \<Longrightarrow> color ! i = 2 \<Longrightarrow> frames_ok deps color None fs"
  by (cases fs) auto

lemma closed_order_snoc:
  "closed_order deps ord \<Longrightarrow> set (deps ! i) \<subseteq> set ord \<Longrightarrow> closed_order deps (ord @ [i])"
  by (simp add: closed_order_def nth_append less_Suc_eq)

lemma finished_order_push:
  assumes "finished_order deps color fin" "i < length deps" "length color = length deps"
    "color ! i = 1" "set (deps ! i) \<subseteq> set fin"
  shows "finished_order deps (color[i := 2]) (fin @ [i])"
proof -
  have "{j. j < length deps \<and> color[i := 2] ! j = 2} = insert i {j. j < length deps \<and> color ! j = 2}"
    using assms(2,3) by (auto simp: nth_list_update)
  with assms show ?thesis
    by (simp add: finished_order_def closed_order_snoc)
qed

lemma finished_order_grey:
  assumes "finished_order deps color fin" "length color = length deps" "d < length color"
    "color ! d = 0"
  shows "finished_order deps (color[d := 1]) fin"
proof -
  have "{j. j < length deps \<and> color[d := 1] ! j = 2} = {j. j < length deps \<and> color ! j = 2}"
    using assms(2-4) by (auto simp: nth_list_update)
  with assms(1) show ?thesis by (simp add: finished_order_def)
qed

definition deps_in_range :: "nat list list \<Rightarrow> bool" where
  "deps_in_range deps \<longleftrightarrow> (\<forall>i < length deps. set (deps ! i) \<subseteq> {..<length deps})"

lemma visit_inv_pop:
  assumes inv: "visit_inv deps ((i, []) # fs) color" and range: "deps_in_range deps"
  shows "visit_inv deps fs (color[i := 2])"
proof -
  from inv have nodes: "i \<notin> fst ` set fs" "distinct (map fst fs)"
    "insert i (fst ` set fs) = {i. i < length deps \<and> color ! i = 1}"
    and ok: "frames_ok deps color (Some i) fs" and len: "length color = length deps"
    and fini: "\<forall>d \<in> set (deps ! i). color ! d = 2"
    and cols: "\<forall>i < length deps. color ! i \<in> {0, 1, 2}"
    by (auto simp: visit_inv_def)
  from nodes(3) have i: "i < length deps" "color ! i = 1" by auto
  from inv obtain fin where fin: "finished_order deps color fin" by (auto simp: visit_inv_def)
  have "set (deps ! i) \<subseteq> set fin"
    using fin fini range i by (auto simp: finished_order_def deps_in_range_def)
  then have "finished_order deps (color[i := 2]) (fin @ [i])"
    using finished_order_push [OF fin i(1) len i(2)] by simp
  moreover have "frames_ok deps (color[i := 2]) None fs"
  proof (rule frames_ok_child)
    show "frames_ok deps (color[i := 2]) (Some i) fs"
      using ok by (rule frames_ok_mono) (use i len in \<open>auto simp: nth_list_update\<close>)
  qed (use i len in simp)
  moreover have "fst ` set fs = {j. j < length deps \<and> color[i := 2] ! j = 1}"
    using nodes(1,3) i len by (auto simp: nth_list_update)
  moreover have "\<forall>j < length deps. color[i := 2] ! j \<in> {0, 1, 2}"
    using cols i len by (simp add: nth_list_update)
  ultimately show ?thesis
    using nodes(2) len unfolding visit_inv_def by auto
qed

lemma visit_inv_push:
  assumes inv: "visit_inv deps ((i, d # ds) # fs) color" and d: "d < length color" "color ! d = 0"
  shows "visit_inv deps ((d, deps ! d) # (i, ds) # fs) (color[d := 1])"
proof -
  from inv have nodes: "distinct (i # map fst fs)"
    "insert i (fst ` set fs) = {i. i < length deps \<and> color ! i = 1}"
    and ok: "frames_ok deps color None ((i, d # ds) # fs)" and len: "length color = length deps"
    and cols: "\<forall>i < length deps. color ! i \<in> {0, 1, 2}"
    by (auto simp: visit_inv_def)
  from inv obtain fin where "finished_order deps color fin" by (auto simp: visit_inv_def)
  then have "finished_order deps (color[d := 1]) fin"
    using len d by (rule finished_order_grey)
  moreover have "frames_ok deps (color[d := 1]) None ((d, deps ! d) # (i, ds) # fs)"
  proof -
    have "frames_ok deps (color[d := 1]) None ((i, d # ds) # fs)"
      using ok by (rule frames_ok_mono) (use d in \<open>auto simp: nth_list_update split: if_splits\<close>)
    then show ?thesis by auto
  qed
  moreover have "insert d (insert i (fst ` set fs)) = {j. j < length deps \<and> color[d := 1] ! j = 1}"
    unfolding nodes(2) using d len by (auto simp: nth_list_update)
  then have "set (map fst ((d, deps ! d) # (i, ds) # fs)) = {j. j < length deps \<and> color[d := 1] ! j = 1}"
    by simp
  moreover have "d \<notin> insert i (fst ` set fs)"
    unfolding nodes(2) using d by auto
  then have "distinct (map fst ((d, deps ! d) # (i, ds) # fs))" using nodes(1) by simp
  moreover have "\<forall>j < length deps. color[d := 1] ! j \<in> {0, 1, 2}"
    using cols d by (simp add: nth_list_update)
  moreover have "length (color[d := 1]) = length deps" using len by simp
  ultimately show ?thesis unfolding visit_inv_def by blast
qed

lemma update_nonzero: "color ! j \<noteq> 0 \<Longrightarrow> v \<noteq> 0 \<Longrightarrow> color[i := v] ! j \<noteq> (0 :: nat)"
  by (cases "i < length color") (simp_all add: nth_list_update list_update_beyond)

lemma visit_inv_skip:
  assumes "visit_inv deps ((i, d # ds) # fs) color" "color ! d = 2"
  shows "visit_inv deps ((i, ds) # fs) color"
  using assms by (auto simp: visit_inv_def)

lemma visit_correct:
  "visit_inv deps fs color \<Longrightarrow> deps_in_range deps \<Longrightarrow> visit deps fs color = (r, color') \<Longrightarrow>
     (case r of Some p \<Rightarrow> real_cycle deps p | None \<Rightarrow> visit_inv deps [] color') \<and>
     (\<forall>i. color ! i \<noteq> 0 \<longrightarrow> i < length deps \<longrightarrow> color' ! i \<noteq> 0)"
proof (induction deps fs color arbitrary: r color' rule: visit.induct)
  case (1 deps color)
  then show ?case by auto
next
  case (2 deps i fs color)
  from 2(4) have v: "visit deps fs (color[i := 2]) = (r, color')" by simp
  from 2(1) [OF visit_inv_pop [OF 2(2,3)] 2(3) v] show ?case
    using update_nonzero [of color _ 2 i] by simp
next
  case (3 deps i d ds fs color)
  have len: "length color = length deps" and di: "d \<in> set (deps ! i)"
    and grey: "insert i (fst ` set fs) = {i. i < length deps \<and> color ! i = 1}"
    using 3(3) by (auto simp: visit_inv_def)
  from grey have "i < length deps" by auto
  with di 3(4) len have d: "d < length color" by (auto simp: deps_in_range_def)
  with 3(3) len have cols: "color ! d \<in> {0, 1, 2}" by (simp add: visit_inv_def)
  consider "color ! d = 0" | "color ! d = 1" | "color ! d = 2" using cols by auto
  then show ?case
  proof cases
    case 1
    with d 3(5) have v: "visit deps ((d, deps ! d) # (i, ds) # fs) (color[d := 1]) = (r, color')"
      by simp
    have "d < length color \<and> color ! d = 0" using 1 d by simp
    from 3(1) [OF this visit_inv_push [OF 3(3) d 1] 3(4) v] show ?thesis
      using update_nonzero [of color _ 1 d] by simp
  next
    case 2
    with d 3(5) have "r = Some (dropWhile (\<lambda>x. x \<noteq> d) (rev (i # map fst fs)) @ [d])" "color' = color"
      by auto
    with real_cycle_of_frames [OF 3(3) d 2] show ?thesis by simp
  next
    case c2: 3
    with d 3(5) have v: "visit deps ((i, ds) # fs) color = (r, color')" by simp
    have nc: "\<not> (d < length color \<and> color ! d = 0)" "\<not> (d < length color \<and> color ! d = 1)"
      using c2 by auto
    from 3(2) [OF nc visit_inv_skip [OF 3(3) c2] 3(4) v] show ?thesis .
  qed
qed

lemma find_cycle_correct:
  assumes "visit_inv deps [] color" "deps_in_range deps" "set roots \<subseteq> {..<length deps}"
    and "\<forall>i < length deps. i \<notin> set roots \<longrightarrow> color ! i \<noteq> 0"
  shows "(find_cycle deps roots color = [] \<and> acyclic (dep_rel deps)) \<or>
         real_cycle deps (find_cycle deps roots color)"
  using assms
proof (induction deps roots color rule: find_cycle.induct)
  case (1 deps color)
  then obtain fin where fin: "finished_order deps color fin" by (auto simp: visit_inv_def)
  have "{..<length deps} \<subseteq> set fin"
    using 1 fin by (auto simp: finished_order_def visit_inv_def)
  then have "acyclic (dep_rel deps)"
    using fin closed_order_acyclic [of deps fin] by (simp add: finished_order_def)
  then show ?case by simp
next
  case (2 deps i roots color)
  have len: "length color = length deps" using 2(3) by (simp add: visit_inv_def)
  show ?case
  proof (cases "i < length color \<and> color ! i = 0")
    case False
    with 2 len show ?thesis by auto
  next
    case True
    obtain r color' where v: "visit deps [(i, deps ! i)] (color[i := 1]) = (r, color')"
      by (cases "visit deps [(i, deps ! i)] (color[i := 1])") auto
    have "visit_inv deps [(i, deps ! i)] (color[i := 1])"
    proof -
      from 2(3) obtain fin where "finished_order deps color fin" by (auto simp: visit_inv_def)
      then have "finished_order deps (color[i := 1]) fin"
        using len True by (auto intro: finished_order_grey simp del: One_nat_def)
      moreover have "\<forall>j < length deps. color ! j \<noteq> 1" using 2(3) by (auto simp: visit_inv_def)
      ultimately show ?thesis
        using 2(3) True len by (auto simp: visit_inv_def nth_list_update)
    qed
    note c = visit_correct [OF this 2(4) v]
    show ?thesis
    proof (cases r)
      case (Some p)
      with c True v show ?thesis by simp
    next
      case None
      have *: "visit_inv deps [] color'" using c None by simp
      have **: "\<forall>j < length deps. j \<notin> set roots \<longrightarrow> color' ! j \<noteq> 0"
      proof (intro allI impI)
        fix j
        assume j: "j < length deps" "j \<notin> set roots"
        have "color[i := 1] ! j \<noteq> 0"
          using 2(6) j True by (cases "j = i") (simp_all add: nth_list_update)
        with c j show "color' ! j \<noteq> 0" by blast
      qed
      from 2(1) [OF True v [symmetric] None * 2(4) _ **] 2(5) True v None show ?thesis by simp
    qed
  qed
qed

subsection \<open>The built graph\<close>

definition wf_graph :: "dependency_graph \<Rightarrow> bool" where
  "wf_graph g \<longleftrightarrow>
     adjacency (graph_size g) (g_dependencies g) (g_dependents g) \<and>
     distinct (g_names g) \<and> g_indices g = name_table 0 (g_names g) Map.empty \<and>
     least_first (g_dependencies g) (g_topological_order g) \<and>
     set (g_topological_order g) = {..<graph_size g}"

definition empty_tables :: "nat \<Rightarrow> edge_tables" where
  "empty_tables n = \<lparr>et_dependencies = replicate n [], et_dependents = replicate n [],
     et_indegree = replicate n 0\<rparr>"

lemma tables_ok_empty: "tables_ok n (empty_tables n)"
  by (simp add: tables_ok_def adjacency_def empty_tables_def)

lemma trancl_inv_imageD: "(x, y) \<in> (inv_image r f)\<^sup>+ \<Longrightarrow> (f x, f y) \<in> r\<^sup>+"
  by (induction rule: trancl_induct) (auto simp: in_inv_image)

lemma acyclic_inv_image_subset: "acyclic r \<Longrightarrow> s \<subseteq> inv_image r f \<Longrightarrow> acyclic s"
  unfolding acyclic_def by (meson trancl_inv_imageD trancl_mono)

lemma config_ids_nth:
  "i < length cs \<Longrightarrow>
     config_ids cs ! i = map (position (map dn_name cs)) (dn_depends_on (cs ! i))"
  by (simp add: config_ids_def)

lemma length_config_ids [simp]: "length (config_ids cs) = length cs"
  by (simp add: config_ids_def)

lemma dep_rel_config_ids:
  assumes "valid_names cs" "\<forall>c \<in> set cs. valid_depends_on (map dn_name cs) c" "i < length cs"
    and "d \<in> set (config_ids cs ! i)"
  shows "d < length cs" "(dn_name (cs ! i), dn_name (cs ! d)) \<in> depends_rel cs"
proof -
  from assms(3,4) obtain x where x: "x \<in> set (dn_depends_on (cs ! i))"
    "d = position (map dn_name cs) x" by (auto simp: config_ids_nth)
  with assms(2,3) have m: "x \<in> set (map dn_name cs)" by (auto simp: valid_depends_on_def)
  from position_less [OF m] x(2) show d: "d < length cs" by simp
  with nth_position [OF m] x(2) have "dn_name (cs ! d) = x" by simp
  with x(1) assms(3) show "(dn_name (cs ! i), dn_name (cs ! d)) \<in> depends_rel cs"
    by (auto simp: depends_rel_def)
qed

lemma acyclic_config_ids:
  assumes "valid_names cs" "\<forall>c \<in> set cs. valid_depends_on (map dn_name cs) c"
  shows "acyclic (dep_rel (config_ids cs)) \<longleftrightarrow> acyclic (depends_rel cs)"
proof
  assume "acyclic (depends_rel cs)"
  then show "acyclic (dep_rel (config_ids cs))"
    by (rule acyclic_inv_image_subset [where f = "\<lambda>i. dn_name (cs ! i)"])
      (auto simp: dep_rel_def dest: dep_rel_config_ids [OF assms])
next
  assume a: "acyclic (dep_rel (config_ids cs))"
  show "acyclic (depends_rel cs)"
  proof (rule acyclic_inv_image_subset [where f = "position (map dn_name cs)", OF a], safe)
    fix x y
    assume "(x, y) \<in> depends_rel cs"
    then obtain c where c: "c \<in> set cs" "x = dn_name c" "y \<in> set (dn_depends_on c)"
      by (auto simp: depends_rel_def)
    then obtain i where i: "i < length cs" "cs ! i = c" by (auto simp: in_set_conv_nth)
    then have "position (map dn_name cs) x = i"
      using assms(1) c(2) position_nth [of "map dn_name cs" i] by (simp add: valid_names_def)
    with c i show "(x, y) \<in> inv_image (dep_rel (config_ids cs)) (position (map dn_name cs))"
      by (auto simp: dep_rel_def config_ids_nth)
  qed
qed

text \<open>The three phases of \<open>build\<close> on names that pass the first one.\<close>

lemma add_names_valid:
  "valid_names cs \<Longrightarrow> add_names (map dn_name cs) 0 [] Map.empty
     = Inr (map dn_name cs, name_table 0 (map dn_name cs) Map.empty)"
  by (auto simp: add_names_Inr valid_names_def)

lemma add_names_invalid:
  assumes "\<not> valid_names cs"
  obtains e where "add_names (map dn_name cs) 0 [] Map.empty = Inl e"
    "de_code e \<in> {DE_empty_name, DE_duplicate_name}"
proof (cases "add_names (map dn_name cs) 0 [] Map.empty")
  case (Inl e)
  with that add_names_Inl_code show ?thesis by blast
next
  case (Inr r)
  with assms show ?thesis by (auto simp: add_names_Inr valid_names_def)
qed

lemma checked_depends_on_table:
  "checked_depends_on (name_table 0 nms Map.empty) c \<longleftrightarrow> valid_depends_on nms c"
  by (auto simp: checked_depends_on_def valid_depends_on_def name_table_def)

lemma edge_phase:
  assumes "valid_names cs" "\<forall>c \<in> set cs. valid_depends_on (map dn_name cs) c"
  obtains t where
    "add_all_dependencies (name_table 0 (map dn_name cs) Map.empty) 0 cs (empty_tables (length cs)) = Inr t"
    "tables_ok (length cs) t" "et_dependencies t = config_ids cs"
proof -
  let ?ix = "name_table 0 (map dn_name cs) Map.empty"
  have dom: "dom ?ix = set (map dn_name cs)" by (auto simp: name_table_def split: if_splits)
  have the: "the (?ix d) = position (map dn_name cs) d" if "d \<in> dom ?ix" for d
    using that by (auto simp: name_table_def split: if_splits)
  have inj: "inj_on (\<lambda>d. the (?ix d)) (dom ?ix)"
    using inj_on_position [of "map dn_name cs"] unfolding dom [symmetric]
    by (auto simp: inj_on_def the)
  have ran: "ran ?ix \<subseteq> {..<length cs}"
    using position_less [of _ "map dn_name cs"]
    by (auto simp: ran_def name_table_def split: if_splits)
  from assms(2) obtain t where t:
    "add_all_dependencies ?ix 0 cs (empty_tables (length cs)) = Inr t"
    using add_all_dependencies_Inr_iff [of ?ix 0 cs] by (auto simp: checked_depends_on_table)
  have ok: "tables_ok (length cs) t \<and> et_dependencies t = take 0 (et_dependencies (empty_tables (length cs)))
      @ map (\<lambda>c. map (\<lambda>d. the (?ix d)) (dn_depends_on c)) cs"
    by (rule add_all_dependencies_tables [OF t tables_ok_empty _ _ inj ran])
      (simp_all add: empty_tables_def)
  have "map (\<lambda>c. map (\<lambda>d. the (?ix d)) (dn_depends_on c)) cs = config_ids cs"
    using assms(2) by (auto simp: config_ids_def valid_depends_on_def name_table_def)
  with ok t that show ?thesis by simp
qed

lemma edge_phase_invalid:
  assumes "\<not> (\<forall>c \<in> set cs. valid_depends_on (map dn_name cs) c)"
  obtains e where
    "add_all_dependencies (name_table 0 (map dn_name cs) Map.empty) 0 cs (empty_tables (length cs)) = Inl e"
    "de_code e \<in> {DE_duplicate_dependency, DE_self_dependency, DE_missing_dependency}"
proof -
  let ?r = "add_all_dependencies (name_table 0 (map dn_name cs) Map.empty) 0 cs (empty_tables (length cs))"
  have "\<not> (\<exists>t. ?r = Inr t)"
    using assms by (simp add: add_all_dependencies_Inr_iff checked_depends_on_table)
  then obtain e where "?r = Inl e" by (cases ?r) auto
  with that add_all_dependencies_Inl_code show ?thesis by blast
qed

lemma build_unfold:
  "build configs =
     res_bind (add_names (map dn_name configs) 0 [] Map.empty) (\<lambda>(names, indices).
      res_bind (add_all_dependencies indices 0 configs (empty_tables (length configs))) (\<lambda>t.
      let order = kahn (et_dependents t) (initially_ready (et_indegree t)) (et_indegree t) [] in
      if length order \<noteq> length configs
      then (let path = map ((!) names)
                  (find_cycle (et_dependencies t) [0..<length configs] (replicate (length configs) 0))
            in Inl \<lparr>de_code = DE_cycle, de_message = cycle_message path, de_cycle_path = path\<rparr>)
      else Inr \<lparr>g_names = names, g_indices = indices, g_dependencies = et_dependencies t,
                g_dependents = et_dependents t, g_topological_order = order\<rparr>))"
  by (simp add: build_def Let_def empty_tables_def)

lemma find_cycle_on_adjacency:
  assumes "adjacency n deps rdeps" "\<not> acyclic (dep_rel deps)"
  shows "real_cycle deps (find_cycle deps [0..<n] (replicate n 0))"
proof -
  have "finished_order deps (replicate n 0) []"
    using assms(1) by (auto simp: finished_order_def closed_order_def adjacency_def)
  then have "visit_inv deps [] (replicate n 0)"
    using assms(1) by (auto simp: visit_inv_def adjacency_def)
  from find_cycle_correct [OF this, of "[0..<n]"] assms show ?thesis
    by (auto simp: adjacency_def deps_in_range_def atLeast0LessThan)
qed

text \<open>A cycle of names, as the error reports it.\<close>

definition name_cycle :: "dependency_node_config list \<Rightarrow> string list \<Rightarrow> bool" where
  "name_cycle cs p \<longleftrightarrow>
     2 \<le> length p \<and> hd p = last p \<and>
     (\<forall>k. Suc k < length p \<longrightarrow> (p ! k, p ! Suc k) \<in> depends_rel cs)"

lemma name_cycle_of_ids:
  assumes "valid_names cs" "\<forall>c \<in> set cs. valid_depends_on (map dn_name cs) c"
    and "real_cycle (config_ids cs) p"
  shows "name_cycle cs (map ((!) (map dn_name cs)) p)"
  unfolding name_cycle_def
proof (intro conjI allI impI)
  from assms(3) have p: "2 \<le> length p" "hd p = last p" "set p \<subseteq> {..<length cs}"
    "\<And>k. Suc k < length p \<Longrightarrow> p ! Suc k \<in> set (config_ids cs ! (p ! k))"
    by (auto simp: real_cycle_def)
  then have "p \<noteq> []" by auto
  with p show "2 \<le> length (map ((!) (map dn_name cs)) p)"
    "hd (map ((!) (map dn_name cs)) p) = last (map ((!) (map dn_name cs)) p)"
    by (simp_all add: hd_map last_map)
  fix k
  assume "Suc k < length (map ((!) (map dn_name cs)) p)"
  then have k: "Suc k < length p" by simp
  then have "p ! k \<in> set p" "p ! Suc k \<in> set p" by simp_all
  with p(3) have r: "p ! k < length cs" "p ! Suc k < length cs" by auto
  with dep_rel_config_ids(2) [OF assms(1,2) r(1) p(4) [OF k]] k
  show "(map ((!) (map dn_name cs)) p ! k, map ((!) (map dn_name cs)) p ! Suc k) \<in> depends_rel cs"
    by simp
qed

lemma build_cases:
  shows "\<not> valid_names cs \<Longrightarrow>
      \<exists>e. build cs = Inl e \<and> de_code e \<in> {DE_empty_name, DE_duplicate_name}"
    and "valid_names cs \<Longrightarrow> \<not> (\<forall>c \<in> set cs. valid_depends_on (map dn_name cs) c) \<Longrightarrow>
      \<exists>e. build cs = Inl e \<and>
        de_code e \<in> {DE_duplicate_dependency, DE_self_dependency, DE_missing_dependency}"
    and "valid_names cs \<Longrightarrow> \<forall>c \<in> set cs. valid_depends_on (map dn_name cs) c \<Longrightarrow>
      \<not> acyclic (depends_rel cs) \<Longrightarrow>
      \<exists>e. build cs = Inl e \<and> de_code e = DE_cycle \<and> name_cycle cs (de_cycle_path e)"
    and "valid_configs cs \<Longrightarrow> \<exists>g. build cs = Inr g \<and>
      g_names g = map dn_name cs \<and> g_dependencies g = config_ids cs \<and> wf_graph g"
proof goal_cases
  case 1
  then show ?case by (rule add_names_invalid) (simp add: build_unfold)
next
  case 2
  from 2(2) obtain e where
    "add_all_dependencies (name_table 0 (map dn_name cs) Map.empty) 0 cs (empty_tables (length cs)) = Inl e"
    "de_code e \<in> {DE_duplicate_dependency, DE_self_dependency, DE_missing_dependency}"
    by (rule edge_phase_invalid)
  then show ?case using 2(1) by (simp add: build_unfold add_names_valid)
next
  case 3
  from 3(1,2) obtain t where t:
    "add_all_dependencies (name_table 0 (map dn_name cs) Map.empty) 0 cs (empty_tables (length cs)) = Inr t"
    "tables_ok (length cs) t" "et_dependencies t = config_ids cs"
    by (rule edge_phase)
  have adj: "adjacency (length cs) (config_ids cs) (et_dependents t)"
    using t by (simp add: tables_ok_def)
  have cyc: "\<not> acyclic (dep_rel (config_ids cs))" using 3 by (simp add: acyclic_config_ids)
  have "length (ordering (config_ids cs) (et_dependents t)) \<noteq> length cs"
    using ordering_complete_iff [OF adj] cyc by simp
  then show ?case
    using 3(1) t name_cycle_of_ids [OF 3(1,2) find_cycle_on_adjacency [OF adj cyc]]
    by (simp add: build_unfold add_names_valid tables_ok_def ordering_def Let_def)
next
  case 4
  then have v: "valid_names cs" "\<forall>c \<in> set cs. valid_depends_on (map dn_name cs) c"
    "acyclic (dep_rel (config_ids cs))"
    by (simp_all add: valid_configs_def acyclic_config_ids)
  from v(1,2) obtain t where t:
    "add_all_dependencies (name_table 0 (map dn_name cs) Map.empty) 0 cs (empty_tables (length cs)) = Inr t"
    "tables_ok (length cs) t" "et_dependencies t = config_ids cs"
    by (rule edge_phase)
  have adj: "adjacency (length cs) (config_ids cs) (et_dependents t)"
    using t by (simp add: tables_ok_def)
  let ?ord = "ordering (config_ids cs) (et_dependents t)"
  have len: "length ?ord = length cs" using ordering_complete_iff [OF adj] v(3) by simp
  note lf = ordering_correct(1) [OF adj]
  have "set ?ord = {..<length cs}"
    using least_first_distinct [OF lf] least_first_range [OF lf] len
    by (intro card_subset_eq) (auto simp: distinct_card)
  with len lf adj v(1) t show ?case
    by (simp add: build_unfold add_names_valid tables_ok_def ordering_def Let_def wf_graph_def
        graph_size_def valid_names_def)
qed

subsection \<open>Transitive dependents\<close>

lemma bfs_mark_fresh:
  "bfs_mark ds pending visited result = (pending', visited', result') \<Longrightarrow>
   \<exists>new. pending' = pending @ new \<and> result' = result @ new \<and> distinct new \<and>
     set new = {d \<in> set ds. d < length visited \<and> \<not> visited ! d} \<and>
     length visited' = length visited \<and>
     (\<forall>j < length visited. visited' ! j \<longleftrightarrow> visited ! j \<or> j \<in> set new)"
proof (induction ds pending visited result rule: bfs_mark.induct)
  case (1 pending visited result)
  then show ?case by auto
next
  case (2 d ds pending visited result)
  show ?case
  proof (cases "d < length visited \<and> \<not> visited ! d")
    case False
    with 2 show ?thesis by auto
  next
    case True
    with 2(1) [OF True] 2(3) obtain new where new: "pending' = (pending @ [d]) @ new"
      "result' = (result @ [d]) @ new" "distinct new"
      "set new = {x \<in> set ds. x < length (visited[d := True]) \<and> \<not> visited[d := True] ! x}"
      "length visited' = length (visited[d := True])"
      "\<forall>j < length (visited[d := True]). visited' ! j \<longleftrightarrow> visited[d := True] ! j \<or> j \<in> set new"
      by auto
    with True show ?thesis
      by (intro exI [of _ "d # new"]) (auto simp: nth_list_update)
  qed
qed

definition rdep_rel :: "nat list list \<Rightarrow> (nat \<times> nat) set" where
  "rdep_rel rdeps = {(i, d). i < length rdeps \<and> d \<in> set (rdeps ! i)}"

definition bfs_inv :: "nat list list \<Rightarrow> nat \<Rightarrow> nat list \<Rightarrow> bool list \<Rightarrow> nat list \<Rightarrow> bool" where
  "bfs_inv rdeps i pending visited result \<longleftrightarrow>
     length visited = length rdeps \<and> distinct (i # result) \<and> set (i # result) \<subseteq> {..<length rdeps} \<and>
     (\<forall>j < length rdeps. visited ! j \<longleftrightarrow> j \<in> set (i # result)) \<and>
     set pending \<subseteq> set (i # result) \<and>
     (\<forall>j \<in> set (i # result) - set pending. set (rdeps ! j) \<subseteq> set (i # result)) \<and>
     (\<forall>j \<in> set result. (i, j) \<in> (rdep_rel rdeps)\<^sup>+)"

lemma bfs_inv_step:
  assumes inv: "bfs_inv rdeps i (cur # pending) visited result"
    and mark: "bfs_mark (rdeps ! cur) pending visited result = (pending', visited', result')"
    and range: "deps_in_range rdeps"
  shows "bfs_inv rdeps i pending' visited' result'"
proof -
  let ?n = "length rdeps"
  from bfs_mark_fresh [OF mark] obtain new where new: "pending' = pending @ new"
    "result' = result @ new" "distinct new"
    "set new = {d \<in> set (rdeps ! cur). d < length visited \<and> \<not> visited ! d}"
    "length visited' = length visited"
    "\<forall>j < length visited. visited' ! j \<longleftrightarrow> visited ! j \<or> j \<in> set new"
    by auto
  from inv have len: "length visited = ?n" and dist: "distinct (i # result)"
    and rng: "set (i # result) \<subseteq> {..<?n}"
    and vis: "\<And>j. j < ?n \<Longrightarrow> visited ! j \<longleftrightarrow> j \<in> set (i # result)"
    and pend: "set (cur # pending) \<subseteq> set (i # result)"
    and clos: "\<And>j. j \<in> set (i # result) \<Longrightarrow> j \<notin> set (cur # pending) \<Longrightarrow>
      set (rdeps ! j) \<subseteq> set (i # result)"
    and reach: "\<And>j. j \<in> set result \<Longrightarrow> (i, j) \<in> (rdep_rel rdeps)\<^sup>+"
    by (auto simp: bfs_inv_def)
  have cur: "cur \<in> set (i # result)" "cur < ?n" using pend rng by auto
  have new_set: "set new = set (rdeps ! cur) - set (i # result)"
    using new(4) len vis range cur(2) by (auto simp: deps_in_range_def)
  have new_rng: "set new \<subseteq> {..<?n}" using new(4) len by auto
  have "(i, j) \<in> (rdep_rel rdeps)\<^sup>+" if "j \<in> set new" for j
  proof -
    have e: "(cur, j) \<in> rdep_rel rdeps" using that new(4) cur(2) by (auto simp: rdep_rel_def)
    show ?thesis
    proof (cases "cur = i")
      case False
      then show ?thesis using cur(1) reach e by (auto intro: trancl_into_trancl)
    qed (use e in auto)
  qed
  moreover have "set (rdeps ! j) \<subseteq> set (i # result')" if "j \<in> set (i # result') - set pending'" for j
  proof (cases "j = cur")
    case True
    then show ?thesis using new_set new(2) by auto
  next
    case False
    with that new(1,2) have "j \<in> set (i # result)" "j \<notin> set (cur # pending)" by auto
    from clos [OF this] new(2) show ?thesis by auto
  qed
  moreover have "distinct (i # result')"
    using dist new(2,3) new_set by auto
  moreover have "\<forall>j < ?n. visited' ! j \<longleftrightarrow> j \<in> set (i # result')"
    using new(2,6) vis len by auto
  moreover have "set (i # result') \<subseteq> {..<?n}" using rng new_rng new(2) by auto
  moreover have "set pending' \<subseteq> set (i # result')" using pend new(1,2) by auto
  ultimately show ?thesis
    using reach new(2,5) len unfolding bfs_inv_def by auto
qed

lemma bfs_final:
  "bfs_inv rdeps i pending visited result \<Longrightarrow> deps_in_range rdeps \<Longrightarrow>
     \<exists>visited'. bfs_inv rdeps i [] visited' (bfs rdeps pending visited result)"
proof (induction rdeps pending visited result rule: bfs.induct)
  case (1 rdeps visited result)
  then show ?case by auto
next
  case (2 rdeps cur pending visited result)
  then have cur: "cur < length rdeps" by (auto simp: bfs_inv_def)
  obtain p v r where m: "bfs_mark (rdeps ! cur) pending visited result = (p, v, r)"
    by (cases "bfs_mark (rdeps ! cur) pending visited result") auto
  with bfs_inv_step [OF 2(2) m 2(3)] 2(1) 2(3) cur show ?case by simp
qed

lemma bfs_correct:
  assumes "deps_in_range rdeps" "i < length rdeps" "acyclic (rdep_rel rdeps)"
  defines "r \<equiv> bfs rdeps [i] ((replicate (length rdeps) False)[i := True]) []"
  shows "distinct r" "set r = {j. (i, j) \<in> (rdep_rel rdeps)\<^sup>+}"
proof -
  have "bfs_inv rdeps i [i] ((replicate (length rdeps) False)[i := True]) []"
    using assms(2) by (auto simp: bfs_inv_def nth_list_update)
  from bfs_final [OF this assms(1)] obtain v where inv: "bfs_inv rdeps i [] v r"
    unfolding r_def by auto
  then show "distinct r" by (simp add: bfs_inv_def)
  have closed: "k \<in> set (i # r)" if "(i, k) \<in> (rdep_rel rdeps)\<^sup>+" for k
    using that
  proof (induction rule: trancl_induct)
    case (base y)
    then show ?case using inv by (auto simp: bfs_inv_def rdep_rel_def)
  next
    case (step y z)
    then show ?case using inv by (auto simp: bfs_inv_def rdep_rel_def)
  qed
  have "(i, i) \<notin> (rdep_rel rdeps)\<^sup>+" using assms(3) by (simp add: acyclic_def)
  with closed inv show "set r = {j. (i, j) \<in> (rdep_rel rdeps)\<^sup>+}"
    by (auto simp: bfs_inv_def)
qed

lemma rdep_rel_converse: "adjacency n deps rdeps \<Longrightarrow> rdep_rel rdeps = (dep_rel deps)\<inverse>"
  by (auto simp: rdep_rel_def dep_rel_def adjacency_def)

lemma wf_graph_acyclic: "wf_graph g \<Longrightarrow> acyclic (dep_rel (g_dependencies g))"
  by (rule closed_order_acyclic [of _ "g_topological_order g"])
    (auto simp: wf_graph_def adjacency_def dest: least_first_closed least_first_distinct)

lemma transitive_dependents_spec:
  assumes "wf_graph g" "i < graph_size g"
  shows "set (transitive_dependents g i) = {j. (j, i) \<in> (dep_rel (g_dependencies g))\<^sup>+}"
    and "distinct (transitive_dependents g i)"
    and "sorted (map (position (g_topological_order g)) (transitive_dependents g i))"
proof -
  have adj: "adjacency (graph_size g) (g_dependencies g) (g_dependents g)"
    using assms(1) by (simp add: wf_graph_def)
  note conv = rdep_rel_converse [OF adj]
  have "deps_in_range (g_dependents g)" "length (g_dependents g) = graph_size g"
    using adj by (auto simp: deps_in_range_def adjacency_def)
  moreover have "acyclic (rdep_rel (g_dependents g))"
    using wf_graph_acyclic [OF assms(1)] by (simp add: conv acyclic_converse)
  ultimately show "set (transitive_dependents g i) = {j. (j, i) \<in> (dep_rel (g_dependencies g))\<^sup>+}"
    "distinct (transitive_dependents g i)"
    "sorted (map (position (g_topological_order g)) (transitive_dependents g i))"
    using bfs_correct [of "g_dependents g" i] assms(2)
    by (simp_all add: transitive_dependents_def conv trancl_converse)
qed

lemma build_Inr:
  "build cs = Inr g \<Longrightarrow>
     valid_configs cs \<and> g_names g = map dn_name cs \<and> g_dependencies g = config_ids cs \<and> wf_graph g"
  using build_cases [of cs] by (cases "valid_configs cs") (auto simp: valid_configs_def)

subsection \<open>Properties\<close>


text \<open>
  The start order of a built graph is a permutation of the programs in which every program comes
  after all its dependencies, and among the programs that could come next it always takes the one
  configured first.
\<close>

lemma build_start_order:
  assumes "build cs = Inr g"
  shows "distinct (g_topological_order g) \<and> set (g_topological_order g) = {..<length cs} \<and>
    closed_order (config_ids cs) (g_topological_order g) \<and>
    least_first (config_ids cs) (g_topological_order g)"
proof -
  from build_Inr [OF assms]
  have g: "wf_graph g" "graph_size g = length cs" "g_dependencies g = config_ids cs"
    by (auto simp: graph_size_def)
  then show ?thesis
    by (auto simp: wf_graph_def least_first_closed dest: least_first_distinct)
qed

definition sample_configs :: "dependency_node_config list" where
  "sample_configs =
     [\<lparr>dn_name = ''web'', dn_depends_on = [''db'', ''cache'']\<rparr>,
      \<lparr>dn_name = ''db'', dn_depends_on = []\<rparr>,
      \<lparr>dn_name = ''cache'', dn_depends_on = [''db'']\<rparr>,
      \<lparr>dn_name = ''cron'', dn_depends_on = []\<rparr>]"

definition sample_graph :: dependency_graph where
  "sample_graph = projr (build sample_configs)"

lemma sample_build: "build sample_configs = Inr sample_graph"
proof -
  have "\<not> isl (build sample_configs)" by code_simp
  then show ?thesis by (simp add: sample_graph_def)
qed

lemma sample_order: "g_topological_order sample_graph = [1, 2, 0, 3]"
  by code_simp

lemma build_start_order_example:
  "build sample_configs = Inr sample_graph \<and> g_topological_order sample_graph = [1, 2, 0, 3] \<and>
   least_first (config_ids sample_configs) [1, 2, 0, 3]"
  using build_start_order [OF sample_build] sample_build by (simp add: sample_order)

text \<open>
  In a built graph \<open>transitive_dependents\<close> of a program is, without repetition, exactly the
  programs that depend on it directly or through others, listed in start order.
\<close>

lemma transitive_dependents_correct:
  assumes "build cs = Inr g" "i < length cs"
  shows "set (transitive_dependents g i) = {j. (j, i) \<in> (dep_rel (config_ids cs))\<^sup>+} \<and>
    distinct (transitive_dependents g i) \<and>
    sorted (map (position (g_topological_order g)) (transitive_dependents g i))"
  using transitive_dependents_spec [of g i] build_Inr [OF assms(1)] assms(2)
  by (simp add: graph_size_def)

lemma sample_transitive: "transitive_dependents sample_graph 1 = [2, 0]"
  by code_simp

lemma sample_length: "length sample_configs = 4"
  by (simp add: sample_configs_def)

lemma transitive_dependents_correct_example:
  "build sample_configs = Inr sample_graph \<and> transitive_dependents sample_graph 1 = [2, 0] \<and>
   {j. (j, 1) \<in> (dep_rel (config_ids sample_configs))\<^sup>+} = {2, 0}"
  using transitive_dependents_correct [OF sample_build, of 1] sample_build
  by (simp only: sample_transitive sample_length) simp

text \<open>
  C17: the orders of a built graph.  The start order is a permutation of the programs in which every program comes
  after all its dependencies, and among the programs that could come next it always takes the one configured first.
  \<open>transitive_dependents\<close> of a program is, without repetition, exactly the programs that depend on it directly or
  through others, listed in start order.
\<close>

theorem build_orders:
  assumes "build cs = Inr g" "i < length cs"
  shows "distinct (g_topological_order g) \<and> set (g_topological_order g) = {..<length cs} \<and>
    closed_order (config_ids cs) (g_topological_order g) \<and>
    least_first (config_ids cs) (g_topological_order g) \<and>
    set (transitive_dependents g i) = {j. (j, i) \<in> (dep_rel (config_ids cs))\<^sup>+} \<and>
    distinct (transitive_dependents g i) \<and>
    sorted (map (position (g_topological_order g)) (transitive_dependents g i))"
  using build_start_order [OF assms(1)] transitive_dependents_correct [OF assms] by blast

theorem build_orders_witness:
  "build sample_configs = Inr sample_graph \<and> least_first (config_ids sample_configs) [1, 2, 0, 3] \<and>
   {j. (j, 1) \<in> (dep_rel (config_ids sample_configs))\<^sup>+} = {2, 0}"
  using build_orders [OF sample_build, of 1] sample_build
  by (simp only: sample_transitive sample_length sample_order) simp

end
