(* ===== verification/Program_Names.thy ===== *)
theory Program_Names
  imports Dependency_Graph_Correct
begin

section \<open>Program names, ordering of configurations and launch environments\<close>

text \<open>
  \<open>is_valid_program_name\<close> (core/program_name), \<open>validate_and_order_prog_cfgs\<close> (core/prog_cfg_order), and
  the environment a child is launched with (daemon/launch_environment).  The \<open>Config\<close> template parameter of the ordering is a type variable with
  its name and dependencies given as functions.
\<close>

subsection \<open>Program names\<close>

definition program_name_max_length :: nat where
  "program_name_max_length = 128"

text \<open>\<open>isalnum\<close> in the C locale.\<close>

definition is_alnum :: "char \<Rightarrow> bool" where
  "is_alnum c \<longleftrightarrow> (let n = (of_char c :: nat) in
     48 \<le> n \<and> n \<le> 57 \<or> 65 \<le> n \<and> n \<le> 90 \<or> 97 \<le> n \<and> n \<le> 122)"

definition valid_rest :: "char \<Rightarrow> bool" where
  "valid_rest c \<longleftrightarrow> is_alnum c \<or> c = CHR ''.'' \<or> c = CHR ''_'' \<or> c = CHR ''-''"

definition is_valid_program_name :: "string \<Rightarrow> bool" where
  "is_valid_program_name name \<longleftrightarrow>
     (if name = [] \<or> length name > program_name_max_length then False
      else is_alnum (hd name) \<and> list_all valid_rest (tl name))"

definition program_name_validation_error :: "string \<Rightarrow> string" where
  "program_name_validation_error name =
     (if name = [] then ''Program name must not be empty''
      else if length name > program_name_max_length then ''Program name must be at most 128 characters''
      else ''Invalid program name `'' @ name @ ''`; expected [A-Za-z0-9][A-Za-z0-9._-]*'')"

subsection \<open>Ordering configurations\<close>

fun check_dependency_names :: "string \<Rightarrow> string list \<Rightarrow> string option" where
  "check_dependency_names nm [] = None"
| "check_dependency_names nm (d # ds) =
     (if \<not> is_valid_program_name d
      then Some (''Program `'' @ nm @ ''` has invalid dependency name: '' @ program_name_validation_error d)
      else check_dependency_names nm ds)"

fun collect_configs ::
  "('c \<Rightarrow> string) \<Rightarrow> ('c \<Rightarrow> string list) \<Rightarrow> 'c list \<Rightarrow> dependency_node_config list
    \<Rightarrow> string + dependency_node_config list" where
  "collect_configs name_of deps_of [] configs = Inr configs"
| "collect_configs name_of deps_of (p # ps) configs =
     (if \<not> is_valid_program_name (name_of p) then Inl (program_name_validation_error (name_of p))
      else (case check_dependency_names (name_of p) (deps_of p) of
              Some e \<Rightarrow> Inl e
            | None \<Rightarrow> collect_configs name_of deps_of ps
                (configs @ [\<lparr>dn_name = name_of p, dn_depends_on = deps_of p\<rparr>])))"

text \<open>The reordered programs, or the error message, in which case the programs are left as they were.\<close>

definition validate_and_order_prog_cfgs ::
  "('c \<Rightarrow> string) \<Rightarrow> ('c \<Rightarrow> string list) \<Rightarrow> 'c list \<Rightarrow> string + 'c list" where
  "validate_and_order_prog_cfgs name_of deps_of programs =
     res_bind (collect_configs name_of deps_of programs []) (\<lambda>configs.
     (case build configs of
        Inl e \<Rightarrow> Inl (de_message e)
      | Inr g \<Rightarrow> Inr (map ((!) programs) (g_topological_order g))))"

subsection \<open>Launch environments\<close>

record passwd_t =
  pw_name :: string
  pw_uid :: int
  pw_gid :: int
  pw_dir :: string
  pw_shell :: string

definition env_key :: "string \<Rightarrow> string" where
  "env_key entry = (if CHR ''='' \<in> set entry then takeWhile (\<lambda>c. c \<noteq> CHR ''='') entry else [])"

definition is_identity_key :: "string \<Rightarrow> bool" where
  "is_identity_key key \<longleftrightarrow> key = ''HOME'' \<or> key = ''USER'' \<or> key = ''LOGNAME'' \<or> key = ''SHELL''"

definition starts_with :: "string \<Rightarrow> string \<Rightarrow> bool" where
  "starts_with p s \<longleftrightarrow> take (length p) s = p"

definition remove_inherited_key :: "string \<Rightarrow> bool" where
  "remove_inherited_key key \<longleftrightarrow>
     key = ''PATH'' \<or> is_identity_key key \<or> starts_with ''SUDO_'' key \<or> starts_with ''LD_'' key"

definition executable_has_path :: "string \<Rightarrow> bool" where
  "executable_has_path executable \<longleftrightarrow> CHR ''/'' \<in> set executable"

text \<open>The result vector and the index of every key in it.\<close>

type_synonym env_state = "string list \<times> (string \<rightharpoonup> nat)"

definition apply_entry :: "string \<Rightarrow> env_state \<Rightarrow> env_state" where
  "apply_entry entry = (\<lambda>(result, indices).
     let key = env_key entry in
     if key = [] \<or> starts_with ''PM_TINY_'' key then (result, indices)
     else case indices key of
       None \<Rightarrow> (result @ [entry], indices(key \<mapsto> length result))
     | Some i \<Rightarrow> (result[i := entry], indices))"

definition identity_entries :: "passwd_t \<Rightarrow> string list" where
  "identity_entries u =
     (if pw_dir u \<noteq> [] then [''HOME='' @ pw_dir u] else []) @
     (if pw_name u \<noteq> [] then [''USER='' @ pw_name u, ''LOGNAME='' @ pw_name u] else []) @
     (if pw_shell u \<noteq> [] then [''SHELL='' @ pw_shell u] else [])"

definition compose_launch_environment ::
  "string list \<Rightarrow> string list \<Rightarrow> passwd_t option \<Rightarrow> bool \<Rightarrow> string list" where
  "compose_launch_environment inherited explicit_values target_user sanitize =
     fst (fold apply_entry
       (filter (\<lambda>entry. \<not> (sanitize \<and> remove_inherited_key (env_key entry))) inherited @
        (case target_user of Some u \<Rightarrow> if sanitize then identity_entries u else [] | None \<Rightarrow> []) @
        explicit_values)
       ([], Map.empty))"

subsection \<open>Lemmas on names\<close>

lemma check_dependency_names_None:
  "check_dependency_names nm ds = None \<longleftrightarrow> list_all is_valid_program_name ds"
  by (induction ds) auto

lemma collect_configs_Inr:
  "collect_configs n d ps cs = Inr r \<longleftrightarrow>
     (\<forall>p \<in> set ps. is_valid_program_name (n p) \<and> list_all is_valid_program_name (d p)) \<and>
     r = cs @ map (\<lambda>p. \<lparr>dn_name = n p, dn_depends_on = d p\<rparr>) ps"
proof (induction ps arbitrary: cs)
  case (Cons p ps)
  show ?case
  proof (cases "check_dependency_names (n p) (d p)")
    case None
    then have "list_all is_valid_program_name (d p)" by (simp add: check_dependency_names_None)
    with None Cons show ?thesis by auto
  next
    case (Some e)
    then have "\<not> list_all is_valid_program_name (d p)" by (metis check_dependency_names_None option.distinct(1))
    with Some show ?thesis by auto
  qed
qed auto

subsection \<open>Lemmas on environments\<close>

definition env_inv :: "env_state \<Rightarrow> bool" where
  "env_inv s \<longleftrightarrow> distinct (map env_key (fst s)) \<and>
     (\<forall>i < length (fst s). snd s (env_key (fst s ! i)) = Some i) \<and>
     (\<forall>k i. snd s k = Some i \<longrightarrow> i < length (fst s) \<and> env_key (fst s ! i) = k) \<and>
     (\<forall>e \<in> set (fst s). env_key e \<noteq> [] \<and> \<not> starts_with ''PM_TINY_'' (env_key e))"

definition env_lookup :: "string list \<Rightarrow> string \<Rightarrow> string option" where
  "env_lookup es k = List.find (\<lambda>e. env_key e = k) es"

lemma env_lookup_inv:
  assumes "env_inv s"
  shows "env_lookup (fst s) k = map_option ((!) (fst s)) (snd s k)"
proof (cases "snd s k")
  case None
  have "env_key e \<noteq> k" if "e \<in> set (fst s)" for e
    using that assms None by (auto simp: env_inv_def in_set_conv_nth)
  then show ?thesis using None by (simp add: env_lookup_def find_None_iff)
next
  case (Some i)
  with assms have i: "i < length (fst s)" "env_key (fst s ! i) = k" by (auto simp: env_inv_def)
  moreover have "env_key (fst s ! j) \<noteq> k" if "j < i" for j
  proof
    assume "env_key (fst s ! j) = k"
    moreover have "snd s (env_key (fst s ! j)) = Some j" using that i(1) assms by (simp add: env_inv_def)
    ultimately show False using Some that by simp
  qed
  ultimately have "env_lookup (fst s) k = Some (fst s ! i)"
    unfolding env_lookup_def find_Some_iff by blast
  with Some show ?thesis by simp
qed

definition accepted_key :: "string \<Rightarrow> bool" where
  "accepted_key k \<longleftrightarrow> k \<noteq> [] \<and> \<not> starts_with ''PM_TINY_'' k"

lemma apply_entry_inv:
  assumes "env_inv s"
  shows "env_inv (apply_entry e s) \<and>
    env_lookup (fst (apply_entry e s)) k =
      (if env_key e = k \<and> accepted_key k then Some e else env_lookup (fst s) k)"
proof -
  obtain res ix where s: "s = (res, ix)" by (cases s)
  note inv = assms [unfolded s env_inv_def fst_conv snd_conv]
  show ?thesis
  proof (cases "accepted_key (env_key e)")
    case False
    then have "apply_entry e s = s" by (auto simp: apply_entry_def s accepted_key_def Let_def)
    with False assms show ?thesis by auto
  next
    case True
    show ?thesis
    proof (cases "ix (env_key e)")
      case None
      have a: "apply_entry e s = (res @ [e], ix(env_key e \<mapsto> length res))"
        using True None by (auto simp: apply_entry_def s accepted_key_def Let_def)
      have "env_key e \<notin> set (map env_key res)" using inv None by (auto simp: in_set_conv_nth)
      then have "distinct (map env_key (res @ [e]))" using inv by simp
      moreover have "(ix(env_key e \<mapsto> length res)) (env_key ((res @ [e]) ! j)) = Some j"
        if "j < length (res @ [e])" for j
      proof (cases "j < length res")
        case True
        then have "ix (env_key (res ! j)) = Some j" using inv by simp
        with True None show ?thesis by (auto simp: nth_append)
      next
        case False
        with that have "j = length res" by simp
        then show ?thesis by simp
      qed
      moreover have "j < length (res @ [e]) \<and> env_key ((res @ [e]) ! j) = x"
        if "(ix(env_key e \<mapsto> length res)) x = Some j" for x j
      proof (cases "x = env_key e")
        case False
        then have "ix x = Some j" using that by simp
        then have "j < length res" "env_key (res ! j) = x" using inv by blast+
        then show ?thesis by (simp add: nth_append)
      qed (use that in \<open>auto simp: nth_append\<close>)
      moreover have "\<forall>x \<in> set (res @ [e]). env_key x \<noteq> [] \<and> \<not> starts_with ''PM_TINY_'' (env_key x)"
        using inv True by (simp add: accepted_key_def)
      ultimately have "env_inv (apply_entry e s)" unfolding a env_inv_def by simp
      moreover from env_lookup_inv [OF this, of k]
      have "env_lookup (fst (apply_entry e s)) k
        = map_option ((!) (res @ [e])) ((ix(env_key e \<mapsto> length res)) k)" by (simp only: a fst_conv snd_conv)
      moreover have "env_lookup (fst s) k = map_option ((!) res) (ix k)"
        using env_lookup_inv [OF assms, of k] by (simp only: s fst_conv snd_conv)
      moreover have "ix k = Some j \<Longrightarrow> j < length res" for j using inv by blast
      ultimately show ?thesis using True by (cases "ix k") (auto simp: nth_append)
    next
      case (Some i)
      have a: "apply_entry e s = (res[i := e], ix)"
        using True Some by (auto simp: apply_entry_def s accepted_key_def Let_def)
      have i: "i < length res" "env_key (res ! i) = env_key e" using inv Some by auto
      have keys: "map env_key (res[i := e]) = map env_key res"
        using i by (simp add: map_update list_update_same_conv)
      have nth: "env_key (res[i := e] ! j) = env_key (res ! j)" if "j < length res" for j
        using i that by (auto simp: nth_list_update)
      have "set (res[i := e]) \<subseteq> insert e (set res)" by (rule set_update_subset_insert)
      then have "env_inv (apply_entry e s)"
        using inv True nth keys unfolding a env_inv_def accepted_key_def by auto
      moreover from env_lookup_inv [OF this, of k]
      have "env_lookup (fst (apply_entry e s)) k = map_option ((!) (res[i := e])) (ix k)"
        by (simp only: a fst_conv snd_conv)
      moreover have "env_lookup (fst s) k = map_option ((!) res) (ix k)"
        using env_lookup_inv [OF assms, of k] by (simp only: s fst_conv snd_conv)
      moreover have "ix k = Some i \<Longrightarrow> k = env_key e" using inv i by metis
      ultimately show ?thesis using True Some i by (cases "ix k") (auto simp: nth_list_update)
    qed
  qed
qed

lemma find_append_list:
  "List.find P (xs @ ys) = (case List.find P xs of Some x \<Rightarrow> Some x | None \<Rightarrow> List.find P ys)"
  by (induction xs) auto

text \<open>The last accepted entry of a key.\<close>

definition last_entry :: "string list \<Rightarrow> string \<Rightarrow> string option" where
  "last_entry es k = (if accepted_key k then List.find (\<lambda>e. env_key e = k) (rev es) else None)"

lemma fold_apply_entry:
  "env_inv s \<Longrightarrow> env_inv (fold apply_entry es s) \<and>
     env_lookup (fst (fold apply_entry es s)) k =
       (case last_entry es k of Some e \<Rightarrow> Some e | None \<Rightarrow> env_lookup (fst s) k)"
proof (induction es rule: rev_induct)
  case Nil
  then show ?case by (simp add: last_entry_def)
next
  case (snoc e es)
  with apply_entry_inv [of "fold apply_entry es s" e k] show ?case
    by (auto simp: last_entry_def)
qed

subsection \<open>Properties\<close>

text \<open>
  C32: \<open>validate_and_order_prog_cfgs\<close> succeeds exactly when every program name and dependency name is
  well-formed and the dependency configuration is valid; the result is the given programs reordered,
  each once, so that every program comes after all the programs it depends on.
\<close>

theorem validate_and_order_correct:
  "case validate_and_order_prog_cfgs n d ps of
     Inl e \<Rightarrow> \<not> (list_all (\<lambda>p. is_valid_program_name (n p) \<and> list_all is_valid_program_name (d p)) ps \<and>
       valid_configs (map (\<lambda>p. \<lparr>dn_name = n p, dn_depends_on = d p\<rparr>) ps))
   | Inr qs \<Rightarrow> list_all (\<lambda>p. is_valid_program_name (n p) \<and> list_all is_valid_program_name (d p)) ps \<and>
       valid_configs (map (\<lambda>p. \<lparr>dn_name = n p, dn_depends_on = d p\<rparr>) ps) \<and>
       (\<exists>order. distinct order \<and> set order = {..<length ps} \<and> qs = map ((!) ps) order) \<and>
       list_all (\<lambda>k. set (d (qs ! k)) \<subseteq> n ` set (take k qs)) [0..<length qs]"
proof -
  let ?cs = "map (\<lambda>p. \<lparr>dn_name = n p, dn_depends_on = d p\<rparr>) ps"
  show ?thesis
  proof (cases "list_all (\<lambda>p. is_valid_program_name (n p) \<and> list_all is_valid_program_name (d p)) ps")
    case False
    have "\<not> (\<exists>r. collect_configs n d ps [] = Inr r)"
      using False by (auto simp: collect_configs_Inr list_all_iff)
    then obtain e where "collect_configs n d ps [] = Inl e" by (cases "collect_configs n d ps []") auto
    with False show ?thesis by (simp add: validate_and_order_prog_cfgs_def)
  next
    case True
    have c: "collect_configs n d ps [] = Inr ?cs"
      unfolding collect_configs_Inr using True by (simp add: list_all_iff)
    show ?thesis
    proof (cases "build ?cs")
      case (Inl e)
      then have "\<not> valid_configs ?cs" using build_cases(4) [of ?cs] by auto
      with Inl c show ?thesis by (simp add: validate_and_order_prog_cfgs_def)
    next
      case (Inr g)
      let ?o = "g_topological_order g" and ?qs = "map ((!) ps) (g_topological_order g)"
      from build_Inr [OF Inr] have v: "valid_configs ?cs" and g: "g_names g = map dn_name ?cs"
        "g_dependencies g = config_ids ?cs" "wf_graph g" by auto
      have names: "map dn_name ?cs = map n ps" by (simp add: comp_def)
      have o: "distinct ?o" "set ?o = {..<length ps}" "closed_order (config_ids ?cs) ?o"
        using g by (auto simp: wf_graph_def graph_size_def dest: least_first_distinct least_first_closed)
      have "set (d (?qs ! k)) \<subseteq> n ` set (take k ?qs)" if k: "k < length ?o" for k
      proof
        fix x
        assume x: "x \<in> set (d (?qs ! k))"
        have i: "?o ! k < length ps" using o(2) nth_mem [OF k] by auto
        have "?qs ! k = ps ! (?o ! k)" using k by simp
        with x i have pos: "position (map n ps) x \<in> set (config_ids ?cs ! (?o ! k))"
          unfolding config_ids_def names by simp
        with o(3) k have "position (map n ps) x \<in> set (take k ?o)"
          by (auto simp: closed_order_def)
        moreover have "x \<in> set (map n ps)"
          using v i x k by (fastforce simp: valid_configs_def valid_depends_on_def comp_def)
        then have "n (ps ! position (map n ps) x) = x" "position (map n ps) x < length ps"
          using nth_position [of x "map n ps"] position_less [of x "map n ps"] by simp_all
        ultimately show "x \<in> n ` set (take k ?qs)" by (force simp: take_map)
      qed
      with v o(1,2) Inr c True show ?thesis
        by (auto simp: validate_and_order_prog_cfgs_def list_all_iff)
    qed
  qed
qed

text \<open>
  C33: the launch environment has each variable once, none of the reserved \<open>PM_TINY_\<close> ones, and the value
  of each is the last one given: explicit values win over the target user's identity, which wins over
  what is inherited; when switching users, the inherited path, identity, \<open>SUDO_\<close> and \<open>LD_\<close> variables
  do not get through.
\<close>

theorem launch_environment_correct:
  "distinct (map env_key (compose_launch_environment inh ex user sanitize)) \<and>
   list_all accepted_key (map env_key (compose_launch_environment inh ex user sanitize)) \<and>
   env_lookup (compose_launch_environment inh ex user sanitize) k =
     (case last_entry ex k of
        Some e \<Rightarrow> Some e
      | None \<Rightarrow>
          (case last_entry (case user of Some u \<Rightarrow> if sanitize then identity_entries u else [] | None \<Rightarrow> []) k of
             Some e \<Rightarrow> Some e
           | None \<Rightarrow> if sanitize \<and> remove_inherited_key k then None else last_entry inh k))"
proof -
  let ?id = "case user of Some u \<Rightarrow> if sanitize then identity_entries u else [] | None \<Rightarrow> []"
  let ?in = "filter (\<lambda>entry. \<not> (sanitize \<and> remove_inherited_key (env_key entry))) inh"
  let ?s = "fold apply_entry (?in @ ?id @ ex) ([], Map.empty)"
  have inv0: "env_inv ([], Map.empty)" by (simp add: env_inv_def)
  from fold_apply_entry [OF inv0, of "?in @ ?id @ ex" k]
  have f: "env_inv ?s" "env_lookup (fst ?s) k = last_entry (?in @ ?id @ ex) k"
    by (auto simp: env_lookup_def split: option.splits)
  have app: "last_entry (xs @ ys) k = (case last_entry ys k of Some e \<Rightarrow> Some e | None \<Rightarrow> last_entry xs k)" for xs ys
    by (auto simp: last_entry_def find_append_list split: option.splits)
  have fin: "last_entry ?in k = (if sanitize \<and> remove_inherited_key k then None else last_entry inh k)"
  proof (induction inh rule: rev_induct)
    case Nil
    then show ?case by (simp add: last_entry_def)
  next
    case (snoc e es)
    then show ?case by (auto simp: last_entry_def split: if_splits)
  qed
  have "env_lookup (fst ?s) k =
     (case last_entry ex k of Some e \<Rightarrow> Some e | None \<Rightarrow>
        (case last_entry ?id k of Some e \<Rightarrow> Some e
         | None \<Rightarrow> if sanitize \<and> remove_inherited_key k then None else last_entry inh k))"
    unfolding f(2) app fin by (auto split: option.splits)
  with f(1) show ?thesis
    by (simp add: compose_launch_environment_def env_inv_def accepted_key_def list_all_iff)
qed

end
