(* ===== verification/String_Utils.thy ===== *)
theory String_Utils
  imports Prelude
begin

section \<open>String utilities (core/string_utils)\<close>

text \<open>
  Trimming, splitting and joining, the split of a file name into stem and extension, and the removal of
  ANSI colour escapes from a chunk of output, which keeps an escape that is cut off at the end of the
  chunk for the next one.  The index arithmetic of the loops becomes recursion on the rest of the string.
\<close>

text \<open>\<open>isspace\<close> in the C locale.\<close>

definition is_space :: "char \<Rightarrow> bool" where
  "is_space c \<longleftrightarrow> (let n = (of_char c :: nat) in n = 32 \<or> 9 \<le> n \<and> n \<le> 13)"

definition ltrim :: "string \<Rightarrow> string" where
  "ltrim s = dropWhile is_space s"

definition rtrim :: "string \<Rightarrow> string" where
  "rtrim s = rev (dropWhile is_space (rev s))"

definition trim :: "string \<Rightarrow> string" where
  "trim s = rtrim (ltrim s)"

fun split_from :: "char list \<Rightarrow> string \<Rightarrow> string \<Rightarrow> string list" where
  "split_from delims piece [] = [piece]"
| "split_from delims piece (c # s) =
     (if c \<in> set delims then piece # split_from delims [] s else split_from delims (piece @ [c]) s)"

definition split_str :: "string \<Rightarrow> char list \<Rightarrow> string list" where
  "split_str s delims = split_from delims [] s"

definition join_str :: "string list \<Rightarrow> string \<Rightarrow> string" where
  "join_str strs delim = foldl (\<lambda>init v. if init = [] then v else init @ delim @ v) [] strs"

text \<open>\<open>rfind\<close> of a character.\<close>

definition rfind :: "char \<Rightarrow> string \<Rightarrow> nat option" where
  "rfind c s = (if c \<in> set s then Some (length s - Suc (length (takeWhile (\<lambda>x. x \<noteq> c) (rev s)))) else None)"

definition splitext :: "string \<Rightarrow> string \<times> string" where
  "splitext file = (case rfind (CHR ''.'') file of
       None \<Rightarrow> (file, [])
     | Some idx \<Rightarrow>
         if idx = 0 \<or> list_all (\<lambda>c. c = CHR ''.'') (take idx file) then (file, [])
         else (take idx file, drop idx file))"

subsection \<open>ANSI escapes\<close>

definition digit_value :: "char \<Rightarrow> nat option" where
  "digit_value c = (let n = of_char c in if 48 \<le> n \<and> n \<le> 57 then Some (n - 48) else None)"

text \<open>\<open>parse_numeric\<close>: how many characters it passes; it stops once the number exceeds 108.\<close>

fun numeric_len :: "nat \<Rightarrow> string \<Rightarrow> nat" where
  "numeric_len num [] = 0"
| "numeric_len num (c # s) = (case digit_value c of
       Some d \<Rightarrow> if num \<le> 108 then Suc (numeric_len (num * 10 + d) s) else 0
     | None \<Rightarrow> 0)"

definition parse_numeric :: "string \<Rightarrow> string" where
  "parse_numeric s = drop (numeric_len 0 s) s"

definition esc :: char where "esc = CHR 0x1B"

lemma length_parse_numeric: "length (parse_numeric s) \<le> length s"
  by (simp add: parse_numeric_def)

text \<open>The text up to and including the head of its rest \<open>r\<close>.\<close>

definition upto_rest :: "string \<Rightarrow> string \<Rightarrow> string" where
  "upto_rest whole r = take (length whole - length (tl r)) whole"

text \<open>
  What follows an escape introducer \<open>s\<close>: \<open>None\<close> when the text ends inside the escape, and otherwise whether it
  is a colour escape and the rest that starts with its last character.
\<close>

definition scan_escape :: "string \<Rightarrow> (bool \<times> string) option" where
  "scan_escape s =
     (if s = [] then None
      else let r1 = parse_numeric s in
        if r1 = [] then None
        else if hd r1 = CHR ''m'' then Some (True, r1)
        else if hd r1 = CHR '';'' then
          (if tl r1 = [] then None
           else let r2 = parse_numeric (tl r1) in
             if r2 = [] then None else Some (hd r2 = CHR ''m'', r2))
        else Some (False, r1))"

lemma scan_escape_drop: "scan_escape s = Some (b, r) \<Longrightarrow> \<exists>k. r = drop k s \<and> r \<noteq> []"
  by (auto simp: scan_escape_def parse_numeric_def Let_def split: if_splits)
     (metis drop_Suc drop_drop tl_drop)+

lemma scan_escape_length: "scan_escape s = Some (b, r) \<Longrightarrow> length (tl r) < length s \<and> r \<noteq> []"
  by (drule scan_escape_drop) auto

function strip_escapes :: "string \<Rightarrow> string \<Rightarrow> string \<times> string" where
  "strip_escapes chunk pure = (case chunk of
       [] \<Rightarrow> (pure, [])
     | [c] \<Rightarrow> if c = esc then (pure, [c]) else (pure @ [c], [])
     | c # d # s \<Rightarrow>
         if c = esc \<and> d = CHR ''['' then
           (case scan_escape s of
              None \<Rightarrow> (pure, chunk)
            | Some (colour, r) \<Rightarrow>
                if colour then strip_escapes (tl r) pure
                else strip_escapes (tl r) (pure @ upto_rest chunk r))
         else strip_escapes (d # s) (pure @ [c]))"
  by pat_completeness auto

termination
  by (relation "measure (length \<circ> fst)") (auto dest: scan_escape_length)

declare strip_escapes.simps [simp del]

definition remove_ANSI_escape_code :: "string \<Rightarrow> string \<times> string" where
  "remove_ANSI_escape_code chunk = strip_escapes chunk []"

subsection \<open>Lemmas\<close>

lemma split_from_join:
  assumes "list_all (\<lambda>x. d \<notin> set x) xs" "d \<notin> set x"
  shows "split_from [d] p (x @ concat (map (\<lambda>y. d # y) xs)) = (p @ x) # xs"
proof -
  have s: "d \<notin> set x \<Longrightarrow> split_from [d] p (x @ y) = (case split_from [d] (p @ x) y of z \<Rightarrow> z)" for p x y
    by (induction x arbitrary: p) auto
  show ?thesis using assms
  proof (induction xs arbitrary: p x)
    case Nil
    then show ?case using s [of x p "[]"] by simp
  next
    case (Cons y ys)
    then show ?case using s [of x p "d # y @ concat (map (\<lambda>y. d # y) ys)"] by simp
  qed
qed

lemma join_str_nonempty:
  "x \<noteq> [] \<Longrightarrow> foldl (\<lambda>init v. if init = [] then v else init @ delim @ v) x ys = x @ concat (map (\<lambda>y. delim @ y) ys)"
  by (induction ys arbitrary: x) simp_all

lemma split_join:
  assumes "list_all (\<lambda>x. d \<notin> set x) (x # xs)" "x \<noteq> []"
  shows "split_str (join_str (x # xs) [d]) [d] = x # xs"
  using assms join_str_nonempty [OF assms(2), of "[d]" xs] split_from_join [of d xs x "[]"]
  by (simp add: split_str_def join_str_def)

text \<open>What is kept for the next chunk is the end of this one.\<close>

lemma strip_escapes_suffix: "\<exists>k. snd (strip_escapes chunk pure) = drop k chunk"
proof (induction chunk pure rule: strip_escapes.induct)
  case (1 chunk pure)
  consider "chunk = []" | c where "chunk = [c]" | c d s where "chunk = c # d # s" by (metis list.exhaust)
  then show ?case
  proof cases
    case (3 c d s)
    show ?thesis
    proof (cases "c = esc \<and> d = CHR 0x5B")
      case False
      with 3 have "strip_escapes chunk pure = strip_escapes (d # s) (pure @ [c])"
        by (subst strip_escapes.simps) auto
      moreover obtain k where "snd (strip_escapes (d # s) (pure @ [c])) = drop k (d # s)"
        using 1(3) [OF 3 refl False] by blast
      ultimately have "snd (strip_escapes chunk pure) = drop (Suc k) chunk" using 3 by simp
      then show ?thesis by blast
    next
      case True
      show ?thesis
      proof (cases "scan_escape s")
        case None
        with 3 True have "strip_escapes chunk pure = (pure, chunk)" by (subst strip_escapes.simps) simp
        then have "snd (strip_escapes chunk pure) = drop 0 chunk" by simp
        then show ?thesis by blast
      next
        case (Some cr)
        obtain b r where cr: "cr = (b, r)" by (cases cr)
        from scan_escape_drop [of s b r] Some cr obtain m where m: "r = drop m s" by auto
        have "\<exists>p. strip_escapes chunk pure = strip_escapes (tl r) p \<and>
            (\<exists>k. snd (strip_escapes (tl r) p) = drop k (tl r))"
        proof (cases b)
          case b: True
          then have "strip_escapes chunk pure = strip_escapes (tl r) pure"
            using 3 True Some cr by (subst strip_escapes.simps) simp
          with 1(1) [OF 3 refl True Some cr [symmetric] b] show ?thesis by blast
        next
          case b: False
          then have "strip_escapes chunk pure = strip_escapes (tl r) (pure @ upto_rest chunk r)"
            using 3 True Some cr by (subst strip_escapes.simps) simp
          with 1(2) [OF 3 refl True Some cr [symmetric] b] show ?thesis by blast
        qed
        then obtain k where "snd (strip_escapes chunk pure) = drop k (tl (drop m s))" using m by auto
        then have "snd (strip_escapes chunk pure) = drop (k + Suc (Suc (Suc m))) chunk"
          using 3 by (simp add: tl_drop drop_Suc)
        then show ?thesis by blast
      qed
    qed
  next
    case 1
    then show ?thesis by (simp add: strip_escapes.simps)
  next
    case (2 c)
    then have "snd (strip_escapes chunk pure) = drop (if c = esc then 0 else 1) chunk"
      by (simp add: strip_escapes.simps)
    then show ?thesis by blast
  qed
qed

text \<open>Text without an escape character goes through unchanged.\<close>

lemma strip_escapes_plain: "esc \<notin> set chunk \<Longrightarrow> strip_escapes chunk pure = (pure @ chunk, [])"
proof (induction chunk pure rule: strip_escapes.induct)
  case (1 chunk pure)
  consider "chunk = []" | c where "chunk = [c]" | c d s where "chunk = c # d # s" by (metis list.exhaust)
  then show ?case
  proof cases
    case (3 c d s)
    with 1(4) have "\<not> (c = esc \<and> d = CHR 0x5B)" by auto
    with 1(3) [OF 3 refl this] 1(4) 3 show ?thesis by (subst strip_escapes.simps) auto
  qed (use 1(4) in \<open>auto simp: strip_escapes.simps\<close>)
qed

end
