(* ===== verification/Prog_Cfg_Yaml.thy ===== *)
theory Prog_Cfg_Yaml
  imports Program_Log Program_Names String_Utils
begin

section \<open>Program configurations as YAML (core/prog_cfg_yaml_helper)\<close>

text \<open>
  Parsing of one entry and of a whole configuration document, and the serialisation of an entry.  A YAML
  node is a tree; its text form, and the conversion of a scalar to an integer or a Boolean and back, are
  those of yaml-cpp and are the parameter \<open>yaml_lib\<close> of the definitions.  What the code relies on is
  \<open>yaml_scalars\<close> (converting a number or a Boolean to a node and back gives it unchanged) and \<open>yaml_text\<close>
  (emitting a node and loading the text, also with a newline after it, gives the node).  The texts of the
  library's exceptions are parameters as well: \<open>yl_what\<close> for a failed conversion of a node, \<open>yl_invalid\<close> for
  reading a missing key and \<open>yl_bad_file\<close> for a file that cannot be read.
\<close>

subsection \<open>Nodes\<close>

datatype ynode =
    Y_null
  | Y_scalar string
  | Y_seq "ynode list"
  | Y_map "(string \<times> ynode) list"

record yaml_lib =
  yl_int :: "string \<Rightarrow> int option"
  yl_bool :: "string \<Rightarrow> bool option"
  yl_uint :: "string \<Rightarrow> 32 word option"
  yl_int_text :: "int \<Rightarrow> string"
  yl_bool_text :: "bool \<Rightarrow> string"
  yl_what :: "ynode \<Rightarrow> string"
  yl_invalid :: "string \<Rightarrow> string"
  yl_bad_file :: "string \<Rightarrow> string"
  yl_load :: "string \<Rightarrow> string + ynode"
  yl_emit :: "ynode \<Rightarrow> string"

text \<open>
  \<open>node[key]\<close> of a constant node: \<open>None\<close> is the undefined node.  On a scalar it throws \<open>BadSubscript\<close>.
\<close>

definition node_get :: "yaml_lib \<Rightarrow> ynode \<Rightarrow> string \<Rightarrow> exn + ynode option" where
  "node_get L node key = (case node of
       Y_scalar s \<Rightarrow> Inl (Yaml_exception (yl_what L node))
     | Y_map kvs \<Rightarrow> Inr (map_of kvs key)
     | _ \<Rightarrow> Inr None)"

definition node_field :: "ynode \<Rightarrow> string \<Rightarrow> ynode option" where
  "node_field node key = (case node of Y_map kvs \<Rightarrow> map_of kvs key | _ \<Rightarrow> None)"

text \<open>\<open>as<std::string>\<close>, \<open>as<int>\<close> and \<open>as<bool>\<close> of a defined node; \<open>Inl\<close> carries \<open>what()\<close>.\<close>

definition as_string :: "yaml_lib \<Rightarrow> ynode \<Rightarrow> string + string" where
  "as_string L node = (case node of
       Y_null \<Rightarrow> Inr ''null''
     | Y_scalar s \<Rightarrow> Inr s
     | _ \<Rightarrow> Inl (yl_what L node))"

definition as_int :: "yaml_lib \<Rightarrow> ynode \<Rightarrow> string + int" where
  "as_int L node = (case node of
       Y_scalar s \<Rightarrow> (case yl_int L s of Some i \<Rightarrow> Inr i | None \<Rightarrow> Inl (yl_what L node))
     | _ \<Rightarrow> Inl (yl_what L node))"

definition as_bool :: "yaml_lib \<Rightarrow> ynode \<Rightarrow> string + bool" where
  "as_bool L node = (case node of
       Y_scalar s \<Rightarrow> (case yl_bool L s of Some b \<Rightarrow> Inr b | None \<Rightarrow> Inl (yl_what L node))
     | _ \<Rightarrow> Inl (yl_what L node))"

definition newline :: char where "newline = CHR 0x0A"

text \<open>The documented behaviour of the library the properties rely on.\<close>

definition yaml_scalars :: "yaml_lib \<Rightarrow> bool" where
  "yaml_scalars L \<longleftrightarrow>
     (\<forall>i. in_i32 i \<longrightarrow> yl_int L (yl_int_text L i) = Some i) \<and>
     (\<forall>b. yl_bool L (yl_bool_text L b) = Some b)"

definition yaml_text :: "yaml_lib \<Rightarrow> bool" where
  "yaml_text L \<longleftrightarrow>
     (\<forall>n. yl_load L (yl_emit L n) = Inr n) \<and> (\<forall>n. yl_load L (yl_emit L n @ [newline]) = Inr n)"

subsection \<open>Parsing one entry\<close>

text \<open>
  The local variables \<open>parsed\<close> and \<open>result.warnings\<close>.  A step of the parser either goes on or returns with
  \<open>result.error\<close> set and the warnings collected so far.
\<close>

record parse_state =
  parsed :: prog_cfg_t
  warnings :: "string list"

type_synonym parse_step = "parse_state \<Rightarrow> (string \<times> string list) + parse_state"

definition fail_with :: "string \<Rightarrow> parse_step" where
  "fail_with e st = Inl (e, warnings st)"

fun run_steps :: "parse_step list \<Rightarrow> parse_step" where
  "run_steps [] st = Inr st"
| "run_steps (s # ss) st = res_bind (s st) (run_steps ss)"

definition step_if :: "bool \<Rightarrow> parse_step \<Rightarrow> parse_step" where
  "step_if b s st = (if b then s st else Inr st)"

definition pname :: "parse_state \<Rightarrow> string" where
  "pname st = cfg_name (parsed st)"

definition field_invalid :: "string \<Rightarrow> string \<Rightarrow> string \<Rightarrow> string" where
  "field_invalid nm key ex = ''Program `'' @ nm @ ''` field `'' @ key @ ''` invalid: '' @ ex"

fun sequence_elements :: "yaml_lib \<Rightarrow> string \<Rightarrow> string \<Rightarrow> ynode list \<Rightarrow> string list \<times> string list" where
  "sequence_elements L field_name entry_name [] = ([], [])"
| "sequence_elements L field_name entry_name (n # ns) =
     (let (vs, ws) = sequence_elements L field_name entry_name ns in
      case as_string L n of
        Inr v \<Rightarrow> (v # vs, ws)
      | Inl ex \<Rightarrow> (vs, (''Program `'' @ entry_name @ ''` has invalid element in field `'' @ field_name @
                      ''`: '' @ ex) # ws))"

text \<open>The values and the warnings \<open>parse_string_sequence\<close> adds.\<close>

definition parse_string_sequence ::
  "yaml_lib \<Rightarrow> ynode option \<Rightarrow> string \<Rightarrow> string \<Rightarrow> string list \<times> string list" where
  "parse_string_sequence L node field_name entry_name = (case node of
       None \<Rightarrow> ([], [])
     | Some (Y_scalar s) \<Rightarrow> (case as_string L (Y_scalar s) of
           Inr v \<Rightarrow> ([v], [])
         | Inl ex \<Rightarrow> ([], [''Program `'' @ entry_name @ ''` has invalid scalar in field `'' @ field_name @
                         ''`: '' @ ex]))
     | Some (Y_seq ns) \<Rightarrow> sequence_elements L field_name entry_name ns
     | Some _ \<Rightarrow> ([], [''Program `'' @ entry_name @ ''` field `'' @ field_name @
                     ''` must be a scalar or sequence'']))"

definition read_sequence ::
  "yaml_lib \<Rightarrow> ynode \<Rightarrow> string \<Rightarrow> (string list \<Rightarrow> prog_cfg_t \<Rightarrow> prog_cfg_t) \<Rightarrow> parse_step" where
  "read_sequence L node key upd st =
     (let (vs, ws) = parse_string_sequence L (node_field node key) key (pname st) in
      Inr (st\<lparr>parsed := upd vs (parsed st), warnings := warnings st @ ws\<rparr>))"

definition read_required_string ::
  "yaml_lib \<Rightarrow> ynode \<Rightarrow> string \<Rightarrow> (string \<Rightarrow> prog_cfg_t \<Rightarrow> prog_cfg_t) \<Rightarrow> parse_step" where
  "read_required_string L node key upd st = (case node_field node key of
       None \<Rightarrow> fail_with (''Config entry missing required field `'' @ key @ ''`'') st
     | Some v \<Rightarrow> (case as_string L v of
           Inr s \<Rightarrow> Inr (st\<lparr>parsed := upd s (parsed st)\<rparr>)
         | Inl ex \<Rightarrow> fail_with (''Config field `'' @ key @ ''` must be a string: '' @ ex) st))"

definition read_optional_string ::
  "yaml_lib \<Rightarrow> ynode \<Rightarrow> string \<Rightarrow> (string \<Rightarrow> prog_cfg_t \<Rightarrow> prog_cfg_t) \<Rightarrow> parse_step" where
  "read_optional_string L node key upd st = (case node_field node key of
       None \<Rightarrow> Inr st
     | Some v \<Rightarrow> (case as_string L v of
           Inr s \<Rightarrow> Inr (st\<lparr>parsed := upd s (parsed st)\<rparr>)
         | Inl ex \<Rightarrow> fail_with (field_invalid (pname st) key ex) st))"

definition read_optional_int ::
  "yaml_lib \<Rightarrow> ynode \<Rightarrow> string \<Rightarrow> (int \<Rightarrow> prog_cfg_t \<Rightarrow> prog_cfg_t) \<Rightarrow> parse_step" where
  "read_optional_int L node key upd st = (case node_field node key of
       None \<Rightarrow> Inr st
     | Some v \<Rightarrow> (case as_int L v of
           Inr i \<Rightarrow> Inr (st\<lparr>parsed := upd i (parsed st)\<rparr>)
         | Inl ex \<Rightarrow> fail_with (field_invalid (pname st) key ex) st))"

definition read_optional_bool ::
  "yaml_lib \<Rightarrow> ynode \<Rightarrow> string \<Rightarrow> (bool \<Rightarrow> prog_cfg_t \<Rightarrow> prog_cfg_t) \<Rightarrow> parse_step" where
  "read_optional_bool L node key upd st = (case node_field node key of
       None \<Rightarrow> Inr st
     | Some v \<Rightarrow> (case as_bool L v of
           Inr b \<Rightarrow> Inr (st\<lparr>parsed := upd b (parsed st)\<rparr>)
         | Inl ex \<Rightarrow> fail_with (field_invalid (pname st) key ex) st))"

definition validate_range ::
  "(prog_cfg_t \<Rightarrow> int) \<Rightarrow> int \<Rightarrow> int \<Rightarrow> string \<Rightarrow> parse_step" where
  "validate_range get minimum maximum key st =
     (if minimum \<le> get (parsed st) \<and> get (parsed st) \<le> maximum then Inr st
      else fail_with (''Program `'' @ pname st @ ''` field `'' @ key @ ''` must be between '' @
             int_to_string minimum @ '' and '' @ int_to_string maximum) st)"

definition removed_fields :: "string list" where
  "removed_fields = [''log_size_kb'', ''log_files'', ''log_file'', ''log_file_count'', ''inherited_env'']"

definition reject_removed :: "ynode \<Rightarrow> parse_step" where
  "reject_removed node st =
     (case List.find (\<lambda>f. node_field node f \<noteq> None) removed_fields of
        Some f \<Rightarrow> fail_with (''Config uses removed field `'' @ f @ ''`'') st
      | None \<Rightarrow> Inr st)"

definition reject_command :: "ynode \<Rightarrow> parse_step" where
  "reject_command node st =
     (if node_field node ''command'' \<noteq> None
      then fail_with (''Program `'' @ pname st @
             ''` uses removed field `command`; use `executable` and `args`'') st
      else Inr st)"

definition read_kill_timeout :: "yaml_lib \<Rightarrow> ynode \<Rightarrow> parse_step" where
  "read_kill_timeout L node =
     (let key = (if node_field node ''kill_timeout_s'' \<noteq> None then ''kill_timeout_s'' else ''kill_timeout'')
      in read_optional_int L node key (\<lambda>v c. c\<lparr>cfg_kill_timeout_s := v\<rparr>))"

text \<open>
  \<open>run_as_value\<close> starts empty and is assigned to \<open>parsed.run_as\<close>, whose default is empty too: it is read
  in place.
\<close>

definition read_run_as :: "yaml_lib \<Rightarrow> ynode \<Rightarrow> parse_step" where
  "read_run_as L node st =
     (let rd = (\<lambda>key. read_optional_string L node key (\<lambda>v c. c\<lparr>cfg_run_as := v\<rparr>));
          unset = (\<lambda>st. cfg_run_as (parsed st) = [])
      in res_bind (rd ''user'' st) (\<lambda>st.
         res_bind (step_if (unset st) (rd ''run_as'') st) (\<lambda>st.
         step_if (unset st) (rd ''run_as_user'') st)))"

definition entry_key :: "string \<Rightarrow> string" where
  "entry_key entry = takeWhile (\<lambda>c. c \<noteq> CHR ''='') entry"

definition reject_reserved :: "parse_step" where
  "reject_reserved st =
     (case List.find (\<lambda>e. starts_with ''PM_TINY_'' (entry_key e)) (cfg_env_vars (parsed st)) of
        Some e \<Rightarrow> fail_with (''Program `'' @ pname st @ ''` cannot override reserved environment variable `'' @
                    entry_key e @ ''`'') st
      | None \<Rightarrow> Inr st)"

definition read_failure_action :: "yaml_lib \<Rightarrow> ynode \<Rightarrow> parse_step" where
  "read_failure_action L node st = (case node_field node ''failure_action'' of
       None \<Rightarrow> Inr st
     | Some v \<Rightarrow> (case as_string L v of
           Inl ex \<Rightarrow> fail_with (field_invalid (pname st) ''failure_action'' ex) st
         | Inr s \<Rightarrow> (case str_to_failure_action s of
               Inr a \<Rightarrow> Inr (st\<lparr>parsed := (parsed st)\<lparr>cfg_failure_action := a\<rparr>\<rparr>)
             | Inl ex \<Rightarrow> Inr (st\<lparr>warnings := warnings st @
                   [field_invalid (pname st) ''failure_action'' (exn_what ex)]\<rparr>))))"

definition check_delay_order :: "parse_step" where
  "check_delay_order st =
     (if cfg_restart_max_delay_ms (parsed st) < cfg_restart_delay_ms (parsed st)
      then fail_with (''Program `'' @ pname st @
        ''` field `restart_max_delay_ms` must be greater than or equal to `restart_delay_ms`'') st
      else Inr st)"

definition read_log_mode :: "yaml_lib \<Rightarrow> ynode \<Rightarrow> parse_step" where
  "read_log_mode L node st = (case node_field node ''log_mode'' of
       None \<Rightarrow> Inr (if cfg_pty (parsed st) then st\<lparr>parsed := (parsed st)\<lparr>cfg_log_mode := LM_combined\<rparr>\<rparr> else st)
     | Some v \<Rightarrow> (case as_string L v of
           Inl ex \<Rightarrow> fail_with (field_invalid (pname st) ''log_mode'' ex) st
         | Inr s \<Rightarrow> (case parse_log_mode s of
               None \<Rightarrow> fail_with (''Program `'' @ pname st @ ''` field `log_mode` must be `split` or `combined`'') st
             | Some m \<Rightarrow> Inr (st\<lparr>parsed := (parsed st)\<lparr>cfg_log_mode := m\<rparr>\<rparr>))))"

definition reject_pty_split :: "parse_step" where
  "reject_pty_split st =
     (if cfg_pty (parsed st) \<and> cfg_log_mode (parsed st) = LM_split
      then fail_with (''Program `'' @ pname st @ ''` cannot use `pty: true` with `log_mode: split`'') st
      else Inr st)"

definition restart_duration_max_ms :: int where
  "restart_duration_max_ms = 24 * 60 * 60 * 1000"

definition restart_attempts_max :: int where
  "restart_attempts_max = 100000"

definition parse_steps :: "yaml_lib \<Rightarrow> ynode \<Rightarrow> parse_step list" where
  "parse_steps L node =
     [reject_removed node,
      read_required_string L node ''name'' (\<lambda>v c. c\<lparr>cfg_name := v\<rparr>),
      read_required_string L node ''cwd'' (\<lambda>v c. c\<lparr>cfg_cwd := v\<rparr>),
      reject_command node,
      read_required_string L node ''executable'' (\<lambda>v c. c\<lparr>cfg_executable := v\<rparr>),
      read_sequence L node ''args'' (\<lambda>v c. c\<lparr>cfg_args := v\<rparr>),
      read_kill_timeout L node,
      read_run_as L node,
      read_sequence L node ''depends_on'' (\<lambda>v c. c\<lparr>cfg_depends_on := v\<rparr>),
      read_sequence L node ''env_vars'' (\<lambda>v c. c\<lparr>cfg_env_vars := v\<rparr>),
      reject_reserved,
      read_optional_int L node ''start_timeout'' (\<lambda>v c. c\<lparr>cfg_start_timeout := v\<rparr>),
      read_failure_action L node,
      read_optional_int L node ''heartbeat_timeout'' (\<lambda>v c. c\<lparr>cfg_heartbeat_timeout := v\<rparr>),
      read_optional_int L node ''oom_score_adj'' (\<lambda>v c. c\<lparr>cfg_oom_score_adj := v\<rparr>),
      read_optional_int L node ''restart_delay_ms'' (\<lambda>v c. c\<lparr>cfg_restart_delay_ms := v\<rparr>),
      read_optional_int L node ''restart_max_delay_ms'' (\<lambda>v c. c\<lparr>cfg_restart_max_delay_ms := v\<rparr>),
      read_optional_int L node ''restart_window_ms'' (\<lambda>v c. c\<lparr>cfg_restart_window_ms := v\<rparr>),
      read_optional_int L node ''restart_max_attempts'' (\<lambda>v c. c\<lparr>cfg_restart_max_attempts := v\<rparr>),
      read_optional_int L node ''restart_reset_after_ms'' (\<lambda>v c. c\<lparr>cfg_restart_reset_after_ms := v\<rparr>),
      validate_range cfg_restart_delay_ms 0 restart_duration_max_ms ''restart_delay_ms'',
      validate_range cfg_restart_max_delay_ms 0 restart_duration_max_ms ''restart_max_delay_ms'',
      validate_range cfg_restart_window_ms 1 restart_duration_max_ms ''restart_window_ms'',
      validate_range cfg_restart_max_attempts 0 restart_attempts_max ''restart_max_attempts'',
      validate_range cfg_restart_reset_after_ms 0 restart_duration_max_ms ''restart_reset_after_ms'',
      check_delay_order,
      read_optional_bool L node ''daemon'' (\<lambda>v c. c\<lparr>cfg_daemon := v\<rparr>),
      read_optional_bool L node ''pty'' (\<lambda>v c. c\<lparr>cfg_pty := v\<rparr>),
      read_log_mode L node,
      reject_pty_split,
      read_optional_string L node ''log_dir'' (\<lambda>v c. c\<lparr>cfg_log_dir := v\<rparr>),
      read_optional_string L node ''log_file_name'' (\<lambda>v c. c\<lparr>cfg_log_file_name := v\<rparr>),
      read_optional_int L node ''log_max_size_kb'' (\<lambda>v c. c\<lparr>cfg_log_max_size_kb := v\<rparr>),
      read_optional_int L node ''log_archive_count'' (\<lambda>v c. c\<lparr>cfg_log_archive_count := v\<rparr>),
      validate_range cfg_log_max_size_kb 1 1048576 ''log_max_size_kb'',
      validate_range cfg_log_archive_count 0 100 ''log_archive_count'']"

text \<open>
  \<open>ProgCfgParseResult\<close> together with the output argument, which is assigned on success only.
\<close>

record ProgCfgParseResult =
  pr_success :: bool
  pr_error :: string
  pr_warnings :: "string list"
  pr_cfg :: "prog_cfg_t option"

definition parse_prog_cfg_yaml_node :: "yaml_lib \<Rightarrow> ynode \<Rightarrow> exn + ProgCfgParseResult" where
  "parse_prog_cfg_yaml_node L node =
     res_bind (node_get L node (hd removed_fields)) (\<lambda>_.
     Inr (case run_steps (parse_steps L node) \<lparr>parsed = default_prog_cfg, warnings = []\<rparr> of
            Inl (e, ws) \<Rightarrow> \<lparr>pr_success = False, pr_error = e, pr_warnings = ws, pr_cfg = None\<rparr>
          | Inr st \<Rightarrow>
              if warnings st \<noteq> []
              then \<lparr>pr_success = False, pr_error = hd (warnings st), pr_warnings = [], pr_cfg = None\<rparr>
              else \<lparr>pr_success = True, pr_error = [], pr_warnings = [], pr_cfg = Some (parsed st)\<rparr>))"

subsection \<open>Documents\<close>

record ProgCfgDocumentParseResult =
  dr_success :: bool
  dr_error :: string
  dr_warnings :: "string list"
  dr_programs :: "prog_cfg_t list"

fun parse_entries ::
  "yaml_lib \<Rightarrow> nat \<Rightarrow> ynode list \<Rightarrow> string list \<Rightarrow> prog_cfg_t list \<Rightarrow> exn + ProgCfgDocumentParseResult" where
  "parse_entries L index [] ws ps =
     Inr \<lparr>dr_success = True, dr_error = [], dr_warnings = ws, dr_programs = ps\<rparr>"
| "parse_entries L index (n # ns) ws ps =
     res_bind (parse_prog_cfg_yaml_node L n) (\<lambda>entry.
       let ws' = ws @ pr_warnings entry in
       if \<not> pr_success entry
       then Inr \<lparr>dr_success = False,
                 dr_error = ''Config entry '' @ nat_to_string index @ '' invalid: '' @ pr_error entry,
                 dr_warnings = ws', dr_programs = []\<rparr>
       else parse_entries L (Suc index) ns ws' (ps @ [the (pr_cfg entry)]))"

definition parse_prog_cfg_yaml_document :: "yaml_lib \<Rightarrow> ynode option \<Rightarrow> exn + ProgCfgDocumentParseResult" where
  "parse_prog_cfg_yaml_document L root = (case root of
       None \<Rightarrow> Inr \<lparr>dr_success = False, dr_error = ''Config is empty or invalid'', dr_warnings = [],
                    dr_programs = []\<rparr>
     | Some (Y_seq ns) \<Rightarrow> parse_entries L 0 ns [] []
     | Some _ \<Rightarrow> Inr \<lparr>dr_success = False, dr_error = ''Config must contain a top-level sequence'',
                      dr_warnings = [], dr_programs = []\<rparr>)"

definition carriage_return :: char where "carriage_return = CHR 0x0D"

text \<open>The scanning loop: skip blanks, then skip a comment up to the end of its line, and repeat.\<close>

function scan_empty :: "string \<Rightarrow> bool" where
  "scan_empty s =
     (if s = [] then True
      else let s1 = dropWhile is_space s in
        if s1 = [] then True
        else if hd s1 \<noteq> CHR ''#'' then False
        else scan_empty (dropWhile (\<lambda>c. c \<noteq> newline \<and> c \<noteq> carriage_return) s1))"
  by pat_completeness auto

termination
proof (relation "measure length")
  fix s s1 :: string
  assume s: "s \<noteq> []" "s1 = dropWhile is_space s" "s1 \<noteq> []" "\<not> hd s1 \<noteq> CHR ''#''"
  obtain t where t: "s1 = CHR ''#'' # t" using s(3,4) by (cases s1) auto
  have "length s1 \<le> length s" using s(2) by (simp add: length_dropWhile_le)
  moreover have "length (dropWhile (\<lambda>c. c \<noteq> newline \<and> c \<noteq> carriage_return) s1) \<le> length t"
    unfolding t by (simp add: newline_def carriage_return_def length_dropWhile_le)
  ultimately show "(dropWhile (\<lambda>c. c \<noteq> newline \<and> c \<noteq> carriage_return) s1, s) \<in> measure length"
    using t by simp
qed simp

declare scan_empty.simps [simp del]

definition byte_order_mark :: string where
  "byte_order_mark = [CHR 0xEF, CHR 0xBB, CHR 0xBF]"

definition is_effectively_empty_prog_cfg_yaml :: "string \<Rightarrow> bool" where
  "is_effectively_empty_prog_cfg_yaml content =
     scan_empty (if length content \<ge> 3 \<and> take 3 content = byte_order_mark then drop 3 content else content)"

subsection \<open>Serialisation\<close>

record ProgCfgSerializeOptions =
  include_run_as :: bool
  include_oom_score_adj :: bool
  include_pty :: bool

definition default_options :: ProgCfgSerializeOptions where
  "default_options = \<lparr>include_run_as = True, include_oom_score_adj = True, include_pty = True\<rparr>"

definition strings_node :: "string list \<Rightarrow> ynode" where
  "strings_node xs = Y_seq (map Y_scalar xs)"

definition int_node :: "yaml_lib \<Rightarrow> int \<Rightarrow> ynode" where
  "int_node L i = Y_scalar (yl_int_text L i)"

definition bool_node :: "yaml_lib \<Rightarrow> bool \<Rightarrow> ynode" where
  "bool_node L b = Y_scalar (yl_bool_text L b)"

definition serialize_prog_cfg_yaml_node ::
  "yaml_lib \<Rightarrow> prog_cfg_t \<Rightarrow> ProgCfgSerializeOptions \<Rightarrow> ynode" where
  "serialize_prog_cfg_yaml_node L c opts = Y_map (
     [(''name'', Y_scalar (cfg_name c)),
      (''cwd'', Y_scalar (cfg_cwd c)),
      (''executable'', Y_scalar (cfg_executable c)),
      (''args'', strings_node (cfg_args c)),
      (''env_vars'', strings_node (cfg_env_vars c)),
      (''kill_timeout_s'', int_node L (cfg_kill_timeout_s c))] @
     (if include_run_as opts then [(''user'', Y_scalar (cfg_run_as c))] else []) @
     [(''depends_on'', strings_node (cfg_depends_on c)),
      (''start_timeout'', int_node L (cfg_start_timeout c)),
      (''failure_action'', Y_scalar (failure_action_to_str (cfg_failure_action c))),
      (''daemon'', bool_node L (cfg_daemon c)),
      (''heartbeat_timeout'', int_node L (cfg_heartbeat_timeout c))] @
     (if include_oom_score_adj opts then [(''oom_score_adj'', int_node L (cfg_oom_score_adj c))] else []) @
     (if include_pty opts then [(''pty'', bool_node L (cfg_pty c))] else []) @
     [(''log_mode'', Y_scalar (log_mode_name (cfg_log_mode c)))] @
     (if cfg_log_dir c \<noteq> [] then [(''log_dir'', Y_scalar (cfg_log_dir c))] else []) @
     (if cfg_log_file_name c \<noteq> [] then [(''log_file_name'', Y_scalar (cfg_log_file_name c))] else []) @
     [(''log_max_size_kb'', int_node L (cfg_log_max_size_kb c)),
      (''log_archive_count'', int_node L (cfg_log_archive_count c)),
      (''restart_delay_ms'', int_node L (cfg_restart_delay_ms c)),
      (''restart_max_delay_ms'', int_node L (cfg_restart_max_delay_ms c)),
      (''restart_window_ms'', int_node L (cfg_restart_window_ms c)),
      (''restart_max_attempts'', int_node L (cfg_restart_max_attempts c)),
      (''restart_reset_after_ms'', int_node L (cfg_restart_reset_after_ms c))])"

subsection \<open>What the steps keep and establish\<close>

definition keeps :: "(prog_cfg_t \<Rightarrow> bool) \<Rightarrow> parse_step \<Rightarrow> bool" where
  "keeps P s \<longleftrightarrow> (\<forall>st st'. s st = Inr st' \<longrightarrow> P (parsed st) \<longrightarrow> P (parsed st'))"

definition establishes :: "(prog_cfg_t \<Rightarrow> bool) \<Rightarrow> parse_step \<Rightarrow> bool" where
  "establishes P s \<longleftrightarrow> (\<forall>st st'. s st = Inr st' \<longrightarrow> P (parsed st'))"

lemma run_steps_append: "run_steps (xs @ ys) st = res_bind (run_steps xs st) (run_steps ys)"
  by (induction xs arbitrary: st) (auto simp: res_bind_def split: sum.splits)

lemma keeps_run_steps: "list_all (keeps P) ss \<Longrightarrow> keeps P (run_steps ss)"
  by (induction ss) (auto simp: keeps_def res_bind_eq_Inr)

text \<open>A step that establishes \<open>P\<close>, followed by steps that keep it.\<close>

lemma run_steps_establish:
  assumes "run_steps ss st = Inr st'" "k < length ss" "establishes P (ss ! k)"
    "list_all (keeps P) (drop (Suc k) ss)"
  shows "P (parsed st')"
proof -
  have "ss = take k ss @ ss ! k # drop (Suc k) ss" using assms(2) by (simp add: id_take_nth_drop)
  then have "run_steps ss st = res_bind (run_steps (take k ss) st) (run_steps (ss ! k # drop (Suc k) ss))"
    by (metis run_steps_append)
  with assms(1) have "res_bind (run_steps (take k ss) st) (run_steps (ss ! k # drop (Suc k) ss)) = Inr st'"
    by simp
  then obtain s1 s2 where "(ss ! k) s1 = Inr s2" "run_steps (drop (Suc k) ss) s2 = Inr st'"
    by (auto simp: res_bind_eq_Inr)
  then show ?thesis
    using assms(3) keeps_run_steps [OF assms(4)] by (auto simp: keeps_def establishes_def)
qed

lemma keeps_trivial:
  "keeps P (validate_range get mn mx k)" "keeps P check_delay_order" "keeps P reject_pty_split"
  "keeps P reject_reserved" "keeps P (reject_command n)" "keeps P (reject_removed n)"
  by (auto simp: keeps_def validate_range_def check_delay_order_def reject_pty_split_def
      reject_reserved_def reject_command_def reject_removed_def fail_with_def
      split: if_splits option.splits)

lemma keeps_readers:
  assumes "\<And>v c. P c \<Longrightarrow> P (upd v c)"
  shows "keeps P (read_required_string L n k upd)" "keeps P (read_optional_string L n k upd)"
  using assms by (auto simp: keeps_def read_required_string_def read_optional_string_def fail_with_def
      split: option.splits sum.splits)

lemma keeps_read_optional_int:
  "(\<And>v c. P c \<Longrightarrow> P (upd v c)) \<Longrightarrow> keeps P (read_optional_int L n k upd)"
  by (auto simp: keeps_def read_optional_int_def fail_with_def split: option.splits sum.splits)

lemma keeps_read_optional_bool:
  "(\<And>v c. P c \<Longrightarrow> P (upd v c)) \<Longrightarrow> keeps P (read_optional_bool L n k upd)"
  by (auto simp: keeps_def read_optional_bool_def fail_with_def split: option.splits sum.splits)

lemma keeps_read_sequence:
  "(\<And>v c. P c \<Longrightarrow> P (upd v c)) \<Longrightarrow> keeps P (read_sequence L n k upd)"
  by (auto simp: keeps_def read_sequence_def split: prod.splits)

lemma keeps_read_failure_action:
  "(\<And>v c. P c \<Longrightarrow> P (c\<lparr>cfg_failure_action := v\<rparr>)) \<Longrightarrow> keeps P (read_failure_action L n)"
  by (auto simp: keeps_def read_failure_action_def fail_with_def split: option.splits sum.splits)

lemma keeps_read_log_mode:
  "(\<And>v c. P c \<Longrightarrow> P (c\<lparr>cfg_log_mode := v\<rparr>)) \<Longrightarrow> keeps P (read_log_mode L n)"
  by (auto simp: keeps_def read_log_mode_def fail_with_def split: option.splits sum.splits if_splits)

lemma keeps_read_run_as:
  assumes "\<And>v c. P c \<Longrightarrow> P (c\<lparr>cfg_run_as := v\<rparr>)"
  shows "keeps P (read_run_as L n)"
proof -
  have k: "keeps P (read_optional_string L n key (\<lambda>v c. c\<lparr>cfg_run_as := v\<rparr>))" for key
    by (rule keeps_readers(2)) (rule assms)
  then show ?thesis
    by (auto simp: keeps_def read_run_as_def Let_def res_bind_eq_Inr step_if_def split: if_splits)
qed

lemmas keeps_steps = keeps_trivial keeps_readers keeps_read_optional_int keeps_read_optional_bool
  keeps_read_sequence keeps_read_failure_action keeps_read_log_mode

lemma establishes_checks:
  "establishes (\<lambda>c. mn \<le> get c \<and> get c \<le> mx) (validate_range get mn mx k)"
  "establishes (\<lambda>c. cfg_restart_delay_ms c \<le> cfg_restart_max_delay_ms c) check_delay_order"
  "establishes (\<lambda>c. cfg_pty c \<longrightarrow> cfg_log_mode c \<noteq> LM_split) reject_pty_split"
  "establishes (\<lambda>c. list_all (\<lambda>e. \<not> starts_with ''PM_TINY_'' (entry_key e)) (cfg_env_vars c)) reject_reserved"
  by (auto simp: establishes_def validate_range_def check_delay_order_def reject_pty_split_def
      reject_reserved_def fail_with_def list_all_iff find_None_iff split: if_splits option.splits)

text \<open>What an accepted configuration entry satisfies.\<close>

definition valid_file_cfg :: "prog_cfg_t \<Rightarrow> bool" where
  "valid_file_cfg c \<longleftrightarrow>
     0 \<le> cfg_restart_delay_ms c \<and> cfg_restart_delay_ms c \<le> cfg_restart_max_delay_ms c \<and>
     cfg_restart_max_delay_ms c \<le> restart_duration_max_ms \<and>
     1 \<le> cfg_restart_window_ms c \<and> cfg_restart_window_ms c \<le> restart_duration_max_ms \<and>
     0 \<le> cfg_restart_max_attempts c \<and> cfg_restart_max_attempts c \<le> restart_attempts_max \<and>
     0 \<le> cfg_restart_reset_after_ms c \<and> cfg_restart_reset_after_ms c \<le> restart_duration_max_ms \<and>
     1 \<le> cfg_log_max_size_kb c \<and> cfg_log_max_size_kb c \<le> 1048576 \<and>
     0 \<le> cfg_log_archive_count c \<and> cfg_log_archive_count c \<le> 100 \<and>
     list_all (\<lambda>e. \<not> starts_with ''PM_TINY_'' (entry_key e)) (cfg_env_vars c) \<and>
     (cfg_pty c \<longrightarrow> cfg_log_mode c \<noteq> LM_split) \<and> cfg_envs c = []"


text \<open>Every check of the parser still holds of the final configuration: no later step undoes it.\<close>

lemma parse_steps_checked:
  assumes "run_steps (parse_steps L n) st = Inr st'" "cfg_envs (parsed st) = []"
  shows "valid_file_cfg (parsed st')"
proof -
  let ?c = "parsed st'"
  note est = run_steps_establish [OF assms(1)]
  note ss = parse_steps_def establishes_checks keeps_steps
  have "list_all (\<lambda>e. \<not> starts_with ''PM_TINY_'' (entry_key e)) (cfg_env_vars ?c)"
    by (rule est [of 10]) (simp_all add: ss)
  moreover have "0 \<le> cfg_restart_delay_ms ?c \<and> cfg_restart_delay_ms ?c \<le> restart_duration_max_ms"
    by (rule est [of 20]) (simp_all add: ss)
  moreover have "0 \<le> cfg_restart_max_delay_ms ?c \<and> cfg_restart_max_delay_ms ?c \<le> restart_duration_max_ms"
    by (rule est [of 21]) (simp_all add: ss)
  moreover have "1 \<le> cfg_restart_window_ms ?c \<and> cfg_restart_window_ms ?c \<le> restart_duration_max_ms"
    by (rule est [of 22]) (simp_all add: ss)
  moreover have "0 \<le> cfg_restart_max_attempts ?c \<and> cfg_restart_max_attempts ?c \<le> restart_attempts_max"
    by (rule est [of 23]) (simp_all add: ss)
  moreover have "0 \<le> cfg_restart_reset_after_ms ?c \<and> cfg_restart_reset_after_ms ?c \<le> restart_duration_max_ms"
    by (rule est [of 24]) (simp_all add: ss)
  moreover have "cfg_restart_delay_ms ?c \<le> cfg_restart_max_delay_ms ?c"
    by (rule est [of 25]) (simp_all add: ss)
  moreover have "cfg_pty ?c \<longrightarrow> cfg_log_mode ?c \<noteq> LM_split"
    by (rule est [of 29]) (simp_all add: ss)
  moreover have "1 \<le> cfg_log_max_size_kb ?c \<and> cfg_log_max_size_kb ?c \<le> 1048576"
    by (rule est [of 34]) (simp_all add: ss)
  moreover have "0 \<le> cfg_log_archive_count ?c \<and> cfg_log_archive_count ?c \<le> 100"
    by (rule est [of 35]) (simp_all add: ss)
  moreover have "keeps (\<lambda>c. cfg_envs c = []) (run_steps (parse_steps L n))"
    by (rule keeps_run_steps) (simp add: parse_steps_def keeps_steps read_kill_timeout_def keeps_read_run_as)
  then have "cfg_envs ?c = []" using assms by (simp add: keeps_def)
  ultimately show ?thesis by (simp add: valid_file_cfg_def)
qed

subsection \<open>Reading back a serialised configuration\<close>

definition i32_cfg :: "prog_cfg_t \<Rightarrow> bool" where
  "i32_cfg c \<longleftrightarrow> in_i32 (cfg_kill_timeout_s c) \<and> in_i32 (cfg_start_timeout c) \<and>
     in_i32 (cfg_heartbeat_timeout c) \<and> in_i32 (cfg_oom_score_adj c)"

text \<open>The fields that are left out of the node come back with their default.\<close>

definition serialized_part :: "ProgCfgSerializeOptions \<Rightarrow> prog_cfg_t \<Rightarrow> prog_cfg_t" where
  "serialized_part opts c = c\<lparr>
     cfg_run_as := (if include_run_as opts then cfg_run_as c else []),
     cfg_oom_score_adj := (if include_oom_score_adj opts then cfg_oom_score_adj c else 0),
     cfg_pty := (if include_pty opts then cfg_pty c else False)\<rparr>"

lemma map_of_optional:
  "map_of ((if b then [(k', v)] else []) @ kvs) k = (if b \<and> k' = k then Some v else map_of kvs k)"
  by simp

lemma map_of_Cons_if: "map_of ((k', v) # kvs) k = (if k' = k then Some v else map_of kvs k)"
  by simp

lemma serialized_fields:
  fixes L c opts
  defines "n \<equiv> serialize_prog_cfg_yaml_node L c opts"
  shows "node_field n ''name'' = Some (Y_scalar (cfg_name c))"
    "node_field n ''cwd'' = Some (Y_scalar (cfg_cwd c))"
    "node_field n ''executable'' = Some (Y_scalar (cfg_executable c))"
    "node_field n ''args'' = Some (strings_node (cfg_args c))"
    "node_field n ''env_vars'' = Some (strings_node (cfg_env_vars c))"
    "node_field n ''kill_timeout_s'' = Some (int_node L (cfg_kill_timeout_s c))"
    "node_field n ''user'' = (if include_run_as opts then Some (Y_scalar (cfg_run_as c)) else None)"
    "node_field n ''depends_on'' = Some (strings_node (cfg_depends_on c))"
    "node_field n ''start_timeout'' = Some (int_node L (cfg_start_timeout c))"
    "node_field n ''failure_action'' = Some (Y_scalar (failure_action_to_str (cfg_failure_action c)))"
    "node_field n ''daemon'' = Some (bool_node L (cfg_daemon c))"
    "node_field n ''heartbeat_timeout'' = Some (int_node L (cfg_heartbeat_timeout c))"
    "node_field n ''oom_score_adj'' = (if include_oom_score_adj opts then Some (int_node L (cfg_oom_score_adj c)) else None)"
    "node_field n ''pty'' = (if include_pty opts then Some (bool_node L (cfg_pty c)) else None)"
    "node_field n ''log_mode'' = Some (Y_scalar (log_mode_name (cfg_log_mode c)))"
    "node_field n ''log_dir'' = (if cfg_log_dir c \<noteq> [] then Some (Y_scalar (cfg_log_dir c)) else None)"
    "node_field n ''log_file_name'' = (if cfg_log_file_name c \<noteq> [] then Some (Y_scalar (cfg_log_file_name c)) else None)"
    "node_field n ''log_max_size_kb'' = Some (int_node L (cfg_log_max_size_kb c))"
    "node_field n ''log_archive_count'' = Some (int_node L (cfg_log_archive_count c))"
    "node_field n ''restart_delay_ms'' = Some (int_node L (cfg_restart_delay_ms c))"
    "node_field n ''restart_max_delay_ms'' = Some (int_node L (cfg_restart_max_delay_ms c))"
    "node_field n ''restart_window_ms'' = Some (int_node L (cfg_restart_window_ms c))"
    "node_field n ''restart_max_attempts'' = Some (int_node L (cfg_restart_max_attempts c))"
    "node_field n ''restart_reset_after_ms'' = Some (int_node L (cfg_restart_reset_after_ms c))"
    "node_field n ''command'' = None" "node_field n ''run_as'' = None" "node_field n ''run_as_user'' = None"
    "List.find (\<lambda>f. \<exists>y. node_field n f = Some y) removed_fields = None"
    "node_get L n f = Inr (node_field n f)"
proof -
  show "node_get L n f = Inr (node_field n f)"
    unfolding n_def serialize_prog_cfg_yaml_node_def node_get_def node_field_def ynode.case ..
qed (unfold n_def serialize_prog_cfg_yaml_node_def node_field_def ynode.case removed_fields_def append.simps map_of_optional
    map_of_Cons_if, simp_all)

lemma sequence_elements_scalars: "sequence_elements L f e (map Y_scalar xs) = (xs, [])"
  by (induction xs) (simp_all add: as_string_def)

lemma parse_strings_node [simp]: "parse_string_sequence L (Some (strings_node xs)) f e = (xs, [])"
  by (simp add: parse_string_sequence_def strings_node_def sequence_elements_scalars)

lemma as_string_scalar [simp]: "as_string L (Y_scalar s) = Inr s"
  by (simp add: as_string_def)

lemma as_int_node: "yaml_scalars L \<Longrightarrow> in_i32 i \<Longrightarrow> as_int L (int_node L i) = Inr i"
  by (simp add: yaml_scalars_def as_int_def int_node_def)

lemma as_bool_node: "yaml_scalars L \<Longrightarrow> as_bool L (bool_node L b) = Inr b"
  by (simp add: yaml_scalars_def as_bool_def bool_node_def)

lemma failure_action_str [simp]: "str_to_failure_action (failure_action_to_str a) = Inr a"
  by (cases a) (simp_all add: str_to_failure_action_def)

lemma parse_log_mode_name [simp]: "parse_log_mode (log_mode_name m) = Some m"
  by (cases m) (simp_all add: parse_log_mode_def)

lemma valid_file_cfg_i32:
  assumes "valid_file_cfg c"
  shows "in_i32 (cfg_restart_delay_ms c)" "in_i32 (cfg_restart_max_delay_ms c)"
    "in_i32 (cfg_restart_window_ms c)" "in_i32 (cfg_restart_max_attempts c)"
    "in_i32 (cfg_restart_reset_after_ms c)" "in_i32 (cfg_log_max_size_kb c)" "in_i32 (cfg_log_archive_count c)"
  using assms by (auto simp: valid_file_cfg_def in_i32_def restart_duration_max_ms_def restart_attempts_max_def)

lemmas step_defs = reject_removed_def read_required_string_def reject_command_def read_sequence_def
  read_kill_timeout_def read_optional_int_def read_run_as_def read_optional_string_def step_if_def
  reject_reserved_def read_failure_action_def read_optional_bool_def read_log_mode_def
  validate_range_def check_delay_order_def reject_pty_split_def

lemma read_run_as_serialized:
  "cfg_run_as (parsed st) = [] \<Longrightarrow> read_run_as L (serialize_prog_cfg_yaml_node L c opts) st =
     Inr (st\<lparr>parsed := (parsed st)\<lparr>cfg_run_as := (if include_run_as opts then cfg_run_as c else [])\<rparr>\<rparr>)"
  by (simp add: read_run_as_def read_optional_string_def step_if_def serialized_fields Let_def)

lemma read_optional_serialized:
  "yaml_scalars L \<Longrightarrow> in_i32 (cfg_oom_score_adj c) \<Longrightarrow> cfg_oom_score_adj (parsed st) = 0 \<Longrightarrow>
   read_optional_int L (serialize_prog_cfg_yaml_node L c opts) ''oom_score_adj'' (\<lambda>v c. c\<lparr>cfg_oom_score_adj := v\<rparr>) st =
     Inr (st\<lparr>parsed := (parsed st)\<lparr>cfg_oom_score_adj := (if include_oom_score_adj opts then cfg_oom_score_adj c else 0)\<rparr>\<rparr>)"
  "yaml_scalars L \<Longrightarrow> cfg_pty (parsed st) = False \<Longrightarrow>
   read_optional_bool L (serialize_prog_cfg_yaml_node L c opts) ''pty'' (\<lambda>v c. c\<lparr>cfg_pty := v\<rparr>) st =
     Inr (st\<lparr>parsed := (parsed st)\<lparr>cfg_pty := (if include_pty opts then cfg_pty c else False)\<rparr>\<rparr>)"
  "cfg_log_dir (parsed st) = [] \<Longrightarrow>
   read_optional_string L (serialize_prog_cfg_yaml_node L c opts) ''log_dir'' (\<lambda>v c. c\<lparr>cfg_log_dir := v\<rparr>) st =
     Inr (st\<lparr>parsed := (parsed st)\<lparr>cfg_log_dir := cfg_log_dir c\<rparr>\<rparr>)"
  "cfg_log_file_name (parsed st) = [] \<Longrightarrow>
   read_optional_string L (serialize_prog_cfg_yaml_node L c opts) ''log_file_name'' (\<lambda>v c. c\<lparr>cfg_log_file_name := v\<rparr>) st =
     Inr (st\<lparr>parsed := (parsed st)\<lparr>cfg_log_file_name := cfg_log_file_name c\<rparr>\<rparr>)"
  by (simp_all add: read_optional_int_def read_optional_bool_def read_optional_string_def serialized_fields
      as_int_node as_bool_node)

lemma read_plain_serialized:
  fixes L c opts
  defines "n \<equiv> serialize_prog_cfg_yaml_node L c opts"
  shows "node_field n k = Some (Y_scalar v) \<Longrightarrow>
      read_required_string L n k upd st = Inr (st\<lparr>parsed := upd v (parsed st)\<rparr>)"
    "node_field n k = Some (strings_node vs) \<Longrightarrow>
      read_sequence L n k upds st = Inr (st\<lparr>parsed := upds vs (parsed st)\<rparr>)"
    "yaml_scalars L \<Longrightarrow> node_field n k = Some (int_node L i) \<Longrightarrow> in_i32 i \<Longrightarrow>
      read_optional_int L n k updi st = Inr (st\<lparr>parsed := updi i (parsed st)\<rparr>)"
    "yaml_scalars L \<Longrightarrow> node_field n k = Some (bool_node L b) \<Longrightarrow>
      read_optional_bool L n k updb st = Inr (st\<lparr>parsed := updb b (parsed st)\<rparr>)"
    "reject_removed n st = Inr st" "reject_command n st = Inr st"
    "read_failure_action L n st = Inr (st\<lparr>parsed := (parsed st)\<lparr>cfg_failure_action := cfg_failure_action c\<rparr>\<rparr>)"
    "read_log_mode L n st = Inr (st\<lparr>parsed := (parsed st)\<lparr>cfg_log_mode := cfg_log_mode c\<rparr>\<rparr>)"
  unfolding n_def
  by (simp_all add: read_required_string_def read_sequence_def read_optional_int_def read_optional_bool_def
      reject_removed_def reject_command_def read_failure_action_def read_log_mode_def
      serialized_fields as_int_node as_bool_node)

lemma parse_serialized_steps:
  assumes L: "yaml_scalars L" and c: "valid_file_cfg c" "i32_cfg c"
  shows "run_steps (parse_steps L (serialize_prog_cfg_yaml_node L c opts))
    \<lparr>parsed = default_prog_cfg, warnings = []\<rparr> = Inr \<lparr>parsed = serialized_part opts c, warnings = []\<rparr>"
proof -
  note v = c(1) [unfolded valid_file_cfg_def]
  have i: "in_i32 (cfg_kill_timeout_s c)" "in_i32 (cfg_start_timeout c)" "in_i32 (cfg_heartbeat_timeout c)"
    "in_i32 (cfg_oom_score_adj c)" using c(2) by (simp_all add: i32_cfg_def)
  have find: "List.find (\<lambda>e. starts_with ''PM_TINY_'' (entry_key e)) (cfg_env_vars c) = None"
    using v by (auto simp: list_all_iff find_None_iff)
  have r: "cfg_restart_delay_ms c \<le> restart_duration_max_ms" "0 \<le> cfg_restart_max_delay_ms c"
    "\<not> cfg_restart_max_delay_ms c < cfg_restart_delay_ms c" using v by linarith+
  have pty: "\<not> ((if include_pty opts then cfg_pty c else False) \<and> cfg_log_mode c = LM_split)" using v by auto
  have e: "serialized_part opts c = \<lparr>cfg_name = cfg_name c, cfg_cwd = cfg_cwd c, cfg_executable = cfg_executable c,
      cfg_args = cfg_args c, cfg_kill_timeout_s = cfg_kill_timeout_s c,
      cfg_run_as = (if include_run_as opts then cfg_run_as c else []), cfg_envs = [],
      cfg_depends_on = cfg_depends_on c, cfg_start_timeout = cfg_start_timeout c,
      cfg_failure_action = cfg_failure_action c, cfg_daemon = cfg_daemon c,
      cfg_heartbeat_timeout = cfg_heartbeat_timeout c, cfg_env_vars = cfg_env_vars c,
      cfg_oom_score_adj = (if include_oom_score_adj opts then cfg_oom_score_adj c else 0),
      cfg_pty = (if include_pty opts then cfg_pty c else False), cfg_log_mode = cfg_log_mode c,
      cfg_log_dir = cfg_log_dir c, cfg_log_file_name = cfg_log_file_name c,
      cfg_log_max_size_kb = cfg_log_max_size_kb c, cfg_log_archive_count = cfg_log_archive_count c,
      cfg_restart_delay_ms = cfg_restart_delay_ms c, cfg_restart_max_delay_ms = cfg_restart_max_delay_ms c,
      cfg_restart_window_ms = cfg_restart_window_ms c, cfg_restart_max_attempts = cfg_restart_max_attempts c,
      cfg_restart_reset_after_ms = cfg_restart_reset_after_ms c\<rparr>"
    using v by (cases c) (simp add: serialized_part_def)
  show ?thesis
    unfolding parse_steps_def e
    by (simp del: if_split add: read_plain_serialized serialized_fields L i
        valid_file_cfg_i32 [OF c(1)] read_optional_serialized read_run_as_serialized
        default_prog_cfg_def read_kill_timeout_def find v r pty
        reject_reserved_def validate_range_def check_delay_order_def reject_pty_split_def)
qed

lemma parse_serialized:
  assumes "yaml_scalars L" "valid_file_cfg c" "i32_cfg c"
  shows "parse_prog_cfg_yaml_node L (serialize_prog_cfg_yaml_node L c opts) =
    Inr \<lparr>pr_success = True, pr_error = [], pr_warnings = [], pr_cfg = Some (serialized_part opts c)\<rparr>"
  by (simp add: parse_prog_cfg_yaml_node_def serialized_fields parse_serialized_steps [OF assms])

lemma parse_serialized_entries:
  assumes "yaml_scalars L" "list_all (\<lambda>c. valid_file_cfg c \<and> i32_cfg c) cs"
  shows "parse_entries L k (map (\<lambda>c. serialize_prog_cfg_yaml_node L c opts) cs) ws ps =
    Inr \<lparr>dr_success = True, dr_error = [], dr_warnings = ws, dr_programs = ps @ map (serialized_part opts) cs\<rparr>"
  using assms by (induction cs arbitrary: k ws ps) (simp_all add: parse_serialized)

lemma parse_node_success:
  assumes "parse_prog_cfg_yaml_node L n = Inr r" "pr_success r"
  shows "\<exists>c. pr_cfg r = Some c \<and> valid_file_cfg c \<and> pr_warnings r = []"
proof -
  from assms obtain st where "run_steps (parse_steps L n) \<lparr>parsed = default_prog_cfg, warnings = []\<rparr> = Inr st"
    "r = \<lparr>pr_success = True, pr_error = [], pr_warnings = [], pr_cfg = Some (parsed st)\<rparr>"
    by (auto simp: parse_prog_cfg_yaml_node_def res_bind_eq_Inr split: sum.splits if_splits)
  then show ?thesis using parse_steps_checked by (fastforce simp: default_prog_cfg_def)
qed

lemma parse_entries_success:
  assumes "parse_entries L k ns ws ps = Inr r" "dr_success r"
  shows "\<exists>cs. dr_programs r = ps @ cs \<and> length cs = length ns \<and> list_all valid_file_cfg cs"
  using assms
proof (induction ns arbitrary: k ws ps)
  case Nil
  then show ?case by auto
next
  case (Cons n ns)
  then obtain e where e: "parse_prog_cfg_yaml_node L n = Inr e"
    by (auto simp: res_bind_eq_Inr)
  with Cons.prems have s: "pr_success e" by (auto simp: Let_def split: if_splits)
  with e parse_node_success obtain c where c: "pr_cfg e = Some c" "valid_file_cfg c" by blast
  from Cons.prems e s c have "parse_entries L (Suc k) ns (ws @ pr_warnings e) (ps @ [c]) = Inr r" by simp
  from Cons.IH [OF this Cons.prems(2)] obtain cs where
    "dr_programs r = (ps @ [c]) @ cs" "length cs = length ns" "list_all valid_file_cfg cs" by blast
  with c show ?case by (intro exI [of _ "c # cs"]) simp
qed

end
