(* ===== verification/Daemon_Config.thy ===== *)
theory Daemon_Config
  imports Prog_Cfg_Yaml
begin

section \<open>Daemon configuration (core/daemon_config)\<close>

text \<open>
  Command line arguments, and the configuration resolved from the command line, the environment, the
  configuration file and the defaults.  The host is a parameter: the environment, the home directory of the
  password database, whether a file is readable, what opening and reading it gives, and whether the build
  makes the abstract socket namespace the default.  The code is that of a POSIX build; the platform argument is the one the
  functions take.  A function with an \<open>error\<close> result is a sum whose left side is that text.
\<close>

datatype daemon_platform = Posix | Windows

datatype daemon_config_source =
    Src_default
  | Src_config_file
  | Src_environment
  | Src_command_line
  | Src_derived

datatype opened_file = Open_failed string | Opened "nat option" "string option"

record daemon_host =
  dh_environ :: "string \<Rightarrow> string option"
  dh_pw_dir :: "string option"
  dh_access :: "string \<Rightarrow> bool"
  dh_open :: "string \<Rightarrow> opened_file"
  dh_abstract_default :: bool

record daemon_cli_options =
  co_config_path :: string
  co_home_dir :: string
  co_log_level :: string
  co_log_max_size_kb :: int
  co_log_archive_count :: int
  co_config_explicit :: bool
  co_home_explicit :: bool
  co_log_level_explicit :: bool
  co_log_max_size_explicit :: bool
  co_log_archive_count_explicit :: bool
  co_daemonize :: bool
  co_service :: bool
  co_service_name :: string
  co_service_name_explicit :: bool
  co_pipe_name :: string
  co_pipe_sddl :: string
  co_help :: bool
  co_version :: bool

definition default_cli_options :: daemon_cli_options where
  "default_cli_options = \<lparr>co_config_path = '''', co_home_dir = '''', co_log_level = '''', co_log_max_size_kb = 0,
     co_log_archive_count = -1, co_config_explicit = False, co_home_explicit = False, co_log_level_explicit = False,
     co_log_max_size_explicit = False, co_log_archive_count_explicit = False, co_daemonize = False, co_service = False,
     co_service_name = ''pm_tiny'', co_service_name_explicit = False, co_pipe_name = '''', co_pipe_sddl = '''',
     co_help = False, co_version = False\<rparr>"

record daemon_config =
  dc_config_path :: string
  dc_config_loaded :: bool
  dc_home_dir :: string
  dc_lock_file :: string
  dc_log_file :: string
  dc_program_config_file :: string
  dc_app_log_dir :: string
  dc_app_environ_dir :: string
  dc_log_level :: string
  dc_log_max_size_kb :: int
  dc_log_archive_count :: int
  dc_socket_file :: string
  dc_uds_abstract_namespace :: bool
  dc_process_tree_mode :: string
  dc_cgroup_root :: string
  dc_allowed_uids :: "32 word list"
  dc_allowed_gids :: "32 word list"
  dc_pipe_name :: string
  dc_pipe_sddl :: string
  dc_sources :: "string \<rightharpoonup> daemon_config_source"

definition windows_default_pipe_sddl :: string where
  "windows_default_pipe_sddl = ''D:P(A;;GA;;;SY)(A;;GA;;;BA)(A;;GRGW;;;IU)''"

definition backslash :: char where "backslash = CHR 0x5C"

definition default_daemon_config :: daemon_config where
  "default_daemon_config = \<lparr>dc_config_path = '''', dc_config_loaded = False, dc_home_dir = '''', dc_lock_file = '''',
     dc_log_file = '''', dc_program_config_file = '''', dc_app_log_dir = '''', dc_app_environ_dir = '''', dc_log_level = ''info'',
     dc_log_max_size_kb = 4096, dc_log_archive_count = 3, dc_socket_file = '''', dc_uds_abstract_namespace = False,
     dc_process_tree_mode = ''auto'', dc_cgroup_root = '''', dc_allowed_uids = [], dc_allowed_gids = [],
     dc_pipe_name = [backslash, backslash, CHR ''.'', backslash] @ ''pipe'' @ [backslash] @ ''pm_tiny'',
     dc_pipe_sddl = windows_default_pipe_sddl, dc_sources = Map.empty\<rparr>"

primrec daemon_config_source_name :: "daemon_config_source \<Rightarrow> string" where
  "daemon_config_source_name Src_default = ''default''"
| "daemon_config_source_name Src_config_file = ''config_file''"
| "daemon_config_source_name Src_environment = ''environment''"
| "daemon_config_source_name Src_command_line = ''command_line''"
| "daemon_config_source_name Src_derived = ''derived''"

definition source_of :: "daemon_config \<Rightarrow> string \<Rightarrow> daemon_config_source" where
  "source_of c field = (case dc_sources c field of None \<Rightarrow> Src_default | Some s \<Rightarrow> s)"

definition set_source :: "string \<Rightarrow> daemon_config_source \<Rightarrow> daemon_config \<Rightarrow> daemon_config" where
  "set_source field src c = c\<lparr>dc_sources := (dc_sources c)(field \<mapsto> src)\<rparr>"

definition daemon_environment :: "daemon_host \<Rightarrow> string \<Rightarrow> string" where
  "daemon_environment h name = (case dh_environ h name of None \<Rightarrow> '''' | Some v \<Rightarrow> v)"

definition set_daemon_environment :: "bool \<Rightarrow> string \<Rightarrow> string \<Rightarrow> daemon_host \<Rightarrow> string + daemon_host" where
  "set_daemon_environment setenv_ok name v h =
     (if setenv_ok then Inr (h\<lparr>dh_environ := (dh_environ h)(name \<mapsto> v)\<rparr>) else Inl (''setenv failed for '' @ name))"

subsection \<open>Values\<close>

definition valid_log_level :: "string \<Rightarrow> bool" where
  "valid_log_level v \<longleftrightarrow> v \<in> set [''debug'', ''info'', ''warn'', ''error'', ''fatal'']"

text \<open>\<open>strtol\<close> with base 10 on the whole C string: white space, a sign, digits; out of range sets \<open>errno\<close>.\<close>

definition is_dec_digit :: "char \<Rightarrow> bool" where
  "is_dec_digit c \<longleftrightarrow> (48 :: nat) \<le> of_char c \<and> (of_char c :: nat) \<le> 57"

definition digits_value :: "string \<Rightarrow> int" where
  "digits_value ds = foldl (\<lambda>acc c. 10 * acc + (int (of_char c) - 48)) 0 ds"

definition strtol_whole :: "string \<Rightarrow> int option" where
  "strtol_whole v =
     (let s = dropWhile is_space (takeWhile (\<lambda>c. c \<noteq> CHR 0x00) v);
          neg = (s \<noteq> [] \<and> hd s = CHR ''-'');
          ds = (if s \<noteq> [] \<and> (hd s = CHR ''-'' \<or> hd s = CHR ''+'') then tl s else s);
          n = (if neg then - digits_value ds else digits_value ds) in
      if ds = [] \<or> \<not> list_all is_dec_digit ds \<or> \<not> in_i64 n then None else Some n)"

definition parse_long :: "string \<Rightarrow> int \<Rightarrow> int \<Rightarrow> int option" where
  "parse_long v minimum maximum =
     (if v = [] then None
      else case strtol_whole v of
        None \<Rightarrow> None
      | Some n \<Rightarrow> if minimum \<le> n \<and> n \<le> maximum then Some n else None)"

definition parse_bool_text :: "string \<Rightarrow> bool option" where
  "parse_bool_text v =
     (if v \<in> set [''1'', ''Y'', ''y'', ''true'', ''yes''] then Some True
      else if v \<in> set [''0'', ''N'', ''n'', ''false'', ''no''] then Some False
      else None)"

subsection \<open>Paths\<close>

definition path_separator :: "daemon_platform \<Rightarrow> char" where
  "path_separator p = (if p = Windows then backslash else CHR ''/'')"

definition is_letter :: "char \<Rightarrow> bool" where
  "is_letter c \<longleftrightarrow> (let n = (of_char c :: nat) in 65 \<le> n \<and> n \<le> 90 \<or> 97 \<le> n \<and> n \<le> 122)"

definition is_separator :: "char \<Rightarrow> bool" where
  "is_separator c \<longleftrightarrow> c = CHR ''/'' \<or> c = backslash"

definition is_absolute_path :: "string \<Rightarrow> daemon_platform \<Rightarrow> bool" where
  "is_absolute_path path p =
     (if path = [] then False
      else if p = Windows
      then (length path \<ge> 3 \<and> is_letter (path ! 0) \<and> path ! 1 = CHR '':'' \<and> is_separator (path ! 2)) \<or>
           (length path \<ge> 2 \<and> path ! 0 = backslash \<and> path ! 1 = backslash) \<or> is_separator (path ! 0)
      else path ! 0 = CHR ''/'')"

text \<open>The text before the last separator, \<open>None\<close> when there is no separator.\<close>

definition before_last :: "(char \<Rightarrow> bool) \<Rightarrow> string \<Rightarrow> string option" where
  "before_last P s =
     (if \<exists>c \<in> set s. P c then Some (rev (tl (dropWhile (\<lambda>c. \<not> P c) (rev s)))) else None)"

definition config_directory :: "string \<Rightarrow> daemon_platform \<Rightarrow> string" where
  "config_directory path p =
     (case before_last (if p = Windows then is_separator else (\<lambda>c. c = CHR ''/'')) path of
        None \<Rightarrow> ''.''
      | Some d \<Rightarrow> if d = [] then take 1 path else d)"

definition join_path :: "string \<Rightarrow> string \<Rightarrow> daemon_platform \<Rightarrow> string" where
  "join_path base name p =
     (if base = [] then name
      else if name = [] then base
      else if is_separator (last base) then base @ name
      else base @ [path_separator p] @ name)"

function trim_trailing_separators :: "daemon_platform \<Rightarrow> string \<Rightarrow> string" where
  "trim_trailing_separators p path =
     (if length path > 1 \<and> is_separator (last path) \<and> \<not> (p = Windows \<and> length path = 3 \<and> path ! 1 = CHR '':'')
      then trim_trailing_separators p (butlast path)
      else path)"
  by pat_completeness auto
termination
  by (relation "measure (\<lambda>(p, path). length path)") auto

declare trim_trailing_separators.simps [simp del]

definition resolve_relative :: "string \<Rightarrow> daemon_platform \<Rightarrow> string \<Rightarrow> string" where
  "resolve_relative config_path p path =
     (if path = [] \<or> is_absolute_path path p then path else join_path (config_directory config_path p) path p)"

definition default_home :: "daemon_host \<Rightarrow> daemon_platform \<Rightarrow> string" where
  "default_home h p =
     (if p = Windows
      then let profile = daemon_environment h ''USERPROFILE'';
               drive = daemon_environment h ''HOMEDRIVE''; path = daemon_environment h ''HOMEPATH'' in
           if profile \<noteq> [] then join_path profile ''.pm_tiny'' p
           else if drive \<noteq> [] \<and> path \<noteq> [] then join_path (drive @ path) ''.pm_tiny'' p
           else ''.pm_tiny''
      else case dh_pw_dir h of
        Some d \<Rightarrow> join_path d ''.pm_tiny'' p
      | None \<Rightarrow> let home = daemon_environment h ''HOME'' in
          if home = [] then ''.pm_tiny'' else join_path home ''.pm_tiny'' p)"

definition implicit_config_path :: "daemon_host \<Rightarrow> daemon_cli_options \<Rightarrow> daemon_platform \<Rightarrow> string" where
  "implicit_config_path h opts p =
     (if p = Posix then ''/usr/local/pm_tiny/pm_tiny.yaml''
      else let home = (if co_home_explicit opts then co_home_dir opts else daemon_environment h ''PM_TINY_HOME'') in
           join_path (if home = [] then default_home h p else home) ''pm_tiny.yaml'' p)"

subsection \<open>The configuration file\<close>

definition max_yaml_bytes :: nat where
  "max_yaml_bytes = 4 * 1024 * 1024"

definition load_yaml_file :: "yaml_lib \<Rightarrow> daemon_host \<Rightarrow> string \<Rightarrow> string + ynode" where
  "load_yaml_file L h path = (case dh_open h path of
       Open_failed e \<Rightarrow> Inl (''Cannot open daemon config `'' @ path @ ''`: '' @ e)
     | Opened bytes content \<Rightarrow>
         if bytes = None \<or> max_yaml_bytes < the bytes then Inl (''Daemon config `'' @ path @ ''` exceeds 4 MiB limit'')
         else case content of
           None \<Rightarrow> Inl (''Cannot read daemon config `'' @ path @ ''`'')
         | Some s \<Rightarrow> (case yl_load L s of
               Inl ex \<Rightarrow> Inl (''Failed to load daemon config `'' @ path @ ''`: '' @ ex)
             | Inr root \<Rightarrow> Inr root))"

text \<open>\<open>as<std::vector<unsigned int>>\<close>: the first element that is no number is the one reported.\<close>

definition as_uint :: "yaml_lib \<Rightarrow> ynode \<Rightarrow> string + 32 word" where
  "as_uint L node = (case node of
       Y_scalar s \<Rightarrow> (case yl_uint L s of Some i \<Rightarrow> Inr i | None \<Rightarrow> Inl (yl_what L node))
     | _ \<Rightarrow> Inl (yl_what L node))"

fun as_uints :: "yaml_lib \<Rightarrow> ynode list \<Rightarrow> string + 32 word list" where
  "as_uints L [] = Inr []"
| "as_uints L (n # ns) = res_bind (as_uint L n) (\<lambda>v. res_bind (as_uints L ns) (\<lambda>vs. Inr (v # vs)))"

definition as_uint_vector :: "yaml_lib \<Rightarrow> ynode \<Rightarrow> string + 32 word list" where
  "as_uint_vector L node = (case node of Y_seq ns \<Rightarrow> as_uints L ns | _ \<Rightarrow> Inl (yl_what L node))"

definition read_value :: "(ynode \<Rightarrow> string + 'a) \<Rightarrow> ynode \<Rightarrow> string \<Rightarrow> 'a \<Rightarrow> string + 'a" where
  "read_value conv root key current = (case node_field root key of
       None \<Rightarrow> Inr current
     | Some node \<Rightarrow> (case conv node of
           Inr v \<Rightarrow> Inr v
         | Inl ex \<Rightarrow> Inl (''Invalid daemon field `'' @ key @ ''`: '' @ ex)))"

definition common_keys :: "string list" where
  "common_keys = [''pm_tiny_home_dir'', ''pm_tiny_log_file'', ''pm_tiny_prog_cfg_file'', ''pm_tiny_app_log_dir'',
     ''pm_tiny_app_environ_dir'', ''pm_tiny_log_level'', ''pm_tiny_log_max_size_kb'', ''pm_tiny_log_archive_count'']"

definition posix_keys :: "string list" where
  "posix_keys = [''pm_tiny_sock_file'', ''pm_tiny_uds_abstract_namespace'', ''pm_tiny_allowed_uids'',
     ''pm_tiny_allowed_gids'', ''pm_tiny_process_tree_mode'', ''pm_tiny_cgroup_root'']"

definition windows_keys :: "string list" where
  "windows_keys = [''pm_tiny_pipe_name'', ''pm_tiny_pipe_sddl'']"

fun check_keys :: "daemon_platform \<Rightarrow> string list \<Rightarrow> string + unit" where
  "check_keys p [] = Inr ()"
| "check_keys p (key # keys) =
     (if key \<in> set common_keys \<or> p = Posix \<and> key \<in> set posix_keys \<or> p = Windows \<and> key \<in> set windows_keys
      then check_keys p keys
      else if key \<in> set posix_keys \<or> key \<in> set windows_keys
      then Inl (''Daemon field `'' @ key @ ''` is unsupported on this platform'')
      else if take 8 key = ''pm_tiny_'' then Inl (''Unknown daemon field `'' @ key @ ''`'')
      else check_keys p keys)"

text \<open>The keys of a mapping are strings in this model; a key of another kind, which the code rejects, is not.\<close>

definition validate_keys :: "ynode \<Rightarrow> daemon_platform \<Rightarrow> string + unit" where
  "validate_keys root p = (case root of Y_map kvs \<Rightarrow> check_keys p (map fst kvs) | _ \<Rightarrow> Inr ())"

definition common_sources :: "(string \<times> string) list" where
  "common_sources = [(''pm_tiny_home_dir'', ''home_dir''), (''pm_tiny_log_file'', ''log_file''),
     (''pm_tiny_prog_cfg_file'', ''program_config_file''), (''pm_tiny_app_log_dir'', ''app_log_dir''),
     (''pm_tiny_app_environ_dir'', ''app_environ_dir''), (''pm_tiny_log_level'', ''log_level''),
     (''pm_tiny_log_max_size_kb'', ''log_max_size_kb''), (''pm_tiny_log_archive_count'', ''log_archive_count'')]"

definition platform_sources :: "(string \<times> string) list" where
  "platform_sources = [(''pm_tiny_sock_file'', ''socket_file''), (''pm_tiny_uds_abstract_namespace'', ''uds_abstract_namespace''),
     (''pm_tiny_process_tree_mode'', ''process_tree_mode''), (''pm_tiny_cgroup_root'', ''cgroup_root''),
     (''pm_tiny_allowed_uids'', ''allowed_uids''), (''pm_tiny_allowed_gids'', ''allowed_gids''),
     (''pm_tiny_pipe_name'', ''pipe_name''), (''pm_tiny_pipe_sddl'', ''pipe_sddl'')]"

definition mark_file_sources :: "ynode \<Rightarrow> (string \<times> string) list \<Rightarrow> daemon_config \<Rightarrow> daemon_config" where
  "mark_file_sources root entries c =
     fold (\<lambda>(key, field) c. if node_field root key = None then c else set_source field Src_config_file c) entries c"

definition read_common :: "yaml_lib \<Rightarrow> ynode \<Rightarrow> daemon_config \<Rightarrow> string + daemon_config" where
  "read_common L root c =
     res_bind (read_value (as_string L) root ''pm_tiny_home_dir'' (dc_home_dir c)) (\<lambda>home_dir.
     res_bind (read_value (as_string L) root ''pm_tiny_log_file'' (dc_log_file c)) (\<lambda>log_file.
     res_bind (read_value (as_string L) root ''pm_tiny_prog_cfg_file'' (dc_program_config_file c)) (\<lambda>program_config_file.
     res_bind (read_value (as_string L) root ''pm_tiny_app_log_dir'' (dc_app_log_dir c)) (\<lambda>app_log_dir.
     res_bind (read_value (as_string L) root ''pm_tiny_app_environ_dir'' (dc_app_environ_dir c)) (\<lambda>app_environ_dir.
     res_bind (read_value (as_string L) root ''pm_tiny_log_level'' (dc_log_level c)) (\<lambda>log_level.
     res_bind (read_value (as_int L) root ''pm_tiny_log_max_size_kb'' (dc_log_max_size_kb c)) (\<lambda>log_max_size_kb.
     res_bind (read_value (as_int L) root ''pm_tiny_log_archive_count'' (dc_log_archive_count c)) (\<lambda>log_archive_count.
     Inr (c\<lparr>dc_home_dir := home_dir, dc_log_file := log_file, dc_program_config_file := program_config_file,
       dc_app_log_dir := app_log_dir, dc_app_environ_dir := app_environ_dir, dc_log_level := log_level,
       dc_log_max_size_kb := log_max_size_kb, dc_log_archive_count := log_archive_count\<rparr>)))))))))"

definition read_platform :: "yaml_lib \<Rightarrow> ynode \<Rightarrow> daemon_platform \<Rightarrow> daemon_config \<Rightarrow> string + daemon_config" where
  "read_platform L root p c =
     (if p = Posix then
        res_bind (read_value (as_string L) root ''pm_tiny_sock_file'' (dc_socket_file c)) (\<lambda>socket_file.
        res_bind (read_value (as_bool L) root ''pm_tiny_uds_abstract_namespace'' (dc_uds_abstract_namespace c)) (\<lambda>abstract.
        res_bind (read_value (as_string L) root ''pm_tiny_process_tree_mode'' (dc_process_tree_mode c)) (\<lambda>mode.
        res_bind (read_value (as_string L) root ''pm_tiny_cgroup_root'' (dc_cgroup_root c)) (\<lambda>cgroup_root.
        res_bind (read_value (as_uint_vector L) root ''pm_tiny_allowed_uids'' (dc_allowed_uids c)) (\<lambda>uids.
        res_bind (read_value (as_uint_vector L) root ''pm_tiny_allowed_gids'' (dc_allowed_gids c)) (\<lambda>gids.
        Inr (c\<lparr>dc_socket_file := socket_file, dc_uds_abstract_namespace := abstract, dc_process_tree_mode := mode,
          dc_cgroup_root := cgroup_root, dc_allowed_uids := uids, dc_allowed_gids := gids\<rparr>)))))))
      else
        res_bind (read_value (as_string L) root ''pm_tiny_pipe_name'' (dc_pipe_name c)) (\<lambda>pipe_name.
        res_bind (read_value (as_string L) root ''pm_tiny_pipe_sddl'' (dc_pipe_sddl c)) (\<lambda>pipe_sddl.
        Inr (c\<lparr>dc_pipe_name := pipe_name, dc_pipe_sddl := pipe_sddl\<rparr>))))"

definition resolve_paths :: "string \<Rightarrow> daemon_platform \<Rightarrow> daemon_config \<Rightarrow> daemon_config" where
  "resolve_paths path p c =
     (let c = c\<lparr>dc_home_dir := resolve_relative path p (dc_home_dir c), dc_log_file := resolve_relative path p (dc_log_file c),
            dc_program_config_file := resolve_relative path p (dc_program_config_file c),
            dc_app_log_dir := resolve_relative path p (dc_app_log_dir c),
            dc_app_environ_dir := resolve_relative path p (dc_app_environ_dir c)\<rparr> in
      if p = Posix \<and> \<not> dc_uds_abstract_namespace c
      then c\<lparr>dc_socket_file := resolve_relative path p (dc_socket_file c)\<rparr> else c)"

definition load_file_config ::
  "yaml_lib \<Rightarrow> daemon_host \<Rightarrow> string \<Rightarrow> daemon_platform \<Rightarrow> daemon_config \<Rightarrow> string + daemon_config" where
  "load_file_config L h path p c =
     res_bind (load_yaml_file L h path) (\<lambda>root.
     if \<not> (case root of Y_map _ \<Rightarrow> True | _ \<Rightarrow> False)
     then Inl (''Daemon config `'' @ path @ ''` must be a mapping'')
     else
       res_bind (validate_keys root p) (\<lambda>_.
       res_bind (read_common L root c) (\<lambda>c.
       res_bind (read_platform L root p c) (\<lambda>c.
       Inr ((resolve_paths path p
              (mark_file_sources root platform_sources (mark_file_sources root common_sources c)))
            \<lparr>dc_config_loaded := True\<rparr>)))))"

subsection \<open>The environment\<close>

definition override_string ::
  "daemon_host \<Rightarrow> string \<Rightarrow> string \<Rightarrow> (string \<Rightarrow> daemon_config \<Rightarrow> daemon_config) \<Rightarrow> daemon_config \<Rightarrow> daemon_config" where
  "override_string h name field upd c =
     (let v = daemon_environment h name in
      if v = [] then c else set_source field Src_environment (upd v c))"

definition override_log_level :: "daemon_host \<Rightarrow> daemon_config \<Rightarrow> string + daemon_config" where
  "override_log_level h c =
     (let level = daemon_environment h ''PM_TINY_LOG_LEVEL'' in
      if level = [] then Inr c
      else if \<not> valid_log_level level then Inl ''PM_TINY_LOG_LEVEL must be debug, info, warn, error, or fatal''
      else Inr (set_source ''log_level'' Src_environment (c\<lparr>dc_log_level := level\<rparr>)))"

definition override_number ::
  "daemon_host \<Rightarrow> string \<Rightarrow> string \<Rightarrow> int \<Rightarrow> int \<Rightarrow> string \<Rightarrow> (int \<Rightarrow> daemon_config \<Rightarrow> daemon_config) \<Rightarrow>
     daemon_config \<Rightarrow> string + daemon_config" where
  "override_number h name field minimum maximum message upd c =
     (let v = daemon_environment h name in
      if v = [] then Inr c
      else case parse_long v minimum maximum of
        None \<Rightarrow> Inl (name @ message)
      | Some n \<Rightarrow> Inr (set_source field Src_environment (upd n c)))"

definition override_abstract :: "daemon_host \<Rightarrow> daemon_config \<Rightarrow> string + daemon_config" where
  "override_abstract h c =
     (let v = daemon_environment h ''PM_TINY_UDS_ABSTRACT_NAMESPACE'' in
      if v = [] then Inr c
      else case parse_bool_text v of
        None \<Rightarrow> Inl ''PM_TINY_UDS_ABSTRACT_NAMESPACE must be a boolean''
      | Some b \<Rightarrow> Inr (set_source ''uds_abstract_namespace'' Src_environment (c\<lparr>dc_uds_abstract_namespace := b\<rparr>)))"

definition override_paths :: "daemon_host \<Rightarrow> daemon_config \<Rightarrow> daemon_config" where
  "override_paths h c =
     override_string h ''PM_TINY_APP_ENVIRON_DIR'' ''app_environ_dir'' (\<lambda>v c. c\<lparr>dc_app_environ_dir := v\<rparr>)
     (override_string h ''PM_TINY_APP_LOG_DIR'' ''app_log_dir'' (\<lambda>v c. c\<lparr>dc_app_log_dir := v\<rparr>)
     (override_string h ''PM_TINY_PROG_CFG_FILE'' ''program_config_file'' (\<lambda>v c. c\<lparr>dc_program_config_file := v\<rparr>)
     (override_string h ''PM_TINY_LOG_FILE'' ''log_file'' (\<lambda>v c. c\<lparr>dc_log_file := v\<rparr>)
     (override_string h ''PM_TINY_HOME'' ''home_dir'' (\<lambda>v c. c\<lparr>dc_home_dir := v\<rparr>) c))))"

definition override_platform :: "daemon_host \<Rightarrow> daemon_platform \<Rightarrow> daemon_config \<Rightarrow> string + daemon_config" where
  "override_platform h p c =
     (if p = Windows
      then Inr (override_string h ''PM_TINY_PIPE_SDDL'' ''pipe_sddl'' (\<lambda>v c. c\<lparr>dc_pipe_sddl := v\<rparr>)
             (override_string h ''PM_TINY_PIPE_NAME'' ''pipe_name'' (\<lambda>v c. c\<lparr>dc_pipe_name := v\<rparr>) c))
      else override_abstract h
             (override_string h ''PM_TINY_CGROUP_ROOT'' ''cgroup_root'' (\<lambda>v c. c\<lparr>dc_cgroup_root := v\<rparr>)
             (override_string h ''PM_TINY_PROCESS_TREE_MODE'' ''process_tree_mode'' (\<lambda>v c. c\<lparr>dc_process_tree_mode := v\<rparr>)
             (override_string h ''PM_TINY_SOCK_FILE'' ''socket_file'' (\<lambda>v c. c\<lparr>dc_socket_file := v\<rparr>) c))))"

definition apply_environment :: "daemon_host \<Rightarrow> daemon_platform \<Rightarrow> daemon_config \<Rightarrow> string + daemon_config" where
  "apply_environment h p c =
     res_bind (override_log_level h (override_paths h c)) (\<lambda>c.
     res_bind (override_number h ''PM_TINY_LOG_MAX_SIZE_KB'' ''log_max_size_kb'' 1 1048576
       '' must be between 1 and 1048576'' (\<lambda>n c. c\<lparr>dc_log_max_size_kb := n\<rparr>) c) (\<lambda>c.
     res_bind (override_number h ''PM_TINY_LOG_ARCHIVE_COUNT'' ''log_archive_count'' 0 100
       '' must be between 0 and 100'' (\<lambda>n c. c\<lparr>dc_log_archive_count := n\<rparr>) c) (\<lambda>c.
     override_platform h p c)))"

subsection \<open>The command line\<close>

text \<open>The argument after an option that needs a value, checked and stored.\<close>

definition with_value ::
  "string \<Rightarrow> string list \<Rightarrow> (string \<Rightarrow> string + daemon_cli_options) \<Rightarrow> string + daemon_cli_options \<times> string list" where
  "with_value arg rest store = (case rest of
       [] \<Rightarrow> Inl (arg @ '' requires a value'')
     | v # rest' \<Rightarrow> res_bind (store v) (\<lambda>o'. Inr (o', rest')))"

definition nonempty :: "string \<Rightarrow> (string \<Rightarrow> daemon_cli_options) \<Rightarrow> string \<Rightarrow> string + daemon_cli_options" where
  "nonempty arg store v = (if v = [] then Inl (arg @ '' must not be empty'') else Inr (store v))"

definition parse_argument ::
  "daemon_platform \<Rightarrow> string \<Rightarrow> string list \<Rightarrow> daemon_cli_options \<Rightarrow> string + daemon_cli_options \<times> string list" where
  "parse_argument p arg rest opts =
     (if arg = ''-c'' \<or> arg = ''--config''
      then with_value arg rest (\<lambda>v. Inr (opts\<lparr>co_config_path := v, co_config_explicit := True\<rparr>))
      else if arg = ''--home''
      then with_value arg rest (nonempty arg (\<lambda>v. opts\<lparr>co_home_dir := v, co_home_explicit := True\<rparr>))
      else if arg = ''--log-level''
      then with_value arg rest (\<lambda>v. if valid_log_level v then Inr (opts\<lparr>co_log_level := v, co_log_level_explicit := True\<rparr>)
             else Inl ''--log-level must be debug, info, warn, error, or fatal'')
      else if arg = ''--log-max-size-kb''
      then with_value arg rest (\<lambda>v. case parse_long v 1 1048576 of
               Some n \<Rightarrow> Inr (opts\<lparr>co_log_max_size_kb := n, co_log_max_size_explicit := True\<rparr>)
             | None \<Rightarrow> Inl ''--log-max-size-kb must be between 1 and 1048576'')
      else if arg = ''--log-archive-count''
      then with_value arg rest (\<lambda>v. case parse_long v 0 100 of
               Some n \<Rightarrow> Inr (opts\<lparr>co_log_archive_count := n, co_log_archive_count_explicit := True\<rparr>)
             | None \<Rightarrow> Inl ''--log-archive-count must be between 0 and 100'')
      else if arg = ''--help'' \<or> arg = ''-h'' then Inr (opts\<lparr>co_help := True\<rparr>, rest)
      else if arg = ''--version'' then Inr (opts\<lparr>co_version := True\<rparr>, rest)
      else if p = Posix \<and> (arg = ''-d'' \<or> arg = ''--daemon'') then Inr (opts\<lparr>co_daemonize := True\<rparr>, rest)
      else if p = Windows \<and> arg = ''--service'' then Inr (opts\<lparr>co_service := True\<rparr>, rest)
      else if p = Windows \<and> arg = ''--service-name''
      then with_value arg rest (nonempty arg (\<lambda>v. opts\<lparr>co_service_name := v, co_service_name_explicit := True\<rparr>))
      else if p = Windows \<and> arg = ''--pipe-name''
      then with_value arg rest (nonempty arg (\<lambda>v. opts\<lparr>co_pipe_name := v\<rparr>))
      else if p = Windows \<and> arg = ''--pipe-sddl''
      then with_value arg rest (nonempty arg (\<lambda>v. opts\<lparr>co_pipe_sddl := v\<rparr>))
      else Inl (''Unknown option: '' @ arg))"

lemma parse_argument_rest: "parse_argument p arg rest opts = Inr (o', rest') \<Longrightarrow> length rest' \<le> length rest"
  by (auto simp: parse_argument_def with_value_def res_bind_eq_Inr split: if_splits list.splits)

function parse_options :: "daemon_platform \<Rightarrow> string list \<Rightarrow> daemon_cli_options \<Rightarrow> string + daemon_cli_options" where
  "parse_options p [] opts = Inr opts"
| "parse_options p (arg # rest) opts = (case parse_argument p arg rest opts of
       Inl e \<Rightarrow> Inl e
     | Inr (o', rest') \<Rightarrow> parse_options p rest' o')"
  by pat_completeness auto
termination
  by (relation "measure (\<lambda>(p, args, opts). length args)") (auto dest: parse_argument_rest)

text \<open>The first argument is the name of the program.\<close>

definition parse_daemon_arguments :: "string list \<Rightarrow> daemon_platform \<Rightarrow> string + daemon_cli_options" where
  "parse_daemon_arguments arguments p = parse_options p (drop 1 arguments) default_cli_options"

subsection \<open>Resolution\<close>

definition all_fields :: "string list" where
  "all_fields = [''config_path'', ''home_dir'', ''lock_file'', ''log_file'', ''program_config_file'', ''app_log_dir'',
     ''app_environ_dir'', ''log_level'', ''log_max_size_kb'', ''log_archive_count'', ''socket_file'',
     ''uds_abstract_namespace'', ''process_tree_mode'', ''cgroup_root'', ''allowed_uids'', ''allowed_gids'',
     ''pipe_name'', ''pipe_sddl'']"

definition initial_config :: "daemon_host \<Rightarrow> daemon_cli_options \<Rightarrow> daemon_platform \<Rightarrow> daemon_config" where
  "initial_config h opts p =
     (let c = fold (\<lambda>f. set_source f Src_default) all_fields default_daemon_config;
          c = (if dh_abstract_default h \<and> p = Posix then c\<lparr>dc_uds_abstract_namespace := True\<rparr> else c);
          c = c\<lparr>dc_config_path := (if co_config_explicit opts then co_config_path opts else implicit_config_path h opts p)\<rparr> in
      if co_config_explicit opts then set_source ''config_path'' Src_command_line c else c)"

definition check_file_values :: "daemon_config \<Rightarrow> string + daemon_config" where
  "check_file_values c =
     (if \<not> valid_log_level (dc_log_level c) then Inl ''pm_tiny_log_level must be debug, info, warn, error, or fatal''
      else if dc_log_max_size_kb c < 1 \<or> dc_log_max_size_kb c > 1048576
      then Inl ''pm_tiny_log_max_size_kb must be between 1 and 1048576''
      else if dc_log_archive_count c < 0 \<or> dc_log_archive_count c > 100
      then Inl ''pm_tiny_log_archive_count must be between 0 and 100''
      else Inr c)"

definition apply_options :: "daemon_cli_options \<Rightarrow> daemon_platform \<Rightarrow> daemon_config \<Rightarrow> daemon_config" where
  "apply_options opts p c =
     (let c = (if co_home_explicit opts
               then set_source ''home_dir'' Src_command_line (c\<lparr>dc_home_dir := co_home_dir opts\<rparr>) else c);
          c = (if co_log_level_explicit opts
               then set_source ''log_level'' Src_command_line (c\<lparr>dc_log_level := co_log_level opts\<rparr>) else c);
          c = (if co_log_max_size_explicit opts
               then set_source ''log_max_size_kb'' Src_command_line (c\<lparr>dc_log_max_size_kb := co_log_max_size_kb opts\<rparr>) else c);
          c = (if co_log_archive_count_explicit opts
               then set_source ''log_archive_count'' Src_command_line (c\<lparr>dc_log_archive_count := co_log_archive_count opts\<rparr>)
               else c);
          c = (if p = Windows \<and> co_pipe_name opts \<noteq> []
               then set_source ''pipe_name'' Src_command_line (c\<lparr>dc_pipe_name := co_pipe_name opts\<rparr>) else c) in
      if p = Windows \<and> co_pipe_sddl opts \<noteq> []
      then set_source ''pipe_sddl'' Src_command_line (c\<lparr>dc_pipe_sddl := co_pipe_sddl opts\<rparr>) else c)"

definition derive_path ::
  "string \<Rightarrow> (daemon_config \<Rightarrow> string) \<Rightarrow> (string \<Rightarrow> daemon_config \<Rightarrow> daemon_config) \<Rightarrow> string \<Rightarrow> daemon_config \<Rightarrow> daemon_config"
where
  "derive_path field sel upd v c = (if sel c = [] then set_source field Src_derived (upd v c) else c)"

definition fill_home :: "daemon_host \<Rightarrow> daemon_platform \<Rightarrow> daemon_config \<Rightarrow> daemon_config" where
  "fill_home h p c =
     c\<lparr>dc_home_dir := trim_trailing_separators p (if dc_home_dir c = [] then default_home h p else dc_home_dir c),
       dc_app_log_dir := trim_trailing_separators p (dc_app_log_dir c),
       dc_app_environ_dir := trim_trailing_separators p (dc_app_environ_dir c)\<rparr>"

definition derive_files :: "daemon_platform \<Rightarrow> daemon_config \<Rightarrow> daemon_config" where
  "derive_files p c =
     (let home = dc_home_dir c;
          c = derive_path ''log_file'' dc_log_file (\<lambda>v c. c\<lparr>dc_log_file := v\<rparr>) (join_path home ''pm_tiny.log'' p) c;
          c = derive_path ''program_config_file'' dc_program_config_file (\<lambda>v c. c\<lparr>dc_program_config_file := v\<rparr>)
                (join_path home ''prog.yaml'' p) c;
          c = derive_path ''app_log_dir'' dc_app_log_dir (\<lambda>v c. c\<lparr>dc_app_log_dir := v\<rparr>) (join_path home ''logs'' p) c;
          c = derive_path ''app_environ_dir'' dc_app_environ_dir (\<lambda>v c. c\<lparr>dc_app_environ_dir := v\<rparr>)
                (join_path home ''environ'' p) c;
          c = set_source ''lock_file'' Src_derived (c\<lparr>dc_lock_file := join_path home ''pm_tiny.pid'' p\<rparr>) in
      if p = Posix
      then derive_path ''socket_file'' dc_socket_file (\<lambda>v c. c\<lparr>dc_socket_file := v\<rparr>)
             (if dc_uds_abstract_namespace c then ''pm_tinyd'' else join_path home ''pm_tinyd.sock'' p) c
      else c)"

definition check_final :: "daemon_platform \<Rightarrow> daemon_config \<Rightarrow> string + daemon_config" where
  "check_final p c =
     (if dc_program_config_file c = [] then Inl ''pm_tiny_prog_cfg_file must not be empty''
      else if p = Windows \<and> dc_pipe_name c = [] then Inl ''pm_tiny_pipe_name must not be empty''
      else if p = Windows \<and> dc_pipe_sddl c = [] then Inl ''pm_tiny_pipe_sddl must not be empty''
      else Inr c)"

definition resolve_daemon_config ::
  "yaml_lib \<Rightarrow> daemon_host \<Rightarrow> daemon_cli_options \<Rightarrow> daemon_platform \<Rightarrow> string + daemon_config" where
  "resolve_daemon_config L h opts p =
     (let c = initial_config h opts p in
      res_bind (if co_config_explicit opts \<or> dh_access h (dc_config_path c)
                then load_file_config L h (dc_config_path c) p c else Inr c) (\<lambda>c.
      res_bind (check_file_values c) (\<lambda>c.
      res_bind (apply_environment h p c) (\<lambda>c.
      check_final p (derive_files p (fill_home h p (apply_options opts p c)))))))"

end
