(* ===== verification/Yaml_Instance.thy ===== *)
theory Yaml_Instance
  imports Prog_Cfg_Yaml
begin

section \<open>A library that satisfies the YAML laws\<close>

text \<open>
  The properties of the configuration files assume \<open>yaml_scalars\<close> and \<open>yaml_text\<close> of the YAML library.  A small
  text format with an executable emitter and parser, defined here, satisfies both: the witnesses of those
  properties are instances for it.
\<close>

subsection \<open>Numbers\<close>

definition parse_digits :: "string \<Rightarrow> nat" where
  "parse_digits s = foldl (\<lambda>a c. a * 10 + (of_char c - 48)) 0 s"

lemma of_char_digit [simp]: "d < 10 \<Longrightarrow> of_char (char_of (48 + d) :: char) = (48 + d :: nat)"
  by simp

lemma parse_nat_to_string: "parse_digits (nat_to_string n) = n"
proof (induction n rule: nat_to_string.induct)
  case (1 n)
  show ?case
  proof (cases "n < 10")
    case True
    then show ?thesis by (simp add: nat_to_string.simps [of n] parse_digits_def)
  next
    case False
    with 1 have "foldl (\<lambda>a c. a * 10 + (of_char c - 48)) 0 (nat_to_string (n div 10)) = n div 10"
      by (simp add: parse_digits_def)
    with False show ?thesis
      by (simp add: nat_to_string.simps [of n] parse_digits_def)
  qed
qed

lemma nat_to_string_no_minus: "hd (nat_to_string n) \<noteq> CHR ''-'' \<and> nat_to_string n \<noteq> []"
proof (induction n rule: nat_to_string.induct)
  case (1 n)
  have d: "(char_of (48 + d) :: char) \<noteq> CHR ''-''" if "d < 10" for d :: nat
  proof
    assume "(char_of (48 + d) :: char) = CHR ''-''"
    then have "of_char (char_of (48 + d) :: char) = (of_char (CHR ''-'') :: nat)" by simp
    with of_char_digit [OF that] show False by simp
  qed
  show ?case using 1 d [of n] d [of "n mod 10"] by (cases "n < 10") (simp_all add: nat_to_string.simps [of n])
qed

definition parse_int_text :: "string \<Rightarrow> int option" where
  "parse_int_text s = Some (if s \<noteq> [] \<and> hd s = CHR ''-'' then - int (parse_digits (tl s)) else int (parse_digits s))"

lemma parse_int_to_string: "parse_int_text (int_to_string i) = Some i"
  using nat_to_string_no_minus [of "nat i"]
  by (auto simp: parse_int_text_def int_to_string_def parse_nat_to_string)

subsection \<open>Nodes\<close>

definition quote :: "string \<Rightarrow> string" where
  "quote s = concat (map (\<lambda>c. [CHR ''.'', c]) s) @ '';''"

fun unquote :: "string \<Rightarrow> (string \<times> string) option" where
  "unquote (CHR ''.'' # c # r) = (case unquote r of Some (s, r') \<Rightarrow> Some (c # s, r') | None \<Rightarrow> None)"
| "unquote (CHR '';'' # r) = Some ([], r)"
| "unquote _ = None"

lemma unquote_quote: "unquote (quote s @ r) = Some (s, r)"
  by (induction s) (simp_all add: quote_def)

fun enc_node :: "ynode \<Rightarrow> string" where
  "enc_node Y_null = ''n''"
| "enc_node (Y_scalar s) = ''s'' @ quote s"
| "enc_node (Y_seq ns) = ''['' @ concat (map enc_node ns) @ '']''"
| "enc_node (Y_map kvs) = ''{'' @ concat (map (\<lambda>(k, v). quote k @ enc_node v) kvs) @ ''}''"

fun dec_node :: "nat \<Rightarrow> string \<Rightarrow> (ynode \<times> string) option"
  and dec_seq :: "nat \<Rightarrow> string \<Rightarrow> (ynode list \<times> string) option"
  and dec_map :: "nat \<Rightarrow> string \<Rightarrow> ((string \<times> ynode) list \<times> string) option" where
  "dec_node 0 s = None"
| "dec_node (Suc n) s = (case s of
       [] \<Rightarrow> None
     | c # r \<Rightarrow>
         if c = CHR ''n'' then Some (Y_null, r)
         else if c = CHR ''s'' then (case unquote r of Some (x, r') \<Rightarrow> Some (Y_scalar x, r') | None \<Rightarrow> None)
         else if c = CHR ''['' then (case dec_seq n r of Some (xs, r') \<Rightarrow> Some (Y_seq xs, r') | None \<Rightarrow> None)
         else (case dec_map n r of Some (xs, r') \<Rightarrow> Some (Y_map xs, r') | None \<Rightarrow> None))"
| "dec_seq 0 s = None"
| "dec_seq (Suc n) s =
     (if s \<noteq> [] \<and> hd s = CHR '']'' then Some ([], tl s)
      else case dec_node n s of
        None \<Rightarrow> None
      | Some (x, r) \<Rightarrow> (case dec_seq n r of None \<Rightarrow> None | Some (xs, r') \<Rightarrow> Some (x # xs, r')))"
| "dec_map 0 s = None"
| "dec_map (Suc n) s =
     (if s \<noteq> [] \<and> hd s = CHR ''}'' then Some ([], tl s)
      else case unquote s of
        None \<Rightarrow> None
      | Some (k, r0) \<Rightarrow> (case dec_node n r0 of
          None \<Rightarrow> None
        | Some (x, r) \<Rightarrow> (case dec_map n r of None \<Rightarrow> None | Some (xs, r') \<Rightarrow> Some ((k, x) # xs, r'))))"

lemma enc_node_head: "enc_node x \<noteq> [] \<and> hd (enc_node x) \<noteq> CHR '']''"
  by (cases x) simp_all

lemma quote_head: "quote k \<noteq> [] \<and> hd (quote k) \<noteq> CHR ''}''"
  by (cases k) (simp_all add: quote_def)

lemma dec_seq_enc:
  assumes "\<forall>x \<in> set xs. \<forall>n r. length (enc_node x) \<le> n \<longrightarrow> dec_node n (enc_node x @ r) = Some (x, r)"
    "length (concat (map enc_node xs)) < n"
  shows "dec_seq n (concat (map enc_node xs) @ CHR '']'' # r) = Some (xs, r)"
  using assms
proof (induction xs arbitrary: n)
  case Nil
  then show ?case by (cases n) simp_all
next
  case (Cons x xs)
  then obtain m where n: "n = Suc m" by (cases n) simp_all
  have h: "enc_node x \<noteq> []" "hd (enc_node x) \<noteq> CHR '']''" using enc_node_head by auto
  then have l: "0 < length (enc_node x)" by simp
  have "dec_node m (enc_node x @ concat (map enc_node xs) @ CHR '']'' # r) = Some (x, concat (map enc_node xs) @ CHR '']'' # r)"
    using Cons.prems n l by simp
  moreover have "dec_seq m (concat (map enc_node xs) @ CHR '']'' # r) = Some (xs, r)"
  proof (rule Cons.IH)
    show "length (concat (map enc_node xs)) < m"
      using Cons.prems(2) l by (simp add: n del: length_greater_0_conv)
  qed (use Cons.prems in simp)
  ultimately show ?case using h by (simp add: n)
qed

lemma dec_map_enc:
  assumes "\<forall>x \<in> snd ` set xs. \<forall>n r. length (enc_node x) \<le> n \<longrightarrow> dec_node n (enc_node x @ r) = Some (x, r)"
    "length (concat (map (\<lambda>(k, v). quote k @ enc_node v) xs)) < n"
  shows "dec_map n (concat (map (\<lambda>(k, v). quote k @ enc_node v) xs) @ CHR ''}'' # r) = Some (xs, r)"
  using assms
proof (induction xs arbitrary: n)
  case Nil
  then show ?case by (cases n) simp_all
next
  case (Cons kx xs)
  obtain k x where kx: "kx = (k, x)" by (cases kx)
  from Cons obtain m where n: "n = Suc m" by (cases n) simp_all
  let ?e = "concat (map (\<lambda>(k, v). quote k @ enc_node v) xs)"
  have h: "quote k \<noteq> []" "hd (quote k) \<noteq> CHR ''}''" using quote_head by auto
  then have l: "0 < length (quote k)" by simp
  have "dec_node m (enc_node x @ ?e @ CHR ''}'' # r) = Some (x, ?e @ CHR ''}'' # r)"
    using Cons.prems n l by (simp add: kx)
  moreover have "dec_map m (?e @ CHR ''}'' # r) = Some (xs, r)"
  proof (rule Cons.IH)
    show "length ?e < m" using Cons.prems(2) l by (simp add: n kx del: length_greater_0_conv)
  qed (use Cons.prems in simp)
  ultimately show ?case using h by (simp add: n kx unquote_quote)
qed

lemma dec_node_enc: "length (enc_node x) \<le> n \<Longrightarrow> dec_node n (enc_node x @ r) = Some (x, r)"
proof (induction x arbitrary: n r)
  case Y_null
  then show ?case by (cases n) simp_all
next
  case (Y_scalar s)
  then show ?case by (cases n) (simp_all add: unquote_quote)
next
  case (Y_seq xs)
  then obtain m where n: "n = Suc m" by (cases n) simp_all
  with Y_seq show ?case by (simp add: dec_seq_enc)
next
  case (Y_map xs)
  then obtain m where n: "n = Suc m" by (cases n) simp_all
  have "\<forall>x \<in> snd ` set xs. \<forall>n r. length (enc_node x) \<le> n \<longrightarrow> dec_node n (enc_node x @ r) = Some (x, r)"
    using Y_map.IH by (force simp: snds.simps)
  from dec_map_enc [OF this, of m r] Y_map.prems n show ?case by simp
qed

definition plain_yaml :: yaml_lib where
  "plain_yaml = \<lparr>
     yl_int = parse_int_text,
     yl_bool = (\<lambda>s. if s = ''true'' then Some True else if s = ''false'' then Some False else None),
     yl_uint = map_option word_of_int \<circ> parse_int_text,
     yl_int_text = int_to_string,
     yl_bool_text = (\<lambda>b. if b then ''true'' else ''false''),
     yl_what = (\<lambda>_. ''bad conversion''),
     yl_invalid = (\<lambda>k. ''invalid node; first invalid key: '' @ k),
     yl_bad_file = (\<lambda>f. ''bad file: '' @ f),
     yl_load = (\<lambda>s. case dec_node (length s) s of Some (n, r) \<Rightarrow> Inr n | None \<Rightarrow> Inl ''parse error''),
     yl_emit = enc_node\<rparr>"

lemma plain_yaml_laws: "yaml_scalars plain_yaml" "yaml_text plain_yaml"
proof -
  show "yaml_scalars plain_yaml" by (auto simp: yaml_scalars_def plain_yaml_def parse_int_to_string)
  have "dec_node (length (enc_node n @ r)) (enc_node n @ r) = Some (n, r)" for n r
    by (rule dec_node_enc) simp
  from this [of _ "[]"] this [of _ "[newline]"] show "yaml_text plain_yaml"
    unfolding yaml_text_def plain_yaml_def by (simp del: dec_node.simps)
qed

end
