(* ===== verification/Daemon_Config_Correct.thy ===== *)
theory Daemon_Config_Correct
  imports Daemon_Config Yaml_Instance
begin

section \<open>The daemon configuration is layered\<close>

text \<open>
  A reference definition of the configuration: each field is the first of its layers (command line, environment, file) that has a
  value, with the source it is from, and a derived value when it is still empty.
\<close>

fun pick :: "(daemon_config_source \<times> 'a option) list \<Rightarrow> daemon_config_source \<times> 'a \<Rightarrow> daemon_config_source \<times> 'a" where
  "pick [] d = d"
| "pick ((s, Some v) # ls) d = (s, v)"
| "pick ((s, None) # ls) d = pick ls d"

definition cli_layer :: "bool \<Rightarrow> 'a \<Rightarrow> daemon_config_source \<times> 'a option" where
  "cli_layer given v = (Src_command_line, if given then Some v else None)"

definition env_layer :: "(string \<Rightarrow> 'a option) \<Rightarrow> daemon_host \<Rightarrow> string \<Rightarrow> daemon_config_source \<times> 'a option" where
  "env_layer conv h name =
     (Src_environment, if daemon_environment h name = [] then None else conv (daemon_environment h name))"

definition file_value :: "(ynode \<Rightarrow> string + 'a) \<Rightarrow> ynode \<Rightarrow> string \<Rightarrow> 'a option" where
  "file_value conv root key = (case node_field root key of
       None \<Rightarrow> None
     | Some n \<Rightarrow> (case conv n of Inl _ \<Rightarrow> None | Inr v \<Rightarrow> Some v))"

definition file_layer :: "('a \<Rightarrow> 'a) \<Rightarrow> (ynode \<Rightarrow> string + 'a) \<Rightarrow> ynode \<Rightarrow> string \<Rightarrow> daemon_config_source \<times> 'a option" where
  "file_layer f conv root key = (Src_config_file, map_option f (file_value conv root key))"

definition or_derived :: "string \<Rightarrow> daemon_config_source \<times> string \<Rightarrow> daemon_config_source \<times> string" where
  "or_derived v sv = (if snd sv = [] then (Src_derived, v) else sv)"

record daemon_settings =
  ds_config_path :: "daemon_config_source \<times> string"
  ds_home_dir :: "daemon_config_source \<times> string"
  ds_lock_file :: "daemon_config_source \<times> string"
  ds_log_file :: "daemon_config_source \<times> string"
  ds_program_config_file :: "daemon_config_source \<times> string"
  ds_app_log_dir :: "daemon_config_source \<times> string"
  ds_app_environ_dir :: "daemon_config_source \<times> string"
  ds_log_level :: "daemon_config_source \<times> string"
  ds_log_max_size_kb :: "daemon_config_source \<times> int"
  ds_log_archive_count :: "daemon_config_source \<times> int"
  ds_socket_file :: "daemon_config_source \<times> string"
  ds_uds_abstract_namespace :: "daemon_config_source \<times> bool"
  ds_process_tree_mode :: "daemon_config_source \<times> string"
  ds_cgroup_root :: "daemon_config_source \<times> string"
  ds_allowed_uids :: "daemon_config_source \<times> 32 word list"
  ds_allowed_gids :: "daemon_config_source \<times> 32 word list"
  ds_pipe_name :: "daemon_config_source \<times> string"
  ds_pipe_sddl :: "daemon_config_source \<times> string"

text \<open>What a resolved configuration says.\<close>

definition settings_of :: "daemon_config \<Rightarrow> daemon_settings" where
  "settings_of c = \<lparr>
     ds_config_path = (source_of c ''config_path'', dc_config_path c),
     ds_home_dir = (source_of c ''home_dir'', dc_home_dir c),
     ds_lock_file = (source_of c ''lock_file'', dc_lock_file c),
     ds_log_file = (source_of c ''log_file'', dc_log_file c),
     ds_program_config_file = (source_of c ''program_config_file'', dc_program_config_file c),
     ds_app_log_dir = (source_of c ''app_log_dir'', dc_app_log_dir c),
     ds_app_environ_dir = (source_of c ''app_environ_dir'', dc_app_environ_dir c),
     ds_log_level = (source_of c ''log_level'', dc_log_level c),
     ds_log_max_size_kb = (source_of c ''log_max_size_kb'', dc_log_max_size_kb c),
     ds_log_archive_count = (source_of c ''log_archive_count'', dc_log_archive_count c),
     ds_socket_file = (source_of c ''socket_file'', dc_socket_file c),
     ds_uds_abstract_namespace = (source_of c ''uds_abstract_namespace'', dc_uds_abstract_namespace c),
     ds_process_tree_mode = (source_of c ''process_tree_mode'', dc_process_tree_mode c),
     ds_cgroup_root = (source_of c ''cgroup_root'', dc_cgroup_root c),
     ds_allowed_uids = (source_of c ''allowed_uids'', dc_allowed_uids c),
     ds_allowed_gids = (source_of c ''allowed_gids'', dc_allowed_gids c),
     ds_pipe_name = (source_of c ''pipe_name'', dc_pipe_name c),
     ds_pipe_sddl = (source_of c ''pipe_sddl'', dc_pipe_sddl c)\<rparr>"

text \<open>The mapping of the configuration file, empty when no file is loaded.\<close>

definition used_config_path :: "daemon_host \<Rightarrow> daemon_cli_options \<Rightarrow> daemon_platform \<Rightarrow> string" where
  "used_config_path h opts p = (if co_config_explicit opts then co_config_path opts else implicit_config_path h opts p)"

definition file_used :: "daemon_host \<Rightarrow> daemon_cli_options \<Rightarrow> daemon_platform \<Rightarrow> bool" where
  "file_used h opts p \<longleftrightarrow> co_config_explicit opts \<or> dh_access h (used_config_path h opts p)"

definition config_root :: "yaml_lib \<Rightarrow> daemon_host \<Rightarrow> daemon_cli_options \<Rightarrow> daemon_platform \<Rightarrow> ynode" where
  "config_root L h opts p =
     (if file_used h opts p then case_sum (\<lambda>_. Y_null) id (load_yaml_file L h (used_config_path h opts p)) else Y_null)"

text \<open>The layers of a path and of a text that the environment and the file can set.\<close>

definition path_layers :: "yaml_lib \<Rightarrow> daemon_host \<Rightarrow> daemon_cli_options \<Rightarrow> daemon_platform \<Rightarrow> string \<Rightarrow> string
    \<Rightarrow> (daemon_config_source \<times> string option) list" where
  "path_layers L h opts p name key = [env_layer Some h name,
     file_layer (resolve_relative (used_config_path h opts p) p) (as_string L) (config_root L h opts p) key]"

definition text_layers :: "yaml_lib \<Rightarrow> daemon_host \<Rightarrow> daemon_cli_options \<Rightarrow> daemon_platform \<Rightarrow> string \<Rightarrow> string
    \<Rightarrow> (daemon_config_source \<times> string option) list" where
  "text_layers L h opts p name key = [env_layer Some h name, file_layer id (as_string L) (config_root L h opts p) key]"

definition layered_home :: "yaml_lib \<Rightarrow> daemon_host \<Rightarrow> daemon_cli_options \<Rightarrow> daemon_platform \<Rightarrow> daemon_config_source \<times> string" where
  "layered_home L h opts p =
     apsnd (\<lambda>v. trim_trailing_separators p (if v = [] then default_home h p else v))
       (pick (cli_layer (co_home_explicit opts) (co_home_dir opts) # path_layers L h opts p ''PM_TINY_HOME'' ''pm_tiny_home_dir'')
          (Src_default, ''''))"

definition file_abstract :: "yaml_lib \<Rightarrow> daemon_host \<Rightarrow> daemon_cli_options \<Rightarrow> bool" where
  "file_abstract L h opts = snd (pick [file_layer id (as_bool L) (config_root L h opts Posix) ''pm_tiny_uds_abstract_namespace'']
     (Src_default, dh_abstract_default h))"

definition layered_abstract :: "yaml_lib \<Rightarrow> daemon_host \<Rightarrow> daemon_cli_options \<Rightarrow> daemon_config_source \<times> bool" where
  "layered_abstract L h opts = pick [env_layer parse_bool_text h ''PM_TINY_UDS_ABSTRACT_NAMESPACE'',
     file_layer id (as_bool L) (config_root L h opts Posix) ''pm_tiny_uds_abstract_namespace''] (Src_default, dh_abstract_default h)"

definition in_home :: "yaml_lib \<Rightarrow> daemon_host \<Rightarrow> daemon_cli_options \<Rightarrow> daemon_platform \<Rightarrow> string \<Rightarrow> string" where
  "in_home L h opts p name = join_path (snd (layered_home L h opts p)) name p"

definition layered_socket :: "yaml_lib \<Rightarrow> daemon_host \<Rightarrow> daemon_cli_options \<Rightarrow> daemon_config_source \<times> string" where
  "layered_socket L h opts =
     or_derived (if snd (layered_abstract L h opts) then ''pm_tinyd'' else in_home L h opts Posix ''pm_tinyd.sock'')
       (pick [env_layer Some h ''PM_TINY_SOCK_FILE'',
          file_layer (if file_abstract L h opts then id else resolve_relative (used_config_path h opts Posix) Posix)
            (as_string L) (config_root L h opts Posix) ''pm_tiny_sock_file''] (Src_default, ''''))"

text \<open>The settings: those of both platforms, and those of each.\<close>

definition layered_settings :: "yaml_lib \<Rightarrow> daemon_host \<Rightarrow> daemon_cli_options \<Rightarrow> daemon_platform \<Rightarrow> daemon_settings" where
  "layered_settings L h opts p = \<lparr>
     ds_config_path = (if co_config_explicit opts then Src_command_line else Src_default, used_config_path h opts p),
     ds_home_dir = layered_home L h opts p,
     ds_lock_file = (Src_derived, in_home L h opts p ''pm_tiny.pid''),
     ds_log_file = or_derived (in_home L h opts p ''pm_tiny.log'')
       (pick (path_layers L h opts p ''PM_TINY_LOG_FILE'' ''pm_tiny_log_file'') (Src_default, '''')),
     ds_program_config_file = or_derived (in_home L h opts p ''prog.yaml'')
       (pick (path_layers L h opts p ''PM_TINY_PROG_CFG_FILE'' ''pm_tiny_prog_cfg_file'') (Src_default, '''')),
     ds_app_log_dir = or_derived (in_home L h opts p ''logs'') (apsnd (trim_trailing_separators p)
       (pick (path_layers L h opts p ''PM_TINY_APP_LOG_DIR'' ''pm_tiny_app_log_dir'') (Src_default, ''''))),
     ds_app_environ_dir = or_derived (in_home L h opts p ''environ'') (apsnd (trim_trailing_separators p)
       (pick (path_layers L h opts p ''PM_TINY_APP_ENVIRON_DIR'' ''pm_tiny_app_environ_dir'') (Src_default, ''''))),
     ds_log_level = pick (cli_layer (co_log_level_explicit opts) (co_log_level opts) #
       text_layers L h opts p ''PM_TINY_LOG_LEVEL'' ''pm_tiny_log_level'') (Src_default, ''info''),
     ds_log_max_size_kb = pick [cli_layer (co_log_max_size_explicit opts) (co_log_max_size_kb opts),
       env_layer (\<lambda>v. parse_long v 1 1048576) h ''PM_TINY_LOG_MAX_SIZE_KB'',
       file_layer id (as_int L) (config_root L h opts p) ''pm_tiny_log_max_size_kb''] (Src_default, 4096),
     ds_log_archive_count = pick [cli_layer (co_log_archive_count_explicit opts) (co_log_archive_count opts),
       env_layer (\<lambda>v. parse_long v 0 100) h ''PM_TINY_LOG_ARCHIVE_COUNT'',
       file_layer id (as_int L) (config_root L h opts p) ''pm_tiny_log_archive_count''] (Src_default, 3),
     ds_socket_file = (if p = Posix then layered_socket L h opts else (Src_default, '''')),
     ds_uds_abstract_namespace = (if p = Posix then layered_abstract L h opts else (Src_default, False)),
     ds_process_tree_mode = (if p = Posix
       then pick (text_layers L h opts p ''PM_TINY_PROCESS_TREE_MODE'' ''pm_tiny_process_tree_mode'') (Src_default, ''auto'')
       else (Src_default, ''auto'')),
     ds_cgroup_root = (if p = Posix
       then pick (text_layers L h opts p ''PM_TINY_CGROUP_ROOT'' ''pm_tiny_cgroup_root'') (Src_default, '''') else (Src_default, '''')),
     ds_allowed_uids = (if p = Posix
       then pick [file_layer id (as_uint_vector L) (config_root L h opts p) ''pm_tiny_allowed_uids''] (Src_default, [])
       else (Src_default, [])),
     ds_allowed_gids = (if p = Posix
       then pick [file_layer id (as_uint_vector L) (config_root L h opts p) ''pm_tiny_allowed_gids''] (Src_default, [])
       else (Src_default, [])),
     ds_pipe_name = (if p = Windows
       then pick (cli_layer (co_pipe_name opts \<noteq> []) (co_pipe_name opts) #
         text_layers L h opts p ''PM_TINY_PIPE_NAME'' ''pm_tiny_pipe_name'') (Src_default, dc_pipe_name default_daemon_config)
       else (Src_default, dc_pipe_name default_daemon_config)),
     ds_pipe_sddl = (if p = Windows
       then pick (cli_layer (co_pipe_sddl opts \<noteq> []) (co_pipe_sddl opts) #
         text_layers L h opts p ''PM_TINY_PIPE_SDDL'' ''pm_tiny_pipe_sddl'') (Src_default, windows_default_pipe_sddl)
       else (Src_default, windows_default_pipe_sddl))\<rparr>"

subsection \<open>The stages as record updates\<close>

definition or_current :: "'a option \<Rightarrow> 'a \<Rightarrow> 'a" where
  "or_current new cur = (case new of Some v \<Rightarrow> v | None \<Rightarrow> cur)"

lemma or_current_simps [simp]: "or_current None cur = cur" "or_current (Some v) cur = v"
  by (simp_all add: or_current_def)

definition mark_if :: "bool \<Rightarrow> string \<Rightarrow> daemon_config_source \<Rightarrow> (string \<rightharpoonup> daemon_config_source) \<Rightarrow> string \<rightharpoonup> daemon_config_source" where
  "mark_if b f src m = (if b then m(f \<mapsto> src) else m)"

lemma mark_if_apply: "mark_if b f src m g = (if b \<and> g = f then Some src else m g)"
  by (simp add: mark_if_def)

lemma read_value_Inr:
  "read_value conv root key cur = Inr v \<longleftrightarrow>
     v = or_current (file_value conv root key) cur \<and> (node_field root key \<noteq> None \<longrightarrow> file_value conv root key \<noteq> None)"
  by (auto simp: read_value_def file_value_def split: option.splits sum.splits)

lemma mark_file_sources_eq:
  "mark_file_sources root es c = c\<lparr>dc_sources := (\<lambda>f. if \<exists>k. (k, f) \<in> set es \<and> node_field root k \<noteq> None
     then Some Src_config_file else dc_sources c f)\<rparr>"
proof (induction es arbitrary: c)
  case Nil
  then show ?case by (simp add: mark_file_sources_def)
next
  case (Cons e es)
  have "mark_file_sources root (e # es) c = mark_file_sources root es
      (if node_field root (fst e) = None then c else set_source (snd e) Src_config_file c)"
    by (simp add: mark_file_sources_def split_beta)
  also have "\<dots> = c\<lparr>dc_sources := (\<lambda>f. if \<exists>k. (k, f) \<in> set (e # es) \<and> node_field root k \<noteq> None
     then Some Src_config_file else dc_sources c f)\<rparr>"
    unfolding Cons.IH
    by (rule daemon_config.equality) (cases e; auto simp: set_source_def fun_eq_iff)+
  finally show ?case .
qed

definition env_of :: "(string \<Rightarrow> 'a option) \<Rightarrow> daemon_host \<Rightarrow> string \<Rightarrow> 'a option" where
  "env_of conv h name = snd (env_layer conv h name)"

lemma override_string_eq:
  "override_string h n f (\<lambda>v c. c\<lparr>dc_home_dir := v\<rparr>) c =
     c\<lparr>dc_home_dir := or_current (env_of Some h n) (dc_home_dir c),
       dc_sources := mark_if (env_of Some h n \<noteq> None) f Src_environment (dc_sources c)\<rparr>"
  "override_string h n f (\<lambda>v c. c\<lparr>dc_log_file := v\<rparr>) c =
     c\<lparr>dc_log_file := or_current (env_of Some h n) (dc_log_file c),
       dc_sources := mark_if (env_of Some h n \<noteq> None) f Src_environment (dc_sources c)\<rparr>"
  "override_string h n f (\<lambda>v c. c\<lparr>dc_program_config_file := v\<rparr>) c =
     c\<lparr>dc_program_config_file := or_current (env_of Some h n) (dc_program_config_file c),
       dc_sources := mark_if (env_of Some h n \<noteq> None) f Src_environment (dc_sources c)\<rparr>"
  "override_string h n f (\<lambda>v c. c\<lparr>dc_app_log_dir := v\<rparr>) c =
     c\<lparr>dc_app_log_dir := or_current (env_of Some h n) (dc_app_log_dir c),
       dc_sources := mark_if (env_of Some h n \<noteq> None) f Src_environment (dc_sources c)\<rparr>"
  "override_string h n f (\<lambda>v c. c\<lparr>dc_app_environ_dir := v\<rparr>) c =
     c\<lparr>dc_app_environ_dir := or_current (env_of Some h n) (dc_app_environ_dir c),
       dc_sources := mark_if (env_of Some h n \<noteq> None) f Src_environment (dc_sources c)\<rparr>"
  "override_string h n f (\<lambda>v c. c\<lparr>dc_socket_file := v\<rparr>) c =
     c\<lparr>dc_socket_file := or_current (env_of Some h n) (dc_socket_file c),
       dc_sources := mark_if (env_of Some h n \<noteq> None) f Src_environment (dc_sources c)\<rparr>"
  "override_string h n f (\<lambda>v c. c\<lparr>dc_process_tree_mode := v\<rparr>) c =
     c\<lparr>dc_process_tree_mode := or_current (env_of Some h n) (dc_process_tree_mode c),
       dc_sources := mark_if (env_of Some h n \<noteq> None) f Src_environment (dc_sources c)\<rparr>"
  "override_string h n f (\<lambda>v c. c\<lparr>dc_cgroup_root := v\<rparr>) c =
     c\<lparr>dc_cgroup_root := or_current (env_of Some h n) (dc_cgroup_root c),
       dc_sources := mark_if (env_of Some h n \<noteq> None) f Src_environment (dc_sources c)\<rparr>"
  "override_string h n f (\<lambda>v c. c\<lparr>dc_pipe_name := v\<rparr>) c =
     c\<lparr>dc_pipe_name := or_current (env_of Some h n) (dc_pipe_name c),
       dc_sources := mark_if (env_of Some h n \<noteq> None) f Src_environment (dc_sources c)\<rparr>"
  "override_string h n f (\<lambda>v c. c\<lparr>dc_pipe_sddl := v\<rparr>) c =
     c\<lparr>dc_pipe_sddl := or_current (env_of Some h n) (dc_pipe_sddl c),
       dc_sources := mark_if (env_of Some h n \<noteq> None) f Src_environment (dc_sources c)\<rparr>"
  by (cases c, simp add: override_string_def env_of_def env_layer_def mark_if_def set_source_def)+

lemma override_log_level_Inr:
  "override_log_level h c = Inr c' \<Longrightarrow>
     c' = c\<lparr>dc_log_level := or_current (env_of Some h ''PM_TINY_LOG_LEVEL'') (dc_log_level c),
       dc_sources := mark_if (env_of Some h ''PM_TINY_LOG_LEVEL'' \<noteq> None) ''log_level'' Src_environment (dc_sources c)\<rparr> \<and>
     (valid_log_level (dc_log_level c) \<longrightarrow> valid_log_level (dc_log_level c'))"
  by (cases c) (auto simp: override_log_level_def env_of_def env_layer_def mark_if_def set_source_def Let_def split: if_splits)

lemma override_number_Inr:
  "override_number h n f lo hi m (\<lambda>v c. c\<lparr>dc_log_max_size_kb := v\<rparr>) c = Inr c' \<Longrightarrow>
     c' = c\<lparr>dc_log_max_size_kb := or_current (env_of (\<lambda>v. parse_long v lo hi) h n) (dc_log_max_size_kb c),
       dc_sources := mark_if (env_of (\<lambda>v. parse_long v lo hi) h n \<noteq> None) f Src_environment (dc_sources c)\<rparr> \<and>
     (lo \<le> dc_log_max_size_kb c \<and> dc_log_max_size_kb c \<le> hi \<longrightarrow> lo \<le> dc_log_max_size_kb c' \<and> dc_log_max_size_kb c' \<le> hi)"
  "override_number h n f lo hi m (\<lambda>v c. c\<lparr>dc_log_archive_count := v\<rparr>) c = Inr c' \<Longrightarrow>
     c' = c\<lparr>dc_log_archive_count := or_current (env_of (\<lambda>v. parse_long v lo hi) h n) (dc_log_archive_count c),
       dc_sources := mark_if (env_of (\<lambda>v. parse_long v lo hi) h n \<noteq> None) f Src_environment (dc_sources c)\<rparr> \<and>
     (lo \<le> dc_log_archive_count c \<and> dc_log_archive_count c \<le> hi \<longrightarrow>
       lo \<le> dc_log_archive_count c' \<and> dc_log_archive_count c' \<le> hi)"
  by (cases c, force simp: override_number_def env_of_def env_layer_def mark_if_def set_source_def Let_def parse_long_def
      split: if_splits option.splits)+

lemma override_abstract_Inr:
  "override_abstract h c = Inr c' \<Longrightarrow>
     c' = c\<lparr>dc_uds_abstract_namespace := or_current (env_of parse_bool_text h ''PM_TINY_UDS_ABSTRACT_NAMESPACE'')
         (dc_uds_abstract_namespace c),
       dc_sources := mark_if (env_of parse_bool_text h ''PM_TINY_UDS_ABSTRACT_NAMESPACE'' \<noteq> None)
         ''uds_abstract_namespace'' Src_environment (dc_sources c)\<rparr>"
  by (cases c) (auto simp: override_abstract_def env_of_def env_layer_def mark_if_def set_source_def Let_def
      split: if_splits option.splits)

lemma apply_options_eq:
  "apply_options opts p c = c\<lparr>
     dc_home_dir := (if co_home_explicit opts then co_home_dir opts else dc_home_dir c),
     dc_log_level := (if co_log_level_explicit opts then co_log_level opts else dc_log_level c),
     dc_log_max_size_kb := (if co_log_max_size_explicit opts then co_log_max_size_kb opts else dc_log_max_size_kb c),
     dc_log_archive_count := (if co_log_archive_count_explicit opts then co_log_archive_count opts else dc_log_archive_count c),
     dc_pipe_name := (if p = Windows \<and> co_pipe_name opts \<noteq> [] then co_pipe_name opts else dc_pipe_name c),
     dc_pipe_sddl := (if p = Windows \<and> co_pipe_sddl opts \<noteq> [] then co_pipe_sddl opts else dc_pipe_sddl c),
     dc_sources := mark_if (p = Windows \<and> co_pipe_sddl opts \<noteq> []) ''pipe_sddl'' Src_command_line
       (mark_if (p = Windows \<and> co_pipe_name opts \<noteq> []) ''pipe_name'' Src_command_line
       (mark_if (co_log_archive_count_explicit opts) ''log_archive_count'' Src_command_line
       (mark_if (co_log_max_size_explicit opts) ''log_max_size_kb'' Src_command_line
       (mark_if (co_log_level_explicit opts) ''log_level'' Src_command_line
       (mark_if (co_home_explicit opts) ''home_dir'' Src_command_line (dc_sources c))))))\<rparr>"
  by (cases c) (simp add: apply_options_def set_source_def mark_if_def Let_def)

lemma derive_path_eq:
  "derive_path f dc_log_file (\<lambda>v c. c\<lparr>dc_log_file := v\<rparr>) v c =
     c\<lparr>dc_log_file := (if dc_log_file c = [] then v else dc_log_file c),
       dc_sources := mark_if (dc_log_file c = []) f Src_derived (dc_sources c)\<rparr>"
  "derive_path f dc_program_config_file (\<lambda>v c. c\<lparr>dc_program_config_file := v\<rparr>) v c =
     c\<lparr>dc_program_config_file := (if dc_program_config_file c = [] then v else dc_program_config_file c),
       dc_sources := mark_if (dc_program_config_file c = []) f Src_derived (dc_sources c)\<rparr>"
  "derive_path f dc_app_log_dir (\<lambda>v c. c\<lparr>dc_app_log_dir := v\<rparr>) v c =
     c\<lparr>dc_app_log_dir := (if dc_app_log_dir c = [] then v else dc_app_log_dir c),
       dc_sources := mark_if (dc_app_log_dir c = []) f Src_derived (dc_sources c)\<rparr>"
  "derive_path f dc_app_environ_dir (\<lambda>v c. c\<lparr>dc_app_environ_dir := v\<rparr>) v c =
     c\<lparr>dc_app_environ_dir := (if dc_app_environ_dir c = [] then v else dc_app_environ_dir c),
       dc_sources := mark_if (dc_app_environ_dir c = []) f Src_derived (dc_sources c)\<rparr>"
  "derive_path f dc_socket_file (\<lambda>v c. c\<lparr>dc_socket_file := v\<rparr>) v c =
     c\<lparr>dc_socket_file := (if dc_socket_file c = [] then v else dc_socket_file c),
       dc_sources := mark_if (dc_socket_file c = []) f Src_derived (dc_sources c)\<rparr>"
  by (cases c, simp add: derive_path_def mark_if_def set_source_def)+

definition default_sources :: "string \<rightharpoonup> daemon_config_source" where
  "default_sources f = (if f \<in> set all_fields then Some Src_default else None)"

lemma initial_config_eq:
  "initial_config h opts p = default_daemon_config\<lparr>dc_config_path := used_config_path h opts p,
     dc_uds_abstract_namespace := (dh_abstract_default h \<and> p = Posix),
     dc_sources := mark_if (co_config_explicit opts) ''config_path'' Src_command_line default_sources\<rparr>"
proof -
  have *: "fold (\<lambda>f. set_source f Src_default) fs c =
      c\<lparr>dc_sources := (\<lambda>f. if f \<in> set fs then Some Src_default else dc_sources c f)\<rparr>" for fs c
    by (induction fs arbitrary: c) (auto simp: set_source_def fun_eq_iff intro!: daemon_config.equality)
  show ?thesis
    by (simp add: initial_config_def * default_daemon_config_def default_sources_def set_source_def mark_if_def
        used_config_path_def fun_eq_iff Let_def)
qed

text \<open>The fields after the file has been read; keys of the other platform are refused.\<close>

lemma file_value_present: "file_value conv root key \<noteq> None \<Longrightarrow> node_field root key \<noteq> None"
  by (auto simp: file_value_def split: option.splits)

lemma check_keys_platform:
  "check_keys p keys = Inr u \<Longrightarrow> k \<in> set keys \<Longrightarrow>
     (p = Windows \<longrightarrow> k \<notin> set posix_keys) \<and> (p = Posix \<longrightarrow> k \<notin> set windows_keys)"
proof (induction keys)
  case (Cons key keys)
  have "k \<in> set common_keys \<Longrightarrow> k \<notin> set posix_keys \<and> k \<notin> set windows_keys"
    "k \<in> set posix_keys \<Longrightarrow> k \<notin> set windows_keys" for k
    by (auto simp: common_keys_def posix_keys_def windows_keys_def)
  with Cons show ?case by (auto split: if_splits)
qed simp

lemma validate_keys_platform:
  assumes "validate_keys root p = Inr u"
    and "p = Windows \<and> k \<in> set posix_keys \<or> p = Posix \<and> k \<in> set windows_keys"
  shows "node_field root k = None"
proof (cases root)
  case (Y_map kvs)
  then have "k \<notin> set (map fst kvs)"
    using check_keys_platform [of p "map fst kvs" u k] assms by (auto simp: validate_keys_def)
  with Y_map show ?thesis by (simp add: node_field_def map_of_eq_None_iff)
qed (simp_all add: node_field_def)

text \<open>The state after the file, for any of its fields.\<close>

definition file_mark :: "'a option \<Rightarrow> daemon_config_source option" where
  "file_mark v = (if v = None then Some Src_default else Some Src_config_file)"

definition after_file :: "yaml_lib \<Rightarrow> ynode \<Rightarrow> string \<Rightarrow> daemon_platform \<Rightarrow> daemon_config \<Rightarrow> daemon_config \<Rightarrow> bool" where
  "after_file L root path p c0 c \<longleftrightarrow>
     (let fpath = (\<lambda>k. file_value (as_string L) root k); rel = (\<lambda>k cur. resolve_relative path p (or_current (fpath k) cur));
          src = dc_sources c in
      dc_config_path c = dc_config_path c0 \<and> src ''config_path'' = dc_sources c0 ''config_path'' \<and>
      dc_home_dir c = rel ''pm_tiny_home_dir'' '''' \<and> src ''home_dir'' = file_mark (fpath ''pm_tiny_home_dir'') \<and>
      dc_log_file c = rel ''pm_tiny_log_file'' '''' \<and> src ''log_file'' = file_mark (fpath ''pm_tiny_log_file'') \<and>
      dc_program_config_file c = rel ''pm_tiny_prog_cfg_file'' '''' \<and>
        src ''program_config_file'' = file_mark (fpath ''pm_tiny_prog_cfg_file'') \<and>
      dc_app_log_dir c = rel ''pm_tiny_app_log_dir'' '''' \<and> src ''app_log_dir'' = file_mark (fpath ''pm_tiny_app_log_dir'') \<and>
      dc_app_environ_dir c = rel ''pm_tiny_app_environ_dir'' '''' \<and>
        src ''app_environ_dir'' = file_mark (fpath ''pm_tiny_app_environ_dir'') \<and>
      dc_log_level c = or_current (fpath ''pm_tiny_log_level'') ''info'' \<and>
        src ''log_level'' = file_mark (fpath ''pm_tiny_log_level'') \<and>
      dc_log_max_size_kb c = or_current (file_value (as_int L) root ''pm_tiny_log_max_size_kb'') 4096 \<and>
        src ''log_max_size_kb'' = file_mark (file_value (as_int L) root ''pm_tiny_log_max_size_kb'') \<and>
      dc_log_archive_count c = or_current (file_value (as_int L) root ''pm_tiny_log_archive_count'') 3 \<and>
        src ''log_archive_count'' = file_mark (file_value (as_int L) root ''pm_tiny_log_archive_count''))"

definition after_file_posix :: "yaml_lib \<Rightarrow> ynode \<Rightarrow> string \<Rightarrow> bool \<Rightarrow> daemon_config \<Rightarrow> bool" where
  "after_file_posix L root path abstract c \<longleftrightarrow>
     (let text_of = (\<lambda>k. file_value (as_string L) root k); src = dc_sources c;
          fabs = file_value (as_bool L) root ''pm_tiny_uds_abstract_namespace'' in
      dc_uds_abstract_namespace c = or_current fabs abstract \<and> src ''uds_abstract_namespace'' = file_mark fabs \<and>
      dc_socket_file c = (if or_current fabs abstract then id else resolve_relative path Posix)
         (or_current (text_of ''pm_tiny_sock_file'') '''') \<and>
        src ''socket_file'' = file_mark (text_of ''pm_tiny_sock_file'') \<and>
      dc_process_tree_mode c = or_current (text_of ''pm_tiny_process_tree_mode'') ''auto'' \<and>
        src ''process_tree_mode'' = file_mark (text_of ''pm_tiny_process_tree_mode'') \<and>
      dc_cgroup_root c = or_current (text_of ''pm_tiny_cgroup_root'') '''' \<and>
        src ''cgroup_root'' = file_mark (text_of ''pm_tiny_cgroup_root'') \<and>
      dc_allowed_uids c = or_current (file_value (as_uint_vector L) root ''pm_tiny_allowed_uids'') [] \<and>
        src ''allowed_uids'' = file_mark (file_value (as_uint_vector L) root ''pm_tiny_allowed_uids'') \<and>
      dc_allowed_gids c = or_current (file_value (as_uint_vector L) root ''pm_tiny_allowed_gids'') [] \<and>
        src ''allowed_gids'' = file_mark (file_value (as_uint_vector L) root ''pm_tiny_allowed_gids'') \<and>
      dc_pipe_name c = dc_pipe_name default_daemon_config \<and> src ''pipe_name'' = Some Src_default \<and>
      dc_pipe_sddl c = dc_pipe_sddl default_daemon_config \<and> src ''pipe_sddl'' = Some Src_default)"

definition after_file_windows :: "yaml_lib \<Rightarrow> ynode \<Rightarrow> daemon_config \<Rightarrow> bool" where
  "after_file_windows L root c \<longleftrightarrow>
     (let text_of = (\<lambda>k. file_value (as_string L) root k); src = dc_sources c in
      dc_pipe_name c = or_current (text_of ''pm_tiny_pipe_name'') (dc_pipe_name default_daemon_config) \<and>
        src ''pipe_name'' = file_mark (text_of ''pm_tiny_pipe_name'') \<and>
      dc_pipe_sddl c = or_current (text_of ''pm_tiny_pipe_sddl'') (dc_pipe_sddl default_daemon_config) \<and>
        src ''pipe_sddl'' = file_mark (text_of ''pm_tiny_pipe_sddl'') \<and>
      \<not> dc_uds_abstract_namespace c \<and> dc_socket_file c = '''' \<and> dc_process_tree_mode c = ''auto'' \<and> dc_cgroup_root c = '''' \<and>
      dc_allowed_uids c = [] \<and> dc_allowed_gids c = [] \<and>
      (\<forall>f \<in> set [''uds_abstract_namespace'', ''socket_file'', ''process_tree_mode'', ''cgroup_root'', ''allowed_uids'', ''allowed_gids''].
         src f = Some Src_default))"

lemma read_value_mark:
  "read_value conv root key cur = Inr v \<Longrightarrow>
     v = or_current (file_value conv root key) cur \<and> (node_field root key = None \<longleftrightarrow> file_value conv root key = None)"
  using file_value_present [of conv root key] by (auto simp: read_value_Inr)

definition readable :: "(ynode \<Rightarrow> string + 'a) \<Rightarrow> ynode \<Rightarrow> string \<Rightarrow> bool" where
  "readable conv root key \<longleftrightarrow> (node_field root key = None \<longleftrightarrow> file_value conv root key = None)"

lemma read_common_Inr:
  assumes "read_common L root c = Inr c'"
  shows "c' = c\<lparr>dc_home_dir := or_current (file_value (as_string L) root ''pm_tiny_home_dir'') (dc_home_dir c),
      dc_log_file := or_current (file_value (as_string L) root ''pm_tiny_log_file'') (dc_log_file c),
      dc_program_config_file := or_current (file_value (as_string L) root ''pm_tiny_prog_cfg_file'') (dc_program_config_file c),
      dc_app_log_dir := or_current (file_value (as_string L) root ''pm_tiny_app_log_dir'') (dc_app_log_dir c),
      dc_app_environ_dir := or_current (file_value (as_string L) root ''pm_tiny_app_environ_dir'') (dc_app_environ_dir c),
      dc_log_level := or_current (file_value (as_string L) root ''pm_tiny_log_level'') (dc_log_level c),
      dc_log_max_size_kb := or_current (file_value (as_int L) root ''pm_tiny_log_max_size_kb'') (dc_log_max_size_kb c),
      dc_log_archive_count := or_current (file_value (as_int L) root ''pm_tiny_log_archive_count'') (dc_log_archive_count c)\<rparr>"
    and "list_all (readable (as_string L) root) [''pm_tiny_home_dir'', ''pm_tiny_log_file'', ''pm_tiny_prog_cfg_file'',
      ''pm_tiny_app_log_dir'', ''pm_tiny_app_environ_dir'', ''pm_tiny_log_level'']"
    and "list_all (readable (as_int L) root) [''pm_tiny_log_max_size_kb'', ''pm_tiny_log_archive_count'']"
  using assms unfolding read_common_def
  by (simp_all only: res_bind_eq_Inr)
     (elim exE conjE; (drule read_value_mark)+; elim conjE; simp add: readable_def)+

lemma read_platform_Inr:
  assumes "read_platform L root p c = Inr c'"
  shows "p = Posix \<Longrightarrow> c' = c\<lparr>dc_socket_file := or_current (file_value (as_string L) root ''pm_tiny_sock_file'') (dc_socket_file c),
      dc_uds_abstract_namespace := or_current (file_value (as_bool L) root ''pm_tiny_uds_abstract_namespace'')
        (dc_uds_abstract_namespace c),
      dc_process_tree_mode := or_current (file_value (as_string L) root ''pm_tiny_process_tree_mode'') (dc_process_tree_mode c),
      dc_cgroup_root := or_current (file_value (as_string L) root ''pm_tiny_cgroup_root'') (dc_cgroup_root c),
      dc_allowed_uids := or_current (file_value (as_uint_vector L) root ''pm_tiny_allowed_uids'') (dc_allowed_uids c),
      dc_allowed_gids := or_current (file_value (as_uint_vector L) root ''pm_tiny_allowed_gids'') (dc_allowed_gids c)\<rparr>"
    and "p = Posix \<Longrightarrow> list_all (readable (as_string L) root) [''pm_tiny_sock_file'', ''pm_tiny_process_tree_mode'', ''pm_tiny_cgroup_root'']"
    and "p = Posix \<Longrightarrow> readable (as_bool L) root ''pm_tiny_uds_abstract_namespace''"
    and "p = Posix \<Longrightarrow> list_all (readable (as_uint_vector L) root) [''pm_tiny_allowed_uids'', ''pm_tiny_allowed_gids'']"
    and "p = Windows \<Longrightarrow> c' = c\<lparr>dc_pipe_name := or_current (file_value (as_string L) root ''pm_tiny_pipe_name'') (dc_pipe_name c),
      dc_pipe_sddl := or_current (file_value (as_string L) root ''pm_tiny_pipe_sddl'') (dc_pipe_sddl c)\<rparr>"
    and "p = Windows \<Longrightarrow> list_all (readable (as_string L) root) [''pm_tiny_pipe_name'', ''pm_tiny_pipe_sddl'']"
  using assms unfolding read_platform_def
  by (simp_all add: res_bind_eq_Inr)
     (elim exE conjE; (drule read_value_mark)+; elim conjE; simp add: readable_def)+

text \<open>Which key of the file sets a field.\<close>

definition field_key :: "string \<Rightarrow> string set" where
  "field_key f = {k. (k, f) \<in> set common_sources \<or> (k, f) \<in> set platform_sources}"

lemma field_key_simps:
  "field_key ''config_path'' = {}" "field_key ''home_dir'' = {''pm_tiny_home_dir''}" "field_key ''log_file'' = {''pm_tiny_log_file''}"
  "field_key ''program_config_file'' = {''pm_tiny_prog_cfg_file''}" "field_key ''app_log_dir'' = {''pm_tiny_app_log_dir''}"
  "field_key ''app_environ_dir'' = {''pm_tiny_app_environ_dir''}" "field_key ''log_level'' = {''pm_tiny_log_level''}"
  "field_key ''log_max_size_kb'' = {''pm_tiny_log_max_size_kb''}"
  "field_key ''log_archive_count'' = {''pm_tiny_log_archive_count''}" "field_key ''socket_file'' = {''pm_tiny_sock_file''}"
  "field_key ''uds_abstract_namespace'' = {''pm_tiny_uds_abstract_namespace''}"
  "field_key ''process_tree_mode'' = {''pm_tiny_process_tree_mode''}" "field_key ''cgroup_root'' = {''pm_tiny_cgroup_root''}"
  "field_key ''allowed_uids'' = {''pm_tiny_allowed_uids''}" "field_key ''allowed_gids'' = {''pm_tiny_allowed_gids''}"
  "field_key ''pipe_name'' = {''pm_tiny_pipe_name''}" "field_key ''pipe_sddl'' = {''pm_tiny_pipe_sddl''}"
  "field_key ''lock_file'' = {}"
  by (simp_all add: field_key_def common_sources_def platform_sources_def)

definition file_sources :: "ynode \<Rightarrow> (string \<rightharpoonup> daemon_config_source) \<Rightarrow> string \<rightharpoonup> daemon_config_source" where
  "file_sources root m f = (if \<exists>k \<in> field_key f. node_field root k \<noteq> None then Some Src_config_file else m f)"

lemma mark_sources_eq:
  "mark_file_sources root platform_sources (mark_file_sources root common_sources c) =
     c\<lparr>dc_sources := file_sources root (dc_sources c)\<rparr>"
  by (rule daemon_config.equality) (auto simp: mark_file_sources_eq fun_eq_iff file_sources_def field_key_def)

lemma file_sources_at:
  "field_key f = {k} \<Longrightarrow> readable conv root k \<Longrightarrow> m f = Some Src_default \<Longrightarrow>
     file_sources root m f = file_mark (file_value conv root k)"
  by (auto simp: file_sources_def readable_def file_mark_def)

lemma file_sources_none: "field_key f = {} \<Longrightarrow> file_sources root m f = m f"
  by (simp add: file_sources_def)

lemma file_sources_absent: "field_key f = {k} \<Longrightarrow> node_field root k = None \<Longrightarrow> file_sources root m f = m f"
  by (simp add: file_sources_def)

lemma default_sources_at: "f \<in> set all_fields \<Longrightarrow> default_sources f = Some Src_default"
  by (simp add: default_sources_def)

lemma load_file_common:
  assumes "load_file_config L h path p (initial_config h opts p) = Inr c" "load_yaml_file L h path = Inr root"
  shows "after_file L root path p (initial_config h opts p) c"
    and "p = Posix \<Longrightarrow> after_file_posix L root path (dh_abstract_default h) c"
    and "p = Windows \<Longrightarrow> after_file_windows L root c"
proof -
  from assms obtain c1 c2 u where v: "validate_keys root p = Inr u" and c1: "read_common L root (initial_config h opts p) = Inr c1"
    and c2: "read_platform L root p c1 = Inr c2"
    and c: "c = (resolve_paths path p (mark_file_sources root platform_sources (mark_file_sources root common_sources c2)))
       \<lparr>dc_config_loaded := True\<rparr>"
    by (auto simp: load_file_config_def res_bind_eq_Inr split: if_splits)
  note src = file_sources_at file_sources_none default_sources_at field_key_simps mark_if_apply all_fields_def
  show "after_file L root path p (initial_config h opts p) c"
    using read_common_Inr [OF c1] read_platform_Inr [OF c2]
    by (cases p) (simp_all add: c after_file_def Let_def resolve_paths_def mark_sources_eq initial_config_eq src default_daemon_config_def)
  show "after_file_posix L root path (dh_abstract_default h) c" if "p = Posix"
  proof -
    have "node_field root k = None" if "k \<in> set windows_keys" for k
      using validate_keys_platform [OF v] that \<open>p = Posix\<close> by simp
    then have "node_field root ''pm_tiny_pipe_name'' = None" "node_field root ''pm_tiny_pipe_sddl'' = None"
      by (simp_all add: windows_keys_def)
    with read_common_Inr(1) [OF c1] read_platform_Inr(1-4) [OF c2 that] that show ?thesis
      by (simp add: c after_file_posix_def Let_def resolve_paths_def mark_sources_eq initial_config_eq src
          file_sources_absent default_daemon_config_def)
  qed
  show "after_file_windows L root c" if "p = Windows"
  proof -
    have "node_field root k = None" if "k \<in> set posix_keys" for k
      using validate_keys_platform [OF v] that \<open>p = Windows\<close> by simp
    then have "node_field root ''pm_tiny_sock_file'' = None" "node_field root ''pm_tiny_uds_abstract_namespace'' = None"
      "node_field root ''pm_tiny_allowed_uids'' = None" "node_field root ''pm_tiny_allowed_gids'' = None"
      "node_field root ''pm_tiny_process_tree_mode'' = None" "node_field root ''pm_tiny_cgroup_root'' = None"
      by (simp_all add: posix_keys_def)
    with read_common_Inr(1) [OF c1] read_platform_Inr(5,6) [OF c2 that] that show ?thesis
      by (simp add: c after_file_windows_def Let_def resolve_paths_def mark_sources_eq initial_config_eq src
          file_sources_absent default_daemon_config_def)
  qed
qed

text \<open>The same without a file.\<close>

lemma resolve_relative_Nil [simp]: "resolve_relative path p [] = []"
  by (simp add: resolve_relative_def)

lemma no_file_common:
  "after_file L Y_null path p (initial_config h opts p) (initial_config h opts p)"
  "after_file_posix L Y_null path (dh_abstract_default h) (initial_config h opts Posix)"
  "after_file_windows L Y_null (initial_config h opts Windows)"
  by (simp_all add: after_file_def after_file_posix_def after_file_windows_def Let_def initial_config_eq file_value_def
      node_field_def file_mark_def default_daemon_config_def mark_if_apply default_sources_at all_fields_def)

lemma file_stage:
  assumes "(if co_config_explicit opts \<or> dh_access h (dc_config_path (initial_config h opts p))
      then load_file_config L h (dc_config_path (initial_config h opts p)) p (initial_config h opts p)
      else Inr (initial_config h opts p)) = Inr c"
  shows "after_file L (config_root L h opts p) (used_config_path h opts p) p (initial_config h opts p) c"
    and "p = Posix \<Longrightarrow> after_file_posix L (config_root L h opts p) (used_config_path h opts p) (dh_abstract_default h) c"
    and "p = Windows \<Longrightarrow> after_file_windows L (config_root L h opts p) c"
proof -
  have path: "dc_config_path (initial_config h opts p) = used_config_path h opts p"
    by (simp add: initial_config_eq)
  consider (none) "\<not> file_used h opts p" "c = initial_config h opts p" "config_root L h opts p = Y_null"
    | (loaded) root where "load_file_config L h (used_config_path h opts p) p (initial_config h opts p) = Inr c"
      "load_yaml_file L h (used_config_path h opts p) = Inr root" "config_root L h opts p = root"
    using assms unfolding path
    by (cases "file_used h opts p"; cases "load_yaml_file L h (used_config_path h opts p)")
       (auto simp: file_used_def config_root_def load_file_config_def)
  note cs = this
  from cs show "after_file L (config_root L h opts p) (used_config_path h opts p) p (initial_config h opts p) c"
    by cases (simp_all add: no_file_common load_file_common)
  from cs show "after_file_posix L (config_root L h opts p) (used_config_path h opts p) (dh_abstract_default h) c" if "p = Posix"
    by cases (use that in \<open>simp_all add: no_file_common load_file_common\<close>)
  from cs show "after_file_windows L (config_root L h opts p) c" if "p = Windows"
    by cases (use that in \<open>simp_all add: no_file_common load_file_common\<close>)
qed

subsection \<open>The environment and the layers\<close>

lemma env_layer_eq: "env_layer conv h name = (Src_environment, env_of conv h name)"
  by (simp add: env_of_def env_layer_def)

definition env_mark :: "'a option \<Rightarrow> daemon_config_source option \<Rightarrow> daemon_config_source option" where
  "env_mark v s = (if v = None then s else Some Src_environment)"

lemma mark_env_apply: "mark_if (v \<noteq> None) f Src_environment m g = (if g = f then env_mark v (m g) else m g)"
  by (simp add: mark_if_def env_mark_def)

definition env_config :: "daemon_host \<Rightarrow> daemon_config \<Rightarrow> daemon_config" where
  "env_config h c = c\<lparr>
     dc_home_dir := or_current (env_of Some h ''PM_TINY_HOME'') (dc_home_dir c),
     dc_log_file := or_current (env_of Some h ''PM_TINY_LOG_FILE'') (dc_log_file c),
     dc_program_config_file := or_current (env_of Some h ''PM_TINY_PROG_CFG_FILE'') (dc_program_config_file c),
     dc_app_log_dir := or_current (env_of Some h ''PM_TINY_APP_LOG_DIR'') (dc_app_log_dir c),
     dc_app_environ_dir := or_current (env_of Some h ''PM_TINY_APP_ENVIRON_DIR'') (dc_app_environ_dir c),
     dc_log_level := or_current (env_of Some h ''PM_TINY_LOG_LEVEL'') (dc_log_level c),
     dc_log_max_size_kb := or_current (env_of (\<lambda>v. parse_long v 1 1048576) h ''PM_TINY_LOG_MAX_SIZE_KB'') (dc_log_max_size_kb c),
     dc_log_archive_count := or_current (env_of (\<lambda>v. parse_long v 0 100) h ''PM_TINY_LOG_ARCHIVE_COUNT'') (dc_log_archive_count c),
     dc_sources :=
       mark_if (env_of (\<lambda>v. parse_long v 0 100) h ''PM_TINY_LOG_ARCHIVE_COUNT'' \<noteq> None) ''log_archive_count'' Src_environment
       (mark_if (env_of (\<lambda>v. parse_long v 1 1048576) h ''PM_TINY_LOG_MAX_SIZE_KB'' \<noteq> None) ''log_max_size_kb'' Src_environment
       (mark_if (env_of Some h ''PM_TINY_LOG_LEVEL'' \<noteq> None) ''log_level'' Src_environment
       (mark_if (env_of Some h ''PM_TINY_APP_ENVIRON_DIR'' \<noteq> None) ''app_environ_dir'' Src_environment
       (mark_if (env_of Some h ''PM_TINY_APP_LOG_DIR'' \<noteq> None) ''app_log_dir'' Src_environment
       (mark_if (env_of Some h ''PM_TINY_PROG_CFG_FILE'' \<noteq> None) ''program_config_file'' Src_environment
       (mark_if (env_of Some h ''PM_TINY_LOG_FILE'' \<noteq> None) ''log_file'' Src_environment
       (mark_if (env_of Some h ''PM_TINY_HOME'' \<noteq> None) ''home_dir'' Src_environment (dc_sources c))))))))\<rparr>"

definition env_posix :: "daemon_host \<Rightarrow> daemon_config \<Rightarrow> daemon_config" where
  "env_posix h c = c\<lparr>
     dc_socket_file := or_current (env_of Some h ''PM_TINY_SOCK_FILE'') (dc_socket_file c),
     dc_process_tree_mode := or_current (env_of Some h ''PM_TINY_PROCESS_TREE_MODE'') (dc_process_tree_mode c),
     dc_cgroup_root := or_current (env_of Some h ''PM_TINY_CGROUP_ROOT'') (dc_cgroup_root c),
     dc_uds_abstract_namespace := or_current (env_of parse_bool_text h ''PM_TINY_UDS_ABSTRACT_NAMESPACE'')
       (dc_uds_abstract_namespace c),
     dc_sources :=
       mark_if (env_of parse_bool_text h ''PM_TINY_UDS_ABSTRACT_NAMESPACE'' \<noteq> None) ''uds_abstract_namespace'' Src_environment
       (mark_if (env_of Some h ''PM_TINY_CGROUP_ROOT'' \<noteq> None) ''cgroup_root'' Src_environment
       (mark_if (env_of Some h ''PM_TINY_PROCESS_TREE_MODE'' \<noteq> None) ''process_tree_mode'' Src_environment
       (mark_if (env_of Some h ''PM_TINY_SOCK_FILE'' \<noteq> None) ''socket_file'' Src_environment (dc_sources c))))\<rparr>"

definition env_windows :: "daemon_host \<Rightarrow> daemon_config \<Rightarrow> daemon_config" where
  "env_windows h c = c\<lparr>
     dc_pipe_name := or_current (env_of Some h ''PM_TINY_PIPE_NAME'') (dc_pipe_name c),
     dc_pipe_sddl := or_current (env_of Some h ''PM_TINY_PIPE_SDDL'') (dc_pipe_sddl c),
     dc_sources := mark_if (env_of Some h ''PM_TINY_PIPE_SDDL'' \<noteq> None) ''pipe_sddl'' Src_environment
       (mark_if (env_of Some h ''PM_TINY_PIPE_NAME'' \<noteq> None) ''pipe_name'' Src_environment (dc_sources c))\<rparr>"

lemma apply_environment_Inr:
  assumes "apply_environment h p c = Inr c'"
  shows "c' = (if p = Posix then env_posix h (env_config h c) else env_windows h (env_config h c))"
proof -
  from assms obtain c1 c2 c3 where 1: "override_log_level h (override_paths h c) = Inr c1"
    and 2: "override_number h ''PM_TINY_LOG_MAX_SIZE_KB'' ''log_max_size_kb'' 1 1048576
       '' must be between 1 and 1048576'' (\<lambda>n c. c\<lparr>dc_log_max_size_kb := n\<rparr>) c1 = Inr c2"
    and 3: "override_number h ''PM_TINY_LOG_ARCHIVE_COUNT'' ''log_archive_count'' 0 100
       '' must be between 0 and 100'' (\<lambda>n c. c\<lparr>dc_log_archive_count := n\<rparr>) c2 = Inr c3"
    and 4: "override_platform h p c3 = Inr c'"
    by (auto simp: apply_environment_def res_bind_eq_Inr)
  have "c3 = env_config h c"
    using override_log_level_Inr [OF 1] override_number_Inr(1) [OF 2] override_number_Inr(2) [OF 3]
    by (simp add: env_config_def override_paths_def override_string_eq)
  with 4 show ?thesis
    by (cases p) (auto simp: override_platform_def override_string_eq env_posix_def env_windows_def
        dest!: override_abstract_Inr)
qed

lemma pick_cli: "pick (cli_layer b v # ls) d = (if b then (Src_command_line, v) else pick ls d)"
  by (simp add: cli_layer_def)

lemma pick_env_file:
  assumes "f d = d"
  shows "pick [env_layer conv h n, file_layer f fconv root k] (Src_default, d) =
      (case_option Src_default id (env_mark (env_of conv h n) (file_mark (file_value fconv root k))),
       or_current (env_of conv h n) (f (or_current (file_value fconv root k) d)))"
    and "pick [file_layer f fconv root k] (Src_default, d) =
      (case_option Src_default id (file_mark (file_value fconv root k)), f (or_current (file_value fconv root k) d))"
  using assms by (cases "env_of conv h n"; cases "file_value fconv root k";
    simp add: env_layer_eq file_layer_def env_mark_def file_mark_def)+

lemma source_of_eq: "source_of c f = case_option Src_default id (dc_sources c f)"
  by (simp add: source_of_def split: option.splits)

lemma trim_Nil [simp]: "trim_trailing_separators p s = [] \<longleftrightarrow> s = []"
  by (induction p s rule: trim_trailing_separators.induct)
     (subst trim_trailing_separators.simps, auto simp: butlast_conv_take)

text \<open>Each field of the result in terms of the state after the environment.\<close>

lemma derive_files_eq:
  "derive_files p c = c\<lparr>
     dc_log_file := (if dc_log_file c = [] then join_path (dc_home_dir c) ''pm_tiny.log'' p else dc_log_file c),
     dc_program_config_file := (if dc_program_config_file c = [] then join_path (dc_home_dir c) ''prog.yaml'' p
       else dc_program_config_file c),
     dc_app_log_dir := (if dc_app_log_dir c = [] then join_path (dc_home_dir c) ''logs'' p else dc_app_log_dir c),
     dc_app_environ_dir := (if dc_app_environ_dir c = [] then join_path (dc_home_dir c) ''environ'' p else dc_app_environ_dir c),
     dc_lock_file := join_path (dc_home_dir c) ''pm_tiny.pid'' p,
     dc_socket_file := (if p = Posix \<and> dc_socket_file c = []
       then if dc_uds_abstract_namespace c then ''pm_tinyd'' else join_path (dc_home_dir c) ''pm_tinyd.sock'' p
       else dc_socket_file c),
     dc_sources := mark_if (p = Posix \<and> dc_socket_file c = []) ''socket_file'' Src_derived
       (mark_if True ''lock_file'' Src_derived
       (mark_if (dc_app_environ_dir c = []) ''app_environ_dir'' Src_derived
       (mark_if (dc_app_log_dir c = []) ''app_log_dir'' Src_derived
       (mark_if (dc_program_config_file c = []) ''program_config_file'' Src_derived
       (mark_if (dc_log_file c = []) ''log_file'' Src_derived (dc_sources c))))))\<rparr>"
proof -
  define c1 where "c1 = derive_path ''log_file'' dc_log_file (\<lambda>v c. c\<lparr>dc_log_file := v\<rparr>)
    (join_path (dc_home_dir c) ''pm_tiny.log'' p) c"
  define c2 where "c2 = derive_path ''program_config_file'' dc_program_config_file (\<lambda>v c. c\<lparr>dc_program_config_file := v\<rparr>)
    (join_path (dc_home_dir c) ''prog.yaml'' p) c1"
  define c3 where "c3 = derive_path ''app_log_dir'' dc_app_log_dir (\<lambda>v c. c\<lparr>dc_app_log_dir := v\<rparr>)
    (join_path (dc_home_dir c) ''logs'' p) c2"
  define c4 where "c4 = derive_path ''app_environ_dir'' dc_app_environ_dir (\<lambda>v c. c\<lparr>dc_app_environ_dir := v\<rparr>)
    (join_path (dc_home_dir c) ''environ'' p) c3"
  define c5 where "c5 = set_source ''lock_file'' Src_derived (c4\<lparr>dc_lock_file := join_path (dc_home_dir c) ''pm_tiny.pid'' p\<rparr>)"
  have d: "derive_files p c = (if p = Posix
      then derive_path ''socket_file'' dc_socket_file (\<lambda>v c. c\<lparr>dc_socket_file := v\<rparr>)
        (if dc_uds_abstract_namespace c5 then ''pm_tinyd'' else join_path (dc_home_dir c) ''pm_tinyd.sock'' p) c5 else c5)"
    unfolding derive_files_def Let_def c5_def c4_def c3_def c2_def c1_def by (rule refl)
  note steps = c1_def [unfolded derive_path_eq] c2_def [unfolded derive_path_eq] c3_def [unfolded derive_path_eq]
    c4_def [unfolded derive_path_eq] c5_def [unfolded set_source_def]
  show ?thesis
    unfolding d by (cases p) (simp_all add: derive_path_eq steps mark_if_def)
qed

lemma derive_files_sel:
  "dc_config_path (derive_files p c) = dc_config_path c"
  "dc_home_dir (derive_files p c) = dc_home_dir c"
  "dc_lock_file (derive_files p c) = join_path (dc_home_dir c) ''pm_tiny.pid'' p"
  "dc_log_file (derive_files p c) = (if dc_log_file c = [] then join_path (dc_home_dir c) ''pm_tiny.log'' p else dc_log_file c)"
  "dc_program_config_file (derive_files p c) = (if dc_program_config_file c = [] then join_path (dc_home_dir c) ''prog.yaml'' p else dc_program_config_file c)"
  "dc_app_log_dir (derive_files p c) = (if dc_app_log_dir c = [] then join_path (dc_home_dir c) ''logs'' p else dc_app_log_dir c)"
  "dc_app_environ_dir (derive_files p c) = (if dc_app_environ_dir c = [] then join_path (dc_home_dir c) ''environ'' p else dc_app_environ_dir c)"
  "dc_log_level (derive_files p c) = dc_log_level c"
  "dc_log_max_size_kb (derive_files p c) = dc_log_max_size_kb c"
  "dc_log_archive_count (derive_files p c) = dc_log_archive_count c"
  "dc_socket_file (derive_files p c) = (if p = Posix \<and> dc_socket_file c = []
     then if dc_uds_abstract_namespace c then ''pm_tinyd'' else join_path (dc_home_dir c) ''pm_tinyd.sock'' p else dc_socket_file c)"
  "dc_uds_abstract_namespace (derive_files p c) = dc_uds_abstract_namespace c"
  "dc_process_tree_mode (derive_files p c) = dc_process_tree_mode c"
  "dc_cgroup_root (derive_files p c) = dc_cgroup_root c"
  "dc_allowed_uids (derive_files p c) = dc_allowed_uids c"
  "dc_allowed_gids (derive_files p c) = dc_allowed_gids c"
  "dc_pipe_name (derive_files p c) = dc_pipe_name c"
  "dc_pipe_sddl (derive_files p c) = dc_pipe_sddl c"
  "dc_sources (derive_files p c) = mark_if (p = Posix \<and> dc_socket_file c = []) ''socket_file'' Src_derived
     (mark_if True ''lock_file'' Src_derived (mark_if (dc_app_environ_dir c = []) ''app_environ_dir'' Src_derived
     (mark_if (dc_app_log_dir c = []) ''app_log_dir'' Src_derived (mark_if (dc_program_config_file c = []) ''program_config_file'' Src_derived
     (mark_if (dc_log_file c = []) ''log_file'' Src_derived (dc_sources c))))))"
  by (simp_all add: derive_files_eq)


lemma fill_home_sel:
  "dc_config_path (fill_home h p c) = dc_config_path c"
  "dc_home_dir (fill_home h p c) = trim_trailing_separators p (if dc_home_dir c = [] then default_home h p else dc_home_dir c)"
  "dc_lock_file (fill_home h p c) = dc_lock_file c"
  "dc_log_file (fill_home h p c) = dc_log_file c"
  "dc_program_config_file (fill_home h p c) = dc_program_config_file c"
  "dc_app_log_dir (fill_home h p c) = trim_trailing_separators p (dc_app_log_dir c)"
  "dc_app_environ_dir (fill_home h p c) = trim_trailing_separators p (dc_app_environ_dir c)"
  "dc_log_level (fill_home h p c) = dc_log_level c"
  "dc_log_max_size_kb (fill_home h p c) = dc_log_max_size_kb c"
  "dc_log_archive_count (fill_home h p c) = dc_log_archive_count c"
  "dc_socket_file (fill_home h p c) = dc_socket_file c"
  "dc_uds_abstract_namespace (fill_home h p c) = dc_uds_abstract_namespace c"
  "dc_process_tree_mode (fill_home h p c) = dc_process_tree_mode c"
  "dc_cgroup_root (fill_home h p c) = dc_cgroup_root c"
  "dc_allowed_uids (fill_home h p c) = dc_allowed_uids c"
  "dc_allowed_gids (fill_home h p c) = dc_allowed_gids c"
  "dc_pipe_name (fill_home h p c) = dc_pipe_name c"
  "dc_pipe_sddl (fill_home h p c) = dc_pipe_sddl c"
  "dc_sources (fill_home h p c) = dc_sources c"
  by (simp_all add: fill_home_def)


lemma apply_options_sel:
  "dc_config_path (apply_options opts p c) = dc_config_path c"
  "dc_home_dir (apply_options opts p c) = (if co_home_explicit opts then co_home_dir opts else dc_home_dir c)"
  "dc_lock_file (apply_options opts p c) = dc_lock_file c"
  "dc_log_file (apply_options opts p c) = dc_log_file c"
  "dc_program_config_file (apply_options opts p c) = dc_program_config_file c"
  "dc_app_log_dir (apply_options opts p c) = dc_app_log_dir c"
  "dc_app_environ_dir (apply_options opts p c) = dc_app_environ_dir c"
  "dc_log_level (apply_options opts p c) = (if co_log_level_explicit opts then co_log_level opts else dc_log_level c)"
  "dc_log_max_size_kb (apply_options opts p c) = (if co_log_max_size_explicit opts then co_log_max_size_kb opts else dc_log_max_size_kb c)"
  "dc_log_archive_count (apply_options opts p c) = (if co_log_archive_count_explicit opts then co_log_archive_count opts else dc_log_archive_count c)"
  "dc_socket_file (apply_options opts p c) = dc_socket_file c"
  "dc_uds_abstract_namespace (apply_options opts p c) = dc_uds_abstract_namespace c"
  "dc_process_tree_mode (apply_options opts p c) = dc_process_tree_mode c"
  "dc_cgroup_root (apply_options opts p c) = dc_cgroup_root c"
  "dc_allowed_uids (apply_options opts p c) = dc_allowed_uids c"
  "dc_allowed_gids (apply_options opts p c) = dc_allowed_gids c"
  "dc_pipe_name (apply_options opts p c) = (if p = Windows \<and> co_pipe_name opts \<noteq> [] then co_pipe_name opts else dc_pipe_name c)"
  "dc_pipe_sddl (apply_options opts p c) = (if p = Windows \<and> co_pipe_sddl opts \<noteq> [] then co_pipe_sddl opts else dc_pipe_sddl c)"
  "dc_sources (apply_options opts p c) = mark_if (p = Windows \<and> co_pipe_sddl opts \<noteq> []) ''pipe_sddl'' Src_command_line
     (mark_if (p = Windows \<and> co_pipe_name opts \<noteq> []) ''pipe_name'' Src_command_line
     (mark_if (co_log_archive_count_explicit opts) ''log_archive_count'' Src_command_line
     (mark_if (co_log_max_size_explicit opts) ''log_max_size_kb'' Src_command_line
     (mark_if (co_log_level_explicit opts) ''log_level'' Src_command_line
     (mark_if (co_home_explicit opts) ''home_dir'' Src_command_line (dc_sources c))))))"
  by (simp_all add: apply_options_eq)


lemma env_config_sel:
  "dc_config_path (env_config h c) = dc_config_path c"
  "dc_home_dir (env_config h c) = or_current (env_of Some h ''PM_TINY_HOME'') (dc_home_dir c)"
  "dc_lock_file (env_config h c) = dc_lock_file c"
  "dc_log_file (env_config h c) = or_current (env_of Some h ''PM_TINY_LOG_FILE'') (dc_log_file c)"
  "dc_program_config_file (env_config h c) = or_current (env_of Some h ''PM_TINY_PROG_CFG_FILE'') (dc_program_config_file c)"
  "dc_app_log_dir (env_config h c) = or_current (env_of Some h ''PM_TINY_APP_LOG_DIR'') (dc_app_log_dir c)"
  "dc_app_environ_dir (env_config h c) = or_current (env_of Some h ''PM_TINY_APP_ENVIRON_DIR'') (dc_app_environ_dir c)"
  "dc_log_level (env_config h c) = or_current (env_of Some h ''PM_TINY_LOG_LEVEL'') (dc_log_level c)"
  "dc_log_max_size_kb (env_config h c) = or_current (env_of (\<lambda>v. parse_long v 1 1048576) h ''PM_TINY_LOG_MAX_SIZE_KB'') (dc_log_max_size_kb c)"
  "dc_log_archive_count (env_config h c) = or_current (env_of (\<lambda>v. parse_long v 0 100) h ''PM_TINY_LOG_ARCHIVE_COUNT'') (dc_log_archive_count c)"
  "dc_socket_file (env_config h c) = dc_socket_file c"
  "dc_uds_abstract_namespace (env_config h c) = dc_uds_abstract_namespace c"
  "dc_process_tree_mode (env_config h c) = dc_process_tree_mode c"
  "dc_cgroup_root (env_config h c) = dc_cgroup_root c"
  "dc_allowed_uids (env_config h c) = dc_allowed_uids c"
  "dc_allowed_gids (env_config h c) = dc_allowed_gids c"
  "dc_pipe_name (env_config h c) = dc_pipe_name c"
  "dc_pipe_sddl (env_config h c) = dc_pipe_sddl c"
  "dc_sources (env_config h c) = mark_if (env_of (\<lambda>v. parse_long v 0 100) h ''PM_TINY_LOG_ARCHIVE_COUNT'' \<noteq> None) ''log_archive_count'' Src_environment
     (mark_if (env_of (\<lambda>v. parse_long v 1 1048576) h ''PM_TINY_LOG_MAX_SIZE_KB'' \<noteq> None) ''log_max_size_kb'' Src_environment
     (mark_if (env_of Some h ''PM_TINY_LOG_LEVEL'' \<noteq> None) ''log_level'' Src_environment
     (mark_if (env_of Some h ''PM_TINY_APP_ENVIRON_DIR'' \<noteq> None) ''app_environ_dir'' Src_environment
     (mark_if (env_of Some h ''PM_TINY_APP_LOG_DIR'' \<noteq> None) ''app_log_dir'' Src_environment
     (mark_if (env_of Some h ''PM_TINY_PROG_CFG_FILE'' \<noteq> None) ''program_config_file'' Src_environment
     (mark_if (env_of Some h ''PM_TINY_LOG_FILE'' \<noteq> None) ''log_file'' Src_environment
     (mark_if (env_of Some h ''PM_TINY_HOME'' \<noteq> None) ''home_dir'' Src_environment
     (dc_sources c))))))))"
  by (simp_all add: env_config_def)


lemma env_posix_sel:
  "dc_config_path (env_posix h c) = dc_config_path c"
  "dc_home_dir (env_posix h c) = dc_home_dir c"
  "dc_lock_file (env_posix h c) = dc_lock_file c"
  "dc_log_file (env_posix h c) = dc_log_file c"
  "dc_program_config_file (env_posix h c) = dc_program_config_file c"
  "dc_app_log_dir (env_posix h c) = dc_app_log_dir c"
  "dc_app_environ_dir (env_posix h c) = dc_app_environ_dir c"
  "dc_log_level (env_posix h c) = dc_log_level c"
  "dc_log_max_size_kb (env_posix h c) = dc_log_max_size_kb c"
  "dc_log_archive_count (env_posix h c) = dc_log_archive_count c"
  "dc_socket_file (env_posix h c) = or_current (env_of Some h ''PM_TINY_SOCK_FILE'') (dc_socket_file c)"
  "dc_uds_abstract_namespace (env_posix h c) = or_current (env_of parse_bool_text h ''PM_TINY_UDS_ABSTRACT_NAMESPACE'') (dc_uds_abstract_namespace c)"
  "dc_process_tree_mode (env_posix h c) = or_current (env_of Some h ''PM_TINY_PROCESS_TREE_MODE'') (dc_process_tree_mode c)"
  "dc_cgroup_root (env_posix h c) = or_current (env_of Some h ''PM_TINY_CGROUP_ROOT'') (dc_cgroup_root c)"
  "dc_allowed_uids (env_posix h c) = dc_allowed_uids c"
  "dc_allowed_gids (env_posix h c) = dc_allowed_gids c"
  "dc_pipe_name (env_posix h c) = dc_pipe_name c"
  "dc_pipe_sddl (env_posix h c) = dc_pipe_sddl c"
  "dc_sources (env_posix h c) = mark_if (env_of parse_bool_text h ''PM_TINY_UDS_ABSTRACT_NAMESPACE'' \<noteq> None) ''uds_abstract_namespace'' Src_environment
     (mark_if (env_of Some h ''PM_TINY_CGROUP_ROOT'' \<noteq> None) ''cgroup_root'' Src_environment
     (mark_if (env_of Some h ''PM_TINY_PROCESS_TREE_MODE'' \<noteq> None) ''process_tree_mode'' Src_environment
     (mark_if (env_of Some h ''PM_TINY_SOCK_FILE'' \<noteq> None) ''socket_file'' Src_environment
     (dc_sources c))))"
  by (simp_all add: env_posix_def)


lemma env_windows_sel:
  "dc_config_path (env_windows h c) = dc_config_path c"
  "dc_home_dir (env_windows h c) = dc_home_dir c"
  "dc_lock_file (env_windows h c) = dc_lock_file c"
  "dc_log_file (env_windows h c) = dc_log_file c"
  "dc_program_config_file (env_windows h c) = dc_program_config_file c"
  "dc_app_log_dir (env_windows h c) = dc_app_log_dir c"
  "dc_app_environ_dir (env_windows h c) = dc_app_environ_dir c"
  "dc_log_level (env_windows h c) = dc_log_level c"
  "dc_log_max_size_kb (env_windows h c) = dc_log_max_size_kb c"
  "dc_log_archive_count (env_windows h c) = dc_log_archive_count c"
  "dc_socket_file (env_windows h c) = dc_socket_file c"
  "dc_uds_abstract_namespace (env_windows h c) = dc_uds_abstract_namespace c"
  "dc_process_tree_mode (env_windows h c) = dc_process_tree_mode c"
  "dc_cgroup_root (env_windows h c) = dc_cgroup_root c"
  "dc_allowed_uids (env_windows h c) = dc_allowed_uids c"
  "dc_allowed_gids (env_windows h c) = dc_allowed_gids c"
  "dc_pipe_name (env_windows h c) = or_current (env_of Some h ''PM_TINY_PIPE_NAME'') (dc_pipe_name c)"
  "dc_pipe_sddl (env_windows h c) = or_current (env_of Some h ''PM_TINY_PIPE_SDDL'') (dc_pipe_sddl c)"
  "dc_sources (env_windows h c) = mark_if (env_of Some h ''PM_TINY_PIPE_SDDL'' \<noteq> None) ''pipe_sddl'' Src_environment
     (mark_if (env_of Some h ''PM_TINY_PIPE_NAME'' \<noteq> None) ''pipe_name'' Src_environment
     (dc_sources c))"
  by (simp_all add: env_windows_def)


lemmas stage_sels = derive_files_sel fill_home_sel apply_options_sel env_config_sel env_posix_sel env_windows_sel

text \<open>Before the files are derived, every field is that of its layers.\<close>

definition has_setting :: "daemon_config \<Rightarrow> string \<Rightarrow> 'a \<Rightarrow> daemon_config_source \<times> 'a \<Rightarrow> bool" where
  "has_setting c f v sv \<longleftrightarrow> dc_sources c f = Some (fst sv) \<and> v = snd sv"

definition underived :: "daemon_host \<Rightarrow> daemon_cli_options \<Rightarrow> daemon_platform \<Rightarrow> daemon_config \<Rightarrow> daemon_config" where
  "underived h opts p c1 = fill_home h p (apply_options opts p
     (if p = Posix then env_posix h (env_config h c1) else env_windows h (env_config h c1)))"

lemmas setting_simps = has_setting_def underived_def stage_sels mark_if_apply [of _ _ Src_derived] mark_if_apply [of _ _ Src_command_line]
  mark_env_apply path_layers_def text_layers_def pick_cli pick_env_file env_mark_def file_mark_def

lemma underived_paths:
  assumes "after_file L (config_root L h opts p) (used_config_path h opts p) p (initial_config h opts p) c1"
  defines "c \<equiv> underived h opts p c1"
  shows "has_setting c ''home_dir'' (dc_home_dir c) (layered_home L h opts p)"
    "has_setting c ''log_file'' (dc_log_file c)
       (pick (path_layers L h opts p ''PM_TINY_LOG_FILE'' ''pm_tiny_log_file'') (Src_default, ''''))"
    "has_setting c ''program_config_file'' (dc_program_config_file c)
       (pick (path_layers L h opts p ''PM_TINY_PROG_CFG_FILE'' ''pm_tiny_prog_cfg_file'') (Src_default, ''''))"
    "has_setting c ''app_log_dir'' (dc_app_log_dir c) (apsnd (trim_trailing_separators p)
       (pick (path_layers L h opts p ''PM_TINY_APP_LOG_DIR'' ''pm_tiny_app_log_dir'') (Src_default, '''')))"
    "has_setting c ''app_environ_dir'' (dc_app_environ_dir c) (apsnd (trim_trailing_separators p)
       (pick (path_layers L h opts p ''PM_TINY_APP_ENVIRON_DIR'' ''pm_tiny_app_environ_dir'') (Src_default, '''')))"
  using assms(1) unfolding after_file_def Let_def c_def
  by (cases p; simp add: setting_simps layered_home_def initial_config_eq default_sources_at mark_if_apply all_fields_def del: not_None_eq)+

lemma underived_logging:
  assumes "after_file L (config_root L h opts p) (used_config_path h opts p) p (initial_config h opts p) c1"
  defines "c \<equiv> underived h opts p c1"
  shows "has_setting c ''log_level'' (dc_log_level c) (pick (cli_layer (co_log_level_explicit opts) (co_log_level opts) #
       text_layers L h opts p ''PM_TINY_LOG_LEVEL'' ''pm_tiny_log_level'') (Src_default, ''info''))"
    "has_setting c ''log_max_size_kb'' (dc_log_max_size_kb c)
       (pick [cli_layer (co_log_max_size_explicit opts) (co_log_max_size_kb opts),
         env_layer (\<lambda>v. parse_long v 1 1048576) h ''PM_TINY_LOG_MAX_SIZE_KB'',
         file_layer id (as_int L) (config_root L h opts p) ''pm_tiny_log_max_size_kb''] (Src_default, 4096))"
    "has_setting c ''log_archive_count'' (dc_log_archive_count c)
       (pick [cli_layer (co_log_archive_count_explicit opts) (co_log_archive_count opts),
         env_layer (\<lambda>v. parse_long v 0 100) h ''PM_TINY_LOG_ARCHIVE_COUNT'',
         file_layer id (as_int L) (config_root L h opts p) ''pm_tiny_log_archive_count''] (Src_default, 3))"
    "has_setting c ''config_path'' (dc_config_path c)
       (if co_config_explicit opts then Src_command_line else Src_default, used_config_path h opts p)"
  using assms(1) unfolding after_file_def Let_def c_def
  by (cases p; simp add: setting_simps layered_home_def initial_config_eq default_sources_at mark_if_apply all_fields_def del: not_None_eq)+

lemmas underived_common = underived_paths underived_logging

lemma underived_posix:
  assumes "after_file_posix L (config_root L h opts Posix) (used_config_path h opts Posix) (dh_abstract_default h) c1"
  defines "c \<equiv> underived h opts Posix c1"
  shows "has_setting c ''socket_file'' (dc_socket_file c) (pick [env_layer Some h ''PM_TINY_SOCK_FILE'',
          file_layer (if file_abstract L h opts then id else resolve_relative (used_config_path h opts Posix) Posix)
            (as_string L) (config_root L h opts Posix) ''pm_tiny_sock_file''] (Src_default, ''''))"
    "has_setting c ''uds_abstract_namespace'' (dc_uds_abstract_namespace c) (layered_abstract L h opts)"
    "has_setting c ''process_tree_mode'' (dc_process_tree_mode c)
       (pick (text_layers L h opts Posix ''PM_TINY_PROCESS_TREE_MODE'' ''pm_tiny_process_tree_mode'') (Src_default, ''auto''))"
    "has_setting c ''cgroup_root'' (dc_cgroup_root c)
       (pick (text_layers L h opts Posix ''PM_TINY_CGROUP_ROOT'' ''pm_tiny_cgroup_root'') (Src_default, ''''))"
    "has_setting c ''allowed_uids'' (dc_allowed_uids c)
       (pick [file_layer id (as_uint_vector L) (config_root L h opts Posix) ''pm_tiny_allowed_uids''] (Src_default, []))"
    "has_setting c ''allowed_gids'' (dc_allowed_gids c)
       (pick [file_layer id (as_uint_vector L) (config_root L h opts Posix) ''pm_tiny_allowed_gids''] (Src_default, []))"
    "has_setting c ''pipe_name'' (dc_pipe_name c) (Src_default, dc_pipe_name default_daemon_config)"
    "has_setting c ''pipe_sddl'' (dc_pipe_sddl c) (Src_default, windows_default_pipe_sddl)"
  using assms(1) unfolding after_file_posix_def Let_def c_def
  by (simp add: setting_simps layered_abstract_def file_abstract_def default_daemon_config_def del: not_None_eq)+

lemma underived_windows:
  assumes "after_file_windows L (config_root L h opts Windows) c1"
  defines "c \<equiv> underived h opts Windows c1"
  shows "has_setting c ''socket_file'' (dc_socket_file c) (Src_default, '''')"
    "has_setting c ''uds_abstract_namespace'' (dc_uds_abstract_namespace c) (Src_default, False)"
    "has_setting c ''process_tree_mode'' (dc_process_tree_mode c) (Src_default, ''auto'')"
    "has_setting c ''cgroup_root'' (dc_cgroup_root c) (Src_default, '''')"
    "has_setting c ''allowed_uids'' (dc_allowed_uids c) (Src_default, [])"
    "has_setting c ''allowed_gids'' (dc_allowed_gids c) (Src_default, [])"
    "has_setting c ''pipe_name'' (dc_pipe_name c) (pick (cli_layer (co_pipe_name opts \<noteq> []) (co_pipe_name opts) #
       text_layers L h opts Windows ''PM_TINY_PIPE_NAME'' ''pm_tiny_pipe_name'') (Src_default, dc_pipe_name default_daemon_config))"
    "has_setting c ''pipe_sddl'' (dc_pipe_sddl c) (pick (cli_layer (co_pipe_sddl opts \<noteq> []) (co_pipe_sddl opts) #
       text_layers L h opts Windows ''PM_TINY_PIPE_SDDL'' ''pm_tiny_pipe_sddl'') (Src_default, windows_default_pipe_sddl))"
  using assms(1) unfolding after_file_windows_def Let_def c_def
  by (simp add: setting_simps default_daemon_config_def del: not_None_eq)+

text \<open>Deriving the files gives the reference.\<close>

lemma derived_settings:
  assumes "has_setting c ''home_dir'' (dc_home_dir c) home"
    "has_setting c ''log_file'' (dc_log_file c) lf" "has_setting c ''program_config_file'' (dc_program_config_file c) pf"
    "has_setting c ''app_log_dir'' (dc_app_log_dir c) al" "has_setting c ''app_environ_dir'' (dc_app_environ_dir c) ae"
    "has_setting c ''log_level'' (dc_log_level c) lv" "has_setting c ''log_max_size_kb'' (dc_log_max_size_kb c) lm"
    "has_setting c ''log_archive_count'' (dc_log_archive_count c) la" "has_setting c ''config_path'' (dc_config_path c) cp"
    "has_setting c ''socket_file'' (dc_socket_file c) sf" "has_setting c ''uds_abstract_namespace'' (dc_uds_abstract_namespace c) ua"
    "has_setting c ''process_tree_mode'' (dc_process_tree_mode c) pt" "has_setting c ''cgroup_root'' (dc_cgroup_root c) cr"
    "has_setting c ''allowed_uids'' (dc_allowed_uids c) us" "has_setting c ''allowed_gids'' (dc_allowed_gids c) gs"
    "has_setting c ''pipe_name'' (dc_pipe_name c) pn" "has_setting c ''pipe_sddl'' (dc_pipe_sddl c) ps"
  shows "settings_of (derive_files p c) = \<lparr>ds_config_path = cp, ds_home_dir = home,
    ds_lock_file = (Src_derived, join_path (snd home) ''pm_tiny.pid'' p),
    ds_log_file = or_derived (join_path (snd home) ''pm_tiny.log'' p) lf,
    ds_program_config_file = or_derived (join_path (snd home) ''prog.yaml'' p) pf,
    ds_app_log_dir = or_derived (join_path (snd home) ''logs'' p) al,
    ds_app_environ_dir = or_derived (join_path (snd home) ''environ'' p) ae,
    ds_log_level = lv, ds_log_max_size_kb = lm, ds_log_archive_count = la,
    ds_socket_file = (if p = Posix
      then or_derived (if snd ua then ''pm_tinyd'' else join_path (snd home) ''pm_tinyd.sock'' p) sf else sf),
    ds_uds_abstract_namespace = ua, ds_process_tree_mode = pt, ds_cgroup_root = cr, ds_allowed_uids = us, ds_allowed_gids = gs,
    ds_pipe_name = pn, ds_pipe_sddl = ps\<rparr>"
  using assms
  by (simp add: has_setting_def settings_of_def derive_files_sel source_of_eq mark_if_apply or_derived_def prod_eq_iff)

lemma resolve_stages:
  assumes "resolve_daemon_config L h opts p = Inr c"
  obtains c1 c2 where
    "after_file L (config_root L h opts p) (used_config_path h opts p) p (initial_config h opts p) c1"
    "p = Posix \<longrightarrow> after_file_posix L (config_root L h opts p) (used_config_path h opts p) (dh_abstract_default h) c1"
    "p = Windows \<longrightarrow> after_file_windows L (config_root L h opts p) c1"
    "check_file_values c1 = Inr c1" "apply_environment h p c1 = Inr c2"
    "underived h opts p c1 = fill_home h p (apply_options opts p c2)"
    "c = derive_files p (underived h opts p c1)"
    "check_final p c = Inr c"
proof -
  have checks: "check_file_values c1 = Inr c2 \<Longrightarrow> c2 = c1" "check_final p c1 = Inr c2 \<Longrightarrow> c2 = c1" for c1 c2
    by (auto simp: check_file_values_def check_final_def split: if_splits)
  from assms obtain c1 c2 where 1: "(if co_config_explicit opts \<or> dh_access h (dc_config_path (initial_config h opts p))
      then load_file_config L h (dc_config_path (initial_config h opts p)) p (initial_config h opts p)
      else Inr (initial_config h opts p)) = Inr c1"
    and 2: "check_file_values c1 = Inr c1" and 3: "apply_environment h p c1 = Inr c2"
    and 4: "check_final p (derive_files p (fill_home h p (apply_options opts p c2))) = Inr c"
    unfolding resolve_daemon_config_def Let_def res_bind_eq_Inr using checks(1) by blast
  have u: "underived h opts p c1 = fill_home h p (apply_options opts p c2)"
    using apply_environment_Inr [OF 3] by (simp add: underived_def)
  show thesis
    using that [OF file_stage(1) [OF 1] _ _ 2 3 u] file_stage(2,3) [OF 1] 4 checks(2) [OF 4] u by simp
qed

lemma resolve_layered:
  assumes "resolve_daemon_config L h opts p = Inr c"
  shows "settings_of c = layered_settings L h opts p"
proof -
  obtain c1 c2 where f: "after_file L (config_root L h opts p) (used_config_path h opts p) p (initial_config h opts p) c1"
    and fp: "p = Posix \<longrightarrow> after_file_posix L (config_root L h opts p) (used_config_path h opts p) (dh_abstract_default h) c1"
    and fw: "p = Windows \<longrightarrow> after_file_windows L (config_root L h opts p) c1"
    and "check_file_values c1 = Inr c1" "apply_environment h p c1 = Inr c2"
      "underived h opts p c1 = fill_home h p (apply_options opts p c2)"
    and c: "c = derive_files p (underived h opts p c1)" and "check_final p c = Inr c"
    by (rule resolve_stages [OF assms])
  show ?thesis
  proof (cases p)
    case Posix
    show ?thesis
      using derived_settings [OF underived_common [OF f] underived_posix [OF fp [rule_format, OF Posix, unfolded Posix], folded Posix]]
      by (simp add: c Posix layered_settings_def in_home_def layered_socket_def)
  next
    case Windows
    show ?thesis
      using derived_settings [OF underived_common [OF f] underived_windows [OF fw [rule_format, OF Windows, unfolded Windows], folded Windows]]
      by (simp add: c Windows layered_settings_def in_home_def)
  qed
qed

subsection \<open>The values are valid\<close>

definition valid_options :: "daemon_cli_options \<Rightarrow> bool" where
  "valid_options o' \<longleftrightarrow>
     (co_log_level_explicit o' \<longrightarrow> valid_log_level (co_log_level o')) \<and>
     (co_log_max_size_explicit o' \<longrightarrow> 1 \<le> co_log_max_size_kb o' \<and> co_log_max_size_kb o' \<le> 1048576) \<and>
     (co_log_archive_count_explicit o' \<longrightarrow> 0 \<le> co_log_archive_count o' \<and> co_log_archive_count o' \<le> 100) \<and>
     (co_home_explicit o' \<longrightarrow> co_home_dir o' \<noteq> [])"

lemma parse_long_bounds: "parse_long v lo hi = Some n \<Longrightarrow> lo \<le> n \<and> n \<le> hi"
  by (auto simp: parse_long_def split: if_splits option.splits)

lemma with_value_Inr:
  "with_value arg rest store = Inr (o', rest') \<Longrightarrow> \<exists>v. store v = Inr o'"
  by (auto simp: with_value_def res_bind_eq_Inr split: list.splits)

definition gives_valid :: "string + daemon_cli_options \<times> string list \<Rightarrow> bool" where
  "gives_valid r \<longleftrightarrow> (\<forall>o' rest. r = Inr (o', rest) \<longrightarrow> valid_options o')"

lemma gives_valid_if: "gives_valid a \<Longrightarrow> gives_valid b \<Longrightarrow> gives_valid (if P then a else b)"
  by simp

lemma gives_valid_with_value: "(\<And>v o'. store v = Inr o' \<Longrightarrow> valid_options o') \<Longrightarrow> gives_valid (with_value arg rest store)"
  by (auto simp: gives_valid_def dest: with_value_Inr)

lemma valid_keeps:
  assumes "valid_options opts"
  shows "valid_options (opts\<lparr>co_config_path := v, co_config_explicit := True\<rparr>)"
    "v \<noteq> [] \<Longrightarrow> valid_options (opts\<lparr>co_home_dir := v, co_home_explicit := True\<rparr>)"
    "valid_log_level v \<Longrightarrow> valid_options (opts\<lparr>co_log_level := v, co_log_level_explicit := True\<rparr>)"
    "1 \<le> n \<Longrightarrow> n \<le> 1048576 \<Longrightarrow> valid_options (opts\<lparr>co_log_max_size_kb := n, co_log_max_size_explicit := True\<rparr>)"
    "0 \<le> n \<Longrightarrow> n \<le> 100 \<Longrightarrow> valid_options (opts\<lparr>co_log_archive_count := n, co_log_archive_count_explicit := True\<rparr>)"
    "valid_options (opts\<lparr>co_help := True\<rparr>)" "valid_options (opts\<lparr>co_version := True\<rparr>)"
    "valid_options (opts\<lparr>co_daemonize := True\<rparr>)" "valid_options (opts\<lparr>co_service := True\<rparr>)"
    "valid_options (opts\<lparr>co_service_name := v, co_service_name_explicit := True\<rparr>)"
    "valid_options (opts\<lparr>co_pipe_name := v\<rparr>)" "valid_options (opts\<lparr>co_pipe_sddl := v\<rparr>)"
  using assms by (simp_all add: valid_options_def)

lemma gives_valid_done: "valid_options opts \<Longrightarrow> gives_valid (Inr (opts, rest))" "gives_valid (Inl e)"
  by (simp_all add: gives_valid_def)

lemma nonempty_Inr: "nonempty arg k v = Inr o' \<Longrightarrow> v \<noteq> [] \<and> o' = k v"
  by (auto simp: nonempty_def split: if_splits)

lemma parse_argument_valid: "valid_options opts \<Longrightarrow> gives_valid (parse_argument p arg rest opts)"
  unfolding parse_argument_def
  by (intro gives_valid_if gives_valid_with_value gives_valid_done)
    (auto dest!: nonempty_Inr dest: parse_long_bounds split: if_splits option.splits intro: valid_keeps)

lemma parse_options_valid: "parse_options p args opts = Inr o' \<Longrightarrow> valid_options opts \<Longrightarrow> valid_options o'"
  by (induction p args opts rule: parse_options.induct) (force split: sum.splits dest: parse_argument_valid simp: gives_valid_def)+

lemma join_path_not_Nil: "name \<noteq> [] \<Longrightarrow> join_path base name p \<noteq> []"
  by (simp add: join_path_def)

lemma default_home_not_Nil: "default_home h p \<noteq> []"
  by (simp add: default_home_def join_path_not_Nil Let_def split: option.splits)

definition valid_values :: "daemon_config \<Rightarrow> bool" where
  "valid_values c \<longleftrightarrow> valid_log_level (dc_log_level c) \<and> 1 \<le> dc_log_max_size_kb c \<and> dc_log_max_size_kb c \<le> 1048576 \<and>
     0 \<le> dc_log_archive_count c \<and> dc_log_archive_count c \<le> 100"

lemma apply_environment_valid:
  assumes "apply_environment h p c = Inr c'" "valid_values c"
  shows "valid_values c'"
proof -
  from assms obtain c1 c2 c3 where 1: "override_log_level h (override_paths h c) = Inr c1"
    and 2: "override_number h ''PM_TINY_LOG_MAX_SIZE_KB'' ''log_max_size_kb'' 1 1048576
       '' must be between 1 and 1048576'' (\<lambda>n c. c\<lparr>dc_log_max_size_kb := n\<rparr>) c1 = Inr c2"
    and 3: "override_number h ''PM_TINY_LOG_ARCHIVE_COUNT'' ''log_archive_count'' 0 100
       '' must be between 0 and 100'' (\<lambda>n c. c\<lparr>dc_log_archive_count := n\<rparr>) c2 = Inr c3"
    and 4: "override_platform h p c3 = Inr c'"
    by (auto simp: apply_environment_def res_bind_eq_Inr)
  have "dc_log_level c' = dc_log_level c3 \<and> dc_log_max_size_kb c' = dc_log_max_size_kb c3 \<and>
      dc_log_archive_count c' = dc_log_archive_count c3"
    using 4 by (cases p) (auto simp: override_platform_def override_string_eq dest!: override_abstract_Inr)
  moreover have "dc_log_level (override_paths h c) = dc_log_level c \<and>
      dc_log_max_size_kb (override_paths h c) = dc_log_max_size_kb c \<and>
      dc_log_archive_count (override_paths h c) = dc_log_archive_count c"
    by (simp add: override_paths_def override_string_eq)
  moreover have "dc_log_max_size_kb c1 = dc_log_max_size_kb (override_paths h c)"
      "dc_log_archive_count c2 = dc_log_archive_count (override_paths h c)" "dc_log_level c3 = dc_log_level c1"
      "dc_log_max_size_kb c3 = dc_log_max_size_kb c2"
    using override_log_level_Inr [OF 1] override_number_Inr(1) [OF 2] override_number_Inr(2) [OF 3] by simp_all
  moreover note override_log_level_Inr [OF 1, THEN conjunct2] override_number_Inr(1) [OF 2, THEN conjunct2]
    override_number_Inr(2) [OF 3, THEN conjunct2]
  ultimately show ?thesis using assms(2) by (simp add: valid_values_def)
qed

lemma resolve_valid:
  assumes "resolve_daemon_config L h opts p = Inr c" "valid_options opts"
  shows "valid_values c" "\<forall>s \<in> {dc_home_dir c, dc_lock_file c, dc_log_file c, dc_program_config_file c, dc_app_log_dir c, dc_app_environ_dir c}.
      s \<noteq> []" "p = Posix \<Longrightarrow> dc_socket_file c \<noteq> []" "p = Windows \<Longrightarrow> dc_pipe_name c \<noteq> [] \<and> dc_pipe_sddl c \<noteq> []"
proof -
  obtain c1 c2 where "after_file L (config_root L h opts p) (used_config_path h opts p) p (initial_config h opts p) c1"
    and "p = Posix \<longrightarrow> after_file_posix L (config_root L h opts p) (used_config_path h opts p) (dh_abstract_default h) c1"
    and "p = Windows \<longrightarrow> after_file_windows L (config_root L h opts p) c1"
    and v: "check_file_values c1 = Inr c1" and e: "apply_environment h p c1 = Inr c2"
    and u: "underived h opts p c1 = fill_home h p (apply_options opts p c2)"
    and c: "c = derive_files p (underived h opts p c1)" and f: "check_final p c = Inr c"
    by (rule resolve_stages [OF assms(1)])
  have "valid_values c1" using v by (auto simp: check_file_values_def valid_values_def split: if_splits)
  then have "valid_values c2" by (rule apply_environment_valid [OF e])
  with assms(2) show "valid_values c"
    by (simp add: c u valid_values_def derive_files_sel fill_home_sel apply_options_sel valid_options_def)
  show "\<forall>s \<in> {dc_home_dir c, dc_lock_file c, dc_log_file c, dc_program_config_file c, dc_app_log_dir c, dc_app_environ_dir c}. s \<noteq> []"
    by (simp add: c u derive_files_sel fill_home_sel join_path_not_Nil default_home_not_Nil)
  show "dc_socket_file c \<noteq> []" if "p = Posix" by (simp add: c u derive_files_sel that join_path_not_Nil)
  show "dc_pipe_name c \<noteq> [] \<and> dc_pipe_sddl c \<noteq> []" if "p = Windows"
    using f that by (auto simp: check_final_def split: if_splits)
qed

text \<open>
  C39: the daemon configuration is layered as documented.  When the arguments parse and the configuration resolves, every
  setting, with the source reported for it, is that of the reference: the command line before the environment before the file before
  the default, file paths relative to the directory of the file, empty paths derived from the home directory.  The log
  level, size and archive count are then in range, whichever layer they are from, and no path is empty.
\<close>

theorem daemon_config_layered:
  assumes "parse_daemon_arguments arguments p = Inr opts" "resolve_daemon_config L h opts p = Inr c"
  shows "settings_of c = layered_settings L h opts p \<and> valid_log_level (dc_log_level c) \<and>
    1 \<le> dc_log_max_size_kb c \<and> dc_log_max_size_kb c \<le> 1048576 \<and> 0 \<le> dc_log_archive_count c \<and> dc_log_archive_count c \<le> 100 \<and>
    (\<forall>s \<in> {dc_home_dir c, dc_lock_file c, dc_log_file c, dc_program_config_file c, dc_app_log_dir c, dc_app_environ_dir c}. s \<noteq> []) \<and>
    (if p = Posix then dc_socket_file c \<noteq> [] else dc_pipe_name c \<noteq> [] \<and> dc_pipe_sddl c \<noteq> [])"
proof -
  have "valid_options default_cli_options" by (simp add: valid_options_def default_cli_options_def)
  then have v: "valid_options opts"
    using assms(1) parse_options_valid by (auto simp: parse_daemon_arguments_def)
  from resolve_valid [OF assms(2) v] resolve_layered [OF assms(2)] show ?thesis
    by (cases p) (simp_all add: valid_values_def)
qed

definition sample_host :: daemon_host where
  "sample_host = \<lparr>dh_environ = [''PM_TINY_LOG_LEVEL'' \<mapsto> ''warn'', ''PM_TINY_HOME'' \<mapsto> ''/opt/pm''],
     dh_pw_dir = Some ''/root'', dh_access = (\<lambda>_. False), dh_open = (\<lambda>_. Open_failed ''No such file''), dh_abstract_default = False\<rparr>"

definition sample_options :: daemon_cli_options where
  "sample_options = default_cli_options\<lparr>co_home_dir := ''/srv/'', co_home_explicit := True\<rparr>"

lemma sample_parses: "parse_daemon_arguments [''pm_tiny'', ''--home'', ''/srv/''] Posix = Inr sample_options"
  by (simp add: parse_daemon_arguments_def parse_argument_def with_value_def nonempty_def sample_options_def)

lemma sample_environment: "\<exists>c'. apply_environment sample_host Posix c = Inr c'"
  by (simp add: apply_environment_def override_log_level_def override_number_def override_platform_def override_abstract_def
      daemon_environment_def sample_host_def valid_log_level_def Let_def)

lemma sample_resolves:
  "\<not> isl (resolve_daemon_config plain_yaml sample_host sample_options Posix)"
proof -
  have "check_file_values (initial_config sample_host sample_options Posix) = Inr (initial_config sample_host sample_options Posix)"
    by (simp add: check_file_values_def initial_config_eq default_daemon_config_def valid_log_level_def)
  moreover obtain c where "apply_environment sample_host Posix (initial_config sample_host sample_options Posix) = Inr c"
    using sample_environment by blast
  moreover have "check_final Posix (derive_files Posix c) = Inr (derive_files Posix c)" for c
    by (simp add: check_final_def derive_files_sel join_path_not_Nil)
  moreover have "\<not> co_config_explicit sample_options" "\<not> dh_access sample_host f" for f
    by (simp_all add: sample_options_def sample_host_def default_cli_options_def)
  ultimately show ?thesis by (simp add: resolve_daemon_config_def Let_def)
qed

theorem daemon_config_layered_witness:
  "settings_of (projr (resolve_daemon_config plain_yaml sample_host sample_options Posix)) =
     layered_settings plain_yaml sample_host sample_options Posix"
proof -
  have "resolve_daemon_config plain_yaml sample_host sample_options Posix =
      Inr (projr (resolve_daemon_config plain_yaml sample_host sample_options Posix))"
    using sample_resolves by (simp add: sum.expand)
  from daemon_config_layered [OF sample_parses this] show ?thesis by blast
qed

end
