(* ===== verification/Session.thy ===== *)
theory Session
  imports Protocol_V3_Correct
begin

section \<open>Control sessions (core/session)\<close>

text \<open>
  The buffering of a control connection: messages are framed and queued, the queue is limited to 1 MiB and
  drained as far as the socket takes it, and received bytes go through the decoder.  What the kernel
  answers to each \<open>send\<close> and \<open>read\<close> is an argument: a list of send results, used up in order (when it is used up the
  socket would block), and one read result.  The bytes handed to the kernel are returned.
\<close>

definition session_queue_limit :: nat where
  "session_queue_limit = 1024 * 1024"

record session_t =
  s_open :: bool
  s_fsbuf_size :: int
  s_recv_messages :: "protocol_message list"
  s_send_buf :: "frame list"
  s_queued_bytes :: nat
  s_decoder :: protocol_decoder
  s_current_type :: "16 word"
  s_current_id :: "32 word"
  s_next_id :: "32 word"
  s_marked :: bool
  s_notifier :: bool
  s_peer :: "(int \<times> int \<times> int) option"
  s_prog :: "string option"

definition new_session :: "int \<Rightarrow> session_t" where
  "new_session fsbuf_size = \<lparr>s_open = True, s_fsbuf_size = fsbuf_size, s_recv_messages = [], s_send_buf = [],
     s_queued_bytes = 0, s_decoder = empty_decoder, s_current_type = 0, s_current_id = 0, s_next_id = 1,
     s_marked = False, s_notifier = False, s_peer = None, s_prog = None\<rparr>"

definition session_close :: "session_t \<Rightarrow> session_t" where
  "session_close s = (if s_open s then s\<lparr>s_open := False, s_notifier := False, s_prog := None\<rparr> else s)"

definition mark_close :: "session_t \<Rightarrow> session_t" where
  "mark_close s = s\<lparr>s_marked := True\<rparr>"

definition set_write_notifier :: "session_t \<Rightarrow> session_t" where
  "set_write_notifier s = s\<lparr>s_notifier := True\<rparr>"

definition clear_write_notifier :: "session_t \<Rightarrow> session_t" where
  "clear_write_notifier s = s\<lparr>s_notifier := False\<rparr>"

definition set_peer_credentials :: "int \<Rightarrow> int \<Rightarrow> int \<Rightarrow> session_t \<Rightarrow> session_t" where
  "set_peer_credentials pid uid gid s = s\<lparr>s_peer := Some (pid, uid, gid)\<rparr>"

definition set_prog :: "string option \<Rightarrow> session_t \<Rightarrow> session_t" where
  "set_prog p s = s\<lparr>s_prog := p\<rparr>"

subsection \<open>Receiving\<close>

datatype read_result = Read_data frame | Read_eof | Read_again | Read_error | Ioctl_error

text \<open>The result of \<open>read()\<close>; a message of the same chunk as a malformed one is dropped with it.\<close>

definition session_read :: "read_result \<Rightarrow> session_t \<Rightarrow> int \<times> session_t" where
  "session_read r s = (if \<not> s_open s then (-1, s) else case r of
       Ioctl_error \<Rightarrow> (-1, s)
     | Read_eof \<Rightarrow> (0, session_close s)
     | Read_again \<Rightarrow> (0, s)
     | Read_error \<Rightarrow> (-1, s)
     | Read_data bs \<Rightarrow> (case feed bs (s_decoder s) of
           (None, d) \<Rightarrow> (int (length bs),
              s\<lparr>s_decoder := d\<lparr>pd_messages := []\<rparr>, s_recv_messages := s_recv_messages s @ pd_messages d\<rparr>)
         | (Some e, d) \<Rightarrow> (-1, session_close (s\<lparr>s_decoder := d\<rparr>))))"

definition empty_message :: protocol_message where
  "empty_message = \<lparr>pm_type = 0, pm_flags = 0, pm_request_id = 0, pm_payload = []\<rparr>"

text \<open>
  Read until a message is buffered or the session is closed, or once when not blocking.  The read results
  are used up in order; \<open>None\<close> means that the call is still waiting for the next one.
\<close>

fun fill :: "bool \<Rightarrow> read_result list \<Rightarrow> session_t \<Rightarrow> (session_t \<times> read_result list) option" where
  "fill block rs s =
     (if s_recv_messages s \<noteq> [] \<or> \<not> s_open s then Some (s, rs)
      else case rs of
        [] \<Rightarrow> None
      | r # rs' \<Rightarrow> if block then fill block rs' (snd (session_read r s)) else Some (snd (session_read r s), rs'))"

declare fill.simps [simp del]

definition pop_message :: "session_t \<Rightarrow> protocol_message \<times> session_t" where
  "pop_message s = (case s_recv_messages s of
       [] \<Rightarrow> (empty_message, s)
     | m # ms \<Rightarrow> (m, s\<lparr>s_recv_messages := ms, s_current_type := pm_type m, s_current_id := pm_request_id m\<rparr>))"

definition read_message :: "bool \<Rightarrow> read_result list \<Rightarrow> session_t \<Rightarrow> (protocol_message \<times> session_t) option" where
  "read_message block rs s = map_option (\<lambda>(s', _). pop_message s') (fill block rs s)"

definition read_frame :: "bool \<Rightarrow> read_result list \<Rightarrow> session_t \<Rightarrow> (frame option \<times> session_t) option" where
  "read_frame block rs s = map_option (\<lambda>(s', _).
     if s_recv_messages s' = [] then (None, s')
     else let (m, s'') = pop_message s' in (Some (pm_payload m), s'')) (fill block rs s)"

definition get_frame_from_buf :: "session_t \<Rightarrow> frame option \<times> session_t" where
  "get_frame_from_buf s = (case s_recv_messages s of
       [] \<Rightarrow> (None, s)
     | m # ms \<Rightarrow> (Some (pm_payload m), s\<lparr>s_recv_messages := ms\<rparr>))"

subsection \<open>Sending\<close>

datatype send_result = Sent nat | Would_block | Broken_pipe | Send_error

function write_loop ::
  "send_result list \<Rightarrow> int \<Rightarrow> session_t \<Rightarrow> int \<times> frame \<times> session_t \<times> send_result list" where
  "write_loop rs sofar s =
     (if s_send_buf s = [] \<or> \<not> sofar < s_fsbuf_size s then (sofar, [], s, rs)
      else
        let f = hd (s_send_buf s); rest = tl (s_send_buf s) in
        if f = [] then write_loop rs sofar (s\<lparr>s_send_buf := rest\<rparr>)
        else if \<not> s_open s then (sofar, [], s, rs)
        else case rs of
          [] \<Rightarrow> (sofar, [], s, [])
        | Sent n # rs' \<Rightarrow>
            let k = min n (length f) in
            if k = 0 then (sofar, [], s, rs')
            else if k < length f
            then (sofar + int k, take k f,
                  s\<lparr>s_send_buf := drop k f # rest, s_queued_bytes := s_queued_bytes s - k\<rparr>, rs')
            else
              let (t, w, s', r) = write_loop rs' (sofar + int k)
                    (s\<lparr>s_send_buf := rest, s_queued_bytes := s_queued_bytes s - length f\<rparr>)
              in (t, f @ w, s', r)
        | Broken_pipe # rs' \<Rightarrow> (sofar, [], session_close s, rs')
        | _ # rs' \<Rightarrow> (sofar, [], s, rs'))"
  by pat_completeness auto

termination
  by (relation "measure (\<lambda>(rs, sofar, s). length (s_send_buf s))") (auto simp: neq_Nil_conv)

declare write_loop.simps [simp del]

definition session_write :: "send_result list \<Rightarrow> session_t \<Rightarrow> int \<times> frame \<times> session_t \<times> send_result list" where
  "session_write rs s = write_loop rs 0 s"

text \<open>
  The \<open>do ... while\<close> loop that drains the queue: once, or when blocking until the queue is empty or the
  session closed, which may take for ever; \<open>None\<close> is fuel that ran out.
\<close>

fun drain :: "nat \<Rightarrow> bool \<Rightarrow> send_result list \<Rightarrow> int \<Rightarrow> session_t
    \<Rightarrow> (int \<times> frame \<times> session_t \<times> send_result list) option" where
  "drain 0 block rs n s = None"
| "drain (Suc fuel) block rs n s =
     (let (t, w, s', rs') = session_write rs s in
      if block \<and> s_send_buf s' \<noteq> [] \<and> s_open s'
      then (case drain fuel block rs' (n + t) s' of
              None \<Rightarrow> None
            | Some (n', w', s'', rs'') \<Rightarrow> Some (n', w @ w', s'', rs''))
      else Some (n + t, w, s', rs'))"

text \<open>What a write returns: its result, the bytes sent, whether the notifier was called, and the session.\<close>

record write_outcome =
  wo_result :: int
  wo_sent :: frame
  wo_notified :: bool
  wo_session :: session_t

definition refused :: "session_t \<Rightarrow> write_outcome" where
  "refused s = \<lparr>wo_result = -1, wo_sent = [], wo_notified = False, wo_session = s\<rparr>"

text \<open>Queue an encoded message and drain the queue.\<close>

definition enqueue :: "nat \<Rightarrow> bool \<Rightarrow> send_result list \<Rightarrow> frame \<Rightarrow> session_t \<Rightarrow> write_outcome option" where
  "enqueue fuel block rs ef s =
     (if s_queued_bytes s + length ef > session_queue_limit then Some (refused (session_close s))
      else
        let s = s\<lparr>s_queued_bytes := s_queued_bytes s + length ef, s_send_buf := s_send_buf s @ [ef]\<rparr> in
        case drain fuel block rs 0 s of
          None \<Rightarrow> None
        | Some (n, w, s', _) \<Rightarrow>
            Some \<lparr>wo_result = n, wo_sent = w, wo_notified = (s_send_buf s' \<noteq> [] \<and> s_notifier s'), wo_session = s'\<rparr>)"

definition response_flags :: "frame \<Rightarrow> byte" where
  "response_flags f =
     (if length f \<ge> 4 \<and> sint (get32 f) \<noteq> 0 then protocol_flag_response OR protocol_flag_error
      else protocol_flag_response)"

definition response_message :: "frame \<Rightarrow> session_t \<Rightarrow> protocol_message" where
  "response_message f s =
     \<lparr>pm_type = s_current_type s, pm_flags = response_flags f, pm_request_id = s_current_id s, pm_payload = f\<rparr>"

text \<open>
  The three kinds of writes.  \<open>protocol_encode\<close> throws before the message is queued; the session is then left
  as it was at that point.
\<close>

type_synonym write_result = "(exn \<times> session_t) + write_outcome option"

definition send_message :: "nat \<Rightarrow> bool \<Rightarrow> send_result list \<Rightarrow> protocol_message \<Rightarrow> session_t \<Rightarrow> write_result" where
  "send_message fuel block rs m s = (case protocol_encode m of
       Inl e \<Rightarrow> Inl (e, s)
     | Inr ef \<Rightarrow> Inr (enqueue fuel block rs ef s))"

definition write_frame :: "nat \<Rightarrow> bool \<Rightarrow> send_result list \<Rightarrow> frame \<Rightarrow> session_t \<Rightarrow> write_result" where
  "write_frame fuel block rs f s = (case protocol_encode (response_message f s) of
       Inl e \<Rightarrow> Inl (e, s)
     | Inr ef \<Rightarrow> Inr (if s_open s then enqueue fuel block rs ef s else Some (refused s)))"

definition command_message :: "frame \<Rightarrow> 32 word \<Rightarrow> byte \<Rightarrow> session_t \<Rightarrow> protocol_message" where
  "command_message f request_id flags s =
     \<lparr>pm_type = ucast (hd f), pm_flags = flags,
      pm_request_id = (if request_id = 0 then s_next_id s else request_id), pm_payload = tl f\<rparr>"

definition write_command_frame ::
  "nat \<Rightarrow> bool \<Rightarrow> send_result list \<Rightarrow> frame \<Rightarrow> 32 word \<Rightarrow> byte \<Rightarrow> session_t \<Rightarrow> write_result" where
  "write_command_frame fuel block rs f request_id flags s =
     (if f = [] \<or> \<not> s_open s then Inr (Some (refused s))
      else send_message fuel block rs (command_message f request_id flags s)
             (if request_id = 0 then s\<lparr>s_next_id := s_next_id s + 1\<rparr> else s))"

definition stream_message :: "frame \<Rightarrow> bool \<Rightarrow> session_t \<Rightarrow> protocol_message" where
  "stream_message f more_follows s =
     \<lparr>pm_type = s_current_type s,
      pm_flags = protocol_flag_response OR protocol_flag_stream OR (if more_follows then protocol_flag_more else 0),
      pm_request_id = s_current_id s, pm_payload = f\<rparr>"

definition write_stream_frame ::
  "nat \<Rightarrow> bool \<Rightarrow> send_result list \<Rightarrow> frame \<Rightarrow> bool \<Rightarrow> session_t \<Rightarrow> write_result" where
  "write_stream_frame fuel block rs f more_follows s =
     (if \<not> s_open s then Inr (Some (refused s))
      else send_message fuel block rs (stream_message f more_follows s) s)"

subsection \<open>The queue\<close>

definition queue_ok :: "session_t \<Rightarrow> bool" where
  "queue_ok s \<longleftrightarrow> s_queued_bytes s = length (concat (s_send_buf s)) \<and> s_queued_bytes s \<le> session_queue_limit"

lemma session_close_sel [simp]:
  "s_send_buf (session_close s) = s_send_buf s" "s_queued_bytes (session_close s) = s_queued_bytes s"
  "\<not> s_open (session_close s)"
  by (simp_all add: session_close_def)

lemma queue_ok_close [simp]: "queue_ok (session_close s) = queue_ok s"
  by (simp add: queue_ok_def)

text \<open>The branches of \<open>write\<close>.\<close>

lemma write_loop_stop:
  "s_send_buf s = [] \<or> \<not> sofar < s_fsbuf_size s \<Longrightarrow> write_loop rs sofar s = (sofar, [], s, rs)"
  by (subst write_loop.simps) auto

lemma write_loop_skip:
  "s_send_buf s = [] # rest \<Longrightarrow> sofar < s_fsbuf_size s \<Longrightarrow>
     write_loop rs sofar s = write_loop rs sofar (s\<lparr>s_send_buf := rest\<rparr>)"
  by (subst write_loop.simps) simp

lemma write_loop_whole:
  "s_send_buf s = f # rest \<Longrightarrow> f \<noteq> [] \<Longrightarrow> sofar < s_fsbuf_size s \<Longrightarrow> s_open s \<Longrightarrow> length f \<le> n \<Longrightarrow>
     write_loop (Sent n # rs) sofar s =
       (let (t, w, s', r) = write_loop rs (sofar + int (length f))
              (s\<lparr>s_send_buf := rest, s_queued_bytes := s_queued_bytes s - length f\<rparr>)
        in (t, f @ w, s', r))"
  by (subst write_loop.simps) (simp add: min_absorb2 Let_def)

text \<open>A frame that is not sent whole ends the call, and at most its front was sent.\<close>

lemma write_loop_part:
  assumes "s_send_buf s = f # rest" "f \<noteq> []" "sofar < s_fsbuf_size s"
    and "\<not> (s_open s \<and> (\<exists>n rs1. rs = Sent n # rs1 \<and> length f \<le> n))"
  obtains k s' rs' where "write_loop rs sofar s = (sofar + int k, take k f, s', rs')" "k < length f"
    "s_send_buf s' = drop k f # rest" "s_queued_bytes s' = s_queued_bytes s - k"
proof (cases "\<exists>n rs1. s_open s \<and> rs = Sent n # rs1 \<and> 0 < n")
  case True
  then obtain n rs1 where n: "rs = Sent n # rs1" "0 < n" "s_open s" "n < length f" using assms(4) by auto
  let ?s = "s\<lparr>s_send_buf := drop n f # rest, s_queued_bytes := s_queued_bytes s - n\<rparr>"
  have "write_loop rs sofar s = (sofar + int n, take n f, ?s, rs1)"
    by (subst write_loop.simps) (use assms(1-3) n in simp)
  with n that show thesis by simp
next
  case False
  have "\<exists>s' rs'. write_loop rs sofar s = (sofar, [], s', rs') \<and> s_send_buf s' = s_send_buf s \<and>
    s_queued_bytes s' = s_queued_bytes s"
    by (subst write_loop.simps) (use assms(1-3) False in \<open>auto split: list.splits send_result.splits\<close>)
  with assms(1,2) that [of 0] show thesis by fastforce
qed

text \<open>Draining sends the front of the queue, in order, and keeps the rest.\<close>

definition accounted :: "session_t \<Rightarrow> bool" where
  "accounted s \<longleftrightarrow> s_queued_bytes s = length (concat (s_send_buf s))"

lemma write_loop_sends:
  "write_loop rs sofar s = (t, w, s', rs') \<Longrightarrow> accounted s \<Longrightarrow>
     concat (s_send_buf s) = w @ concat (s_send_buf s') \<and> t = sofar + int (length w) \<and> accounted s'"
proof (induction "s_send_buf s" arbitrary: rs sofar s t w)
  case Nil
  then show ?case by (auto simp: write_loop_stop)
next
  case (Cons f rest)
  note b = Cons(2) [symmetric]
  consider "\<not> sofar < s_fsbuf_size s" | "sofar < s_fsbuf_size s" "f = []"
    | n rs1 where "sofar < s_fsbuf_size s" "f \<noteq> []" "s_open s" "rs = Sent n # rs1" "length f \<le> n"
    | "sofar < s_fsbuf_size s" "f \<noteq> []" "\<not> (s_open s \<and> (\<exists>n rs1. rs = Sent n # rs1 \<and> length f \<le> n))"
    by blast
  then show ?case
  proof cases
    case 1
    with Cons(3,4) show ?thesis by (simp add: write_loop_stop)
  next
    case 2
    have "write_loop rs sofar (s\<lparr>s_send_buf := rest\<rparr>) = (t, w, s', rs')" "accounted (s\<lparr>s_send_buf := rest\<rparr>)"
      using Cons(3,4) 2 b by (simp_all add: write_loop_skip accounted_def)
    from Cons(1) [OF _ this] b 2 show ?thesis by simp
  next
    case 3
    let ?s = "s\<lparr>s_send_buf := rest, s_queued_bytes := s_queued_bytes s - length f\<rparr>"
    from Cons(3) obtain w1 where w: "w = f @ w1" "write_loop rs1 (sofar + int (length f)) ?s = (t, w1, s', rs')"
      using write_loop_whole [OF b 3(2,1,3,5)] 3(4) by (auto simp: Let_def split: prod.splits)
    have "accounted ?s" using Cons(4) b by (simp add: accounted_def)
    from Cons(1) [OF _ w(2) this] b w(1) show ?thesis by simp
  next
    case 4
    obtain k s1 rs1 where "write_loop rs sofar s = (sofar + int k, take k f, s1, rs1)" "k < length f"
      "s_send_buf s1 = drop k f # rest" "s_queued_bytes s1 = s_queued_bytes s - k"
      using write_loop_part [OF b 4(2,1,3)] by metis
    with Cons(3,4) b show ?thesis by (auto simp: accounted_def)
  qed
qed


lemma drain_sends:
  "drain fuel block rs n s = Some (t, w, s', rs') \<Longrightarrow> accounted s \<Longrightarrow>
     concat (s_send_buf s) = w @ concat (s_send_buf s') \<and> t = n + int (length w) \<and> accounted s'"
proof (induction fuel arbitrary: rs n s t w)
  case 0
  then show ?case by simp
next
  case (Suc fuel)
  obtain t1 w1 s1 rs1 where w1: "write_loop rs 0 s = (t1, w1, s1, rs1)" by (cases "write_loop rs 0 s")
  note first = write_loop_sends [OF w1 Suc.prems(2)]
  show ?case
  proof (cases "block \<and> s_send_buf s1 \<noteq> [] \<and> s_open s1")
    case False
    with Suc.prems(1) w1 first show ?thesis by (auto simp: session_write_def)
  next
    case True
    with Suc.prems(1) w1 obtain w2 where "drain fuel block rs1 (n + t1) s1 = Some (t, w2, s', rs')" "w = w1 @ w2"
      by (auto simp: session_write_def split: option.splits)
    with Suc.IH first show ?thesis by fastforce
  qed
qed

text \<open>An accepted message goes to the end of the queue; a refused one closes the session and leaves the queue.\<close>

lemma enqueue_sends:
  assumes "enqueue fuel block rs ef s = Some r" "queue_ok s"
  shows "queue_ok (wo_session r) \<and>
    (if s_queued_bytes s + length ef > session_queue_limit
     then wo_sent r = [] \<and> s_send_buf (wo_session r) = s_send_buf s \<and> \<not> s_open (wo_session r) \<and> wo_result r = -1
     else wo_sent r @ concat (s_send_buf (wo_session r)) = concat (s_send_buf s) @ ef \<and>
          wo_result r = int (length (wo_sent r)))"
proof (cases "s_queued_bytes s + length ef > session_queue_limit")
  case True
  with assms show ?thesis by (auto simp: enqueue_def refused_def)
next
  case False
  let ?s = "s\<lparr>s_queued_bytes := s_queued_bytes s + length ef, s_send_buf := s_send_buf s @ [ef]\<rparr>"
  obtain n w s' rs' where d: "drain fuel block rs 0 ?s = Some (n, w, s', rs')"
    and r: "wo_result r = n" "wo_sent r = w" "wo_session r = s'"
    using assms(1) False by (auto simp: enqueue_def split: option.splits)
  have "accounted ?s" using assms(2) by (simp add: accounted_def queue_ok_def)
  from drain_sends [OF d this] show ?thesis
    using False assms(2) r by (auto simp: accounted_def queue_ok_def dest: arg_cong [of _ _ length])
qed

subsection \<open>Runs of a session\<close>

text \<open>
  The calls of a session, a trace with the bytes sent so far and the messages whose write did not return -1, and
  its runs.  A run that contains a call that has not returned has no trace.
\<close>

datatype session_call =
    Call_write "send_result list"
  | Call_write_frame nat bool "send_result list" frame
  | Call_write_command nat bool "send_result list" frame "32 word" byte
  | Call_write_stream nat bool "send_result list" frame bool
  | Call_read read_result
  | Call_read_message bool "read_result list"
  | Call_read_frame bool "read_result list"
  | Call_get_frame
  | Call_close
  | Call_mark_close
  | Call_notifier bool

record session_trace =
  st_session :: session_t
  st_wire :: frame
  st_accepted :: "protocol_message list"

definition new_trace :: "int \<Rightarrow> session_trace" where
  "new_trace fsbuf_size = \<lparr>st_session = new_session fsbuf_size, st_wire = [], st_accepted = []\<rparr>"

definition after_write :: "protocol_message \<Rightarrow> write_result \<Rightarrow> session_trace \<Rightarrow> session_trace option" where
  "after_write m r tr = (case r of
       Inl (e, s) \<Rightarrow> Some (tr\<lparr>st_session := s\<rparr>)
     | Inr None \<Rightarrow> None
     | Inr (Some w) \<Rightarrow> Some \<lparr>st_session = wo_session w, st_wire = st_wire tr @ wo_sent w,
         st_accepted = st_accepted tr @ (if wo_result w = -1 then [] else [m])\<rparr>)"

fun session_step :: "session_call \<Rightarrow> session_trace \<Rightarrow> session_trace option" where
  "session_step (Call_write rs) tr =
     (let (_, w, s, _) = session_write rs (st_session tr)
      in Some (tr\<lparr>st_session := s, st_wire := st_wire tr @ w\<rparr>))"
| "session_step (Call_write_frame fuel block rs f) tr =
     after_write (response_message f (st_session tr)) (write_frame fuel block rs f (st_session tr)) tr"
| "session_step (Call_write_command fuel block rs f i flags) tr =
     after_write (command_message f i flags (st_session tr))
       (write_command_frame fuel block rs f i flags (st_session tr)) tr"
| "session_step (Call_write_stream fuel block rs f more_follows) tr =
     after_write (stream_message f more_follows (st_session tr))
       (write_stream_frame fuel block rs f more_follows (st_session tr)) tr"
| "session_step (Call_read r) tr = Some (tr\<lparr>st_session := snd (session_read r (st_session tr))\<rparr>)"
| "session_step (Call_read_message block rs) tr =
     map_option (\<lambda>(_, s). tr\<lparr>st_session := s\<rparr>) (read_message block rs (st_session tr))"
| "session_step (Call_read_frame block rs) tr =
     map_option (\<lambda>(_, s). tr\<lparr>st_session := s\<rparr>) (read_frame block rs (st_session tr))"
| "session_step Call_get_frame tr = Some (tr\<lparr>st_session := snd (get_frame_from_buf (st_session tr))\<rparr>)"
| "session_step Call_close tr = Some (tr\<lparr>st_session := session_close (st_session tr)\<rparr>)"
| "session_step Call_mark_close tr = Some (tr\<lparr>st_session := mark_close (st_session tr)\<rparr>)"
| "session_step (Call_notifier b) tr = Some (tr\<lparr>st_session :=
     (if b then set_write_notifier else clear_write_notifier) (st_session tr)\<rparr>)"

definition session_next :: "session_call \<Rightarrow> session_trace option \<Rightarrow> session_trace option" where
  "session_next c tr = Option.bind tr (session_step c)"

definition session_run :: "session_call list \<Rightarrow> session_trace \<Rightarrow> session_trace option" where
  "session_run cs tr = fold session_next cs (Some tr)"

text \<open>The invariant: what was sent and what is queued together are the encodings of the accepted messages.\<close>

definition trace_inv :: "session_trace \<Rightarrow> bool" where
  "trace_inv tr \<longleftrightarrow> queue_ok (st_session tr) \<and> list_all encodable (st_accepted tr) \<and>
     st_wire tr @ concat (s_send_buf (st_session tr)) = concat (map enc_message (st_accepted tr))"

definition same_queue :: "session_t \<Rightarrow> session_t \<Rightarrow> bool" where
  "same_queue s s' \<longleftrightarrow> s_send_buf s' = s_send_buf s \<and> s_queued_bytes s' = s_queued_bytes s"

lemma trace_inv_receive: "trace_inv tr \<Longrightarrow> same_queue (st_session tr) s \<Longrightarrow> trace_inv (tr\<lparr>st_session := s\<rparr>)"
  by (simp add: trace_inv_def queue_ok_def same_queue_def)

lemma session_read_queue: "same_queue s (snd (session_read r s))"
  by (auto simp: same_queue_def session_read_def split: read_result.splits prod.splits option.splits)

lemma fill_queue: "fill block rs s = Some (s', rs') \<Longrightarrow> same_queue s s'"
proof (induction rs arbitrary: s)
  case Nil
  then show ?case by (subst (asm) fill.simps) (auto simp: same_queue_def split: if_splits)
next
  case (Cons r rs)
  show ?case
  proof (cases "s_recv_messages s \<noteq> [] \<or> \<not> s_open s")
    case True
    with Cons.prems show ?thesis by (subst (asm) fill.simps) (auto simp: same_queue_def)
  next
    case False
    then have "fill block rs (snd (session_read r s)) = Some (s', rs') \<or> s' = snd (session_read r s)"
      using Cons.prems by (subst (asm) fill.simps) (auto split: if_splits)
    with Cons.IH session_read_queue [of s r] show ?thesis by (auto simp: same_queue_def)
  qed
qed

lemma pop_message_queue: "same_queue s (snd (pop_message s))"
  by (simp add: pop_message_def same_queue_def split: list.splits)

lemma same_queue_trans: "same_queue s s1 \<Longrightarrow> same_queue s1 s2 \<Longrightarrow> same_queue s s2"
  by (simp add: same_queue_def)

lemma read_message_queue:
  assumes "read_message block rs s = Some (m, s')"
  shows "same_queue s s'"
proof -
  obtain s1 rs1 where f: "fill block rs s = Some (s1, rs1)" "s' = snd (pop_message s1)"
    using assms by (auto simp: read_message_def split: option.splits)
  show ?thesis unfolding f(2) using fill_queue [OF f(1)] pop_message_queue by (rule same_queue_trans)
qed

lemma read_frame_queue:
  assumes "read_frame block rs s = Some (m, s')"
  shows "same_queue s s'"
proof -
  obtain s1 rs1 where f: "fill block rs s = Some (s1, rs1)" "s' = s1 \<or> s' = snd (pop_message s1)"
    using assms by (auto simp: read_frame_def split: option.splits prod.splits if_splits)
  from f(2) fill_queue [OF f(1)] pop_message_queue [of s1] show ?thesis by (auto intro: same_queue_trans)
qed

text \<open>A write of any kind keeps the invariant.\<close>

lemma trace_inv_enqueue:
  assumes "after_write m (Inr (enqueue fuel block rs (enc_message m) s)) tr = Some tr'"
    and "encodable m" "trace_inv tr" "same_queue (st_session tr) s"
  shows "trace_inv tr'"
proof -
  obtain r where r: "enqueue fuel block rs (enc_message m) s = Some r"
    using assms(1) by (auto simp: after_write_def split: option.splits)
  have "queue_ok s" using assms(3,4) by (simp add: trace_inv_def queue_ok_def same_queue_def)
  from enqueue_sends [OF r this] assms r show ?thesis
    by (auto simp: trace_inv_def same_queue_def after_write_def split: if_splits)
qed

lemma trace_inv_refused:
  "after_write m (Inr (Some (refused (st_session tr)))) tr = Some tr' \<Longrightarrow> trace_inv tr \<Longrightarrow> trace_inv tr'"
  by (auto simp: after_write_def refused_def trace_inv_def)

lemma trace_inv_throw:
  "after_write m (Inl (e, s)) tr = Some tr' \<Longrightarrow> trace_inv tr \<Longrightarrow> same_queue (st_session tr) s \<Longrightarrow> trace_inv tr'"
  by (auto simp: after_write_def trace_inv_receive)

lemma trace_inv_send:
  "after_write m (send_message fuel block rs m s) tr = Some tr' \<Longrightarrow> trace_inv tr \<Longrightarrow> same_queue (st_session tr) s \<Longrightarrow>
     trace_inv tr'"
  by (cases "protocol_encode m")
     (auto simp: send_message_def protocol_encode_iff elim: trace_inv_throw trace_inv_enqueue)

lemma same_queue_refl: "same_queue s s" "same_queue s (s\<lparr>s_next_id := n\<rparr>)" "same_queue s (session_close s)"
  "same_queue s (mark_close s)" "same_queue s (set_write_notifier s)" "same_queue s (clear_write_notifier s)"
  by (simp_all add: same_queue_def mark_close_def set_write_notifier_def clear_write_notifier_def)

lemma trace_inv_write_frame:
  "after_write (response_message f (st_session tr)) (write_frame fuel block rs f (st_session tr)) tr = Some tr' \<Longrightarrow>
     trace_inv tr \<Longrightarrow> trace_inv tr'"
  using trace_inv_enqueue [OF _ _ _ same_queue_refl(1)]
  by (cases "protocol_encode (response_message f (st_session tr))")
     (auto simp: write_frame_def protocol_encode_iff same_queue_refl elim: trace_inv_throw trace_inv_refused split: if_splits)

lemma trace_inv_session_write:
  assumes "session_write rs (st_session tr) = (t, w, s, r)" "trace_inv tr"
  shows "trace_inv (tr\<lparr>st_session := s, st_wire := st_wire tr @ w\<rparr>)"
proof -
  have "accounted (st_session tr)" using assms(2) by (simp add: trace_inv_def queue_ok_def accounted_def)
  from write_loop_sends [OF assms(1) [unfolded session_write_def] this] assms(2) show ?thesis
    by (auto simp: trace_inv_def queue_ok_def accounted_def dest: arg_cong [of _ _ length])
qed

lemma session_step_inv: "session_step c tr = Some tr' \<Longrightarrow> trace_inv tr \<Longrightarrow> trace_inv tr'"
proof (cases c)
  case (Call_write rs)
  moreover assume "session_step c tr = Some tr'" "trace_inv tr"
  ultimately show ?thesis using trace_inv_session_write by (auto split: prod.splits)
next
  case (Call_write_command fuel block rs f i flags)
  moreover assume "session_step c tr = Some tr'" "trace_inv tr"
  ultimately show ?thesis
    by (auto simp: write_command_frame_def same_queue_refl elim: trace_inv_refused trace_inv_send split: if_splits)
next
  case (Call_write_stream fuel block rs f more_follows)
  moreover assume "session_step c tr = Some tr'" "trace_inv tr"
  ultimately show ?thesis
    by (auto simp: write_stream_frame_def same_queue_refl elim: trace_inv_refused trace_inv_send split: if_splits)
next
  case Call_get_frame
  moreover assume "session_step c tr = Some tr'" "trace_inv tr"
  ultimately show ?thesis
    by (auto simp: get_frame_from_buf_def same_queue_def split: list.splits intro!: trace_inv_receive)
qed (auto simp: same_queue_refl session_read_queue trace_inv_receive elim: trace_inv_write_frame
     dest!: read_message_queue read_frame_queue)

interpretation session: invariant_machine session_next "\<lambda>_. True" "pred_option trace_inv"
  by unfold_locales (auto simp: session_next_def pred_option_def dest: session_step_inv split: bind_splits)

text \<open>What the peer decodes of a prefix of the encodings.\<close>

lemma feed_wire_prefix:
  assumes "list_all encodable ms" "w @ q = concat (map enc_message ms)"
  obtains d where "feed w empty_decoder = (None, d)" "\<exists>rest. ms = pd_messages d @ rest" "q = [] \<Longrightarrow> d = \<lparr>pd_buffer = [], pd_messages = ms\<rparr>"
proof -
  have all: "decode_loop (w @ q) [] = (None, [], ms)"
    using decode_loop_messages [OF assms(1), of "[]" "[]"] by (simp add: assms(2) decode_loop_Nil)
  have whole: "feed (w @ q) empty_decoder = (None, \<lparr>pd_buffer = [], pd_messages = ms\<rparr>)"
    using all by (auto simp: feed_def empty_decoder_def decode_loop_Nil)
  then obtain d where d: "feed w empty_decoder = (None, d)" by (rule feed_prefix_ok)
  show thesis
  proof (rule that [OF d])
    show "q = [] \<Longrightarrow> d = \<lparr>pd_buffer = [], pd_messages = ms\<rparr>" using whole d by simp
    have rest: "feed q d = (None, \<lparr>pd_buffer = [], pd_messages = ms\<rparr>)" using feed_append [OF d, of q] whole by simp
    show "\<exists>rest. ms = pd_messages d @ rest"
    proof (cases "q = []")
      case True
      with rest show ?thesis by (simp add: feed_def)
    next
      case False
      with rest have "decode_loop (pd_buffer d @ q) (pd_messages d) = (None, [], ms)"
        by (auto simp: feed_def split: prod.splits)
      from decode_loop_lossless [OF this] show ?thesis by blast
    qed
  qed
qed


text \<open>
  C37: a session delivers what it accepts, in order, and its queue is bounded.  After any calls, the bytes given to the
  socket followed by the queued ones are the encodings of the messages whose write was accepted, the byte
  counter is the length of the queue and at most 1 MiB, and a peer that decodes the bytes, in reads of any size, gets the first
  of these messages without an error, and all of them when the queue is empty.
\<close>

theorem session_delivers:
  assumes "session_run calls (new_trace fsbuf_size) = Some tr" "concat chunks = st_wire tr"
  shows "s_queued_bytes (st_session tr) = length (concat (s_send_buf (st_session tr))) \<and>
    s_queued_bytes (st_session tr) \<le> session_queue_limit \<and>
    (\<exists>encodings. map protocol_encode (st_accepted tr) = map Inr encodings \<and>
       st_wire tr @ concat (s_send_buf (st_session tr)) = concat encodings) \<and>
    (\<exists>d rest. feed_all chunks empty_decoder = (None, d) \<and> st_accepted tr = pd_messages d @ rest \<and>
       (s_send_buf (st_session tr) = [] \<longrightarrow> rest = [] \<and> pd_buffer d = []))"
proof -
  have "trace_inv (new_trace fsbuf_size)"
    by (simp add: trace_inv_def new_trace_def new_session_def queue_ok_def)
  then have inv: "trace_inv tr"
    using session.inv_run [of "Some (new_trace fsbuf_size)" calls] assms(1) by (simp add: session_run_def list_all_length)
  then have enc: "map protocol_encode (st_accepted tr) = map Inr (map enc_message (st_accepted tr))"
    by (auto simp: trace_inv_def list_all_iff protocol_encode_iff)
  obtain d rest where "feed (st_wire tr) empty_decoder = (None, d)" "st_accepted tr = pd_messages d @ rest"
    "s_send_buf (st_session tr) = [] \<Longrightarrow> d = \<lparr>pd_buffer = [], pd_messages = st_accepted tr\<rparr>"
  proof (rule feed_wire_prefix)
    show "list_all encodable (st_accepted tr)" using inv by (simp add: trace_inv_def)
    show "st_wire tr @ concat (s_send_buf (st_session tr)) = concat (map enc_message (st_accepted tr))"
      using inv by (simp add: trace_inv_def)
  qed (metis concat.simps(1))
  then have peer: "\<exists>d rest. feed_all chunks empty_decoder = (None, d) \<and> st_accepted tr = pd_messages d @ rest \<and>
      (s_send_buf (st_session tr) = [] \<longrightarrow> rest = [] \<and> pd_buffer d = [])"
    using assms(2) by (intro exI [of _ d] exI [of _ rest])
      (force simp: feed_all_concat dest: arg_cong [of _ _ pd_messages] arg_cong [of _ _ pd_buffer])
  show ?thesis
  proof (intro conjI)
    show "\<exists>encodings. map protocol_encode (st_accepted tr) = map Inr encodings \<and>
        st_wire tr @ concat (s_send_buf (st_session tr)) = concat encodings"
      using enc inv by (intro exI [of _ "map enc_message (st_accepted tr)"]) (simp add: trace_inv_def)
  qed (use inv peer in \<open>auto simp: trace_inv_def queue_ok_def\<close>)
qed

text \<open>A command of which the socket takes three bytes.\<close>

definition sample_trace :: session_trace where
  "sample_trace = \<lparr>st_session = (new_session 4096)\<lparr>s_queued_bytes := 15,
     s_send_buf := [[0x33, 3, 1, 0, 0x23, 0, 0, 0, 7, 0, 0, 0, 2, 1, 2]]\<rparr>,
     st_wire = [0x50, 0x4D, 0x54], st_accepted = [sample_message]\<rparr>"

lemma sample_command: "command_message [0x23, 1, 2] 7 1 s = sample_message"
  by (simp add: command_message_def sample_message_def)

lemma sample_run:
  "session_run [Call_write_command 1 False [Sent 3, Would_block] [0x23, 1, 2] 7 1] (new_trace 4096) = Some sample_trace"
  by (simp add: session_run_def session_next_def new_trace_def write_command_frame_def new_session_def sample_trace_def
      sample_command send_message_def sample_message_encode enqueue_def session_queue_limit_def session_write_def
      write_loop.simps after_write_def)

theorem session_delivers_witness:
  "\<exists>d rest. feed_all [[0x50], [0x4D, 0x54]] empty_decoder = (None, d) \<and> [sample_message] = pd_messages d @ rest"
  using session_delivers [OF sample_run, of "[[0x50], [0x4D, 0x54]]"] by (simp add: sample_trace_def)

end
