(* ===== verification/Session_Blocking.thy ===== *)
theory Session_Blocking
  imports Session
begin

section \<open>Blocking writes end\<close>

text \<open>
  The client writes in blocking mode: \<open>write_frame\<close> repeats \<open>write\<close> until the queue is empty or the session closed.
  The loop ends as soon as the socket has answered often enough with progress.
\<close>

fun progress :: "send_result \<Rightarrow> bool" where
  "progress (Sent n) = (0 < n)"
| "progress Broken_pipe = True"
| "progress _ = False"

text \<open>What one \<open>write\<close> uses up, and what it achieves with it.\<close>

definition write_used :: "send_result list \<Rightarrow> int \<Rightarrow> session_t \<Rightarrow> int \<times> frame \<times> session_t \<times> send_result list \<Rightarrow> bool" where
  "write_used rs sofar s = (\<lambda>(t, w, s', rs'). \<exists>used. rs = used @ rs' \<and> s_fsbuf_size s' = s_fsbuf_size s \<and>
     (s_open s' \<longrightarrow> s_open s \<and> length (filter progress used) \<le> length w) \<and>
     (\<not> s_open s' \<longrightarrow> \<not> s_open s \<or> Broken_pipe \<in> set used) \<and>
     (sofar < s_fsbuf_size s \<and> s_open s' \<and> s_send_buf s' \<noteq> [] \<longrightarrow> concat (s_send_buf s) \<noteq> [] \<and> (rs = [] \<or> used \<noteq> [])))"

lemma write_used_stop: "s_send_buf s = [] \<or> \<not> sofar < s_fsbuf_size s \<Longrightarrow> write_used rs sofar s (write_loop rs sofar s)"
  by (auto simp: write_loop_stop write_used_def)

lemma write_used_part:
  assumes "s_send_buf s = f # rest" "f \<noteq> []" "sofar < s_fsbuf_size s" "\<not> (s_open s \<and> (\<exists>n rs1. rs = Sent n # rs1 \<and> length f \<le> n))"
  shows "write_used rs sofar s (write_loop rs sofar s)"
proof (cases "s_open s")
  case True
  show ?thesis
  proof (cases rs)
    case (Cons r rs1)
    then show ?thesis using assms True
      by (subst write_loop.simps) (cases r; auto simp: write_used_def Let_def session_close_def)
  qed (use assms True in \<open>subst write_loop.simps, auto simp: write_used_def\<close>)
qed (use assms in \<open>subst write_loop.simps, auto simp: write_used_def\<close>)

lemma write_loop_used: "write_used rs sofar s (write_loop rs sofar s)"
proof (induction "s_send_buf s" arbitrary: rs sofar s)
  case (Cons f rest)
  note b = Cons(2) [symmetric]
  consider "\<not> sofar < s_fsbuf_size s" | "sofar < s_fsbuf_size s" "f = []"
    | n rs1 where "sofar < s_fsbuf_size s" "f \<noteq> []" "s_open s" "rs = Sent n # rs1" "length f \<le> n"
    | "sofar < s_fsbuf_size s" "f \<noteq> []" "\<not> (s_open s \<and> (\<exists>n rs1. rs = Sent n # rs1 \<and> length f \<le> n))"
    by blast
  then show ?case
  proof cases
    case 2
    from Cons(1) [of "s\<lparr>s_send_buf := rest\<rparr>" rs sofar] b 2 show ?thesis
      by (simp add: write_loop_skip write_used_def case_prod_beta)
  next
    case 3
    let ?s = "s\<lparr>s_send_buf := rest, s_queued_bytes := s_queued_bytes s - length f\<rparr>"
    obtain t w s' rs' where w: "write_loop rs1 (sofar + int (length f)) ?s = (t, w, s', rs')" by (metis prod_cases4)
    from Cons(1) [of ?s rs1 "sofar + int (length f)"] w obtain used where
      u: "rs1 = used @ rs'" "s_fsbuf_size s' = s_fsbuf_size s" "s_open s' \<longrightarrow> length (filter progress used) \<le> length w"
      "\<not> s_open s' \<longrightarrow> Broken_pipe \<in> set used"
      using 3(3) by (auto simp: write_used_def)
    have "write_loop rs sofar s = (t, f @ w, s', rs')"
      using write_loop_whole [OF b 3(2,1,3,5)] w 3(4) by simp
    moreover have "length (filter progress (Sent n # used)) \<le> length (f @ w)" if "s_open s'"
    proof -
      have "1 \<le> length f" using 3(2) by (cases f) auto
      then show ?thesis using that u(3) by simp
    qed
    ultimately show ?thesis using u 3 b
      by (auto simp: write_used_def intro!: exI [of _ "Sent n # used"])
  qed (use b write_used_stop write_used_part in auto)
qed (simp add: write_used_stop)

lemma drain_ends:
  assumes "accounted s" "0 < s_fsbuf_size s" "length (concat (s_send_buf s)) \<le> length (filter progress rs)" "length rs < fuel"
  shows "\<exists>t w s' rs'. drain fuel True rs n s = Some (t, w, s', rs') \<and> (s_send_buf s' = [] \<or> \<not> s_open s') \<and>
    (\<not> s_open s' \<longrightarrow> \<not> s_open s \<or> Broken_pipe \<in> set rs)"
  using assms
proof (induction fuel arbitrary: rs n s)
  case (Suc fuel)
  obtain t w s' rs' where w: "write_loop rs 0 s = (t, w, s', rs')" by (metis prod_cases4)
  note sends = write_loop_sends [OF w Suc.prems(1)]
  from write_loop_used [of rs 0 s] w obtain used where u: "rs = used @ rs'" "s_fsbuf_size s' = s_fsbuf_size s"
    "s_open s' \<longrightarrow> s_open s \<and> length (filter progress used) \<le> length w" "\<not> s_open s' \<longrightarrow> \<not> s_open s \<or> Broken_pipe \<in> set used"
    "s_open s' \<and> s_send_buf s' \<noteq> [] \<longrightarrow> concat (s_send_buf s) \<noteq> [] \<and> (rs = [] \<or> used \<noteq> [])"
    using Suc.prems(2) by (auto simp: write_used_def)
  show ?case
  proof (cases "s_send_buf s' \<noteq> [] \<and> s_open s'")
    case True
    with u(5) Suc.prems(3) have "used \<noteq> []" by auto
    then have "length rs' < fuel" using u(1) Suc.prems(4) by (cases used) auto
    moreover have "length (concat (s_send_buf s')) \<le> length (filter progress rs')"
      using Suc.prems(3) sends u(1,3) True by simp
    ultimately obtain t2 w2 s2 rs2 where "drain fuel True rs' (n + t) s' = Some (t2, w2, s2, rs2)"
      "s_send_buf s2 = [] \<or> \<not> s_open s2" "\<not> s_open s2 \<longrightarrow> \<not> s_open s' \<or> Broken_pipe \<in> set rs'"
      using Suc.IH [of s' rs' "n + t"] sends u(2) Suc.prems(2) by auto
    then show ?thesis using w u(1) True by (auto simp: session_write_def)
  next
    case False
    then show ?thesis using w u(1,4) by (auto simp: session_write_def)
  qed
qed simp

text \<open>
  C38: A blocking write ends.  If among the answers of the socket at least as many make progress (send a byte or more, or
  report a broken pipe) as there are bytes to send, the write of a message returns, after at most one round per answer;
  the queue is then empty, and everything in it was sent in order, unless the pipe broke.
\<close>

theorem blocking_write_ends:
  assumes "queue_ok s" "s_open s" "0 < s_fsbuf_size s" "s_queued_bytes s + length ef \<le> session_queue_limit"
    "s_queued_bytes s + length ef \<le> length (filter progress rs)" "length rs < fuel"
  shows "\<exists>outcome. enqueue fuel True rs ef s = Some outcome \<and>
    (if s_open (wo_session outcome)
     then s_send_buf (wo_session outcome) = [] \<and> wo_sent outcome = concat (s_send_buf s) @ ef \<and>
       wo_result outcome = int (s_queued_bytes s + length ef)
     else Broken_pipe \<in> set rs)"
proof -
  let ?s = "s\<lparr>s_queued_bytes := s_queued_bytes s + length ef, s_send_buf := s_send_buf s @ [ef]\<rparr>"
  have a: "accounted ?s" using assms(1) by (simp add: accounted_def queue_ok_def)
  have "length (concat (s_send_buf ?s)) \<le> length (filter progress rs)" using assms(1,5) by (simp add: queue_ok_def)
  from drain_ends [OF a _ this assms(6), of 0] assms(3) obtain t w s' rs' where
    d: "drain fuel True rs 0 ?s = Some (t, w, s', rs')" "s_send_buf s' = [] \<or> \<not> s_open s'"
    "\<not> s_open s' \<longrightarrow> \<not> s_open s \<or> Broken_pipe \<in> set rs" by auto
  have e: "enqueue fuel True rs ef s = Some \<lparr>wo_result = t, wo_sent = w, wo_notified = (s_send_buf s' \<noteq> [] \<and> s_notifier s'),
      wo_session = s'\<rparr>"
    using d(1) assms(4) by (simp add: enqueue_def)
  have "concat (s_send_buf s) @ ef = w @ concat (s_send_buf s')" "t = int (length w)" using drain_sends [OF d(1) a] by simp_all
  moreover have "length (concat (s_send_buf s) @ ef) = s_queued_bytes s + length ef" using assms(1) by (simp add: queue_ok_def)
  ultimately show ?thesis unfolding e using d(2,3) assms(2) by (cases "s_open s'") simp_all
qed

lemma blocking_write_ends_witness:
  "\<exists>outcome. enqueue 5 True [Sent 1, Would_block, Sent 8, Sent 1] [1, 2, 3] (new_session 4096) = Some outcome \<and>
    wo_sent outcome = [1, 2, 3]"
proof -
  let ?rs = "[Sent 1, Would_block, Sent 8, Sent 1]"
  have n: "queue_ok (new_session 4096)" "s_open (new_session 4096)" "0 < s_fsbuf_size (new_session 4096)"
    "s_queued_bytes (new_session 4096) = 0" "s_send_buf (new_session 4096) = []"
    by (simp_all add: new_session_def queue_ok_def session_queue_limit_def)
  from blocking_write_ends [OF n(1-3), of "[1, 2, 3]" ?rs 5] obtain outcome where
    "enqueue 5 True ?rs [1, 2, 3] (new_session 4096) = Some outcome" "if s_open (wo_session outcome)
     then s_send_buf (wo_session outcome) = [] \<and> wo_sent outcome = concat (s_send_buf (new_session 4096)) @ [1, 2, 3] \<and>
       wo_result outcome = int (s_queued_bytes (new_session 4096) + length [1, 2, 3 :: byte])
     else Broken_pipe \<in> set ?rs"
    by (auto simp: n session_queue_limit_def)
  then show ?thesis by (auto simp: n split: if_splits)
qed

end
