(* ===== verification/Restart_Policy.thy ===== *)
theory Restart_Policy
  imports Prelude
begin

section \<open>The automatic restart policy (core/restart_policy)\<close>

text \<open>
  When the daemon restarts a program that died on its own: how long it waits, and when it gives up.
  Times are \<open>int\<close>; the daemon's monotonic milliseconds are far from the limits of \<open>int64_t\<close>, and the
  delays below stay within twice an \<open>int\<close>.
\<close>

record restart_policy_config =
  rc_delay_ms :: int
  rc_max_delay_ms :: int
  rc_window_ms :: int
  rc_max_attempts :: int
  rc_reset_after_ms :: int

record restart_policy_state =
  rp_attempts_ms :: "int list"
  rp_consecutive_failures :: nat
  rp_suppressed :: bool

record restart_decision =
  rd_restart :: bool
  rd_suppressed :: bool
  rd_delay_ms :: int
  rd_attempts_in_window :: int

definition reset_policy :: "restart_policy_state \<Rightarrow> restart_policy_state" where
  "reset_policy s = s\<lparr>rp_attempts_ms := [], rp_consecutive_failures := 0, rp_suppressed := False\<rparr>"

text \<open>The loop that doubles the delay, with the number of rounds left.\<close>

fun double_delay :: "nat \<Rightarrow> int \<Rightarrow> int \<Rightarrow> int" where
  "double_delay 0 delay maximum_delay = delay"
| "double_delay (Suc n) delay maximum_delay =
     (if delay < maximum_delay then double_delay n (min maximum_delay (delay * 2)) maximum_delay else delay)"

definition plan_automatic_restart ::
  "restart_policy_config \<Rightarrow> restart_policy_state \<Rightarrow> int \<Rightarrow> int \<Rightarrow> restart_decision \<times> restart_policy_state" where
  "plan_automatic_restart config state now_ms runtime_ms =
     (let state = (if rc_reset_after_ms config > 0 \<and> runtime_ms \<ge> rc_reset_after_ms config
                   then reset_policy state else state);
          window_ms = max 0 (rc_window_ms config);
          state = state\<lparr>rp_attempts_ms := dropWhile (\<lambda>t. now_ms - t \<ge> window_ms) (rp_attempts_ms state)\<rparr>;
          attempts = int (length (rp_attempts_ms state))
      in if rc_max_attempts config > 0 \<and> attempts \<ge> rc_max_attempts config
         then (\<lparr>rd_restart = False, rd_suppressed = True, rd_delay_ms = 0, rd_attempts_in_window = attempts\<rparr>,
               state\<lparr>rp_suppressed := True\<rparr>)
         else
           let base_delay = max 0 (rc_delay_ms config);
               maximum_delay = max base_delay (rc_max_delay_ms config);
               delay = double_delay (rp_consecutive_failures state) base_delay maximum_delay
           in (\<lparr>rd_restart = True, rd_suppressed = False, rd_delay_ms = min delay (2 ^ 31 - 1),
                rd_attempts_in_window = int (length (rp_attempts_ms state @ [now_ms]))\<rparr>,
               state\<lparr>rp_attempts_ms := rp_attempts_ms state @ [now_ms],
                     rp_consecutive_failures := Suc (rp_consecutive_failures state),
                     rp_suppressed := False\<rparr>))"

definition new_policy :: restart_policy_state where
  "new_policy = \<lparr>rp_attempts_ms = [], rp_consecutive_failures = 0, rp_suppressed = False\<rparr>"

text \<open>A history of deaths, each with its time and how long the program had run: the times of the
  restarts that are granted.\<close>

fun granted ::
  "restart_policy_config \<Rightarrow> restart_policy_state \<Rightarrow> (int \<times> int) list \<Rightarrow> int list" where
  "granted config state [] = []"
| "granted config state ((now, runtime) # deaths) =
     (case plan_automatic_restart config state now runtime of
        (d, state') \<Rightarrow> (if rd_restart d then [now] else []) @ granted config state' deaths)"

subsection \<open>The delay\<close>

lemma double_delay_closed:
  "0 \<le> d \<Longrightarrow> d \<le> m \<Longrightarrow> double_delay n d m = min m (d * 2 ^ n)"
proof (induction n d m rule: double_delay.induct)
  case (1 d m)
  then show ?case by simp
next
  case (2 n d m)
  show ?case
  proof (cases "d < m")
    case True
    have "min m (min m (d * 2) * 2 ^ n) = min m (d * 2 ^ Suc n)"
    proof (cases "d * 2 \<le> m")
      case False
      have "m * 1 \<le> m * 2 ^ n" "d * 2 * 1 \<le> d * 2 * 2 ^ n"
        using 2(2) True by (intro mult_left_mono; simp)+
      with False show ?thesis by (simp add: min_def)
    qed (simp add: ac_simps)
    with 2 True show ?thesis by simp
  next
    case False
    with 2(3) have "d = m" by simp
    moreover have "m * 1 \<le> m * 2 ^ Suc n"
      using 2(2) \<open>d = m\<close> by (intro mult_left_mono one_le_power) auto
    ultimately show ?thesis by simp
  qed
qed

subsection \<open>The rate limit\<close>

definition in_window :: "int \<Rightarrow> int \<Rightarrow> int list \<Rightarrow> nat" where
  "in_window w t ts = length (filter (\<lambda>s. t - w < s \<and> s \<le> t) ts)"

text \<open>What the state remembers of the restarts granted so far, given the time of the last decision.\<close>

definition remembers :: "int \<Rightarrow> int \<Rightarrow> int list \<Rightarrow> restart_policy_state \<Rightarrow> bool" where
  "remembers w lst ts s \<longleftrightarrow>
     sorted ts \<and> (\<forall>t \<in> set ts. t \<le> lst) \<and> rp_attempts_ms s = filter (\<lambda>t. lst - t < w) ts"

lemma dropWhile_sorted_filter:
  "sorted ts \<Longrightarrow> dropWhile (\<lambda>t. now - t \<ge> w) ts = filter (\<lambda>t. now - t < (w :: int)) ts"
proof (induction ts)
  case (Cons t ts)
  show ?case
  proof (cases "now - t \<ge> w")
    case True
    with Cons show ?thesis by simp
  next
    case False
    then have "\<forall>u \<in> set (t # ts). now - u < w" using Cons.prems by auto
    with False show ?thesis by (simp add: filter_True)
  qed
qed simp

lemma remembers_prune:
  assumes "remembers w lst ts s" "lst \<le> now"
  shows "dropWhile (\<lambda>t. now - t \<ge> w) (rp_attempts_ms s) = filter (\<lambda>t. now - t < w) ts"
proof -
  have "sorted (filter (\<lambda>t. lst - t < w) ts)" using assms(1) by (simp add: remembers_def sorted_wrt_filter)
  then have "dropWhile (\<lambda>t. now - t \<ge> w) (rp_attempts_ms s)
    = filter (\<lambda>t. now - t < w) (filter (\<lambda>t. lst - t < w) ts)"
    using assms(1) by (simp add: remembers_def dropWhile_sorted_filter)
  also have "\<dots> = filter (\<lambda>t. now - t < w) ts"
    unfolding filter_filter using assms(2) by (intro filter_cong) auto
  finally show ?thesis .
qed

lemma filter_length_mono:
  "(\<And>x. x \<in> set xs \<Longrightarrow> P x \<Longrightarrow> Q x) \<Longrightarrow> length (filter P xs) \<le> length (filter Q xs)"
  by (induction xs) auto

lemma granted_limit:
  assumes "remembers (rc_window_ms c) lst ts s" "0 < rc_window_ms c" "rc_max_attempts c > 0"
    and "sorted (map fst deaths)" "\<forall>d \<in> set deaths. lst \<le> fst d"
    and "\<forall>d \<in> set deaths. \<not> (rc_reset_after_ms c > 0 \<and> snd d \<ge> rc_reset_after_ms c)"
    and "\<And>t. int (in_window (rc_window_ms c) t ts) \<le> rc_max_attempts c"
  shows "int (in_window (rc_window_ms c) t (ts @ granted c s deaths)) \<le> rc_max_attempts c"
  using assms
proof (induction deaths arbitrary: lst ts s)
  case Nil
  then show ?case by simp
next
  case (Cons d deaths)
  obtain now rt where d: "d = (now, rt)" by (cases d)
  let ?w = "rc_window_ms c" and ?kept = "filter (\<lambda>t. now - t < rc_window_ms c) ts"
  have ln: "lst \<le> now" using Cons.prems(5) d by simp
  note prune = remembers_prune [OF Cons.prems(1) ln]
  have nr: "\<not> (rc_reset_after_ms c > 0 \<and> rt \<ge> rc_reset_after_ms c)" using Cons.prems(6) d by simp
  have ts: "sorted ts" "\<forall>t \<in> set ts. t \<le> now" using Cons.prems(1) ln by (auto simp: remembers_def)
  have later: "sorted (map fst deaths)" "\<forall>x \<in> set deaths. now \<le> fst x" using Cons.prems(4) d by auto
  obtain r s' where plan: "plan_automatic_restart c s now rt = (r, s')" by fastforce
  have w: "max 0 ?w = ?w" using Cons.prems(2) by simp
  show ?case
  proof (cases "int (length ?kept) \<ge> rc_max_attempts c")
    case True
    then have "\<not> rd_restart r" "rp_attempts_ms s' = ?kept"
      using plan nr prune w Cons.prems(3) by (auto simp: plan_automatic_restart_def Let_def)
    moreover from this ts have "remembers ?w now ts s'" by (simp add: remembers_def)
    ultimately show ?thesis
      using Cons.IH [of now ts s'] Cons.prems(2,3,6,7) later plan d by simp
  next
    case False
    then have r: "rd_restart r" "rp_attempts_ms s' = ?kept @ [now]"
      using plan nr prune w by (auto simp: plan_automatic_restart_def Let_def)
    have rem: "remembers ?w now (ts @ [now]) s'"
      using r(2) ts Cons.prems(2) by (simp add: remembers_def sorted_append)
    have "int (in_window ?w u (ts @ [now])) \<le> rc_max_attempts c" for u
    proof (cases "u < now")
      case True
      then have "in_window ?w u (ts @ [now]) = in_window ?w u ts" by (simp add: in_window_def)
      with Cons.prems(7) show ?thesis by simp
    next
      case False2: False
      have "in_window ?w u ts \<le> length ?kept"
        unfolding in_window_def using False2 by (intro filter_length_mono) auto
      then have "in_window ?w u (ts @ [now]) \<le> Suc (length ?kept)" by (simp add: in_window_def)
      with False show ?thesis by linarith
    qed
    with Cons.IH [OF rem Cons.prems(2,3) later] Cons.prems(6) plan d r show ?thesis by simp
  qed
qed

subsection \<open>Properties\<close>

text \<open>
  The restart rate is limited.  Over any history of deaths in time order, none after a run long
  enough to reset the policy, no half-open window of the configured length holds more than the
  configured number of automatic restarts.
\<close>

lemma restart_rate_limited:
  assumes "0 < rc_window_ms c" "0 < rc_max_attempts c" "sorted (map fst deaths)"
    and "\<forall>d \<in> set deaths. rc_reset_after_ms c \<le> 0 \<or> snd d < rc_reset_after_ms c"
  shows "int (in_window (rc_window_ms c) t (granted c new_policy deaths)) \<le> rc_max_attempts c"
proof (cases deaths)
  case Nil
  with assms show ?thesis by (simp add: in_window_def)
next
  case (Cons d ds)
  have "remembers (rc_window_ms c) (fst d) [] new_policy" by (simp add: remembers_def new_policy_def)
  from granted_limit [OF this assms(1,2,3), of t] assms Cons show ?thesis
    by (fastforce simp: in_window_def)
qed

definition sample_policy :: restart_policy_config where
  "sample_policy = \<lparr>rc_delay_ms = 1000, rc_max_delay_ms = 30000, rc_window_ms = 60000,
     rc_max_attempts = 2, rc_reset_after_ms = 0\<rparr>"

lemma restart_rate_limited_example:
  "granted sample_policy new_policy [(0, 5), (10, 5), (20, 5), (60005, 5)] = [0, 10, 60005] \<and>
   int (in_window 60000 20 (granted sample_policy new_policy [(0, 5), (10, 5), (20, 5), (60005, 5)])) \<le> 2"
proof -
  have "granted sample_policy new_policy [(0, 5), (10, 5), (20, 5), (60005, 5)] = [0, 10, 60005]"
    by (simp add: sample_policy_def new_policy_def plan_automatic_restart_def Let_def)
  with restart_rate_limited [of sample_policy "[(0, 5), (10, 5), (20, 5), (60005, 5)]" 20]
  show ?thesis by (simp add: sample_policy_def)
qed

text \<open>
  A granted restart waits for the base delay doubled with every consecutive failure, at most the
  maximum delay, and is recorded with its time; a refused one leaves the failure count alone,
  marks the state as suppressed and happens exactly when the window already holds the permitted number.
\<close>

lemma restart_decision_correct:
  assumes "0 \<le> rc_delay_ms c" "rc_delay_ms c \<le> rc_max_delay_ms c" "rc_max_delay_ms c < 2 ^ 31"
    and "rc_reset_after_ms c \<le> 0 \<or> runtime < rc_reset_after_ms c"
    and "plan_automatic_restart c s now runtime = (d, s')"
  shows "let kept = dropWhile (\<lambda>t. max 0 (rc_window_ms c) \<le> now - t) (rp_attempts_ms s) in
    if 0 < rc_max_attempts c \<and> rc_max_attempts c \<le> int (length kept)
    then d = \<lparr>rd_restart = False, rd_suppressed = True, rd_delay_ms = 0, rd_attempts_in_window = int (length kept)\<rparr> \<and>
      s' = s\<lparr>rp_attempts_ms := kept, rp_suppressed := True\<rparr>
    else d = \<lparr>rd_restart = True, rd_suppressed = False,
        rd_delay_ms = min (rc_max_delay_ms c) (rc_delay_ms c * 2 ^ rp_consecutive_failures s),
        rd_attempts_in_window = int (length kept) + 1\<rparr> \<and>
      s' = s\<lparr>rp_attempts_ms := kept @ [now], rp_consecutive_failures := Suc (rp_consecutive_failures s),
        rp_suppressed := False\<rparr>"
proof -
  let ?dd = "double_delay (rp_consecutive_failures s) (rc_delay_ms c) (rc_max_delay_ms c)"
  have dd: "?dd = min (rc_max_delay_ms c) (rc_delay_ms c * 2 ^ rp_consecutive_failures s)"
    by (rule double_delay_closed [OF assms(1,2)])
  have m: "max 0 (rc_delay_ms c) = rc_delay_ms c" "max (rc_delay_ms c) (rc_max_delay_ms c) = rc_max_delay_ms c"
    using assms(1,2) by auto
  have le: "min (min (rc_max_delay_ms c) x) 2147483647 = min (rc_max_delay_ms c) x" for x
    using assms(3) by simp
  have nr: "\<not> (rc_reset_after_ms c > 0 \<and> runtime \<ge> rc_reset_after_ms c)" using assms(4) by auto
  show ?thesis
    using assms(5) nr unfolding plan_automatic_restart_def Let_def
    by (auto simp: m le dd split: if_splits)
qed

lemma restart_decision_correct_example:
  "fst (plan_automatic_restart sample_policy (new_policy\<lparr>rp_consecutive_failures := 3\<rparr>) 100 5)
     = \<lparr>rd_restart = True, rd_suppressed = False, rd_delay_ms = 8000, rd_attempts_in_window = 1\<rparr>"
  using restart_decision_correct [of sample_policy 5 "new_policy\<lparr>rp_consecutive_failures := 3\<rparr>" 100,
      OF _ _ _ _ prod.collapse [symmetric]]
  by (simp add: sample_policy_def new_policy_def Let_def)



end
