(* ===== verification/Lifecycle.thy ===== *)
theory Lifecycle
  imports Prog_Cfg
begin

section \<open>Lifecycle timeouts and termination (core/lifecycle_orchestrator, core/termination_job)\<close>

text \<open>
  What the daemon's timer does on every tick (\<open>plan_lifecycle_tick\<close>), the state machine that stops a
  process tree, first with a signal and after a deadline by force (\<open>termination_job\<close>), and the one-task
  worker that writes the configuration in the background (\<open>persistence_worker\<close>).  Times are \<open>int\<close>:
  monotonic milliseconds do not come near the limits of \<open>int64_t\<close>.
\<close>

subsection \<open>Timeouts\<close>

datatype lifecycle_timeout_kind = LK_startup | LK_heartbeat

datatype lifecycle_timeout_action = LA_accept_ready | LA_ignore | LA_restart | LA_reboot

record lifecycle_process_observation =
  lo_process_index :: nat
  lo_generation :: "64 word"
  lo_has_process :: bool
  lo_starting :: bool
  lo_online :: bool
  lo_terminating :: bool
  lo_tree_draining :: bool
  lo_restart_pending :: bool
  lo_restart_due_ms :: int
  lo_launch_time_ms :: int
  lo_last_tick_ms :: int
  lo_heartbeat_action_due_ms :: int
  lo_termination_due_ms :: int
  lo_start_timeout_s :: int
  lo_heartbeat_timeout_s :: int
  lo_failure_action :: failure_action_t

record lifecycle_timeout_event =
  le_process_index :: nat
  le_generation :: "64 word"
  le_kind :: lifecycle_timeout_kind
  le_action :: lifecycle_timeout_action

record lifecycle_tick_plan =
  lt_timeouts :: "lifecycle_timeout_event list"
  lt_due_restarts :: "nat list"
  lt_next_wait_ms :: int

fun decide_lifecycle_timeout ::
  "lifecycle_timeout_kind \<Rightarrow> failure_action_t \<Rightarrow> lifecycle_timeout_action" where
  "decide_lifecycle_timeout kind FA_skip = (if kind = LK_startup then LA_accept_ready else LA_ignore)"
| "decide_lifecycle_timeout kind FA_restart = LA_restart"
| "decide_lifecycle_timeout kind FA_reboot = LA_reboot"

text \<open>The loop's variables: the two lists, the next deadline and whether a tree is draining.\<close>

record tick_state =
  ts_timeouts :: "lifecycle_timeout_event list"
  ts_due_restarts :: "nat list"
  ts_next_due_ms :: int
  ts_draining :: bool

definition consider_due :: "int \<Rightarrow> tick_state \<Rightarrow> tick_state" where
  "consider_due due s = s\<lparr>ts_next_due_ms := min (ts_next_due_ms s) due\<rparr>"

text \<open>The timeout that applies to a running process, if one is enabled: its kind and deadline.\<close>

definition enabled_timeout ::
  "lifecycle_process_observation \<Rightarrow> (lifecycle_timeout_kind \<times> int) option" where
  "enabled_timeout p =
     (if lo_starting p \<and> lo_start_timeout_s p \<ge> 0
        then Some (LK_startup, lo_launch_time_ms p + lo_start_timeout_s p * 1000)
      else if lo_online p \<and> lo_heartbeat_timeout_s p > 0
        then Some (LK_heartbeat,
          max (lo_last_tick_ms p + lo_heartbeat_timeout_s p * 1000) (lo_heartbeat_action_due_ms p))
      else None)"

definition tick_process :: "int \<Rightarrow> lifecycle_process_observation \<Rightarrow> tick_state \<Rightarrow> tick_state" where
  "tick_process now p s =
     (if \<not> lo_has_process p then
        (if lo_restart_pending p then
           (if lo_restart_due_ms p \<le> now
            then s\<lparr>ts_due_restarts := ts_due_restarts s @ [lo_process_index p]\<rparr>
            else consider_due (lo_restart_due_ms p) s)
         else s)
      else if lo_terminating p then
        (let s = s\<lparr>ts_draining := ts_draining s \<or> lo_tree_draining p\<rparr>
         in if lo_termination_due_ms p > 0 then consider_due (lo_termination_due_ms p) s else s)
      else case enabled_timeout p of
        None \<Rightarrow> s
      | Some (kind, due) \<Rightarrow>
          if due \<le> now
          then s\<lparr>ts_timeouts := ts_timeouts s @
            [\<lparr>le_process_index = lo_process_index p, le_generation = lo_generation p, le_kind = kind,
              le_action = decide_lifecycle_timeout kind (lo_failure_action p)\<rparr>]\<rparr>
          else consider_due due s)"

definition plan_lifecycle_tick ::
  "int \<Rightarrow> lifecycle_process_observation list \<Rightarrow> bool \<Rightarrow> int \<Rightarrow> int \<Rightarrow> lifecycle_tick_plan" where
  "plan_lifecycle_tick now processes busy default_wait_ms draining_wait_ms =
     (let default_wait = max 1 default_wait_ms;
          s = fold (tick_process now) processes
                \<lparr>ts_timeouts = [], ts_due_restarts = [], ts_next_due_ms = now + default_wait,
                 ts_draining = False\<rparr>
      in \<lparr>lt_timeouts = ts_timeouts s, lt_due_restarts = ts_due_restarts s,
          lt_next_wait_ms =
            (if ts_timeouts s \<noteq> [] \<or> ts_due_restarts s \<noteq> [] then 1
             else if busy then 10
             else if ts_draining s then max 1 draining_wait_ms
             else if ts_next_due_ms s \<le> now then 1
             else min default_wait (ts_next_due_ms s - now))\<rparr>)"

subsection \<open>Terminating a process tree\<close>

datatype termination_phase =
  TP_none | TP_term_requested | TP_force_kill_requested | TP_tree_draining | TP_completed

datatype termination_action = TA_none | TA_send_term | TA_send_kill | TA_complete

record termination_job =
  tj_generation :: "64 word"
  tj_phase :: termination_phase
  tj_started_ms :: int
  tj_timeout_ms :: int

definition new_termination_job :: termination_job where
  "new_termination_job = \<lparr>tj_generation = 0, tj_phase = TP_none, tj_started_ms = 0, tj_timeout_ms = 0\<rparr>"

definition deadline_ms :: "termination_job \<Rightarrow> int" where
  "deadline_ms j = tj_started_ms j + tj_timeout_ms j"

definition timeout_of :: "int \<Rightarrow> int" where
  "timeout_of timeout_sec = (if timeout_sec > 0 then timeout_sec * 1000 else 0)"

definition term_request ::
  "64 word \<Rightarrow> int \<Rightarrow> int \<Rightarrow> termination_job \<Rightarrow> termination_action \<times> termination_job" where
  "term_request gen now timeout_sec j =
     (if tj_phase j \<noteq> TP_none \<and> tj_generation j = gen then (TA_none, j)
      else (TA_send_term, j\<lparr>tj_generation := gen, tj_phase := TP_term_requested, tj_started_ms := now,
        tj_timeout_ms := timeout_of timeout_sec\<rparr>))"

definition term_force :: "64 word \<Rightarrow> termination_job \<Rightarrow> termination_action \<times> termination_job" where
  "term_force gen j =
     (if tj_generation j \<noteq> gen \<or> tj_phase j = TP_completed then (TA_none, j)
      else (TA_send_kill, j\<lparr>tj_phase := TP_force_kill_requested\<rparr>))"

definition mark_tree_draining ::
  "64 word \<Rightarrow> int \<Rightarrow> int \<Rightarrow> termination_job \<Rightarrow> termination_action \<times> termination_job" where
  "mark_tree_draining gen now timeout_sec j =
     (let j = (if tj_phase j = TP_none \<or> tj_generation j \<noteq> gen
               then j\<lparr>tj_generation := gen, tj_started_ms := now, tj_timeout_ms := timeout_of timeout_sec\<rparr>
               else j)
      in if tj_phase j = TP_completed \<or> tj_phase j = TP_force_kill_requested then (TA_none, j)
         else (TA_send_term, j\<lparr>tj_phase := TP_tree_draining\<rparr>))"

definition term_poll :: "64 word \<Rightarrow> int \<Rightarrow> bool \<Rightarrow> termination_job \<Rightarrow> termination_action \<times> termination_job" where
  "term_poll gen now tree_empty j =
     (if tj_generation j \<noteq> gen then (TA_none, j)
      else if tree_empty then
        (if tj_phase j = TP_none \<or> tj_phase j = TP_completed then (TA_none, j)
         else (TA_complete, j\<lparr>tj_phase := TP_completed\<rparr>))
      else if (tj_phase j = TP_term_requested \<or> tj_phase j = TP_tree_draining) \<and> now \<ge> deadline_ms j
        then (TA_send_kill, j\<lparr>tj_phase := TP_force_kill_requested\<rparr>)
      else (TA_none, j))"

text \<open>The calls made for one generation of a process, and the actions they ask for.\<close>

datatype term_call = Term_request int int | Term_force | Term_drain int int | Term_poll int bool

fun term_step :: "64 word \<Rightarrow> term_call \<Rightarrow> termination_job \<Rightarrow> termination_action \<times> termination_job" where
  "term_step g (Term_request now t) j = term_request g now t j"
| "term_step g Term_force j = term_force g j"
| "term_step g (Term_drain now t) j = mark_tree_draining g now t j"
| "term_step g (Term_poll now e) j = term_poll g now e j"

fun term_run :: "64 word \<Rightarrow> term_call list \<Rightarrow> termination_job \<Rightarrow> termination_action list \<times> termination_job" where
  "term_run g [] j = ([], j)"
| "term_run g (c # cs) j =
     (case term_step g c j of (a, j1) \<Rightarrow> (case term_run g cs j1 of (as, j2) \<Rightarrow> (a # as, j2)))"

subsection \<open>The persistence worker\<close>

text \<open>
  The fields guarded by the mutex, and whether the thread object is joinable.  The worker thread's only
  effect is its final critical section, \<open>worker_finish\<close>, with the result of the task (-1 when it
  threw).  \<open>poll\<close> joins a thread that has already run that section.
\<close>

record persistence_worker =
  pw_running :: bool
  pw_completed :: bool
  pw_joinable :: bool
  pw_result :: int

definition new_worker :: persistence_worker where
  "new_worker = \<lparr>pw_running = False, pw_completed = False, pw_joinable = False, pw_result = -1\<rparr>"

definition worker_submit :: "persistence_worker \<Rightarrow> bool \<times> persistence_worker" where
  "worker_submit w =
     (if pw_running w \<or> pw_completed w \<or> pw_joinable w then (False, w)
      else (True, w\<lparr>pw_running := True, pw_result := -1, pw_joinable := True\<rparr>))"

definition worker_finish :: "int \<Rightarrow> persistence_worker \<Rightarrow> persistence_worker" where
  "worker_finish r w = w\<lparr>pw_result := r, pw_running := False, pw_completed := True\<rparr>"

definition worker_poll :: "persistence_worker \<Rightarrow> int option \<times> persistence_worker" where
  "worker_poll w =
     (if \<not> pw_completed w then (None, w)
      else (Some (pw_result w), w\<lparr>pw_completed := False, pw_joinable := False\<rparr>))"

definition worker_busy :: "persistence_worker \<Rightarrow> bool" where
  "worker_busy w \<longleftrightarrow> pw_running w \<or> pw_completed w"

definition worker_wait :: "persistence_worker \<Rightarrow> persistence_worker" where
  "worker_wait w = w\<lparr>pw_joinable := False\<rparr>"

text \<open>
  The interleavings of the control thread and the worker thread, with the results the tasks have
  returned and the results the control thread has been given.  The worker can only finish while it
  runs; \<open>wait\<close> returns only when the thread has ended.
\<close>

inductive worker_steps :: "persistence_worker \<Rightarrow> int list \<Rightarrow> int list \<Rightarrow> bool" where
  start: "worker_steps new_worker [] []"
| submit: "worker_steps w fin got \<Longrightarrow> worker_steps (snd (worker_submit w)) fin got"
| finish: "worker_steps w fin got \<Longrightarrow> pw_running w \<Longrightarrow> worker_steps (worker_finish r w) (fin @ [r]) got"
| poll: "worker_steps w fin got \<Longrightarrow> worker_poll w = (Some r, w') \<Longrightarrow> worker_steps w' fin (got @ [r])"
| poll_none: "worker_steps w fin got \<Longrightarrow> worker_poll w = (None, w') \<Longrightarrow> worker_steps w' fin got"
| wait: "worker_steps w fin got \<Longrightarrow> \<not> pw_running w \<Longrightarrow> worker_steps (worker_wait w) fin got"

subsection \<open>The tick plan\<close>

definition timeout_events :: "int \<Rightarrow> lifecycle_process_observation \<Rightarrow> lifecycle_timeout_event list" where
  "timeout_events now p =
     (if lo_has_process p \<and> \<not> lo_terminating p then
        (case enabled_timeout p of
           Some (kind, due) \<Rightarrow>
             if due \<le> now
             then [\<lparr>le_process_index = lo_process_index p, le_generation = lo_generation p, le_kind = kind,
               le_action = decide_lifecycle_timeout kind (lo_failure_action p)\<rparr>]
             else []
         | None \<Rightarrow> [])
      else [])"

definition restart_is_due :: "int \<Rightarrow> lifecycle_process_observation \<Rightarrow> bool" where
  "restart_is_due now p \<longleftrightarrow> \<not> lo_has_process p \<and> lo_restart_pending p \<and> lo_restart_due_ms p \<le> now"

text \<open>The deadline a process still has ahead of it, or the one of its termination.\<close>

definition deadline_of :: "lifecycle_process_observation \<Rightarrow> int option" where
  "deadline_of p =
     (if \<not> lo_has_process p then (if lo_restart_pending p then Some (lo_restart_due_ms p) else None)
      else if lo_terminating p
        then (if lo_termination_due_ms p > 0 then Some (lo_termination_due_ms p) else None)
      else map_option snd (enabled_timeout p))"

lemma tick_process_effect:
  "ts_timeouts (tick_process now p s) = ts_timeouts s @ timeout_events now p"
  "ts_due_restarts (tick_process now p s)
     = ts_due_restarts s @ (if restart_is_due now p then [lo_process_index p] else [])"
  "ts_draining (tick_process now p s) \<longleftrightarrow>
     ts_draining s \<or> (lo_has_process p \<and> lo_terminating p \<and> lo_tree_draining p)"
  by (auto simp: tick_process_def timeout_events_def restart_is_due_def consider_due_def Let_def
      split: option.splits)

lemma fold_tick_process:
  "ts_timeouts (fold (tick_process now) ps s) = ts_timeouts s @ concat (map (timeout_events now) ps) \<and>
   ts_due_restarts (fold (tick_process now) ps s)
     = ts_due_restarts s @ map lo_process_index (filter (restart_is_due now) ps) \<and>
   (ts_draining (fold (tick_process now) ps s) \<longleftrightarrow>
     ts_draining s \<or> list_ex (\<lambda>p. lo_has_process p \<and> lo_terminating p \<and> lo_tree_draining p) ps)"
  by (induction ps arbitrary: s) (simp_all add: tick_process_effect)

lemma fold_tick_next_due:
  "ts_next_due_ms (fold (tick_process now) ps s) \<le> ts_next_due_ms s \<and>
   (\<forall>p \<in> set ps. \<forall>d. deadline_of p = Some d \<longrightarrow>
      restart_is_due now p \<or> timeout_events now p \<noteq> [] \<or>
      ts_next_due_ms (fold (tick_process now) ps s) \<le> d)"
proof (induction ps arbitrary: s)
  case Nil
  then show ?case by simp
next
  case (Cons p ps)
  have le: "ts_next_due_ms (tick_process now p s) \<le> ts_next_due_ms s"
    by (auto simp: tick_process_def consider_due_def Let_def split: option.splits)
  have d: "restart_is_due now p \<or> timeout_events now p \<noteq> [] \<or> ts_next_due_ms (tick_process now p s) \<le> d"
    if "deadline_of p = Some d" for d
    using that
    by (auto simp: tick_process_def consider_due_def deadline_of_def restart_is_due_def timeout_events_def
        Let_def split: option.splits if_splits)
  have "ts_next_due_ms (fold (tick_process now) (p # ps) s) \<le> ts_next_due_ms (tick_process now p s)"
    using Cons [of "tick_process now p s"] by simp
  with le d Cons [of "tick_process now p s"] show ?case by fastforce
qed

subsection \<open>The termination job\<close>

lemma term_step_completed:
  "tj_generation j = g \<Longrightarrow> tj_phase j = TP_completed \<Longrightarrow> term_step g c j = (TA_none, j)"
  by (cases c) (simp_all add: term_request_def term_force_def mark_tree_draining_def term_poll_def Let_def)

lemma term_run_completed:
  "tj_generation j = g \<Longrightarrow> tj_phase j = TP_completed \<Longrightarrow> term_run g cs j = (replicate (length cs) TA_none, j)"
  by (induction cs) (simp_all add: term_step_completed)

lemma term_step_generation:
  "tj_generation j = g \<Longrightarrow> tj_generation (snd (term_step g c j)) = g"
  by (cases c) (auto simp: term_request_def term_force_def mark_tree_draining_def term_poll_def Let_def)

lemma term_step_complete_iff:
  "tj_generation j = g \<Longrightarrow> fst (term_step g c j) = TA_complete \<longleftrightarrow>
     tj_phase j \<noteq> TP_completed \<and> tj_phase (snd (term_step g c j)) = TP_completed"
  by (cases c) (auto simp: term_request_def term_force_def mark_tree_draining_def term_poll_def Let_def)

lemma term_run_completes_once:
  "tj_generation j = g \<Longrightarrow> term_run g cs j = (as, j') \<Longrightarrow>
     count_list as TA_complete \<le> 1 \<and>
     (\<forall>bs cs'. as = bs @ TA_complete # cs' \<longrightarrow> set cs' \<subseteq> {TA_none})"
proof (induction cs arbitrary: j as j')
  case Nil
  then show ?case by simp
next
  case (Cons c cs)
  obtain a j1 where s: "term_step g c j = (a, j1)" by fastforce
  obtain as1 j2 where r: "term_run g cs j1 = (as1, j2)" by fastforce
  have as: "as = a # as1" using Cons.prems(2) s r by simp
  have g: "tj_generation j1 = g" using term_step_generation [OF Cons.prems(1), of c] s by simp
  show ?case
  proof (cases "a = TA_complete")
    case True
    then have "tj_phase j1 = TP_completed" using term_step_complete_iff [OF Cons.prems(1), of c] s by simp
    from term_run_completed [OF g this, of cs] r have "as1 = replicate (length cs) TA_none" by simp
    then have none: "set as1 \<subseteq> {TA_none}" by auto
    then have "TA_complete \<notin> set as1" by auto
    then have "count_list as1 TA_complete = 0" by (simp add: count_list_0_iff)
    moreover have "set cs' \<subseteq> {TA_none}" if "as = bs @ TA_complete # cs'" for bs cs'
      using that as True none by (cases bs) auto
    ultimately show ?thesis using as True by simp
  next
    case False
    from Cons.IH [OF g r] have ih: "count_list as1 TA_complete \<le> 1"
      "\<And>bs cs'. as1 = bs @ TA_complete # cs' \<Longrightarrow> set cs' \<subseteq> {TA_none}" by auto
    have "set cs' \<subseteq> {TA_none}" if "as = bs @ TA_complete # cs'" for bs cs'
      using that as False ih(2) by (cases bs) auto
    with ih(1) as False show ?thesis by simp
  qed
qed

subsection \<open>The worker\<close>

lemma worker_invariant:
  "worker_steps w fin got \<Longrightarrow>
     (pw_running w \<longrightarrow> pw_joinable w \<and> \<not> pw_completed w) \<and>
     (\<not> pw_running w \<and> \<not> pw_completed w \<longrightarrow> \<not> pw_joinable w) \<and>
     fin = got @ (if pw_completed w then [pw_result w] else [])"
  by (induction rule: worker_steps.induct)
    (auto simp: new_worker_def worker_submit_def worker_finish_def worker_poll_def worker_wait_def
      split: if_splits)

subsection \<open>Properties\<close>

text \<open>
  A tick acts on exactly what is due.  It reports a timeout for exactly the running, not
  terminating processes whose enabled startup or heartbeat deadline has passed, with the configured
  action, and a restart for exactly the absent processes whose restart is pending and due, in
  process order.
\<close>

lemma tick_acts_on_due:
  "lt_timeouts (plan_lifecycle_tick now ps busy dw gw) = concat (map (timeout_events now) ps) \<and>
   lt_due_restarts (plan_lifecycle_tick now ps busy dw gw)
     = map lo_process_index (filter (restart_is_due now) ps)"
  by (simp add: plan_lifecycle_tick_def Let_def fold_tick_process)

text \<open>
  The wait until the next tick is at least 1 ms, and no deadline is overslept: when the daemon is
  neither busy nor draining a tree, the next tick comes no later than any deadline that is still
  ahead, and at the latest after the default wait.
\<close>

lemma tick_wait_bounds:
  "1 \<le> lt_next_wait_ms (plan_lifecycle_tick now ps busy dw gw) \<and>
   (\<not> busy \<and> \<not> list_ex (\<lambda>p. lo_has_process p \<and> lo_terminating p \<and> lo_tree_draining p) ps \<longrightarrow>
     lt_next_wait_ms (plan_lifecycle_tick now ps busy dw gw) \<le> max 1 dw \<and>
     (\<forall>p d. p \<in> set ps \<and> deadline_of p = Some d \<and> now < d \<longrightarrow>
       now + lt_next_wait_ms (plan_lifecycle_tick now ps busy dw gw) \<le> d))"
proof -
  let ?init = "\<lparr>ts_timeouts = [], ts_due_restarts = [], ts_next_due_ms = now + max 1 dw, ts_draining = False\<rparr>"
  let ?s = "fold (tick_process now) ps ?init" and ?w = "lt_next_wait_ms (plan_lifecycle_tick now ps busy dw gw)"
  have w: "?w = (if ts_timeouts ?s \<noteq> [] \<or> ts_due_restarts ?s \<noteq> [] then 1
             else if busy then 10
             else if ts_draining ?s then max 1 gw
             else if ts_next_due_ms ?s \<le> now then 1
             else min (max 1 dw) (ts_next_due_ms ?s - now))"
    by (simp add: plan_lifecycle_tick_def Let_def)
  have one: "1 \<le> ?w" unfolding w by auto
  have dl: "ts_timeouts ?s \<noteq> [] \<or> ts_due_restarts ?s \<noteq> [] \<or> ts_next_due_ms ?s \<le> d"
    if "p \<in> set ps" "deadline_of p = Some d" for p d
    using fold_tick_next_due [of now ps ?init] that fold_tick_process [of now ps ?init]
    by (auto simp: restart_is_due_def filter_empty_conv)
  have "now + ?w \<le> d" if "p \<in> set ps" "deadline_of p = Some d" "now < d" "\<not> busy" "\<not> ts_draining ?s" for p d
    using dl [OF that(1,2)] that(3,4,5) unfolding w by (auto simp: min_def)
  moreover have "?w \<le> max 1 dw" if "\<not> busy" "\<not> ts_draining ?s" using that unfolding w by auto
  ultimately show ?thesis using one fold_tick_process [of now ps ?init] by auto
qed

definition sample_observation :: lifecycle_process_observation where
  "sample_observation = \<lparr>lo_process_index = 0, lo_generation = 1, lo_has_process = True, lo_starting = True,
     lo_online = False, lo_terminating = False, lo_tree_draining = False, lo_restart_pending = False,
     lo_restart_due_ms = 0, lo_launch_time_ms = 0, lo_last_tick_ms = 0, lo_heartbeat_action_due_ms = 0,
     lo_termination_due_ms = 0, lo_start_timeout_s = 3, lo_heartbeat_timeout_s = -1,
     lo_failure_action = FA_restart\<rparr>"

lemma tick_wait_bounds_example:
  "2900 + lt_next_wait_ms (plan_lifecycle_tick 2900 [sample_observation] False 1000 25) \<le> 3000"
  using tick_wait_bounds [of 2900 "[sample_observation]" False 1000 25]
  by (simp add: sample_observation_def deadline_of_def enabled_timeout_def)

text \<open>
  For one generation of a process, whatever calls are made, the termination job reports completion
  at most once, and after that asks for nothing more: no signal is sent to a tree that is gone.
\<close>

lemma termination_completes_once:
  assumes "tj_generation j = g" "term_run g calls j = (actions, j')"
  shows "count_list actions TA_complete \<le> 1 \<and>
    (\<forall>before after. actions = before @ TA_complete # after \<longrightarrow> set after \<subseteq> {TA_none})"
  by (rule term_run_completes_once [OF assms])

lemma termination_completes_once_example:
  "count_list (fst (term_run 0 [Term_request 0 3, Term_poll 10 True, Term_poll 20 True] new_termination_job))
     TA_complete \<le> 1"
  using termination_completes_once [OF _ prod.collapse [symmetric], of new_termination_job 0]
  by (simp only: new_termination_job_def termination_job.simps)

text \<open>
  A stop request escalates on time.  After a request at \<open>t\<close> with a timeout of \<open>n\<close> seconds (none for
  a new generation yet), a poll before \<open>t + 1000 * n\<close> that still sees the tree does nothing, the first
  one from then on asks for the kill, exactly once, and a poll that sees the tree gone completes.
\<close>

lemma termination_escalates:
  assumes "tj_phase j = TP_none \<or> tj_generation j \<noteq> g" "0 \<le> n" "term_request g t n j = (a, j1)"
  shows "a = TA_send_term \<and> fst (term_request g t' n' j1) = TA_none \<and>
    term_poll g now True j1 = (TA_complete, j1\<lparr>tj_phase := TP_completed\<rparr>) \<and>
    (if now < t + 1000 * n then term_poll g now False j1 = (TA_none, j1)
     else fst (term_poll g now False j1) = TA_send_kill \<and>
       fst (term_poll g now' False (snd (term_poll g now False j1))) = TA_none)"
proof -
  have a: "a = TA_send_term" and j1: "j1 = j\<lparr>tj_generation := g, tj_phase := TP_term_requested,
      tj_started_ms := t, tj_timeout_ms := timeout_of n\<rparr>"
    using assms(1,3) by (auto simp: term_request_def)
  have n: "timeout_of n = 1000 * n" using assms(2) by (simp add: timeout_of_def)
  show ?thesis unfolding a j1 by (simp add: term_request_def term_poll_def deadline_ms_def n)
qed

lemma termination_escalates_example:
  "fst (term_poll 7 3500 False (snd (term_request 7 500 3 new_termination_job))) = TA_send_kill"
  using termination_escalates [OF _ _ prod.collapse [symmetric], of new_termination_job 7 3 500 0 0 3500 0]
  by (simp add: new_termination_job_def)

text \<open>
  C27: in every interleaving of the control thread with the worker thread, each task's result is
  delivered exactly once and in order, a new task is accepted exactly when the worker is not busy, and
  at most one task is in flight.
\<close>

theorem worker_delivers_once:
  assumes "worker_steps w fin got"
  shows "fin = got @ (if pw_completed w then [pw_result w] else []) \<and>
    (fst (worker_submit w) \<longleftrightarrow> \<not> worker_busy w) \<and> \<not> (pw_running w \<and> pw_completed w)"
  using worker_invariant [OF assms] by (auto simp: worker_submit_def worker_busy_def)

theorem worker_delivers_once_witness:
  "\<exists>w. worker_steps w [0] [0] \<and> fst (worker_submit w)"
proof -
  let ?w1 = "snd (worker_submit new_worker)" and ?w2 = "worker_finish 0 (snd (worker_submit new_worker))"
  have "worker_steps ?w2 ([] @ [0]) []"
    by (intro worker_steps.finish worker_steps.submit worker_steps.start)
      (simp add: worker_submit_def new_worker_def)
  then have "worker_steps (snd (worker_poll ?w2)) ([] @ [0]) ([] @ [0])"
    by (rule worker_steps.poll) (simp add: worker_poll_def worker_finish_def)
  from worker_delivers_once [OF this] this show ?thesis
    by (intro exI [of _ "snd (worker_poll ?w2)"])
      (simp add: worker_busy_def worker_poll_def worker_finish_def worker_submit_def new_worker_def)
qed



text \<open>
  C26: a stop request escalates on time and completes once.  After a request at \<open>t\<close> with a timeout of \<open>n\<close> seconds (none for
  a new generation yet), a poll before \<open>t + 1000 * n\<close> that still sees the tree does nothing, the first
  one from then on asks for the kill, exactly once, and a poll that sees the tree gone completes.  Whatever calls follow
  for this generation, completion is reported at most once, and after that nothing more is asked for: no signal is sent to
  a tree that is gone.
\<close>

theorem termination_job_correct:
  assumes "tj_phase j = TP_none \<or> tj_generation j \<noteq> g" "0 \<le> n" "term_request g t n j = (a, j1)"
    "term_run g calls j1 = (actions, j2)"
  shows "a = TA_send_term \<and> fst (term_request g t' n' j1) = TA_none \<and>
    term_poll g now True j1 = (TA_complete, j1\<lparr>tj_phase := TP_completed\<rparr>) \<and>
    (if now < t + 1000 * n then term_poll g now False j1 = (TA_none, j1)
     else fst (term_poll g now False j1) = TA_send_kill \<and>
       fst (term_poll g now' False (snd (term_poll g now False j1))) = TA_none) \<and>
    count_list actions TA_complete \<le> 1 \<and>
    (\<forall>before after. actions = before @ TA_complete # after \<longrightarrow> set after \<subseteq> {TA_none})"
proof -
  have "tj_generation j1 = g" using assms(1,3) by (auto simp: term_request_def)
  from termination_completes_once [OF this assms(4)] termination_escalates [OF assms(1-3)] show ?thesis by blast
qed

theorem termination_job_correct_witness:
  "fst (term_poll 7 3500 False (snd (term_request 7 500 3 new_termination_job))) = TA_send_kill"
  using termination_job_correct [OF _ _ prod.collapse [symmetric] prod.collapse [symmetric],
      where j = new_termination_job and g = 7 and n = 3 and t = 500 and now = 3500]
  by (simp add: new_termination_job_def)

end
