(* ===== verification/Snapshots.thy ===== *)
theory Snapshots
  imports Protocol_V3_Correct
begin

section \<open>Process list and inspect snapshots (core/process_list, core/runtime_snapshot)\<close>

text \<open>
  What the daemon reports about its programs: the entries of the list command (schema 5), the runtime
  snapshot and the inspect reply (schema 2), and \<open>make_process_list_entry\<close>, which projects a
  configuration and a snapshot to a list entry.
\<close>

datatype pty_mode_t = PTY_unsupported | PTY_disabled | PTY_enabled

fun pty_mode_code :: "pty_mode_t \<Rightarrow> int" where
  "pty_mode_code PTY_unsupported = -1"
| "pty_mode_code PTY_disabled = 0"
| "pty_mode_code PTY_enabled = 1"

definition pty_mode_of :: "int \<Rightarrow> pty_mode_t" where
  "pty_mode_of n = (if n = -1 then PTY_unsupported else if n = 0 then PTY_disabled else PTY_enabled)"

datatype exit_reason_t = ER_none | ER_exited | ER_signaled | ER_unknown

fun exit_reason_code :: "exit_reason_t \<Rightarrow> int" where
  "exit_reason_code ER_none = 0"
| "exit_reason_code ER_exited = 1"
| "exit_reason_code ER_signaled = 2"
| "exit_reason_code ER_unknown = 3"

definition exit_reason_of :: "int \<Rightarrow> exit_reason_t" where
  "exit_reason_of n =
     (if n = 0 then ER_none else if n = 1 then ER_exited else if n = 2 then ER_signaled else ER_unknown)"

fun exit_reason_name :: "exit_reason_t \<Rightarrow> string" where
  "exit_reason_name ER_none = ''none''"
| "exit_reason_name ER_exited = ''exited''"
| "exit_reason_name ER_signaled = ''signaled''"
| "exit_reason_name ER_unknown = ''unknown''"

record process_list_entry =
  pl_pid :: int
  pl_name :: string
  pl_cwd :: string
  pl_executable :: string
  pl_args :: "string list"
  pl_restart_count :: int
  pl_state :: int
  pl_has_uptime :: bool
  pl_uptime_ms :: int
  pl_has_rss :: bool
  pl_rss_kib :: int
  pl_daemon :: bool
  pl_pty :: pty_mode_t
  pl_depends_on :: "string list"
  pl_restart_pending :: bool
  pl_restart_delay_remaining_ms :: int
  pl_restart_attempts_in_window :: int
  pl_restart_suppressed :: bool
  pl_restart_suppression_reason :: string
  pl_generation :: "64 word"
  pl_ready :: bool
  pl_heartbeat_enabled :: bool
  pl_has_last_exit :: bool
  pl_last_exit_reason :: string
  pl_last_exit_code :: int
  pl_process_tree_backend :: string
  pl_process_tree_degraded :: bool
  pl_process_tree_degradation_reason :: string
  pl_config_source :: string
  pl_log_degraded :: bool
  pl_log_dropped_bytes :: "64 word"
  pl_log_last_error :: string
  pl_log_retry_remaining_ms :: int
  pl_log_paths :: "string list"

record runtime_snapshot =
  rs_pid :: int
  rs_generation :: "64 word"
  rs_state :: int
  rs_restart_count :: int
  rs_ready :: bool
  rs_heartbeat_enabled :: bool
  rs_has_last_tick_age :: bool
  rs_last_tick_age_ms :: int
  rs_has_uptime :: bool
  rs_uptime_ms :: int
  rs_has_rss :: bool
  rs_rss_kib :: int
  rs_pty :: pty_mode_t
  rs_restart_pending :: bool
  rs_restart_delay_remaining_ms :: int
  rs_restart_attempts_in_window :: int
  rs_restart_suppressed :: bool
  rs_restart_suppression_reason :: string
  rs_has_last_exit :: bool
  rs_last_exit_reason :: exit_reason_t
  rs_last_exit_code :: int
  rs_process_tree_backend :: string
  rs_process_tree_degraded :: bool
  rs_process_tree_degradation_reason :: string
  rs_config_source :: string
  rs_log_degraded :: bool
  rs_log_dropped_bytes :: "64 word"
  rs_log_last_error :: string
  rs_log_retry_remaining_ms :: int
  rs_log_paths :: "string list"

record inspect_snapshot =
  is_config :: prog_cfg_t
  is_runtime :: runtime_snapshot

definition max_process_count :: int where
  "max_process_count = 100000"

definition max_dependency_count :: int where
  "max_dependency_count = 100000"

definition process_list_schema_version :: int where
  "process_list_schema_version = 5"

definition inspect_schema_version :: int where
  "inspect_schema_version = 2"

text \<open>The log paths are written without a check of their number.\<close>

definition append_paths :: "string list \<Rightarrow> appender" where
  "append_paths xs = append_all (fappend_i32 (int (length xs)) # map fappend_string xs)"

subsection \<open>The process list\<close>

definition append_process_list_entry :: "process_list_entry \<Rightarrow> appender" where
  "append_process_list_entry e = append_all
     [fappend_i64 (pl_pid e),
      fappend_string (pl_name e),
      fappend_string (pl_cwd e),
      fappend_string (pl_executable e),
      append_counted (Length_error ''argument list is too large'') (pl_args e),
      fappend_i32 (pl_restart_count e),
      fappend_i32 (pl_state e),
      append_bool (pl_has_uptime e),
      fappend_i64 (pl_uptime_ms e),
      append_bool (pl_has_rss e),
      fappend_i64 (pl_rss_kib e),
      append_bool (pl_daemon e),
      fappend_i32 (pty_mode_code (pl_pty e)),
      append_counted (Length_error ''dependency list is too large'') (pl_depends_on e),
      append_bool (pl_restart_pending e),
      fappend_i64 (pl_restart_delay_remaining_ms e),
      fappend_i32 (pl_restart_attempts_in_window e),
      append_bool (pl_restart_suppressed e),
      fappend_string (pl_restart_suppression_reason e),
      fappend_u64 (pl_generation e),
      append_bool (pl_ready e),
      append_bool (pl_heartbeat_enabled e),
      append_bool (pl_has_last_exit e),
      fappend_string (pl_last_exit_reason e),
      fappend_i32 (pl_last_exit_code e),
      fappend_string (pl_process_tree_backend e),
      append_bool (pl_process_tree_degraded e),
      fappend_string (pl_process_tree_degradation_reason e),
      fappend_string (pl_config_source e),
      append_bool (pl_log_degraded e),
      fappend_u64 (pl_log_dropped_bytes e),
      fappend_string (pl_log_last_error e),
      fappend_i64 (pl_log_retry_remaining_ms e),
      append_paths (pl_log_paths e)]"

definition append_process_list :: "process_list_entry list \<Rightarrow> appender" where
  "append_process_list entries f =
     (if length entries > int32_max then Inl (Length_error ''process list is too large'')
      else append_all ([fappend_i32 process_list_schema_version, fappend_i32 (int (length entries))] @
             map append_process_list_entry entries) f)"

definition read_process_list_entry :: "process_list_entry reader" where
  "read_process_list_entry =
     rbind fget_i64 (\<lambda>pid.
     rbind fget_string (\<lambda>name.
     rbind fget_string (\<lambda>cwd.
     rbind fget_string (\<lambda>executable.
     rbind (read_counted max_dependency_count ''invalid argument count'') (\<lambda>args.
     rbind fget_i32 (\<lambda>restart_count.
     rbind fget_i32 (\<lambda>state.
     rbind (read_bool ''invalid uptime availability flag'') (\<lambda>has_uptime.
     rbind fget_i64 (\<lambda>uptime_ms.
     rbind (read_bool ''invalid RSS availability flag'') (\<lambda>has_rss.
     rbind fget_i64 (\<lambda>rss_kib.
     rbind (read_bool ''invalid daemon flag'') (\<lambda>daemon.
     rbind fget_i32 (\<lambda>pty.
     rguard (pty < -1 \<or> pty > 1) (Protocol_error ''invalid PTY mode'') (
     rbind (read_counted max_dependency_count ''invalid dependency count'') (\<lambda>depends_on.
     rbind (read_bool ''invalid restart-pending flag'') (\<lambda>restart_pending.
     rbind fget_i64 (\<lambda>restart_delay_remaining_ms.
     rbind fget_i32 (\<lambda>restart_attempts_in_window.
     rguard (restart_delay_remaining_ms < 0 \<or> restart_attempts_in_window < 0) (Protocol_error ''invalid restart runtime state'') (
     rbind (read_bool ''invalid restart-suppressed flag'') (\<lambda>restart_suppressed.
     rbind fget_string (\<lambda>restart_suppression_reason.
     rbind fget_u64 (\<lambda>generation.
     rbind (read_bool ''invalid ready flag'') (\<lambda>ready.
     rbind (read_bool ''invalid heartbeat-enabled flag'') (\<lambda>heartbeat_enabled.
     rbind (read_bool ''invalid last-exit availability flag'') (\<lambda>has_last_exit.
     rbind fget_string (\<lambda>last_exit_reason.
     rbind fget_i32 (\<lambda>last_exit_code.
     rbind fget_string (\<lambda>process_tree_backend.
     rbind (read_bool ''invalid process-tree degraded flag'') (\<lambda>process_tree_degraded.
     rbind fget_string (\<lambda>process_tree_degradation_reason.
     rbind fget_string (\<lambda>config_source.
     rbind (read_bool ''invalid log-degraded flag'') (\<lambda>log_degraded.
     rbind fget_u64 (\<lambda>log_dropped_bytes.
     rbind fget_string (\<lambda>log_last_error.
     rbind fget_i64 (\<lambda>log_retry_remaining_ms.
     rbind (read_counted 100 ''invalid log path count'') (\<lambda>log_paths.
     rguard (log_retry_remaining_ms < 0) (Protocol_error ''invalid log retry delay'') (
     rreturn
       \<lparr>pl_pid = pid,
        pl_name = name,
        pl_cwd = cwd,
        pl_executable = executable,
        pl_args = args,
        pl_restart_count = restart_count,
        pl_state = state,
        pl_has_uptime = has_uptime,
        pl_uptime_ms = uptime_ms,
        pl_has_rss = has_rss,
        pl_rss_kib = rss_kib,
        pl_daemon = daemon,
        pl_pty = pty_mode_of pty,
        pl_depends_on = depends_on,
        pl_restart_pending = restart_pending,
        pl_restart_delay_remaining_ms = restart_delay_remaining_ms,
        pl_restart_attempts_in_window = restart_attempts_in_window,
        pl_restart_suppressed = restart_suppressed,
        pl_restart_suppression_reason = restart_suppression_reason,
        pl_generation = generation,
        pl_ready = ready,
        pl_heartbeat_enabled = heartbeat_enabled,
        pl_has_last_exit = has_last_exit,
        pl_last_exit_reason = last_exit_reason,
        pl_last_exit_code = last_exit_code,
        pl_process_tree_backend = process_tree_backend,
        pl_process_tree_degraded = process_tree_degraded,
        pl_process_tree_degradation_reason = process_tree_degradation_reason,
        pl_config_source = config_source,
        pl_log_degraded = log_degraded,
        pl_log_dropped_bytes = log_dropped_bytes,
        pl_log_last_error = log_last_error,
        pl_log_retry_remaining_ms = log_retry_remaining_ms,
        pl_log_paths = log_paths\<rparr>)))))))))))))))))))))))))))))))))))))"

definition read_process_list :: "process_list_entry list reader" where
  "read_process_list =
     rbind fget_i32 (\<lambda>schema_version.
     rguard (schema_version \<noteq> process_list_schema_version)
       (Protocol_error ''unsupported process-list schema version'') (
     rbind fget_i32 (\<lambda>count.
     rguard (count < 0 \<or> count > max_process_count)
       (Protocol_error ''invalid process-list entry count'')
       (read_n (nat count) read_process_list_entry))))"

subsection \<open>Runtime snapshots\<close>

definition append_runtime_snapshot :: "runtime_snapshot \<Rightarrow> appender" where
  "append_runtime_snapshot s = append_all
     [fappend_i64 (rs_pid s),
      fappend_u64 (rs_generation s),
      fappend_i32 (rs_state s),
      fappend_i32 (rs_restart_count s),
      append_bool (rs_ready s),
      append_bool (rs_heartbeat_enabled s),
      append_bool (rs_has_last_tick_age s),
      fappend_i64 (rs_last_tick_age_ms s),
      append_bool (rs_has_uptime s),
      fappend_i64 (rs_uptime_ms s),
      append_bool (rs_has_rss s),
      fappend_i64 (rs_rss_kib s),
      fappend_i32 (pty_mode_code (rs_pty s)),
      append_bool (rs_restart_pending s),
      fappend_i64 (rs_restart_delay_remaining_ms s),
      fappend_i32 (rs_restart_attempts_in_window s),
      append_bool (rs_restart_suppressed s),
      fappend_string (rs_restart_suppression_reason s),
      append_bool (rs_has_last_exit s),
      fappend_i32 (exit_reason_code (rs_last_exit_reason s)),
      fappend_i32 (rs_last_exit_code s),
      fappend_string (rs_process_tree_backend s),
      append_bool (rs_process_tree_degraded s),
      fappend_string (rs_process_tree_degradation_reason s),
      fappend_string (rs_config_source s),
      append_bool (rs_log_degraded s),
      fappend_u64 (rs_log_dropped_bytes s),
      fappend_string (rs_log_last_error s),
      fappend_i64 (rs_log_retry_remaining_ms s),
      append_paths (rs_log_paths s)]"

definition read_runtime_snapshot :: "runtime_snapshot reader" where
  "read_runtime_snapshot =
     rbind fget_i64 (\<lambda>pid.
     rbind fget_u64 (\<lambda>generation.
     rbind fget_i32 (\<lambda>state.
     rbind fget_i32 (\<lambda>restart_count.
     rbind (read_bool ''invalid ready flag'') (\<lambda>ready.
     rbind (read_bool ''invalid heartbeat-enabled flag'') (\<lambda>heartbeat_enabled.
     rbind (read_bool ''invalid last-tick availability flag'') (\<lambda>has_last_tick_age.
     rbind fget_i64 (\<lambda>last_tick_age_ms.
     rbind (read_bool ''invalid uptime availability flag'') (\<lambda>has_uptime.
     rbind fget_i64 (\<lambda>uptime_ms.
     rbind (read_bool ''invalid RSS availability flag'') (\<lambda>has_rss.
     rbind fget_i64 (\<lambda>rss_kib.
     rbind fget_i32 (\<lambda>pty.
     rguard (pty < -1 \<or> pty > 1) (Protocol_error ''invalid PTY mode'') (
     rbind (read_bool ''invalid restart-pending flag'') (\<lambda>restart_pending.
     rbind fget_i64 (\<lambda>restart_delay_remaining_ms.
     rbind fget_i32 (\<lambda>restart_attempts_in_window.
     rbind (read_bool ''invalid restart-suppressed flag'') (\<lambda>restart_suppressed.
     rbind fget_string (\<lambda>restart_suppression_reason.
     rbind (read_bool ''invalid last-exit availability flag'') (\<lambda>has_last_exit.
     rbind fget_i32 (\<lambda>last_exit_reason.
     rbind fget_i32 (\<lambda>last_exit_code.
     rguard (last_exit_reason < 0 \<or> last_exit_reason > 3) (Protocol_error ''invalid last-exit reason'') (
     rbind fget_string (\<lambda>process_tree_backend.
     rbind (read_bool ''invalid process-tree degraded flag'') (\<lambda>process_tree_degraded.
     rbind fget_string (\<lambda>process_tree_degradation_reason.
     rbind fget_string (\<lambda>config_source.
     rbind (read_bool ''invalid log-degraded flag'') (\<lambda>log_degraded.
     rbind fget_u64 (\<lambda>log_dropped_bytes.
     rbind fget_string (\<lambda>log_last_error.
     rbind fget_i64 (\<lambda>log_retry_remaining_ms.
     rbind (read_counted 100 ''invalid log path count'') (\<lambda>log_paths.
     rguard (has_last_tick_age \<and> last_tick_age_ms < 0 \<or> has_uptime \<and> uptime_ms < 0 \<or>
       has_rss \<and> rss_kib < 0 \<or> restart_delay_remaining_ms < 0 \<or> restart_attempts_in_window < 0 \<or>
       log_retry_remaining_ms < 0) (Protocol_error ''invalid runtime snapshot value'') (
     rreturn
       \<lparr>rs_pid = pid,
        rs_generation = generation,
        rs_state = state,
        rs_restart_count = restart_count,
        rs_ready = ready,
        rs_heartbeat_enabled = heartbeat_enabled,
        rs_has_last_tick_age = has_last_tick_age,
        rs_last_tick_age_ms = last_tick_age_ms,
        rs_has_uptime = has_uptime,
        rs_uptime_ms = uptime_ms,
        rs_has_rss = has_rss,
        rs_rss_kib = rss_kib,
        rs_pty = pty_mode_of pty,
        rs_restart_pending = restart_pending,
        rs_restart_delay_remaining_ms = restart_delay_remaining_ms,
        rs_restart_attempts_in_window = restart_attempts_in_window,
        rs_restart_suppressed = restart_suppressed,
        rs_restart_suppression_reason = restart_suppression_reason,
        rs_has_last_exit = has_last_exit,
        rs_last_exit_reason = exit_reason_of last_exit_reason,
        rs_last_exit_code = last_exit_code,
        rs_process_tree_backend = process_tree_backend,
        rs_process_tree_degraded = process_tree_degraded,
        rs_process_tree_degradation_reason = process_tree_degradation_reason,
        rs_config_source = config_source,
        rs_log_degraded = log_degraded,
        rs_log_dropped_bytes = log_dropped_bytes,
        rs_log_last_error = log_last_error,
        rs_log_retry_remaining_ms = log_retry_remaining_ms,
        rs_log_paths = log_paths\<rparr>)))))))))))))))))))))))))))))))))"

definition append_inspect_snapshot :: "inspect_snapshot \<Rightarrow> appender" where
  "append_inspect_snapshot s = append_all
     [fappend_i32 inspect_schema_version, append_prog_cfg (is_config s),
      append_runtime_snapshot (is_runtime s)]"

definition read_inspect_snapshot :: "inspect_snapshot reader" where
  "read_inspect_snapshot =
     rbind fget_i32 (\<lambda>schema.
     rguard (schema \<noteq> inspect_schema_version) (Protocol_error ''unsupported inspect schema version'') (
     rbind read_prog_cfg (\<lambda>config.
     rbind read_runtime_snapshot (\<lambda>runtime.
     rreturn \<lparr>is_config = config, is_runtime = runtime\<rparr>))))"

definition make_process_list_entry :: "prog_cfg_t \<Rightarrow> runtime_snapshot \<Rightarrow> process_list_entry" where
  "make_process_list_entry c s =
     \<lparr>pl_pid = rs_pid s,
      pl_name = cfg_name c,
      pl_cwd = cfg_cwd c,
      pl_executable = cfg_executable c,
      pl_args = cfg_args c,
      pl_restart_count = rs_restart_count s,
      pl_state = rs_state s,
      pl_has_uptime = rs_has_uptime s,
      pl_uptime_ms = rs_uptime_ms s,
      pl_has_rss = rs_has_rss s,
      pl_rss_kib = rs_rss_kib s,
      pl_daemon = cfg_daemon c,
      pl_pty = rs_pty s,
      pl_depends_on = cfg_depends_on c,
      pl_restart_pending = rs_restart_pending s,
      pl_restart_delay_remaining_ms = rs_restart_delay_remaining_ms s,
      pl_restart_attempts_in_window = rs_restart_attempts_in_window s,
      pl_restart_suppressed = rs_restart_suppressed s,
      pl_restart_suppression_reason = rs_restart_suppression_reason s,
      pl_generation = rs_generation s,
      pl_ready = rs_ready s,
      pl_heartbeat_enabled = rs_heartbeat_enabled s,
      pl_has_last_exit = rs_has_last_exit s,
      pl_last_exit_reason = exit_reason_name (rs_last_exit_reason s),
      pl_last_exit_code = rs_last_exit_code s,
      pl_process_tree_backend = rs_process_tree_backend s,
      pl_process_tree_degraded = rs_process_tree_degraded s,
      pl_process_tree_degradation_reason = rs_process_tree_degradation_reason s,
      pl_config_source = rs_config_source s,
      pl_log_degraded = rs_log_degraded s,
      pl_log_dropped_bytes = rs_log_dropped_bytes s,
      pl_log_last_error = rs_log_last_error s,
      pl_log_retry_remaining_ms = rs_log_retry_remaining_ms s,
      pl_log_paths = rs_log_paths s\<rparr>"

subsection \<open>Formats\<close>

definition ok_process_list_entry :: "process_list_entry \<Rightarrow> bool" where
  "ok_process_list_entry e \<longleftrightarrow>
     list_all in_i64 [pl_pid e, pl_uptime_ms e, pl_rss_kib e, pl_restart_delay_remaining_ms e, pl_log_retry_remaining_ms e] \<and>
     list_all in_i32 [pl_restart_count e, pl_state e, pl_restart_attempts_in_window e, pl_last_exit_code e] \<and>
     list_all ok_string [pl_name e, pl_cwd e, pl_executable e, pl_restart_suppression_reason e, pl_last_exit_reason e, pl_process_tree_backend e, pl_process_tree_degradation_reason e, pl_config_source e, pl_log_last_error e] \<and>
     list_all (ok_strings max_dependency_count) [pl_args e, pl_depends_on e] \<and>
     list_all (ok_strings 100) [pl_log_paths e] \<and>
     0 \<le> pl_restart_delay_remaining_ms e \<and>
     0 \<le> pl_restart_attempts_in_window e \<and>
     0 \<le> pl_log_retry_remaining_ms e"

definition enc_process_list_entry :: "process_list_entry \<Rightarrow> frame" where
  "enc_process_list_entry e = concat
     [enc_i64 (pl_pid e),
      enc_string (pl_name e),
      enc_string (pl_cwd e),
      enc_string (pl_executable e),
      enc_strings (pl_args e),
      enc_i32 (pl_restart_count e),
      enc_i32 (pl_state e),
      enc_bool (pl_has_uptime e),
      enc_i64 (pl_uptime_ms e),
      enc_bool (pl_has_rss e),
      enc_i64 (pl_rss_kib e),
      enc_bool (pl_daemon e),
      enc_i32 (pty_mode_code (pl_pty e)),
      enc_strings (pl_depends_on e),
      enc_bool (pl_restart_pending e),
      enc_i64 (pl_restart_delay_remaining_ms e),
      enc_i32 (pl_restart_attempts_in_window e),
      enc_bool (pl_restart_suppressed e),
      enc_string (pl_restart_suppression_reason e),
      be_bytes 8 (pl_generation e),
      enc_bool (pl_ready e),
      enc_bool (pl_heartbeat_enabled e),
      enc_bool (pl_has_last_exit e),
      enc_string (pl_last_exit_reason e),
      enc_i32 (pl_last_exit_code e),
      enc_string (pl_process_tree_backend e),
      enc_bool (pl_process_tree_degraded e),
      enc_string (pl_process_tree_degradation_reason e),
      enc_string (pl_config_source e),
      enc_bool (pl_log_degraded e),
      be_bytes 8 (pl_log_dropped_bytes e),
      enc_string (pl_log_last_error e),
      enc_i64 (pl_log_retry_remaining_ms e),
      enc_strings (pl_log_paths e)]"

definition ok_runtime_snapshot :: "runtime_snapshot \<Rightarrow> bool" where
  "ok_runtime_snapshot s \<longleftrightarrow>
     list_all in_i64 [rs_pid s, rs_last_tick_age_ms s, rs_uptime_ms s, rs_rss_kib s, rs_restart_delay_remaining_ms s, rs_log_retry_remaining_ms s] \<and>
     list_all in_i32 [rs_state s, rs_restart_count s, rs_restart_attempts_in_window s, rs_last_exit_code s] \<and>
     list_all ok_string [rs_restart_suppression_reason s, rs_process_tree_backend s, rs_process_tree_degradation_reason s, rs_config_source s, rs_log_last_error s] \<and>
     list_all (ok_strings 100) [rs_log_paths s] \<and>
     (rs_has_last_tick_age s \<longrightarrow> 0 \<le> rs_last_tick_age_ms s) \<and>
     (rs_has_uptime s \<longrightarrow> 0 \<le> rs_uptime_ms s) \<and>
     (rs_has_rss s \<longrightarrow> 0 \<le> rs_rss_kib s) \<and>
     0 \<le> rs_restart_delay_remaining_ms s \<and>
     0 \<le> rs_restart_attempts_in_window s \<and>
     0 \<le> rs_log_retry_remaining_ms s"

definition enc_runtime_snapshot :: "runtime_snapshot \<Rightarrow> frame" where
  "enc_runtime_snapshot s = concat
     [enc_i64 (rs_pid s),
      be_bytes 8 (rs_generation s),
      enc_i32 (rs_state s),
      enc_i32 (rs_restart_count s),
      enc_bool (rs_ready s),
      enc_bool (rs_heartbeat_enabled s),
      enc_bool (rs_has_last_tick_age s),
      enc_i64 (rs_last_tick_age_ms s),
      enc_bool (rs_has_uptime s),
      enc_i64 (rs_uptime_ms s),
      enc_bool (rs_has_rss s),
      enc_i64 (rs_rss_kib s),
      enc_i32 (pty_mode_code (rs_pty s)),
      enc_bool (rs_restart_pending s),
      enc_i64 (rs_restart_delay_remaining_ms s),
      enc_i32 (rs_restart_attempts_in_window s),
      enc_bool (rs_restart_suppressed s),
      enc_string (rs_restart_suppression_reason s),
      enc_bool (rs_has_last_exit s),
      enc_i32 (exit_reason_code (rs_last_exit_reason s)),
      enc_i32 (rs_last_exit_code s),
      enc_string (rs_process_tree_backend s),
      enc_bool (rs_process_tree_degraded s),
      enc_string (rs_process_tree_degradation_reason s),
      enc_string (rs_config_source s),
      enc_bool (rs_log_degraded s),
      be_bytes 8 (rs_log_dropped_bytes s),
      enc_string (rs_log_last_error s),
      enc_i64 (rs_log_retry_remaining_ms s),
      enc_strings (rs_log_paths s)]"

lemma snapshot_codes [simp]:
  "pty_mode_of (pty_mode_code p) = p" "exit_reason_of (exit_reason_code r) = r"
  "in_i32 (pty_mode_code p)" "in_i32 (exit_reason_code r)"
  "\<not> pty_mode_code p < -1" "\<not> 1 < pty_mode_code p"
  "\<not> exit_reason_code r < 0" "\<not> 3 < exit_reason_code r"
  by (cases p; cases r; simp add: pty_mode_of_def exit_reason_of_def in_i32_def)+

lemma snapshot_codes_inverse:
  "\<not> (n < -1 \<or> n > 1) \<Longrightarrow> pty_mode_code (pty_mode_of n) = n"
  "\<not> (n < 0 \<or> n > 3) \<Longrightarrow> exit_reason_code (exit_reason_of n) = n"
  by (auto simp: pty_mode_of_def exit_reason_of_def)

lemma append_paths_ok: "ok_strings 100 xs \<Longrightarrow> append_paths xs f = Inr (f @ enc_strings xs)"
proof -
  assume *: "ok_strings 100 xs"
  then have "in_i32 (int (length xs))" by (auto simp: ok_strings_def in_i32_def)
  with * show ?thesis
    by (simp add: append_paths_def i32.put_ok str.put_list enc_strings_def ok_strings_def)
qed

interpretation dependency_list: codec "append_counted e" "read_counted max_dependency_count field"
  "ok_strings max_dependency_count" enc_strings for e field
  by unfold_locales (simp_all add: append_counted_ok read_counted_iff max_dependency_count_def)

interpretation path_list: codec append_paths "read_counted 100 field" "ok_strings 100" enc_strings for field
  by unfold_locales (simp_all add: append_paths_ok read_counted_iff)

lemma rbind_counted:
  "ok_strings max_dependency_count xs \<Longrightarrow>
     rbind (read_counted max_dependency_count field) k (enc_strings xs @ r) = k xs r"
  "ok_strings 100 xs \<Longrightarrow> rbind (read_counted 100 field) k (enc_strings xs @ r) = k xs r"
  using dependency_list.get_iff [of field "enc_strings xs @ r" xs r]
    path_list.get_iff [of field "enc_strings xs @ r" xs r]
  by (simp_all add: rbind_def)

lemmas snapshot_puts = field_puts dependency_list.put_ok path_list.put_ok
lemmas snapshot_gets = field_gets dependency_list.get_iff path_list.get_iff

lemma read_process_list_entry_sound:
  "read_process_list_entry bs = Inr (e, rest) \<Longrightarrow>
     ok_process_list_entry e \<and> bs = enc_process_list_entry e @ rest"
  by (clarsimp simp: read_process_list_entry_def reader_iffs snapshot_gets ok_process_list_entry_def
      enc_process_list_entry_def snapshot_codes_inverse not_less)

lemma read_process_list_entry_complete:
  "ok_process_list_entry e \<Longrightarrow> read_process_list_entry (enc_process_list_entry e @ rest) = Inr (e, rest)"
  by (simp add: read_process_list_entry_def enc_process_list_entry_def ok_process_list_entry_def
      rbind_enc rbind_counted rguard_def rreturn_def)

interpretation process_list_entry: codec append_process_list_entry read_process_list_entry
  ok_process_list_entry enc_process_list_entry
proof
  fix x f
  assume "ok_process_list_entry x"
  then show "append_process_list_entry x f = Inr (f @ enc_process_list_entry x)"
    by (simp add: append_process_list_entry_def enc_process_list_entry_def ok_process_list_entry_def
        snapshot_puts)
next
  fix bs x rest
  show "read_process_list_entry bs = Inr (x, rest) \<longleftrightarrow>
      ok_process_list_entry x \<and> bs = enc_process_list_entry x @ rest"
    using read_process_list_entry_sound read_process_list_entry_complete by blast
qed

lemma read_runtime_snapshot_sound:
  "read_runtime_snapshot bs = Inr (s, rest) \<Longrightarrow>
     ok_runtime_snapshot s \<and> bs = enc_runtime_snapshot s @ rest"
  by (clarsimp simp: read_runtime_snapshot_def reader_iffs snapshot_gets ok_runtime_snapshot_def
      enc_runtime_snapshot_def snapshot_codes_inverse not_less)

lemma read_runtime_snapshot_complete:
  "ok_runtime_snapshot s \<Longrightarrow> read_runtime_snapshot (enc_runtime_snapshot s @ rest) = Inr (s, rest)"
  by (simp add: read_runtime_snapshot_def enc_runtime_snapshot_def ok_runtime_snapshot_def
      rbind_enc rbind_counted rguard_def rreturn_def) auto

interpretation runtime_snapshot: codec append_runtime_snapshot read_runtime_snapshot
  ok_runtime_snapshot enc_runtime_snapshot
proof
  fix x f
  assume "ok_runtime_snapshot x"
  then show "append_runtime_snapshot x f = Inr (f @ enc_runtime_snapshot x)"
    by (simp add: append_runtime_snapshot_def enc_runtime_snapshot_def ok_runtime_snapshot_def
        snapshot_puts)
next
  fix bs x rest
  show "read_runtime_snapshot bs = Inr (x, rest) \<longleftrightarrow>
      ok_runtime_snapshot x \<and> bs = enc_runtime_snapshot x @ rest"
    using read_runtime_snapshot_sound read_runtime_snapshot_complete by blast
qed

definition ok_process_list :: "process_list_entry list \<Rightarrow> bool" where
  "ok_process_list es \<longleftrightarrow> int (length es) \<le> max_process_count \<and> list_all ok_process_list_entry es"

definition enc_process_list :: "process_list_entry list \<Rightarrow> frame" where
  "enc_process_list es = enc_i32 process_list_schema_version @ enc_i32 (int (length es)) @
     concat (map enc_process_list_entry es)"

lemma in_i32_count: "int n \<le> max_process_count \<Longrightarrow> in_i32 (int n)"
  by (simp add: max_process_count_def in_i32_def)

interpretation process_list: codec append_process_list read_process_list ok_process_list enc_process_list
proof
  fix x f
  assume ok: "ok_process_list x"
  then have "\<not> length x > int32_max"
    by (simp add: ok_process_list_def max_process_count_def int32_max_def)
  with ok show "append_process_list x f = Inr (f @ enc_process_list x)"
    by (simp add: append_process_list_def enc_process_list_def ok_process_list_def i32.put_ok
        in_i32_count process_list_schema_version_def process_list_entry.put_list)
next
  fix bs x rest
  show "read_process_list bs = Inr (x, rest) \<longleftrightarrow> ok_process_list x \<and> bs = enc_process_list x @ rest"
  proof
    assume "read_process_list bs = Inr (x, rest)"
    then show "ok_process_list x \<and> bs = enc_process_list x @ rest"
      by (auto simp: read_process_list_def reader_iffs i32.get_iff process_list_entry.read_n_iff
          ok_process_list_def enc_process_list_def process_list_schema_version_def)
  next
    assume "ok_process_list x \<and> bs = enc_process_list x @ rest"
    then show "read_process_list bs = Inr (x, rest)"
      by (simp add: read_process_list_def enc_process_list_def ok_process_list_def rbind_enc in_i32_count
          process_list_schema_version_def rguard_def process_list_entry.read_n_iff)
  qed
qed

definition ok_inspect :: "inspect_snapshot \<Rightarrow> bool" where
  "ok_inspect s \<longleftrightarrow> ok_prog_cfg (is_config s) \<and> ok_runtime_snapshot (is_runtime s)"

definition enc_inspect :: "inspect_snapshot \<Rightarrow> frame" where
  "enc_inspect s = enc_i32 inspect_schema_version @ enc_prog_cfg (is_config s) @
     enc_runtime_snapshot (is_runtime s)"

interpretation inspect: codec append_inspect_snapshot read_inspect_snapshot ok_inspect enc_inspect
proof
  fix x f
  assume "ok_inspect x"
  then show "append_inspect_snapshot x f = Inr (f @ enc_inspect x)"
    by (simp add: append_inspect_snapshot_def enc_inspect_def ok_inspect_def i32.put_ok prog_cfg.put_ok
        runtime_snapshot.put_ok inspect_schema_version_def)
next
  fix bs x rest
  show "read_inspect_snapshot bs = Inr (x, rest) \<longleftrightarrow> ok_inspect x \<and> bs = enc_inspect x @ rest"
    by (cases x) (auto simp: read_inspect_snapshot_def reader_iffs i32.get_iff prog_cfg.get_iff
        runtime_snapshot.get_iff ok_inspect_def enc_inspect_def inspect_schema_version_def)
qed

lemma exit_reason_name_ok: "ok_string (exit_reason_name r)"
  by (cases r) (simp_all add: ok_string_def protocol_v3_max_payload_def)

lemma make_process_list_entry_ok:
  "ok_prog_cfg c \<Longrightarrow> ok_runtime_snapshot s \<Longrightarrow> ok_process_list_entry (make_process_list_entry c s)"
  by (simp add: ok_prog_cfg_def ok_runtime_snapshot_def ok_process_list_entry_def
      make_process_list_entry_def exit_reason_name_ok max_start_items_def max_dependency_count_def)

subsection \<open>Properties\<close>

text \<open>
  A process list is read back exactly as it was written, whatever follows it, and the reader
  accepts nothing that the writer could not have produced for a well-formed list.
\<close>

lemma process_list_roundtrip:
  "read_process_list bs = Inr (es, rest) \<longleftrightarrow>
     ok_process_list es \<and> (\<exists>pre. append_process_list es [] = Inr pre \<and> bs = pre @ rest)"
  by (auto simp: process_list.get_iff process_list.put_ok)

text \<open>
  An inspect reply carries the configuration and the runtime snapshot of a program unchanged.
\<close>

lemma inspect_roundtrip:
  "read_inspect_snapshot bs = Inr (x, rest) \<longleftrightarrow>
     ok_inspect x \<and> (\<exists>pre. append_inspect_snapshot x [] = Inr pre \<and> bs = pre @ rest)"
  by (auto simp: inspect.get_iff inspect.put_ok)

text \<open>
  The list the daemon builds from configurations and snapshots that could be sent on their own
  can always be sent and is read back by the client unchanged, and a reply cut short is refused.
\<close>

lemma list_reply_readable:
  assumes "list_all (\<lambda>(c, s). ok_prog_cfg c \<and> ok_runtime_snapshot s) ps"
    and "int (length ps) \<le> max_process_count"
  shows "\<exists>bs. append_process_list (map (\<lambda>(c, s). make_process_list_entry c s) ps) [] = Inr bs \<and>
    read_process_list bs = Inr (map (\<lambda>(c, s). make_process_list_entry c s) ps, []) \<and>
    list_all (\<lambda>k. isl (read_process_list (take k bs))) [0..<length bs]"
proof -
  let ?es = "map (\<lambda>(c, s). make_process_list_entry c s) ps"
  have ok: "ok_process_list ?es"
    using assms by (auto simp: ok_process_list_def list_all_iff make_process_list_entry_ok)
  have "isl (read_process_list (take k (enc_process_list ?es)))" if "k < length (enc_process_list ?es)" for k
    using process_list.truncated_rejected [OF ok that] by auto
  with ok show ?thesis
    by (intro exI [of _ "enc_process_list ?es"]) (simp add: process_list.put_ok process_list.get_iff list_all_iff)
qed

definition sample_snapshot :: runtime_snapshot where
  "sample_snapshot =
     \<lparr>rs_pid = 0,
      rs_generation = 1,
      rs_state = 0,
      rs_restart_count = 0,
      rs_ready = False,
      rs_heartbeat_enabled = False,
      rs_has_last_tick_age = False,
      rs_last_tick_age_ms = 0,
      rs_has_uptime = False,
      rs_uptime_ms = 0,
      rs_has_rss = False,
      rs_rss_kib = 0,
      rs_pty = PTY_disabled,
      rs_restart_pending = False,
      rs_restart_delay_remaining_ms = 0,
      rs_restart_attempts_in_window = 0,
      rs_restart_suppressed = False,
      rs_restart_suppression_reason = ''x'',
      rs_has_last_exit = False,
      rs_last_exit_reason = ER_exited,
      rs_last_exit_code = 0,
      rs_process_tree_backend = ''x'',
      rs_process_tree_degraded = False,
      rs_process_tree_degradation_reason = ''x'',
      rs_config_source = ''x'',
      rs_log_degraded = False,
      rs_log_dropped_bytes = 1,
      rs_log_last_error = ''x'',
      rs_log_retry_remaining_ms = 0,
      rs_log_paths = [''a.log'']\<rparr>"

lemma list_reply_readable_example:
  "\<exists>bs. append_process_list [make_process_list_entry default_prog_cfg sample_snapshot] [] = Inr bs \<and>
     read_process_list bs = Inr ([make_process_list_entry default_prog_cfg sample_snapshot], [])"
proof -
  have "list_all (\<lambda>(c, s). ok_prog_cfg c \<and> ok_runtime_snapshot s) [(default_prog_cfg, sample_snapshot)]"
    by (simp add: ok_prog_cfg_def ok_runtime_snapshot_def sample_snapshot_def default_prog_cfg_def
        ok_string_def ok_strings_def protocol_v3_max_payload_def max_start_items_def in_i32_def in_i64_def)
  from list_reply_readable [OF this] show ?thesis by (auto simp: max_process_count_def)
qed

text \<open>
  A process list and an inspect reply, which carries the configuration and the runtime snapshot of a program, are read back
  exactly as they were written, whatever follows, and the readers accept nothing that the writers could not have
  produced from well-formed data.
\<close>

lemma snapshot_messages_roundtrip:
  "(read_process_list bs = Inr (es, rest) \<longleftrightarrow>
     ok_process_list es \<and> (\<exists>pre. append_process_list es [] = Inr pre \<and> bs = pre @ rest)) \<and>
   (read_inspect_snapshot bs = Inr (x, rest) \<longleftrightarrow>
     ok_inspect x \<and> (\<exists>pre. append_inspect_snapshot x [] = Inr pre \<and> bs = pre @ rest))"
  by (intro conjI process_list_roundtrip inspect_roundtrip)

text \<open>
  C21: what the daemon reports arrives.  A process list and an inspect reply, which carries the configuration and the
  runtime snapshot of a program, are read back exactly as they were written, whatever follows, and the readers accept
  nothing that the writers could not have produced from well-formed data.  The list the daemon builds from configurations
  and snapshots that could be sent on their own can always be sent and is read back unchanged, and a reply cut short is
  refused.
\<close>

theorem snapshots_correct:
  "(read_process_list bs = Inr (es, rest) \<longleftrightarrow>
     ok_process_list es \<and> (\<exists>pre. append_process_list es [] = Inr pre \<and> bs = pre @ rest)) \<and>
   (read_inspect_snapshot bs = Inr (x, rest) \<longleftrightarrow>
     ok_inspect x \<and> (\<exists>pre. append_inspect_snapshot x [] = Inr pre \<and> bs = pre @ rest)) \<and>
   (list_all (\<lambda>(c, s). ok_prog_cfg c \<and> ok_runtime_snapshot s) ps \<and> int (length ps) \<le> max_process_count \<longrightarrow>
     (\<exists>bs. append_process_list (map (\<lambda>(c, s). make_process_list_entry c s) ps) [] = Inr bs \<and>
       read_process_list bs = Inr (map (\<lambda>(c, s). make_process_list_entry c s) ps, []) \<and>
       list_all (\<lambda>k. isl (read_process_list (take k bs))) [0..<length bs]))"
  using snapshot_messages_roundtrip [of bs es rest x] list_reply_readable [of ps] by blast

theorem snapshots_correct_witness:
  "\<exists>bs. append_process_list [make_process_list_entry default_prog_cfg sample_snapshot] [] = Inr bs \<and>
     read_process_list bs = Inr ([make_process_list_entry default_prog_cfg sample_snapshot], [])"
proof -
  have "list_all (\<lambda>(c, s). ok_prog_cfg c \<and> ok_runtime_snapshot s) [(default_prog_cfg, sample_snapshot)]"
    by (simp add: ok_prog_cfg_def ok_runtime_snapshot_def sample_snapshot_def default_prog_cfg_def
        ok_string_def ok_strings_def protocol_v3_max_payload_def max_start_items_def in_i32_def in_i64_def)
  then show ?thesis
    using snapshots_correct [where ps = "[(default_prog_cfg, sample_snapshot)]", THEN conjunct2, THEN conjunct2] by (auto simp: max_process_count_def)
qed

end
