(* ===== verification/Control.thy ===== *)
theory Control
  imports Protocol_V3_Correct
begin

section \<open>Control commands (core/control_command, core/control_operation)\<close>

text \<open>
  How the daemon reads the type and the program name out of a request, how it builds a reply, and when a
  deferred stop, restart or remove operation is done.
\<close>

subsection \<open>Commands\<close>

datatype control_command =
    CC_list | CC_stop | CC_start | CC_save | CC_remove | CC_restart | CC_version | CC_log
  | CC_app_ready | CC_app_tick | CC_inspect | CC_reload | CC_quit | CC_info

fun control_command_code :: "control_command \<Rightarrow> 16 word" where
  "control_command_code CC_list = 0x23"
| "control_command_code CC_stop = 0x24"
| "control_command_code CC_start = 0x25"
| "control_command_code CC_save = 0x26"
| "control_command_code CC_remove = 0x27"
| "control_command_code CC_restart = 0x28"
| "control_command_code CC_version = 0x29"
| "control_command_code CC_log = 0x30"
| "control_command_code CC_app_ready = 0x31"
| "control_command_code CC_app_tick = 0x32"
| "control_command_code CC_inspect = 0x33"
| "control_command_code CC_reload = 0x34"
| "control_command_code CC_quit = 0x35"
| "control_command_code CC_info = 0x36"

definition control_commands :: "control_command list" where
  "control_commands = [CC_list, CC_stop, CC_start, CC_save, CC_remove, CC_restart, CC_version, CC_log,
     CC_app_ready, CC_app_tick, CC_inspect, CC_reload, CC_quit, CC_info]"

text \<open>The cast of a message type to the enumeration; \<open>None\<close> for the values it does not name.\<close>

definition control_command_of :: "16 word \<Rightarrow> control_command option" where
  "control_command_of type = List.find (\<lambda>c. control_command_code c = type) control_commands"

definition is_known_control_command :: "16 word \<Rightarrow> bool" where
  "is_known_control_command type \<longleftrightarrow> control_command_of type \<noteq> None"

fun control_command_requires_name :: "control_command \<Rightarrow> bool" where
  "control_command_requires_name CC_stop = True"
| "control_command_requires_name CC_remove = True"
| "control_command_requires_name CC_restart = True"
| "control_command_requires_name CC_log = True"
| "control_command_requires_name CC_app_ready = True"
| "control_command_requires_name CC_app_tick = True"
| "control_command_requires_name CC_inspect = True"
| "control_command_requires_name _ = False"

fun control_command_name :: "control_command \<Rightarrow> string" where
  "control_command_name CC_list = ''list''"
| "control_command_name CC_stop = ''stop''"
| "control_command_name CC_start = ''start''"
| "control_command_name CC_save = ''save''"
| "control_command_name CC_remove = ''delete''"
| "control_command_name CC_restart = ''restart''"
| "control_command_name CC_version = ''version''"
| "control_command_name CC_log = ''log''"
| "control_command_name CC_app_ready = ''ready''"
| "control_command_name CC_app_tick = ''tick''"
| "control_command_name CC_inspect = ''inspect''"
| "control_command_name CC_reload = ''reload''"
| "control_command_name CC_quit = ''quit''"
| "control_command_name CC_info = ''info''"

record decoded_control_request =
  dc_success :: bool
  dc_command :: control_command
  dc_name :: string
  dc_error :: string

definition decode_control_request :: "protocol_message \<Rightarrow> decoded_control_request" where
  "decode_control_request request =
     (case control_command_of (pm_type request) of
        None \<Rightarrow> \<lparr>dc_success = False, dc_command = CC_list, dc_name = [], dc_error = ''unknown message type''\<rparr>
      | Some command \<Rightarrow>
          if command = CC_info \<and> pm_payload request \<noteq> []
            then \<lparr>dc_success = False, dc_command = command, dc_name = [],
                  dc_error = ''info request payload must be empty''\<rparr>
          else if control_command_requires_name command
            then (case fget_string (pm_payload request) of
                    Inl e \<Rightarrow> \<lparr>dc_success = False, dc_command = command, dc_name = [],
                              dc_error = ''missing process name''\<rparr>
                  | Inr (name, rest) \<Rightarrow>
                      if name = [] then \<lparr>dc_success = False, dc_command = command, dc_name = [],
                              dc_error = ''missing process name''\<rparr>
                      else \<lparr>dc_success = True, dc_command = command, dc_name = name, dc_error = []\<rparr>)
          else \<lparr>dc_success = True, dc_command = command, dc_name = [], dc_error = []\<rparr>)"

definition make_control_response_payload :: "int \<Rightarrow> string \<Rightarrow> exn + frame" where
  "make_control_response_payload status message =
     append_all [fappend_i32 status, fappend_string message] []"

definition make_control_response :: "protocol_message \<Rightarrow> int \<Rightarrow> string \<Rightarrow> exn + protocol_message" where
  "make_control_response request status message =
     res_bind (make_control_response_payload status message) (\<lambda>payload.
     Inr \<lparr>pm_type = pm_type request,
          pm_flags = protocol_flag_response OR (if status = 0 then 0 else protocol_flag_error),
          pm_request_id = pm_request_id request, pm_payload = payload\<rparr>)"

subsection \<open>Deferred operations\<close>

datatype control_operation_type = CO_stop | CO_restart | CO_remove

record control_operation_state =
  os_process_exists :: bool
  os_process_active :: bool
  os_definition_exists :: bool
  os_generation :: "64 word"

record control_operation =
  co_type :: control_operation_type
  co_generation :: "64 word"

definition operation_complete :: "control_operation \<Rightarrow> control_operation_state \<Rightarrow> bool" where
  "operation_complete op s =
     (case co_type op of
        CO_stop \<Rightarrow> os_process_exists s \<and> \<not> os_process_active s
      | CO_restart \<Rightarrow> os_process_exists s \<and> os_process_active s \<and> os_generation s \<noteq> co_generation op
      | CO_remove \<Rightarrow> \<not> os_process_exists s \<and> \<not> os_definition_exists s)"

subsection \<open>Lemmas\<close>

lemma control_command_of_code: "control_command_of (control_command_code c) = Some c"
  by (cases c) (simp_all add: control_command_of_def control_commands_def)

lemma control_command_of_Some: "control_command_of t = Some c \<longleftrightarrow> t = control_command_code c"
proof
  assume "control_command_of t = Some c"
  then show "t = control_command_code c"
    by (auto simp: control_command_of_def find_Some_iff)
qed (simp add: control_command_of_code)

subsection \<open>Properties\<close>

text \<open>
  A request is accepted exactly when its type is a known command, an info request has no payload,
  and a command that needs a program starts its payload with a non-empty name, which is then the name
  returned; each command's message type is its own.
\<close>

lemma decode_control_request_correct:
  "dc_success (decode_control_request m) \<and> dc_command (decode_control_request m) = c \<and>
     dc_name (decode_control_request m) = nm \<longleftrightarrow>
   pm_type m = control_command_code c \<and> (c = CC_info \<longrightarrow> pm_payload m = []) \<and>
   (if control_command_requires_name c
    then nm \<noteq> [] \<and> (\<exists>pre rest. fappend_string nm [] = Inr pre \<and> pm_payload m = pre @ rest)
    else nm = [])"
proof (cases "control_command_of (pm_type m)")
  case None
  then have "pm_type m \<noteq> control_command_code c" by (metis control_command_of_code option.distinct(1))
  with None show ?thesis by (simp add: decode_control_request_def)
next
  case (Some c')
  then have t: "pm_type m = control_command_code c'" by (simp add: control_command_of_Some)
  then have eq: "pm_type m = control_command_code c \<longleftrightarrow> c' = c"
    by (metis Some control_command_of_code option.inject)
  have fs: "fappend_string nm [] = Inr pre \<longleftrightarrow> ok_string nm \<and> pre = enc_string nm" for pre
    by (cases "ok_string nm") (auto simp: str.put_ok, auto simp: fappend_string_def ok_string_def)
  show ?thesis
  proof (cases "fget_string (pm_payload m)")
    case (Inl e)
    then have "\<not> (\<exists>pre rest. fappend_string nm [] = Inr pre \<and> pm_payload m = pre @ rest)"
      using str.get_iff [of "pm_payload m" nm] by (auto simp: fs)
    with Inl Some eq show ?thesis by (auto simp: decode_control_request_def)
  next
    case (Inr p)
    then obtain s r where p: "fget_string (pm_payload m) = Inr (s, r)" by (cases p) auto
    then have s: "ok_string s" "pm_payload m = enc_string s @ r" by (simp_all add: str.get_iff)
    have "(\<exists>pre rest. fappend_string nm [] = Inr pre \<and> pm_payload m = pre @ rest) \<longleftrightarrow> nm = s"
    proof
      assume "\<exists>pre rest. fappend_string nm [] = Inr pre \<and> pm_payload m = pre @ rest"
      then obtain rest where "ok_string nm" "pm_payload m = enc_string nm @ rest" by (auto simp: fs)
      with str.get_iff [of "pm_payload m" nm rest] p show "nm = s" by simp
    qed (use s in \<open>auto simp: str.put_ok\<close>)
    with p Some eq show ?thesis by (auto simp: decode_control_request_def)
  qed
qed

lemma decode_control_request_correct_example:
  "dc_command (decode_control_request
     \<lparr>pm_type = 0x24, pm_flags = 0, pm_request_id = 1, pm_payload = enc_string ''web''\<rparr>) = CC_stop"
  using decode_control_request_correct [of
      "\<lparr>pm_type = 0x24, pm_flags = 0, pm_request_id = 1, pm_payload = enc_string ''web''\<rparr>" CC_stop "''web''"]
  by (simp add: str.put_ok ok_string_def protocol_v3_max_payload_def)

text \<open>
  A reply to a request carries its type and identifier, is marked as a response, and as an error
  exactly when the status is not zero; it can be encoded whenever the message is short enough to be
  a field with its status in one payload, and the client reads the status and message back.
\<close>

lemma control_response_correct:
  assumes "in_i32 status" "length message + 8 \<le> protocol_v3_max_payload"
  shows "\<exists>r bs. make_control_response request status message = Inr r \<and>
    pm_type r = pm_type request \<and> pm_request_id r = pm_request_id request \<and>
    (pm_flags r AND protocol_flag_error \<noteq> 0 \<longleftrightarrow> status \<noteq> 0) \<and>
    pm_flags r AND protocol_flag_response \<noteq> 0 \<and> protocol_encode r = Inr bs \<and>
    rbind fget_i32 (\<lambda>st. rbind fget_string (\<lambda>msg. rreturn (st, msg))) (pm_payload r)
      = Inr ((status, message), [])"
proof -
  have s: "ok_string message" using assms(2) by (simp add: ok_string_def)
  let ?p = "enc_i32 status @ enc_string message"
  let ?r = "\<lparr>pm_type = pm_type request,
      pm_flags = protocol_flag_response OR (if status = 0 then 0 else protocol_flag_error),
      pm_request_id = pm_request_id request, pm_payload = ?p\<rparr>"
  have r: "make_control_response request status message = Inr ?r"
    using assms(1) s by (simp add: make_control_response_def make_control_response_payload_def primitive_puts)
  have flags: "valid_flags (pm_flags ?r)"
    by (simp add: valid_flags_def Let_def protocol_flag_response_def protocol_flag_error_def
        protocol_flag_stream_def protocol_flag_more_def)
  have "length ?p \<le> protocol_v3_max_payload" using assms(2) by (simp add: enc_i32_def enc_string_def)
  then have enc: "protocol_encode ?r = Inr (enc_message ?r)"
    using flags by (simp add: protocol_encode_iff encodable_def)
  have "rbind fget_i32 (\<lambda>st. rbind fget_string (\<lambda>msg. rreturn (st, msg))) ?p = Inr ((status, message), [])"
    using assms(1) s by (simp add: rbind_enc rbind_end rreturn_def)
  then show ?thesis
    using r enc by (intro exI [of _ ?r] exI [of _ "enc_message ?r"])
      (simp add: protocol_flag_response_def protocol_flag_error_def)
qed

lemma control_response_correct_example:
  "\<exists>r bs. make_control_response sample_message 0 ''ok'' = Inr r \<and> protocol_encode r = Inr bs"
  using control_response_correct [of 0 "''ok''" sample_message]
  by (auto simp: protocol_v3_max_payload_def)

text \<open>
  Requests and replies.  A request is accepted exactly when its type is a known command, an info request has no payload,
  and a command that needs a program starts its payload with a non-empty name, which is then the name
  returned.  A reply carries the request's type and identifier, is marked as a response, and as an error
  exactly when the status is not zero; it can be encoded whenever the message is short enough to be
  a field with its status in one payload, and the client reads the status and message back.
\<close>

lemma control_messages_correct:
  assumes "in_i32 status" "length message + 8 \<le> protocol_v3_max_payload"
  shows "(dc_success (decode_control_request m) \<and> dc_command (decode_control_request m) = c \<and>
     dc_name (decode_control_request m) = nm \<longleftrightarrow>
   pm_type m = control_command_code c \<and> (c = CC_info \<longrightarrow> pm_payload m = []) \<and>
   (if control_command_requires_name c
    then nm \<noteq> [] \<and> (\<exists>pre rest. fappend_string nm [] = Inr pre \<and> pm_payload m = pre @ rest)
    else nm = [])) \<and>
   (\<exists>r bs. make_control_response m status message = Inr r \<and>
    pm_type r = pm_type m \<and> pm_request_id r = pm_request_id m \<and>
    (pm_flags r AND protocol_flag_error \<noteq> 0 \<longleftrightarrow> status \<noteq> 0) \<and>
    pm_flags r AND protocol_flag_response \<noteq> 0 \<and> protocol_encode r = Inr bs \<and>
    rbind fget_i32 (\<lambda>st. rbind fget_string (\<lambda>msg. rreturn (st, msg))) (pm_payload r)
      = Inr ((status, message), []))"
  by (intro conjI decode_control_request_correct control_response_correct [OF assms])

lemma control_messages_correct_example:
  "(\<exists>r bs. make_control_response sample_message 0 ''ok'' = Inr r \<and> protocol_encode r = Inr bs) \<and>
   dc_command (decode_control_request
     \<lparr>pm_type = 0x24, pm_flags = 0, pm_request_id = 1, pm_payload = enc_string ''web''\<rparr>) = CC_stop"
proof
  have a: "in_i32 0" "length ''ok'' + 8 \<le> protocol_v3_max_payload" by (simp_all add: protocol_v3_max_payload_def in_i32_def)
  show "\<exists>r bs. make_control_response sample_message 0 ''ok'' = Inr r \<and> protocol_encode r = Inr bs"
    using control_messages_correct [OF a, of sample_message] by blast
  show "dc_command (decode_control_request
     \<lparr>pm_type = 0x24, pm_flags = 0, pm_request_id = 1, pm_payload = enc_string ''web''\<rparr>) = CC_stop"
    using control_messages_correct [OF a, THEN conjunct1, of
      "\<lparr>pm_type = 0x24, pm_flags = 0, pm_request_id = 1, pm_payload = enc_string ''web''\<rparr>" CC_stop "''web''"]
    by (simp add: str.put_ok ok_string_def protocol_v3_max_payload_def)
qed

end
