(* ===== verification/Managed_Program.thy ===== *)
theory Managed_Program
  imports Program_Log Restart_Policy Lifecycle Program_Names Snapshots Control String_Utils
begin

section \<open>A managed program (daemon/prog)\<close>

text \<open>
  The record the daemon keeps for every program, \<open>prog_info_t\<close>, and its methods: starting and stopping
  bookkeeping, the restart plan, the sessions that follow its output, and the path of that output from
  the pipes to the log files, the log tail and the sessions.  The definition part of the record (name,
  command, policies, ...) is a \<^typ>\<open>prog_cfg_t\<close>.  Sessions are numbers.  What a method does to the
  outside world is a list of outputs; what the kernel answers is read off a \<open>host\<close> record, which is
  fixed during one event of the daemon's loop.
\<close>

subsection \<open>The outside world\<close>

datatype process_tree_mode = TM_auto_detect | TM_cgroup | TM_process_group

record process_tree_handle =
  th_mode :: process_tree_mode
  th_root_pid :: int
  th_pgid :: int
  th_cgroup_path :: string
  th_active :: bool

definition no_tree :: process_tree_handle where
  "no_tree = \<lparr>th_mode = TM_process_group, th_root_pid = -1, th_pgid = -1, th_cgroup_path = [], th_active = False\<rparr>"

fun process_tree_mode_name :: "process_tree_mode \<Rightarrow> string" where
  "process_tree_mode_name TM_auto_detect = ''auto''"
| "process_tree_mode_name TM_cgroup = ''cgroup''"
| "process_tree_mode_name TM_process_group = ''process_group''"

text \<open>
  What the system calls of one launch return, in the order of \<open>real_spawn_prog\<close>: whether the pipes or the
  terminal were made and the signals blocked, what \<open>fork\<close> returned, the tree the child was attached to with the
  degradation reason (or the reason of the failure), and the results of the gate write, of \<open>poll\<close> and of the read
  of the exec status with the error number in it.
\<close>

record spawn_calls =
  sc_prepare :: bool
  sc_block :: bool
  sc_fork :: int
  sc_attach :: "string + process_tree_handle \<times> string"
  sc_gate_write :: int
  sc_poll :: int
  sc_exec_status :: int
  sc_child_errno :: int
  sc_errno :: int

record host =
  h_now :: int
  h_unix :: int
  h_tree_empty :: "process_tree_handle \<Rightarrow> bool"
  h_tree_contains :: "process_tree_handle \<Rightarrow> int \<Rightarrow> bool"
  h_spawn :: "nat \<Rightarrow> spawn_calls"
  h_pipe :: "string \<Rightarrow> nat \<Rightarrow> string"
  h_log_open :: "string \<Rightarrow> string option"
  h_log_append :: "string \<Rightarrow> string \<Rightarrow> string option"
  h_rss :: "int \<Rightarrow> int"
  h_strerror :: "int \<Rightarrow> string"
  h_user_named :: "string \<Rightarrow> passwd_t option"
  h_user_uid :: "int \<Rightarrow> passwd_t option"
  h_euid :: int
  h_egid :: int
  h_getpid :: int
  h_realpath :: "string \<Rightarrow> string option"
  h_is_dir :: "string \<Rightarrow> bool"
  h_is_executable :: "string \<Rightarrow> bool"
  h_peer :: "nat \<Rightarrow> (int \<times> int \<times> int) option"
  h_controller :: "bool \<times> string"

datatype signal = SIG_term | SIG_kill

datatype effect =
    Out_frame nat "exn + frame"
  | Out_stream nat frame bool
  | Out_mark_close nat
  | Out_close nat
  | Out_signal string process_tree_handle signal
  | Out_started string int "string \<times> string list \<times> string list"
  | Out_log string string
  | Out_raised exn
  | Out_reboot
  | Out_abort

subsection \<open>States and exit statuses\<close>

datatype prog_state =
    PS_no_run | PS_runing | PS_startup_fail | PS_request_stop | PS_stoped | PS_exit
  | PS_starting | PS_waiting_start | PS_request_delete | PS_blocked

fun prog_state_code :: "prog_state \<Rightarrow> int" where
  "prog_state_code PS_no_run = 0"
| "prog_state_code PS_runing = 1"
| "prog_state_code PS_startup_fail = 2"
| "prog_state_code PS_request_stop = 3"
| "prog_state_code PS_stoped = 4"
| "prog_state_code PS_exit = 5"
| "prog_state_code PS_starting = 6"
| "prog_state_code PS_waiting_start = 7"
| "prog_state_code PS_request_delete = 8"
| "prog_state_code PS_blocked = 9"

fun pm_state_to_str :: "prog_state \<Rightarrow> string" where
  "pm_state_to_str PS_no_run = ''offline''"
| "pm_state_to_str PS_runing = ''online''"
| "pm_state_to_str PS_startup_fail = ''failed''"
| "pm_state_to_str PS_request_stop = ''stopping''"
| "pm_state_to_str PS_stoped = ''stopped''"
| "pm_state_to_str PS_exit = ''exited''"
| "pm_state_to_str PS_starting = ''starting''"
| "pm_state_to_str PS_waiting_start = ''waiting''"
| "pm_state_to_str PS_request_delete = ''deleting''"
| "pm_state_to_str PS_blocked = ''blocked''"

text \<open>The macros of \<open>sys/wait.h\<close>, on the 16 bits a status has.\<close>

definition WIFEXITED :: "int \<Rightarrow> bool" where
  "WIFEXITED ws \<longleftrightarrow> ws mod 128 = 0"

definition WEXITSTATUS :: "int \<Rightarrow> int" where
  "WEXITSTATUS ws = ws div 256 mod 256"

definition WIFSIGNALED :: "int \<Rightarrow> bool" where
  "WIFSIGNALED ws \<longleftrightarrow> 0 < ws mod 128 \<and> ws mod 128 < 127"

definition WTERMSIG :: "int \<Rightarrow> int" where
  "WTERMSIG ws = ws mod 128"

definition format_program_exit_event :: "string \<Rightarrow> int \<Rightarrow> string \<Rightarrow> int \<Rightarrow> string" where
  "format_program_exit_event name pid reason code =
     ''[pm_tiny] process `'' @ name @ ''` exited: pid='' @ int_to_string pid @ '' reason='' @ reason @
     '' code='' @ int_to_string code @ [char_of (10 :: nat)]"

subsection \<open>Data\<close>

record managed_process_instance =
  mi_generation :: "64 word"
  mi_pid :: int
  mi_last_pid :: int
  mi_tree :: process_tree_handle
  mi_termination :: termination_phase
  mi_job :: termination_job

definition new_instance :: managed_process_instance where
  "new_instance = \<lparr>mi_generation = 0, mi_pid = -1, mi_last_pid = -1, mi_tree = no_tree, mi_termination = TP_none,
     mi_job = new_termination_job\<rparr>"

definition instance_begin :: "int \<Rightarrow> managed_process_instance \<Rightarrow> managed_process_instance" where
  "instance_begin new_pid m = m\<lparr>mi_generation := mi_generation m + 1, mi_pid := new_pid, mi_last_pid := new_pid,
     mi_tree := no_tree, mi_termination := TP_none, mi_job := new_termination_job\<rparr>"

definition reset_failed_start :: "managed_process_instance \<Rightarrow> managed_process_instance" where
  "reset_failed_start m = m\<lparr>mi_pid := -1, mi_last_pid := -1, mi_tree := no_tree, mi_termination := TP_none,
     mi_job := new_termination_job\<rparr>"

text \<open>
  The closures put into \<open>kill_pendingtasks\<close>: the replies of \<open>stop\<close> and \<open>delete\<close>, the second half of
  \<open>restart\<close>, the restart after a tree was drained and the restart after a timeout.
\<close>

datatype pending_task =
    Task_stop nat
  | Task_delete nat
  | Task_restart nat bool
  | Task_drained int int
  | Task_timeout lifecycle_timeout_kind

record generation_task =
  gt_generation :: "64 word"
  gt_task :: pending_task

record prog_info_t =
  p_cfg :: prog_cfg_t
  p_instance :: managed_process_instance
  p_state :: prog_state
  p_last_startup_ms :: int
  p_last_dead_time_ms :: int
  p_last_wstatus :: int
  p_has_last_exit :: bool
  p_last_exit_time_unix_ms :: int
  p_dead_count :: int
  p_dead_count_timer :: int
  p_restart_state :: restart_policy_state
  p_restart_pending :: bool
  p_restart_due_ms :: int
  p_last_tick_timepoint :: int
  p_heartbeat_action_due_ms :: int
  p_logfile :: "string list"
  p_writers :: "bool list"
  p_pipes :: "bool list"
  p_log_tail :: bounded_log_tail
  p_log_health :: log_sink_health
  p_residual_log :: string
  p_tree_backend :: string
  p_tree_degraded :: bool
  p_tree_reason :: string
  p_config_source :: string
  p_sessions :: "nat list"
  p_pending_log_sessions :: "nat list"
  p_kill_pendingtasks :: "generation_task list"

definition default_prog_info :: prog_info_t where
  "default_prog_info =
     \<lparr>p_cfg = default_prog_cfg, p_instance = new_instance, p_state = PS_no_run, p_last_startup_ms = 0,
      p_last_dead_time_ms = 0, p_last_wstatus = 0, p_has_last_exit = False, p_last_exit_time_unix_ms = 0,
      p_dead_count = 0, p_dead_count_timer = 0, p_restart_state = new_policy, p_restart_pending = False,
      p_restart_due_ms = 0, p_last_tick_timepoint = 0, p_heartbeat_action_due_ms = 0, p_logfile = [[], []],
      p_writers = [False, False], p_pipes = [False, False], p_log_tail = new_log_tail (64 * 1024),
      p_log_health = new_health, p_residual_log = [], p_tree_backend = [], p_tree_degraded = False,
      p_tree_reason = [], p_config_source = ''file'', p_sessions = [], p_pending_log_sessions = [],
      p_kill_pendingtasks = []\<rparr>"

abbreviation p_name :: "prog_info_t \<Rightarrow> string" where
  "p_name p \<equiv> cfg_name (p_cfg p)"

abbreviation p_pid :: "prog_info_t \<Rightarrow> int" where
  "p_pid p \<equiv> mi_pid (p_instance p)"

abbreviation p_generation :: "prog_info_t \<Rightarrow> 64 word" where
  "p_generation p \<equiv> mi_generation (p_instance p)"

type_synonym 'a prog_op = "'a \<Rightarrow> effect list \<times> 'a"

subsection \<open>Stopping and restarting\<close>

definition signal_tree :: "signal \<Rightarrow> prog_info_t \<Rightarrow> effect list" where
  "signal_tree sig p = [Out_signal (p_name p) (mi_tree (p_instance p)) sig]"

definition is_tree_empty :: "host \<Rightarrow> prog_info_t \<Rightarrow> bool" where
  "is_tree_empty h p = h_tree_empty h (mi_tree (p_instance p))"

definition set_job :: "termination_job \<Rightarrow> prog_info_t \<Rightarrow> prog_info_t" where
  "set_job j p = p\<lparr>p_instance := (p_instance p)\<lparr>mi_job := j, mi_termination := tj_phase j\<rparr>\<rparr>"

definition async_force_kill :: "prog_info_t prog_op" where
  "async_force_kill p = (case term_force (p_generation p) (mi_job (p_instance p)) of
     (action, j) \<Rightarrow>
       if action = TA_send_kill then (signal_tree SIG_kill p, set_job j p)
       else ([], p\<lparr>p_instance := (p_instance p)\<lparr>mi_job := j\<rparr>\<rparr>))"

definition poll_termination :: "host \<Rightarrow> prog_info_t \<Rightarrow> termination_action \<times> prog_info_t" where
  "poll_termination h p = (case term_poll (p_generation p) (h_now h) (is_tree_empty h p) (mi_job (p_instance p)) of
     (action, j) \<Rightarrow> (action, set_job j p))"

definition prog_mark_tree_draining :: "host \<Rightarrow> prog_info_t \<Rightarrow> termination_action \<times> prog_info_t" where
  "prog_mark_tree_draining h p =
     (case mark_tree_draining (p_generation p) (h_now h) (cfg_kill_timeout_s (p_cfg p)) (mi_job (p_instance p)) of
       (action, j) \<Rightarrow> (action, set_job j p))"

definition async_kill_prog :: "host \<Rightarrow> prog_info_t prog_op" where
  "async_kill_prog h p =
     (case term_request (p_generation p) (h_now h) (cfg_kill_timeout_s (p_cfg p)) (mi_job (p_instance p)) of
       (action, j) \<Rightarrow> (if action = TA_send_term then signal_tree SIG_term p else [],
                      (set_job j p)\<lparr>p_state := PS_request_stop\<rparr>))"

definition enqueue_after_termination :: "pending_task \<Rightarrow> prog_info_t \<Rightarrow> prog_info_t" where
  "enqueue_after_termination t p =
     p\<lparr>p_kill_pendingtasks := p_kill_pendingtasks p @ [\<lparr>gt_generation = p_generation p, gt_task = t\<rparr>]\<rparr>"

text \<open>\<open>moniter_duration_threshold\<close> is never set: it is a minute.\<close>

definition moniter_duration_threshold :: int where
  "moniter_duration_threshold = 60 * 1000"

definition update_count_timer :: "host \<Rightarrow> prog_info_t \<Rightarrow> prog_info_t" where
  "update_count_timer h p =
     (if h_now h - p_last_dead_time_ms p > moniter_duration_threshold
      then p\<lparr>p_last_dead_time_ms := h_now h, p_dead_count_timer := 0\<rparr>
      else p\<lparr>p_dead_count_timer := p_dead_count_timer p + 1\<rparr>)"

definition restart_config :: "prog_cfg_t \<Rightarrow> restart_policy_config" where
  "restart_config c = \<lparr>rc_delay_ms = cfg_restart_delay_ms c, rc_max_delay_ms = cfg_restart_max_delay_ms c,
     rc_window_ms = cfg_restart_window_ms c, rc_max_attempts = cfg_restart_max_attempts c,
     rc_reset_after_ms = cfg_restart_reset_after_ms c\<rparr>"

definition prog_plan_restart :: "int \<Rightarrow> int \<Rightarrow> prog_info_t \<Rightarrow> restart_decision \<times> prog_info_t" where
  "prog_plan_restart now_ms runtime_ms p =
     (case plan_automatic_restart (restart_config (p_cfg p)) (p_restart_state p) now_ms runtime_ms of
       (decision, st) \<Rightarrow>
         (decision, p\<lparr>p_restart_state := st, p_restart_pending := rd_restart decision,
            p_restart_due_ms := (if rd_restart decision then now_ms + rd_delay_ms decision else 0)\<rparr>))"

definition reset_restart_policy :: "prog_info_t \<Rightarrow> prog_info_t" where
  "reset_restart_policy p = p\<lparr>p_restart_state := reset_policy (p_restart_state p), p_restart_pending := False,
     p_restart_due_ms := 0\<rparr>"

subsection \<open>Sessions\<close>

text \<open>A reply of a status, a message and more fields.\<close>

definition reply_frame :: "int \<Rightarrow> string \<Rightarrow> appender list \<Rightarrow> exn + frame" where
  "reply_frame code msg extra = append_all ([fappend_i32 code, fappend_string msg] @ extra) []"

text \<open>The frames of a message, each sent to all sessions; \<open>more_of i n\<close> is the flag of frame \<open>i\<close> of \<open>n\<close>.\<close>

definition stream_to :: "nat list \<Rightarrow> int \<Rightarrow> string \<Rightarrow> (nat \<Rightarrow> nat \<Rightarrow> bool) \<Rightarrow> effect list" where
  "stream_to sids msg_type content more_of = (case str_to_frames msg_type content of
       Inl e \<Rightarrow> [Out_raised e]
     | Inr frames \<Rightarrow> concat (map (\<lambda>i. map (\<lambda>sid. Out_stream sid (frames ! i) (more_of i (length frames))) sids)
         [0..<length frames]))"

definition fail_pending_log_sessions :: "(nat \<Rightarrow> bool) \<Rightarrow> string \<Rightarrow> prog_info_t prog_op" where
  "fail_pending_log_sessions closed message p =
     (map (\<lambda>sid. Out_frame sid (reply_frame (-1) message [])) (filter (\<lambda>sid. \<not> closed sid) (p_pending_log_sessions p)),
      p\<lparr>p_pending_log_sessions := []\<rparr>)"

definition detach_sessions :: "(nat \<Rightarrow> bool) \<Rightarrow> prog_info_t prog_op" where
  "detach_sessions closed p =
     (case fail_pending_log_sessions closed ''log wait canceled before the next generation started''
             (p\<lparr>p_sessions := []\<rparr>) of
       (effs, p') \<Rightarrow> (map Out_mark_close (p_sessions p) @ effs, p'))"

definition add_session :: "nat \<Rightarrow> prog_info_t \<Rightarrow> prog_info_t" where
  "add_session sid p = p\<lparr>p_sessions := p_sessions p @ [sid]\<rparr>"

definition remove_session :: "nat \<Rightarrow> prog_info_t \<Rightarrow> prog_info_t" where
  "remove_session sid p = p\<lparr>p_sessions := filter (\<lambda>s. s \<noteq> sid) (p_sessions p)\<rparr>"

definition wait_for_next_log_generation :: "nat \<Rightarrow> prog_info_t \<Rightarrow> prog_info_t" where
  "wait_for_next_log_generation sid p = p\<lparr>p_pending_log_sessions := p_pending_log_sessions p @ [sid]\<rparr>"

text \<open>The log response of a running program, also sent by \<open>prog_bind_session\<close>.\<close>

definition live_log_frame :: "prog_info_t \<Rightarrow> exn + frame" where
  "live_log_frame p = reply_frame 0 ''success'' [append_program_log_response
     \<lparr>lp_mode = LR_live, lp_generation = p_generation p, lp_last_pid = mi_last_pid (p_instance p),
      lp_last_exit_time_unix_ms = 0, lp_exit_reason = [], lp_exit_code = 0\<rparr>]"

definition activate_pending_log_sessions :: "(nat \<Rightarrow> bool) \<Rightarrow> prog_info_t prog_op" where
  "activate_pending_log_sessions closed p =
     (let sids = filter (\<lambda>sid. \<not> closed sid) (p_pending_log_sessions p) in
      (map (\<lambda>sid. Out_frame sid (live_log_frame p)) sids,
       p\<lparr>p_sessions := p_sessions p @ sids, p_pending_log_sessions := []\<rparr>))"

definition write_msg_to_sessions :: "int \<Rightarrow> string \<Rightarrow> prog_info_t prog_op" where
  "write_msg_to_sessions msg_type content p =
     (if p_sessions p = [] then []
      else stream_to (p_sessions p) msg_type content (\<lambda>i n. msg_type \<noteq> 0 \<or> i + 1 < n),
      p\<lparr>p_log_tail := append_tail content (p_log_tail p)\<rparr>)"

definition write_cache_log_to_session :: "nat \<Rightarrow> prog_info_t \<Rightarrow> effect list" where
  "write_cache_log_to_session sid p =
     (let prev_log = snapshot_tail (p_log_tail p) in
      if prev_log = [] then [] else stream_to [sid] 1 prev_log (\<lambda>i n. True))"

definition exit_reason :: "int \<Rightarrow> string \<times> int \<Rightarrow> string \<times> int" where
  "exit_reason ws other =
     (if WIFEXITED ws then (''exited'', WEXITSTATUS ws)
      else if WIFSIGNALED ws then (''signaled'', WTERMSIG ws) else other)"

definition write_prog_exit_message :: "(nat \<Rightarrow> bool) \<Rightarrow> prog_info_t prog_op" where
  "write_prog_exit_message closed p =
     (let pid = (if p_pid p = -1 then mi_last_pid (p_instance p) else p_pid p);
          (reason, code) = exit_reason (p_last_wstatus p) (''unknown'', 0);
          content = format_program_exit_event (p_name p) pid reason code;
          streams = (if p_sessions p = [] then [] else stream_to (p_sessions p) 0 content (\<lambda>i n. i + 1 < n));
          (effs, p') = detach_sessions closed p
      in (streams @ effs, p'))"

subsection \<open>Output\<close>

definition writer_count :: "prog_info_t \<Rightarrow> nat" where
  "writer_count p = (if cfg_log_mode (p_cfg p) = LM_combined then 1 else 2)"

text \<open>One round of the loop of \<open>init_prog_log\<close>.\<close>

definition open_writer :: "host \<Rightarrow> nat \<Rightarrow> prog_info_t \<Rightarrow> prog_info_t" where
  "open_writer h i p = (case h_log_open h (p_logfile p ! i) of
       None \<Rightarrow> p\<lparr>p_writers := (p_writers p)[i := True]\<rparr>
     | Some err \<Rightarrow> p\<lparr>p_writers := (p_writers p)[i := False],
         p_log_health := record_failure (h_now h) 0 err (p_log_health p)\<rparr>)"

definition init_prog_log :: "host \<Rightarrow> prog_info_t \<Rightarrow> prog_info_t" where
  "init_prog_log h p =
     fold (\<lambda>i p. if p_logfile p ! i = [] then p else open_writer h i p) [0..<writer_count p]
       (p\<lparr>p_log_tail := clear_tail (p_log_tail p), p_log_health := reset_health (p_log_health p),
          p_residual_log := []\<rparr>)"

definition reopen_siblings :: "host \<Rightarrow> prog_info_t \<Rightarrow> prog_info_t" where
  "reopen_siblings h p =
     fold (\<lambda>i p. if p_writers p ! i then p else open_writer h i p) [0..<writer_count p] p"

definition recover_log :: "prog_info_t \<Rightarrow> prog_info_t" where
  "recover_log p =
     (if lh_degraded (p_log_health p) \<and> list_all (\<lambda>i. p_writers p ! i) [0..<writer_count p]
      then p\<lparr>p_log_health := record_recovery (p_log_health p)\<rparr> else p)"

text \<open>The rest of \<open>redirect_output_log\<close>, once the writers are as good as they get.\<close>

definition write_log :: "host \<Rightarrow> nat \<Rightarrow> string \<Rightarrow> prog_info_t prog_op" where
  "write_log h w txt p =
     (if \<not> p_writers p ! w
      then ([], p\<lparr>p_log_health := (p_log_health p)\<lparr>lh_dropped_bytes := lh_dropped_bytes (p_log_health p) + length txt\<rparr>\<rparr>)
      else case h_log_append h (p_logfile p ! w) txt of
        None \<Rightarrow> ([Out_log (p_logfile p ! w) txt], p)
      | Some err \<Rightarrow> ([], p\<lparr>p_writers := (p_writers p)[w := False],
          p_log_health := record_failure (h_now h) (length txt) err (p_log_health p)\<rparr>))"

definition redirect_output_log :: "host \<Rightarrow> nat \<Rightarrow> string \<Rightarrow> prog_info_t prog_op" where
  "redirect_output_log h i txt p =
     (let w = (if cfg_log_mode (p_cfg p) = LM_combined then 0 else i) in
      if \<not> p_writers p ! w \<and> (\<not> lh_degraded (p_log_health p) \<or> retry_ready (h_now h) (p_log_health p))
      then (case h_log_open h (p_logfile p ! w) of
          Some err \<Rightarrow> ([], p\<lparr>p_log_health := record_failure (h_now h) (length txt) err (p_log_health p)\<rparr>)
        | None \<Rightarrow> write_log h w txt (recover_log (reopen_siblings h (p\<lparr>p_writers := (p_writers p)[w := True]\<rparr>))))
      else write_log h w txt p)"

definition prog_remove_ANSI :: "string \<Rightarrow> prog_info_t \<Rightarrow> string \<times> prog_info_t" where
  "prog_remove_ANSI txt p = (case remove_ANSI_escape_code (p_residual_log p @ txt) of
     (pure, rest) \<Rightarrow> (pure, p\<lparr>p_residual_log := rest\<rparr>))"

text \<open>
  \<open>read_pipe\<close>, on the bytes that wait in the pipe: they are taken in rounds of at most 64 KiB and read in pieces of
  at most 4 KiB, each of which goes to the log; a round ends with its bytes going to the sessions.  An empty pipe is
  closed.  A read of bytes that are there succeeds.
\<close>

definition read_piece :: "host \<Rightarrow> nat \<Rightarrow> string \<Rightarrow> effect list \<times> prog_info_t \<Rightarrow> effect list \<times> prog_info_t" where
  "read_piece h i txt = (\<lambda>(effs, p).
     let (pure, p1) = (if cfg_pty (p_cfg p) then prog_remove_ANSI txt p else (txt, p));
         (effs', p2) = redirect_output_log h i pure p1
     in (effs @ effs', p2))"

definition read_round :: "host \<Rightarrow> nat \<Rightarrow> string \<Rightarrow> effect list \<times> prog_info_t \<Rightarrow> effect list \<times> prog_info_t" where
  "read_round h i bytes = (\<lambda>(effs, p).
     let (effs1, p1) = fold (read_piece h i) (split_contents 4096 bytes) (effs, p);
         (effs2, p2) = write_msg_to_sessions 1 bytes p1
     in (effs1 @ effs2, p2))"

definition close_pipe :: "nat \<Rightarrow> prog_info_t \<Rightarrow> prog_info_t" where
  "close_pipe i p = p\<lparr>p_pipes := (p_pipes p)[i := False]\<rparr>"

definition read_pipe :: "host \<Rightarrow> nat \<Rightarrow> bool \<Rightarrow> prog_info_t prog_op" where
  "read_pipe h i killed p =
     (let avail = h_pipe h (p_name p) i in
      if killed
      then (case fold (read_round h i) (split_contents 65536 avail) ([], p) of (effs, p') \<Rightarrow> (effs, close_pipe i p'))
      else if avail = [] then ([], close_pipe i p)
      else read_round h i (take 65536 avail) ([], p))"

definition close_fds :: "host \<Rightarrow> (nat \<Rightarrow> bool) \<Rightarrow> prog_info_t prog_op" where
  "close_fds h closed p =
     (let (effs0, p0) = (if p_pipes p ! 0 then read_pipe h 0 True p else ([], p));
          (effs1, p1) = (if p_pipes p0 ! 1 then read_pipe h 1 True p0 else ([], p0));
          (effs2, p2) = write_prog_exit_message closed p1
      in (effs0 @ effs1 @ effs2,
          p2\<lparr>p_pipes := [False, False], p_writers := [False, False],
             p_instance := (p_instance p2)\<lparr>mi_pid := -1\<rparr>\<rparr>))"

subsection \<open>Definitions, configurations and snapshots\<close>

text \<open>
  \<open>create_prog\<close>: what it takes over of a configuration.  Everything else has the default of
  \<open>prog_info_t\<close> and is set by the two callers (\<open>complete_prog\<close>).
\<close>

definition create_prog :: "string \<Rightarrow> prog_cfg_t \<Rightarrow> string list \<Rightarrow> prog_info_t option" where
  "create_prog app_log_dir config envs =
     (let log_dir = (if cfg_log_dir config = [] then app_log_dir else cfg_log_dir config);
          names = derive_log_paths log_dir (cfg_name config) (cfg_log_mode config) (cfg_log_file_name config)
      in if cfg_cwd config = [] \<or> cfg_executable config = [] then None
         else Some (default_prog_info\<lparr>
           p_cfg := default_prog_cfg\<lparr>cfg_pty := cfg_pty config, cfg_log_mode := cfg_log_mode config,
             cfg_log_dir := cfg_log_dir config, cfg_log_file_name := cfg_log_file_name config,
             cfg_log_max_size_kb := cfg_log_max_size_kb config, cfg_log_archive_count := cfg_log_archive_count config,
             cfg_name := cfg_name config, cfg_cwd := cfg_cwd config, cfg_executable := cfg_executable config,
             cfg_args := cfg_args config, cfg_envs := envs, cfg_kill_timeout_s := cfg_kill_timeout_s config,
             cfg_run_as := cfg_run_as config\<rparr>,
           p_logfile := take 2 (names @ [[], []])\<rparr>))"

definition complete_prog :: "string \<Rightarrow> prog_cfg_t \<Rightarrow> prog_info_t \<Rightarrow> prog_info_t" where
  "complete_prog source config p = p\<lparr>p_config_source := source,
     p_cfg := (p_cfg p)\<lparr>cfg_depends_on := cfg_depends_on config, cfg_start_timeout := cfg_start_timeout config,
       cfg_failure_action := cfg_failure_action config, cfg_daemon := cfg_daemon config,
       cfg_oom_score_adj := cfg_oom_score_adj config, cfg_heartbeat_timeout := cfg_heartbeat_timeout config,
       cfg_env_vars := cfg_env_vars config, cfg_restart_delay_ms := cfg_restart_delay_ms config,
       cfg_restart_max_delay_ms := cfg_restart_max_delay_ms config,
       cfg_restart_window_ms := cfg_restart_window_ms config,
       cfg_restart_max_attempts := cfg_restart_max_attempts config,
       cfg_restart_reset_after_ms := cfg_restart_reset_after_ms config\<rparr>\<rparr>"

text \<open>What \<open>inspect\<close> and \<open>list\<close> report: everything but the environment the client sent.\<close>

definition snapshot_config :: "prog_info_t \<Rightarrow> prog_cfg_t" where
  "snapshot_config p = (let c = p_cfg p in default_prog_cfg\<lparr>
     cfg_name := cfg_name c, cfg_cwd := cfg_cwd c, cfg_executable := cfg_executable c, cfg_args := cfg_args c,
     cfg_kill_timeout_s := cfg_kill_timeout_s c, cfg_run_as := cfg_run_as c, cfg_env_vars := cfg_env_vars c,
     cfg_depends_on := cfg_depends_on c, cfg_start_timeout := cfg_start_timeout c,
     cfg_failure_action := cfg_failure_action c, cfg_daemon := cfg_daemon c,
     cfg_heartbeat_timeout := cfg_heartbeat_timeout c, cfg_oom_score_adj := cfg_oom_score_adj c,
     cfg_pty := cfg_pty c, cfg_log_mode := cfg_log_mode c, cfg_log_dir := cfg_log_dir c,
     cfg_log_file_name := cfg_log_file_name c, cfg_log_max_size_kb := cfg_log_max_size_kb c,
     cfg_log_archive_count := cfg_log_archive_count c, cfg_restart_delay_ms := cfg_restart_delay_ms c,
     cfg_restart_max_delay_ms := cfg_restart_max_delay_ms c, cfg_restart_window_ms := cfg_restart_window_ms c,
     cfg_restart_max_attempts := cfg_restart_max_attempts c,
     cfg_restart_reset_after_ms := cfg_restart_reset_after_ms c\<rparr>)"

text \<open>What \<open>save\<close> writes for a program (\<open>save_proc_to_cfg\<close> and \<open>begin_save_proc_to_cfg\<close> fill it alike).\<close>

definition saved_cfg :: "prog_info_t \<Rightarrow> prog_cfg_t" where
  "saved_cfg p = (let c = p_cfg p in default_prog_cfg\<lparr>
     cfg_executable := cfg_executable c, cfg_args := cfg_args c, cfg_cwd := cfg_cwd c, cfg_name := cfg_name c,
     cfg_kill_timeout_s := cfg_kill_timeout_s c, cfg_run_as := cfg_run_as c, cfg_envs := cfg_envs c,
     cfg_depends_on := cfg_depends_on c, cfg_daemon := cfg_daemon c, cfg_start_timeout := cfg_start_timeout c,
     cfg_failure_action := cfg_failure_action c, cfg_heartbeat_timeout := cfg_heartbeat_timeout c,
     cfg_env_vars := cfg_env_vars c, cfg_oom_score_adj := cfg_oom_score_adj c, cfg_pty := cfg_pty c,
     cfg_restart_delay_ms := cfg_restart_delay_ms c, cfg_restart_max_delay_ms := cfg_restart_max_delay_ms c,
     cfg_restart_window_ms := cfg_restart_window_ms c, cfg_restart_max_attempts := cfg_restart_max_attempts c,
     cfg_restart_reset_after_ms := cfg_restart_reset_after_ms c\<rparr>)"

text \<open>The degradation of the process tree controller is an argument: the flag and the reason.\<close>

definition snapshot_runtime :: "host \<Rightarrow> bool \<times> string \<Rightarrow> prog_info_t \<Rightarrow> runtime_snapshot" where
  "snapshot_runtime h controller p =
     (let now = h_now h;
          heartbeat = cfg_heartbeat_timeout (p_cfg p) > 0;
          has_tick = heartbeat \<and> p_last_tick_timepoint p > 0;
          has_uptime = p_pid p > 0 \<and> p_last_startup_ms p > 0;
          rss = h_rss h (p_pid p);
          suppressed = rp_suppressed (p_restart_state p);
          health = p_log_health p;
          ws = p_last_wstatus p
      in \<lparr>rs_pid = p_pid p, rs_generation = p_generation p, rs_state = prog_state_code (p_state p),
          rs_restart_count = p_dead_count p, rs_ready = (p_state p = PS_runing),
          rs_heartbeat_enabled = heartbeat, rs_has_last_tick_age = has_tick,
          rs_last_tick_age_ms = (if has_tick then max 0 (now - p_last_tick_timepoint p) else 0),
          rs_has_uptime = has_uptime,
          rs_uptime_ms = (if has_uptime then max 0 (now - p_last_startup_ms p) else 0),
          rs_has_rss = (p_pid p > 0 \<and> rss \<ge> 0), rs_rss_kib = (if p_pid p > 0 then rss else 0),
          rs_pty = (if cfg_pty (p_cfg p) then PTY_enabled else PTY_disabled),
          rs_restart_pending = p_restart_pending p,
          rs_restart_delay_remaining_ms = (if p_restart_pending p then max 0 (p_restart_due_ms p - now) else 0),
          rs_restart_attempts_in_window = int (length (rp_attempts_ms (p_restart_state p))),
          rs_restart_suppressed = suppressed,
          rs_restart_suppression_reason = (if suppressed then ''restart attempt limit reached'' else []),
          rs_has_last_exit = p_has_last_exit p,
          rs_last_exit_reason = (if \<not> p_has_last_exit p then ER_none else if WIFEXITED ws then ER_exited
            else if WIFSIGNALED ws then ER_signaled else ER_unknown),
          rs_last_exit_code = (if \<not> p_has_last_exit p then 0 else if WIFEXITED ws then WEXITSTATUS ws
            else if WIFSIGNALED ws then WTERMSIG ws else ws),
          rs_process_tree_backend = p_tree_backend p,
          rs_process_tree_degraded = (p_tree_degraded p \<or> fst controller),
          rs_process_tree_degradation_reason = (if p_tree_reason p \<noteq> [] then p_tree_reason p else snd controller),
          rs_config_source = p_config_source p, rs_log_degraded = lh_degraded health,
          rs_log_dropped_bytes = of_nat (lh_dropped_bytes health), rs_log_last_error = lh_last_error health,
          rs_log_retry_remaining_ms = (if lh_degraded health then max 0 (lh_retry_due_ms health - now) else 0),
          rs_log_paths = filter (\<lambda>path. path \<noteq> []) (p_logfile p)\<rparr>)"

end
