(* ===== verification/Process_Spawn.thy ===== *)
theory Process_Spawn
  imports Managed_Program
begin

section \<open>Launching a process (daemon/pm_tiny_server, real_spawn_prog)\<close>

text \<open>
  How the executable of a program is found, and the parent's side of a launch: \<open>fork\<close>, the attachment of the
  child to a process tree, the gate that lets it go on, and the pipe on which it reports a failed \<open>exec\<close>.
  The results of the system calls are the \<open>spawn_calls\<close> of the launch.  What the child executes is part of the
  effect \<open>Out_started\<close>.
\<close>

subsection \<open>Finding the executable\<close>

definition find_env_value :: "string list \<Rightarrow> string \<Rightarrow> string" where
  "find_env_value environment key =
     (case List.find (\<lambda>entry. env_key entry = key) environment of
        Some entry \<Rightarrow> drop (length key + 1) entry
      | None \<Rightarrow> [])"

definition resolve_executable_candidate :: "host \<Rightarrow> string \<Rightarrow> string option" where
  "resolve_executable_candidate h candidate =
     (case h_realpath h candidate of
        None \<Rightarrow> None
      | Some path \<Rightarrow> if h_is_executable h path then Some path else None)"

fun path_directories :: "string \<Rightarrow> string list" where
  "path_directories [] = [[]]"
| "path_directories (c # s) =
     (if c = CHR '':'' then [] # path_directories s
      else case path_directories s of [] \<Rightarrow> [[c]] | d # ds \<Rightarrow> (c # d) # ds)"

text \<open>The candidate of a directory of \<open>PATH\<close>; the empty one is the working directory.\<close>

definition path_candidate :: "string \<Rightarrow> string \<Rightarrow> string \<Rightarrow> string" where
  "path_candidate cwd executable directory =
     (let search_directory = (if directory = [] then ''.'' else directory);
          base = (if hd search_directory = CHR ''/'' then search_directory else cwd @ ''/'' @ search_directory)
      in base @ ''/'' @ executable)"

fun first_resolved :: "host \<Rightarrow> string list \<Rightarrow> string option" where
  "first_resolved h [] = None"
| "first_resolved h (c # cs) =
     (case resolve_executable_candidate h c of Some path \<Rightarrow> Some path | None \<Rightarrow> first_resolved h cs)"

definition resolve_executable :: "host \<Rightarrow> prog_info_t \<Rightarrow> string list \<Rightarrow> string option" where
  "resolve_executable h p environment =
     (let executable = cfg_executable (p_cfg p) in
      case h_realpath h (cfg_cwd (p_cfg p)) of
        None \<Rightarrow> None
      | Some cwd \<Rightarrow>
          if \<not> h_is_dir h cwd then None
          else if CHR ''/'' \<in> set executable
          then resolve_executable_candidate h
                 (if hd executable = CHR ''/'' then executable else cwd @ ''/'' @ executable)
          else first_resolved h ((cwd @ ''/'' @ executable) #
                 map (path_candidate cwd executable) (path_directories (find_env_value environment ''PATH''))))"

subsection \<open>The launch\<close>

definition EPERM :: int where "EPERM = 1"
definition ENOENT :: int where "ENOENT = 2"
definition EIO :: int where "EIO = 5"
definition ETIMEDOUT :: int where "ETIMEDOUT = 110"

text \<open>The four variables the daemon puts in front of the environment of a child.\<close>

record server_paths =
  sp_home_dir :: string
  sp_sock_file :: string
  sp_uds_abstract :: bool
  sp_app_log_dir :: string

definition child_environment :: "server_paths \<Rightarrow> prog_info_t \<Rightarrow> string list" where
  "child_environment sp p =
     [''PM_TINY_APP_NAME='' @ p_name p, ''PM_TINY_HOME='' @ sp_home_dir sp, ''PM_TINY_SOCK_FILE='' @ sp_sock_file sp,
      ''PM_TINY_UDS_ABSTRACT_NAMESPACE='' @ (if sp_uds_abstract sp then ''1'' else ''0'')]"

definition identity_error :: "host \<Rightarrow> spawn_calls \<Rightarrow> prog_info_t \<Rightarrow> int option" where
  "identity_error h sc p =
     (let run_as = cfg_run_as (p_cfg p) in
      if run_as = [] then None
      else case h_user_named h run_as of
        None \<Rightarrow> Some (sc_errno sc)
      | Some u \<Rightarrow> if h_euid h \<noteq> 0 \<and> (pw_uid u \<noteq> h_euid h \<or> pw_gid u \<noteq> h_egid h) then Some EPERM else None)"

definition fail_start :: "int \<Rightarrow> prog_info_t \<Rightarrow> int option \<times> effect list \<times> prog_info_t" where
  "fail_start err p = (Some err, [], p\<lparr>p_instance := reset_failed_start (p_instance p)\<rparr>)"

text \<open>The parent after \<open>fork\<close>; the result is the error number, if the launch failed.\<close>

definition after_fork ::
  "host \<Rightarrow> spawn_calls \<Rightarrow> string \<times> string list \<times> string list \<Rightarrow> prog_info_t \<Rightarrow> int option \<times> effect list \<times> prog_info_t" where
  "after_fork h sc exec p =
     (let p1 = p\<lparr>p_instance := instance_begin (sc_fork sc) (p_instance p)\<rparr> in
      case sc_attach sc of
        Inl reason \<Rightarrow> fail_start EPERM p1
      | Inr (tree, reason) \<Rightarrow>
          let p2 = p1\<lparr>p_instance := (p_instance p1)\<lparr>mi_tree := tree\<rparr>,
                p_tree_backend := process_tree_mode_name (th_mode tree), p_tree_degraded := (reason \<noteq> []),
                p_tree_reason := reason\<rparr>;
              exec_status = (if sc_poll sc < 0 then -1 else sc_exec_status sc)
          in if sc_gate_write sc \<noteq> 1 then fail_start (sc_errno sc) p2
             else if sc_poll sc = 0 then fail_start ETIMEDOUT p2
             else if exec_status < 0 then fail_start (sc_errno sc) p2
             else if exec_status > 0 then fail_start (sc_child_errno sc) p2
             else (None, [Out_started (p_name p) (sc_fork sc) exec],
               p2\<lparr>p_pipes := (if cfg_pty (p_cfg p) then (p_pipes p)[0 := True] else [True, True]),
                  p_last_startup_ms := h_now h, p_heartbeat_action_due_ms := 0, p_state := PS_starting\<rparr>))"

definition real_spawn_prog ::
  "host \<Rightarrow> server_paths \<Rightarrow> spawn_calls \<Rightarrow> prog_info_t \<Rightarrow> int option \<times> effect list \<times> prog_info_t" where
  "real_spawn_prog h sp sc p =
     (case identity_error h sc p of
        Some err \<Rightarrow> (Some err, [], p)
      | None \<Rightarrow>
          let environment = compose_launch_environment (cfg_envs (p_cfg p)) (cfg_env_vars (p_cfg p)) None False in
          case resolve_executable h p environment of
            None \<Rightarrow> (Some ENOENT, [], p)
          | Some executable \<Rightarrow>
              if \<not> sc_prepare sc \<or> \<not> sc_block sc \<or> sc_fork sc \<le> 0 then (Some (sc_errno sc), [], p)
              else after_fork h sc
                (executable, cfg_executable (p_cfg p) # cfg_args (p_cfg p), child_environment sp p @ environment) p)"

subsection \<open>Lemmas\<close>

text \<open>What a launch leaves alone, and what it does to the process of the program.\<close>

lemma real_spawn_prog_keeps:
  assumes "real_spawn_prog h sp sc p = (err, effs, p')"
  shows "p_cfg p' = p_cfg p" "p_sessions p' = p_sessions p" "p_pending_log_sessions p' = p_pending_log_sessions p"
    "p_kill_pendingtasks p' = p_kill_pendingtasks p"
  using assms by (auto simp: real_spawn_prog_def after_fork_def fail_start_def Let_def
      split: option.splits sum.splits prod.splits if_splits)

lemma real_spawn_prog_ok:
  assumes "real_spawn_prog h sp sc p = (None, effs, p')"
  shows "p_state p' = PS_starting" "p_pid p' = sc_fork sc" "0 < p_pid p'" "p_generation p' = p_generation p + 1"
    "\<exists>exec. effs = [Out_started (p_name p) (sc_fork sc) exec]"
  using assms by (auto simp: real_spawn_prog_def after_fork_def fail_start_def instance_begin_def Let_def
      split: option.splits sum.splits prod.splits if_splits)

lemma real_spawn_prog_failed:
  assumes "real_spawn_prog h sp sc p = (Some err, effs, p')" "p_pid p = -1"
  shows "p_state p' = p_state p" "p_pid p' = -1" "effs = []"
  using assms by (auto simp: real_spawn_prog_def after_fork_def fail_start_def reset_failed_start_def Let_def
      split: option.splits sum.splits prod.splits if_splits)

end
