(* ===== verification/Dependency_Runtime.thy ===== *)
theory Dependency_Runtime
  imports Dependency_Graph_Correct
begin

section \<open>The dependency runtime (core/dependency_graph, class dependency_runtime)\<close>

text \<open>
  The start state of every program over a built graph: what has been requested, what may be started
  now, what is blocked by a failure.  The daemon starts exactly the names these operations return.
  The \<open>graph_\<close> pointer is the graph itself, and the null pointer of a default-constructed runtime is
  the empty graph: the operations that test for null return the same for both.  The recursive
  functions are run with an explicit list of the calls still to make.
\<close>

subsection \<open>Data\<close>

datatype dependency_runtime_state =
  DR_idle | DR_pending | DR_starting | DR_ready | DR_failed | DR_blocked

record dependency_failure_result =
  fr_failed :: "string list"
  fr_blocked :: "string list"

record dependency_runtime_entry =
  re_name :: string
  re_state :: dependency_runtime_state
  re_requested :: bool

record dependency_runtime =
  dr_graph :: dependency_graph
  dr_states :: "dependency_runtime_state list"
  dr_requested :: "bool list"

subsection \<open>Operations\<close>

definition set_state :: "nat \<Rightarrow> dependency_runtime_state \<Rightarrow> dependency_runtime \<Rightarrow> dependency_runtime" where
  "set_state i st r = r\<lparr>dr_states := (dr_states r)[i := st]\<rparr>"

definition set_requested :: "nat \<Rightarrow> bool \<Rightarrow> dependency_runtime \<Rightarrow> dependency_runtime" where
  "set_requested i b r = r\<lparr>dr_requested := (dr_requested r)[i := b]\<rparr>"

definition reset :: "dependency_graph \<Rightarrow> dependency_runtime" where
  "reset g = \<lparr>dr_graph = g, dr_states = replicate (graph_size g) DR_idle,
     dr_requested = replicate (graph_size g) False\<rparr>"

definition dependencies_ready :: "dependency_runtime \<Rightarrow> nat \<Rightarrow> bool" where
  "dependencies_ready r i \<longleftrightarrow>
     list_all (\<lambda>d. dr_states r ! d = DR_ready) (g_dependencies (dr_graph r) ! i)"

definition startable :: "dependency_runtime \<Rightarrow> nat \<Rightarrow> bool" where
  "startable r i \<longleftrightarrow> dr_requested r ! i \<and> dr_states r ! i = DR_pending \<and> dependencies_ready r i"

fun collect_from :: "nat list \<Rightarrow> dependency_runtime \<Rightarrow> string list \<times> dependency_runtime" where
  "collect_from [] r = ([], r)"
| "collect_from (i # is) r =
     (if startable r i
      then (case collect_from is (set_state i DR_starting r) of
              (names, r') \<Rightarrow> (g_names (dr_graph r) ! i # names, r'))
      else collect_from is r)"

definition collect_startable :: "dependency_runtime \<Rightarrow> string list \<times> dependency_runtime" where
  "collect_startable r = collect_from (g_topological_order (dr_graph r)) r"

text \<open>
  \<open>request_dependencies\<close>: the list holds the calls still to make, in order.  A call that is not cut
  short makes its node requested and neither failed nor blocked, which bounds their number.
\<close>

definition request_done :: "dependency_runtime_state list \<Rightarrow> bool list \<Rightarrow> nat \<Rightarrow> bool" where
  "request_done states req i \<longleftrightarrow> req ! i \<and> states ! i \<noteq> DR_failed \<and> states ! i \<noteq> DR_blocked"

definition requested_state :: "dependency_runtime_state \<Rightarrow> dependency_runtime_state" where
  "requested_state st = (if st = DR_idle \<or> st = DR_blocked \<or> st = DR_failed then DR_pending else st)"

definition undone_count :: "dependency_runtime_state list \<Rightarrow> bool list \<Rightarrow> nat" where
  "undone_count states req =
     card {i. i < length states \<and> i < length req \<and> \<not> request_done states req i}"

lemma undone_count_request:
  assumes "i < length states" "i < length req" "\<not> request_done states req i"
  shows "undone_count (states[i := requested_state (states ! i)]) (req[i := True])
    < undone_count states req"
proof -
  let ?S = "\<lambda>st rq. {i. i < length st \<and> i < length rq \<and> \<not> request_done st rq i}"
  have "?S (states[i := requested_state (states ! i)]) (req[i := True]) \<subset> ?S states req"
    using assms by (auto simp: request_done_def requested_state_def nth_list_update split: if_splits)
  then show ?thesis unfolding undone_count_def by (intro psubset_card_mono) auto
qed

function request_calls ::
  "nat list list \<Rightarrow> nat list \<Rightarrow> dependency_runtime_state list \<Rightarrow> bool list
    \<Rightarrow> dependency_runtime_state list \<times> bool list" where
  "request_calls deps [] states req = (states, req)"
| "request_calls deps (i # calls) states req =
     (if i < length states \<and> i < length req \<and> \<not> request_done states req i
      then request_calls deps ((deps ! i) @ calls)
             (states[i := requested_state (states ! i)]) (req[i := True])
      else request_calls deps calls states req)"
  by pat_completeness auto
termination
  by (relation "measures [\<lambda>(deps, calls, st, rq). undone_count st rq, \<lambda>(deps, calls, st, rq). length calls]")
    (auto intro: undone_count_request)

definition request_dependencies :: "nat \<Rightarrow> dependency_runtime \<Rightarrow> dependency_runtime" where
  "request_dependencies i r =
     (case request_calls (g_dependencies (dr_graph r)) [i] (dr_states r) (dr_requested r) of
        (st, rq) \<Rightarrow> r\<lparr>dr_states := st, dr_requested := rq\<rparr>)"

definition request_all :: "dependency_runtime \<Rightarrow> string list \<times> dependency_runtime" where
  "request_all r = collect_startable
     (r\<lparr>dr_requested := map (\<lambda>_. True) (dr_requested r),
        dr_states := map (\<lambda>st. if st = DR_idle \<or> st = DR_blocked then DR_pending else st) (dr_states r)\<rparr>)"

definition request_closure :: "string \<Rightarrow> dependency_runtime \<Rightarrow> string list \<times> dependency_runtime" where
  "request_closure nm r =
     (case graph_find (dr_graph r) nm of
        None \<Rightarrow> ([], r)
      | Some i \<Rightarrow> collect_startable (request_dependencies i r))"

definition still_blocked :: "dependency_runtime \<Rightarrow> nat \<Rightarrow> bool" where
  "still_blocked r i \<longleftrightarrow>
     list_ex (\<lambda>d. dr_states r ! d = DR_failed \<or> dr_states r ! d = DR_blocked)
       (g_dependencies (dr_graph r) ! i)"

definition unblock :: "nat \<Rightarrow> dependency_runtime \<Rightarrow> dependency_runtime" where
  "unblock j r =
     (if \<not> dr_requested r ! j \<or> dr_states r ! j \<noteq> DR_blocked then r
      else if still_blocked r j then r
      else set_state j DR_pending r)"

definition mark_ready :: "string \<Rightarrow> dependency_runtime \<Rightarrow> string list \<times> dependency_runtime" where
  "mark_ready nm r =
     (case graph_find (dr_graph r) nm of
        None \<Rightarrow> ([], r)
      | Some i \<Rightarrow> collect_startable
          (fold unblock (transitive_dependents (dr_graph r) i)
             (set_state i DR_ready (set_requested i True r))))"

text \<open>One round of the loop of \<open>mark_failed\<close>, on the list of newly blocked names and the runtime.\<close>

definition block_dependent ::
  "nat \<Rightarrow> string list \<times> dependency_runtime \<Rightarrow> string list \<times> dependency_runtime" where
  "block_dependent j = (\<lambda>(names, r).
     if \<not> dr_requested r ! j \<or> dr_states r ! j = DR_ready then (names, r)
     else (if dr_states r ! j \<noteq> DR_blocked then names @ [g_names (dr_graph r) ! j] else names,
           set_state j DR_blocked r))"

definition mark_failed ::
  "string \<Rightarrow> dependency_runtime \<Rightarrow> dependency_failure_result \<times> dependency_runtime" where
  "mark_failed nm r =
     (case graph_find (dr_graph r) nm of
        None \<Rightarrow> (\<lparr>fr_failed = [], fr_blocked = []\<rparr>, r)
      | Some i \<Rightarrow>
          (case fold block_dependent (transitive_dependents (dr_graph r) i)
                  ([], set_state i DR_failed (set_requested i True r)) of
             (names, r') \<Rightarrow> (\<lparr>fr_failed = [nm], fr_blocked = names\<rparr>, r')))"

definition mark_as :: "dependency_runtime_state \<Rightarrow> bool \<Rightarrow> string \<Rightarrow> dependency_runtime \<Rightarrow> dependency_runtime" where
  "mark_as st req nm r =
     (case graph_find (dr_graph r) nm of
        None \<Rightarrow> r
      | Some i \<Rightarrow> set_state i st (set_requested i req r))"

definition mark_starting :: "string \<Rightarrow> dependency_runtime \<Rightarrow> dependency_runtime" where
  "mark_starting = mark_as DR_starting True"

definition mark_idle :: "string \<Rightarrow> dependency_runtime \<Rightarrow> dependency_runtime" where
  "mark_idle = mark_as DR_idle False"

definition mark_pending :: "string \<Rightarrow> dependency_runtime \<Rightarrow> dependency_runtime" where
  "mark_pending = mark_as DR_pending True"

definition runtime_state :: "string \<Rightarrow> dependency_runtime \<Rightarrow> dependency_runtime_state" where
  "runtime_state nm r =
     (case graph_find (dr_graph r) nm of None \<Rightarrow> DR_idle | Some i \<Rightarrow> dr_states r ! i)"

text \<open>
  The recursive \<open>visit\<close> of \<open>blocked_by\<close> and \<open>waiting_for\<close>: the list holds the dependencies still to
  look at, innermost call first.  The two differ in what they collect and what they descend into.
\<close>

function dfs_collect ::
  "nat list list \<Rightarrow> (nat \<Rightarrow> bool) \<Rightarrow> (nat \<Rightarrow> bool) \<Rightarrow> nat list \<Rightarrow> bool list \<Rightarrow> nat list \<Rightarrow> nat list" where
  "dfs_collect deps collect descend [] visited result = result"
| "dfs_collect deps collect descend (d # ds) visited result =
     (if d < length visited \<and> \<not> visited ! d
      then dfs_collect deps collect descend ((if descend d then deps ! d else []) @ ds)
             (visited[d := True]) (if collect d then result @ [d] else result)
      else dfs_collect deps collect descend ds visited result)"
  by pat_completeness auto
termination
proof (relation "measures [\<lambda>(deps, c, e, ds, visited, result). unvisited_count visited,
                           \<lambda>(deps, c, e, ds, visited, result). length ds]", goal_cases)
  case 1
  show ?case by simp
next
  case (2 deps collect descend d ds visited result)
  then have "Suc (unvisited_count (visited[d := True])) = unvisited_count visited"
    using filter_update_length [of d visited Not True] by (simp add: unvisited_count_def)
  then show ?case by simp
next
  case 3
  then show ?case by simp
qed

text \<open>\<open>npos\<close> is the largest \<open>size_t\<close>; the comparator of the final sort compares what \<open>find\<close> returns.\<close>

definition find_key :: "dependency_graph \<Rightarrow> string \<Rightarrow> nat" where
  "find_key g nm = (case graph_find g nm of Some i \<Rightarrow> i | None \<Rightarrow> 2 ^ 64 - 1)"

definition collect_dependencies ::
  "(nat \<Rightarrow> bool) \<Rightarrow> (nat \<Rightarrow> bool) \<Rightarrow> string \<Rightarrow> dependency_graph \<Rightarrow> string list" where
  "collect_dependencies collect descend nm g =
     (case graph_find g nm of
        None \<Rightarrow> []
      | Some i \<Rightarrow> sort_key (find_key g)
          (map ((!) (g_names g))
             (dfs_collect (g_dependencies g) collect descend (g_dependencies g ! i)
                (replicate (graph_size g) False) [])))"

definition blocked_by :: "string \<Rightarrow> dependency_runtime \<Rightarrow> string list" where
  "blocked_by nm r = collect_dependencies (\<lambda>d. dr_states r ! d = DR_failed)
     (\<lambda>d. dr_states r ! d = DR_blocked) nm (dr_graph r)"

definition waiting_for :: "string \<Rightarrow> dependency_runtime \<Rightarrow> string list" where
  "waiting_for nm r = collect_dependencies (\<lambda>d. dr_states r ! d \<noteq> DR_ready) (\<lambda>d. True) nm (dr_graph r)"

definition all_terminal :: "dependency_runtime \<Rightarrow> bool" where
  "all_terminal r \<longleftrightarrow>
     list_all (\<lambda>i. \<not> (dr_requested r ! i \<and>
       (dr_states r ! i = DR_pending \<or> dr_states r ! i = DR_starting))) [0..<length (dr_states r)]"

definition snapshot :: "dependency_runtime \<Rightarrow> dependency_runtime_entry list" where
  "snapshot r = map (\<lambda>i. \<lparr>re_name = g_names (dr_graph r) ! i, re_state = dr_states r ! i,
     re_requested = dr_requested r ! i\<rparr>) [0..<graph_size (dr_graph r)]"

definition migrate_entry :: "dependency_runtime_entry \<Rightarrow> dependency_runtime \<Rightarrow> dependency_runtime" where
  "migrate_entry e r =
     (case graph_find (dr_graph r) (re_name e) of
        None \<Rightarrow> r
      | Some i \<Rightarrow> set_requested i (re_requested e) (set_state i (re_state e) r))"

definition migrate :: "dependency_graph \<Rightarrow> dependency_runtime_entry list \<Rightarrow> dependency_runtime" where
  "migrate g entries = fold migrate_entry entries (reset g)"

subsection \<open>All the calls as one step function\<close>

datatype runtime_call =
    Call_request_all | Call_request_closure string | Call_mark_ready string
  | Call_mark_failed string | Call_mark_starting string | Call_mark_idle string
  | Call_mark_pending string

definition runtime_step :: "runtime_call \<Rightarrow> dependency_runtime \<Rightarrow> dependency_runtime" where
  "runtime_step c r =
     (case c of
        Call_request_all \<Rightarrow> snd (request_all r)
      | Call_request_closure nm \<Rightarrow> snd (request_closure nm r)
      | Call_mark_ready nm \<Rightarrow> snd (mark_ready nm r)
      | Call_mark_failed nm \<Rightarrow> snd (mark_failed nm r)
      | Call_mark_starting nm \<Rightarrow> mark_starting nm r
      | Call_mark_idle nm \<Rightarrow> mark_idle nm r
      | Call_mark_pending nm \<Rightarrow> mark_pending nm r)"

end
