(* ===== verification/Dependency_Runtime_Correct.thy ===== *)
theory Dependency_Runtime_Correct
  imports Dependency_Runtime
begin

section \<open>Correctness of the dependency runtime\<close>

text \<open>
  The well-formedness invariant of the runtime and that every call keeps it; what each call does to
  the states; that only programs with all dependencies ready are handed out to be started; that a
  failure blocks exactly the requested programs that need the failed one; and that starting a whole
  configuration cannot get stuck.
\<close>

definition rt_wf :: "dependency_runtime \<Rightarrow> bool" where
  "rt_wf r \<longleftrightarrow> wf_graph (dr_graph r) \<and> length (dr_states r) = graph_size (dr_graph r) \<and>
     length (dr_requested r) = graph_size (dr_graph r)"

lemma rt_wf_setters [simp]:
  "rt_wf (set_state i st r) = rt_wf r" "rt_wf (set_requested i b r) = rt_wf r"
  by (simp_all add: rt_wf_def set_state_def set_requested_def)

lemma setters_simps [simp]:
  "dr_graph (set_state i st r) = dr_graph r" "dr_graph (set_requested i b r) = dr_graph r"
  "dr_requested (set_state i st r) = dr_requested r" "dr_states (set_requested i b r) = dr_states r"
  "dr_states (set_state i st r) = (dr_states r)[i := st]"
  "dr_requested (set_requested i b r) = (dr_requested r)[i := b]"
  by (simp_all add: set_state_def set_requested_def)

lemma graph_find_wf:
  assumes "wf_graph g" "graph_find g nm = Some i"
  shows "i < graph_size g" "g_names g ! i = nm"
  using assms position_less [of nm "g_names g"] nth_position [of nm "g_names g"]
  by (auto simp: graph_find_def wf_graph_def name_table_def graph_size_def split: if_splits)

lemma graph_find_nth: "wf_graph g \<Longrightarrow> i < graph_size g \<Longrightarrow> graph_find g (g_names g ! i) = Some i"
  by (simp add: graph_find_def wf_graph_def name_table_def graph_size_def position_nth)

lemma rt_wf_range:
  assumes "rt_wf r"
  shows "set (g_topological_order (dr_graph r)) = {..<graph_size (dr_graph r)}"
    and "distinct (g_topological_order (dr_graph r))"
    and "i < graph_size (dr_graph r) \<Longrightarrow> d \<in> set (g_dependencies (dr_graph r) ! i) \<Longrightarrow>
      d < graph_size (dr_graph r)"
  using assms by (auto simp: rt_wf_def wf_graph_def adjacency_def dest: least_first_distinct)

subsection \<open>Collecting what may start\<close>

lemma startable_set_starting:
  "i < length (dr_states r) \<Longrightarrow> startable r i \<Longrightarrow> j \<noteq> i \<Longrightarrow>
     startable (set_state i DR_starting r) j = startable r j"
  by (auto simp: startable_def dependencies_ready_def list_all_iff nth_list_update)

lemma collect_from_spec:
  assumes "distinct is" "set is \<subseteq> {..<length (dr_states r)}" "collect_from is r = (names, r')"
  shows "names = map ((!) (g_names (dr_graph r))) (filter (startable r) is) \<and>
    dr_graph r' = dr_graph r \<and> dr_requested r' = dr_requested r \<and>
    length (dr_states r') = length (dr_states r) \<and>
    (\<forall>j < length (dr_states r). dr_states r' ! j
       = (if j \<in> set is \<and> startable r j then DR_starting else dr_states r ! j))"
  using assms
proof (induction "is" arbitrary: r names r')
  case Nil
  then show ?case by auto
next
  case (Cons i "is")
  show ?case
  proof (cases "startable r i")
    case False
    with Cons.prems have "collect_from is r = (names, r')" by simp
    from Cons.IH [OF _ _ this] Cons.prems False show ?thesis by auto
  next
    case True
    then obtain names1 where c: "collect_from is (set_state i DR_starting r) = (names1, r')"
      "names = g_names (dr_graph r) ! i # names1"
      using Cons.prems(3) by (auto split: prod.splits)
    have i: "i < length (dr_states r)" using Cons.prems(2) by simp
    have eq: "startable (set_state i DR_starting r) j = startable r j" if "j \<in> set is" for j
      using startable_set_starting [OF i True, of j] that Cons.prems(1) by auto
    have "filter (startable (set_state i DR_starting r)) is = filter (startable r) is"
      using eq by (rule filter_cong [OF refl])
    with Cons.IH [OF _ _ c(1)] Cons.prems(1,2) c(2) True eq i show ?thesis
      by (auto simp: nth_list_update)
  qed
qed

lemma collect_startable_spec:
  assumes "rt_wf r" "collect_startable r = (names, r')"
  shows "names = map ((!) (g_names (dr_graph r))) (filter (startable r) (g_topological_order (dr_graph r)))"
    and "dr_graph r' = dr_graph r" "dr_requested r' = dr_requested r"
    and "length (dr_states r') = length (dr_states r)" "rt_wf r'"
    and "j < length (dr_states r) \<Longrightarrow>
      dr_states r' ! j = (if startable r j then DR_starting else dr_states r ! j)"
  using collect_from_spec [of "g_topological_order (dr_graph r)" r names r'] rt_wf_range(1,2) [OF assms(1)]
    assms by (auto simp: collect_startable_def rt_wf_def)

lemma collect_startable_ready_same:
  assumes "rt_wf r" "collect_startable r = (names, r')" "j < length (dr_states r)"
    and "st \<noteq> DR_starting" "st \<noteq> DR_pending"
  shows "dr_states r' ! j = st \<longleftrightarrow> dr_states r ! j = st"
  using collect_startable_spec(6) [OF assms(1-3)] assms(4,5) by (auto simp: startable_def)

text \<open>After a collection nothing startable is left, and what was handed out has all dependencies ready.\<close>

lemma dependencies_ready_collect:
  assumes "rt_wf r" "collect_startable r = (names, r')" "i < length (dr_states r)"
  shows "dependencies_ready r' i = dependencies_ready r i"
proof -
  have "\<forall>d \<in> set (g_dependencies (dr_graph r) ! i).
      dr_states r' ! d = DR_ready \<longleftrightarrow> dr_states r ! d = DR_ready"
    using collect_startable_ready_same [OF assms(1,2)] rt_wf_range(3) [OF assms(1)] assms(1,3)
    by (auto simp: rt_wf_def)
  then show ?thesis
    using collect_startable_spec(2) [OF assms(1,2)] by (auto simp: dependencies_ready_def list_all_iff)
qed

lemma collect_startable_exhausts:
  assumes "rt_wf r" "collect_startable r = (names, r')" "i < length (dr_states r)"
  shows "\<not> startable r' i"
  using dependencies_ready_collect [OF assms] collect_startable_spec(3) [OF assms(1,2)]
    collect_startable_spec(6) [OF assms]
  by (auto simp: startable_def split: if_splits)

lemma collect_startable_safe:
  assumes "rt_wf r" "collect_startable r = (names, r')" "nm \<in> set names"
  shows "\<exists>i. graph_find (dr_graph r) nm = Some i \<and> dr_states r' ! i = DR_starting \<and>
    dr_requested r' ! i \<and> dr_states r ! i = DR_pending \<and> dependencies_ready r' i"
proof -
  from assms(3) collect_startable_spec(1) [OF assms(1,2)] rt_wf_range(1) [OF assms(1)]
  obtain i where i: "nm = g_names (dr_graph r) ! i" "startable r i" "i < graph_size (dr_graph r)"
    by auto
  moreover have "i < length (dr_states r)" using i(3) assms(1) by (simp add: rt_wf_def)
  ultimately show ?thesis
    using graph_find_nth [of "dr_graph r" i] assms(1) dependencies_ready_collect [OF assms(1,2)]
      collect_startable_spec(3,6) [OF assms(1,2)]
    by (auto simp: rt_wf_def startable_def)
qed

lemma collect_startable_names:
  assumes "rt_wf r" "collect_startable r = (names, r')"
  shows "distinct names"
proof -
  have "distinct (g_names (dr_graph r))" using assms(1) by (simp add: rt_wf_def wf_graph_def)
  then have "inj_on ((!) (g_names (dr_graph r))) (set (g_topological_order (dr_graph r)))"
    using rt_wf_range(1) [OF assms(1)] by (auto simp: inj_on_def graph_size_def nth_eq_iff_index_eq)
  then show ?thesis
    unfolding collect_startable_spec(1) [OF assms]
    using rt_wf_range(2) [OF assms(1)] by (auto simp: distinct_map intro: inj_on_subset)
qed

subsection \<open>Unblocking and blocking\<close>

lemma fold_unblock_spec:
  "dr_graph (fold unblock js r) = dr_graph r \<and> dr_requested (fold unblock js r) = dr_requested r \<and>
   length (dr_states (fold unblock js r)) = length (dr_states r) \<and>
   (\<forall>j. dr_states (fold unblock js r) ! j = dr_states r ! j \<or>
      dr_requested r ! j \<and> dr_states r ! j = DR_blocked \<and>
      dr_states (fold unblock js r) ! j = DR_pending \<and> \<not> still_blocked (fold unblock js r) j)"
proof (induction js arbitrary: r)
  case Nil
  then show ?case by simp
next
  case (Cons k js)
  show ?case
  proof (cases "dr_requested r ! k \<and> dr_states r ! k = DR_blocked \<and> \<not> still_blocked r k")
    case False
    then have "unblock k r = r" by (auto simp: unblock_def)
    with Cons show ?thesis by simp
  next
    case True
    let ?r = "set_state k DR_pending r"
    have u: "unblock k r = ?r" using True by (simp add: unblock_def)
    from Cons [of ?r] have h: "dr_graph (fold unblock js ?r) = dr_graph r"
      "dr_requested (fold unblock js ?r) = dr_requested r"
      "length (dr_states (fold unblock js ?r)) = length (dr_states r)"
      "\<And>j. dr_states (fold unblock js ?r) ! j = dr_states ?r ! j \<or>
        dr_requested r ! j \<and> dr_states ?r ! j = DR_blocked \<and>
        dr_states (fold unblock js ?r) ! j = DR_pending \<and> \<not> still_blocked (fold unblock js ?r) j"
      by auto
    have mono: "dr_states (fold unblock js ?r) ! j = DR_failed \<or> dr_states (fold unblock js ?r) ! j = DR_blocked
      \<Longrightarrow> dr_states r ! j = DR_failed \<or> dr_states r ! j = DR_blocked" for j
      using h(4) [of j] by (auto simp: nth_list_update_if split: if_splits)
    have "\<not> still_blocked (fold unblock js ?r) k"
      using True mono h(1) by (auto simp: still_blocked_def list_ex_iff)
    moreover have "dr_states ?r ! j = DR_blocked \<Longrightarrow> dr_states r ! j = DR_blocked" for j
      by (auto simp: nth_list_update_if split: if_splits)
    moreover have "dr_states ?r ! j = dr_states r ! j \<or> j = k \<and> dr_states ?r ! j = DR_pending" for j
      by (auto simp: nth_list_update_if split: if_splits)
    ultimately have "dr_states (fold unblock js ?r) ! j = dr_states r ! j \<or>
        dr_requested r ! j \<and> dr_states r ! j = DR_blocked \<and>
        dr_states (fold unblock js ?r) ! j = DR_pending \<and> \<not> still_blocked (fold unblock js ?r) j" for j
      using h(4) [of j] True by metis
    with h u show ?thesis by simp
  qed
qed

lemma fold_block_spec:
  assumes "distinct js" "set js \<subseteq> {..<length (dr_states r)}"
    and "fold block_dependent js (names, r) = (names', r')"
  shows "names' = names @ map ((!) (g_names (dr_graph r)))
      (filter (\<lambda>j. dr_requested r ! j \<and> dr_states r ! j \<notin> {DR_ready, DR_blocked}) js) \<and>
    dr_graph r' = dr_graph r \<and> dr_requested r' = dr_requested r \<and>
    length (dr_states r') = length (dr_states r) \<and>
    (\<forall>j < length (dr_states r). dr_states r' ! j =
       (if j \<in> set js \<and> dr_requested r ! j \<and> dr_states r ! j \<noteq> DR_ready then DR_blocked
        else dr_states r ! j))"
  using assms
proof (induction js arbitrary: names r)
  case Nil
  then show ?case by auto
next
  case (Cons k js)
  obtain names1 r1 where s: "block_dependent k (names, r) = (names1, r1)"
    by (cases "block_dependent k (names, r)")
  have k: "k < length (dr_states r)" "k \<notin> set js" using Cons.prems by auto
  have r1: "dr_graph r1 = dr_graph r" "dr_requested r1 = dr_requested r"
    "length (dr_states r1) = length (dr_states r)"
    "\<And>j. j \<noteq> k \<Longrightarrow> dr_states r1 ! j = dr_states r ! j"
    "dr_states r1 ! k = (if dr_requested r ! k \<and> dr_states r ! k \<noteq> DR_ready then DR_blocked
       else dr_states r ! k)"
    "names1 = names @ map ((!) (g_names (dr_graph r)))
      (filter (\<lambda>j. dr_requested r ! j \<and> dr_states r ! j \<notin> {DR_ready, DR_blocked}) [k])"
    using s k(1) by (auto simp: block_dependent_def split: if_splits)
  have f: "filter (\<lambda>j. dr_requested r1 ! j \<and> dr_states r1 ! j \<notin> {DR_ready, DR_blocked}) js
    = filter (\<lambda>j. dr_requested r ! j \<and> dr_states r ! j \<notin> {DR_ready, DR_blocked}) js"
    using r1(2,4) k(2) by (intro filter_cong refl) (auto, metis+)
  from Cons.IH [of r1 names1] Cons.prems s r1(3)
  have ih: "names' = names1 @ map ((!) (g_names (dr_graph r1)))
      (filter (\<lambda>j. dr_requested r1 ! j \<and> dr_states r1 ! j \<notin> {DR_ready, DR_blocked}) js)"
    "dr_graph r' = dr_graph r1" "dr_requested r' = dr_requested r1"
    "length (dr_states r') = length (dr_states r1)"
    "\<And>j. j < length (dr_states r1) \<Longrightarrow> dr_states r' ! j =
       (if j \<in> set js \<and> dr_requested r1 ! j \<and> dr_states r1 ! j \<noteq> DR_ready then DR_blocked
        else dr_states r1 ! j)"
    by auto
  have "dr_states r' ! j = (if j \<in> set (k # js) \<and> dr_requested r ! j \<and> dr_states r ! j \<noteq> DR_ready
      then DR_blocked else dr_states r ! j)" if "j < length (dr_states r)" for j
    using ih(5) [of j] that r1 k(2) by (cases "j = k") auto
  with ih(1-4) r1(1-3,6) show ?case unfolding f by simp
qed

lemma transitive_dependents_range:
  assumes "wf_graph g" "i < graph_size g"
  shows "set (transitive_dependents g i) \<subseteq> {..<graph_size g}" "i \<notin> set (transitive_dependents g i)"
proof -
  have "(j, i) \<in> (dep_rel (g_dependencies g))\<^sup>+ \<Longrightarrow> j < graph_size g" for j
    by (induction rule: converse_trancl_induct)
      (use assms(1) in \<open>auto simp: dep_rel_def wf_graph_def adjacency_def\<close>)
  then show "set (transitive_dependents g i) \<subseteq> {..<graph_size g}"
    using transitive_dependents_spec(1) [OF assms] by auto
  show "i \<notin> set (transitive_dependents g i)"
    using transitive_dependents_spec(1) [OF assms] wf_graph_acyclic [OF assms(1)]
    by (simp add: acyclic_def)
qed

lemma mark_failed_spec:
  assumes "rt_wf r" "graph_find (dr_graph r) nm = Some i" "mark_failed nm r = (res, r')"
  shows "fr_failed res = [nm]"
    and "fr_blocked res = map ((!) (g_names (dr_graph r)))
      (filter (\<lambda>j. dr_requested r ! j \<and> dr_states r ! j \<notin> {DR_ready, DR_blocked})
        (transitive_dependents (dr_graph r) i))"
    and "dr_graph r' = dr_graph r" "dr_requested r' = (dr_requested r)[i := True]"
    and "length (dr_states r') = length (dr_states r)"
    and "j < length (dr_states r) \<Longrightarrow> dr_states r' ! j =
       (if j = i then DR_failed
        else if (j, i) \<in> (dep_rel (g_dependencies (dr_graph r)))\<^sup>+ \<and> dr_requested r ! j \<and>
          dr_states r ! j \<noteq> DR_ready then DR_blocked
        else dr_states r ! j)"
proof -
  let ?g = "dr_graph r" and ?r = "set_state i DR_failed (set_requested i True r)"
  have wf: "wf_graph ?g" and len: "length (dr_states r) = graph_size ?g"
    using assms(1) by (auto simp: rt_wf_def)
  have i: "i < graph_size ?g" using graph_find_wf [OF wf assms(2)] by simp
  note td = transitive_dependents_spec [OF wf i] transitive_dependents_range [OF wf i]
  obtain names where f: "fold block_dependent (transitive_dependents ?g i) ([], ?r) = (names, r')"
    "res = \<lparr>fr_failed = [nm], fr_blocked = names\<rparr>"
    using assms(2,3) by (auto simp: mark_failed_def split: prod.splits)
  have other: "j \<in> set (transitive_dependents ?g i) \<Longrightarrow> j \<noteq> i" for j
    using td(5) by auto
  have flt: "filter (\<lambda>j. dr_requested ?r ! j \<and> dr_states ?r ! j \<notin> {DR_ready, DR_blocked})
      (transitive_dependents ?g i)
    = filter (\<lambda>j. dr_requested r ! j \<and> dr_states r ! j \<notin> {DR_ready, DR_blocked})
      (transitive_dependents ?g i)"
  proof (rule filter_cong [OF refl])
    fix j
    assume "j \<in> set (transitive_dependents ?g i)"
    then have "i \<noteq> j" using other by auto
    then show "(dr_requested ?r ! j \<and> dr_states ?r ! j \<notin> {DR_ready, DR_blocked}) =
      (dr_requested r ! j \<and> dr_states r ! j \<notin> {DR_ready, DR_blocked})" by simp
  qed
  from fold_block_spec [OF td(2) _ f(1)] td(4) len
  have spec: "names = map ((!) (g_names ?g)) (filter (\<lambda>j. dr_requested ?r ! j \<and>
      dr_states ?r ! j \<notin> {DR_ready, DR_blocked}) (transitive_dependents ?g i))"
    "dr_graph r' = ?g" "dr_requested r' = (dr_requested r)[i := True]"
    "length (dr_states r') = length (dr_states r)"
    "\<And>j. j < length (dr_states r) \<Longrightarrow> dr_states r' ! j =
      (if j \<in> set (transitive_dependents ?g i) \<and> dr_requested ?r ! j \<and> dr_states ?r ! j \<noteq> DR_ready
       then DR_blocked else dr_states ?r ! j)"
    by auto
  show "fr_failed res = [nm]" "dr_graph r' = ?g" "dr_requested r' = (dr_requested r)[i := True]"
    "length (dr_states r') = length (dr_states r)"
    using spec f(2) by simp_all
  show "fr_blocked res = map ((!) (g_names ?g))
      (filter (\<lambda>j. dr_requested r ! j \<and> dr_states r ! j \<notin> {DR_ready, DR_blocked})
        (transitive_dependents ?g i))"
    using spec(1) f(2) flt by simp
  show "j < length (dr_states r) \<Longrightarrow> dr_states r' ! j =
       (if j = i then DR_failed
        else if (j, i) \<in> (dep_rel (g_dependencies ?g))\<^sup>+ \<and> dr_requested r ! j \<and>
          dr_states r ! j \<noteq> DR_ready then DR_blocked
        else dr_states r ! j)"
    using spec(5) [of j] td(1) other len by (cases "j = i") (auto simp: nth_list_update)
qed

subsection \<open>Requests\<close>

lemma length_request_calls:
  "length (fst (request_calls deps calls st rq)) = length st \<and>
   length (snd (request_calls deps calls st rq)) = length rq"
  by (induction deps calls st rq rule: request_calls.induct) auto

lemma request_calls_mono:
  "rq ! j \<Longrightarrow> snd (request_calls deps calls st rq) ! j"
proof (induction deps calls st rq rule: request_calls.induct)
  case (2 deps i calls st rq)
  then have "rq[i := True] ! j" by (simp add: nth_list_update_if)
  with 2 show ?case by simp
qed simp

text \<open>
  From a runtime where nothing has been requested, the calls request exactly what the given program
  needs, directly or through others.
\<close>

definition fresh_closure :: "nat list list \<Rightarrow> nat list \<Rightarrow> dependency_runtime_state list \<Rightarrow> bool list \<Rightarrow> bool" where
  "fresh_closure deps calls st rq \<longleftrightarrow>
     length st = length deps \<and> length rq = length deps \<and> set calls \<subseteq> {..<length deps} \<and>
     (\<forall>i < length deps. st ! i = (if rq ! i then DR_pending else DR_idle)) \<and>
     (\<forall>i < length deps. rq ! i \<longrightarrow> (\<forall>d \<in> set (deps ! i). rq ! d \<or> d \<in> set calls))"

lemma request_calls_closure:
  assumes "fresh_closure deps calls st rq" "deps_in_range deps"
    and "request_calls deps calls st rq = (st', rq')"
  shows "fresh_closure deps [] st' rq' \<and> (\<forall>i \<in> set calls. rq' ! i) \<and>
    (\<forall>i < length deps. rq' ! i \<longrightarrow> rq ! i \<or> (\<exists>c \<in> set calls. (c, i) \<in> (dep_rel deps)\<^sup>*))"
  using assms
proof (induction deps calls st rq arbitrary: st' rq' rule: request_calls.induct)
  case (1 deps st rq)
  then show ?case by auto
next
  case (2 deps i calls st rq)
  have i: "i < length deps" "i < length st" "i < length rq"
    using 2(3) by (auto simp: fresh_closure_def)
  have undone: "request_done st rq i \<longleftrightarrow> rq ! i"
    using 2(3) i by (auto simp: request_done_def fresh_closure_def)
  show ?case
  proof (cases "rq ! i")
    case True
    then have r: "request_calls deps calls st rq = (st', rq')" using 2(5) undone by simp
    moreover have "fresh_closure deps calls st rq" using 2(3) True by (auto simp: fresh_closure_def)
    moreover have "rq' ! i" using request_calls_mono [of rq i deps calls st] True r by simp
    ultimately show ?thesis using 2(2) 2(4) undone True by fastforce
  next
    case False
    let ?st = "st[i := requested_state (st ! i)]" and ?rq = "rq[i := True]"
    have g: "i < length st \<and> i < length rq \<and> \<not> request_done st rq i" using i undone False by simp
    have r: "request_calls deps (deps ! i @ calls) ?st ?rq = (st', rq')" using 2(5) g by simp
    have "fresh_closure deps (deps ! i @ calls) ?st ?rq"
      using 2(3,4) i False
      by (auto simp: fresh_closure_def nth_list_update requested_state_def deps_in_range_def)
    from 2(1) [OF g this 2(4) r]
    have ih: "fresh_closure deps [] st' rq'" "\<forall>j \<in> set (deps ! i @ calls). rq' ! j"
      "\<And>j. j < length deps \<Longrightarrow> rq' ! j \<Longrightarrow> ?rq ! j \<or> (\<exists>c \<in> set (deps ! i @ calls). (c, j) \<in> (dep_rel deps)\<^sup>*)"
      by auto
    have "rq' ! i" using request_calls_mono [of ?rq i deps "deps ! i @ calls" ?st] i r by simp
    moreover have "rq ! j \<or> (\<exists>c \<in> set (i # calls). (c, j) \<in> (dep_rel deps)\<^sup>*)"
      if j: "j < length deps" "rq' ! j" for j
    proof -
      have "(c, j) \<in> (dep_rel deps)\<^sup>* \<Longrightarrow> c \<in> set (deps ! i) \<Longrightarrow> (i, j) \<in> (dep_rel deps)\<^sup>*" for c
        using i(1) by (auto simp: dep_rel_def intro: converse_rtrancl_into_rtrancl)
      with ih(3) [OF j] i show ?thesis by (cases "j = i") auto
    qed
    ultimately show ?thesis using ih(1,2) by auto
  qed
qed

lemma request_dependencies_spec:
  "dr_graph (request_dependencies i r) = dr_graph r"
  "rt_wf (request_dependencies i r) = rt_wf r"
  using length_request_calls [of "g_dependencies (dr_graph r)" "[i]" "dr_states r" "dr_requested r"]
  by (auto simp: request_dependencies_def rt_wf_def split: prod.splits)

subsection \<open>Every call keeps the runtime well-formed\<close>

lemma collect_startable_wf:
  "rt_wf r \<Longrightarrow> rt_wf (snd (collect_startable r)) \<and> dr_graph (snd (collect_startable r)) = dr_graph r"
  using collect_startable_spec(2,5) [of r "fst (collect_startable r)" "snd (collect_startable r)"] by simp

lemma fold_unblock_wf: "rt_wf (fold unblock js r) = rt_wf r" "dr_graph (fold unblock js r) = dr_graph r"
  using fold_unblock_spec [of js r] by (auto simp: rt_wf_def)

lemma mark_as_wf: "rt_wf (mark_as st req nm r) = rt_wf r" "dr_graph (mark_as st req nm r) = dr_graph r"
  by (simp_all add: mark_as_def split: option.splits)

lemma mark_failed_wf:
  assumes "rt_wf r"
  shows "rt_wf (snd (mark_failed nm r)) \<and> dr_graph (snd (mark_failed nm r)) = dr_graph r"
proof (cases "graph_find (dr_graph r) nm")
  case None
  with assms show ?thesis by (simp add: mark_failed_def)
next
  case (Some i)
  from mark_failed_spec(3,4,5) [OF assms Some, of "fst (mark_failed nm r)" "snd (mark_failed nm r)"] assms
  show ?thesis by (simp add: rt_wf_def)
qed

lemma runtime_step_wf:
  assumes "rt_wf r"
  shows "rt_wf (runtime_step c r) \<and> dr_graph (runtime_step c r) = dr_graph r"
proof (cases c)
  case Call_request_all
  let ?r = "r\<lparr>dr_requested := map (\<lambda>_. True) (dr_requested r),
      dr_states := map (\<lambda>st. if st = DR_idle \<or> st = DR_blocked then DR_pending else st) (dr_states r)\<rparr>"
  have "rt_wf ?r" using assms by (simp add: rt_wf_def)
  from collect_startable_wf [OF this] Call_request_all show ?thesis
    by (simp add: runtime_step_def request_all_def)
next
  case (Call_request_closure nm)
  with assms collect_startable_wf show ?thesis
    by (auto simp: runtime_step_def request_closure_def request_dependencies_spec split: option.splits)
next
  case (Call_mark_ready nm)
  show ?thesis
  proof (cases "graph_find (dr_graph r) nm")
    case None
    with Call_mark_ready assms show ?thesis by (simp add: runtime_step_def mark_ready_def)
  next
    case (Some i)
    let ?r = "fold unblock (transitive_dependents (dr_graph r) i) (set_state i DR_ready (set_requested i True r))"
    have "rt_wf ?r" "dr_graph ?r = dr_graph r" using assms by (simp_all add: fold_unblock_wf)
    with collect_startable_wf [of ?r] Some Call_mark_ready show ?thesis
      by (simp add: runtime_step_def mark_ready_def)
  qed
next
  case (Call_mark_failed nm)
  with mark_failed_wf [OF assms] show ?thesis by (simp add: runtime_step_def)
qed (use assms in \<open>simp_all add: runtime_step_def mark_starting_def mark_idle_def mark_pending_def mark_as_wf\<close>)

lemma reset_wf: "wf_graph g \<Longrightarrow> rt_wf (reset g)"
  by (simp add: rt_wf_def reset_def)

interpretation runtime: invariant_machine runtime_step "\<lambda>_. True" rt_wf
  by unfold_locales (simp add: runtime_step_wf)

subsection \<open>Starting everything\<close>

text \<open>
  While the daemon starts a whole configuration it calls \<open>request_all\<close> once, and then reports every
  program it was told to start as ready or failed, or as starting again.  Under these calls nothing
  waits for a program that has failed or is blocked, and nothing that could start is left behind.
\<close>

definition boot_inv :: "dependency_runtime \<Rightarrow> bool" where
  "boot_inv r \<longleftrightarrow> rt_wf r \<and>
     (\<forall>i < graph_size (dr_graph r). dr_requested r ! i \<and> dr_states r ! i \<noteq> DR_idle \<and>
        (dr_states r ! i = DR_pending \<longrightarrow> \<not> still_blocked r i) \<and> \<not> startable r i)"

fun boot_call :: "runtime_call \<Rightarrow> bool" where
  "boot_call (Call_mark_ready nm) = True"
| "boot_call (Call_mark_failed nm) = True"
| "boot_call (Call_mark_starting nm) = True"
| "boot_call _ = False"

lemma boot_inv_collect:
  assumes wf: "rt_wf r" and c: "collect_startable r = (names, r')"
    and all: "\<forall>i < graph_size (dr_graph r). dr_requested r ! i \<and> dr_states r ! i \<noteq> DR_idle \<and>
        (dr_states r ! i = DR_pending \<longrightarrow> \<not> still_blocked r i)"
  shows "boot_inv r'"
  unfolding boot_inv_def
proof (intro conjI allI impI)
  note spec = collect_startable_spec [OF wf c]
  show "rt_wf r'" by (rule spec(5))
  fix i
  assume "i < graph_size (dr_graph r')"
  then have i: "i < graph_size (dr_graph r)" "i < length (dr_states r)"
    using spec(2) wf by (auto simp: rt_wf_def)
  show "dr_requested r' ! i" using all i spec(3) by simp
  show "dr_states r' ! i \<noteq> DR_idle" using all i spec(6) [OF i(2)] by simp
  show "\<not> startable r' i" by (rule collect_startable_exhausts [OF wf c i(2)])
  assume "dr_states r' ! i = DR_pending"
  then have "dr_states r ! i = DR_pending" using spec(6) [OF i(2)] by (simp split: if_splits)
  then have "\<not> still_blocked r i" using all i by simp
  then show "\<not> still_blocked r' i"
    using rt_wf_range(3) [OF wf i(1)] collect_startable_ready_same [OF wf c, of _ DR_failed]
      collect_startable_ready_same [OF wf c, of _ DR_blocked] wf spec(2)
    by (auto simp: still_blocked_def list_ex_iff rt_wf_def)
qed

lemma boot_inv_request_all:
  assumes "wf_graph g"
  shows "boot_inv (snd (request_all (reset g)))"
proof -
  let ?r = "(reset g)\<lparr>dr_requested := map (\<lambda>_. True) (dr_requested (reset g)),
      dr_states := map (\<lambda>st. if st = DR_idle \<or> st = DR_blocked then DR_pending else st) (dr_states (reset g))\<rparr>"
  have wf: "rt_wf ?r" using reset_wf [OF assms] by (simp add: rt_wf_def)
  have st: "dr_states ?r = replicate (graph_size g) DR_pending"
    "dr_requested ?r = replicate (graph_size g) True" by (simp_all add: reset_def)
  have g: "dr_graph ?r = g" by (simp add: reset_def)
  obtain names r' where c: "collect_startable ?r = (names, r')" by fastforce
  have "boot_inv r'"
  proof (rule boot_inv_collect [OF wf c], intro allI impI)
    fix i
    assume i: "i < graph_size (dr_graph ?r)"
    have "\<not> still_blocked ?r i"
      using rt_wf_range(3) [OF wf i] unfolding still_blocked_def st g by (auto simp: list_ex_iff)
    with i show "dr_requested ?r ! i \<and> dr_states ?r ! i \<noteq> DR_idle \<and>
        (dr_states ?r ! i = DR_pending \<longrightarrow> \<not> still_blocked ?r i)"
      unfolding st g by simp
  qed
  then show ?thesis unfolding request_all_def using c by simp
qed

lemma boot_inv_mark_ready:
  assumes "boot_inv r"
  shows "boot_inv (snd (mark_ready nm r))"
proof (cases "graph_find (dr_graph r) nm")
  case None
  with assms show ?thesis by (simp add: mark_ready_def)
next
  case (Some i)
  let ?r1 = "set_state i DR_ready (set_requested i True r)"
  let ?r = "fold unblock (transitive_dependents (dr_graph r) i) ?r1"
  have wf: "rt_wf r" using assms by (simp add: boot_inv_def)
  then have wf': "rt_wf ?r" and g: "dr_graph ?r = dr_graph r" by (simp_all add: fold_unblock_wf)
  have f: "dr_requested ?r = (dr_requested r)[i := True]"
    "\<And>j. dr_states ?r ! j = dr_states ?r1 ! j \<or> dr_states ?r1 ! j = DR_blocked \<and>
       dr_states ?r ! j = DR_pending \<and> \<not> still_blocked ?r j"
    using fold_unblock_spec [of "transitive_dependents (dr_graph r) i" ?r1] by auto
  have i: "i < length (dr_states r)" "i < length (dr_requested r)"
    using graph_find_wf(1) [OF _ Some] wf by (auto simp: rt_wf_def)
  have mono: "dr_states ?r ! d = DR_failed \<or> dr_states ?r ! d = DR_blocked \<Longrightarrow>
      dr_states r ! d = DR_failed \<or> dr_states r ! d = DR_blocked" for d
    using f(2) [of d] by (auto simp: nth_list_update_if split: if_splits)
  obtain names r' where c: "collect_startable ?r = (names, r')" by fastforce
  have "boot_inv r'"
  proof (rule boot_inv_collect [OF wf' c], intro allI impI)
    fix j
    assume "j < graph_size (dr_graph ?r)"
    with assms g have j: "dr_requested r ! j" "dr_states r ! j \<noteq> DR_idle"
      "dr_states r ! j = DR_pending \<longrightarrow> \<not> still_blocked r j" by (auto simp: boot_inv_def)
    have "\<not> still_blocked ?r j" if "dr_states ?r ! j = DR_pending"
    proof (cases "still_blocked ?r j")
      case True
      with mono g have "still_blocked r j" by (auto simp: still_blocked_def list_ex_iff)
      moreover have "dr_states r ! j = DR_pending"
        using f(2) [of j] True that i by (auto simp: nth_list_update_if split: if_splits)
      ultimately show ?thesis using j(3) by simp
    qed
    then show "dr_requested ?r ! j \<and> dr_states ?r ! j \<noteq> DR_idle \<and>
        (dr_states ?r ! j = DR_pending \<longrightarrow> \<not> still_blocked ?r j)"
      using f j i by (metis dependency_runtime_state.distinct(1,5) nth_list_update_if setters_simps(4,5))
  qed
  then show ?thesis using c Some by (simp add: mark_ready_def)
qed

lemma boot_inv_shrink:
  assumes inv: "boot_inv r" and wf: "rt_wf r'" and g: "dr_graph r' = dr_graph r"
    and req: "\<And>i. i < graph_size (dr_graph r) \<Longrightarrow> dr_requested r' ! i"
    and idle: "\<And>i. i < graph_size (dr_graph r) \<Longrightarrow> dr_states r' ! i \<noteq> DR_idle"
    and ready: "\<And>i. i < graph_size (dr_graph r) \<Longrightarrow> dr_states r' ! i = DR_ready \<Longrightarrow> dr_states r ! i = DR_ready"
    and pend: "\<And>i. i < graph_size (dr_graph r) \<Longrightarrow> dr_states r' ! i = DR_pending \<Longrightarrow>
      dr_states r ! i = DR_pending \<and> (\<not> still_blocked r i \<longrightarrow> \<not> still_blocked r' i)"
  shows "boot_inv r'"
  unfolding boot_inv_def
proof (intro conjI allI impI)
  fix i
  assume "i < graph_size (dr_graph r')"
  then have i: "i < graph_size (dr_graph r)" using g by simp
  from inv i have old: "dr_requested r ! i" "dr_states r ! i = DR_pending \<longrightarrow> \<not> still_blocked r i"
    "\<not> startable r i" by (auto simp: boot_inv_def)
  have rng: "d \<in> set (g_dependencies (dr_graph r) ! i) \<Longrightarrow> d < graph_size (dr_graph r)" for d
    using rt_wf_range(3) [of r i d] inv i by (auto simp: boot_inv_def)
  show "\<not> startable r' i"
    using old(1,3) pend [OF i] ready rng g by (auto simp: startable_def dependencies_ready_def list_all_iff)
  show "dr_states r' ! i = DR_pending \<Longrightarrow> \<not> still_blocked r' i" using pend [OF i] old(2) by simp
qed (use wf req idle g in auto)

lemma boot_inv_mark_starting:
  assumes "boot_inv r"
  shows "boot_inv (mark_starting nm r)"
proof (cases "graph_find (dr_graph r) nm")
  case None
  with assms show ?thesis by (simp add: mark_starting_def mark_as_def)
next
  case (Some i)
  have wf: "rt_wf r" using assms by (simp add: boot_inv_def)
  have m: "mark_starting nm r = set_state i DR_starting (set_requested i True r)"
    using Some by (simp add: mark_starting_def mark_as_def)
  show ?thesis
    unfolding m
    by (rule boot_inv_shrink [OF assms])
      (use assms wf in \<open>auto simp: boot_inv_def nth_list_update_if still_blocked_def list_ex_iff
         split: if_splits\<close>)
qed

lemma boot_inv_mark_failed:
  assumes "boot_inv r"
  shows "boot_inv (snd (mark_failed nm r))"
proof (cases "graph_find (dr_graph r) nm")
  case None
  with assms show ?thesis by (simp add: mark_failed_def)
next
  case (Some i)
  let ?r = "snd (mark_failed nm r)" and ?n = "graph_size (dr_graph r)"
  have wf: "rt_wf r" and all: "\<And>j. j < ?n \<Longrightarrow> dr_requested r ! j \<and> dr_states r ! j \<noteq> DR_idle"
    using assms by (auto simp: boot_inv_def)
  have len: "length (dr_states r) = ?n" "length (dr_requested r) = ?n" using wf by (auto simp: rt_wf_def)
  note spec = mark_failed_spec [OF wf Some prod.collapse [symmetric]]
  have st: "dr_states ?r ! j = (if j = i then DR_failed
        else if (j, i) \<in> (dep_rel (g_dependencies (dr_graph r)))\<^sup>+ \<and> dr_states r ! j \<noteq> DR_ready
          then DR_blocked else dr_states r ! j)" if "j < ?n" for j
    using spec(6) [of j] that len all by auto
  show ?thesis
  proof (rule boot_inv_shrink [OF assms])
    show "rt_wf ?r" "dr_graph ?r = dr_graph r" using mark_failed_wf [OF wf] by auto
    fix j
    assume j: "j < ?n"
    show "dr_requested ?r ! j" using spec(4) all j len by (simp add: nth_list_update_if)
    show "dr_states ?r ! j \<noteq> DR_idle" using st [OF j] all [OF j] by simp
    show "dr_states ?r ! j = DR_ready \<Longrightarrow> dr_states r ! j = DR_ready"
      using st [OF j] by (simp split: if_splits)
    assume "dr_states ?r ! j = DR_pending"
    with st [OF j] have p: "dr_states r ! j = DR_pending" "j \<noteq> i"
      "(j, i) \<notin> (dep_rel (g_dependencies (dr_graph r)))\<^sup>+" by (auto split: if_splits)
    have "dr_states ?r ! d = dr_states r ! d" if d: "d \<in> set (g_dependencies (dr_graph r) ! j)" for d
    proof -
      have e: "(j, d) \<in> dep_rel (g_dependencies (dr_graph r))"
        using d j wf by (auto simp: dep_rel_def rt_wf_def wf_graph_def adjacency_def)
      then have "d \<noteq> i" "(d, i) \<notin> (dep_rel (g_dependencies (dr_graph r)))\<^sup>+"
        using p(3) by (auto intro: trancl_into_trancl2)
      then show ?thesis using st rt_wf_range(3) [OF wf j d] by simp
    qed
    with p spec(3) show "dr_states r ! j = DR_pending \<and> (\<not> still_blocked r j \<longrightarrow> \<not> still_blocked ?r j)"
      by (auto simp: still_blocked_def list_ex_iff)
  qed
qed

interpretation boot: invariant_machine runtime_step boot_call boot_inv
proof
  fix c r
  assume "boot_call c" "boot_inv r"
  then show "boot_inv (runtime_step c r)"
    by (cases c) (simp_all add: runtime_step_def boot_inv_mark_ready boot_inv_mark_failed
        boot_inv_mark_starting)
qed

lemma boot_progress:
  assumes "boot_inv r" "DR_starting \<notin> set (dr_states r)"
  shows "all_terminal r"
proof (rule ccontr)
  let ?n = "graph_size (dr_graph r)" and ?ord = "g_topological_order (dr_graph r)"
  have wf: "rt_wf r" using assms(1) by (simp add: boot_inv_def)
  then have len: "length (dr_states r) = ?n" by (simp add: rt_wf_def)
  assume "\<not> all_terminal r"
  with assms(2) obtain i where "i < ?n" "dr_states r ! i = DR_pending"
    unfolding all_terminal_def list_all_iff using len nth_mem [of _ "dr_states r"] by fastforce
  then obtain k0 where "k0 < length ?ord \<and> dr_states r ! (?ord ! k0) = DR_pending"
    using rt_wf_range(1) [OF wf] by (metis in_set_conv_nth lessThan_iff)
  then obtain k where k: "k < length ?ord \<and> dr_states r ! (?ord ! k) = DR_pending"
    and least: "\<And>m. m < k \<Longrightarrow> \<not> (m < length ?ord \<and> dr_states r ! (?ord ! m) = DR_pending)"
    using exists_least_iff [of "\<lambda>k. k < length ?ord \<and> dr_states r ! (?ord ! k) = DR_pending"] by blast
  let ?i = "?ord ! k"
  have i: "?i < ?n" using k rt_wf_range(1) [OF wf] nth_mem [of k ?ord] by auto
  have nb: "\<not> still_blocked r ?i" "\<not> startable r ?i" "dr_requested r ! ?i"
    using assms(1) i k by (auto simp: boot_inv_def)
  have "dr_states r ! d = DR_ready" if d: "d \<in> set (g_dependencies (dr_graph r) ! ?i)" for d
  proof -
    have dn: "d < ?n" by (rule rt_wf_range(3) [OF wf i d])
    have "closed_order (g_dependencies (dr_graph r)) ?ord"
      using wf by (simp add: rt_wf_def wf_graph_def least_first_closed)
    with k d have "d \<in> set (take k ?ord)" by (auto simp: closed_order_def)
    then obtain m where "m < k" "?ord ! m = d" by (auto simp: in_set_conv_nth)
    with least [of m] k have "dr_states r ! d \<noteq> DR_pending" by auto
    moreover have "dr_states r ! d \<noteq> DR_failed" "dr_states r ! d \<noteq> DR_blocked"
      using nb(1) d by (auto simp: still_blocked_def list_ex_iff)
    moreover have "dr_states r ! d \<noteq> DR_idle" using assms(1) dn by (auto simp: boot_inv_def)
    moreover have "dr_states r ! d \<noteq> DR_starting" using assms(2) dn len by (metis nth_mem)
    ultimately show ?thesis by (cases "dr_states r ! d") auto
  qed
  then have "startable r ?i" using k nb(3) by (simp add: startable_def dependencies_ready_def list_all_iff)
  with nb(2) show False by simp
qed

subsection \<open>Why a program waits\<close>

lemma dfs_collect_spec:
  fixes descend :: "nat \<Rightarrow> bool" and deps :: "nat list list"
  defines "E \<equiv> {(a, b). a < length deps \<and> descend a \<and> b \<in> set (deps ! a)}"
  assumes "deps_in_range deps" "length visited = length deps"
    and "\<forall>a < length deps. visited ! a \<and> descend a \<longrightarrow>
      (\<forall>b \<in> set (deps ! a). visited ! b \<or> b \<in> set ds)"
    and "set ds \<subseteq> {..<length deps}" "set result \<subseteq> {j. j < length deps \<and> visited ! j}"
    and "distinct result"
  shows "distinct (dfs_collect deps collect descend ds visited result) \<and>
    set (dfs_collect deps collect descend ds visited result) = set result \<union>
      {j. j < length deps \<and> \<not> visited ! j \<and> collect j \<and> (\<exists>d \<in> set ds. (d, j) \<in> E\<^sup>*)}"
  using assms(2-) unfolding E_def
proof (induction deps collect descend ds visited result rule: dfs_collect.induct)
  case (1 deps collect descend visited result)
  then show ?case by auto
next
  case (2 deps collect descend d ds visited result)
  let ?E = "{(a, b). a < length deps \<and> descend a \<and> b \<in> set (deps ! a)}"
  show ?case
  proof (cases "d < length visited \<and> \<not> visited ! d")
    case False
    then have vd: "visited ! d" "d < length deps" using 2(4,6) by auto
    have "\<forall>a < length deps. visited ! a \<and> descend a \<longrightarrow> (\<forall>b \<in> set (deps ! a). visited ! b \<or> b \<in> set ds)"
      using 2(5) vd by auto
    from 2(2) [OF False 2(3,4) this _ 2(7,8)] 2(6)
    have ih: "distinct (dfs_collect deps collect descend ds visited result)"
      "set (dfs_collect deps collect descend ds visited result) = set result \<union>
        {j. j < length deps \<and> \<not> visited ! j \<and> collect j \<and> (\<exists>d \<in> set ds. (d, j) \<in> ?E\<^sup>*)}" by auto
    have "\<exists>c \<in> set ds. (c, j) \<in> ?E\<^sup>*" if "(d, j) \<in> ?E\<^sup>*" "\<not> visited ! j" for j
      using that vd
    proof (induction rule: converse_rtrancl_induct)
      case (step y z)
      then have "visited ! z \<or> z \<in> set ds" "z < length deps"
        using 2(5) 2(3) vd by (auto simp: deps_in_range_def)
      with step show ?case by auto
    qed simp
    with ih False show ?thesis by auto
  next
    case True
    let ?v = "visited[d := True]" and ?ds = "(if descend d then deps ! d else []) @ ds"
    let ?res = "if collect d then result @ [d] else result"
    have d: "d < length deps" "\<not> visited ! d" using True 2(4) by auto
    have p: "\<forall>a < length deps. ?v ! a \<and> descend a \<longrightarrow> (\<forall>b \<in> set (deps ! a). ?v ! b \<or> b \<in> set ?ds)"
      using 2(5) d 2(4) by (auto simp: nth_list_update_if)
    have rng: "set ?ds \<subseteq> {..<length deps}" using 2(3,6) d by (auto simp: deps_in_range_def)
    have res: "set ?res \<subseteq> {j. j < length deps \<and> ?v ! j}" "distinct ?res"
      using 2(7,8) d 2(4) by (auto simp: nth_list_update_if)
    from 2(1) [OF True 2(3) _ p rng res] 2(4)
    have ih: "distinct (dfs_collect deps collect descend ?ds ?v ?res)"
      "set (dfs_collect deps collect descend ?ds ?v ?res) = set ?res \<union>
        {j. j < length deps \<and> \<not> ?v ! j \<and> collect j \<and> (\<exists>d \<in> set ?ds. (d, j) \<in> ?E\<^sup>*)}" by auto
    have step: "(\<exists>c \<in> set ?ds. (c, j) \<in> ?E\<^sup>*) \<longleftrightarrow> (\<exists>c \<in> set (d # ds). (c, j) \<in> ?E\<^sup>*)" if "j \<noteq> d" for j
    proof
      assume "\<exists>c \<in> set ?ds. (c, j) \<in> ?E\<^sup>*"
      moreover have "(c, j) \<in> ?E\<^sup>* \<Longrightarrow> descend d \<Longrightarrow> c \<in> set (deps ! d) \<Longrightarrow> (d, j) \<in> ?E\<^sup>*" for c
        using d(1) by (auto intro: converse_rtrancl_into_rtrancl)
      ultimately show "\<exists>c \<in> set (d # ds). (c, j) \<in> ?E\<^sup>*" by (auto split: if_splits)
    next
      assume "\<exists>c \<in> set (d # ds). (c, j) \<in> ?E\<^sup>*"
      then obtain c where c: "c \<in> set (d # ds)" "(c, j) \<in> ?E\<^sup>*" by (rule bexE)
      consider "c = d" | "c \<in> set ds" using c(1) by (auto simp only: set_simps insert_iff)
      then show "\<exists>c \<in> set ?ds. (c, j) \<in> ?E\<^sup>*"
      proof cases
        case 1
        with c(2) have "(d, j) \<in> ?E\<^sup>*" by (simp only:)
        then show ?thesis
        proof (cases rule: converse_rtranclE)
          case base
          with that show ?thesis by simp
        next
          case (step z)
          then have "z \<in> set ?ds" by simp
          with step(2) show ?thesis by (rule bexI)
        qed
      next
        case 2
        then have "c \<in> set ?ds" by simp
        with c(2) show ?thesis by (rule bexI)
      qed
    qed
    have "set ?res \<union> {j. j < length deps \<and> \<not> ?v ! j \<and> collect j \<and> (\<exists>d \<in> set ?ds. (d, j) \<in> ?E\<^sup>*)}
      = set result \<union> {j. j < length deps \<and> \<not> visited ! j \<and> collect j \<and> (\<exists>c \<in> set (d # ds). (c, j) \<in> ?E\<^sup>*)}"
      (is "?L = ?R")
    proof (rule set_eqI)
      fix j
      show "j \<in> ?L \<longleftrightarrow> j \<in> ?R"
      proof (cases "j = d")
        case True
        then show ?thesis using d 2(4) by (simp add: nth_list_update_if)
      next
        case False
        then have "?v ! j = visited ! j" "j \<in> set ?res \<longleftrightarrow> j \<in> set result"
          by (simp_all add: nth_list_update_if)
        with step [OF False] show ?thesis by (simp only: Un_iff mem_Collect_eq)
      qed
    qed
    with ih True show ?thesis by simp
  qed
qed

lemma find_key_nth: "wf_graph g \<Longrightarrow> i < graph_size g \<Longrightarrow> find_key g (g_names g ! i) = i"
  by (simp add: find_key_def graph_find_nth)

lemma insort_key_map: "insort_key f (h x) (map h xs) = map h (insort_key (\<lambda>a. f (h a)) x xs)"
  by (induction xs) auto

lemma sort_key_map: "sort_key f (map h xs) = map h (sort_key (\<lambda>a. f (h a)) xs)"
  by (induction xs) (auto simp: insort_key_map comp_def)

lemma insort_key_ident:
  "\<forall>y \<in> set (x # xs). f y = (y :: nat) \<Longrightarrow> insort_key f x xs = insort x xs"
  by (induction xs) auto

lemma sort_key_ident: "\<forall>y \<in> set xs. f y = (y :: nat) \<Longrightarrow> sort_key f xs = sort xs"
proof (induction xs)
  case (Cons x xs)
  then have "insort_key f x (sort xs) = insort x (sort xs)" by (intro insort_key_ident) auto
  with Cons show ?case by simp
qed simp

lemma sorted_by_find:
  assumes "wf_graph g" "set ids \<subseteq> {..<graph_size g}"
  shows "sort_key (find_key g) (map ((!) (g_names g)) ids) = map ((!) (g_names g)) (sort ids)"
  using assms by (auto simp: sort_key_map find_key_nth intro!: arg_cong [of _ _ "map _"] sort_key_ident)

lemma collect_dependencies_spec:
  assumes "wf_graph g" "graph_find g nm = Some i"
  shows "collect_dependencies collect descend nm g = map ((!) (g_names g))
    (sorted_list_of_set {j. collect j \<and>
      (\<exists>d \<in> set (g_dependencies g ! i). (d, j) \<in>
        {(a, b). (a, b) \<in> dep_rel (g_dependencies g) \<and> descend a}\<^sup>*)})"
proof -
  let ?deps = "g_dependencies g" and ?n = "graph_size g"
  let ?E = "{(a, b). a < length ?deps \<and> descend a \<and> b \<in> set (?deps ! a)}"
  let ?r = "dfs_collect ?deps collect descend (?deps ! i) (replicate ?n False) []"
  have i: "i < ?n" by (rule graph_find_wf [OF assms])
  have len: "length ?deps = ?n" and rng: "deps_in_range ?deps"
    using assms(1) by (auto simp: wf_graph_def adjacency_def deps_in_range_def)
  have E: "{(a, b). (a, b) \<in> dep_rel ?deps \<and> descend a} = ?E" by (auto simp: dep_rel_def)
  have sub: "set (?deps ! i) \<subseteq> {..<length ?deps}" using rng i len by (simp add: deps_in_range_def)
  have reach: "(d, j) \<in> ?E\<^sup>* \<Longrightarrow> d < length ?deps \<Longrightarrow> j < length ?deps" for d j
    by (induction rule: rtrancl_induct) (use rng in \<open>auto simp: deps_in_range_def\<close>)
  have "distinct ?r \<and> set ?r = set [] \<union> {j. j < length ?deps \<and> \<not> replicate ?n False ! j \<and> collect j \<and>
      (\<exists>d \<in> set (?deps ! i). (d, j) \<in> ?E\<^sup>*)}"
    by (rule dfs_collect_spec [OF rng]) (use sub len in auto)
  then have r: "distinct ?r" "set ?r = {j. collect j \<and> (\<exists>d \<in> set (?deps ! i). (d, j) \<in> ?E\<^sup>*)}"
    using reach sub len by auto
  then have "sort ?r = sorted_list_of_set {j. collect j \<and> (\<exists>d \<in> set (?deps ! i). (d, j) \<in> ?E\<^sup>*)}"
    by (metis distinct_remdups_id sorted_list_of_set_sort_remdups)
  moreover have "set ?r \<subseteq> {..<?n}" unfolding r(2) using reach sub len by auto
  ultimately show ?thesis
    using assms(2) sorted_by_find [OF assms(1)] unfolding E by (simp add: collect_dependencies_def)
qed

subsection \<open>Moving to a new graph\<close>

lemma migrate_entry_simps [simp]: "dr_graph (migrate_entry e r) = dr_graph r"
  "rt_wf (migrate_entry e r) = rt_wf r"
  by (simp_all add: migrate_entry_def split: option.splits)

lemma fold_migrate_entry:
  assumes "rt_wf r" "i < graph_size (dr_graph r)" "distinct (map re_name es)"
  shows "rt_wf (fold migrate_entry es r) \<and> dr_graph (fold migrate_entry es r) = dr_graph r \<and>
    (g_names (dr_graph r) ! i \<notin> re_name ` set es \<longrightarrow>
      dr_states (fold migrate_entry es r) ! i = dr_states r ! i \<and>
      dr_requested (fold migrate_entry es r) ! i = dr_requested r ! i) \<and>
    (\<forall>e \<in> set es. g_names (dr_graph r) ! i = re_name e \<longrightarrow>
      dr_states (fold migrate_entry es r) ! i = re_state e \<and>
      dr_requested (fold migrate_entry es r) ! i = re_requested e)"
  using assms
proof (induction es arbitrary: r)
  case Nil
  then show ?case by simp
next
  case (Cons e es)
  let ?r = "migrate_entry e r"
  have wf: "wf_graph (dr_graph r)" "length (dr_states r) = graph_size (dr_graph r)"
    "length (dr_requested r) = graph_size (dr_graph r)" using Cons.prems(1) by (auto simp: rt_wf_def)
  have same: "dr_states ?r ! i = dr_states r ! i \<and> dr_requested ?r ! i = dr_requested r ! i"
    if "g_names (dr_graph r) ! i \<noteq> re_name e"
    using that graph_find_wf(2) [OF wf(1)]
    by (auto simp: migrate_entry_def nth_list_update_if split: option.splits)
  have hit: "dr_states ?r ! i = re_state e \<and> dr_requested ?r ! i = re_requested e"
    if "g_names (dr_graph r) ! i = re_name e"
    using that graph_find_nth [OF wf(1) Cons.prems(2)] wf Cons.prems(2)
    by (auto simp: migrate_entry_def nth_list_update_if)
  from Cons.IH [of ?r] Cons.prems same hit show ?case by auto
qed

lemma snapshot_names: "map re_name (snapshot r) = g_names (dr_graph r)"
  by (auto simp: snapshot_def graph_size_def map_nth comp_def)

lemma migrate_spec:
  assumes "rt_wf r" "wf_graph g" "i < graph_size g"
  shows "rt_wf (migrate g (snapshot r))" "dr_graph (migrate g (snapshot r)) = g"
    "dr_states (migrate g (snapshot r)) ! i = runtime_state (g_names g ! i) r"
    "dr_requested (migrate g (snapshot r)) ! i \<longleftrightarrow>
       (\<exists>j. graph_find (dr_graph r) (g_names g ! i) = Some j \<and> dr_requested r ! j)"
proof -
  let ?nm = "g_names g ! i"
  have wf: "wf_graph (dr_graph r)" using assms(1) by (simp add: rt_wf_def)
  have "distinct (map re_name (snapshot r))"
    using wf by (simp add: snapshot_names wf_graph_def)
  from fold_migrate_entry [OF reset_wf [OF assms(2)] _ this, of i] assms(3)
  have f: "rt_wf (migrate g (snapshot r))" "dr_graph (migrate g (snapshot r)) = g"
    "?nm \<notin> re_name ` set (snapshot r) \<Longrightarrow> dr_states (migrate g (snapshot r)) ! i = DR_idle \<and>
       \<not> dr_requested (migrate g (snapshot r)) ! i"
    "\<And>e. e \<in> set (snapshot r) \<Longrightarrow> ?nm = re_name e \<Longrightarrow>
       dr_states (migrate g (snapshot r)) ! i = re_state e \<and>
       dr_requested (migrate g (snapshot r)) ! i = re_requested e"
    by (auto simp: migrate_def reset_def)
  show "rt_wf (migrate g (snapshot r))" "dr_graph (migrate g (snapshot r)) = g" by (rule f(1), rule f(2))
  have names: "re_name ` set (snapshot r) = set (g_names (dr_graph r))"
    by (metis list.set_map snapshot_names)
  show "dr_states (migrate g (snapshot r)) ! i = runtime_state ?nm r"
    "dr_requested (migrate g (snapshot r)) ! i \<longleftrightarrow>
       (\<exists>j. graph_find (dr_graph r) ?nm = Some j \<and> dr_requested r ! j)"
  proof (atomize(full), cases "graph_find (dr_graph r) ?nm")
    case None
    then have "?nm \<notin> set (g_names (dr_graph r))"
      using wf by (auto simp: graph_find_def wf_graph_def name_table_def split: if_splits)
    with f(3) names None show "dr_states (migrate g (snapshot r)) ! i = runtime_state ?nm r \<and>
      (dr_requested (migrate g (snapshot r)) ! i \<longleftrightarrow>
       (\<exists>j. graph_find (dr_graph r) ?nm = Some j \<and> dr_requested r ! j))"
      by (simp add: runtime_state_def)
  next
    case (Some j)
    from graph_find_wf [OF wf Some]
    have "\<lparr>re_name = ?nm, re_state = dr_states r ! j, re_requested = dr_requested r ! j\<rparr> \<in> set (snapshot r)"
      unfolding snapshot_def by (auto intro!: image_eqI [of _ _ j])
    from f(4) [OF this] Some show "dr_states (migrate g (snapshot r)) ! i = runtime_state ?nm r \<and>
      (dr_requested (migrate g (snapshot r)) ! i \<longleftrightarrow>
       (\<exists>j. graph_find (dr_graph r) ?nm = Some j \<and> dr_requested r ! j))"
      by (simp add: runtime_state_def)
  qed
qed

subsection \<open>Properties\<close>

lemma reachable_wf:
  assumes "build cs = Inr g"
  shows "rt_wf (fold runtime_step calls (reset g))"
    and "dr_graph (fold runtime_step calls (reset g)) = g"
proof -
  have wf: "wf_graph g" using build_Inr [OF assms] by simp
  show "rt_wf (fold runtime_step calls (reset g))"
    using runtime.inv_run [OF reset_wf [OF wf], of calls] by (simp add: list_all_iff)
  have "rt_wf r \<Longrightarrow> dr_graph (fold runtime_step calls r) = dr_graph r" for r
    by (induction calls arbitrary: r) (simp_all add: runtime_step_wf)
  from this [OF reset_wf [OF wf]] show "dr_graph (fold runtime_step calls (reset g)) = g"
    by (simp add: reset_def)
qed

lemma wf_graph_names:
  "build cs = Inr g \<Longrightarrow> graph_size g = length cs \<and> (\<forall>i < length cs. g_names g ! i = dn_name (cs ! i))"
  using build_Inr [of cs g] by (simp add: graph_size_def)

text \<open>
  C5: starting a whole configuration cannot deadlock.  After \<open>request_all\<close> on a fresh runtime and any
  sequence of reports that programs became ready, failed or are starting, if no program is in the
  starting state then every program is ready, failed or blocked: nothing stays pending.
\<close>

theorem boot_no_deadlock:
  assumes "build cs = Inr g" "list_all boot_call calls"
    and "DR_starting \<notin> set (dr_states (fold runtime_step calls (snd (request_all (reset g)))))"
  shows "all_terminal (fold runtime_step calls (snd (request_all (reset g))))"
  using boot.inv_run [OF boot_inv_request_all assms(2)] build_Inr [OF assms(1)] assms(3)
  by (auto intro: boot_progress)

theorem boot_no_deadlock_witness:
  "all_terminal (fold runtime_step [Call_mark_ready ''cron'', Call_mark_failed ''db'']
     (snd (request_all (reset sample_graph))))"
proof (rule boot_no_deadlock [OF sample_build])
  show "list_all boot_call [Call_mark_ready ''cron'', Call_mark_failed ''db'']" by simp
  show "DR_starting \<notin> set (dr_states (fold runtime_step
      [Call_mark_ready ''cron'', Call_mark_failed ''db''] (snd (request_all (reset sample_graph)))))"
    by code_simp
qed


lemma sample_ready:
  "fst (mark_ready ''db'' (fold runtime_step [Call_request_all] (reset sample_graph))) = [''cache'']"
  by code_simp


text \<open>
  \<open>mark_failed\<close> of a known program marks it failed and blocks exactly the requested programs that
  depend on it, directly or through others, and are not already ready; every other state stays.  The
  result names the failed program and, in start order, the programs that were not blocked before.
\<close>

lemma mark_failed_blocks_exactly:
  assumes "build cs = Inr g" "r = fold runtime_step calls (reset g)"
    and "i < length cs" "mark_failed (dn_name (cs ! i)) r = (res, r')" "j < length cs"
  shows "dr_states r' ! j =
      (if j = i then DR_failed
       else if (j, i) \<in> (dep_rel (config_ids cs))\<^sup>+ \<and> dr_requested r ! j \<and> dr_states r ! j \<noteq> DR_ready
         then DR_blocked
       else dr_states r ! j) \<and>
    fr_failed res = [dn_name (cs ! i)] \<and>
    fr_blocked res = map (\<lambda>k. dn_name (cs ! k))
      (filter (\<lambda>k. dr_requested r ! k \<and> dr_states r ! k \<notin> {DR_ready, DR_blocked}) (transitive_dependents g i))"
proof -
  have wf: "rt_wf r" and g: "dr_graph r = g" using reachable_wf [OF assms(1)] assms(2) by auto
  then have wg: "wf_graph g" by (simp add: rt_wf_def)
  note nm = wf_graph_names [OF assms(1)]
  have deps: "g_dependencies g = config_ids cs" using build_Inr [OF assms(1)] by simp
  have "graph_find (dr_graph r) (dn_name (cs ! i)) = Some i"
    using graph_find_nth [OF wg, of i] nm assms(3) g by auto
  note spec = mark_failed_spec [OF wf this assms(4)]
  have "set (transitive_dependents g i) \<subseteq> {..<length cs}"
    using transitive_dependents_range(1) [OF wg, of i] nm assms(3) by simp
  then have "map ((!) (g_names g)) (filter P (transitive_dependents g i))
    = map (\<lambda>k. dn_name (cs ! k)) (filter P (transitive_dependents g i))" for P
    using nm by (auto intro!: map_cong)
  moreover have "j < length (dr_states r)" using wf nm assms(5) g by (simp add: rt_wf_def)
  ultimately show ?thesis using spec(1,2) spec(6) [of j] unfolding g deps by simp
qed

lemma sample_failed:
  "fst (mark_failed (dn_name (sample_configs ! 1)) (fold runtime_step [Call_request_all] (reset sample_graph)))
     = \<lparr>fr_failed = [''db''], fr_blocked = [''cache'', ''web'']\<rparr>"
  by code_simp

lemma mark_failed_blocks_exactly_example:
  "fst (mark_failed (dn_name (sample_configs ! 1)) (fold runtime_step [Call_request_all] (reset sample_graph)))
     = \<lparr>fr_failed = [''db''], fr_blocked = [''cache'', ''web'']\<rparr> \<and>
   dr_states (snd (mark_failed (dn_name (sample_configs ! 1))
     (fold runtime_step [Call_request_all] (reset sample_graph)))) ! 1 = DR_failed"
  using mark_failed_blocks_exactly [where calls = "[Call_request_all]" and i = 1 and j = 1,
      OF sample_build refl _ prod.collapse [symmetric]] sample_failed
  by (simp only: sample_length) simp

text \<open>
  \<open>blocked_by\<close> lists, in configuration order, exactly the failed programs that can be reached
  from the given one over dependencies that are themselves blocked; \<open>waiting_for\<close> lists exactly the
  direct and indirect dependencies that are not ready.
\<close>

lemma blocked_by_correct:
  assumes "build cs = Inr g" "r = fold runtime_step calls (reset g)" "i < length cs"
  shows "blocked_by (dn_name (cs ! i)) r = map ((!) (map dn_name cs)) (sorted_list_of_set
      {j. dr_states r ! j = DR_failed \<and> (\<exists>d \<in> set (config_ids cs ! i). (d, j) \<in>
        {(a, b). (a, b) \<in> dep_rel (config_ids cs) \<and> dr_states r ! a = DR_blocked}\<^sup>*)}) \<and>
    waiting_for (dn_name (cs ! i)) r = map ((!) (map dn_name cs)) (sorted_list_of_set
      {j. dr_states r ! j \<noteq> DR_ready \<and> (i, j) \<in> (dep_rel (config_ids cs))\<^sup>+})"
proof -
  have g: "dr_graph r = g" using reachable_wf [OF assms(1)] assms(2) by auto
  have b: "wf_graph g" "g_names g = map dn_name cs" "g_dependencies g = config_ids cs"
    using build_Inr [OF assms(1)] by auto
  have f: "graph_find g (dn_name (cs ! i)) = Some i"
    using graph_find_nth [OF b(1), of i] wf_graph_names [OF assms(1)] assms(3) by auto
  have "(\<exists>d \<in> set (config_ids cs ! i). (d, j) \<in> (dep_rel (config_ids cs))\<^sup>*)
    \<longleftrightarrow> (i, j) \<in> (dep_rel (config_ids cs))\<^sup>+" for j
    using assms(3) by (auto simp: trancl_unfold_left dep_rel_def relcomp_unfold)
  then show ?thesis
    using collect_dependencies_spec [OF b(1) f] unfolding blocked_by_def waiting_for_def g b(2,3) by simp
qed

lemma blocked_by_correct_example:
  "waiting_for ''web'' (reset sample_graph) = map ((!) (map dn_name sample_configs)) (sorted_list_of_set
     {j. dr_states (reset sample_graph) ! j \<noteq> DR_ready \<and> (0, j) \<in> (dep_rel (config_ids sample_configs))\<^sup>+})"
  using blocked_by_correct [OF sample_build refl, of 0 "[]"]
  by (simp add: sample_length) (simp add: sample_configs_def)

text \<open>
  C18: a failure and what it explains.  \<open>mark_failed\<close> of a known program marks it failed and blocks exactly the requested
  programs that depend on it, directly or through others, and are not already ready; every other state stays.  The
  result names the failed program and, in start order, the programs that were not blocked before.  \<open>blocked_by\<close> lists, in
  configuration order, exactly the failed programs that can be reached from the given one over dependencies that are
  themselves blocked; \<open>waiting_for\<close> lists exactly the direct and indirect dependencies that are not ready.
\<close>

theorem failures_and_blockers:
  assumes "build cs = Inr g" "r = fold runtime_step calls (reset g)"
    and "i < length cs" "mark_failed (dn_name (cs ! i)) r = (res, r')" "j < length cs"
  shows "dr_states r' ! j =
      (if j = i then DR_failed
       else if (j, i) \<in> (dep_rel (config_ids cs))\<^sup>+ \<and> dr_requested r ! j \<and> dr_states r ! j \<noteq> DR_ready
         then DR_blocked
       else dr_states r ! j) \<and>
    fr_failed res = [dn_name (cs ! i)] \<and>
    fr_blocked res = map (\<lambda>k. dn_name (cs ! k))
      (filter (\<lambda>k. dr_requested r ! k \<and> dr_states r ! k \<notin> {DR_ready, DR_blocked}) (transitive_dependents g i)) \<and>
    blocked_by (dn_name (cs ! i)) r = map ((!) (map dn_name cs)) (sorted_list_of_set
      {j. dr_states r ! j = DR_failed \<and> (\<exists>d \<in> set (config_ids cs ! i). (d, j) \<in>
        {(a, b). (a, b) \<in> dep_rel (config_ids cs) \<and> dr_states r ! a = DR_blocked}\<^sup>*)}) \<and>
    waiting_for (dn_name (cs ! i)) r = map ((!) (map dn_name cs)) (sorted_list_of_set
      {j. dr_states r ! j \<noteq> DR_ready \<and> (i, j) \<in> (dep_rel (config_ids cs))\<^sup>+})"
  using mark_failed_blocks_exactly [OF assms] blocked_by_correct [OF assms(1-3)] by blast

theorem failures_and_blockers_witness:
  "fst (mark_failed (dn_name (sample_configs ! 1)) (fold runtime_step [Call_request_all] (reset sample_graph)))
     = \<lparr>fr_failed = [''db''], fr_blocked = [''cache'', ''web'']\<rparr> \<and>
   dr_states (snd (mark_failed (dn_name (sample_configs ! 1))
     (fold runtime_step [Call_request_all] (reset sample_graph)))) ! 1 = DR_failed"
  using failures_and_blockers [where calls = "[Call_request_all]" and i = 1 and j = 1,
      OF sample_build refl _ prod.collapse [symmetric]] sample_failed
  by (simp only: sample_length) simp

lemma migrate_same:
  assumes wf: "rt_wf r" and g: "dr_graph r = g" and wg: "wf_graph g"
  shows "migrate g (snapshot r) = r"
proof (cases "graph_size g = 0")
  case True
  then have "snapshot r = []" "dr_states r = []" "dr_requested r = []"
    using wf g by (auto simp: snapshot_def rt_wf_def)
  with True g show ?thesis by (simp add: migrate_def reset_def)
next
  case False
  note m = migrate_spec [OF wf wg]
  have len: "length (dr_states r) = graph_size g" "length (dr_requested r) = graph_size g"
    using wf g by (auto simp: rt_wf_def)
  have len': "length (dr_states (migrate g (snapshot r))) = graph_size g"
    "length (dr_requested (migrate g (snapshot r))) = graph_size g" "dr_graph (migrate g (snapshot r)) = g"
    using m(1,2) [of 0] False by (auto simp: rt_wf_def)
  have "dr_states (migrate g (snapshot r)) = dr_states r"
    "dr_requested (migrate g (snapshot r)) = dr_requested r"
    using m(3,4) len len' graph_find_nth [OF wg] g
    by (auto intro!: nth_equalityI simp: runtime_state_def)
  with len' g show ?thesis by simp
qed



text \<open>
  On a fresh runtime \<open>request_closure\<close> requests exactly the named program and the programs it
  needs, directly or through others.
\<close>

lemma request_closure_requests_exactly:
  assumes "build cs = Inr g" "i < length cs" "j < length cs"
  shows "dr_requested (snd (request_closure (dn_name (cs ! i)) (reset g))) ! j \<longleftrightarrow>
    (i, j) \<in> (dep_rel (config_ids cs))\<^sup>*"
proof -
  let ?r = "reset g" and ?deps = "config_ids cs"
  have b: "wf_graph g" "g_dependencies g = ?deps" "graph_size g = length cs"
    using build_Inr [OF assms(1)] wf_graph_names [OF assms(1)] by auto
  have f: "graph_find g (dn_name (cs ! i)) = Some i"
    using graph_find_nth [OF b(1), of i] wf_graph_names [OF assms(1)] assms(2) by auto
  obtain st rq where c: "request_calls ?deps [i] (replicate (length cs) DR_idle)
      (replicate (length cs) False) = (st, rq)" by fastforce
  have rng: "deps_in_range ?deps"
    using b(1,2) by (auto simp: wf_graph_def adjacency_def deps_in_range_def)
  have "fresh_closure ?deps [i] (replicate (length cs) DR_idle) (replicate (length cs) False)"
    using assms(2) by (auto simp: fresh_closure_def)
  from request_calls_closure [OF this rng c]
  have cl: "fresh_closure ?deps [] st rq" "rq ! i"
    "\<And>k. k < length cs \<Longrightarrow> rq ! k \<Longrightarrow> (i, k) \<in> (dep_rel ?deps)\<^sup>*" by auto
  have "(i, k) \<in> (dep_rel ?deps)\<^sup>* \<Longrightarrow> rq ! k" for k
    by (induction rule: rtrancl_induct) (use cl in \<open>auto simp: fresh_closure_def dep_rel_def\<close>)
  moreover have "dr_requested (snd (request_closure (dn_name (cs ! i)) ?r)) = rq"
  proof -
    have q: "request_dependencies i ?r = ?r\<lparr>dr_states := st, dr_requested := rq\<rparr>"
      using c b by (simp add: request_dependencies_def reset_def)
    have "rt_wf (request_dependencies i ?r)" using reset_wf [OF b(1)] by (simp add: request_dependencies_spec)
    from collect_startable_spec(3) [OF this prod.collapse [symmetric]] q f show ?thesis
      by (simp add: request_closure_def reset_def)
  qed
  ultimately show ?thesis using cl(3) assms(3) by auto
qed

lemma request_closure_requests_exactly_example:
  "dr_requested (snd (request_closure ''cache'' (reset sample_graph))) = [False, True, True, False] \<and>
   (2, 1) \<in> (dep_rel (config_ids sample_configs))\<^sup>*"
proof -
  have r: "dr_requested (snd (request_closure ''cache'' (reset sample_graph))) = [False, True, True, False]"
    by code_simp
  have "dn_name (sample_configs ! 2) = ''cache''" by code_simp
  with request_closure_requests_exactly [OF sample_build, of 2 1] r show ?thesis by (simp add: sample_length)
qed

end
