(* ===== verification/File_System.thy ===== *)
theory File_System
  imports Prog_Cfg_Yaml
begin

section \<open>System calls that fail and processes that die\<close>

text \<open>
  The file operations of daemon/prog_cfg.cpp.  A file system maps a path to a file with its bytes or to a
  flat directory with its files in directory order; a path is an object of its own, so the paths a
  program works on must not lie inside one another's directories.  What each system call does is taken from a script: it works, it fails, or the
  process dies in it; a call that fails or dies has no effect, except that a write may leave a prefix of
  its bytes.  An empty script means that every remaining call works.  Reading a file or testing whether a path
  exists reports the file system as it is.
\<close>

datatype fnode = File string | Dir "(string \<times> string) list"

type_synonym fs = "string \<Rightarrow> fnode option"

datatype outcome = Works | Fails nat | Dies nat

record world =
  w_fs :: fs
  w_script :: "outcome list"

text \<open>\<open>None\<close>: the process died.\<close>

type_synonym 'a sys = "world \<Rightarrow> 'a option \<times> world"

definition sreturn :: "'a \<Rightarrow> 'a sys" where
  "sreturn x w = (Some x, w)"

definition sbind :: "'a sys \<Rightarrow> ('a \<Rightarrow> 'b sys) \<Rightarrow> 'b sys" where
  "sbind m k w = (case m w of (None, w') \<Rightarrow> (None, w') | (Some x, w') \<Rightarrow> k x w')"

definition sthen :: "'a sys \<Rightarrow> 'b sys \<Rightarrow> 'b sys" where
  "sthen m k = sbind m (\<lambda>_. k)"

definition get_fs :: "fs sys" where
  "get_fs w = (Some (w_fs w), w)"

definition syscall :: "(fs \<Rightarrow> 'a \<times> fs) \<Rightarrow> (nat \<Rightarrow> fs \<Rightarrow> 'a \<times> fs) \<Rightarrow> 'a sys" where
  "syscall ok bad w = (case w_script w of
       [] \<Rightarrow> (Some (fst (ok (w_fs w))), w\<lparr>w_fs := snd (ok (w_fs w))\<rparr>)
     | Works # r \<Rightarrow> (Some (fst (ok (w_fs w))), w\<lparr>w_fs := snd (ok (w_fs w)), w_script := r\<rparr>)
     | Fails n # r \<Rightarrow> (Some (fst (bad n (w_fs w))), w\<lparr>w_fs := snd (bad n (w_fs w)), w_script := r\<rparr>)
     | Dies n # r \<Rightarrow> (None, w\<lparr>w_fs := snd (bad n (w_fs w)), w_script := r\<rparr>))"

subsection \<open>The calls\<close>

definition path_exists :: "string \<Rightarrow> bool sys" where
  "path_exists p = sbind get_fs (\<lambda>f. sreturn (f p \<noteq> None))"

datatype unlink_result = Unlinked | No_entry | Unlink_failed

definition unlink :: "string \<Rightarrow> unlink_result sys" where
  "unlink p = syscall
     (\<lambda>f. case f p of
        None \<Rightarrow> (No_entry, f)
      | Some (File s) \<Rightarrow> (Unlinked, f(p := None))
      | Some (Dir es) \<Rightarrow> (Unlink_failed, f))
     (\<lambda>_ f. (Unlink_failed, f))"

definition can_replace :: "fnode \<Rightarrow> fnode option \<Rightarrow> bool" where
  "can_replace n t = (case t of
       None \<Rightarrow> True
     | Some (File s) \<Rightarrow> (case n of File _ \<Rightarrow> True | Dir _ \<Rightarrow> False)
     | Some (Dir es) \<Rightarrow> (case n of File _ \<Rightarrow> False | Dir _ \<Rightarrow> es = []))"

definition rename :: "string \<Rightarrow> string \<Rightarrow> bool sys" where
  "rename a b = syscall
     (\<lambda>f. case f a of
        None \<Rightarrow> (False, f)
      | Some n \<Rightarrow> if can_replace n (f b) then (True, f(a := None, b := Some n)) else (False, f))
     (\<lambda>_ f. (False, f))"

definition mkdir :: "string \<Rightarrow> bool sys" where
  "mkdir p = syscall
     (\<lambda>f. if f p = None then (True, f(p := Some (Dir []))) else (False, f))
     (\<lambda>_ f. (False, f))"

definition rmdir :: "string \<Rightarrow> bool sys" where
  "rmdir p = syscall
     (\<lambda>f. if f p = Some (Dir []) then (True, f(p := None)) else (False, f))
     (\<lambda>_ f. (False, f))"

definition opendir :: "string \<Rightarrow> string list option sys" where
  "opendir p = syscall
     (\<lambda>f. case f p of Some (Dir es) \<Rightarrow> (Some (map fst es), f) | _ \<Rightarrow> (None, f))
     (\<lambda>_ f. (None, f))"

definition unlink_entry :: "string \<Rightarrow> string \<Rightarrow> bool sys" where
  "unlink_entry d name = syscall
     (\<lambda>f. case f d of
        Some (Dir es) \<Rightarrow> (True, f(d := Some (Dir (filter (\<lambda>(x, _). x \<noteq> name) es))))
      | _ \<Rightarrow> (False, f))
     (\<lambda>_ f. (False, f))"

fun unlink_entries :: "string \<Rightarrow> string list \<Rightarrow> unit sys" where
  "unlink_entries d [] = sreturn ()"
| "unlink_entries d (n # ns) = sthen (unlink_entry d n) (unlink_entries d ns)"

definition remove_flat_directory :: "string \<Rightarrow> unit sys" where
  "remove_flat_directory p = sbind (opendir p) (\<lambda>names.
     case names of
       None \<Rightarrow> sreturn ()
     | Some ns \<Rightarrow> sthen (unlink_entries p ns) (sthen (rmdir p) (sreturn ())))"

text \<open>Opening a file for output with truncation, and writing and flushing it, by path and inside a directory.\<close>

definition open_trunc :: "string \<Rightarrow> bool sys" where
  "open_trunc p = syscall
     (\<lambda>f. case f p of Some (Dir es) \<Rightarrow> (False, f) | _ \<Rightarrow> (True, f(p := Some (File []))))
     (\<lambda>_ f. (False, f))"

definition write_file :: "string \<Rightarrow> string \<Rightarrow> bool sys" where
  "write_file p s = syscall
     (\<lambda>f. (True, f(p := Some (File s))))
     (\<lambda>n f. (False, f(p := Some (File (take n s)))))"

definition put_entry :: "string \<Rightarrow> string \<Rightarrow> (string \<times> string) list \<Rightarrow> (string \<times> string) list" where
  "put_entry name s es =
     (if name \<in> fst ` set es then map (\<lambda>(x, t). (x, if x = name then s else t)) es else es @ [(name, s)])"

definition open_entry :: "string \<Rightarrow> string \<Rightarrow> bool sys" where
  "open_entry d name = syscall
     (\<lambda>f. case f d of Some (Dir es) \<Rightarrow> (True, f(d := Some (Dir (put_entry name [] es)))) | _ \<Rightarrow> (False, f))
     (\<lambda>_ f. (False, f))"

definition write_entry :: "string \<Rightarrow> string \<Rightarrow> string \<Rightarrow> bool sys" where
  "write_entry d name s = syscall
     (\<lambda>f. case f d of Some (Dir es) \<Rightarrow> (True, f(d := Some (Dir (put_entry name s es)))) | _ \<Rightarrow> (False, f))
     (\<lambda>n f. case f d of Some (Dir es) \<Rightarrow> (False, f(d := Some (Dir (put_entry name (take n s) es)))) | _ \<Rightarrow> (False, f))"

definition sync_file :: "string \<Rightarrow> bool sys" where
  "sync_file p = syscall (\<lambda>f. (f p \<noteq> None, f)) (\<lambda>_ f. (False, f))"

definition sync_entry :: "string \<Rightarrow> string \<Rightarrow> bool sys" where
  "sync_entry d name = syscall
     (\<lambda>f. (case f d of Some (Dir es) \<Rightarrow> name \<in> fst ` set es | _ \<Rightarrow> False, f)) (\<lambda>_ f. (False, f))"

text \<open>The directories that are synced exist: the configured paths' parents and the staging directory.\<close>

definition sync_directory :: "string \<Rightarrow> bool sys" where
  "sync_directory p = syscall (\<lambda>f. (True, f)) (\<lambda>_ f. (False, f))"

subsection \<open>Crash specifications\<close>

text \<open>
  \<open>spec A P m Q C\<close>: run in a file system that satisfies \<open>P\<close>, with a script of outcomes in \<open>A\<close>, the program \<open>m\<close>
  either returns \<open>x\<close> in a file system that satisfies \<open>Q x\<close>, or dies in one that satisfies \<open>C\<close>.
\<close>

definition spec :: "outcome set \<Rightarrow> (fs \<Rightarrow> bool) \<Rightarrow> 'a sys \<Rightarrow> ('a \<Rightarrow> fs \<Rightarrow> bool) \<Rightarrow> (fs \<Rightarrow> bool) \<Rightarrow> bool" where
  "spec A P m Q C \<longleftrightarrow> (\<forall>w. P (w_fs w) \<longrightarrow> set (w_script w) \<subseteq> A \<longrightarrow>
     (case m w of
        (Some x, w') \<Rightarrow> Q x (w_fs w') \<and> set (w_script w') \<subseteq> A
      | (None, w') \<Rightarrow> (\<exists>n. Dies n \<in> A) \<and> C (w_fs w')))"

lemma spec_return: "(\<And>f. P f \<Longrightarrow> Q x f) \<Longrightarrow> spec A P (sreturn x) Q C"
  by (simp add: spec_def sreturn_def)

lemma spec_bind:
  assumes "spec A P m R C" "\<And>x. spec A (R x) (k x) Q C"
  shows "spec A P (sbind m k) Q C"
  unfolding spec_def
proof (intro allI impI)
  fix w :: world
  assume w: "P (w_fs w)" "set (w_script w) \<subseteq> A"
  obtain r w' where m: "m w = (r, w')" by (cases "m w")
  show "case sbind m k w of (None, w') \<Rightarrow> (\<exists>n. Dies n \<in> A) \<and> C (w_fs w')
     | (Some x, w') \<Rightarrow> Q x (w_fs w') \<and> set (w_script w') \<subseteq> A"
    using assms(1) assms(2) [of "the r"] w m by (cases r) (fastforce simp: spec_def sbind_def)+
qed

lemma spec_then: "spec A P m (\<lambda>_. R) C \<Longrightarrow> spec A R k Q C \<Longrightarrow> spec A P (sthen m k) Q C"
  unfolding sthen_def by (rule spec_bind)

lemma spec_get: "(\<And>f. P f \<Longrightarrow> spec A (\<lambda>g. g = f) (k f) Q C) \<Longrightarrow> spec A P (sbind get_fs k) Q C"
  by (fastforce simp: spec_def sbind_def get_fs_def)

lemma spec_conseq:
  assumes "spec A P m Q C" "\<And>f. P' f \<Longrightarrow> P f" "\<And>x f. Q x f \<Longrightarrow> Q' x f" "\<And>f. C f \<Longrightarrow> C' f"
  shows "spec A P' m Q' C'"
  using assms unfolding spec_def by (fastforce split: prod.splits option.splits)

lemma spec_pre: "(\<And>f. P' f \<Longrightarrow> P f) \<Longrightarrow> spec A P m Q C \<Longrightarrow> spec A P' m Q C"
  by (auto simp: spec_def)

lemma spec_if:
  "spec A (\<lambda>f. P f \<and> b) m Q C \<Longrightarrow> spec A (\<lambda>f. P f \<and> \<not> b) m' Q C \<Longrightarrow> spec A P (if b then m else m') Q C"
  by (auto simp: spec_def)

lemma spec_case_pre: "(\<And>f. P f \<Longrightarrow> spec A (\<lambda>g. g = f) m Q C) \<Longrightarrow> spec A P m Q C"
  by (auto simp: spec_def)

lemma spec_syscall:
  assumes "\<And>f. P f \<Longrightarrow> Q (fst (ok f)) (snd (ok f))"
    "\<And>f n. P f \<Longrightarrow> Fails n \<in> A \<Longrightarrow> Q (fst (bad n f)) (snd (bad n f))"
    "\<And>f n. P f \<Longrightarrow> Dies n \<in> A \<Longrightarrow> C (snd (bad n f))"
  shows "spec A P (syscall ok bad) Q C"
  using assms by (auto simp: spec_def syscall_def split: list.splits outcome.splits)

text \<open>A predicate that does not depend on one path.\<close>

definition ignores :: "(fs \<Rightarrow> bool) \<Rightarrow> string \<Rightarrow> bool" where
  "ignores I p \<longleftrightarrow> (\<forall>f v. I f \<longrightarrow> I (f(p := v)))"

lemma ignoresD: "ignores I p \<Longrightarrow> I f \<Longrightarrow> I (f(p := v))"
  by (simp add: ignores_def)

text \<open>The calls that only touch one path keep every predicate that does not depend on it.\<close>

lemma spec_ignored:
  assumes "ignores I p"
  shows "spec A I (unlink p) (\<lambda>_. I) I" "spec A I (open_trunc p) (\<lambda>_. I) I"
    "spec A I (write_file p s) (\<lambda>_. I) I" "spec A I (unlink_entry p n) (\<lambda>_. I) I"
    "spec A I (rmdir p) (\<lambda>_. I) I" "spec A I (mkdir p) (\<lambda>_. I) I"
    "spec A I (write_entry p n s) (\<lambda>_. I) I" "spec A I (open_entry p n) (\<lambda>_. I) I"
  unfolding unlink_def open_trunc_def write_file_def unlink_entry_def rmdir_def mkdir_def write_entry_def
    open_entry_def
  using assms by - (rule spec_syscall; auto simp: ignores_def split: option.splits fnode.splits)+

lemma spec_sync:
  "spec A I (sync_directory p) (\<lambda>_. I) I" "spec A I (sync_file p) (\<lambda>_. I) I"
  "spec A I (sync_entry p n) (\<lambda>_. I) I" "spec A I (opendir p) (\<lambda>_. I) I"
  unfolding sync_directory_def sync_file_def sync_entry_def opendir_def
  by (rule spec_syscall; auto split: option.splits fnode.splits)+

lemma spec_unlink_entries: "ignores I p \<Longrightarrow> spec A I (unlink_entries p ns) (\<lambda>_. I) I"
proof (induction ns)
  case Nil
  then show ?case by (simp add: spec_return)
next
  case (Cons n ns)
  then show ?case by (auto intro: spec_then spec_ignored)
qed

lemma spec_remove_flat_ignored: "ignores I p \<Longrightarrow> spec A I (remove_flat_directory p) (\<lambda>_. I) I"
  unfolding remove_flat_directory_def
  by (rule spec_bind [OF spec_sync(4)])
     (auto intro!: spec_then spec_return spec_ignored spec_unlink_entries split: option.splits)

text \<open>When no call fails, removing a flat directory or a file leaves nothing at the path.\<close>

definition not_file :: "fnode option \<Rightarrow> bool" where
  "not_file v \<longleftrightarrow> (\<forall>s. v \<noteq> Some (File s))"

definition not_dir :: "fnode option \<Rightarrow> bool" where
  "not_dir v \<longleftrightarrow> (\<forall>es. v \<noteq> Some (Dir es))"

definition no_fail :: "outcome set \<Rightarrow> bool" where
  "no_fail A \<longleftrightarrow> (\<forall>n. Fails n \<notin> A)"

lemma spec_unlink_entries_removes:
  assumes "ignores I p" "no_fail A"
  shows "spec A (\<lambda>f. I f \<and> (\<exists>es. f p = Some (Dir es) \<and> fst ` set es \<subseteq> set ns)) (unlink_entries p ns)
    (\<lambda>_ f. I f \<and> f p = Some (Dir [])) (\<lambda>f. I f \<and> not_file (f p))"
proof (induction ns)
  case Nil
  show ?case by (auto intro!: spec_return)
next
  case (Cons n ns)
  have "spec A (\<lambda>f. I f \<and> (\<exists>es. f p = Some (Dir es) \<and> fst ` set es \<subseteq> set (n # ns))) (unlink_entry p n)
    (\<lambda>_ f. I f \<and> (\<exists>es. f p = Some (Dir es) \<and> fst ` set es \<subseteq> set ns)) (\<lambda>f. I f \<and> not_file (f p))"
    unfolding unlink_entry_def
    by (rule spec_syscall; use assms in \<open>clarsimp simp: ignores_def no_fail_def not_file_def\<close>) force
  from spec_then [OF this Cons.IH] show ?case by simp
qed

lemma spec_remove_flat_removes:
  assumes "ignores I p" "no_fail A"
  shows "spec A (\<lambda>f. I f \<and> not_file (f p)) (remove_flat_directory p) (\<lambda>_ f. I f \<and> f p = None)
    (\<lambda>f. I f \<and> not_file (f p))"
  unfolding remove_flat_directory_def
proof (rule spec_bind [where R = "\<lambda>r f. I f \<and> (case r of None \<Rightarrow> f p = None
    | Some ns \<Rightarrow> \<exists>es. f p = Some (Dir es) \<and> fst ` set es \<subseteq> set ns)"], goal_cases)
  case 1
  show ?case unfolding opendir_def
    by (rule spec_syscall) (use assms in \<open>auto simp: no_fail_def not_file_def split: option.splits fnode.splits\<close>)
next
  case (2 r)
  have rm: "spec A (\<lambda>f. I f \<and> f p = Some (Dir [])) (rmdir p) (\<lambda>_ f. I f \<and> f p = None) (\<lambda>f. I f \<and> not_file (f p))"
    unfolding rmdir_def
    by (rule spec_syscall) (use assms in \<open>auto simp: ignores_def no_fail_def not_file_def\<close>)
  show ?case
    by (cases r) (auto intro!: spec_return intro: spec_then [OF spec_unlink_entries_removes [OF assms]] spec_then [OF rm])
qed

text \<open>Removing the object at a path keeps its kind, and leaves nothing when no call fails.\<close>

lemma spec_unlink:
  assumes "ignores I p"
  shows "spec A (\<lambda>f. I f \<and> not_dir (f p)) (unlink p)
    (\<lambda>_ f. I f \<and> not_dir (f p) \<and> (no_fail A \<longrightarrow> f p = None)) (\<lambda>f. I f \<and> not_dir (f p))"
  unfolding unlink_def
  by (rule spec_syscall) (use assms in \<open>auto simp: ignores_def no_fail_def not_dir_def split: option.splits fnode.splits\<close>)

lemma spec_remove_flat:
  assumes "ignores I p"
  shows "spec A (\<lambda>f. I f \<and> not_file (f p)) (remove_flat_directory p)
    (\<lambda>_ f. I f \<and> not_file (f p) \<and> (no_fail A \<longrightarrow> f p = None)) (\<lambda>f. I f \<and> not_file (f p))"
proof (cases "no_fail A")
  case True
  show ?thesis by (rule spec_conseq [OF spec_remove_flat_removes [OF assms True]]) (auto simp: not_file_def)
next
  case False
  have e: "spec A (\<lambda>f. I f \<and> not_file (f p)) (unlink_entries p ns) (\<lambda>_ f. I f \<and> not_file (f p))
    (\<lambda>f. I f \<and> not_file (f p))" for ns
  proof (induction ns)
    case (Cons n ns)
    have "spec A (\<lambda>f. I f \<and> not_file (f p)) (unlink_entry p n) (\<lambda>_ f. I f \<and> not_file (f p))
      (\<lambda>f. I f \<and> not_file (f p))"
      unfolding unlink_entry_def
      by (rule spec_syscall) (use assms in \<open>auto simp: ignores_def not_file_def split: option.splits fnode.splits\<close>)
    from spec_then [OF this Cons.IH] show ?case by simp
  qed (auto intro!: spec_return)
  have r: "spec A (\<lambda>f. I f \<and> not_file (f p)) (rmdir p) (\<lambda>_ f. I f \<and> not_file (f p)) (\<lambda>f. I f \<and> not_file (f p))"
    unfolding rmdir_def by (rule spec_syscall) (use assms in \<open>auto simp: ignores_def not_file_def\<close>)
  have "spec A (\<lambda>f. I f \<and> not_file (f p)) (remove_flat_directory p) (\<lambda>_ f. I f \<and> not_file (f p))
    (\<lambda>f. I f \<and> not_file (f p))"
    unfolding remove_flat_directory_def
  proof (rule spec_bind [OF spec_sync(4)])
    fix names
    show "spec A (\<lambda>f. I f \<and> not_file (f p)) (case names of None \<Rightarrow> sreturn ()
       | Some ns \<Rightarrow> sthen (unlink_entries p ns) (sthen (rmdir p) (sreturn ()))) (\<lambda>_ f. I f \<and> not_file (f p))
       (\<lambda>f. I f \<and> not_file (f p))"
      by (cases names) (auto intro!: spec_return spec_then [OF e] spec_then [OF r])
  qed
  then show ?thesis by (rule spec_conseq) (use False in auto)
qed

lemma spec_path_exists:
  "(\<And>x. spec A (\<lambda>f. P f \<and> x = (f p \<noteq> None)) (k x) Q C) \<Longrightarrow> spec A P (sbind (path_exists p) k) Q C"
  by (auto simp: spec_def path_exists_def sbind_def get_fs_def sreturn_def)

lemma spec_sync_dir:
  "(\<And>f. P f \<Longrightarrow> C f) \<Longrightarrow> spec A P (sync_directory p) (\<lambda>b f. P f \<and> (no_fail A \<longrightarrow> b)) C"
  unfolding sync_directory_def by (rule spec_syscall) (auto simp: no_fail_def)

text \<open>A call whose result is tested at once, with an early exit.\<close>

lemma spec_guard:
  assumes "spec A P m (\<lambda>b f. if b then Y f else N f) C" "spec A N g Q C" "spec A Y k Q C"
  shows "spec A P (sbind m (\<lambda>b. if \<not> b then g else k)) Q C"
proof (rule spec_bind [OF assms(1)])
  fix b
  show "spec A (\<lambda>f. if b then Y f else N f) (if \<not> b then g else k) Q C"
    using assms(2,3) by (cases b) simp_all
qed

lemma spec_remove_absent:
  assumes "\<And>f. P f \<Longrightarrow> f p = None" "\<And>f. P f \<Longrightarrow> C f"
  shows "spec A P (remove_flat_directory p) (\<lambda>_. P) C" "spec A P (unlink p) (\<lambda>_. P) C"
proof -
  have "spec A P (opendir p) (\<lambda>r f. P f \<and> r = None) C"
    unfolding opendir_def by (rule spec_syscall) (simp_all add: assms)
  then show "spec A P (remove_flat_directory p) (\<lambda>_. P) C"
    unfolding remove_flat_directory_def
  proof (rule spec_bind)
    fix x
    show "spec A (\<lambda>f. P f \<and> x = None) (case x of None \<Rightarrow> sreturn ()
      | Some ns \<Rightarrow> sthen (unlink_entries p ns) (sthen (rmdir p) (sreturn ()))) (\<lambda>_. P) C"
      by (cases x) (auto simp: spec_def sreturn_def)
  qed
  show "spec A P (unlink p) (\<lambda>_. P) C"
    unfolding unlink_def by (rule spec_syscall) (simp_all add: assms)
qed

lemma put_entry_twice [simp]: "put_entry n s (put_entry n s' es) = put_entry n s es"
proof -
  have 1: "fst ` (\<lambda>(x, t). (x, if x = n then s' else t)) ` X = fst ` X" for X
    by force
  show ?thesis
  proof (cases "n \<in> fst ` set es")
    case True
    then show ?thesis by (simp add: put_entry_def 1 del: image_comp) (simp add: comp_def case_prod_beta)
  next
    case False
    have "map (\<lambda>(x, t). (x, if x = n then s else t)) es = es"
      by (rule map_idI) (use False in \<open>auto simp: image_iff split: prod.splits\<close>)
    with False show ?thesis by (simp add: put_entry_def)
  qed
qed

lemma put_entry_mem [simp]: "n \<in> fst ` set (put_entry n s es)"
  by (force simp: put_entry_def split: if_splits)

text \<open>Renaming either fails without effect or moves the object.\<close>

lemma spec_rename:
  assumes "\<And>f. P f \<Longrightarrow> Q False f" "\<And>f. P f \<Longrightarrow> C f"
    "\<And>f n. P f \<Longrightarrow> f a = Some n \<Longrightarrow> can_replace n (f b) \<Longrightarrow> Q True (f(a := None, b := Some n))"
  shows "spec A P (rename a b) Q C"
  unfolding rename_def by (rule spec_syscall) (use assms in \<open>auto split: option.splits\<close>)

text \<open>Running a program whose specification is known.\<close>

lemma spec_run:
  assumes "spec A P m Q C" "P (w_fs w)" "set (w_script w) \<subseteq> A"
  shows "case m w of (Some x, w') \<Rightarrow> Q x (w_fs w') | (None, w') \<Rightarrow> C (w_fs w')"
  using assms by (auto simp: spec_def split: prod.splits option.splits)

end
