(* ===== verification/Save_Transaction.thy ===== *)
theory Save_Transaction
  imports File_System
begin

section \<open>Saving and loading the program configuration (daemon/prog_cfg)\<close>

text \<open>
  \<open>save_prog_cfg\<close> replaces the configuration file and the directory of environment sidecars by a journalled
  transaction, and \<open>recover_prog_cfg_save\<close> finishes or undoes an interrupted one.  The test hooks
  \<open>fail_save_at\<close> and \<open>apply_test_save_delay\<close> do nothing in a production build and are left out.
\<close>

subsection \<open>Transactions and the journal\<close>

record save_transaction_t =
  t_state :: string
  t_suffix :: string
  t_cfg_path :: string
  t_cfg_temp :: string
  t_cfg_backup :: string
  t_env_path :: string
  t_env_stage :: string
  t_env_backup :: string
  t_had_cfg :: bool
  t_had_env :: bool

definition parent_directory :: "string \<Rightarrow> string" where
  "parent_directory path = (case find_last_of {CHR ''/''} path of
       None \<Rightarrow> ''.''
     | Some slash \<Rightarrow> if slash = 0 then ''/'' else take slash path)"

definition sync_transaction_directories :: "save_transaction_t \<Rightarrow> bool sys" where
  "sync_transaction_directories t =
     sbind (sync_directory (parent_directory (t_cfg_path t))) (\<lambda>cfg_ok.
     if parent_directory (t_env_path t) = parent_directory (t_cfg_path t) then sreturn cfg_ok
     else sbind (sync_directory (parent_directory (t_env_path t))) (\<lambda>env_ok.
       sreturn (env_ok \<and> cfg_ok)))"

definition journal_path :: "string \<Rightarrow> string" where
  "journal_path cfg_path = cfg_path @ ''.save-journal''"

definition journal_node :: "yaml_lib \<Rightarrow> save_transaction_t \<Rightarrow> ynode" where
  "journal_node L t = Y_map
     [(''schema'', int_node L 1),
      (''state'', Y_scalar (t_state t)),
      (''suffix'', Y_scalar (t_suffix t)),
      (''cfg_path'', Y_scalar (t_cfg_path t)),
      (''cfg_temp'', Y_scalar (t_cfg_temp t)),
      (''cfg_backup'', Y_scalar (t_cfg_backup t)),
      (''env_path'', Y_scalar (t_env_path t)),
      (''env_stage'', Y_scalar (t_env_stage t)),
      (''env_backup'', Y_scalar (t_env_backup t)),
      (''had_cfg'', bool_node L (t_had_cfg t)),
      (''had_env'', bool_node L (t_had_env t))]"

definition journal_text :: "yaml_lib \<Rightarrow> save_transaction_t \<Rightarrow> string" where
  "journal_text L t = yl_emit L (journal_node L t) @ [newline]"

definition write_save_journal :: "yaml_lib \<Rightarrow> string \<Rightarrow> save_transaction_t \<Rightarrow> bool sys" where
  "write_save_journal L journal t =
     (let journal_temp = journal @ ''.tmp'' in
      sbind (open_trunc journal_temp) (\<lambda>opened.
      if \<not> opened then sreturn False
      else sbind (write_file journal_temp (journal_text L t)) (\<lambda>good.
      if \<not> good then sreturn False
      else sbind (sync_file journal_temp) (\<lambda>synced.
      sbind (if synced then rename journal_temp journal else sreturn False) (\<lambda>moved.
      if \<not> moved then sthen (unlink journal_temp) (sreturn False)
      else sync_directory (parent_directory journal))))))"

text \<open>\<open>root[key].as<T>()\<close>, which throws when the key is missing.\<close>

definition required_key :: "yaml_lib \<Rightarrow> ynode \<Rightarrow> string \<Rightarrow> (yaml_lib \<Rightarrow> ynode \<Rightarrow> string + 'a) \<Rightarrow> string + 'a" where
  "required_key L root key conv = (case node_field root key of
       None \<Rightarrow> Inl (yl_invalid L key)
     | Some v \<Rightarrow> conv L v)"

definition journal_of_node :: "yaml_lib \<Rightarrow> ynode \<Rightarrow> string + save_transaction_t" where
  "journal_of_node L root =
     (let str = (\<lambda>key. required_key L root key as_string);
          flag = (\<lambda>key. required_key L root key as_bool)
      in case root of
        Y_map kvs \<Rightarrow>
          (case node_field root ''schema'' of
             None \<Rightarrow> Inl ''unsupported save journal schema''
           | Some s \<Rightarrow>
               res_bind (as_int L s) (\<lambda>schema.
               if schema \<noteq> 1 then Inl ''unsupported save journal schema''
               else
                 res_bind (str ''state'') (\<lambda>state.
                 res_bind (str ''suffix'') (\<lambda>suffix.
                 res_bind (str ''cfg_path'') (\<lambda>cfg_path.
                 res_bind (str ''cfg_temp'') (\<lambda>cfg_temp.
                 res_bind (str ''cfg_backup'') (\<lambda>cfg_backup.
                 res_bind (str ''env_path'') (\<lambda>env_path.
                 res_bind (str ''env_stage'') (\<lambda>env_stage.
                 res_bind (str ''env_backup'') (\<lambda>env_backup.
                 res_bind (flag ''had_cfg'') (\<lambda>had_cfg.
                 res_bind (flag ''had_env'') (\<lambda>had_env.
                 Inr \<lparr>t_state = state, t_suffix = suffix, t_cfg_path = cfg_path, t_cfg_temp = cfg_temp,
                      t_cfg_backup = cfg_backup, t_env_path = env_path, t_env_stage = env_stage,
                      t_env_backup = env_backup, t_had_cfg = had_cfg, t_had_env = had_env\<rparr>))))))))))))
      | _ \<Rightarrow> Inl ''unsupported save journal schema'')"

definition load_save_journal :: "yaml_lib \<Rightarrow> string \<Rightarrow> fs \<Rightarrow> string + save_transaction_t" where
  "load_save_journal L journal f = (case f journal of
       Some (File s) \<Rightarrow> res_bind (yl_load L s) (journal_of_node L)
     | _ \<Rightarrow> Inl (yl_bad_file L journal))"

definition valid_save_transaction :: "save_transaction_t \<Rightarrow> string \<Rightarrow> string \<Rightarrow> bool" where
  "valid_save_transaction t cfg_path env_path \<longleftrightarrow>
     t_suffix t \<noteq> [] \<and> starts_with ''.txn.'' (t_suffix t) \<and>
     t_cfg_path t = cfg_path \<and> t_env_path t = env_path \<and>
     t_cfg_temp t = cfg_path @ t_suffix t \<and>
     t_cfg_backup t = cfg_path @ ''.bak'' @ t_suffix t \<and>
     t_env_stage t = env_path @ t_suffix t \<and>
     t_env_backup t = env_path @ ''.bak'' @ t_suffix t \<and>
     (t_state t = ''prepared'' \<or> t_state t = ''old_moved'' \<or> t_state t = ''new_installed'')"

subsection \<open>Recovery\<close>

definition remove_object :: "bool \<Rightarrow> string \<Rightarrow> unit sys" where
  "remove_object directory path =
     (if directory then remove_flat_directory path else sthen (unlink path) (sreturn ()))"

definition restore_backup :: "string \<Rightarrow> string \<Rightarrow> bool \<Rightarrow> bool \<Rightarrow> bool sys" where
  "restore_backup backup path had_original directory =
     sbind (path_exists backup) (\<lambda>present.
     if present then sthen (remove_object directory path) (rename backup path)
     else sthen (if \<not> had_original then remove_object directory path else sreturn ())
       (sbind (path_exists path) (\<lambda>there. sreturn (\<not> had_original \<or> there))))"

text \<open>\<open>None\<close> is the result \<open>true\<close>; \<open>Some error\<close> is \<open>false\<close> with the error set.\<close>

definition finish_recovery :: "string \<Rightarrow> save_transaction_t \<Rightarrow> bool \<Rightarrow> string option sys" where
  "finish_recovery journal t ok =
     sthen (unlink (t_cfg_temp t))
     (sthen (remove_flat_directory (t_env_stage t))
     (sbind (if ok then sync_transaction_directories t else sreturn False) (\<lambda>synced.
      if \<not> synced then sreturn (Some (''Failed to restore interrupted save transaction '' @ journal))
      else sbind (unlink journal) (\<lambda>r.
      if r = Unlink_failed then sreturn (Some (''Failed to remove recovered save journal '' @ journal))
      else sbind (sync_directory (parent_directory journal)) (\<lambda>dir_ok.
      if \<not> dir_ok then sreturn (Some ''Failed to sync recovered save journal directory'')
      else sreturn None)))))"

definition recover_transaction :: "string \<Rightarrow> save_transaction_t \<Rightarrow> string option sys" where
  "recover_transaction journal t =
     (if t_state t = ''new_installed'' then
        sbind (path_exists (t_cfg_path t)) (\<lambda>cfg_there.
        sbind (path_exists (t_env_path t)) (\<lambda>env_there.
        if \<not> cfg_there \<or> \<not> env_there
        then sreturn (Some ''Cannot recover committed save transaction: installed files are missing'')
        else sthen (unlink (t_cfg_backup t))
             (sthen (remove_flat_directory (t_env_backup t))
             (finish_recovery journal t True))))
      else
        sbind (restore_backup (t_cfg_backup t) (t_cfg_path t) (t_had_cfg t) False) (\<lambda>cfg_ok.
        sbind (restore_backup (t_env_backup t) (t_env_path t) (t_had_env t) True) (\<lambda>env_ok.
        finish_recovery journal t (env_ok \<and> cfg_ok))))"

definition recover_prog_cfg_save :: "yaml_lib \<Rightarrow> string \<Rightarrow> string \<Rightarrow> string option sys" where
  "recover_prog_cfg_save L cfg_path app_environ_dir =
     (let journal = journal_path cfg_path in
      sbind get_fs (\<lambda>f.
      if f journal = None then sreturn None
      else case load_save_journal L journal f of
        Inl e \<Rightarrow> sreturn (Some (''Cannot recover '' @ journal @ '': '' @
                   (if e = [] then ''save journal paths or state are invalid'' else e)))
      | Inr t \<Rightarrow>
          if \<not> valid_save_transaction t cfg_path app_environ_dir
          then sreturn (Some (''Cannot recover '' @ journal @ '': '' @
                 ''save journal paths or state are invalid''))
          else recover_transaction journal t))"

subsection \<open>Saving\<close>

definition sidecar_text :: "yaml_lib \<Rightarrow> prog_cfg_t \<Rightarrow> string" where
  "sidecar_text L c =
     yl_emit L (Y_map [(''schema'', int_node L 1), (''environment'', strings_node (cfg_envs c))]) @ [newline]"

definition sidecar_name :: "string \<Rightarrow> string" where
  "sidecar_name name = name @ ''.yaml''"

fun write_sidecars :: "string \<Rightarrow> (string \<times> string) list \<Rightarrow> bool sys" where
  "write_sidecars env_stage [] = sreturn True"
| "write_sidecars env_stage ((name, text) # rest) =
     (let filename = sidecar_name name;
          give_up = sthen (remove_flat_directory env_stage) (sreturn False)
      in sbind (open_entry env_stage filename) (\<lambda>opened.
         if \<not> opened then give_up
         else sbind (write_entry env_stage filename text) (\<lambda>good.
         if \<not> good then give_up
         else sbind (sync_entry env_stage filename) (\<lambda>synced.
         if \<not> synced then give_up
         else write_sidecars env_stage rest))))"

definition cfg_text :: "yaml_lib \<Rightarrow> prog_cfg_t list \<Rightarrow> string" where
  "cfg_text L cfgs =
     (if cfgs = [] then ''[]'' @ [newline]
      else yl_emit L (Y_seq (map (\<lambda>c. serialize_prog_cfg_yaml_node L c default_options) cfgs)))"

definition new_transaction :: "string \<Rightarrow> string \<Rightarrow> string \<Rightarrow> save_transaction_t" where
  "new_transaction cfg_path env_dir suffix =
     \<lparr>t_state = ''prepared'', t_suffix = suffix, t_cfg_path = cfg_path, t_cfg_temp = cfg_path @ suffix,
      t_cfg_backup = cfg_path @ ''.bak'' @ suffix, t_env_path = env_dir, t_env_stage = env_dir @ suffix,
      t_env_backup = env_dir @ ''.bak'' @ suffix, t_had_cfg = False, t_had_env = False\<rparr>"

definition transaction_suffix :: "int \<Rightarrow> int \<Rightarrow> string" where
  "transaction_suffix pid now = ''.txn.'' @ int_to_string pid @ ''.'' @ int_to_string now"

text \<open>Lines 288 to 345: the staged sidecars and the temporary configuration file.\<close>

definition stage_files :: "yaml_lib \<Rightarrow> save_transaction_t \<Rightarrow> prog_cfg_t list \<Rightarrow> bool sys" where
  "stage_files L t cfgs =
     (let drop_stage = sthen (remove_flat_directory (t_env_stage t)) (sreturn False);
          drop_both = sthen (unlink (t_cfg_temp t)) drop_stage
      in sthen (remove_flat_directory (t_env_stage t))
         (sthen (remove_flat_directory (t_env_backup t))
         (sthen (unlink (t_cfg_backup t))
         (sbind (mkdir (t_env_stage t)) (\<lambda>made.
          if \<not> made then sreturn False
          else sbind (write_sidecars (t_env_stage t) (map (\<lambda>c. (cfg_name c, sidecar_text L c)) cfgs)) (\<lambda>written.
          if \<not> written then sreturn False
          else sbind (sync_directory (t_env_stage t)) (\<lambda>dir_synced.
          if \<not> dir_synced then drop_stage
          else sbind (open_trunc (t_cfg_temp t)) (\<lambda>opened.
          if \<not> opened then drop_stage
          else sbind (write_file (t_cfg_temp t) (cfg_text L cfgs)) (\<lambda>good.
          if \<not> good then drop_both
          else sbind (sync_file (t_cfg_temp t)) (\<lambda>synced.
          if \<not> synced then drop_both else sreturn True))))))))))"

definition drop_staged :: "save_transaction_t \<Rightarrow> int sys" where
  "drop_staged t = sthen (unlink (t_cfg_temp t)) (sthen (remove_flat_directory (t_env_stage t)) (sreturn (-1)))"

definition rename_if :: "bool \<Rightarrow> string \<Rightarrow> string \<Rightarrow> bool sys" where
  "rename_if b x y = (if b then rename x y else sreturn True)"

definition roll_back :: "save_transaction_t \<Rightarrow> int sys" where
  "roll_back t =
     sthen (unlink (t_cfg_path t))
     (sthen (remove_flat_directory (t_env_path t))
     (sthen (rename_if (t_had_cfg t) (t_cfg_backup t) (t_cfg_path t))
     (sthen (rename_if (t_had_env t) (t_env_backup t) (t_env_path t))
     (drop_staged t))))"

definition write_state :: "yaml_lib \<Rightarrow> string \<Rightarrow> save_transaction_t \<Rightarrow> string \<Rightarrow> bool sys" where
  "write_state L journal t st = write_save_journal L journal (t\<lparr>t_state := st\<rparr>)"

text \<open>Lines 378 to 387: the transaction is committed and its backups removed.\<close>

definition commit_save :: "yaml_lib \<Rightarrow> string \<Rightarrow> save_transaction_t \<Rightarrow> int sys" where
  "commit_save L journal t =
     sbind (sync_transaction_directories t) (\<lambda>synced.
     if \<not> synced then sreturn (-1)
     else sbind (write_state L journal t ''new_installed'') (\<lambda>logged.
     if \<not> logged then sreturn (-1)
     else sthen (unlink (t_cfg_backup t))
       (sthen (remove_flat_directory (t_env_backup t))
       (sbind (sync_transaction_directories t) (\<lambda>synced.
        if \<not> synced then sreturn (-1)
        else sthen (unlink journal)
             (sthen (sync_directory (parent_directory (t_cfg_path t))) (sreturn 0)))))))"

text \<open>Lines 364 to 377: the old objects are out of the way, and the new ones are installed.\<close>

definition install_new :: "yaml_lib \<Rightarrow> string \<Rightarrow> save_transaction_t \<Rightarrow> int sys" where
  "install_new L journal t =
     sbind (sync_transaction_directories t) (\<lambda>synced.
     if \<not> synced then sreturn (-1)
     else sbind (write_state L journal t ''old_moved'') (\<lambda>logged.
     if \<not> logged then sreturn (-1)
     else sbind (rename (t_cfg_temp t) (t_cfg_path t)) (\<lambda>cfg_moved.
     sbind (if cfg_moved then rename (t_env_stage t) (t_env_path t) else sreturn False) (\<lambda>moved.
     if \<not> moved then roll_back t else commit_save L journal t))))"

text \<open>Lines 346 to 363: the journal is opened and the old objects are moved to their backups.\<close>

definition swap_files :: "yaml_lib \<Rightarrow> string \<Rightarrow> save_transaction_t \<Rightarrow> int sys" where
  "swap_files L journal t0 =
     sbind (path_exists (t_cfg_path t0)) (\<lambda>had_cfg.
     sbind (path_exists (t_env_path t0)) (\<lambda>had_env.
     let t = t0\<lparr>t_had_cfg := had_cfg, t_had_env := had_env\<rparr> in
     sbind (write_state L journal t ''prepared'') (\<lambda>logged.
     if \<not> logged then sreturn (-1)
     else sbind (rename_if had_cfg (t_cfg_path t) (t_cfg_backup t)) (\<lambda>cfg_moved.
     if \<not> cfg_moved then drop_staged t
     else sbind (rename_if had_env (t_env_path t) (t_env_backup t)) (\<lambda>env_moved.
     if \<not> env_moved
     then sthen (rename_if had_cfg (t_cfg_backup t) (t_cfg_path t)) (drop_staged t)
     else install_new L journal t)))))"

definition save_prog_cfg :: "yaml_lib \<Rightarrow> int \<Rightarrow> int \<Rightarrow> prog_cfg_t list \<Rightarrow> string \<Rightarrow> string \<Rightarrow> int sys" where
  "save_prog_cfg L pid now cfgs cfg_path app_environ_dir =
     sbind (recover_prog_cfg_save L cfg_path app_environ_dir) (\<lambda>recovery_error.
     if recovery_error \<noteq> None then sreturn (-1)
     else
       let t = new_transaction cfg_path app_environ_dir (transaction_suffix pid now) in
       sbind (stage_files L t cfgs) (\<lambda>staged.
       if \<not> staged then sreturn (-1) else swap_files L (journal_path cfg_path) t))"

end
