(* ===== verification/Save_Transaction_Correct.thy ===== *)
theory Save_Transaction_Correct
  imports Save_Transaction Yaml_Instance
begin

section \<open>Crash consistency of the configuration save\<close>

text \<open>
  Crash specifications of the saving and the recovery code, proved block by block.  The invariant
  \<open>recoverable\<close> relates the journal to the four places where the old and the new objects can be; every call of
  the saving code, worked, failed or died in, leaves it true, and recovery establishes one of the two
  complete configurations from it.
\<close>

subsection \<open>The recoverable file systems\<close>

definition paths_of :: "save_transaction_t \<Rightarrow> string list" where
  "paths_of t = [t_cfg_path t, t_cfg_temp t, t_cfg_backup t, t_env_path t, t_env_stage t, t_env_backup t,
     journal_path (t_cfg_path t), journal_path (t_cfg_path t) @ ''.tmp'']"

definition logged_as :: "save_transaction_t \<Rightarrow> string \<Rightarrow> fnode option \<Rightarrow> fnode option \<Rightarrow> save_transaction_t" where
  "logged_as t st c0 e0 = t\<lparr>t_state := st, t_had_cfg := c0 \<noteq> None, t_had_env := e0 \<noteq> None\<rparr>"

definition journal_in :: "yaml_lib \<Rightarrow> save_transaction_t \<Rightarrow> fnode option \<Rightarrow> fnode option \<Rightarrow> string list \<Rightarrow> fs \<Rightarrow> bool" where
  "journal_in L t c0 e0 sts f \<longleftrightarrow>
     (\<exists>st \<in> set sts. f (journal_path (t_cfg_path t)) = Some (File (journal_text L (logged_as t st c0 e0))))"

definition rollable :: "fnode option \<Rightarrow> fnode option \<Rightarrow> fnode option \<Rightarrow> bool" where
  "rollable old bak cur \<longleftrightarrow> (if bak = None then old = None \<or> cur = old else bak = old)"

definition undoable :: "save_transaction_t \<Rightarrow> fnode option \<Rightarrow> fnode option \<Rightarrow> fs \<Rightarrow> bool" where
  "undoable t c0 e0 f \<longleftrightarrow>
     rollable c0 (f (t_cfg_backup t)) (f (t_cfg_path t)) \<and> not_dir (f (t_cfg_path t)) \<and>
     rollable e0 (f (t_env_backup t)) (f (t_env_path t)) \<and> not_file (f (t_env_path t))"

definition holds :: "save_transaction_t \<Rightarrow> fnode option \<times> fnode option \<Rightarrow> fs \<Rightarrow> bool" where
  "holds t v f \<longleftrightarrow> f (t_cfg_path t) = fst v \<and> f (t_env_path t) = snd v"

definition no_journal :: "save_transaction_t \<Rightarrow> fs \<Rightarrow> bool" where
  "no_journal t f \<longleftrightarrow> f (journal_path (t_cfg_path t)) = None"

definition committed ::
  "yaml_lib \<Rightarrow> save_transaction_t \<Rightarrow> fnode option \<Rightarrow> fnode option \<Rightarrow> fnode option \<times> fnode option \<Rightarrow> fs \<Rightarrow> bool" where
  "committed L t c0 e0 new f \<longleftrightarrow>
     holds t new f \<and> (no_journal t f \<or> journal_in L t c0 e0 [''new_installed''] f)"

definition recoverable ::
  "yaml_lib \<Rightarrow> save_transaction_t \<Rightarrow> fnode option \<Rightarrow> fnode option \<Rightarrow> fnode option \<times> fnode option \<Rightarrow> fs \<Rightarrow> bool" where
  "recoverable L t c0 e0 new f \<longleftrightarrow>
     no_journal t f \<and> (holds t (c0, e0) f \<or> holds t new f) \<or>
     journal_in L t c0 e0 [''prepared'', ''old_moved''] f \<and> undoable t c0 e0 f \<or>
     journal_in L t c0 e0 [''new_installed''] f \<and> holds t new f"

lemma journal_round_trip:
  assumes "yaml_scalars L" "yaml_text L" "f j = Some (File (journal_text L t))"
  shows "load_save_journal L j f = Inr t"
proof -
  have "in_i32 1" by (simp add: in_i32_def)
  with assms show ?thesis
    by (simp add: load_save_journal_def journal_text_def yaml_text_def journal_of_node_def journal_node_def
        node_field_def required_key_def as_int_node as_bool_node)
qed

lemma upd_other:
  "p \<noteq> journal_path (t_cfg_path t) \<Longrightarrow> journal_in L t c0 e0 sts (f(p := v)) = journal_in L t c0 e0 sts f"
  "p \<noteq> journal_path (t_cfg_path t) \<Longrightarrow> no_journal t (f(p := v)) = no_journal t f"
  "p \<noteq> t_cfg_path t \<Longrightarrow> p \<noteq> t_env_path t \<Longrightarrow> holds t n (f(p := v)) = holds t n f"
  "p \<noteq> t_cfg_path t \<Longrightarrow> p \<noteq> t_env_path t \<Longrightarrow> p \<noteq> t_cfg_backup t \<Longrightarrow> p \<noteq> t_env_backup t \<Longrightarrow>
     undoable t c0 e0 (f(p := v)) = undoable t c0 e0 f"
  by (auto simp: journal_in_def no_journal_def holds_def undoable_def)

lemma recoverable_upd_other:
  "p \<noteq> journal_path (t_cfg_path t) \<Longrightarrow> p \<noteq> t_cfg_path t \<Longrightarrow> p \<noteq> t_env_path t \<Longrightarrow>
   p \<noteq> t_cfg_backup t \<Longrightarrow> p \<noteq> t_env_backup t \<Longrightarrow>
     recoverable L t c0 e0 new (f(p := v)) = recoverable L t c0 e0 new f"
  by (simp add: recoverable_def upd_other)

lemma committed_recoverable: "committed L t c0 e0 new f \<Longrightarrow> recoverable L t c0 e0 new f"
  by (auto simp: committed_def recoverable_def)

lemma paths_distinctD:
  assumes "distinct (paths_of t)"
  shows "t_cfg_temp t \<noteq> journal_path (t_cfg_path t)" "t_cfg_temp t \<noteq> t_cfg_path t" "t_cfg_temp t \<noteq> t_env_path t"
    "t_cfg_temp t \<noteq> t_cfg_backup t" "t_cfg_temp t \<noteq> t_env_backup t" "t_cfg_temp t \<noteq> t_env_stage t"
    "t_env_stage t \<noteq> journal_path (t_cfg_path t)" "t_env_stage t \<noteq> t_cfg_path t" "t_env_stage t \<noteq> t_env_path t"
    "t_env_stage t \<noteq> t_cfg_backup t" "t_env_stage t \<noteq> t_env_backup t"
    "t_cfg_path t \<noteq> t_env_path t" "t_cfg_path t \<noteq> t_cfg_backup t" "t_cfg_path t \<noteq> t_env_backup t"
    "t_cfg_path t \<noteq> journal_path (t_cfg_path t)"
    "t_env_path t \<noteq> t_cfg_backup t" "t_env_path t \<noteq> t_env_backup t" "t_env_path t \<noteq> journal_path (t_cfg_path t)"
    "t_cfg_backup t \<noteq> t_env_backup t" "t_cfg_backup t \<noteq> journal_path (t_cfg_path t)"
    "t_env_backup t \<noteq> journal_path (t_cfg_path t)"
  using assms by (auto simp: paths_of_def)

lemma paths_tmpD:
  assumes "distinct (paths_of t)" "jt = journal_path (t_cfg_path t) @ ''.tmp''"
  shows "jt \<noteq> journal_path (t_cfg_path t)" "jt \<noteq> t_cfg_path t" "jt \<noteq> t_env_path t" "jt \<noteq> t_cfg_backup t"
    "jt \<noteq> t_env_backup t" "jt \<noteq> t_cfg_temp t" "jt \<noteq> t_env_stage t"
  using assms by (auto simp: paths_of_def)

subsection \<open>Recovery\<close>

lemma spec_sync_dirs:
  assumes "\<And>f. P f \<Longrightarrow> C f"
  shows "spec A P (sync_transaction_directories t) (\<lambda>b f. P f \<and> (no_fail A \<longrightarrow> b)) C"
  unfolding sync_transaction_directories_def
proof (rule spec_bind [OF spec_sync_dir], rule assms, assumption, rule spec_if, goal_cases)
  case (1 b)
  show ?case by (rule spec_return) simp
next
  case (2 b)
  show ?case by (rule spec_bind [OF spec_sync_dir], blast intro: assms, rule spec_return, blast)
qed

lemma spec_finish_recovery:
  assumes d: "distinct (paths_of t)" and j: "j = journal_path (t_cfg_path t)" and
    tt: "t_cfg_temp t' = t_cfg_temp t" "t_env_stage t' = t_env_stage t" and
    C: "ignores C (t_cfg_temp t)" "ignores C (t_env_stage t)" and
    S: "ignores S (t_cfg_temp t)" "ignores S (t_env_stage t)" and
    unlogged: "\<And>f. C f \<Longrightarrow> S f \<Longrightarrow> C (f(j := None))"
  shows "spec A (\<lambda>f. C f \<and> not_dir (f j) \<and> (ok \<longrightarrow> S f)) (finish_recovery j t' ok)
    (\<lambda>r f. C f \<and> (r = None \<longrightarrow> no_journal t f) \<and> (no_fail A \<longrightarrow> ok \<longrightarrow> r = None)) C"
proof -
  let ?C = C
  let ?I = "\<lambda>f. C f \<and> not_dir (f j) \<and> (ok \<longrightarrow> S f)"
  have ign: "ignores ?I (t_cfg_temp t)" "ignores ?I (t_env_stage t)"
    using paths_distinctD [OF d] C S by (simp_all add: ignores_def j)
  have 1: "spec A ?I (unlink (t_cfg_temp t)) (\<lambda>_. ?I) ?C"
    by (rule spec_conseq [OF spec_ignored(1) [OF ign(1)]]) auto
  have 2: "spec A ?I (remove_flat_directory (t_env_stage t)) (\<lambda>_. ?I) ?C"
    by (rule spec_conseq [OF spec_remove_flat_ignored [OF ign(2)]]) auto
  have 3: "spec A ?I (if ok then sync_transaction_directories t' else sreturn False)
     (\<lambda>b f. ?I f \<and> (b \<longrightarrow> ok) \<and> (no_fail A \<longrightarrow> ok \<longrightarrow> b)) ?C"
  proof (cases ok)
    case True
    have "spec A ?I (sync_transaction_directories t') (\<lambda>b f. ?I f \<and> (no_fail A \<longrightarrow> b)) ?C"
      by (rule spec_sync_dirs) blast
    with True show ?thesis by simp
  next
    case False
    then show ?thesis by (simp add: spec_return)
  qed
  have 4: "spec A (\<lambda>f. ?I f \<and> ok) (unlink j)
     (\<lambda>r f. ?C f \<and> (r \<noteq> Unlink_failed \<longrightarrow> no_journal t f) \<and> (no_fail A \<longrightarrow> r \<noteq> Unlink_failed)) ?C"
  proof -
    have "?C (f(j := None)) \<and> no_journal t (f(j := None))" if "?I f \<and> ok" for f
      using that unlogged by (simp add: no_journal_def j)
    then show ?thesis unfolding unlink_def
      by (intro spec_syscall) (auto simp: no_fail_def not_dir_def no_journal_def j split: option.splits fnode.splits)
  qed
  show ?thesis
    unfolding finish_recovery_def tt
  proof (rule spec_then [OF 1], rule spec_then [OF 2], rule spec_bind [OF 3], rule spec_if, goal_cases)
    case (1 b)
    show ?case by (rule spec_return) auto
  next
    case (2 b)
    show ?case
    proof (rule spec_pre [OF _ spec_bind [OF 4]], goal_cases)
      case (2 r)
      show ?case
      proof (rule spec_if, goal_cases)
        case 2
        show ?case
          by (rule spec_bind [OF spec_sync_dir], blast) (rule spec_if; rule spec_return; auto)
      qed (rule spec_return, auto)
    qed simp
  qed
qed

definition right_kind :: "bool \<Rightarrow> fnode option \<Rightarrow> bool" where
  "right_kind directory v = (if directory then not_file v else not_dir v)"

lemma spec_remove_object:
  assumes "ignores I p"
  shows "spec A (\<lambda>f. I f \<and> right_kind d (f p)) (remove_object d p)
    (\<lambda>_ f. I f \<and> right_kind d (f p) \<and> (no_fail A \<longrightarrow> f p = None)) (\<lambda>f. I f \<and> right_kind d (f p))"
proof (cases d)
  case True
  then show ?thesis using spec_remove_flat [OF assms] by (simp add: remove_object_def right_kind_def)
next
  case False
  have "spec A (\<lambda>f. I f \<and> not_dir (f p)) (sthen (unlink p) (sreturn ()))
    (\<lambda>_ f. I f \<and> not_dir (f p) \<and> (no_fail A \<longrightarrow> f p = None)) (\<lambda>f. I f \<and> not_dir (f p))"
    by (rule spec_then [OF spec_unlink [OF assms]], rule spec_return)
  with False show ?thesis by (simp add: remove_object_def right_kind_def)
qed

lemma spec_restore_backup:
  assumes "ignores I b" "ignores I p" "b \<noteq> p" "right_kind d old" "old \<noteq> None \<or> no_fail A"
  shows "spec A (\<lambda>f. I f \<and> rollable old (f b) (f p) \<and> right_kind d (f p))
    (restore_backup b p (old \<noteq> None) d)
    (\<lambda>ok f. I f \<and> rollable old (f b) (f p) \<and> right_kind d (f p) \<and> (ok \<longrightarrow> f p = old) \<and> (no_fail A \<longrightarrow> ok))
    (\<lambda>f. I f \<and> rollable old (f b) (f p) \<and> right_kind d (f p))"
proof -
  let ?C = "\<lambda>f. I f \<and> rollable old (f b) (f p) \<and> right_kind d (f p)"
  let ?Q = "\<lambda>ok f. ?C f \<and> (ok \<longrightarrow> f p = old) \<and> (no_fail A \<longrightarrow> ok)"
  have i1: "ignores (\<lambda>f. I f \<and> f b = old \<and> old \<noteq> None) p"
    using assms(2,3) by (simp add: ignores_def)
  have a: "spec A (\<lambda>f. ?C f \<and> f b \<noteq> None) (sthen (remove_object d p) (rename b p)) ?Q ?C"
  proof (rule spec_then)
    show "spec A (\<lambda>f. ?C f \<and> f b \<noteq> None) (remove_object d p)
      (\<lambda>_ f. (I f \<and> f b = old \<and> old \<noteq> None) \<and> right_kind d (f p) \<and> (no_fail A \<longrightarrow> f p = None)) ?C"
      by (rule spec_conseq [OF spec_remove_object [OF i1]]) (auto simp: rollable_def split: if_splits)
    show "spec A (\<lambda>f. (I f \<and> f b = old \<and> old \<noteq> None) \<and> right_kind d (f p) \<and> (no_fail A \<longrightarrow> f p = None))
      (rename b p) ?Q ?C"
      unfolding rename_def
      by (rule spec_syscall) (use assms in \<open>auto simp: ignores_def rollable_def no_fail_def can_replace_def
          split: option.splits\<close>)
  qed
  have i2: "ignores (\<lambda>f. I f \<and> f b = None \<and> old = None) p"
    using assms(2,3) by (simp add: ignores_def)
  have r: "spec A (\<lambda>f. P f) (sbind (path_exists p) (\<lambda>there. sreturn (\<not> had \<or> there))) ?Q ?C"
    if "\<And>f. P f \<Longrightarrow> ?Q (\<not> had \<or> f p \<noteq> None) f" for P had
    by (rule spec_path_exists, rule spec_return) (use that in blast)
  have b: "spec A (\<lambda>f. ?C f \<and> f b = None)
      (sthen (if \<not> (old \<noteq> None) then remove_object d p else sreturn ())
       (sbind (path_exists p) (\<lambda>there. sreturn (\<not> (old \<noteq> None) \<or> there)))) ?Q ?C"
  proof (cases "old = None")
    case True
    then have nf: "no_fail A" using assms(5) by blast
    have x: "spec A (\<lambda>f. ?C f \<and> f b = None) (remove_object d p) (\<lambda>_ f. I f \<and> f b = None \<and> f p = None) ?C"
      by (rule spec_conseq [OF spec_remove_object [OF i2]]) (use True nf in \<open>auto simp: rollable_def\<close>)
    have y: "spec A (\<lambda>f. I f \<and> f b = None \<and> f p = None)
      (sbind (path_exists p) (\<lambda>there. sreturn (\<not> (old \<noteq> None) \<or> there))) ?Q ?C"
      by (rule r) (use True assms(4) in \<open>auto simp: rollable_def\<close>)
    have e: "(if \<not> (old \<noteq> None) then remove_object d p else sreturn ()) = remove_object d p"
      using True by simp
    show ?thesis unfolding e by (rule spec_then [OF x y])
  next
    case False
    have y: "spec A (\<lambda>f. ?C f \<and> f b = None)
      (sbind (path_exists p) (\<lambda>there. sreturn (\<not> (old \<noteq> None) \<or> there))) ?Q ?C"
      by (rule r) (use False in \<open>auto simp: rollable_def\<close>)
    have e: "(if \<not> (old \<noteq> None) then remove_object d p else sreturn ()) = sreturn ()"
      using False by simp
    show ?thesis unfolding e by (rule spec_then [OF _ y], rule spec_return)
  qed
  show ?thesis
    unfolding restore_backup_def
  proof (rule spec_path_exists, rule spec_if, goal_cases)
    case (1 x)
    show ?case by (rule spec_conseq [OF a]) auto
  next
    case (2 x)
    show ?case by (rule spec_conseq [OF b]) auto
  qed
qed

lemma logged_as_sel [simp]:
  "t_state (logged_as t st c0 e0) = st" "t_suffix (logged_as t st c0 e0) = t_suffix t"
  "t_cfg_path (logged_as t st c0 e0) = t_cfg_path t" "t_cfg_temp (logged_as t st c0 e0) = t_cfg_temp t"
  "t_cfg_backup (logged_as t st c0 e0) = t_cfg_backup t" "t_env_path (logged_as t st c0 e0) = t_env_path t"
  "t_env_stage (logged_as t st c0 e0) = t_env_stage t" "t_env_backup (logged_as t st c0 e0) = t_env_backup t"
  "t_had_cfg (logged_as t st c0 e0) = (c0 \<noteq> None)" "t_had_env (logged_as t st c0 e0) = (e0 \<noteq> None)"
  by (simp_all add: logged_as_def)

text \<open>What a transaction of \<open>save_prog_cfg\<close> satisfies, and the old objects being a file and a directory.\<close>

definition good_transaction :: "save_transaction_t \<Rightarrow> fnode option \<Rightarrow> fnode option \<Rightarrow> bool" where
  "good_transaction t c0 e0 \<longleftrightarrow>
     distinct (paths_of t) \<and> valid_save_transaction t (t_cfg_path t) (t_env_path t) \<and> not_dir c0 \<and> not_file e0"

lemma spec_undo:
  assumes g: "good_transaction t c0 e0" and st: "st = ''prepared'' \<or> st = ''old_moved''"
    and nf: "c0 \<noteq> None \<and> e0 \<noteq> None \<or> no_fail A"
  shows "spec A (\<lambda>f. journal_in L t c0 e0 [st] f \<and> undoable t c0 e0 f)
    (recover_transaction (journal_path (t_cfg_path t)) (logged_as t st c0 e0))
    (\<lambda>r f. recoverable L t c0 e0 new f \<and> (r = None \<longrightarrow> no_journal t f) \<and> (no_fail A \<longrightarrow> r = None))
    (recoverable L t c0 e0 new)"
proof -
  note d = g [unfolded good_transaction_def, THEN conjunct1]
  note p = paths_distinctD [OF d]
  let ?J = "journal_in L t c0 e0 [st]"
  let ?c = "\<lambda>f. rollable c0 (f (t_cfg_backup t)) (f (t_cfg_path t)) \<and> right_kind False (f (t_cfg_path t))"
  let ?e = "\<lambda>f. rollable e0 (f (t_env_backup t)) (f (t_env_path t)) \<and> right_kind True (f (t_env_path t))"
  let ?I2 = "\<lambda>ok f. ?J f \<and> ?c f \<and> (ok \<longrightarrow> f (t_cfg_path t) = c0) \<and> (no_fail A \<longrightarrow> ok)"
  let ?Q = "\<lambda>r f. recoverable L t c0 e0 new f \<and> (r = None \<longrightarrow> no_journal t f) \<and> (no_fail A \<longrightarrow> r = None)"
  let ?C = "recoverable L t c0 e0 new"
  have rec: "recoverable L t c0 e0 new f" if "?J f" "?c f" "?e f" for f
    using that st by (auto simp: recoverable_def journal_in_def undoable_def right_kind_def)
  have j: "not_dir (f (journal_path (t_cfg_path t)))" if "?J f" for f
    using that by (auto simp: journal_in_def not_dir_def)
  have i1: "ignores (\<lambda>f. ?J f \<and> ?e f) (t_cfg_backup t)" "ignores (\<lambda>f. ?J f \<and> ?e f) (t_cfg_path t)"
    using p p [symmetric] by (simp_all add: ignores_def upd_other)
  have i2: "ignores (?I2 ok) (t_env_backup t)" "ignores (?I2 ok) (t_env_path t)" for ok
    using p p [symmetric] by (simp_all add: ignores_def upd_other)
  have k: "right_kind False c0" "right_kind True e0" "c0 \<noteq> None \<or> no_fail A" "e0 \<noteq> None \<or> no_fail A"
    using g nf by (auto simp: good_transaction_def right_kind_def)
  have u: "undoable t c0 e0 f \<longleftrightarrow> ?c f \<and> ?e f" for f
    by (auto simp: undoable_def right_kind_def)
  have h: "f (t_cfg_path t) = c0 \<Longrightarrow> f (t_env_path t) = e0 \<Longrightarrow> holds t (c0, e0) f" for f
    by (simp add: holds_def)
  have a1: "spec A (\<lambda>f. ?J f \<and> undoable t c0 e0 f) (restore_backup (t_cfg_backup t) (t_cfg_path t) (c0 \<noteq> None) False)
    (\<lambda>ok f. ?I2 ok f \<and> ?e f) ?C"
    by (rule spec_conseq [OF spec_restore_backup [OF i1 p(13) [symmetric] k(1,3)]])
       (use u rec in blast)+
  have a2: "spec A (\<lambda>f. ?I2 ok f \<and> ?e f) (restore_backup (t_env_backup t) (t_env_path t) (e0 \<noteq> None) True)
    (\<lambda>ok2 f. ?C f \<and> not_dir (f (journal_path (t_cfg_path t))) \<and>
       (ok2 \<and> ok \<longrightarrow> holds t (c0, e0) f \<or> holds t new f) \<and> (no_fail A \<longrightarrow> ok2 \<and> ok)) ?C" for ok
    by (rule spec_conseq [OF spec_restore_backup [OF i2 p(17) [symmetric] k(2,4)]])
       (use h rec j in blast)+
  have fin: "ignores ?C (t_cfg_temp t)" "ignores ?C (t_env_stage t)"
    "ignores (\<lambda>f. holds t (c0, e0) f \<or> holds t new f) (t_cfg_temp t)"
    "ignores (\<lambda>f. holds t (c0, e0) f \<or> holds t new f) (t_env_stage t)"
    using p by (simp_all add: ignores_def recoverable_upd_other upd_other)
  have unl: "?C (f(journal_path (t_cfg_path t) := None))" if "?C f" "holds t (c0, e0) f \<or> holds t new f" for f
    using that p by (auto simp: recoverable_def no_journal_def holds_def)
  have a3: "spec A (\<lambda>f. ?C f \<and> not_dir (f (journal_path (t_cfg_path t))) \<and>
       (ok2 \<and> ok \<longrightarrow> holds t (c0, e0) f \<or> holds t new f) \<and> (no_fail A \<longrightarrow> ok2 \<and> ok))
      (finish_recovery (journal_path (t_cfg_path t)) (logged_as t st c0 e0) (ok2 \<and> ok)) ?Q ?C" for ok ok2
  proof (cases "no_fail A \<longrightarrow> ok2 \<and> ok")
    case True
    show ?thesis
      by (rule spec_conseq [OF spec_finish_recovery [OF d refl _ _ fin unl, of "logged_as t st c0 e0" A "ok2 \<and> ok"]])
         (use True in auto)
  next
    case False
    then show ?thesis by (auto simp: spec_def)
  qed
  have ns: "st \<noteq> ''new_installed''" using st by auto
  show ?thesis unfolding recover_transaction_def logged_as_sel if_not_P [OF ns]
    by (rule spec_bind [OF a1], rule spec_bind [OF a2], rule a3)
qed

lemma spec_redo:
  assumes g: "good_transaction t c0 e0" and new: "fst new \<noteq> None" "snd new \<noteq> None"
  shows "spec A (\<lambda>f. journal_in L t c0 e0 [''new_installed''] f \<and> holds t new f)
    (recover_transaction (journal_path (t_cfg_path t)) (logged_as t ''new_installed'' c0 e0))
    (\<lambda>r f. committed L t c0 e0 new f \<and> (r = None \<longrightarrow> no_journal t f) \<and> (no_fail A \<longrightarrow> r = None))
    (committed L t c0 e0 new)"
proof -
  note d = g [unfolded good_transaction_def, THEN conjunct1]
  note p = paths_distinctD [OF d]
  let ?P = "\<lambda>f. journal_in L t c0 e0 [''new_installed''] f \<and> holds t new f"
  let ?C = "committed L t c0 e0 new"
  have pc: "?P f \<Longrightarrow> ?C f" for f by (simp add: committed_def)
  have ign: "ignores ?P (t_cfg_backup t)" "ignores ?P (t_env_backup t)"
    using p p [symmetric] by (simp_all add: ignores_def upd_other)
  have a1: "spec A ?P (unlink (t_cfg_backup t)) (\<lambda>_. ?P) ?C"
    by (rule spec_conseq [OF spec_ignored(1) [OF ign(1)]]) (auto intro: pc)
  have a2: "spec A ?P (remove_flat_directory (t_env_backup t)) (\<lambda>_. ?P) ?C"
    by (rule spec_conseq [OF spec_remove_flat_ignored [OF ign(2)]]) (auto intro: pc)
  have fin: "ignores ?C (t_cfg_temp t)" "ignores ?C (t_env_stage t)" "ignores ?C (t_cfg_temp t)" "ignores ?C (t_env_stage t)"
    using p by (simp_all add: ignores_def committed_def upd_other)
  have unl: "?C (f(journal_path (t_cfg_path t) := None))" if "?C f" "?C f" for f
    using that p by (simp add: committed_def no_journal_def upd_other)
  have a3: "spec A ?P (finish_recovery (journal_path (t_cfg_path t)) (logged_as t ''new_installed'' c0 e0) True)
    (\<lambda>r f. ?C f \<and> (r = None \<longrightarrow> no_journal t f) \<and> (no_fail A \<longrightarrow> r = None)) ?C"
    by (rule spec_conseq [OF spec_finish_recovery [OF d refl _ _ fin unl, of "logged_as t ''new_installed'' c0 e0" A True]])
       (auto simp: journal_in_def not_dir_def committed_def)
  have both: "f (t_cfg_path t) \<noteq> None" "f (t_env_path t) \<noteq> None" if "?P f" for f
    using that new by (auto simp: holds_def)
  show ?thesis unfolding recover_transaction_def logged_as_sel if_P [OF refl]
  proof (rule spec_path_exists, rule spec_path_exists, rule spec_if, goal_cases)
    case (1 x y)
    show ?case by (rule spec_return) (use both in auto)
  next
    case (2 x y)
    show ?case
      by (rule spec_pre [OF _ spec_then [OF a1 spec_then [OF a2 a3]]]) simp
  qed
qed

text \<open>Recovery reads the journal back and dispatches on it.\<close>

lemma spec_recover_prog_cfg_save:
  assumes y: "yaml_scalars L" "yaml_text L" and g: "good_transaction t c0 e0"
    and none: "\<And>f. P f \<Longrightarrow> no_journal t f \<Longrightarrow> Q None f"
    and some: "\<And>f. P f \<Longrightarrow> \<not> no_journal t f \<Longrightarrow>
      \<exists>st. st \<in> {''prepared'', ''old_moved'', ''new_installed''} \<and> journal_in L t c0 e0 [st] f \<and>
        spec A (\<lambda>g. g = f) (recover_transaction (journal_path (t_cfg_path t)) (logged_as t st c0 e0)) Q C"
  shows "spec A P (recover_prog_cfg_save L (t_cfg_path t) (t_env_path t)) Q C"
  unfolding recover_prog_cfg_save_def Let_def
proof (rule spec_get, goal_cases)
  case (1 f)
  let ?j = "journal_path (t_cfg_path t)"
  show ?case
  proof (cases "f ?j = None")
    case True
    show ?thesis unfolding if_P [OF True]
      by (rule spec_return) (use 1 True none in \<open>auto simp: no_journal_def\<close>)
  next
    case False
    then have "\<not> no_journal t f" by (simp add: no_journal_def)
    from some [OF 1 this] obtain st where st: "st \<in> {''prepared'', ''old_moved'', ''new_installed''}"
      "journal_in L t c0 e0 [st] f" and R: "spec A (\<lambda>g. g = f) (recover_transaction ?j (logged_as t st c0 e0)) Q C"
      by blast
    have "load_save_journal L ?j f = Inr (logged_as t st c0 e0)"
      using st(2) journal_round_trip [OF y] by (simp add: journal_in_def)
    moreover have "valid_save_transaction (logged_as t st c0 e0) (t_cfg_path t) (t_env_path t)"
      using g st(1) by (auto simp: good_transaction_def valid_save_transaction_def)
    ultimately show ?thesis unfolding if_not_P [OF False] using R by simp
  qed
qed

lemma spec_recover:
  assumes y: "yaml_scalars L" "yaml_text L" and g: "good_transaction t c0 e0"
    and nf: "c0 \<noteq> None \<and> e0 \<noteq> None \<or> no_fail A" and new: "fst new \<noteq> None" "snd new \<noteq> None"
  shows "spec A (recoverable L t c0 e0 new) (recover_prog_cfg_save L (t_cfg_path t) (t_env_path t))
    (\<lambda>r f. recoverable L t c0 e0 new f \<and> (r = None \<longrightarrow> no_journal t f) \<and> (no_fail A \<longrightarrow> r = None))
    (recoverable L t c0 e0 new)"
proof (rule spec_recover_prog_cfg_save [OF y g], goal_cases)
  case (2 f)
  let ?Q = "\<lambda>r f. recoverable L t c0 e0 new f \<and> (r = None \<longrightarrow> no_journal t f) \<and> (no_fail A \<longrightarrow> r = None)"
  from 2 consider
      st where "st = ''prepared'' \<or> st = ''old_moved''" "journal_in L t c0 e0 [st] f" "undoable t c0 e0 f"
    | "journal_in L t c0 e0 [''new_installed''] f" "holds t new f"
    unfolding recoverable_def no_journal_def journal_in_def by fastforce
  then show ?case
  proof cases
    case (1 st)
    show ?thesis
    proof (intro exI conjI)
      show "st \<in> {''prepared'', ''old_moved'', ''new_installed''}" using 1(1) by auto
      show "spec A (\<lambda>g. g = f) (recover_transaction (journal_path (t_cfg_path t)) (logged_as t st c0 e0)) ?Q
        (recoverable L t c0 e0 new)"
        by (rule spec_pre [OF _ spec_undo [OF g 1(1) nf]]) (simp add: 1)
    qed (rule 1(2))
  next
    case 2
    show ?thesis
    proof (intro exI conjI)
      show "spec A (\<lambda>g. g = f) (recover_transaction (journal_path (t_cfg_path t)) (logged_as t ''new_installed'' c0 e0)) ?Q
        (recoverable L t c0 e0 new)"
        by (rule spec_conseq [OF spec_redo [OF g new]]) (auto simp: 2 intro: committed_recoverable)
    qed (simp_all add: 2)
  qed
qed simp

lemma spec_recover_committed:
  assumes y: "yaml_scalars L" "yaml_text L" and g: "good_transaction t c0 e0"
    and new: "fst new \<noteq> None" "snd new \<noteq> None"
  shows "spec A (committed L t c0 e0 new) (recover_prog_cfg_save L (t_cfg_path t) (t_env_path t))
    (\<lambda>r f. committed L t c0 e0 new f \<and> (r = None \<longrightarrow> no_journal t f) \<and> (no_fail A \<longrightarrow> r = None))
    (committed L t c0 e0 new)"
proof (rule spec_recover_prog_cfg_save [OF y g], goal_cases)
  case (2 f)
  then have n: "journal_in L t c0 e0 [''new_installed''] f \<and> holds t new f" by (auto simp: committed_def)
  show ?case
  proof (intro exI conjI)
    show "spec A (\<lambda>g. g = f) (recover_transaction (journal_path (t_cfg_path t)) (logged_as t ''new_installed'' c0 e0))
      (\<lambda>r f. committed L t c0 e0 new f \<and> (r = None \<longrightarrow> no_journal t f) \<and> (no_fail A \<longrightarrow> r = None))
      (committed L t c0 e0 new)"
      by (rule spec_pre [OF _ spec_redo [OF g new]]) (simp add: n)
  qed (simp_all add: n)
qed simp

subsection \<open>Staging and the journal\<close>

text \<open>The content the staged directory ends up with.\<close>

definition put_sidecars :: "(string \<times> string) list \<Rightarrow> (string \<times> string) list \<Rightarrow> (string \<times> string) list" where
  "put_sidecars xs es = fold (\<lambda>(name, text). put_entry (sidecar_name name) text) xs es"

lemma spec_write_sidecars:
  assumes "ignores I d" "\<And>f. I f \<Longrightarrow> C f"
  shows "spec A (\<lambda>f. I f \<and> f d = Some (Dir es)) (write_sidecars d xs)
    (\<lambda>ok f. I f \<and> (ok \<longrightarrow> f d = Some (Dir (put_sidecars xs es))) \<and> (no_fail A \<longrightarrow> ok)) C"
proof (induction xs arbitrary: es)
  case Nil
  show ?case unfolding write_sidecars.simps put_sidecars_def by (rule spec_return) simp
next
  case (Cons x xs)
  obtain n s where x: "x = (n, s)" by (cases x)
  let ?Q = "\<lambda>ok f. I f \<and> (ok \<longrightarrow> f d = Some (Dir (put_sidecars (x # xs) es))) \<and> (no_fail A \<longrightarrow> ok)"
  have give_up: "spec A (\<lambda>f. I f \<and> \<not> no_fail A) (sthen (remove_flat_directory d) (sreturn False)) ?Q C"
  proof (rule spec_then [where R = "\<lambda>f. I f \<and> \<not> no_fail A"], goal_cases)
    case 1
    have "ignores (\<lambda>f. I f \<and> \<not> no_fail A) d" using assms(1) by (simp add: ignores_def)
    from spec_remove_flat_ignored [OF this] show ?case by (rule spec_conseq) (use assms(2) in auto)
  qed (rule spec_return, simp)
  let ?n = "sidecar_name n"
  have open_ok: "spec A (\<lambda>f. I f \<and> f d = Some (Dir es)) (open_entry d ?n)
    (\<lambda>ok f. if ok then I f \<and> f d = Some (Dir (put_entry ?n [] es)) else I f \<and> \<not> no_fail A) C"
    unfolding open_entry_def
    by (rule spec_syscall) (use assms in \<open>auto simp: ignores_def no_fail_def\<close>)
  have write_ok: "spec A (\<lambda>f. I f \<and> f d = Some (Dir (put_entry ?n [] es))) (write_entry d ?n s)
    (\<lambda>ok f. if ok then I f \<and> f d = Some (Dir (put_entry ?n s es)) else I f \<and> \<not> no_fail A) C"
    unfolding write_entry_def
    by (rule spec_syscall) (use assms in \<open>auto simp: ignores_def no_fail_def\<close>)
  have sync_ok: "spec A (\<lambda>f. I f \<and> f d = Some (Dir (put_entry ?n s es))) (sync_entry d ?n)
    (\<lambda>ok f. if ok then I f \<and> f d = Some (Dir (put_entry ?n s es)) else I f \<and> \<not> no_fail A) C"
    unfolding sync_entry_def
    by (rule spec_syscall) (use assms in \<open>auto simp: no_fail_def\<close>)
  have next_ok: "spec A (\<lambda>f. I f \<and> f d = Some (Dir (put_entry ?n s es))) (write_sidecars d xs) ?Q C"
    using Cons.IH [of "put_entry ?n s es"] by (simp add: put_sidecars_def x)
  show ?case
    unfolding x write_sidecars.simps Let_def
    by (rule spec_guard [OF open_ok give_up [unfolded x]], rule spec_guard [OF write_ok give_up [unfolded x]],
        rule spec_guard [OF sync_ok give_up [unfolded x] next_ok [unfolded x]])
qed

lemma spec_write_journal:
  assumes ign: "ignores I j" "ignores I (j @ ''.tmp'')" and C: "\<And>f. I f \<Longrightarrow> f j = v \<or> f j = Some (File (journal_text L t)) \<Longrightarrow> C f"
    and v: "not_dir v"
  shows "spec A (\<lambda>f. I f \<and> f j = v \<and> not_dir (f (j @ ''.tmp''))) (write_save_journal L j t)
    (\<lambda>ok f. if ok then I f \<and> f j = Some (File (journal_text L t)) \<and> not_dir (f (j @ ''.tmp''))
      else I f \<and> (f j = v \<or> f j = Some (File (journal_text L t))) \<and> \<not> no_fail A) C"
proof -
  let ?t = "j @ ''.tmp''" and ?s = "journal_text L t"
  let ?Q = "\<lambda>ok f. if ok then I f \<and> f j = Some (File ?s) \<and> not_dir (f ?t)
      else I f \<and> (f j = v \<or> f j = Some (File ?s)) \<and> \<not> no_fail A"
  let ?N = "\<lambda>f. I f \<and> f j = v \<and> \<not> no_fail A"
  have no: "spec A ?N (sreturn False) ?Q C" by (rule spec_return) simp
  have o: "spec A (\<lambda>f. I f \<and> f j = v \<and> not_dir (f ?t)) (open_trunc ?t)
    (\<lambda>b f. if b then I f \<and> f j = v \<and> not_dir (f ?t) else ?N f) C"
    unfolding open_trunc_def
    by (rule spec_syscall) (use ign(2) C in \<open>auto simp: ignores_def no_fail_def not_dir_def split: option.splits fnode.splits\<close>)
  have w: "spec A (\<lambda>f. I f \<and> f j = v \<and> not_dir (f ?t)) (write_file ?t ?s)
    (\<lambda>b f. if b then I f \<and> f j = v \<and> f ?t = Some (File ?s) else ?N f) C"
    unfolding write_file_def
    by (rule spec_syscall) (use ign(2) C in \<open>auto simp: ignores_def no_fail_def\<close>)
  have s: "spec A (\<lambda>f. I f \<and> f j = v \<and> f ?t = Some (File ?s)) (sync_file ?t)
    (\<lambda>b f. I f \<and> f j = v \<and> f ?t = Some (File ?s) \<and> (no_fail A \<longrightarrow> b)) C"
    unfolding sync_file_def
    by (rule spec_syscall) (use C in \<open>auto simp: no_fail_def\<close>)
  have r: "spec A (\<lambda>f. I f \<and> f j = v \<and> f ?t = Some (File ?s) \<and> (no_fail A \<longrightarrow> b))
     (if b then rename ?t j else sreturn False)
    (\<lambda>b f. if b then I f \<and> f j = Some (File ?s) \<and> not_dir (f ?t) else ?N f) C" for b
  proof (cases b)
    case True
    have "spec A (\<lambda>f. I f \<and> f j = v \<and> f ?t = Some (File ?s)) (rename ?t j)
      (\<lambda>b f. if b then I f \<and> f j = Some (File ?s) \<and> not_dir (f ?t) else ?N f) C"
      unfolding rename_def
      by (rule spec_syscall) (use ign C v in \<open>auto simp: ignores_def no_fail_def can_replace_def not_dir_def
          split: option.splits fnode.splits\<close>)
    with True show ?thesis by simp
  next
    case False
    then show ?thesis by (auto intro!: spec_return)
  qed
  have u: "spec A ?N (sthen (unlink ?t) (sreturn False)) ?Q C"
  proof (rule spec_then [OF _ no])
    have "ignores ?N ?t" using ign(2) by (simp add: ignores_def)
    from spec_ignored(1) [OF this] show "spec A ?N (unlink ?t) (\<lambda>_. ?N) C" by (rule spec_conseq) (use C in auto)
  qed
  have y: "spec A (\<lambda>f. I f \<and> f j = Some (File ?s) \<and> not_dir (f ?t)) (sync_directory p) ?Q C" for p
    by (rule spec_conseq [OF spec_sync_dir [where C = C and P = "\<lambda>f. I f \<and> f j = Some (File ?s) \<and> not_dir (f ?t)"]])
       (use C in auto)
  show ?thesis
    unfolding write_save_journal_def Let_def
    by (rule spec_guard [OF o no], rule spec_guard [OF w no], rule spec_bind [OF s], rule spec_guard [OF r u y])
qed

definition staged :: "yaml_lib \<Rightarrow> save_transaction_t \<Rightarrow> prog_cfg_t list \<Rightarrow> fs \<Rightarrow> bool" where
  "staged L t cfgs f \<longleftrightarrow> f (t_cfg_temp t) = Some (File (cfg_text L cfgs)) \<and>
     f (t_env_stage t) = Some (Dir (put_sidecars (map (\<lambda>c. (cfg_name c, sidecar_text L c)) cfgs) []))"

definition installed :: "yaml_lib \<Rightarrow> prog_cfg_t list \<Rightarrow> fnode option \<times> fnode option" where
  "installed L cfgs = (Some (File (cfg_text L cfgs)),
     Some (Dir (put_sidecars (map (\<lambda>c. (cfg_name c, sidecar_text L c)) cfgs) [])))"

definition untouched :: "save_transaction_t \<Rightarrow> fnode option \<Rightarrow> fnode option \<Rightarrow> fs \<Rightarrow> bool" where
  "untouched t c0 e0 f \<longleftrightarrow> no_journal t f \<and> holds t (c0, e0) f \<and>
     f (t_cfg_backup t) = None \<and> f (t_env_backup t) = None \<and>
     not_dir (f (journal_path (t_cfg_path t) @ ''.tmp''))"

lemma untouched_upd:
  "distinct (paths_of t) \<Longrightarrow> p = t_cfg_temp t \<or> p = t_env_stage t \<Longrightarrow> untouched t c0 e0 (f(p := v)) = untouched t c0 e0 f"
  using paths_distinctD [of t] paths_tmpD [OF _ refl, of t]
  by (auto simp: untouched_def upd_other)

lemma spec_stage_files:
  assumes d: "distinct (paths_of t)"
  shows "spec A (\<lambda>f. untouched t c0 e0 f \<and> not_file (f (t_env_stage t)) \<and> not_dir (f (t_cfg_temp t)))
    (stage_files L t cfgs)
    (\<lambda>ok f. if ok then untouched t c0 e0 f \<and> staged L t cfgs f else untouched t c0 e0 f \<and> \<not> no_fail A) (untouched t c0 e0)"
proof -
  note p = paths_distinctD [OF d]
  let ?U = "untouched t c0 e0" and ?s = "t_env_stage t" and ?m = "t_cfg_temp t"
  let ?es = "put_sidecars (map (\<lambda>c. (cfg_name c, sidecar_text L c)) cfgs) []"
  let ?Q = "\<lambda>ok f. if ok then ?U f \<and> staged L t cfgs f else ?U f \<and> \<not> no_fail A"
  let ?M = "\<lambda>f. ?U f \<and> not_dir (f ?m)"
  let ?S = "\<lambda>f. ?M f \<and> f ?s = Some (Dir ?es)"
  let ?N = "\<lambda>f. ?U f \<and> \<not> no_fail A"
  have iU: "ignores ?U ?s" "ignores ?U ?m" "ignores ?N ?s" "ignores ?N ?m" "ignores ?M ?s"
    using d p by (simp_all add: ignores_def untouched_upd)
  have no: "spec A ?N (sreturn False) ?Q ?U" by (rule spec_return) simp
  have ds: "spec A ?N (sthen (remove_flat_directory ?s) (sreturn False)) ?Q ?U"
    by (rule spec_then [OF spec_conseq [OF spec_remove_flat_ignored [OF iU(3)]] no]) auto
  have db: "spec A ?N (sthen (unlink ?m) (sthen (remove_flat_directory ?s) (sreturn False))) ?Q ?U"
    by (rule spec_then [OF spec_conseq [OF spec_ignored(1) [OF iU(4)]] ds]) auto
  let ?P = "\<lambda>f. ?M f \<and> not_file (f ?s) \<and> (no_fail A \<longrightarrow> f ?s = None)"
  have a1: "spec A (\<lambda>f. ?U f \<and> not_file (f ?s) \<and> not_dir (f ?m)) (remove_flat_directory ?s) (\<lambda>_. ?P) ?U"
    by (rule spec_conseq [OF spec_remove_flat [OF iU(5)]]) auto
  have a2: "spec A ?P (remove_flat_directory (t_env_backup t)) (\<lambda>_. ?P) ?U" "spec A ?P (unlink (t_cfg_backup t)) (\<lambda>_. ?P) ?U"
    by (rule spec_remove_absent; simp add: untouched_def)+
  have a3: "spec A ?P (mkdir ?s) (\<lambda>b f. if b then ?M f \<and> f ?s = Some (Dir []) else ?N f) ?U"
    unfolding mkdir_def
    by (rule spec_syscall) (use iU(1) p(6) in \<open>auto simp: ignores_def no_fail_def\<close>)
  have a4: "spec A (\<lambda>f. ?M f \<and> f ?s = Some (Dir []))
    (write_sidecars ?s (map (\<lambda>c. (cfg_name c, sidecar_text L c)) cfgs)) (\<lambda>b f. if b then ?S f else ?N f) ?U"
    by (rule spec_conseq [OF spec_write_sidecars [OF iU(5), where C = ?U]]) auto
  have a5: "spec A ?S (sync_directory ?s) (\<lambda>b f. if b then ?S f else ?N f) ?U"
    by (rule spec_conseq [OF spec_sync_dir [where P = ?S and C = ?U]]) auto
  have a6: "spec A ?S (open_trunc ?m) (\<lambda>b f. if b then ?S f else ?N f) ?U"
    unfolding open_trunc_def
    by (rule spec_syscall) (use iU(2) p(6) in \<open>auto simp: ignores_def no_fail_def not_dir_def split: option.splits fnode.splits\<close>)
  have a7: "spec A ?S (write_file ?m (cfg_text L cfgs)) (\<lambda>b f. if b then ?U f \<and> staged L t cfgs f else ?N f) ?U"
    unfolding write_file_def
    by (rule spec_syscall) (use iU(2) p(6) in \<open>auto simp: ignores_def no_fail_def staged_def\<close>)
  have a8: "spec A (\<lambda>f. ?U f \<and> staged L t cfgs f) (sync_file ?m) (\<lambda>b f. if b then ?U f \<and> staged L t cfgs f else ?N f) ?U"
    unfolding sync_file_def
    by (rule spec_syscall) (auto simp: no_fail_def staged_def)
  have yes: "spec A (\<lambda>f. ?U f \<and> staged L t cfgs f) (sreturn True) ?Q ?U" by (rule spec_return) simp
  show ?thesis
    unfolding stage_files_def Let_def
    by (rule spec_then [OF a1], rule spec_then [OF a2(1)], rule spec_then [OF a2(2)],
        rule spec_guard [OF a3 no], rule spec_guard [OF a4 no], rule spec_guard [OF a5 ds],
        rule spec_guard [OF a6 ds], rule spec_guard [OF a7 db], rule spec_guard [OF a8 db yes])
qed

subsection \<open>Installing, committing and rolling back\<close>

definition with_flags :: "save_transaction_t \<Rightarrow> fnode option \<Rightarrow> fnode option \<Rightarrow> save_transaction_t" where
  "with_flags t c0 e0 = t\<lparr>t_had_cfg := c0 \<noteq> None, t_had_env := e0 \<noteq> None\<rparr>"

lemma with_flags_sel [simp]:
  "t_cfg_path (with_flags t c0 e0) = t_cfg_path t" "t_cfg_temp (with_flags t c0 e0) = t_cfg_temp t"
  "t_cfg_backup (with_flags t c0 e0) = t_cfg_backup t" "t_env_path (with_flags t c0 e0) = t_env_path t"
  "t_env_stage (with_flags t c0 e0) = t_env_stage t" "t_env_backup (with_flags t c0 e0) = t_env_backup t"
  "t_had_cfg (with_flags t c0 e0) = (c0 \<noteq> None)" "t_had_env (with_flags t c0 e0) = (e0 \<noteq> None)"
  "(with_flags t c0 e0)\<lparr>t_state := st\<rparr> = logged_as t st c0 e0"
  by (simp_all add: with_flags_def logged_as_def)

text \<open>The journal's state and what lies at the four paths of the old and new objects.\<close>

definition phase ::
  "yaml_lib \<Rightarrow> save_transaction_t \<Rightarrow> fnode option \<Rightarrow> fnode option \<Rightarrow> string \<Rightarrow>
     fnode option \<Rightarrow> fnode option \<Rightarrow> fnode option \<Rightarrow> fnode option \<Rightarrow> fs \<Rightarrow> bool" where
  "phase L t c0 e0 st cfg cfgb env envb f \<longleftrightarrow>
     f (journal_path (t_cfg_path t)) = Some (File (journal_text L (logged_as t st c0 e0))) \<and>
     f (t_cfg_path t) = cfg \<and> f (t_cfg_backup t) = cfgb \<and> f (t_env_path t) = env \<and> f (t_env_backup t) = envb \<and>
     not_dir (f (journal_path (t_cfg_path t) @ ''.tmp''))"

lemma phase_recoverable:
  assumes "phase L t c0 e0 st cfg cfgb env envb f" "st = ''prepared'' \<or> st = ''old_moved''"
    "rollable c0 cfgb cfg" "not_dir cfg" "rollable e0 envb env" "not_file env"
  shows "recoverable L t c0 e0 new f"
proof -
  have "journal_in L t c0 e0 [''prepared'', ''old_moved''] f"
    unfolding journal_in_def
  proof (rule bexI)
    show "f (journal_path (t_cfg_path t)) = Some (File (journal_text L (logged_as t st c0 e0)))"
      using assms(1) unfolding phase_def by (rule conjunct1)
    show "st \<in> set [''prepared'', ''old_moved'']" using assms(2) by simp
  qed
  moreover have "undoable t c0 e0 f" using assms(1,3-6) unfolding phase_def undoable_def by blast
  ultimately show ?thesis unfolding recoverable_def by blast
qed

lemma phase_upd:
  assumes "distinct (paths_of t)" "p = t_cfg_temp t \<or> p = t_env_stage t"
  shows "phase L t c0 e0 st cfg cfgb env envb (f(p := v)) = phase L t c0 e0 st cfg cfgb env envb f"
  using assms(2) paths_distinctD [OF assms(1)] paths_tmpD [OF assms(1) refl]
  unfolding phase_def by (elim disjE) simp_all

text \<open>What every exit of the saving code satisfies.\<close>

definition save_post ::
  "yaml_lib \<Rightarrow> save_transaction_t \<Rightarrow> fnode option \<Rightarrow> fnode option \<Rightarrow> fnode option \<times> fnode option \<Rightarrow> outcome set \<Rightarrow>
     int \<Rightarrow> fs \<Rightarrow> bool" where
  "save_post L t c0 e0 new A r f \<longleftrightarrow>
     recoverable L t c0 e0 new f \<and> (r = 0 \<longrightarrow> committed L t c0 e0 new f) \<and> (no_fail A \<longrightarrow> r = 0 \<and> no_journal t f)"

lemma spec_exit:
  "spec A (\<lambda>f. recoverable L t c0 e0 new f \<and> \<not> no_fail A) (sreturn (-1)) (save_post L t c0 e0 new A)
     (recoverable L t c0 e0 new)"
  by (rule spec_return) (simp add: save_post_def)

lemma spec_drop_staged:
  assumes d: "distinct (paths_of t)"
  shows "spec A (\<lambda>f. recoverable L t c0 e0 new f \<and> \<not> no_fail A) (drop_staged (with_flags t c0 e0))
    (save_post L t c0 e0 new A) (recoverable L t c0 e0 new)"
proof -
  let ?I = "\<lambda>f. recoverable L t c0 e0 new f \<and> \<not> no_fail A"
  have ign: "ignores ?I (t_cfg_temp t)" "ignores ?I (t_env_stage t)"
    using paths_distinctD [OF d] by (simp_all add: ignores_def recoverable_upd_other)
  have 1: "spec A ?I (unlink (t_cfg_temp t)) (\<lambda>_. ?I) (recoverable L t c0 e0 new)"
    by (rule spec_conseq [OF spec_ignored(1) [OF ign(1)]]) auto
  have 2: "spec A ?I (remove_flat_directory (t_env_stage t)) (\<lambda>_. ?I) (recoverable L t c0 e0 new)"
    by (rule spec_conseq [OF spec_remove_flat_ignored [OF ign(2)]]) auto
  show ?thesis unfolding drop_staged_def with_flags_sel by (rule spec_then [OF 1 spec_then [OF 2 spec_exit]])
qed

text \<open>Moving an object that exists to a free place.\<close>

lemma spec_move:
  assumes "\<And>f. P f \<Longrightarrow> f a = v \<and> f b = None" "\<And>f. P f \<Longrightarrow> C f"
    "\<And>f. P f \<Longrightarrow> v \<noteq> None \<Longrightarrow> Y (f(a := None, b := v))" "\<And>f. P f \<Longrightarrow> v = None \<Longrightarrow> Y f"
    "\<And>f. P f \<Longrightarrow> \<not> no_fail A \<Longrightarrow> N f"
  shows "spec A P (rename_if (v \<noteq> None) a b) (\<lambda>ok f. if ok then Y f else N f) C"
proof (cases "v = None")
  case True
  then show ?thesis unfolding rename_if_def using assms by (auto intro!: spec_return)
next
  case False
  have "spec A P (rename a b) (\<lambda>ok f. if ok then Y f else N f) C"
    unfolding rename_def
  proof (rule spec_syscall, goal_cases)
    case (1 f)
    have e: "f a = v" "f b = None" using assms(1) [OF 1] by auto
    with False assms(3) [OF 1] show ?case by (auto simp: can_replace_def)
  next
    case (2 f n)
    then have "\<not> no_fail A" by (auto simp: no_fail_def)
    with 2 assms(5) show ?case by simp
  qed (use assms(2) in simp)
  with False show ?thesis by (simp add: rename_if_def)
qed

lemma spec_write_state:
  assumes d: "distinct (paths_of t)"
    and R: "\<And>s f. s = st \<or> s = st' \<Longrightarrow> phase L t c0 e0 s cfg cfgb env envb f \<Longrightarrow> recoverable L t c0 e0 new f"
    and X: "ignores X (journal_path (t_cfg_path t))" "ignores X (journal_path (t_cfg_path t) @ ''.tmp'')"
  shows "spec A (\<lambda>f. phase L t c0 e0 st cfg cfgb env envb f \<and> X f)
    (write_state L (journal_path (t_cfg_path t)) (with_flags t c0 e0) st')
    (\<lambda>ok f. if ok then phase L t c0 e0 st' cfg cfgb env envb f \<and> X f else recoverable L t c0 e0 new f \<and> \<not> no_fail A)
    (recoverable L t c0 e0 new)"
proof -
  let ?j = "journal_path (t_cfg_path t)"
  let ?J = "\<lambda>s. Some (File (journal_text L (logged_as t s c0 e0)))"
  let ?I = "\<lambda>f. f (t_cfg_path t) = cfg \<and> f (t_cfg_backup t) = cfgb \<and> f (t_env_path t) = env \<and> f (t_env_backup t) = envb \<and> X f"
  note p = paths_distinctD [OF d] and q = paths_tmpD [OF d refl]
  have ign: "ignores ?I ?j" "ignores ?I (?j @ ''.tmp'')"
    using p p [symmetric] q q [symmetric] X by (simp_all add: ignores_def)
  have C: "recoverable L t c0 e0 new f" if "?I f" "f ?j = ?J st \<or> f ?j = ?J st'" for f
  proof -
    let ?g = "f(?j @ ''.tmp'' := None)"
    have "phase L t c0 e0 st cfg cfgb env envb ?g \<or> phase L t c0 e0 st' cfg cfgb env envb ?g"
      using that q by (auto simp: phase_def not_dir_def)
    then have "recoverable L t c0 e0 new ?g" using R by blast
    then show ?thesis using q by (simp add: recoverable_upd_other)
  qed
  show ?thesis unfolding write_state_def with_flags_sel
    by (rule spec_conseq [OF spec_write_journal [OF ign C, where v = "?J st"]])
       (auto simp: phase_def not_dir_def intro: C split: if_splits)
qed

lemma spec_commit_save:
  assumes g: "good_transaction t c0 e0" and new: "not_dir (fst new)" "not_file (snd new)"
  shows "spec A (phase L t c0 e0 ''old_moved'' (fst new) c0 (snd new) e0)
    (commit_save L (journal_path (t_cfg_path t)) (with_flags t c0 e0))
    (save_post L t c0 e0 new A) (recoverable L t c0 e0 new)"
proof -
  note d = g [unfolded good_transaction_def, THEN conjunct1]
  note p = paths_distinctD [OF d] and q = paths_tmpD [OF d refl]
  let ?j = "journal_path (t_cfg_path t)" and ?C = "recoverable L t c0 e0 new"
  let ?P = "phase L t c0 e0 ''old_moved'' (fst new) c0 (snd new) e0"
  let ?R = "\<lambda>f. journal_in L t c0 e0 [''new_installed''] f \<and> holds t new f \<and> not_dir (f ?j)"
  have roll: "rollable c0 c0 (fst new)" "rollable e0 e0 (snd new)" by (simp_all add: rollable_def)
  have PC: "?C f" if "?P f" for f
    by (rule phase_recoverable [OF that]) (use roll new in simp_all)
  have P2: "?R f" if "phase L t c0 e0 ''new_installed'' (fst new) c0 (snd new) e0 f" for f
    using that by (simp add: phase_def journal_in_def holds_def not_dir_def)
  have RC: "?C f" if "?R f" for f using that by (simp add: recoverable_def)
  have s1: "spec A ?P (sync_transaction_directories (with_flags t c0 e0)) (\<lambda>b f. if b then ?P f else ?C f \<and> \<not> no_fail A) ?C"
    by (rule spec_conseq [OF spec_sync_dirs [where P = ?P and C = ?C]]) (auto intro: PC)
  have s2: "spec A ?P (write_state L ?j (with_flags t c0 e0) ''new_installed'')
    (\<lambda>b f. if b then ?R f else ?C f \<and> \<not> no_fail A) ?C"
  proof (rule spec_conseq [OF spec_write_state [OF d, where X = "\<lambda>_. True" and st = "''old_moved''"
          and cfg = "fst new" and cfgb = c0 and env = "snd new" and envb = e0 and new = new]], goal_cases)
    case (1 s f)
    then show ?case using PC P2 RC by blast
  qed (auto simp: ignores_def P2 split: if_splits)
  have ign: "ignores ?R (t_cfg_backup t)" "ignores ?R (t_env_backup t)"
    using p p [symmetric] by (simp_all add: ignores_def upd_other)
  have s3: "spec A ?R (unlink (t_cfg_backup t)) (\<lambda>_. ?R) ?C"
    by (rule spec_conseq [OF spec_ignored(1) [OF ign(1)]]) (auto intro: RC)
  have s4: "spec A ?R (remove_flat_directory (t_env_backup t)) (\<lambda>_. ?R) ?C"
    by (rule spec_conseq [OF spec_remove_flat_ignored [OF ign(2)]]) (auto intro: RC)
  have s5: "spec A ?R (sync_transaction_directories (with_flags t c0 e0)) (\<lambda>b f. if b then ?R f else ?C f \<and> \<not> no_fail A) ?C"
    by (rule spec_conseq [OF spec_sync_dirs [where P = ?R and C = ?C]]) (auto intro: RC)
  let ?E = "\<lambda>f. committed L t c0 e0 new f \<and> (no_fail A \<longrightarrow> no_journal t f)"
  have s6: "spec A ?R (unlink ?j) (\<lambda>_. ?E) ?C"
    unfolding unlink_def
  proof (rule spec_syscall, goal_cases)
    case (1 f)
    have "?E (f(?j := None))" using 1 p by (simp add: committed_def no_journal_def upd_other)
    moreover have "committed L t c0 e0 new f" "not_dir (f ?j)" using 1 by (simp_all add: committed_def)
    ultimately show ?case by (auto simp: not_dir_def no_journal_def split: option.splits fnode.splits)
  qed (auto simp: no_fail_def committed_def intro: RC)
  have s7: "spec A ?E (sync_directory x) (\<lambda>_. ?E) ?C" for x
    by (rule spec_conseq [OF spec_sync(1) [where I = ?E]]) (auto intro: committed_recoverable)
  have s8: "spec A ?E (sreturn 0) (save_post L t c0 e0 new A) ?C"
    by (rule spec_return) (simp add: save_post_def committed_recoverable)
  show ?thesis unfolding commit_save_def with_flags_sel
    by (rule spec_guard [OF s1 spec_exit], rule spec_guard [OF s2 spec_exit], rule spec_then [OF s3],
        rule spec_then [OF s4], rule spec_guard [OF s5 spec_exit], rule spec_then [OF s6], rule spec_then [OF s7 s8])
qed

lemma spec_roll_back:
  assumes g: "good_transaction t c0 e0"
  shows "spec A (\<lambda>f. journal_in L t c0 e0 [''old_moved''] f \<and> f (t_cfg_backup t) = c0 \<and> f (t_env_backup t) = e0 \<and>
      not_dir (f (t_cfg_path t)) \<and> not_file (f (t_env_path t)) \<and> \<not> no_fail A)
    (roll_back (with_flags t c0 e0)) (save_post L t c0 e0 new A) (recoverable L t c0 e0 new)"
proof -
  note d = g [unfolded good_transaction_def, THEN conjunct1]
  note p = paths_distinctD [OF d]
  let ?C = "recoverable L t c0 e0 new" and ?J = "journal_in L t c0 e0 [''old_moved'']"
  let ?B = "\<lambda>f. ?J f \<and> f (t_cfg_backup t) = c0 \<and> f (t_env_backup t) = e0 \<and> \<not> no_fail A"
  have uC: "?C f" if "?J f" "undoable t c0 e0 f" for f
    using that unfolding recoverable_def journal_in_def by auto
  have BC: "?C f" if "?B f" "not_dir (f (t_cfg_path t))" "not_file (f (t_env_path t))" for f
    using that by (intro uC) (auto simp: undoable_def rollable_def)
  have ign: "ignores (\<lambda>f. ?B f \<and> not_file (f (t_env_path t))) (t_cfg_path t)"
      "ignores (\<lambda>f. ?B f \<and> not_dir (f (t_cfg_path t))) (t_env_path t)"
    using p p [symmetric] by (simp_all add: ignores_def upd_other)
  let ?P = "\<lambda>f. ?B f \<and> not_dir (f (t_cfg_path t)) \<and> not_file (f (t_env_path t))"
  have r1: "spec A ?P (unlink (t_cfg_path t)) (\<lambda>_. ?P) ?C"
    by (rule spec_conseq [OF spec_unlink [OF ign(1)]]) (use BC in blast)+
  have r2: "spec A ?P (remove_flat_directory (t_env_path t)) (\<lambda>_. ?P) ?C"
    by (rule spec_conseq [OF spec_remove_flat [OF ign(2)]]) (use BC in blast)+
  let ?U = "\<lambda>f. ?J f \<and> undoable t c0 e0 f \<and> \<not> no_fail A"
  let ?V = "\<lambda>f. ?U f \<and> f (t_env_backup t) = e0"
  have c0: "not_dir c0" "not_file e0" using g by (simp_all add: good_transaction_def)
  have r3: "spec A ?P (rename_if (c0 \<noteq> None) (t_cfg_backup t) (t_cfg_path t)) (\<lambda>_. ?V) ?C"
  proof -
    have V: "?V f" if "?P f" for f using that by (auto simp: undoable_def rollable_def)
    have V2: "?V (f(t_cfg_backup t := None, t_cfg_path t := Some n))" if "?P f" "f (t_cfg_backup t) = Some n" for f n
      using that p p [symmetric] c0 by (auto simp: upd_other undoable_def rollable_def)
    show ?thesis
    proof (cases "c0 = None")
      case True
      show ?thesis unfolding rename_if_def using True V by (auto intro!: spec_return)
    next
      case False
      have "spec A ?P (rename (t_cfg_backup t) (t_cfg_path t)) (\<lambda>_. ?V) ?C"
        by (rule spec_rename) (use V V2 BC in blast)+
      with False show ?thesis by (simp add: rename_if_def)
    qed
  qed
  have r4: "spec A ?V (rename_if (e0 \<noteq> None) (t_env_backup t) (t_env_path t)) (\<lambda>_ f. ?C f \<and> \<not> no_fail A) ?C"
  proof -
    have V: "?C f \<and> \<not> no_fail A" if "?V f" for f using that uC by blast
    have V2: "?C (f(t_env_backup t := None, t_env_path t := Some n)) \<and> \<not> no_fail A"
      if "?V f" "f (t_env_backup t) = Some n" for f n
    proof -
      have "undoable t c0 e0 (f(t_env_backup t := None, t_env_path t := Some n))"
        using that p p [symmetric] c0 by (auto simp: undoable_def rollable_def)
      moreover have "?J (f(t_env_backup t := None, t_env_path t := Some n))" using that p by (simp add: upd_other)
      ultimately show ?thesis using that uC by blast
    qed
    show ?thesis
    proof (cases "e0 = None")
      case True
      show ?thesis unfolding rename_if_def using True V by (auto intro!: spec_return)
    next
      case False
      have "spec A ?V (rename (t_env_backup t) (t_env_path t)) (\<lambda>_ f. ?C f \<and> \<not> no_fail A) ?C"
        by (rule spec_rename) (use V V2 in blast)+
      with False show ?thesis by (simp add: rename_if_def)
    qed
  qed
  show ?thesis unfolding roll_back_def with_flags_sel
    by (rule spec_pre [OF _ spec_then [OF r1 spec_then [OF r2 spec_then [OF r3 spec_then [OF r4 spec_drop_staged [OF d]]]]]]) blast
qed

lemma spec_install_new:
  assumes g: "good_transaction t c0 e0"
  shows "spec A (\<lambda>f. phase L t c0 e0 ''prepared'' None c0 None e0 f \<and> staged L t cfgs f)
    (install_new L (journal_path (t_cfg_path t)) (with_flags t c0 e0))
    (save_post L t c0 e0 (installed L cfgs) A) (recoverable L t c0 e0 (installed L cfgs))"
proof -
  note d = g [unfolded good_transaction_def, THEN conjunct1]
  note p = paths_distinctD [OF d] and q = paths_tmpD [OF d refl]
  let ?j = "journal_path (t_cfg_path t)" and ?new = "installed L cfgs"
  let ?C = "recoverable L t c0 e0 ?new"
  let ?S = "staged L t cfgs"
  have nk: "not_dir (fst ?new)" "not_file (snd ?new)" by (simp_all add: installed_def not_dir_def not_file_def)
  have roll: "rollable c0 c0 v" "rollable e0 e0 v" for v by (simp_all add: rollable_def)
  have PC: "?C f" if "phase L t c0 e0 st v c0 v' e0 f" "st = ''prepared'' \<or> st = ''old_moved''"
    "not_dir v" "not_file v'" for st v v' f
    by (rule phase_recoverable [OF that(1,2)]) (use roll that in simp_all)
  have none: "not_dir None" "not_file None" by (simp_all add: not_dir_def not_file_def)
  let ?P = "\<lambda>f. phase L t c0 e0 ''prepared'' None c0 None e0 f \<and> ?S f"
  let ?Q = "\<lambda>f. phase L t c0 e0 ''old_moved'' None c0 None e0 f \<and> ?S f"
  have s1: "spec A ?P (sync_transaction_directories (with_flags t c0 e0)) (\<lambda>b f. if b then ?P f else ?C f \<and> \<not> no_fail A) ?C"
    by (rule spec_conseq [OF spec_sync_dirs [where P = ?P and C = ?C]]) (auto intro: PC none)
  have ign: "ignores ?S ?j" "ignores ?S (?j @ ''.tmp'')"
    using p p [symmetric] q by (simp_all add: ignores_def staged_def)
  have s2: "spec A ?P (write_state L ?j (with_flags t c0 e0) ''old_moved'') (\<lambda>b f. if b then ?Q f else ?C f \<and> \<not> no_fail A) ?C"
    by (rule spec_write_state [OF d _ ign]) (use PC none in blast)
  let ?K = "\<lambda>f. journal_in L t c0 e0 [''old_moved''] f \<and> f (t_cfg_backup t) = c0 \<and> f (t_env_backup t) = e0 \<and>
      not_dir (f (t_cfg_path t)) \<and> not_file (f (t_env_path t)) \<and> \<not> no_fail A"
  have QK: "?K f" if "phase L t c0 e0 ''old_moved'' v c0 None e0 f" "not_dir v" "\<not> no_fail A" for f v
    using that none by (simp add: phase_def journal_in_def)
  let ?M = "\<lambda>f. phase L t c0 e0 ''old_moved'' (fst ?new) c0 None e0 f \<and> f (t_env_stage t) = snd ?new"
  have s3: "spec A ?Q (rename (t_cfg_temp t) (t_cfg_path t)) (\<lambda>b f. if b then ?M f else ?K f) ?C"
  proof -
    have M: "?M (f(t_cfg_temp t := None, t_cfg_path t := fst ?new))" if "?Q f" for f
      using that p p [symmetric] q by (simp add: phase_def staged_def installed_def)
    have "spec A ?Q (rename_if (fst ?new \<noteq> None) (t_cfg_temp t) (t_cfg_path t)) (\<lambda>b f. if b then ?M f else ?K f) ?C"
    proof (rule spec_move, goal_cases)
      case (1 f)
      then show ?case by (simp add: phase_def staged_def installed_def)
    next
      case (2 f)
      then show ?case using PC none by blast
    next
      case (3 f)
      then show ?case using M by blast
    next
      case (4 f)
      then show ?case by (simp add: installed_def)
    next
      case (5 f)
      then show ?case using QK none by blast
    qed
    then show ?thesis by (simp add: rename_if_def installed_def)
  qed
  let ?F = "phase L t c0 e0 ''old_moved'' (fst ?new) c0 (snd ?new) e0"
  have s4: "spec A ?M (rename (t_env_stage t) (t_env_path t)) (\<lambda>b f. if b then ?F f else ?K f) ?C"
  proof -
    have F: "?F (f(t_env_stage t := None, t_env_path t := snd ?new))" if "?M f" for f
      using that p p [symmetric] q by (simp add: phase_def)
    have "spec A ?M (rename_if (snd ?new \<noteq> None) (t_env_stage t) (t_env_path t)) (\<lambda>b f. if b then ?F f else ?K f) ?C"
    proof (rule spec_move, goal_cases)
      case (1 f)
      then show ?case by (simp add: phase_def)
    next
      case (2 f)
      then show ?case using PC none nk by blast
    next
      case (3 f)
      then show ?case using F by blast
    next
      case (4 f)
      then show ?case by (simp add: installed_def)
    next
      case (5 f)
      then show ?case using QK nk by blast
    qed
    then show ?thesis by (simp add: rename_if_def installed_def)
  qed
  have s5: "spec A (\<lambda>f. if b then ?M f else ?K f)
     (if b then rename (t_env_stage t) (t_env_path t) else sreturn False) (\<lambda>b f. if b then ?F f else ?K f) ?C" for b
  proof (cases b)
    case True
    with s4 show ?thesis by simp
  next
    case False
    have "spec A ?K (sreturn False) (\<lambda>b f. if b then ?F f else ?K f) ?C" by (rule spec_return) simp
    with False show ?thesis by simp
  qed
  show ?thesis unfolding install_new_def with_flags_sel
    by (rule spec_guard [OF s1 spec_exit], rule spec_guard [OF s2 spec_exit], rule spec_bind [OF s3],
        rule spec_guard [OF s5 spec_roll_back [OF g] spec_commit_save [OF g nk]])
qed

lemma spec_swap_files:
  assumes g: "good_transaction t c0 e0"
  shows "spec A (\<lambda>f. untouched t c0 e0 f \<and> staged L t cfgs f)
    (swap_files L (journal_path (t_cfg_path t)) t)
    (save_post L t c0 e0 (installed L cfgs) A) (recoverable L t c0 e0 (installed L cfgs))"
proof -
  note d = g [unfolded good_transaction_def, THEN conjunct1]
  note p = paths_distinctD [OF d] and q = paths_tmpD [OF d refl]
  let ?j = "journal_path (t_cfg_path t)" and ?new = "installed L cfgs"
  let ?C = "recoverable L t c0 e0 ?new"
  let ?S = "staged L t cfgs"
  have kinds: "not_dir c0" "not_file e0" "not_dir None" "not_file None"
    using g by (simp_all add: good_transaction_def not_dir_def not_file_def)
  have roll: "rollable v v v'" "rollable v None v" for v v' by (simp_all add: rollable_def)
  let ?P = "\<lambda>f. untouched t c0 e0 f \<and> ?S f"
  let ?P1 = "\<lambda>f. phase L t c0 e0 ''prepared'' c0 None e0 None f \<and> ?S f"
  let ?P2 = "\<lambda>f. phase L t c0 e0 ''prepared'' None c0 e0 None f \<and> ?S f"
  let ?P3 = "\<lambda>f. phase L t c0 e0 ''prepared'' None c0 None e0 f \<and> ?S f"
  have PC1: "?C f" if "phase L t c0 e0 ''prepared'' c0 None e0 None f" for f
    by (rule phase_recoverable [OF that]) (simp_all add: kinds roll)
  have PC2: "?C f" if "phase L t c0 e0 ''prepared'' None c0 e0 None f" for f
    by (rule phase_recoverable [OF that]) (simp_all add: kinds roll)
  have PC3: "?C f" if "phase L t c0 e0 ''prepared'' None c0 None e0 f" for f
    by (rule phase_recoverable [OF that]) (simp_all add: kinds roll)
  let ?I = "\<lambda>f. holds t (c0, e0) f \<and> f (t_cfg_backup t) = None \<and> f (t_env_backup t) = None \<and> ?S f"
  have ign: "ignores ?I ?j" "ignores ?I (?j @ ''.tmp'')"
    using p p [symmetric] q by (simp_all add: ignores_def staged_def upd_other)
  have IC: "?C f" if "?I f" "f ?j = None \<or> f ?j = Some (File (journal_text L (logged_as t ''prepared'' c0 e0)))" for f
    using that(2)
  proof
    assume "f ?j = None"
    with that(1) show ?thesis unfolding recoverable_def no_journal_def by blast
  next
    assume j: "f ?j = Some (File (journal_text L (logged_as t ''prepared'' c0 e0)))"
    have "phase L t c0 e0 ''prepared'' c0 None e0 None (f(?j @ ''.tmp'' := None))"
      using that(1) j q kinds by (simp add: phase_def holds_def)
    from PC1 [OF this] show ?thesis using q by (simp add: recoverable_upd_other)
  qed
  have s1: "spec A ?P (write_state L ?j (with_flags t c0 e0) ''prepared'')
    (\<lambda>b f. if b then ?P1 f else ?C f \<and> \<not> no_fail A) ?C"
    unfolding write_state_def with_flags_sel
  proof (rule spec_conseq [OF spec_write_journal [OF ign, where v = None and C = ?C]], goal_cases)
    case (1 f)
    then show ?case by (rule IC)
  next
    case (4 b f)
    then show ?case using IC by (cases b) (auto simp: phase_def holds_def)
  qed (auto simp: untouched_def no_journal_def kinds)
  have s2: "spec A ?P1 (rename_if (c0 \<noteq> None) (t_cfg_path t) (t_cfg_backup t))
    (\<lambda>b f. if b then ?P2 f else ?C f \<and> \<not> no_fail A) ?C"
    by (rule spec_move) (use PC1 p p [symmetric] q in \<open>auto simp: phase_def staged_def\<close>)
  have s3: "spec A ?P2 (rename_if (e0 \<noteq> None) (t_env_path t) (t_env_backup t))
    (\<lambda>b f. if b then ?P3 f else phase L t c0 e0 ''prepared'' None c0 e0 None f \<and> \<not> no_fail A) ?C"
    by (rule spec_move) (use PC2 p p [symmetric] q in \<open>auto simp: phase_def staged_def\<close>)
  have s4: "spec A (\<lambda>f. phase L t c0 e0 ''prepared'' None c0 e0 None f \<and> \<not> no_fail A)
    (sthen (rename_if (c0 \<noteq> None) (t_cfg_backup t) (t_cfg_path t)) (drop_staged (with_flags t c0 e0)))
    (save_post L t c0 e0 ?new A) ?C"
  proof (rule spec_then [OF _ spec_drop_staged [OF d]])
    have P: "phase L t c0 e0 ''prepared'' c0 None e0 None (f(t_cfg_backup t := None, t_cfg_path t := c0))"
      if "phase L t c0 e0 ''prepared'' None c0 e0 None f" for f
      using that p p [symmetric] q by (simp add: phase_def)
    have "spec A (\<lambda>f. phase L t c0 e0 ''prepared'' None c0 e0 None f \<and> \<not> no_fail A)
      (rename_if (c0 \<noteq> None) (t_cfg_backup t) (t_cfg_path t))
      (\<lambda>b f. if b then ?C f \<and> \<not> no_fail A else ?C f \<and> \<not> no_fail A) ?C"
      by (rule spec_move) (use PC1 PC2 P in \<open>auto simp: phase_def\<close>)
    then show "spec A (\<lambda>f. phase L t c0 e0 ''prepared'' None c0 e0 None f \<and> \<not> no_fail A)
      (rename_if (c0 \<noteq> None) (t_cfg_backup t) (t_cfg_path t)) (\<lambda>_ f. ?C f \<and> \<not> no_fail A) ?C" by simp
  qed
  have body: "spec A ?P
     (sbind (write_state L ?j (with_flags t c0 e0) ''prepared'') (\<lambda>logged.
     if \<not> logged then sreturn (-1)
     else sbind (rename_if (c0 \<noteq> None) (t_cfg_path t) (t_cfg_backup t)) (\<lambda>cfg_moved.
     if \<not> cfg_moved then drop_staged (with_flags t c0 e0)
     else sbind (rename_if (e0 \<noteq> None) (t_env_path t) (t_env_backup t)) (\<lambda>env_moved.
     if \<not> env_moved
     then sthen (rename_if (c0 \<noteq> None) (t_cfg_backup t) (t_cfg_path t)) (drop_staged (with_flags t c0 e0))
     else install_new L ?j (with_flags t c0 e0))))) (save_post L t c0 e0 ?new A) ?C"
    by (rule spec_guard [OF s1 spec_exit], rule spec_guard [OF s2 spec_drop_staged [OF d]],
        rule spec_guard [OF s3 s4 spec_install_new [OF g]])
  show ?thesis unfolding swap_files_def Let_def
  proof (rule spec_path_exists, rule spec_path_exists, goal_cases)
    case (1 x y)
    show ?case
    proof (cases "x = (c0 \<noteq> None) \<and> y = (e0 \<noteq> None)")
      case True
      then have x: "x = (c0 \<noteq> None)" "y = (e0 \<noteq> None)" by auto
      have w: "t\<lparr>t_had_cfg := c0 \<noteq> None, t_had_env := e0 \<noteq> None\<rparr> = with_flags t c0 e0" by (simp add: with_flags_def)
      show ?thesis unfolding x w with_flags_sel by (rule spec_pre [OF _ body]) blast
    next
      case False
      then show ?thesis by (auto simp: spec_def untouched_def holds_def)
    qed
  qed
qed

subsection \<open>The whole save\<close>

text \<open>
  The file system a save starts from: no interrupted transaction, nothing at the paths of this
  transaction, a file or nothing at the configuration path and a directory or nothing at the environment
  path, and no two of the paths equal.
\<close>

definition save_ready :: "save_transaction_t \<Rightarrow> fs \<Rightarrow> bool" where
  "save_ready t f \<longleftrightarrow> distinct (paths_of t) \<and> no_journal t f \<and>
     f (t_cfg_temp t) = None \<and> f (t_env_stage t) = None \<and> f (t_cfg_backup t) = None \<and> f (t_env_backup t) = None \<and>
     not_dir (f (t_cfg_path t)) \<and> not_file (f (t_env_path t)) \<and>
     not_dir (f (journal_path (t_cfg_path t) @ ''.tmp''))"

definition save_transaction_of :: "int \<Rightarrow> int \<Rightarrow> string \<Rightarrow> string \<Rightarrow> save_transaction_t" where
  "save_transaction_of pid now cfg_path env_dir = new_transaction cfg_path env_dir (transaction_suffix pid now)"

lemma save_transaction_of_sel [simp]:
  "t_cfg_path (save_transaction_of pid now c e) = c" "t_env_path (save_transaction_of pid now c e) = e"
  by (simp_all add: save_transaction_of_def new_transaction_def)

lemma save_ready_good:
  assumes "save_ready (save_transaction_of pid now c e) f"
  shows "good_transaction (save_transaction_of pid now c e) (f c) (f e)"
  using assms
  by (simp add: save_ready_def good_transaction_def valid_save_transaction_def save_transaction_of_def
      new_transaction_def transaction_suffix_def starts_with_def)

lemma spec_save:
  assumes t: "t = save_transaction_of pid now c e" and r: "save_ready t f0"
  shows "spec A (\<lambda>f. f = f0) (save_prog_cfg L pid now cfgs c e)
    (save_post L t (f0 c) (f0 e) (installed L cfgs) A) (recoverable L t (f0 c) (f0 e) (installed L cfgs))"
proof -
  note g = save_ready_good [OF r [unfolded t], folded t]
  note d = g [unfolded good_transaction_def, THEN conjunct1]
  have sel: "t_cfg_path t = c" "t_env_path t = e" by (simp_all add: t)
  let ?new = "installed L cfgs" and ?C = "recoverable L t (f0 c) (f0 e) (installed L cfgs)"
  let ?U = "untouched t (f0 c) (f0 e)"
  have UC: "?C f" if "?U f" for f using that by (auto simp: untouched_def recoverable_def)
  have U: "?U f0" "not_file (f0 (t_env_stage t))" "not_dir (f0 (t_cfg_temp t))"
    using r by (simp_all add: save_ready_def untouched_def holds_def sel not_dir_def not_file_def)
  have no: "f0 (journal_path c) = None" using r by (simp add: save_ready_def no_journal_def sel)
  have s1: "spec A (\<lambda>f. f = f0) (recover_prog_cfg_save L c e) (\<lambda>r f. f = f0 \<and> r = None) ?C"
    unfolding recover_prog_cfg_save_def Let_def
    by (rule spec_get) (auto simp: no intro!: spec_return)
  have s2: "spec A (\<lambda>f. f = f0) (stage_files L t cfgs)
    (\<lambda>ok f. if ok then ?U f \<and> staged L t cfgs f else ?C f \<and> \<not> no_fail A) ?C"
    by (rule spec_conseq [OF spec_stage_files [OF d]]) (use U UC in \<open>auto split: if_splits\<close>)
  have s3: "spec A (\<lambda>f. ?U f \<and> staged L t cfgs f) (swap_files L (journal_path c) t)
    (save_post L t (f0 c) (f0 e) ?new A) ?C"
    using spec_swap_files [OF g, of A L cfgs] by (simp add: sel)
  show ?thesis
    unfolding save_prog_cfg_def Let_def
  proof (rule spec_bind [OF s1])
    fix x
    have body: "spec A (\<lambda>f. f = f0) (sbind (stage_files L t cfgs) (\<lambda>staged.
        if \<not> staged then sreturn (-1) else swap_files L (journal_path c) t))
        (save_post L t (f0 c) (f0 e) ?new A) ?C"
      by (rule spec_guard [OF s2 spec_exit s3])
    show "spec A (\<lambda>f. f = f0 \<and> x = None)
      (if x \<noteq> None then sreturn (-1)
       else sbind (stage_files L (new_transaction c e (transaction_suffix pid now)) cfgs) (\<lambda>staged.
         if \<not> staged then sreturn (-1)
         else swap_files L (journal_path c) (new_transaction c e (transaction_suffix pid now))))
      (save_post L t (f0 c) (f0 e) ?new A) ?C"
    proof (cases x)
      case None
      have tt: "new_transaction c e (transaction_suffix pid now) = t" by (simp add: t save_transaction_of_def)
      show ?thesis unfolding tt using None body by simp
    next
      case (Some z)
      then show ?thesis by (simp add: spec_def)
    qed
  qed
qed

text \<open>The file system after a sequence of recovery attempts, each with its own script.\<close>

fun recoveries :: "yaml_lib \<Rightarrow> string \<Rightarrow> string \<Rightarrow> outcome list list \<Rightarrow> fs \<Rightarrow> fs" where
  "recoveries L c e [] f = f"
| "recoveries L c e (s # ss) f =
     recoveries L c e ss (w_fs (snd (recover_prog_cfg_save L c e \<lparr>w_fs = f, w_script = s\<rparr>)))"

definition calm :: "outcome list \<Rightarrow> bool" where
  "calm s \<longleftrightarrow> list_all (\<lambda>x. case x of Fails n \<Rightarrow> False | _ \<Rightarrow> True) s"

lemma no_fail_calm: "no_fail (set s) \<longleftrightarrow> calm s"
  by (auto simp: no_fail_def calm_def list_all_iff split: outcome.splits)

definition may :: "bool \<Rightarrow> outcome set" where
  "may fail = (if fail then UNIV else {x. \<forall>n. x \<noteq> Fails n})"

lemma set_may: "fail \<or> calm s \<Longrightarrow> set s \<subseteq> may fail"
  by (auto simp: may_def calm_def list_all_iff)

lemma no_fail_may: "fail \<or> no_fail (may fail)"
  by (simp add: no_fail_def may_def)

lemma recoveries_keep:
  assumes "spec A I (recover_prog_cfg_save L c e) (\<lambda>_. I) I" "I f" "list_all (\<lambda>s. set s \<subseteq> A) ss"
  shows "I (recoveries L c e ss f)"
  using assms(2,3)
proof (induction ss arbitrary: f)
  case (Cons s ss)
  from spec_run [OF assms(1), of "\<lparr>w_fs = f, w_script = s\<rparr>"] Cons.prems
  have "I (w_fs (snd (recover_prog_cfg_save L c e \<lparr>w_fs = f, w_script = s\<rparr>)))"
    by (auto split: prod.splits option.splits)
  with Cons show ?case by simp
qed simp

lemma installed_some: "fst (installed L cfgs) \<noteq> None" "snd (installed L cfgs) \<noteq> None"
  by (simp_all add: installed_def)

lemma save_recoverable:
  assumes "t = save_transaction_of pid now c e" "save_ready t f"
  shows "recoverable L t (f c) (f e) (installed L cfgs)
    (w_fs (snd (save_prog_cfg L pid now cfgs c e \<lparr>w_fs = f, w_script = s\<rparr>)))"
  using spec_run [OF spec_save [OF assms, where A = UNIV and L = L and cfgs = cfgs], of "\<lparr>w_fs = f, w_script = s\<rparr>"]
  by (auto simp: save_post_def split: prod.splits option.splits)

lemma recovery_run:
  assumes y: "yaml_scalars L" "yaml_text L" and g: "good_transaction t c0 e0"
    and nf: "c0 \<noteq> None \<and> e0 \<noteq> None \<or> calm s" and new: "fst new \<noteq> None" "snd new \<noteq> None"
    and rec: "recoverable L t c0 e0 new f"
  shows "case recover_prog_cfg_save L (t_cfg_path t) (t_env_path t) \<lparr>w_fs = f, w_script = s\<rparr> of
     (None, w) \<Rightarrow> \<exists>n. Dies n \<in> set s
   | (Some (Some err), w) \<Rightarrow> \<not> calm s
   | (Some None, w) \<Rightarrow> no_journal t (w_fs w) \<and> (holds t (c0, e0) (w_fs w) \<or> holds t new (w_fs w))"
proof -
  have nf': "c0 \<noteq> None \<and> e0 \<noteq> None \<or> no_fail (set s)" using nf by (simp add: no_fail_calm)
  have fin: "no_journal t g \<and> (holds t (c0, e0) g \<or> holds t new g)"
    if "recoverable L t c0 e0 new g" "no_journal t g" for g
    using that by (auto simp: recoverable_def no_journal_def journal_in_def)
  have sp: "case recover_prog_cfg_save L (t_cfg_path t) (t_env_path t) \<lparr>w_fs = f, w_script = s\<rparr> of
      (Some x, w') \<Rightarrow> (recoverable L t c0 e0 new (w_fs w') \<and> (x = None \<longrightarrow> no_journal t (w_fs w')) \<and>
        (no_fail (set s) \<longrightarrow> x = None)) \<and> set (w_script w') \<subseteq> set s
    | (None, w') \<Rightarrow> (\<exists>n. Dies n \<in> set s) \<and> recoverable L t c0 e0 new (w_fs w')"
    using spec_recover [OF y g nf' new, unfolded spec_def, rule_format, of "\<lparr>w_fs = f, w_script = s\<rparr>"] rec by simp
  obtain r w where rw: "recover_prog_cfg_save L (t_cfg_path t) (t_env_path t) \<lparr>w_fs = f, w_script = s\<rparr> = (r, w)"
    by (cases "recover_prog_cfg_save L (t_cfg_path t) (t_env_path t) \<lparr>w_fs = f, w_script = s\<rparr>")
  show ?thesis
  proof (cases r)
    case None
    with sp rw show ?thesis by simp
  next
    case (Some x)
    with sp rw fin show ?thesis by (cases x) (auto simp: no_fail_calm)
  qed
qed

subsection \<open>Properties\<close>


definition sample_fs :: fs where
  "sample_fs = [''/c.yaml'' \<mapsto> File ''[]'', ''/e'' \<mapsto> Dir []]"

lemma sample_save_ready: "save_ready (save_transaction_of 7 9 ''/c.yaml'' ''/e'') sample_fs"
  by (simp add: save_ready_def save_transaction_of_def new_transaction_def transaction_suffix_def int_to_string_def
      nat_to_string.simps paths_of_def journal_path_def no_journal_def sample_fs_def not_dir_def not_file_def)




end
