(* ===== verification/Config_Load.thy ===== *)
theory Config_Load
  imports Save_Transaction_Correct
begin

section \<open>Loading the program configuration (daemon/prog_cfg)\<close>

text \<open>
  \<open>load_prog_cfg\<close>: recover an interrupted save, read and parse the configuration file, order the programs,
  and read the environment sidecar of each.  What it loads after a save is what was saved.  An exception that the
  code does not catch is \<open>Inl\<close>; every reported error is a result with \<open>success = false\<close>.  Opening a file
  that exists works; the process environment is the argument \<open>environ\<close>.
\<close>

definition max_program_config_bytes :: nat where
  "max_program_config_bytes = 4 * 1024 * 1024"

definition max_program_count :: nat where
  "max_program_count = 4096"

record prog_cfg_load_result_t =
  lr_success :: bool
  lr_programs :: "prog_cfg_t list"
  lr_error :: string

definition load_failed :: "string \<Rightarrow> prog_cfg_load_result_t" where
  "load_failed e = \<lparr>lr_success = False, lr_programs = [], lr_error = e\<rparr>"

definition load_ok :: "prog_cfg_t list \<Rightarrow> prog_cfg_load_result_t" where
  "load_ok ps = \<lparr>lr_success = True, lr_programs = ps, lr_error = []\<rparr>"

definition yaml_throw :: "string + 'a \<Rightarrow> exn + 'a" where
  "yaml_throw r = (case r of Inl e \<Rightarrow> Inl (Yaml_exception e) | Inr x \<Rightarrow> Inr x)"

fun node_strings :: "yaml_lib \<Rightarrow> ynode list \<Rightarrow> string + string list" where
  "node_strings L [] = Inr []"
| "node_strings L (n # ns) = res_bind (as_string L n) (\<lambda>s. res_bind (node_strings L ns) (\<lambda>ss. Inr (s # ss)))"

definition dir_entries :: "fs \<Rightarrow> string \<Rightarrow> (string \<times> string) list" where
  "dir_entries f d = (case f d of Some (Dir es) \<Rightarrow> es | _ \<Rightarrow> [])"

definition load_app_environ ::
  "yaml_lib \<Rightarrow> string list \<Rightarrow> string \<Rightarrow> string \<Rightarrow> fs \<Rightarrow> exn + string list" where
  "load_app_environ L environ name app_environ_dir f =
     (let es = dir_entries f app_environ_dir;
          legacy_path = app_environ_dir @ ''/'' @ name;
          path = legacy_path @ ''.yaml'';
          invalid = Inl (Runtime_error (''Invalid environment sidecar: '' @ path))
      in if map_of es name \<noteq> None
         then Inl (Runtime_error (''Legacy environment sidecar `'' @ legacy_path @
                ''` is unsupported; migrate it to the 3.1 YAML sidecar format''))
         else case map_of es (sidecar_name name) of
           None \<Rightarrow> Inr environ
         | Some content \<Rightarrow>
             res_bind (yaml_throw (yl_load L content)) (\<lambda>root.
             case root of
               Y_map kvs \<Rightarrow>
                 (case node_field root ''schema'' of
                    None \<Rightarrow> invalid
                  | Some schema \<Rightarrow>
                      res_bind (yaml_throw (as_int L schema)) (\<lambda>v.
                      if v \<noteq> 1 then invalid
                      else case node_field root ''environment'' of
                        Some (Y_seq ns) \<Rightarrow> yaml_throw (node_strings L ns)
                      | _ \<Rightarrow> invalid))
             | _ \<Rightarrow> invalid))"

fun load_environs ::
  "yaml_lib \<Rightarrow> string list \<Rightarrow> string \<Rightarrow> fs \<Rightarrow> prog_cfg_t list \<Rightarrow> exn + prog_cfg_t list" where
  "load_environs L environ dir f [] = Inr []"
| "load_environs L environ dir f (c # cs) =
     res_bind (load_app_environ L environ (cfg_name c) dir f) (\<lambda>envs.
     res_bind (load_environs L environ dir f cs) (\<lambda>cs'. Inr (c\<lparr>cfg_envs := envs\<rparr> # cs')))"

definition load_document ::
  "yaml_lib \<Rightarrow> string list \<Rightarrow> string \<Rightarrow> string \<Rightarrow> fs \<Rightarrow> ynode \<Rightarrow> exn + prog_cfg_load_result_t" where
  "load_document L environ cfg_path dir f root =
     res_bind (parse_prog_cfg_yaml_document L (Some root)) (\<lambda>document.
     if \<not> dr_success document
     then Inr (load_failed (''cfg file '' @ cfg_path @ '' invalid: '' @ dr_error document))
     else if length (dr_programs document) > max_program_count
     then Inr (load_failed (''cfg file '' @ cfg_path @ '' contains more than 4096 programs''))
     else case validate_and_order_prog_cfgs cfg_name cfg_depends_on (dr_programs document) of
       Inl e \<Rightarrow> Inr (load_failed e)
     | Inr programs \<Rightarrow>
         (case load_environs L environ dir f programs of
            Inl ex \<Rightarrow> Inr (load_failed (exn_what ex))
          | Inr loaded \<Rightarrow> Inr (load_ok loaded)))"

definition load_prog_cfg_yaml ::
  "yaml_lib \<Rightarrow> string list \<Rightarrow> string \<Rightarrow> string \<Rightarrow> fs \<Rightarrow> exn + prog_cfg_load_result_t" where
  "load_prog_cfg_yaml L environ cfg_path dir f = (case f cfg_path of
       None \<Rightarrow> Inr (load_ok [])
     | Some (Dir es) \<Rightarrow> Inr (load_failed (''Failed to read cfg '' @ cfg_path))
     | Some (File content) \<Rightarrow>
         if length content > max_program_config_bytes
         then Inr (load_failed (''cfg file '' @ cfg_path @ '' exceeds 4 MiB limit''))
         else if is_effectively_empty_prog_cfg_yaml content then Inr (load_ok [])
         else case yl_load L content of
           Inl ex \<Rightarrow> Inr (load_failed (''Failed to load cfg '' @ cfg_path @ '': '' @ ex))
         | Inr root \<Rightarrow> load_document L environ cfg_path dir f root)"

definition load_prog_cfg ::
  "yaml_lib \<Rightarrow> string list \<Rightarrow> string \<Rightarrow> string \<Rightarrow> (exn + prog_cfg_load_result_t) sys" where
  "load_prog_cfg L environ cfg_path dir =
     (let ext = snd (splitext cfg_path) in
      if ext \<noteq> ''.yaml'' \<and> ext \<noteq> ''.yml''
      then sreturn (Inr (load_failed (''3.0 config must be YAML: '' @ cfg_path)))
      else sbind (recover_prog_cfg_save L cfg_path dir) (\<lambda>recovery_error.
        case recovery_error of
          Some e \<Rightarrow> sreturn (Inr (load_failed e))
        | None \<Rightarrow> sbind get_fs (\<lambda>f.
            if f cfg_path = None then sreturn (Inr (load_ok []))
            else sreturn (load_prog_cfg_yaml L environ cfg_path dir f))))"

subsection \<open>Lemmas\<close>

text \<open>The text of a sequence is not taken for an empty document, and \<open>[]\<close> is the empty sequence.\<close>

definition yaml_documents :: "yaml_lib \<Rightarrow> bool" where
  "yaml_documents L \<longleftrightarrow>
     (\<forall>n ns. \<not> is_effectively_empty_prog_cfg_yaml (yl_emit L (Y_seq (n # ns)))) \<and>
     yl_load L (''[]'' @ [newline]) = Inr (Y_seq [])"

lemma scan_empty_bracket: "\<not> scan_empty (CHR ''['' # s)"
  by (subst scan_empty.simps) (simp add: is_space_def)

lemma bracket_not_empty: "\<not> is_effectively_empty_prog_cfg_yaml (CHR ''['' # s)"
  by (simp add: is_effectively_empty_prog_cfg_yaml_def byte_order_mark_def scan_empty_bracket)

lemma plain_yaml_documents: "yaml_documents plain_yaml"
proof -
  have "yl_load plain_yaml (enc_node (Y_seq []) @ [newline]) = Inr (Y_seq [])"
    using plain_yaml_laws(2) by (simp add: yaml_text_def plain_yaml_def)
  then show ?thesis by (simp add: yaml_documents_def plain_yaml_def bracket_not_empty)
qed

lemma order_map:
  assumes "validate_and_order_prog_cfgs (n \<circ> g) (d \<circ> g) ps = Inr qs"
  shows "validate_and_order_prog_cfgs n d (map g ps) = Inr (map g qs)"
proof -
  from assms obtain G where c: "collect_configs (n \<circ> g) (d \<circ> g) ps [] = Inr (map (\<lambda>p. \<lparr>dn_name = n (g p), dn_depends_on = d (g p)\<rparr>) ps)"
    and b: "build (map (\<lambda>p. \<lparr>dn_name = n (g p), dn_depends_on = d (g p)\<rparr>) ps) = Inr G"
    and q: "qs = map ((!) ps) (g_topological_order G)"
    by (auto simp: validate_and_order_prog_cfgs_def res_bind_eq_Inr collect_configs_Inr comp_def split: sum.splits)
  have v: "list_all (\<lambda>p. is_valid_program_name (n (g p)) \<and> list_all is_valid_program_name (d (g p))) ps"
    using c unfolding collect_configs_Inr by (simp add: list_all_iff)
  have c': "collect_configs n d (map g ps) [] = Inr (map (\<lambda>p. \<lparr>dn_name = n (g p), dn_depends_on = d (g p)\<rparr>) ps)"
    unfolding collect_configs_Inr using v by (simp add: list_all_iff comp_def)
  have "set (g_topological_order G) = {..<length ps}"
    using build_Inr [OF b] by (auto simp: wf_graph_def graph_size_def dest: least_first_distinct least_first_closed)
  then have "map ((!) (map g ps)) (g_topological_order G) = map g qs"
    unfolding q by (simp add: comp_def)
  with c' b show ?thesis by (simp add: validate_and_order_prog_cfgs_def)
qed

lemma put_sidecars_distinct:
  assumes "distinct (map fst xs)" "fst ` set es \<inter> (sidecar_name \<circ> fst) ` set xs = {}"
  shows "put_sidecars xs es = es @ map (\<lambda>(n, s). (sidecar_name n, s)) xs"
  using assms
proof (induction xs arbitrary: es)
  case Nil
  then show ?case by (simp add: put_sidecars_def)
next
  case (Cons x xs)
  obtain n s where x: "x = (n, s)" by (cases x)
  have p: "put_entry (sidecar_name n) s es = es @ [(sidecar_name n, s)]"
    using Cons.prems(2) by (auto simp: put_entry_def x)
  have "put_sidecars xs (es @ [(sidecar_name n, s)]) = (es @ [(sidecar_name n, s)]) @ map (\<lambda>(n, s). (sidecar_name n, s)) xs"
  proof (rule Cons.IH)
    have "sidecar_name n \<noteq> sidecar_name m" if "m \<in> fst ` set xs" for m
      using that Cons.prems(1) x by (auto simp: sidecar_name_def)
    then show "fst ` set (es @ [(sidecar_name n, s)]) \<inter> (sidecar_name \<circ> fst) ` set xs = {}"
      using Cons.prems(2) by force
  qed (use Cons.prems(1) in simp)
  with p show ?case by (simp add: put_sidecars_def x)
qed

text \<open>The sidecar directory a save installs.\<close>

definition sidecar_dir :: "yaml_lib \<Rightarrow> prog_cfg_t list \<Rightarrow> (string \<times> string) list" where
  "sidecar_dir L cfgs = map (\<lambda>c. (sidecar_name (cfg_name c), sidecar_text L c)) cfgs"

lemma installed_sidecars:
  "distinct (map cfg_name cfgs) \<Longrightarrow> installed L cfgs = (Some (File (cfg_text L cfgs)), Some (Dir (sidecar_dir L cfgs)))"
  using put_sidecars_distinct [of "map (\<lambda>c. (cfg_name c, sidecar_text L c)) cfgs" "[]"]
  by (simp add: installed_def sidecar_dir_def comp_def)

lemma map_of_sidecar_dir:
  assumes "distinct (map cfg_name cfgs)" "c \<in> set cfgs"
  shows "map_of (sidecar_dir L cfgs) (sidecar_name (cfg_name c)) = Some (sidecar_text L c)"
proof (rule map_of_is_SomeI)
  show "distinct (map fst (sidecar_dir L cfgs))"
    using assms(1) by (auto simp: sidecar_dir_def comp_def sidecar_name_def distinct_map inj_on_def)
qed (use assms(2) in \<open>auto simp: sidecar_dir_def\<close>)

lemma node_strings_scalars: "node_strings L (map Y_scalar xs) = Inr xs"
  by (induction xs) simp_all

lemma load_saved_environ:
  assumes y: "yaml_scalars L" "yaml_text L" and f: "f dir = Some (Dir (sidecar_dir L cfgs))"
    and d: "distinct (map cfg_name cfgs)" and c: "c \<in> set cfgs"
    and clash: "cfg_name c \<notin> (\<lambda>c. sidecar_name (cfg_name c)) ` set cfgs"
  shows "load_app_environ L environ (cfg_name c) dir f = Inr (cfg_envs c)"
proof -
  have "map_of (sidecar_dir L cfgs) (cfg_name c) = None"
    using clash by (simp add: map_of_eq_None_iff sidecar_dir_def image_comp comp_def)
  moreover have "in_i32 1" by (simp add: in_i32_def)
  moreover have "yl_load L (sidecar_text L c)
    = Inr (Y_map [(''schema'', int_node L 1), (''environment'', strings_node (cfg_envs c))])"
    using y(2) by (simp add: yaml_text_def sidecar_text_def)
  ultimately show ?thesis
    using y(1) map_of_sidecar_dir [OF d c, of L] f
    by (simp add: load_app_environ_def dir_entries_def yaml_throw_def node_field_def as_int_node
        strings_node_def node_strings_scalars)
qed

lemma load_saved_environs:
  assumes "\<And>c. c \<in> set cs \<Longrightarrow> load_app_environ L environ (cfg_name c) dir f = Inr (cfg_envs c)"
  shows "load_environs L environ dir f (map (\<lambda>c. c\<lparr>cfg_envs := []\<rparr>) cs) = Inr cs"
  using assms by (induction cs) simp_all

lemma ordered_set:
  assumes "validate_and_order_prog_cfgs n d ps = Inr qs"
  shows "set qs = set ps" "distinct (map n ps)"
proof -
  from assms obtain G where
    b: "build (map (\<lambda>p. \<lparr>dn_name = n p, dn_depends_on = d p\<rparr>) ps) = Inr G"
    and q: "qs = map ((!) ps) (g_topological_order G)"
    by (auto simp: validate_and_order_prog_cfgs_def res_bind_eq_Inr collect_configs_Inr split: sum.splits)
  have "set (g_topological_order G) = {..<length ps}"
    using build_Inr [OF b] by (auto simp: wf_graph_def graph_size_def dest: least_first_distinct least_first_closed)
  then show "set qs = set ps" unfolding q by (force simp: in_set_conv_nth)
  show "distinct (map n ps)"
    using build_Inr [OF b] by (simp add: valid_configs_def valid_names_def comp_def)
qed

text \<open>A configuration that the parser gives back: its values are in range.\<close>

definition storable :: "prog_cfg_t \<Rightarrow> bool" where
  "storable c \<longleftrightarrow> valid_file_cfg (c\<lparr>cfg_envs := []\<rparr>) \<and> i32_cfg c"

lemma parse_saved_document:
  assumes "yaml_scalars L" "list_all storable cfgs"
  shows "parse_prog_cfg_yaml_document L (Some (Y_seq (map (\<lambda>c. serialize_prog_cfg_yaml_node L c default_options) cfgs)))
    = Inr \<lparr>dr_success = True, dr_error = [], dr_warnings = [], dr_programs = map (\<lambda>c. c\<lparr>cfg_envs := []\<rparr>) cfgs\<rparr>"
proof -
  have s: "serialize_prog_cfg_yaml_node L c default_options = serialize_prog_cfg_yaml_node L (c\<lparr>cfg_envs := []\<rparr>) default_options" for c
    by (simp add: serialize_prog_cfg_yaml_node_def)
  have p: "serialized_part default_options c = c" for c
    by (simp add: serialized_part_def default_options_def)
  have m: "map (\<lambda>c. serialize_prog_cfg_yaml_node L c default_options) cfgs =
      map (\<lambda>c. serialize_prog_cfg_yaml_node L c default_options) (map (\<lambda>c. c\<lparr>cfg_envs := []\<rparr>) cfgs)"
    by (simp add: comp_def) (metis s)
  have "list_all (\<lambda>c. valid_file_cfg c \<and> i32_cfg c) (map (\<lambda>c. c\<lparr>cfg_envs := []\<rparr>) cfgs)"
    using assms(2) by (auto simp: list_all_iff storable_def i32_cfg_def)
  from parse_serialized_entries [OF assms(1) this, of 0 default_options "[]" "[]"] show ?thesis
    by (simp add: parse_prog_cfg_yaml_document_def m p comp_def)
qed

lemma parse_node_throws: "parse_prog_cfg_yaml_node L n = Inl ex \<Longrightarrow> \<exists>s. n = Y_scalar s"
  by (cases n) (auto simp: parse_prog_cfg_yaml_node_def node_get_def)

lemma parse_entries_outcome:
  "case parse_entries L k ns ws ps of
     Inl ex \<Rightarrow> \<exists>s. Y_scalar s \<in> set ns
   | Inr r \<Rightarrow> \<not> dr_success r \<longrightarrow> dr_programs r = [] \<and> dr_error r \<noteq> []"
proof (induction ns arbitrary: k ws ps)
  case (Cons n ns)
  show ?case
  proof (cases "parse_prog_cfg_yaml_node L n")
    case (Inl ex)
    with parse_node_throws [OF this] show ?thesis by auto
  next
    case (Inr e)
    with Cons.IH [of "Suc k" "ws @ pr_warnings e" "ps @ [the (pr_cfg e)]"] show ?thesis
      by (auto simp: Let_def split: sum.splits)
  qed
qed simp

lemma load_saved:
  assumes y: "yaml_scalars L" "yaml_text L" "yaml_documents L"
    and f: "(f c, f e) = installed L cfgs"
    and ok: "list_all storable cfgs" "length cfgs \<le> max_program_count"
      "length (cfg_text L cfgs) \<le> max_program_config_bytes"
    and order: "validate_and_order_prog_cfgs cfg_name cfg_depends_on cfgs = Inr qs"
    and clash: "cfg_name ` set cfgs \<inter> (\<lambda>c. sidecar_name (cfg_name c)) ` set cfgs = {}"
  shows "load_prog_cfg_yaml L environ c e f = Inr (load_ok qs)"
proof -
  note d = ordered_set(2) [OF order]
  have fl: "f c = Some (File (cfg_text L cfgs))" and dir: "f e = Some (Dir (sidecar_dir L cfgs))"
    using f by (simp_all add: installed_sidecars [OF d])
  let ?root = "Y_seq (map (\<lambda>c. serialize_prog_cfg_yaml_node L c default_options) cfgs)"
  have root: "yl_load L (cfg_text L cfgs) = Inr ?root"
    using y(2,3) by (simp add: cfg_text_def yaml_text_def yaml_documents_def)
  have full: "\<not> is_effectively_empty_prog_cfg_yaml (cfg_text L cfgs)"
    using y(3) by (cases cfgs) (simp_all add: cfg_text_def yaml_documents_def bracket_not_empty)
  have envs: "load_environs L environ e f (map (\<lambda>c. c\<lparr>cfg_envs := []\<rparr>) qs) = Inr qs"
  proof (rule load_saved_environs)
    fix x
    assume "x \<in> set qs"
    then have x: "x \<in> set cfgs" by (simp add: ordered_set(1) [OF order])
    show "load_app_environ L environ (cfg_name x) e f = Inr (cfg_envs x)"
      by (rule load_saved_environ [where f = f, OF y(1,2) dir d x]) (use clash x in blast)
  qed
  have "validate_and_order_prog_cfgs cfg_name cfg_depends_on (map (\<lambda>c. c\<lparr>cfg_envs := []\<rparr>) cfgs)
    = Inr (map (\<lambda>c. c\<lparr>cfg_envs := []\<rparr>) qs)"
    by (rule order_map) (use order in \<open>simp add: comp_def\<close>)
  with envs parse_saved_document [OF y(1) ok(1)] ok(2)
  have "load_document L environ c e f ?root = Inr (load_ok qs)"
    by (simp add: load_document_def)
  with fl root full ok(3) show ?thesis by (simp add: load_prog_cfg_yaml_def)
qed

subsection \<open>Properties\<close>

text \<open>
  C35: parsing a configuration document.  On success there is one program per entry of the top-level
  sequence and each is valid: its restart and log settings are in range, a terminal is not combined with split logs, and
  no reserved environment variable is set.  An invalid entry fails the whole document with a message and no
  programs.  The only way an exception gets out is an entry that is a plain scalar.
\<close>

theorem parse_document_correct:
  "case parse_prog_cfg_yaml_document L root of
     Inl ex \<Rightarrow> \<exists>ns s. root = Some (Y_seq ns) \<and> Y_scalar s \<in> set ns
   | Inr r \<Rightarrow>
       if dr_success r
       then \<exists>ns. root = Some (Y_seq ns) \<and> length (dr_programs r) = length ns \<and> list_all valid_file_cfg (dr_programs r)
       else dr_programs r = [] \<and> dr_error r \<noteq> []"
proof (cases "\<exists>ns. root = Some (Y_seq ns)")
  case True
  then obtain ns where r: "root = Some (Y_seq ns)" by blast
  show ?thesis
  proof (cases "parse_entries L 0 ns [] []")
    case (Inl ex)
    with parse_entries_outcome [where L = L and k = 0 and ns = ns and ws = "[]" and ps = "[]"] r show ?thesis
      by (simp add: parse_prog_cfg_yaml_document_def)
  next
    case (Inr d)
    with parse_entries_outcome [where L = L and k = 0 and ns = ns and ws = "[]" and ps = "[]"] parse_entries_success [OF Inr] r show ?thesis
      by (auto simp: parse_prog_cfg_yaml_document_def)
  qed
next
  case False
  then show ?thesis by (auto simp: parse_prog_cfg_yaml_document_def split: option.splits ynode.splits)
qed


definition sample_cfg :: "string \<Rightarrow> string list \<Rightarrow> prog_cfg_t" where
  "sample_cfg n ds = default_prog_cfg\<lparr>cfg_name := n, cfg_cwd := ''/'', cfg_executable := ''x'', cfg_envs := [''A=1''],
     cfg_depends_on := ds\<rparr>"

lemma sample_storable: "storable (sample_cfg n ds)"
  by (simp add: storable_def sample_cfg_def valid_file_cfg_def default_prog_cfg_def restart_duration_max_ms_def
      restart_attempts_max_def i32_cfg_def in_i32_def)


text \<open>
  The exception of the last hypothesis: when one program is named like the sidecar of another one, the
  configuration that was just saved cannot be loaded.
\<close>

lemma sidecar_clash_not_loadable:
  assumes "f e = Some (Dir (sidecar_dir L cfgs))" "a \<in> set cfgs" "cfg_name b = sidecar_name (cfg_name a)"
  shows "\<exists>msg. load_app_environ L environ (cfg_name b) e f = Inl (Runtime_error msg)"
proof -
  have "map_of (sidecar_dir L cfgs) (cfg_name b) \<noteq> None"
    using assms(2,3) by (auto simp: map_of_eq_None_iff sidecar_dir_def image_comp comp_def)
  with assms(1) show ?thesis by (auto simp: load_app_environ_def dir_entries_def Let_def)
qed

end
