(* ===== verification/Program_Table.thy ===== *)
theory Program_Table
  imports Process_Spawn Dependency_Runtime_Correct Config_Load
begin

section \<open>The program table (daemon/pm_tiny_server)\<close>

text \<open>
  The daemon's state and the operations on its table of programs: loading it from the configuration, starting
  programs in dependency order, adding, removing and saving them.  A program pointer is the program's name, which
  is unique in the table.  Effects are collected in \<open>sv_out\<close>; \<open>errno\<close> is a field.  \<open>lmkdFd\<close> (Android) is absent.
\<close>

record reload_config_t =
  rl_progs :: "prog_info_t list"
  rl_graph :: dependency_graph
  rl_valid :: bool
  rl_error_message :: string

record pm_tiny_server_t =
  sv_paths :: server_paths
  sv_progs :: "prog_info_t list"
  sv_graph :: dependency_graph
  sv_runtime :: dependency_runtime
  sv_exit :: bool
  sv_reload :: "reload_config_t option"
  sv_wait_reload :: "nat list"
  sv_wait_save :: "nat list"
  sv_worker :: persistence_worker
  sv_saving :: "prog_cfg_t list"
  sv_closed :: "nat \<Rightarrow> bool"
  sv_launches :: nat
  sv_errno :: int
  sv_out :: "effect list"

subsection \<open>Access\<close>

definition find_prog :: "string \<Rightarrow> pm_tiny_server_t \<Rightarrow> prog_info_t option" where
  "find_prog nm s = List.find (\<lambda>p. p_name p = nm) (sv_progs s)"

definition find_pid :: "int \<Rightarrow> pm_tiny_server_t \<Rightarrow> prog_info_t option" where
  "find_pid pid s = List.find (\<lambda>p. p_pid p = pid) (sv_progs s)"

definition emit :: "effect list \<Rightarrow> pm_tiny_server_t \<Rightarrow> pm_tiny_server_t" where
  "emit effs s = s\<lparr>sv_out := sv_out s @ effs\<rparr>"

definition update_prog :: "string \<Rightarrow> (prog_info_t \<Rightarrow> prog_info_t) \<Rightarrow> pm_tiny_server_t \<Rightarrow> pm_tiny_server_t" where
  "update_prog nm f s = s\<lparr>sv_progs := map (\<lambda>p. if p_name p = nm then f p else p) (sv_progs s)\<rparr>"

definition set_prog_state :: "string \<Rightarrow> prog_state \<Rightarrow> pm_tiny_server_t \<Rightarrow> pm_tiny_server_t" where
  "set_prog_state nm st = update_prog nm (\<lambda>p. p\<lparr>p_state := st\<rparr>)"

text \<open>A method of a program with its effects.\<close>

definition run_prog :: "string \<Rightarrow> prog_info_t prog_op \<Rightarrow> pm_tiny_server_t \<Rightarrow> pm_tiny_server_t" where
  "run_prog nm m s = (case find_prog nm s of
       None \<Rightarrow> s
     | Some p \<Rightarrow> emit (fst (m p)) (update_prog nm (\<lambda>_. snd (m p)) s))"

definition is_exiting :: "pm_tiny_server_t \<Rightarrow> bool" where
  "is_exiting s = sv_exit s"

definition is_reloading :: "pm_tiny_server_t \<Rightarrow> bool" where
  "is_reloading s \<longleftrightarrow> sv_exit s \<and> sv_reload s \<noteq> None"

definition persistence_busy :: "pm_tiny_server_t \<Rightarrow> bool" where
  "persistence_busy s = worker_busy (sv_worker s)"

subsection \<open>Loading\<close>

definition prog_node :: "prog_info_t \<Rightarrow> dependency_node_config" where
  "prog_node p = \<lparr>dn_name = p_name p, dn_depends_on = cfg_depends_on (p_cfg p)\<rparr>"

definition build_prog_dependency_graph :: "prog_info_t list \<Rightarrow> string + dependency_graph" where
  "build_prog_dependency_graph progs = (case build (map prog_node progs) of
       Inl e \<Rightarrow> Inl (de_message e)
     | Inr g \<Rightarrow> Inr g)"

definition is_prog_depends_valid :: "prog_info_t \<Rightarrow> pm_tiny_server_t \<Rightarrow> bool" where
  "is_prog_depends_valid p s = (\<not> isl (build_prog_dependency_graph (sv_progs s @ [p])))"

definition empty_graph :: dependency_graph where
  "empty_graph = \<lparr>g_names = [], g_indices = Map.empty, g_dependencies = [], g_dependents = [], g_topological_order = []\<rparr>"

definition add_loaded :: "string \<Rightarrow> prog_cfg_t \<Rightarrow> prog_info_t list \<Rightarrow> prog_info_t list" where
  "add_loaded app_log_dir config progs =
     (if \<exists>p \<in> set progs. p_name p = cfg_name config then progs
      else case create_prog app_log_dir config (cfg_envs config) of
        None \<Rightarrow> progs
      | Some p \<Rightarrow> progs @ [complete_prog ''file'' config p])"

text \<open>\<open>parse_cfg(proglist_t &)\<close>, on what \<open>load_prog_cfg\<close> returned; \<open>None\<close> is the return value -1.\<close>

definition parse_cfg_into ::
  "string \<Rightarrow> prog_cfg_load_result_t \<Rightarrow> prog_info_t list \<Rightarrow> prog_info_t list option" where
  "parse_cfg_into app_log_dir loaded progs =
     (if \<not> lr_success loaded then None
      else Some (fold (add_loaded app_log_dir) (lr_programs loaded) progs))"

definition rebuild_dependency_graph :: "pm_tiny_server_t \<Rightarrow> bool \<times> pm_tiny_server_t" where
  "rebuild_dependency_graph s = (case build_prog_dependency_graph (sv_progs s) of
       Inl e \<Rightarrow> (False, s)
     | Inr g \<Rightarrow> (True, s\<lparr>sv_graph := g,
         sv_runtime := fold (\<lambda>p r. if p_state p = PS_runing then snd (mark_ready (p_name p) r) else r)
           (sv_progs s) (reset g)\<rparr>))"

definition parse_cfg :: "prog_cfg_load_result_t \<Rightarrow> pm_tiny_server_t \<Rightarrow> bool \<times> pm_tiny_server_t" where
  "parse_cfg loaded s = (case parse_cfg_into (sp_app_log_dir (sv_paths s)) loaded (sv_progs s) of
       None \<Rightarrow> (False, s)
     | Some progs \<Rightarrow> rebuild_dependency_graph (s\<lparr>sv_progs := progs\<rparr>))"

definition parse_cfg2 :: "prog_cfg_load_result_t \<Rightarrow> pm_tiny_server_t \<Rightarrow> reload_config_t" where
  "parse_cfg2 loaded s = (case parse_cfg_into (sp_app_log_dir (sv_paths s)) loaded [] of
       None \<Rightarrow> \<lparr>rl_progs = [], rl_graph = empty_graph, rl_valid = False,
                rl_error_message = ''cannot load program configuration''\<rparr>
     | Some pl \<Rightarrow> (case build_prog_dependency_graph pl of
           Inl e \<Rightarrow> \<lparr>rl_progs = pl, rl_graph = empty_graph, rl_valid = False, rl_error_message = e\<rparr>
         | Inr g \<Rightarrow> \<lparr>rl_progs = pl, rl_graph = g, rl_valid = True, rl_error_message = []\<rparr>))"

definition swap_reload_config :: "reload_config_t \<Rightarrow> pm_tiny_server_t \<Rightarrow> pm_tiny_server_t" where
  "swap_reload_config rc s = s\<lparr>sv_progs := rl_progs rc, sv_graph := rl_graph rc, sv_runtime := reset (rl_graph rc),
     sv_reload := None\<rparr>"

subsection \<open>Starting\<close>

text \<open>The result says whether the launch worked.\<close>

definition spawn_prog :: "host \<Rightarrow> string \<Rightarrow> pm_tiny_server_t \<Rightarrow> bool \<times> pm_tiny_server_t" where
  "spawn_prog h nm s = (case find_prog nm s of
       None \<Rightarrow> (False, s)
     | Some p \<Rightarrow> (case real_spawn_prog h (sv_paths s) (h_spawn h (sv_launches s)) p of
         (err, effs, p') \<Rightarrow>
           (err = None, emit effs (update_prog nm (\<lambda>_. p') (s\<lparr>sv_launches := sv_launches s + 1,
              sv_errno := (case err of Some e \<Rightarrow> e | None \<Rightarrow> sv_errno s)\<rparr>)))))"

definition flag_startup_fail :: "string \<Rightarrow> pm_tiny_server_t \<Rightarrow> pm_tiny_server_t" where
  "flag_startup_fail nm s = (case mark_failed nm (sv_runtime s) of
     (failure, r) \<Rightarrow> fold (\<lambda>b. set_prog_state b PS_blocked) (fr_blocked failure)
       (set_prog_state nm PS_startup_fail (s\<lparr>sv_runtime := r\<rparr>)))"

text \<open>\<open>progs_from_names\<close> and \<open>spawn0\<close>: the names that failed.\<close>

fun spawn0 :: "host \<Rightarrow> string list \<Rightarrow> pm_tiny_server_t \<Rightarrow> string list \<times> pm_tiny_server_t" where
  "spawn0 h [] s = ([], s)"
| "spawn0 h (nm # nms) s = (case find_prog nm s of
       None \<Rightarrow> spawn0 h nms s
     | Some p \<Rightarrow>
         if p_pid p \<noteq> -1 then spawn0 h nms s
         else case spawn_prog h nm s of
           (ok, s1) \<Rightarrow>
             if ok then spawn0 h nms (update_prog nm (init_prog_log h) s1)
             else (case spawn0 h nms (flag_startup_fail nm s1) of (failures, s2) \<Rightarrow> (nm # failures, s2)))"

text \<open>Applies an operation of the dependency runtime and returns the names it hands out.\<close>

definition run_runtime ::
  "(dependency_runtime \<Rightarrow> string list \<times> dependency_runtime) \<Rightarrow> pm_tiny_server_t \<Rightarrow> string list \<times> pm_tiny_server_t" where
  "run_runtime f s = (case f (sv_runtime s) of (names, r) \<Rightarrow> (names, s\<lparr>sv_runtime := r\<rparr>))"

fun mark_all_ready :: "string list \<Rightarrow> pm_tiny_server_t \<Rightarrow> string list \<times> pm_tiny_server_t" where
  "mark_all_ready [] s = ([], s)"
| "mark_all_ready (nm # nms) s = (case run_runtime (mark_ready nm) s of
     (unlocked, s1) \<Rightarrow> (case mark_all_ready nms s1 of (names, s2) \<Rightarrow> (unlocked @ names, s2)))"

definition spawn1 :: "host \<Rightarrow> string list \<Rightarrow> pm_tiny_server_t \<Rightarrow> pm_tiny_server_t" where
  "spawn1 h started s = (case mark_all_ready started s of (names, s1) \<Rightarrow> snd (spawn0 h names s1))"

definition spawn :: "host \<Rightarrow> pm_tiny_server_t \<Rightarrow> pm_tiny_server_t" where
  "spawn h s =
     (case run_runtime request_all
             (s\<lparr>sv_progs := map (\<lambda>p. p\<lparr>p_state := PS_waiting_start\<rparr>) (sv_progs s), sv_runtime := reset (sv_graph s)\<rparr>) of
       (names, s1) \<Rightarrow> snd (spawn0 h names s1))"

text \<open>The programs that a request left pending wait for their dependencies.\<close>

definition show_pending :: "pm_tiny_server_t \<Rightarrow> pm_tiny_server_t" where
  "show_pending s = s\<lparr>sv_progs := map (\<lambda>p. if runtime_state (p_name p) (sv_runtime s) = DR_pending
     then p\<lparr>p_state := PS_waiting_start\<rparr> else p) (sv_progs s)\<rparr>"

definition start_and_add_prog :: "host \<Rightarrow> prog_info_t \<Rightarrow> pm_tiny_server_t \<Rightarrow> bool \<times> pm_tiny_server_t" where
  "start_and_add_prog h prog s =
     (let runtime_snapshot = snapshot (sv_runtime s) in
      case build_prog_dependency_graph (sv_progs s @ [prog]) of
        Inl e \<Rightarrow> (False, s)
      | Inr g \<Rightarrow>
          (case run_runtime (request_closure (p_name prog))
                  (s\<lparr>sv_progs := sv_progs s @ [prog], sv_graph := g, sv_runtime := migrate g runtime_snapshot\<rparr>) of
            (names, s1) \<Rightarrow>
              (case spawn0 h names (show_pending s1) of
                (failures, s2) \<Rightarrow>
                  if failures = [] then (True, s2)
                  else
                    let s3 = s2\<lparr>sv_progs := filter (\<lambda>p. p_name p \<noteq> p_name prog) (sv_progs s2),
                               sv_errno := (if sv_errno s2 = 0 then EIO else sv_errno s2)\<rparr>
                    in (False, case build_prog_dependency_graph (sv_progs s3) of
                          Inl e \<Rightarrow> s3
                        | Inr rebuilt \<Rightarrow> s3\<lparr>sv_graph := rebuilt, sv_runtime := migrate rebuilt runtime_snapshot\<rparr>))))"

text \<open>The result is that of the code: -1 on a failure, 1 when the program runs already.\<close>

definition start_prog :: "host \<Rightarrow> string \<Rightarrow> pm_tiny_server_t \<Rightarrow> int \<times> pm_tiny_server_t" where
  "start_prog h nm s = (case find_prog nm s of
       None \<Rightarrow> (-1, s)
     | Some p \<Rightarrow>
         if p_pid p = -1
         then (case spawn_prog h nm s of
             (ok, s1) \<Rightarrow>
               if ok then (0, run_prog nm (activate_pending_log_sessions (sv_closed s1))
                               (update_prog nm (init_prog_log h) s1))
               else (-1, s1))
         else (1, s))"

definition request_start :: "host \<Rightarrow> string \<Rightarrow> pm_tiny_server_t \<Rightarrow> bool \<times> pm_tiny_server_t" where
  "request_start h nm s =
     (let running = map p_name (filter (\<lambda>p. p_state p = PS_runing) (sv_progs s));
          s1 = snd (mark_all_ready running s)
      in case run_runtime (request_closure nm) s1 of
        (names, s2) \<Rightarrow> (case spawn0 h names (show_pending s2) of (failures, s3) \<Rightarrow> (failures = [], s3)))"

definition mark_dependency_stopped :: "string \<Rightarrow> pm_tiny_server_t \<Rightarrow> pm_tiny_server_t" where
  "mark_dependency_stopped nm s = s\<lparr>sv_runtime := mark_idle nm (sv_runtime s)\<rparr>"

definition trigger_DAG_traversal_next_node :: "prog_info_t \<Rightarrow> pm_tiny_server_t \<Rightarrow> pm_tiny_server_t" where
  "trigger_DAG_traversal_next_node p s =
     (if p_state p = PS_waiting_start then s\<lparr>sv_runtime := mark_idle (p_name p) (sv_runtime s)\<rparr> else s)"

fun restart_startfailed_from :: "host \<Rightarrow> string list \<Rightarrow> pm_tiny_server_t \<Rightarrow> pm_tiny_server_t" where
  "restart_startfailed_from h [] s = s"
| "restart_startfailed_from h (nm # nms) s = restart_startfailed_from h nms
     (case find_prog nm s of
        None \<Rightarrow> s
      | Some p \<Rightarrow>
          if p_pid p = -1 \<and> p_state p = PS_startup_fail
          then (case spawn_prog h nm s of (ok, s1) \<Rightarrow> if ok then update_prog nm (init_prog_log h) s1 else s1)
          else s)"

definition restart_startfailed :: "host \<Rightarrow> pm_tiny_server_t \<Rightarrow> pm_tiny_server_t" where
  "restart_startfailed h s = restart_startfailed_from h (map p_name (sv_progs s)) s"

subsection \<open>Removing and saving\<close>

definition dependency_dependents :: "string \<Rightarrow> pm_tiny_server_t \<Rightarrow> string list" where
  "dependency_dependents nm s = (case graph_find (sv_graph s) nm of
       None \<Rightarrow> []
     | Some i \<Rightarrow> map ((!) (g_names (sv_graph s))) (g_dependents (sv_graph s) ! i))"

definition remove_prog :: "string \<Rightarrow> pm_tiny_server_t \<Rightarrow> pm_tiny_server_t" where
  "remove_prog nm s = (case find_prog nm s of
       None \<Rightarrow> s
     | Some p \<Rightarrow> snd (rebuild_dependency_graph
         (emit (fst (detach_sessions (sv_closed s) p)) (s\<lparr>sv_progs := filter (\<lambda>q. p_name q \<noteq> nm) (sv_progs s)\<rparr>))))"

definition begin_save_proc_to_cfg :: "pm_tiny_server_t \<Rightarrow> bool \<times> pm_tiny_server_t" where
  "begin_save_proc_to_cfg s = (case worker_submit (sv_worker s) of
     (accepted, w) \<Rightarrow> (accepted, s\<lparr>sv_worker := w, sv_saving := (if accepted then map saved_cfg (sv_progs s) else sv_saving s)\<rparr>))"

definition poll_save_proc_to_cfg :: "pm_tiny_server_t \<Rightarrow> int option \<times> pm_tiny_server_t" where
  "poll_save_proc_to_cfg s = (case worker_poll (sv_worker s) of (result, w) \<Rightarrow> (result, s\<lparr>sv_worker := w\<rparr>))"

end
