(* ===== verification/Supervisor.thy ===== *)
theory Supervisor
  imports Program_Table
begin

section \<open>The supervisor (daemon/pm_tiny, daemon/pm_tiny_funcs)\<close>

text \<open>
  The two things the daemon's event loop does: handle a request of a session (\<open>handle_frame\<close>), and run its
  maintenance, which reaps children, acts on due restarts and timeouts, drives terminations, and finishes a save,
  a reload or a shutdown.  A \<open>host\<close> record gives what the kernel answers during one event.
\<close>

subsection \<open>Replies and pending tasks\<close>

definition reply :: "nat \<Rightarrow> int \<Rightarrow> string \<Rightarrow> pm_tiny_server_t \<Rightarrow> pm_tiny_server_t" where
  "reply sid code msg s = emit [Out_frame sid (reply_frame code msg [])] s"

definition msg_cmd_not_completed :: "string \<Rightarrow> string" where
  "msg_cmd_not_completed nm = ''On target `'' @ nm @ ''`, another operation is not completed, try later.''"

text \<open>\<open>server_exiting\<close>: \<open>Some\<close> the state after the refusal, if the daemon is reloading or stopping.\<close>

definition server_exiting :: "nat \<Rightarrow> pm_tiny_server_t \<Rightarrow> pm_tiny_server_t option" where
  "server_exiting sid s =
     (if is_reloading s then Some (reply sid (-1) ''PM_Tiny is reloading, the operation cannot be performed'' s)
      else if is_exiting s then Some (reply sid (-1) ''PM_Tiny is stopping, the operation cannot be performed'' s)
      else None)"

text \<open>A reply sent only to a session that is still there, unless the daemon is exiting.\<close>

definition if_waiting :: "nat \<Rightarrow> (pm_tiny_server_t \<Rightarrow> pm_tiny_server_t) \<Rightarrow> pm_tiny_server_t \<Rightarrow> pm_tiny_server_t" where
  "if_waiting sid f s =
     (if sv_closed s sid then s else case server_exiting sid s of Some s1 \<Rightarrow> s1 | None \<Rightarrow> f s)"

definition prog_bind_session :: "nat \<Rightarrow> string \<Rightarrow> pm_tiny_server_t \<Rightarrow> pm_tiny_server_t" where
  "prog_bind_session sid nm = run_prog nm (\<lambda>p. ([Out_frame sid (live_log_frame (add_session sid p))], add_session sid p))"

text \<open>The second half of \<open>restart\<close>; a failed \<open>assert\<close> aborts the daemon.\<close>

definition restart_task :: "host \<Rightarrow> string \<Rightarrow> nat \<Rightarrow> bool \<Rightarrow> pm_tiny_server_t \<Rightarrow> pm_tiny_server_t" where
  "restart_task h nm sid show_log s =
     (if (case find_prog nm s of Some p \<Rightarrow> p_state p = PS_runing | None \<Rightarrow> False) then emit [Out_abort] s
      else case start_prog h nm s of
        (rc, s1) \<Rightarrow>
          if rc = -1 then reply sid (-1) (h_strerror h (sv_errno s1)) s1
          else
            let s2 = update_prog nm (\<lambda>p. p\<lparr>p_dead_count := p_dead_count p + 1\<rparr>) s1
            in if show_log then prog_bind_session sid nm s2 else reply sid 0 ''success'' s2)"

fun run_task :: "host \<Rightarrow> string \<Rightarrow> pending_task \<Rightarrow> pm_tiny_server_t \<Rightarrow> pm_tiny_server_t" where
  "run_task h nm (Task_stop sid) s = if_waiting sid (reply sid 0 ''success'') s"
| "run_task h nm (Task_delete sid) s = if_waiting sid (reply sid 0 ''success'') s"
| "run_task h nm (Task_restart sid show_log) s = if_waiting sid (restart_task h nm sid show_log) s"
| "run_task h nm (Task_drained now_ms life_time) s =
     update_prog nm (\<lambda>p. case prog_plan_restart now_ms life_time p of
       (decision, p') \<Rightarrow> p'\<lparr>p_state := (if rd_restart decision then PS_waiting_start else PS_stoped)\<rparr>) s"
| "run_task h nm (Task_timeout kind) s = (case find_prog nm s of
       None \<Rightarrow> s
     | Some p \<Rightarrow> (case prog_plan_restart (h_now h) (h_now h - p_last_startup_ms p) p of
         (decision, p') \<Rightarrow>
           if rd_restart decision
           then update_prog nm (\<lambda>_. p'\<lparr>p_dead_count := p_dead_count p' + 1, p_state := PS_waiting_start\<rparr>) s
           else flag_startup_fail nm (update_prog nm (\<lambda>_. p') s)))"

fun run_tasks :: "host \<Rightarrow> string \<Rightarrow> 64 word \<Rightarrow> generation_task list \<Rightarrow> pm_tiny_server_t \<Rightarrow> pm_tiny_server_t" where
  "run_tasks h nm gen [] s = s"
| "run_tasks h nm gen (t # ts) s = run_tasks h nm gen ts
     (if gt_generation t = gen \<and> map_option p_generation (find_prog nm s) = Some gen
      then run_task h nm (gt_task t) s else s)"

definition execute_penddingtasks :: "host \<Rightarrow> string \<Rightarrow> pm_tiny_server_t \<Rightarrow> pm_tiny_server_t" where
  "execute_penddingtasks h nm s = (case find_prog nm s of
       None \<Rightarrow> s
     | Some p \<Rightarrow> update_prog nm (\<lambda>p. p\<lparr>p_kill_pendingtasks := []\<rparr>)
         (run_tasks h nm (p_generation p) (p_kill_pendingtasks p) s))"

subsection \<open>Shutting down\<close>

definition names_in_order :: "nat list \<Rightarrow> pm_tiny_server_t \<Rightarrow> string list" where
  "names_in_order ids s = filter (\<lambda>nm. find_prog nm s \<noteq> None) (map ((!) (g_names (sv_graph s))) ids)"

definition stop_order :: "pm_tiny_server_t \<Rightarrow> string list" where
  "stop_order s =
     (let ordered = names_in_order (reverse_topological_order (sv_graph s)) s
      in ordered @ filter (\<lambda>nm. nm \<notin> set ordered) (map p_name (sv_progs s)))"

definition quit_prog :: "host \<Rightarrow> string \<Rightarrow> pm_tiny_server_t \<Rightarrow> pm_tiny_server_t" where
  "quit_prog h nm s =
     (let s1 = update_prog nm reset_restart_policy s;
          s2 = (case find_prog nm s1 of
                  Some p \<Rightarrow> if p_pid p \<noteq> -1 then execute_penddingtasks h nm (run_prog nm (async_kill_prog h) s1) else s1
                | None \<Rightarrow> s1)
      in update_prog nm (\<lambda>p. if p_state p = PS_waiting_start then p\<lparr>p_state := PS_no_run\<rparr> else p) s2)"

definition request_quit :: "host \<Rightarrow> pm_tiny_server_t \<Rightarrow> pm_tiny_server_t" where
  "request_quit h s =
     (if is_exiting s then s else fold (quit_prog h) (stop_order s) (s\<lparr>sv_exit := True\<rparr>))"

subsection \<open>Children that died\<close>

text \<open>The variables of the reaping loop beside the server: the three lists of programs.\<close>

record reap_state =
  rp_server :: pm_tiny_server_t
  rp_starting :: "string list"
  rp_tasks :: "string list"
  rp_deleting :: "string list"

definition is_stopping :: "prog_state \<Rightarrow> bool" where
  "is_stopping st \<longleftrightarrow> st = PS_request_stop \<or> st = PS_request_delete"

text \<open>The root died while descendants remain: the tree is drained, and a restart waits for that.\<close>

definition drain_tree :: "host \<Rightarrow> int \<Rightarrow> prog_info_t prog_op" where
  "drain_tree h life_time p =
     (let p1 = (if cfg_daemon (p_cfg p) \<and> \<not> is_stopping (p_state p)
                then enqueue_after_termination (Task_drained (h_now h) life_time) p else p)
      in case prog_mark_tree_draining h p1 of
        (action, p2) \<Rightarrow> (if action = TA_send_term then signal_tree SIG_term p2 else [],
          p2\<lparr>p_state := PS_request_stop, p_instance := (p_instance p2)\<lparr>mi_termination := TP_tree_draining\<rparr>\<rparr>))"

definition cleanup_tree :: "prog_info_t \<Rightarrow> prog_info_t" where
  "cleanup_tree p = p\<lparr>p_instance := (p_instance p)\<lparr>mi_tree := no_tree\<rparr>\<rparr>"

text \<open>The state of a program whose tree is gone.\<close>

definition settle_exit :: "host \<Rightarrow> int \<Rightarrow> prog_info_t \<Rightarrow> prog_info_t" where
  "settle_exit h life_time p =
     (if is_stopping (p_state p) \<or> \<not> cfg_daemon (p_cfg p)
      then p\<lparr>p_state := (if p_state p = PS_request_stop then PS_stoped else PS_exit)\<rparr>
      else case prog_plan_restart (h_now h) life_time p of
        (decision, p') \<Rightarrow>
          if rd_restart decision then p'\<lparr>p_dead_count := p_dead_count p' + 1, p_state := PS_waiting_start\<rparr>
          else p'\<lparr>p_state := PS_stoped\<rparr>)"

text \<open>The bookkeeping of an exit up to the look at the tree: effects and program.\<close>

definition record_exit :: "host \<Rightarrow> (nat \<Rightarrow> bool) \<Rightarrow> int \<Rightarrow> prog_info_t prog_op" where
  "record_exit h closed wstatus p =
     close_fds h closed ((update_count_timer h p)\<lparr>p_last_wstatus := wstatus, p_has_last_exit := True,
       p_last_exit_time_unix_ms := h_unix h\<rparr>)"

definition reap_child :: "host \<Rightarrow> int \<times> int \<Rightarrow> reap_state \<Rightarrow> reap_state" where
  "reap_child h = (\<lambda>(pid, wstatus) r.
     (case find_pid pid (rp_server r) of
        None \<Rightarrow> r
      | Some p \<Rightarrow>
          let nm = p_name p;
              life_time = h_now h - p_last_startup_ms p;
              s1 = run_prog nm (record_exit h (sv_closed (rp_server r)) wstatus) (mark_dependency_stopped nm (rp_server r));
              stopping = is_stopping (p_state p);
              restarts = \<not> stopping \<and> cfg_daemon (p_cfg p);
              suppressed = \<not> rd_restart (fst (prog_plan_restart (h_now h) life_time p))
          in if \<not> is_tree_empty h p then r\<lparr>rp_server := run_prog nm (drain_tree h life_time) s1\<rparr>
             else r\<lparr>rp_server := update_prog nm (settle_exit h life_time \<circ> cleanup_tree) s1,
                    rp_tasks := (if stopping then rp_tasks r @ [nm] else rp_tasks r),
                    rp_deleting := (if p_state p = PS_request_delete then rp_deleting r @ [nm] else rp_deleting r),
                    rp_starting := (if p_state p = PS_starting \<and> (restarts \<longrightarrow> suppressed)
                      then rp_starting r @ [nm] else rp_starting r)\<rparr>))"

definition reap_children :: "host \<Rightarrow> (int \<times> int) list \<Rightarrow> pm_tiny_server_t \<Rightarrow> pm_tiny_server_t" where
  "reap_children h reaped s =
     (let r = fold (reap_child h) reaped \<lparr>rp_server = s, rp_starting = [], rp_tasks = [], rp_deleting = []\<rparr>;
          s1 = (if rp_starting r = [] then rp_server r else spawn1 h (rp_starting r) (rp_server r));
          s2 = fold (execute_penddingtasks h) (rp_tasks r) s1
      in fold remove_prog (rp_deleting r) s2)"

subsection \<open>Timers\<close>

definition observe :: "nat \<Rightarrow> prog_info_t \<Rightarrow> lifecycle_process_observation" where
  "observe i p = (let phase = tj_phase (mi_job (p_instance p)) in
     \<lparr>lo_process_index = i, lo_generation = p_generation p, lo_has_process = (p_pid p \<noteq> -1),
      lo_starting = (p_state p = PS_starting), lo_online = (p_state p = PS_runing),
      lo_terminating = is_stopping (p_state p),
      lo_tree_draining = (phase = TP_tree_draining \<or> phase = TP_force_kill_requested),
      lo_restart_pending = p_restart_pending p, lo_restart_due_ms = p_restart_due_ms p,
      lo_launch_time_ms = p_last_startup_ms p, lo_last_tick_ms = p_last_tick_timepoint p,
      lo_heartbeat_action_due_ms = p_heartbeat_action_due_ms p,
      lo_termination_due_ms = (if phase = TP_term_requested \<or> phase = TP_tree_draining
        then deadline_ms (mi_job (p_instance p)) else 0),
      lo_start_timeout_s = cfg_start_timeout (p_cfg p), lo_heartbeat_timeout_s = cfg_heartbeat_timeout (p_cfg p),
      lo_failure_action = cfg_failure_action (p_cfg p)\<rparr>)"

definition observations :: "pm_tiny_server_t \<Rightarrow> lifecycle_process_observation list" where
  "observations s = map (\<lambda>(i, p). observe i p) (enumerate 0 (sv_progs s))"

definition tick_plan :: "host \<Rightarrow> pm_tiny_server_t \<Rightarrow> lifecycle_tick_plan" where
  "tick_plan h s = plan_lifecycle_tick (h_now h) (observations s) (persistence_busy s) 1000 25"

definition restart_due :: "host \<Rightarrow> string \<Rightarrow> pm_tiny_server_t \<Rightarrow> pm_tiny_server_t" where
  "restart_due h nm s = (case find_prog nm s of
       None \<Rightarrow> s
     | Some p \<Rightarrow>
         if \<not> p_restart_pending p \<or> p_pid p \<noteq> -1 \<or> \<not> is_tree_empty h p \<or> h_now h < p_restart_due_ms p then s
         else case start_prog h nm s of
           (ret, s1) \<Rightarrow>
             let s2 = update_prog nm (\<lambda>p. p\<lparr>p_restart_pending := False, p_restart_due_ms := 0\<rparr>) s1
             in if ret = -1
                then flag_startup_fail nm
                  (run_prog nm (fail_pending_log_sessions (sv_closed s2) ''failed to start the next generation'') s2)
                else s2)"

definition run_due_restarts :: "host \<Rightarrow> string list \<Rightarrow> nat list \<Rightarrow> pm_tiny_server_t \<Rightarrow> pm_tiny_server_t" where
  "run_due_restarts h ordered due s =
     (if is_exiting s then s
      else fold (\<lambda>i s. if i < length ordered then restart_due h (ordered ! i) s else s) due s)"

text \<open>The timeouts, with the programs accepted as ready; the flag is that of a reboot, which ends the loop.\<close>

fun run_timeouts ::
  "host \<Rightarrow> string list \<Rightarrow> lifecycle_timeout_event list \<Rightarrow> pm_tiny_server_t \<Rightarrow> string list \<times> bool \<times> pm_tiny_server_t" where
  "run_timeouts h ordered [] s = ([], False, s)"
| "run_timeouts h ordered (e # es) s =
     (if is_exiting s \<or> le_process_index e \<ge> length ordered then run_timeouts h ordered es s
      else let nm = ordered ! le_process_index e in
        case find_prog nm s of
          None \<Rightarrow> run_timeouts h ordered es s
        | Some p \<Rightarrow>
            if p_generation p \<noteq> le_generation e \<or> p_pid p = -1 then run_timeouts h ordered es s
            else case le_action e of
              LA_accept_ready \<Rightarrow>
                (case run_timeouts h ordered es (update_prog nm (\<lambda>p. p\<lparr>p_state := PS_runing,
                        p_last_tick_timepoint := h_now h, p_heartbeat_action_due_ms := 0\<rparr>) s) of
                  (nms, rb, s1) \<Rightarrow> (nm # nms, rb, s1))
            | LA_ignore \<Rightarrow> run_timeouts h ordered es (update_prog nm (\<lambda>p. p\<lparr>p_heartbeat_action_due_ms :=
                  h_now h + max 1 (cfg_heartbeat_timeout (p_cfg p)) * 1000\<rparr>) s)
            | LA_restart \<Rightarrow> run_timeouts h ordered es
                (update_prog nm (enqueue_after_termination (Task_timeout (le_kind e))) (run_prog nm (async_kill_prog h) s))
            | LA_reboot \<Rightarrow> ([], True, emit [Out_reboot] s))"

definition drive_termination :: "host \<Rightarrow> string \<Rightarrow> pm_tiny_server_t \<Rightarrow> pm_tiny_server_t" where
  "drive_termination h nm s = (case find_prog nm s of
       None \<Rightarrow> s
     | Some p \<Rightarrow>
         if \<not> is_stopping (p_state p) then s
         else case poll_termination h p of
           (action, p1) \<Rightarrow>
             let s1 = update_prog nm (\<lambda>_. p1) s
             in if p_pid p1 = -1 \<and> is_tree_empty h p1
                then execute_penddingtasks h nm (update_prog nm (\<lambda>p. (cleanup_tree p)\<lparr>p_instance :=
                  (p_instance (cleanup_tree p))\<lparr>mi_termination := TP_completed\<rparr>\<rparr>) s1)
                else if action = TA_send_kill then run_prog nm async_force_kill s1
                else s1)"

definition run_timers :: "host \<Rightarrow> pm_tiny_server_t \<Rightarrow> pm_tiny_server_t" where
  "run_timers h s =
     (let ordered = map p_name (sv_progs s);
          plan = tick_plan h s;
          s1 = run_due_restarts h ordered (lt_due_restarts plan) s
      in case run_timeouts h ordered (lt_timeouts plan) s1 of
        (starting, reboot, s2) \<Rightarrow>
          let s3 = fold (drive_termination h) (map p_name (sv_progs s2)) s2
          in if \<not> reboot \<and> starting \<noteq> [] then spawn1 h starting s3 else s3)"

text \<open>\<open>check_delayed_chld_sig\<close>: \<open>None\<close> when no \<open>SIGCHLD\<close> came, else the children reaped, with their statuses.\<close>

definition check_delayed_chld_sig :: "host \<Rightarrow> (int \<times> int) list option \<Rightarrow> pm_tiny_server_t \<Rightarrow> pm_tiny_server_t" where
  "check_delayed_chld_sig h reaped s =
     run_timers h (case reaped of None \<Rightarrow> s | Some rs \<Rightarrow> reap_children h rs s)"

subsection \<open>Finishing a save, a reload, a shutdown\<close>

definition finish_save :: "pm_tiny_server_t \<Rightarrow> pm_tiny_server_t" where
  "finish_save s = (case poll_save_proc_to_cfg s of
       (None, s1) \<Rightarrow> s1
     | (Some result, s1) \<Rightarrow>
         (emit (map (\<lambda>sid. Out_frame sid (reply_frame (if result = 0 then 0 else 1)
             (if result = 0 then ''save success'' else ''save fail'') []))
           (filter (\<lambda>sid. \<not> sv_closed s1 sid) (sv_wait_save s1))) s1)\<lparr>sv_wait_save := []\<rparr>)"

definition living_processes :: "host \<Rightarrow> pm_tiny_server_t \<Rightarrow> prog_info_t list" where
  "living_processes h s = filter (\<lambda>p. p_pid p \<noteq> -1 \<or> \<not> is_tree_empty h p) (sv_progs s)"

text \<open>The result is \<open>True\<close> when the loop is to end.\<close>

definition check_quit_or_reload :: "host \<Rightarrow> pm_tiny_server_t \<Rightarrow> bool \<times> pm_tiny_server_t" where
  "check_quit_or_reload h s0 =
     (let s = finish_save s0 in
      if \<not> is_exiting s \<or> living_processes h s \<noteq> [] \<or> persistence_busy s then (False, s)
      else case sv_reload s of
        None \<Rightarrow> (True, s)
      | Some rc \<Rightarrow>
          let code = (if rl_valid rc then 0 else -1);
              msg = (if rl_valid rc then ''success'' else ''invalid configuration'');
              s1 = (emit (map (\<lambda>sid. Out_frame sid (reply_frame code msg []))
                     (filter (\<lambda>sid. \<not> sv_closed s sid) (sv_wait_reload s))) s)\<lparr>sv_exit := False, sv_wait_reload := []\<rparr>
          in (False,
              if code = -1 then s1\<lparr>sv_reload := Some (rc\<lparr>rl_progs := []\<rparr>)\<rparr>
              else spawn h (emit (concat (map (\<lambda>p. fst (detach_sessions (sv_closed s1) p)) (sv_progs s1)))
                (swap_reload_config rc s1))))"

definition maintenance :: "host \<Rightarrow> bool \<Rightarrow> (int \<times> int) list option \<Rightarrow> pm_tiny_server_t \<Rightarrow> bool \<times> pm_tiny_server_t" where
  "maintenance h exit_signal reaped s =
     check_quit_or_reload h (check_delayed_chld_sig h reaped (if exit_signal then request_quit h s else s))"

text \<open>The time to the next round; a signal that arrived already comes first.\<close>

definition next_maintenance_delay_ms :: "host \<Rightarrow> bool \<Rightarrow> pm_tiny_server_t \<Rightarrow> int" where
  "next_maintenance_delay_ms h signal_pending s =
     (if signal_pending then 0 else if is_exiting s then 25 else if persistence_busy s then 10
      else lt_next_wait_ms (tick_plan h s))"

end
