(* ===== verification/Daemon_Info.thy ===== *)
theory Daemon_Info
  imports Protocol_V3_Correct Daemon_Config
begin

section \<open>Daemon information (core/daemon_info)\<close>

text \<open>
  The snapshot of the daemon that the \<open>info\<close> command shows: its wire format and the part of it that is taken from the
  configuration.  A \<open>std::map\<close> is the list of its entries in key order; \<open>map_insert\<close> is \<open>m[key] = v\<close>.
\<close>

subsection \<open>Enumerations, vectors and maps\<close>

definition daemon_info_schema_version :: int where
  "daemon_info_schema_version = 1"

definition daemon_info_max_items :: nat where
  "daemon_info_max_items = 1024"

definition daemon_info_max_sources :: nat where
  "daemon_info_max_sources = 64"

datatype daemon_info_platform = Linux_os | Android_os | Windows_os
datatype daemon_run_mode = Foreground | Daemonized | Service
datatype daemon_runtime_state = Running | Reloading | Stopping
datatype daemon_log_sink = Sink_file | Sink_console | Sink_console_fallback

primrec platform_code :: "daemon_info_platform \<Rightarrow> byte" where
  "platform_code Linux_os = 0" | "platform_code Android_os = 1" | "platform_code Windows_os = 2"

primrec run_mode_code :: "daemon_run_mode \<Rightarrow> byte" where
  "run_mode_code Foreground = 0" | "run_mode_code Daemonized = 1" | "run_mode_code Service = 2"

primrec runtime_state_code :: "daemon_runtime_state \<Rightarrow> byte" where
  "runtime_state_code Running = 0" | "runtime_state_code Reloading = 1" | "runtime_state_code Stopping = 2"

primrec log_sink_code :: "daemon_log_sink \<Rightarrow> byte" where
  "log_sink_code Sink_file = 0" | "log_sink_code Sink_console = 1" | "log_sink_code Sink_console_fallback = 2"

primrec source_code :: "daemon_config_source \<Rightarrow> byte" where
  "source_code Src_default = 0" | "source_code Src_config_file = 1" | "source_code Src_environment = 2"
| "source_code Src_command_line = 3" | "source_code Src_derived = 4"

definition platform_of :: "byte \<Rightarrow> daemon_info_platform" where
  "platform_of v = (if v = 0 then Linux_os else if v = 1 then Android_os else Windows_os)"

definition run_mode_of :: "byte \<Rightarrow> daemon_run_mode" where
  "run_mode_of v = (if v = 0 then Foreground else if v = 1 then Daemonized else Service)"

definition runtime_state_of :: "byte \<Rightarrow> daemon_runtime_state" where
  "runtime_state_of v = (if v = 0 then Running else if v = 1 then Reloading else Stopping)"

definition log_sink_of :: "byte \<Rightarrow> daemon_log_sink" where
  "log_sink_of v = (if v = 0 then Sink_file else if v = 1 then Sink_console else Sink_console_fallback)"

definition config_source_of :: "byte \<Rightarrow> daemon_config_source" where
  "config_source_of v = (if v = 0 then Src_default else if v = 1 then Src_config_file else if v = 2 then Src_environment
     else if v = 3 then Src_command_line else Src_derived)"

primrec daemon_info_platform_name :: "daemon_info_platform \<Rightarrow> string" where
  "daemon_info_platform_name Linux_os = ''linux''"
| "daemon_info_platform_name Android_os = ''android''"
| "daemon_info_platform_name Windows_os = ''windows''"

primrec daemon_run_mode_name :: "daemon_run_mode \<Rightarrow> string" where
  "daemon_run_mode_name Foreground = ''foreground''"
| "daemon_run_mode_name Daemonized = ''daemon''"
| "daemon_run_mode_name Service = ''service''"

primrec daemon_runtime_state_name :: "daemon_runtime_state \<Rightarrow> string" where
  "daemon_runtime_state_name Running = ''running''"
| "daemon_runtime_state_name Reloading = ''reloading''"
| "daemon_runtime_state_name Stopping = ''stopping''"

primrec daemon_log_sink_name :: "daemon_log_sink \<Rightarrow> string" where
  "daemon_log_sink_name Sink_file = ''file''"
| "daemon_log_sink_name Sink_console = ''console''"
| "daemon_log_sink_name Sink_console_fallback = ''console_fallback''"

definition fappend_u8 :: "byte \<Rightarrow> appender" where
  "fappend_u8 v f = Inr (f @ be_bytes 1 v)"

definition fget_u8 :: "byte reader" where
  "fget_u8 = fget_value 1"

definition append_bool8 :: "bool \<Rightarrow> appender" where
  "append_bool8 v = fappend_u8 (if v then 1 else 0)"

definition read_bool8 :: "bool reader" where
  "read_bool8 = rbind fget_u8 (\<lambda>v.
     rguard (v > 1) (Protocol_error ''invalid daemon-info boolean'') (rreturn (v \<noteq> 0)))"

text \<open>\<open>static_cast<Enum>\<close> is the argument \<open>of_code\<close>.\<close>

definition read_enum8 :: "byte \<Rightarrow> (byte \<Rightarrow> 'a) \<Rightarrow> string \<Rightarrow> 'a reader" where
  "read_enum8 maximum of_code error = rbind fget_u8 (\<lambda>v.
     rguard (v > maximum) (Protocol_error error) (rreturn (of_code v)))"

definition append_vector :: "('a \<Rightarrow> appender) \<Rightarrow> 'a list \<Rightarrow> appender" where
  "append_vector put vs f =
     (if length vs > daemon_info_max_items then Inl (Protocol_error ''daemon-info item count exceeds limit'')
      else append_all (fappend_u32 (word_of_nat (length vs)) # map put vs) f)"

definition read_vector :: "'a reader \<Rightarrow> 'a list reader" where
  "read_vector get = rbind fget_u32 (\<lambda>count.
     rguard (unat count > daemon_info_max_items) (Protocol_error ''invalid daemon-info item count'')
       (read_n (unat count) get))"

definition source_fields :: "string list" where
  "source_fields = [''config_file'', ''home_dir'', ''pid_file'', ''program_config_file'', ''app_environ_dir'',
     ''app_log_dir'', ''daemon_log_file'', ''uds_address'', ''uds_abstract_namespace'', ''allowed_uids'', ''allowed_gids'',
     ''named_pipe'', ''pipe_sddl'', ''service_name'', ''requested_process_tree_mode'', ''cgroup_root'', ''log_level'',
     ''log_max_size_kb'', ''log_archive_count'']"

fun str_less :: "string \<Rightarrow> string \<Rightarrow> bool" where
  "str_less xs [] = False"
| "str_less [] (y # ys) = True"
| "str_less (x # xs) (y # ys) = ((of_char x :: nat) < of_char y \<or> x = y \<and> str_less xs ys)"

fun map_insert :: "string \<Rightarrow> 'v \<Rightarrow> (string \<times> 'v) list \<Rightarrow> (string \<times> 'v) list" where
  "map_insert k v [] = [(k, v)]"
| "map_insert k v ((k', v') # m) =
     (if k = k' then (k, v) # m else if str_less k k' then (k, v) # (k', v') # m else (k', v') # map_insert k v m)"

fun append_source_entries :: "(string \<times> daemon_config_source) list \<Rightarrow> appender" where
  "append_source_entries [] f = Inr f"
| "append_source_entries ((key, src) # es) f =
     (if key \<notin> set source_fields then Inl (Protocol_error ''unknown daemon-info source key'')
      else res_bind (append_all [fappend_string key, fappend_u8 (source_code src)] f) (append_source_entries es))"

definition append_sources :: "(string \<times> daemon_config_source) list \<Rightarrow> appender" where
  "append_sources es f =
     (if length es > daemon_info_max_sources then Inl (Protocol_error ''daemon-info source count exceeds limit'')
      else res_bind (fappend_u32 (word_of_nat (length es)) f) (append_source_entries es))"

fun read_source_entries ::
  "nat \<Rightarrow> (string \<times> daemon_config_source) list \<Rightarrow> (string \<times> daemon_config_source) list reader" where
  "read_source_entries 0 m = rreturn m"
| "read_source_entries (Suc n) m = rbind fget_string (\<lambda>key.
     rguard (key \<notin> set source_fields) (Protocol_error ''unknown daemon-info source key'') (
     rguard (key \<in> set (map fst m)) (Protocol_error ''duplicate daemon-info source key'') (
     rbind (read_enum8 4 config_source_of ''invalid daemon-info config source'') (\<lambda>src.
     read_source_entries n (map_insert key src m)))))"

definition read_sources :: "(string \<times> daemon_config_source) list reader" where
  "read_sources = rbind fget_u32 (\<lambda>source_count.
     rguard (unat source_count > daemon_info_max_sources) (Protocol_error ''invalid daemon-info source count'')
       (read_source_entries (unat source_count) []))"

subsection \<open>The snapshot\<close>

record daemon_info_snapshot =
  di_version :: "string"
  di_protocol_version :: "int"
  di_platform :: "daemon_info_platform"
  di_pid :: "int"
  di_uptime_ms :: "int"
  di_run_mode :: "daemon_run_mode"
  di_state :: "daemon_runtime_state"
  di_single_threaded_control_loop :: "bool"
  di_persistence_active :: "bool"
  di_file_config_count :: "32 word"
  di_runtime_definition_count :: "32 word"
  di_config_file :: "string"
  di_config_loaded :: "bool"
  di_home_dir :: "string"
  di_pid_file :: "string"
  di_program_config_file :: "string"
  di_app_environ_dir :: "string"
  di_app_log_dir :: "string"
  di_daemon_log_file :: "string"
  di_uds_address :: "string"
  di_uds_abstract_namespace :: "bool"
  di_allowed_uids :: "32 word list"
  di_allowed_gids :: "32 word list"
  di_named_pipe :: "string"
  di_pipe_sddl :: "string"
  di_service_name :: "string"
  di_requested_process_tree_mode :: "string"
  di_effective_process_tree_mode :: "string"
  di_cgroup_root :: "string"
  di_subreaper_enabled :: "bool"
  di_process_tree_degraded :: "bool"
  di_process_tree_degradation_reason :: "string"
  di_log_level :: "string"
  di_log_max_size_kb :: "int"
  di_log_archive_count :: "int"
  di_log_console_mirror :: "bool"
  di_log_sink :: "daemon_log_sink"
  di_log_degraded :: "bool"
  di_log_last_error :: "string"
  di_dynamic_create :: "bool"
  di_pty :: "bool"
  di_switch_user :: "bool"
  di_oom_adjust :: "bool"
  di_failure_action :: "bool"
  di_service_mode :: "bool"
  di_process_tree_backends :: "string list"
  di_sources :: "(string \<times> daemon_config_source) list"

definition default_daemon_info :: daemon_info_snapshot where
  "default_daemon_info = \<lparr>
     di_version = '''', di_protocol_version = 3, di_platform = Linux_os, di_pid = 0, di_uptime_ms = 0,
     di_run_mode = Foreground, di_state = Running, di_single_threaded_control_loop = True,
     di_persistence_active = False, di_file_config_count = 0, di_runtime_definition_count = 0, di_config_file = '''',
     di_config_loaded = False, di_home_dir = '''', di_pid_file = '''', di_program_config_file = '''',
     di_app_environ_dir = '''', di_app_log_dir = '''', di_daemon_log_file = '''', di_uds_address = '''',
     di_uds_abstract_namespace = False, di_allowed_uids = [], di_allowed_gids = [], di_named_pipe = '''',
     di_pipe_sddl = '''', di_service_name = '''', di_requested_process_tree_mode = '''',
     di_effective_process_tree_mode = '''', di_cgroup_root = '''', di_subreaper_enabled = False,
     di_process_tree_degraded = False, di_process_tree_degradation_reason = '''', di_log_level = '''',
     di_log_max_size_kb = 0, di_log_archive_count = 0, di_log_console_mirror = False, di_log_sink = Sink_console,
     di_log_degraded = False, di_log_last_error = '''', di_dynamic_create = True, di_pty = False,
     di_switch_user = False, di_oom_adjust = False, di_failure_action = False, di_service_mode = False,
     di_process_tree_backends = [], di_sources = []\<rparr>"
subsection \<open>The wire format\<close>

definition append_daemon_info :: "daemon_info_snapshot \<Rightarrow> appender" where
  "append_daemon_info s = append_all
     [fappend_i32 daemon_info_schema_version,
      fappend_string (di_version s), fappend_i32 (di_protocol_version s), fappend_u8 (platform_code (di_platform s)),
      fappend_i64 (di_pid s), fappend_i64 (di_uptime_ms s), fappend_u8 (run_mode_code (di_run_mode s)),
      fappend_u8 (runtime_state_code (di_state s)), append_bool8 (di_single_threaded_control_loop s),
      append_bool8 (di_persistence_active s), fappend_u32 (di_file_config_count s),
      fappend_u32 (di_runtime_definition_count s), fappend_string (di_config_file s),
      append_bool8 (di_config_loaded s), fappend_string (di_home_dir s), fappend_string (di_pid_file s),
      fappend_string (di_program_config_file s), fappend_string (di_app_environ_dir s),
      fappend_string (di_app_log_dir s), fappend_string (di_daemon_log_file s), fappend_string (di_uds_address s),
      append_bool8 (di_uds_abstract_namespace s), append_vector fappend_u32 (di_allowed_uids s),
      append_vector fappend_u32 (di_allowed_gids s), fappend_string (di_named_pipe s),
      fappend_string (di_pipe_sddl s), fappend_string (di_service_name s),
      fappend_string (di_requested_process_tree_mode s), fappend_string (di_effective_process_tree_mode s),
      fappend_string (di_cgroup_root s), append_bool8 (di_subreaper_enabled s),
      append_bool8 (di_process_tree_degraded s), fappend_string (di_process_tree_degradation_reason s),
      fappend_string (di_log_level s), fappend_i32 (di_log_max_size_kb s), fappend_i32 (di_log_archive_count s),
      append_bool8 (di_log_console_mirror s), fappend_u8 (log_sink_code (di_log_sink s)),
      append_bool8 (di_log_degraded s), fappend_string (di_log_last_error s), append_bool8 (di_dynamic_create s),
      append_bool8 (di_pty s), append_bool8 (di_switch_user s), append_bool8 (di_oom_adjust s),
      append_bool8 (di_failure_action s), append_bool8 (di_service_mode s),
      append_vector fappend_string (di_process_tree_backends s), append_sources (di_sources s)]"

definition daemon_info_reader :: "daemon_info_snapshot reader" where
  "daemon_info_reader =
     rbind fget_i32 (\<lambda>schema.
     rguard (schema \<noteq> daemon_info_schema_version) (Protocol_error ''unsupported daemon-info schema'') (
     rbind fget_string (\<lambda>v_version.
     rbind fget_i32 (\<lambda>v_protocol_version.
     rbind (read_enum8 2 platform_of ''invalid daemon-info platform'') (\<lambda>v_platform.
     rbind fget_i64 (\<lambda>v_pid.
     rbind fget_i64 (\<lambda>v_uptime_ms.
     rbind (read_enum8 2 run_mode_of ''invalid daemon-info run mode'') (\<lambda>v_run_mode.
     rbind (read_enum8 2 runtime_state_of ''invalid daemon-info runtime state'') (\<lambda>v_state.
     rbind read_bool8 (\<lambda>v_single_threaded_control_loop.
     rbind read_bool8 (\<lambda>v_persistence_active.
     rbind fget_u32 (\<lambda>v_file_config_count.
     rbind fget_u32 (\<lambda>v_runtime_definition_count.
     rbind fget_string (\<lambda>v_config_file.
     rbind read_bool8 (\<lambda>v_config_loaded.
     rbind fget_string (\<lambda>v_home_dir.
     rbind fget_string (\<lambda>v_pid_file.
     rbind fget_string (\<lambda>v_program_config_file.
     rbind fget_string (\<lambda>v_app_environ_dir.
     rbind fget_string (\<lambda>v_app_log_dir.
     rbind fget_string (\<lambda>v_daemon_log_file.
     rbind fget_string (\<lambda>v_uds_address.
     rbind read_bool8 (\<lambda>v_uds_abstract_namespace.
     rbind (read_vector fget_u32) (\<lambda>v_allowed_uids.
     rbind (read_vector fget_u32) (\<lambda>v_allowed_gids.
     rbind fget_string (\<lambda>v_named_pipe.
     rbind fget_string (\<lambda>v_pipe_sddl.
     rbind fget_string (\<lambda>v_service_name.
     rbind fget_string (\<lambda>v_requested_process_tree_mode.
     rbind fget_string (\<lambda>v_effective_process_tree_mode.
     rbind fget_string (\<lambda>v_cgroup_root.
     rbind read_bool8 (\<lambda>v_subreaper_enabled.
     rbind read_bool8 (\<lambda>v_process_tree_degraded.
     rbind fget_string (\<lambda>v_process_tree_degradation_reason.
     rbind fget_string (\<lambda>v_log_level.
     rbind fget_i32 (\<lambda>v_log_max_size_kb.
     rbind fget_i32 (\<lambda>v_log_archive_count.
     rbind read_bool8 (\<lambda>v_log_console_mirror.
     rbind (read_enum8 2 log_sink_of ''invalid daemon-info log sink'') (\<lambda>v_log_sink.
     rbind read_bool8 (\<lambda>v_log_degraded.
     rbind fget_string (\<lambda>v_log_last_error.
     rbind read_bool8 (\<lambda>v_dynamic_create.
     rbind read_bool8 (\<lambda>v_pty.
     rbind read_bool8 (\<lambda>v_switch_user.
     rbind read_bool8 (\<lambda>v_oom_adjust.
     rbind read_bool8 (\<lambda>v_failure_action.
     rbind read_bool8 (\<lambda>v_service_mode.
     rbind (read_vector fget_string) (\<lambda>v_process_tree_backends.
     rbind read_sources (\<lambda>v_sources.
     rguard_end (Protocol_error ''trailing daemon-info payload'') (
     rreturn \<lparr>
       di_version = v_version, di_protocol_version = v_protocol_version, di_platform = v_platform, di_pid = v_pid,
       di_uptime_ms = v_uptime_ms, di_run_mode = v_run_mode, di_state = v_state,
       di_single_threaded_control_loop = v_single_threaded_control_loop,
       di_persistence_active = v_persistence_active, di_file_config_count = v_file_config_count,
       di_runtime_definition_count = v_runtime_definition_count, di_config_file = v_config_file,
       di_config_loaded = v_config_loaded, di_home_dir = v_home_dir, di_pid_file = v_pid_file,
       di_program_config_file = v_program_config_file, di_app_environ_dir = v_app_environ_dir,
       di_app_log_dir = v_app_log_dir, di_daemon_log_file = v_daemon_log_file, di_uds_address = v_uds_address,
       di_uds_abstract_namespace = v_uds_abstract_namespace, di_allowed_uids = v_allowed_uids,
       di_allowed_gids = v_allowed_gids, di_named_pipe = v_named_pipe, di_pipe_sddl = v_pipe_sddl,
       di_service_name = v_service_name, di_requested_process_tree_mode = v_requested_process_tree_mode,
       di_effective_process_tree_mode = v_effective_process_tree_mode, di_cgroup_root = v_cgroup_root,
       di_subreaper_enabled = v_subreaper_enabled, di_process_tree_degraded = v_process_tree_degraded,
       di_process_tree_degradation_reason = v_process_tree_degradation_reason, di_log_level = v_log_level,
       di_log_max_size_kb = v_log_max_size_kb, di_log_archive_count = v_log_archive_count,
       di_log_console_mirror = v_log_console_mirror, di_log_sink = v_log_sink, di_log_degraded = v_log_degraded,
       di_log_last_error = v_log_last_error, di_dynamic_create = v_dynamic_create, di_pty = v_pty,
       di_switch_user = v_switch_user, di_oom_adjust = v_oom_adjust, di_failure_action = v_failure_action,
       di_service_mode = v_service_mode, di_process_tree_backends = v_process_tree_backends, di_sources = v_sources\<rparr>))))))))))))))))))))))))))))))))))))))))))))))))))"

definition read_daemon_info :: "frame \<Rightarrow> exn + daemon_info_snapshot" where
  "read_daemon_info = read_payload daemon_info_reader"

text \<open>Which setting of the configuration a field reports the source of.\<close>

definition info_sources :: "(string \<times> string) list" where
  "info_sources = [(''config_file'', ''config_path''), (''home_dir'', ''home_dir''), (''pid_file'', ''lock_file''),
     (''program_config_file'', ''program_config_file''), (''app_environ_dir'', ''app_environ_dir''),
     (''app_log_dir'', ''app_log_dir''), (''daemon_log_file'', ''log_file''), (''uds_address'', ''socket_file''),
     (''uds_abstract_namespace'', ''uds_abstract_namespace''), (''allowed_uids'', ''allowed_uids''),
     (''allowed_gids'', ''allowed_gids''), (''named_pipe'', ''pipe_name''), (''pipe_sddl'', ''pipe_sddl''),
     (''requested_process_tree_mode'', ''process_tree_mode''), (''cgroup_root'', ''cgroup_root''),
     (''log_level'', ''log_level''), (''log_max_size_kb'', ''log_max_size_kb''), (''log_archive_count'', ''log_archive_count'')]"

definition make_sources :: "daemon_config \<Rightarrow> daemon_cli_options \<Rightarrow> (string \<times> daemon_config_source) list" where
  "make_sources c opts =
     map_insert ''service_name'' (if co_service_name_explicit opts then Src_command_line else Src_default)
       (fold (\<lambda>(field, setting). map_insert field (source_of c setting)) info_sources [])"

definition make_daemon_info_base ::
  "daemon_config \<Rightarrow> daemon_cli_options \<Rightarrow> daemon_info_platform \<Rightarrow> string \<Rightarrow> int \<Rightarrow> int \<Rightarrow> daemon_info_snapshot" where
  "make_daemon_info_base c opts platform version pid uptime_ms = default_daemon_info\<lparr>
     di_version := version, di_platform := platform, di_pid := pid, di_uptime_ms := uptime_ms,
     di_run_mode := (if co_service opts then Service else if co_daemonize opts then Daemonized else Foreground),
     di_config_file := dc_config_path c, di_config_loaded := dc_config_loaded c, di_home_dir := dc_home_dir c,
     di_pid_file := dc_lock_file c, di_program_config_file := dc_program_config_file c,
     di_app_environ_dir := dc_app_environ_dir c, di_app_log_dir := dc_app_log_dir c, di_daemon_log_file := dc_log_file c,
     di_uds_address := dc_socket_file c, di_uds_abstract_namespace := dc_uds_abstract_namespace c,
     di_allowed_uids := dc_allowed_uids c, di_allowed_gids := dc_allowed_gids c, di_named_pipe := dc_pipe_name c,
     di_pipe_sddl := dc_pipe_sddl c, di_service_name := co_service_name opts,
     di_requested_process_tree_mode := dc_process_tree_mode c, di_cgroup_root := dc_cgroup_root c,
     di_log_level := dc_log_level c, di_log_max_size_kb := dc_log_max_size_kb c,
     di_log_archive_count := dc_log_archive_count c, di_sources := make_sources c opts\<rparr>"

subsection \<open>The formats of the fields\<close>

definition enc_u8 :: "byte \<Rightarrow> frame" where
  "enc_u8 v = be_bytes 1 v"

interpretation u8: codec fappend_u8 fget_u8 "\<lambda>_. True" enc_u8
  by unfold_locales (simp_all add: fappend_u8_def fget_u8_def fget_value_iff enc_u8_def)

text \<open>An enumeration whose codes are the numbers up to a maximum.\<close>

locale enum_code =
  fixes code :: "'a \<Rightarrow> byte"
    and of_code :: "byte \<Rightarrow> 'a"
    and maximum :: byte
    and error :: string
  assumes of_code_code: "of_code (code x) = x"
    and code_le: "code x \<le> maximum"
    and code_of_code: "v \<le> maximum \<Longrightarrow> code (of_code v) = v"

sublocale enum_code \<subseteq> codec "\<lambda>x. fappend_u8 (code x)" "read_enum8 maximum of_code error" "\<lambda>_. True" "\<lambda>x. enc_u8 (code x)"
  by unfold_locales
     (auto simp: u8.put_ok read_enum8_def reader_iffs u8.get_iff of_code_code code_of_code not_less code_le
       intro: exI [of _ "code x" for x])

lemma byte_le_4:
  assumes "(v :: byte) \<le> 4"
  shows "v = 0 \<or> v = 1 \<or> v = 2 \<or> v = 3 \<or> v = 4"
proof -
  have "unat v \<le> 4" using assms by (simp add: word_le_nat_alt)
  then have "unat v \<in> {0, 1, 2, 3, 4}" by auto
  then have "(word_of_nat (unat v) :: byte) \<in> word_of_nat ` {0, 1, 2, 3, 4}" by (rule imageI)
  then show ?thesis by simp
qed

lemma byte_le_2: "(v :: byte) \<le> 2 \<Longrightarrow> v = 0 \<or> v = 1 \<or> v = 2"
  using byte_le_4 [of v] by (force simp: word_le_nat_alt)

lemma platform_enum [simp]: "platform_of (platform_code x) = x" "platform_code x \<le> 2"
  by (cases x; simp add: platform_of_def word_le_nat_alt)+

lemma run_mode_enum [simp]: "run_mode_of (run_mode_code x) = x" "run_mode_code x \<le> 2"
  by (cases x; simp add: run_mode_of_def word_le_nat_alt)+

lemma runtime_state_enum [simp]: "runtime_state_of (runtime_state_code x) = x" "runtime_state_code x \<le> 2"
  by (cases x; simp add: runtime_state_of_def word_le_nat_alt)+

lemma log_sink_enum [simp]: "log_sink_of (log_sink_code x) = x" "log_sink_code x \<le> 2"
  by (cases x; simp add: log_sink_of_def word_le_nat_alt)+

lemma source_enum [simp]: "config_source_of (source_code x) = x" "source_code x \<le> 4"
  by (cases x; simp add: config_source_of_def word_le_nat_alt)+

interpretation platform: enum_code platform_code platform_of 2 error for error
  by unfold_locales (auto simp: platform_of_def [of 0] platform_of_def [of 1] platform_of_def [of 2] dest!: byte_le_2)

interpretation run_mode: enum_code run_mode_code run_mode_of 2 error for error
  by unfold_locales (auto simp: run_mode_of_def [of 0] run_mode_of_def [of 1] run_mode_of_def [of 2] dest!: byte_le_2)

interpretation runtime_state: enum_code runtime_state_code runtime_state_of 2 error for error
  by unfold_locales
     (auto simp: runtime_state_of_def [of 0] runtime_state_of_def [of 1] runtime_state_of_def [of 2] dest!: byte_le_2)

interpretation log_sink: enum_code log_sink_code log_sink_of 2 error for error
  by unfold_locales (auto simp: log_sink_of_def [of 0] log_sink_of_def [of 1] log_sink_of_def [of 2] dest!: byte_le_2)

interpretation config_source: enum_code source_code config_source_of 4 error for error
  by unfold_locales (auto dest!: byte_le_4 simp: config_source_of_def [of 0] config_source_of_def [of 1]
      config_source_of_def [of 2] config_source_of_def [of 3] config_source_of_def [of 4])

definition enc_bool8 :: "bool \<Rightarrow> frame" where
  "enc_bool8 v = enc_u8 (if v then 1 else 0 :: byte)"

interpretation bool8: codec append_bool8 read_bool8 "\<lambda>_. True" enc_bool8
proof
  fix x :: bool and f :: frame
  show "append_bool8 x f = Inr (f @ enc_bool8 x)" by (simp add: append_bool8_def enc_bool8_def u8.put_ok)
next
  fix bs x rest
  have "v \<le> 1 \<longleftrightarrow> v = 0 \<or> v = 1" for v :: byte
    using byte_le_2 [of v] by (auto simp: word_le_nat_alt)
  then show "read_bool8 bs = Inr (x, rest) \<longleftrightarrow> True \<and> bs = enc_bool8 x @ rest"
    by (cases x) (auto simp: read_bool8_def reader_iffs u8.get_iff enc_bool8_def not_less)
qed

definition ok_vector :: "('a \<Rightarrow> bool) \<Rightarrow> 'a list \<Rightarrow> bool" where
  "ok_vector ok vs \<longleftrightarrow> length vs \<le> daemon_info_max_items \<and> list_all ok vs"

definition enc_vector :: "('a \<Rightarrow> frame) \<Rightarrow> 'a list \<Rightarrow> frame" where
  "enc_vector enc vs = be_bytes 4 (word_of_nat (length vs) :: 32 word) @ concat (map enc vs)"

lemma unat_count: "n \<le> 1024 \<Longrightarrow> unat (word_of_nat n :: 32 word) = n"
  by (simp add: unat_of_nat)

text \<open>A vector of anything that has a format has one.\<close>

context codec
begin

lemma vector_put: "ok_vector ok vs \<Longrightarrow> append_vector put vs f = Inr (f @ enc_vector enc vs)"
  by (simp add: ok_vector_def append_vector_def enc_vector_def u32.put_ok put_list)

lemma vector_get: "read_vector get bs = Inr (vs, rest) \<longleftrightarrow> ok_vector ok vs \<and> bs = enc_vector enc vs @ rest"
  by (auto simp: read_vector_def reader_iffs u32.get_iff read_n_iff ok_vector_def enc_vector_def not_less
      unat_count daemon_info_max_items_def intro!: exI [of _ "word_of_nat (length vs)"])

end

subsection \<open>The source map\<close>

lemma str_less_irrefl: "\<not> str_less x x"
  by (induction x) auto

lemma str_less_asym: "str_less x y \<Longrightarrow> \<not> str_less y x"
  by (induction x y rule: str_less.induct) auto

lemma str_less_trans: "str_less x y \<Longrightarrow> str_less y z \<Longrightarrow> str_less x z"
proof (induction x y arbitrary: z rule: str_less.induct)
  case (2 y ys)
  then show ?case by (cases z) auto
next
  case (3 x xs y ys)
  then show ?case by (cases z) (auto intro: order.strict_trans)
qed simp

lemma str_less_total: "x \<noteq> y \<Longrightarrow> str_less x y \<or> str_less y x"
proof (induction x y rule: str_less.induct)
  case (3 x xs y ys)
  have "of_char x = (of_char y :: nat) \<Longrightarrow> x = y" by simp
  with 3 show ?case by (auto simp: less_le)
next
  case (1 xs)
  then show ?case by (cases xs) auto
qed simp

definition key_sorted :: "(string \<times> 'v) list \<Rightarrow> bool" where
  "key_sorted m \<longleftrightarrow> sorted_wrt (\<lambda>a b. str_less (fst a) (fst b)) m"

lemma map_insert_last: "\<forall>a \<in> set m. str_less (fst a) k \<Longrightarrow> map_insert k v m = m @ [(k, v)]"
  by (induction m) (auto simp: str_less_irrefl dest: str_less_asym)

lemma map_insert_keys: "fst ` set (map_insert k v m) = insert k (fst ` set m)"
  by (induction k v m rule: map_insert.induct) (simp_all add: insert_commute)

lemma key_sorted_Cons: "key_sorted (a # m) \<longleftrightarrow> (\<forall>k \<in> fst ` set m. str_less (fst a) k) \<and> key_sorted m"
  by (auto simp: key_sorted_def)

lemma map_insert_sorted: "key_sorted m \<Longrightarrow> key_sorted (map_insert k v m)"
proof (induction k v m rule: map_insert.induct)
  case (2 k v k' v' m)
  consider "k = k'" | "str_less k k'" "k \<noteq> k'" | "str_less k' k" "k \<noteq> k'" "\<not> str_less k k'"
    using str_less_total [of k k'] by blast
  then show ?case
    by cases (use 2 in \<open>auto simp: key_sorted_Cons map_insert_keys intro: str_less_trans\<close>)
qed (simp add: key_sorted_def)

lemma map_insert_length: "k \<notin> fst ` set m \<Longrightarrow> length (map_insert k v m) = Suc (length m)"
  by (induction m) auto

lemma map_insert_lookup: "map_of (map_insert k v m) k' = (if k' = k then Some v else map_of m k')"
  by (induction m) auto

definition ok_sources :: "(string \<times> daemon_config_source) list \<Rightarrow> bool" where
  "ok_sources es \<longleftrightarrow> length es \<le> daemon_info_max_sources \<and> key_sorted es \<and> fst ` set es \<subseteq> set source_fields"

definition enc_source :: "string \<times> daemon_config_source \<Rightarrow> frame" where
  "enc_source e = enc_string (fst e) @ enc_u8 (source_code (snd e))"

definition enc_sources :: "(string \<times> daemon_config_source) list \<Rightarrow> frame" where
  "enc_sources es = be_bytes 4 (word_of_nat (length es) :: 32 word) @ concat (map enc_source es)"

lemma source_field_ok_string: "k \<in> set source_fields \<Longrightarrow> ok_string k"
  by (auto simp: source_fields_def ok_string_def protocol_v3_max_payload_def)

lemma append_source_entries_ok:
  "fst ` set es \<subseteq> set source_fields \<Longrightarrow> append_source_entries es f = Inr (f @ concat (map enc_source es))"
proof (induction es arbitrary: f)
  case (Cons e es)
  then show ?case
    by (cases e) (simp add: str.put_ok u8.put_ok source_field_ok_string enc_source_def)
qed simp

lemma append_sources_ok: "ok_sources es \<Longrightarrow> append_sources es f = Inr (f @ enc_sources es)"
  by (simp add: ok_sources_def append_sources_def u32.put_ok append_source_entries_ok enc_sources_def)

lemma rbind_get:
  assumes "\<And>bs x rest. get bs = Inr (x, rest) \<longleftrightarrow> ok x \<and> bs = enc x @ rest" "ok x"
  shows "rbind get k (enc x @ r) = k x r"
proof -
  have "get (enc x @ r) = Inr (x, r)" using assms by blast
  then show ?thesis by (simp add: rbind_def)
qed

lemma read_source_entries_complete:
  "key_sorted (m @ es) \<Longrightarrow> fst ` set es \<subseteq> set source_fields \<Longrightarrow>
     read_source_entries (length es) m (concat (map enc_source es) @ rest) = Inr (m @ es, rest)"
proof (induction es arbitrary: m)
  case (Cons e es)
  obtain k v where e: "e = (k, v)" by (cases e)
  have less: "\<forall>a \<in> set m. str_less (fst a) k" using Cons.prems(1) by (simp add: e key_sorted_def sorted_wrt_append)
  then have new: "k \<notin> fst ` set m" using str_less_irrefl by auto
  have "read_source_entries (length es) (m @ [e]) (concat (map enc_source es) @ rest) = Inr (m @ e # es, rest)"
    using Cons.IH [of "m @ [e]"] Cons.prems by simp
  then show ?case
    using Cons.prems(2) new less
    by (simp add: e enc_source_def [of "(k, v)"] rbind_get [OF str.get_iff] rbind_get [OF config_source.get_iff] source_field_ok_string
        rguard_def map_insert_last)
qed (simp add: rreturn_def)

lemma read_source_entries_sound:
  "read_source_entries n m bs = Inr (m', rest) \<Longrightarrow> key_sorted m \<Longrightarrow> fst ` set m \<subseteq> set source_fields \<Longrightarrow>
     key_sorted m' \<and> fst ` set m' \<subseteq> set source_fields \<and> length m' = length m + n"
proof (induction n arbitrary: m bs)
  case 0
  then show ?case by (simp add: rreturn_eq_Inr)
next
  case (Suc n)
  from Suc.prems(1) obtain k v bs' where "k \<in> set source_fields" "k \<notin> fst ` set m"
    "read_source_entries n (map_insert k v m) bs' = Inr (m', rest)"
    by (auto simp: reader_iffs)
  with Suc.IH [of "map_insert k v m" bs'] Suc.prems(2,3) show ?case
    by (auto simp: map_insert_sorted map_insert_keys map_insert_length)
qed

lemma read_sources_complete: "ok_sources es \<Longrightarrow> read_sources (enc_sources es @ rest) = Inr (es, rest)"
  using read_source_entries_complete [of "[]" es rest]
  by (simp add: ok_sources_def read_sources_def enc_sources_def rbind_get [OF u32.get_iff, of _ _ "_ @ _"] unat_count
      daemon_info_max_sources_def rguard_def)

lemma read_sources_sound: "read_sources bs = Inr (es, rest) \<Longrightarrow> ok_sources es"
  using read_source_entries_sound [of _ "[]" _ es rest]
  by (auto simp: read_sources_def reader_iffs ok_sources_def key_sorted_def not_less)

subsection \<open>The round trip\<close>

definition ok_daemon_info :: "daemon_info_snapshot \<Rightarrow> bool" where
  "ok_daemon_info s \<longleftrightarrow>
     list_all ok_string [
       di_version s, di_config_file s, di_home_dir s, di_pid_file s, di_program_config_file s, di_app_environ_dir s,
       di_app_log_dir s, di_daemon_log_file s, di_uds_address s, di_named_pipe s, di_pipe_sddl s, di_service_name s,
       di_requested_process_tree_mode s, di_effective_process_tree_mode s, di_cgroup_root s,
       di_process_tree_degradation_reason s, di_log_level s, di_log_last_error s] \<and>
     in_i32 (di_protocol_version s) \<and> in_i64 (di_pid s) \<and> in_i64 (di_uptime_ms s) \<and> in_i32 (di_log_max_size_kb s) \<and>
     in_i32 (di_log_archive_count s) \<and> ok_vector (\<lambda>_. True) (di_allowed_uids s) \<and> ok_vector (\<lambda>_. True) (di_allowed_gids s) \<and>
     ok_vector ok_string (di_process_tree_backends s) \<and> ok_sources (di_sources s)"

definition enc_daemon_info :: "daemon_info_snapshot \<Rightarrow> frame" where
  "enc_daemon_info s = concat
     [enc_i32 daemon_info_schema_version,
      enc_string (di_version s), enc_i32 (di_protocol_version s), enc_u8 (platform_code (di_platform s)),
      enc_i64 (di_pid s), enc_i64 (di_uptime_ms s), enc_u8 (run_mode_code (di_run_mode s)),
      enc_u8 (runtime_state_code (di_state s)), enc_bool8 (di_single_threaded_control_loop s),
      enc_bool8 (di_persistence_active s), be_bytes 4 (di_file_config_count s),
      be_bytes 4 (di_runtime_definition_count s), enc_string (di_config_file s), enc_bool8 (di_config_loaded s),
      enc_string (di_home_dir s), enc_string (di_pid_file s), enc_string (di_program_config_file s),
      enc_string (di_app_environ_dir s), enc_string (di_app_log_dir s), enc_string (di_daemon_log_file s),
      enc_string (di_uds_address s), enc_bool8 (di_uds_abstract_namespace s),
      enc_vector (be_bytes 4) (di_allowed_uids s), enc_vector (be_bytes 4) (di_allowed_gids s),
      enc_string (di_named_pipe s), enc_string (di_pipe_sddl s), enc_string (di_service_name s),
      enc_string (di_requested_process_tree_mode s), enc_string (di_effective_process_tree_mode s),
      enc_string (di_cgroup_root s), enc_bool8 (di_subreaper_enabled s), enc_bool8 (di_process_tree_degraded s),
      enc_string (di_process_tree_degradation_reason s), enc_string (di_log_level s), enc_i32 (di_log_max_size_kb s),
      enc_i32 (di_log_archive_count s), enc_bool8 (di_log_console_mirror s), enc_u8 (log_sink_code (di_log_sink s)),
      enc_bool8 (di_log_degraded s), enc_string (di_log_last_error s), enc_bool8 (di_dynamic_create s),
      enc_bool8 (di_pty s), enc_bool8 (di_switch_user s), enc_bool8 (di_oom_adjust s),
      enc_bool8 (di_failure_action s), enc_bool8 (di_service_mode s),
      enc_vector enc_string (di_process_tree_backends s), enc_sources (di_sources s)]"

lemmas info_puts = str.put_ok i32.put_ok i64.put_ok u32.put_ok bool8.put_ok u32.vector_put str.vector_put
  platform.put_ok run_mode.put_ok runtime_state.put_ok log_sink.put_ok append_sources_ok

lemmas info_gets = str.get_iff i32.get_iff i64.get_iff u32.get_iff bool8.get_iff u32.vector_get str.vector_get
  platform.get_iff run_mode.get_iff runtime_state.get_iff log_sink.get_iff

lemmas info_rbinds = rbind_get [OF str.get_iff] rbind_get [OF i32.get_iff] rbind_get [OF i64.get_iff]
  rbind_get [OF u32.get_iff] rbind_get [OF bool8.get_iff] rbind_get [OF u32.vector_get] rbind_get [OF str.vector_get]
  rbind_get [OF platform.get_iff] rbind_get [OF run_mode.get_iff] rbind_get [OF runtime_state.get_iff]
  rbind_get [OF log_sink.get_iff]

lemma append_daemon_info_ok: "ok_daemon_info s \<Longrightarrow> append_daemon_info s f = Inr (f @ enc_daemon_info s)"
  by (simp add: ok_daemon_info_def append_daemon_info_def enc_daemon_info_def info_puts daemon_info_schema_version_def)

lemma rbind_sources_end:
  "ok_sources es \<Longrightarrow> rbind read_sources (\<lambda>es. rguard_end e (k es)) (enc_sources es) = k es []"
  using read_sources_complete [of es "[]"] by (simp add: rbind_def rguard_end_def)

lemma daemon_info_reader_complete: "ok_daemon_info s \<Longrightarrow> daemon_info_reader (enc_daemon_info s) = Inr (s, [])"
  by (simp add: ok_daemon_info_def daemon_info_reader_def enc_daemon_info_def info_rbinds rbind_sources_end
      daemon_info_schema_version_def rguard_def [of False] rreturn_def)

lemma daemon_info_reader_sound: "daemon_info_reader bs = Inr (s, rest) \<Longrightarrow> ok_daemon_info s"
  unfolding daemon_info_reader_def
  by (simp only: reader_iffs rguard_end_eq_Inr info_gets) (elim exE conjE; simp add: ok_daemon_info_def read_sources_sound)

subsection \<open>The snapshot of a configuration\<close>

lemma fold_map_insert:
  "key_sorted m \<Longrightarrow> key_sorted (fold (\<lambda>(f, st). map_insert f (g st)) ps m) \<and>
     fst ` set (fold (\<lambda>(f, st). map_insert f (g st)) ps m) = fst ` set ps \<union> fst ` set m"
  by (induction ps arbitrary: m) (auto simp: map_insert_sorted map_insert_keys split: prod.splits)

lemma key_sorted_distinct: "key_sorted m \<Longrightarrow> distinct (map fst m)"
  by (induction m) (auto simp: key_sorted_Cons str_less_irrefl)

lemma make_sources_ok: "ok_sources (make_sources c opts)"
proof -
  let ?m = "fold (\<lambda>(field, setting). map_insert field (source_of c setting)) info_sources []"
  have m: "key_sorted ?m" "fst ` set ?m = fst ` set info_sources"
    using fold_map_insert [of "[]" "source_of c" info_sources] by (simp_all add: key_sorted_def)
  have s: "key_sorted (make_sources c opts)" using m(1) by (simp add: make_sources_def map_insert_sorted)
  have keys: "fst ` set (make_sources c opts) = insert ''service_name'' (fst ` set info_sources)"
    by (simp add: make_sources_def map_insert_keys m(2))
  have "length (make_sources c opts) = card (fst ` set (make_sources c opts))"
    using key_sorted_distinct [OF s] by (metis distinct_card length_map set_map)
  also have "\<dots> \<le> length (''service_name'' # map fst info_sources)"
    unfolding keys by (metis card_length list.set(2) set_map)
  finally have "length (make_sources c opts) \<le> daemon_info_max_sources"
    by (simp add: info_sources_def daemon_info_max_sources_def)
  moreover have "fst ` set (make_sources c opts) \<subseteq> set source_fields"
    unfolding keys by (simp add: info_sources_def source_fields_def)
  ultimately show ?thesis using s by (simp add: ok_sources_def)
qed

lemma fold_map_insert_frame:
  "k \<notin> fst ` set ps \<Longrightarrow> map_of (fold (\<lambda>(f, st). map_insert f (g st)) ps m) k = map_of m k"
  by (induction ps arbitrary: m) (auto simp: map_insert_lookup)

lemma fold_map_insert_lookup:
  "distinct (map fst ps) \<Longrightarrow> (k, st) \<in> set ps \<Longrightarrow> map_of (fold (\<lambda>(f, st). map_insert f (g st)) ps m) k = Some (g st)"
  by (induction ps arbitrary: m) (auto simp: map_insert_lookup fold_map_insert_frame)

lemma info_sources_fields: "distinct (map fst info_sources)" "''service_name'' \<notin> fst ` set info_sources"
  by (simp_all add: info_sources_def)

lemma make_sources_lookup:
  assumes "(field, setting) \<in> set info_sources"
  shows "map_of (make_sources c opts) field = Some (source_of c setting)"
proof -
  have "field \<noteq> ''service_name''"
    using assms info_sources_fields(2) by force
  then show ?thesis
    using fold_map_insert_lookup [OF info_sources_fields(1) assms, of "source_of c" "[]"] by (simp add: make_sources_def map_insert_lookup)
qed

definition encodable_config :: "daemon_config \<Rightarrow> daemon_cli_options \<Rightarrow> bool" where
  "encodable_config c opts \<longleftrightarrow>
     list_all ok_string [dc_config_path c, dc_home_dir c, dc_lock_file c, dc_program_config_file c, dc_app_environ_dir c,
       dc_app_log_dir c, dc_log_file c, dc_socket_file c, dc_pipe_name c, dc_pipe_sddl c, co_service_name opts,
       dc_process_tree_mode c, dc_cgroup_root c, dc_log_level c] \<and>
     in_i32 (dc_log_max_size_kb c) \<and> in_i32 (dc_log_archive_count c) \<and>
     length (dc_allowed_uids c) \<le> daemon_info_max_items \<and> length (dc_allowed_gids c) \<le> daemon_info_max_items"

lemma list_all_True: "list_all (\<lambda>_. True) xs"
  by (simp add: list_all_length)

lemma ok_empty_string [simp]: "ok_string []"
  by (simp add: ok_string_def)

lemma make_daemon_info_base_ok:
  "encodable_config c opts \<Longrightarrow> ok_string version \<Longrightarrow> in_i64 pid \<Longrightarrow> in_i64 uptime_ms \<Longrightarrow>
     ok_daemon_info (make_daemon_info_base c opts platform version pid uptime_ms)"
  by (simp add: ok_daemon_info_def make_daemon_info_base_def default_daemon_info_def encodable_config_def make_sources_ok
      ok_vector_def in_i32_def list_all_True)

text \<open>
  C40: what the daemon says about itself reaches the client.  The snapshot made of a configuration whose texts and lists are
  within the limits of the protocol can be encoded, and the client reads back exactly that snapshot, in which the source of
  each setting is the one the configuration reports.  Conversely whatever payload the client accepts, the snapshot it
  reads is within the limits, with the known source keys in order and each at most once, and encoding it again gives a payload
  that reads as the same snapshot.
\<close>

theorem daemon_info_reports:
  assumes "encodable_config c opts" "ok_string version" "in_i64 pid" "in_i64 uptime_ms"
    and "s = make_daemon_info_base c opts platform version pid uptime_ms"
  shows "(\<exists>bs. append_daemon_info s [] = Inr bs \<and> read_daemon_info bs = Inr s) \<and>
    (\<forall>(field, setting) \<in> set info_sources. map_of (di_sources s) field = Some (source_of c setting)) \<and>
    (\<forall>bs s'. read_daemon_info bs = Inr s' \<longrightarrow>
       distinct (map fst (di_sources s')) \<and> set (map fst (di_sources s')) \<subseteq> set source_fields \<and>
       (\<exists>bs'. append_daemon_info s' [] = Inr bs' \<and> read_daemon_info bs' = Inr s'))"
proof -
  have trip: "\<exists>bs. append_daemon_info s [] = Inr bs \<and> read_daemon_info bs = Inr s" if "ok_daemon_info s" for s
    using append_daemon_info_ok [OF that, of "[]"] daemon_info_reader_complete [OF that]
    by (auto simp: read_daemon_info_def read_payload_def)
  have ok: "ok_daemon_info s" unfolding assms(5) using assms(1-4) by (rule make_daemon_info_base_ok)
  have "ok_daemon_info s'" if "read_daemon_info bs = Inr s'" for bs s'
    using that daemon_info_reader_sound by (auto simp: read_daemon_info_def read_payload_eq_Inr)
  moreover have "distinct (map fst (di_sources s')) \<and> set (map fst (di_sources s')) \<subseteq> set source_fields"
    if "ok_daemon_info s'" for s'
    using that key_sorted_distinct by (auto simp: ok_daemon_info_def ok_sources_def)
  moreover have "\<forall>(field, setting) \<in> set info_sources. map_of (di_sources s) field = Some (source_of c setting)"
    using make_sources_lookup by (auto simp: assms(5) make_daemon_info_base_def)
  ultimately show ?thesis using trip ok by blast
qed

theorem daemon_info_reports_witness:
  "\<exists>bs. append_daemon_info (make_daemon_info_base default_daemon_config default_cli_options Linux_os ''1.0'' 42 7) [] = Inr bs \<and>
     read_daemon_info bs = Inr (make_daemon_info_base default_daemon_config default_cli_options Linux_os ''1.0'' 42 7)"
proof -
  have "encodable_config default_daemon_config default_cli_options"
    by (simp add: encodable_config_def default_daemon_config_def default_cli_options_def ok_string_def
        protocol_v3_max_payload_def in_i32_def windows_default_pipe_sddl_def)
  moreover have "ok_string ''1.0''" by (simp add: ok_string_def protocol_v3_max_payload_def)
  moreover have "in_i64 42" "in_i64 7" by (simp_all add: in_i64_def)
  ultimately show ?thesis using daemon_info_reports [OF _ _ _ _ refl] by blast
qed

end
