(* ===== verification/Command_Handlers.thy ===== *)
theory Command_Handlers
  imports Supervisor Daemon_Info
begin

section \<open>Command handlers (daemon/pm_tiny_funcs)\<close>

text \<open>
  \<open>handle_frame\<close>, with one definition per command.  What the daemon knows of itself beyond the program table (its
  configuration, the process tree controller, its log) is a \<open>daemon_facts\<close> record; the result of loading the
  program configuration, which only \<open>reload\<close> does, is an argument.
\<close>

subsection \<open>Reports\<close>

record daemon_log_snapshot_t =
  dl_level :: string
  dl_max_size_bytes :: nat
  dl_archive_count :: int
  dl_mirror_console :: bool
  dl_sink :: string
  dl_degraded :: bool
  dl_last_error :: string

record daemon_facts =
  df_config :: daemon_config
  df_options :: daemon_cli_options
  df_version :: string
  df_started_ms :: int
  df_tree_mode :: process_tree_mode
  df_tree_root :: string
  df_subreaper_enabled :: bool
  df_subreaper_error :: string
  df_log :: daemon_log_snapshot_t

definition count_source :: "bool \<Rightarrow> pm_tiny_server_t \<Rightarrow> 32 word" where
  "count_source runtime s = of_nat (length (filter (\<lambda>p. (p_config_source p = ''runtime'') = runtime) (sv_progs s)))"

definition daemon_snapshot :: "host \<Rightarrow> daemon_facts \<Rightarrow> pm_tiny_server_t \<Rightarrow> daemon_info_snapshot" where
  "daemon_snapshot h df s =
     (let base = make_daemon_info_base (df_config df) (df_options df) Linux_os (df_version df) (h_getpid h)
            (max 0 (h_now h - df_started_ms df));
          lg = df_log df;
          (tree_degraded, tree_reason) = h_controller h
      in base\<lparr>
        di_state := (if is_reloading s then Reloading else if is_exiting s then Stopping else Running),
        di_persistence_active := persistence_busy s,
        di_runtime_definition_count := count_source True s, di_file_config_count := count_source False s,
        di_effective_process_tree_mode := process_tree_mode_name (df_tree_mode df),
        di_cgroup_root := df_tree_root df,
        di_sources := map_insert ''cgroup_root'' Src_derived (di_sources base),
        di_subreaper_enabled := df_subreaper_enabled df,
        di_process_tree_degraded := (\<not> df_subreaper_enabled df \<or> tree_degraded),
        di_process_tree_degradation_reason :=
          (if tree_reason = [] then df_subreaper_error df
           else if df_subreaper_error df = [] then tree_reason
           else df_subreaper_error df @ ''; '' @ tree_reason),
        di_log_level := dl_level lg,
        di_log_max_size_kb := sint (of_nat (dl_max_size_bytes lg div 1024) :: 32 word),
        di_log_archive_count := dl_archive_count lg, di_log_console_mirror := dl_mirror_console lg,
        di_log_sink := (if dl_sink lg = ''file'' then Sink_file
          else if dl_sink lg = ''console_fallback'' then Sink_console_fallback else Sink_console),
        di_log_degraded := dl_degraded lg, di_log_last_error := dl_last_error lg,
        di_pty := True, di_switch_user := True, di_oom_adjust := True, di_failure_action := True,
        di_service_mode := False, di_process_tree_backends := [''cgroup_v2'', ''process_group'']\<rparr>)"

definition make_daemon_info_data :: "host \<Rightarrow> daemon_facts \<Rightarrow> pm_tiny_server_t \<Rightarrow> exn + frame" where
  "make_daemon_info_data h df s = reply_frame 0 ''success'' [append_daemon_info (daemon_snapshot h df s)]"

definition make_prog_info_data :: "host \<Rightarrow> pm_tiny_server_t \<Rightarrow> exn + frame" where
  "make_prog_info_data h s = reply_frame 0 ''success'' [append_process_list
     (map (\<lambda>p. make_process_list_entry (snapshot_config p) (snapshot_runtime h (h_controller h) p)) (sv_progs s))]"

definition handle_cmd_inspect :: "host \<Rightarrow> nat \<Rightarrow> string \<Rightarrow> pm_tiny_server_t \<Rightarrow> pm_tiny_server_t" where
  "handle_cmd_inspect h sid nm s = (case find_prog nm s of
       None \<Rightarrow> reply sid 1 (''not found `'' @ nm @ ''`'') s
     | Some p \<Rightarrow> emit [Out_frame sid (reply_frame 0 ''success'' [append_inspect_snapshot
         \<lparr>is_config = snapshot_config p, is_runtime = snapshot_runtime h (h_controller h) p\<rparr>])] s)"

subsection \<open>Start\<close>

text \<open>
  The checks on a runtime definition: the identity the program runs under, and the environment it inherits.
  \<open>Inl\<close> is the message of the refusal, which has code -3.
\<close>

definition check_identity ::
  "host \<Rightarrow> nat \<Rightarrow> start_request \<Rightarrow> string + prog_cfg_t \<times> string list" where
  "check_identity h sid request =
     (let cfg = sq_config request in
      if cfg_name cfg \<noteq> sq_name request \<or> cfg_executable cfg = [] \<or> cfg_cwd cfg = []
      then Inl ''invalid runtime definition''
      else case h_peer h sid of
        None \<Rightarrow> Inl ''cannot determine start request peer identity''
      | Some (peer_pid, peer_uid, peer_gid) \<Rightarrow>
          (case h_user_uid h peer_uid of
             None \<Rightarrow> Inl (''cannot resolve peer uid '' @ int_to_string peer_uid @ '': '' @ h_strerror h 0)
           | Some peer_user \<Rightarrow>
               (case (if cfg_run_as cfg = [] then Some (peer_user, cfg\<lparr>cfg_run_as := pw_name peer_user\<rparr>)
                      else map_option (\<lambda>u. (u, cfg)) (h_user_named h (cfg_run_as cfg))) of
                  None \<Rightarrow> Inl (''cannot resolve target user `'' @ cfg_run_as cfg @ ''`: '' @ h_strerror h 0)
                | Some (target_user, cfg') \<Rightarrow>
                    let cross_user = (pw_uid target_user \<noteq> pw_uid peer_user \<or> pw_gid target_user \<noteq> pw_gid peer_user)
                    in if h_euid h \<noteq> 0 \<and> (pw_uid target_user \<noteq> h_euid h \<or> pw_gid target_user \<noteq> h_egid h)
                       then Inl (''pm_tiny uid '' @ int_to_string (h_euid h) @ '' cannot start `'' @ sq_name request @
                              ''` as user `'' @ cfg_run_as cfg' @ ''`'')
                       else if cross_user \<and> \<not> executable_has_path (cfg_executable cfg')
                       then Inl (''cross-user start requires executable containing `/`: `'' @ cfg_executable cfg' @ ''`'')
                       else Inr (cfg', if cross_user
                              then compose_launch_environment (sq_inherited_env request) [] (Some target_user) True
                              else sq_inherited_env request))))"

text \<open>The definition is created, checked against the table and started; \<open>Inl\<close> is again a refusal.\<close>

definition create_and_start ::
  "host \<Rightarrow> nat \<Rightarrow> start_request \<Rightarrow> pm_tiny_server_t \<Rightarrow> string option \<times> pm_tiny_server_t" where
  "create_and_start h sid request s =
     (case check_identity h sid request of
        Inl msg \<Rightarrow> (Some msg, s)
      | Inr (cfg, inherited) \<Rightarrow>
          (case create_prog (sp_app_log_dir (sv_paths s)) cfg inherited of
             None \<Rightarrow> (Some (''cannot create `'' @ sq_name request @ ''`''), s)
           | Some p \<Rightarrow>
               let target = complete_prog ''runtime'' cfg p;
                   configs = map (\<lambda>e. default_prog_cfg\<lparr>cfg_name := p_name e, cfg_depends_on := cfg_depends_on (p_cfg e)\<rparr>)
                     (sv_progs s) @ [cfg]
               in case validate_and_order_prog_cfgs cfg_name cfg_depends_on configs of
                    Inl err \<Rightarrow> (Some err, s)
                  | Inr _ \<Rightarrow>
                      (case start_and_add_prog h target s of
                         (True, s1) \<Rightarrow> (None, s1)
                       | (False, s1) \<Rightarrow> (Some (''cannot start `'' @ sq_name request @ ''` as user `'' @ cfg_run_as cfg @
                           ''`: '' @ h_strerror h (if sv_errno s1 = 0 then EIO else sv_errno s1)), s1))))"

definition start_reply :: "string \<Rightarrow> pm_tiny_server_t \<Rightarrow> start_response" where
  "start_reply nm s =
     (let p = (case find_prog nm s of Some p \<Rightarrow> p | None \<Rightarrow> default_prog_info);
          r = sv_runtime s
      in if runtime_state nm r = DR_blocked
         then \<lparr>sp_result = SR_blocked, sp_pid = p_pid p, sp_state = pm_state_to_str (p_state p),
               sp_blocked_by = blocked_by nm r, sp_message = []\<rparr>
         else if p_pid p \<le> 0
         then \<lparr>sp_result = SR_waiting, sp_pid = p_pid p, sp_state = pm_state_to_str (p_state p),
               sp_blocked_by = waiting_for nm r, sp_message = []\<rparr>
         else \<lparr>sp_result = SR_started, sp_pid = p_pid p, sp_state = pm_state_to_str (p_state p),
               sp_blocked_by = [], sp_message = []\<rparr>)"

text \<open>The end of \<open>handle_cmd_start\<close>: the reply, and the log session unless the program is blocked.\<close>

definition answer_start :: "nat \<Rightarrow> start_request \<Rightarrow> pm_tiny_server_t \<Rightarrow> pm_tiny_server_t" where
  "answer_start sid request s =
     (let response = start_reply (sq_name request) s;
          s1 = (if sq_show_log request \<and> sp_result response \<noteq> SR_blocked
                then update_prog (sq_name request) (add_session sid) s else s)
      in emit [Out_frame sid (reply_frame 0 ''success'' [append_start_response response])] s1)"

definition handle_cmd_start :: "host \<Rightarrow> nat \<Rightarrow> frame \<Rightarrow> pm_tiny_server_t \<Rightarrow> pm_tiny_server_t" where
  "handle_cmd_start h sid payload s =
     (case read_start_request payload of
        Inl e \<Rightarrow> reply sid (-1) (exn_what e) s
      | Inr request \<Rightarrow>
          let nm = sq_name request in
          if sq_mode request = SM_existing
          then (case find_prog nm s of
              None \<Rightarrow> reply sid (-2) (''process not found: `'' @ nm @ ''`'') s
            | Some p \<Rightarrow>
                if p_pid p \<noteq> -1 then reply sid (-2) (''`'' @ nm @ ''` already running'') s
                else (case request_start h nm (update_prog nm reset_restart_policy s) of
                    (True, s1) \<Rightarrow> answer_start sid request s1
                  | (False, s1) \<Rightarrow> reply sid (-1) (''start failed: '' @ h_strerror h (sv_errno s1)) s1))
          else if find_prog nm s \<noteq> None then reply sid (-2) (''process already exists: `'' @ nm @ ''`'') s
          else (case create_and_start h sid request s of
              (Some msg, s1) \<Rightarrow> reply sid (-3) msg s1
            | (None, s1) \<Rightarrow> answer_start sid request s1))"

subsection \<open>Stop, delete, restart\<close>

definition handle_stop :: "host \<Rightarrow> nat \<Rightarrow> string \<Rightarrow> pm_tiny_server_t \<Rightarrow> pm_tiny_server_t" where
  "handle_stop h sid nm s = (case find_prog nm s of
       None \<Rightarrow> reply sid (-1) (''not found `'' @ nm @ ''`'') s
     | Some p \<Rightarrow>
         if p_kill_pendingtasks p \<noteq> [] then reply sid (-3) (msg_cmd_not_completed nm) s
         else case server_exiting sid s of
           Some s1 \<Rightarrow> s1
         | None \<Rightarrow>
             let s1 = run_prog nm (fail_pending_log_sessions (sv_closed s) ''log wait canceled by stop'')
                        (update_prog nm reset_restart_policy s)
             in if p_pid p \<noteq> -1
                then update_prog nm (enqueue_after_termination (Task_stop sid)) (run_prog nm (async_kill_prog h) s1)
                else reply sid 0 ''success'' (mark_dependency_stopped nm (set_prog_state nm PS_stoped s1)))"

definition handle_remove :: "host \<Rightarrow> nat \<Rightarrow> string \<Rightarrow> pm_tiny_server_t \<Rightarrow> pm_tiny_server_t" where
  "handle_remove h sid nm s = (case find_prog nm s of
       None \<Rightarrow> reply sid 1 (''not found `'' @ nm @ ''`'') s
     | Some p \<Rightarrow>
         let dependents = dependency_dependents nm s in
         if dependents \<noteq> []
         then reply sid (-3) (''cannot delete `'' @ nm @ ''`; required by: '' @ join_str dependents '','') s
         else if p_kill_pendingtasks p \<noteq> [] then reply sid (-3) (msg_cmd_not_completed nm) s
         else case server_exiting sid s of
           Some s1 \<Rightarrow> s1
         | None \<Rightarrow>
             if p_pid p \<noteq> -1
             then update_prog nm (enqueue_after_termination (Task_delete sid))
                    (set_prog_state nm PS_request_delete (run_prog nm (async_kill_prog h) s))
             else remove_prog nm (run_task h nm (Task_delete sid) (trigger_DAG_traversal_next_node p s)))"

definition handle_restart :: "host \<Rightarrow> nat \<Rightarrow> string \<Rightarrow> int \<Rightarrow> pm_tiny_server_t \<Rightarrow> pm_tiny_server_t" where
  "handle_restart h sid nm show_log s = (case find_prog nm s of
       None \<Rightarrow> reply sid (-1) (''not found `'' @ nm @ ''`'') s
     | Some p \<Rightarrow>
         let s1 = update_prog nm reset_restart_policy s;
             task = Task_restart sid (show_log \<noteq> 0)
         in if p_kill_pendingtasks p \<noteq> [] then reply sid (-3) (msg_cmd_not_completed nm) s1
            else if p_pid p \<noteq> -1
            then update_prog nm (enqueue_after_termination task) (run_prog nm (async_kill_prog h) s1)
            else run_task h nm task s1)"

subsection \<open>Logs, notifications, save, reload\<close>

definition log_response :: "log_request_mode \<Rightarrow> prog_info_t \<Rightarrow> program_log_response" where
  "log_response mode p =
     (let (reason, code) = (if p_has_last_exit p then exit_reason (p_last_wstatus p) (''unknown'', p_last_wstatus p)
                           else ([], 0))
      in \<lparr>lp_mode = mode, lp_generation = p_generation p, lp_last_pid = mi_last_pid (p_instance p),
          lp_last_exit_time_unix_ms = p_last_exit_time_unix_ms p, lp_exit_reason = reason, lp_exit_code = code\<rparr>)"

definition handle_log :: "nat \<Rightarrow> frame \<Rightarrow> pm_tiny_server_t \<Rightarrow> pm_tiny_server_t" where
  "handle_log sid payload s = (case read_program_log_request payload of
       Inl e \<Rightarrow> reply sid (-1) (exn_what e) s
     | Inr q \<Rightarrow>
         let nm = lq_name q; live = (lq_mode q = LR_live) in
         case find_prog nm s of
           None \<Rightarrow> reply sid 1 (''not found `'' @ nm @ ''`'') s
         | Some p \<Rightarrow>
             if live \<and> p_pid p = -1
             then (if p_restart_pending p then update_prog nm (wait_for_next_log_generation sid) s
                   else reply sid 2 (''`'' @ nm @ ''` is not running; use `pm log '' @ nm @
                          '' --history` to show the last completed generation'') s)
             else if \<not> live \<and> p_pid p \<noteq> -1
             then reply sid 2 (''`'' @ nm @ ''` is running; use `pm log '' @ nm @ ''`'') s
             else if \<not> live \<and> (p_generation p = 0 \<or> \<not> p_has_last_exit p \<or> p_last_exit_time_unix_ms p \<le> 0)
             then reply sid 2 (''no completed log generation available for `'' @ nm @ ''`'') s
             else emit (Out_frame sid (reply_frame 0 ''success'' [append_program_log_response (log_response (lq_mode q) p)])
                    # write_cache_log_to_session sid p @ (if live then [] else stream_to [sid] 0 [] (\<lambda>i n. False)))
                  (if live then update_prog nm (add_session sid) s else s))"

definition close_session :: "nat \<Rightarrow> pm_tiny_server_t \<Rightarrow> pm_tiny_server_t" where
  "close_session sid s = emit [Out_close sid]
     (s\<lparr>sv_closed := (sv_closed s)(sid := True), sv_progs := map (remove_session sid) (sv_progs s)\<rparr>)"

definition heartbeat_peer_matches :: "host \<Rightarrow> nat \<Rightarrow> prog_info_t \<Rightarrow> bool" where
  "heartbeat_peer_matches h sid p =
     (case h_peer h sid of
        None \<Rightarrow> False
      | Some (peer_pid, uid, gid) \<Rightarrow> p_pid p > 0 \<and> th_active (mi_tree (p_instance p)) \<and> peer_pid > 0 \<and>
          h_tree_contains h (mi_tree (p_instance p)) peer_pid)"

definition handle_ready :: "host \<Rightarrow> nat \<Rightarrow> string \<Rightarrow> pm_tiny_server_t \<Rightarrow> pm_tiny_server_t" where
  "handle_ready h sid nm s = (case find_prog nm s of
       None \<Rightarrow> close_session sid s
     | Some p \<Rightarrow>
         if \<not> heartbeat_peer_matches h sid p then close_session sid s
         else if p_state p = PS_starting
         then spawn1 h [nm] (update_prog nm (\<lambda>p. p\<lparr>p_state := PS_runing, p_last_tick_timepoint := h_now h,
                p_heartbeat_action_due_ms := 0\<rparr>) s)
         else s)"

definition handle_tick :: "host \<Rightarrow> nat \<Rightarrow> string \<Rightarrow> pm_tiny_server_t \<Rightarrow> pm_tiny_server_t" where
  "handle_tick h sid nm s = (case find_prog nm s of
       None \<Rightarrow> close_session sid s
     | Some p \<Rightarrow>
         if \<not> heartbeat_peer_matches h sid p then close_session sid s
         else if p_state p = PS_runing
         then update_prog nm (\<lambda>p. p\<lparr>p_last_tick_timepoint := h_now h, p_heartbeat_action_due_ms := 0\<rparr>) s
         else s)"

definition handle_save :: "nat \<Rightarrow> pm_tiny_server_t \<Rightarrow> pm_tiny_server_t" where
  "handle_save sid s =
     (if is_reloading s \<or> persistence_busy s then reply sid (-1) ''persistence operation busy'' s
      else case begin_save_proc_to_cfg s of
        (False, s1) \<Rightarrow> reply sid (-1) ''persistence operation busy'' s1
      | (True, s1) \<Rightarrow> s1\<lparr>sv_wait_save := sv_wait_save s1 @ [sid]\<rparr>)"

definition handle_reload :: "host \<Rightarrow> prog_cfg_load_result_t \<Rightarrow> nat \<Rightarrow> pm_tiny_server_t \<Rightarrow> pm_tiny_server_t" where
  "handle_reload h loaded sid s = (case server_exiting sid s of
       Some s1 \<Rightarrow> s1
     | None \<Rightarrow>
         if persistence_busy s then reply sid (-1) ''persistence operation busy'' s
         else
           let rc = parse_cfg2 loaded s in
           if \<not> rl_valid rc
           then reply sid (-1) (if rl_error_message rc = [] then ''invalid configuration'' else rl_error_message rc) s
           else
             let s1 = request_quit h (s\<lparr>sv_reload := Some rc\<rparr>)
             in s1\<lparr>sv_wait_reload := sv_wait_reload s1 @ [sid]\<rparr>)"

definition handle_quit :: "host \<Rightarrow> nat \<Rightarrow> pm_tiny_server_t \<Rightarrow> pm_tiny_server_t" where
  "handle_quit h sid s =
     request_quit h (emit [Out_frame sid (reply_frame 0 ''success'' [fappend_i32 (h_getpid h)])] s)"

subsection \<open>Dispatch\<close>

text \<open>
  \<open>handle_frame\<close>.  A restart request that ends after the name raises \<open>BufferInsufficientException\<close>, which the
  event loop answers and which nothing else raises: the decoder has found the name.
\<close>

definition handle_frame ::
  "host \<Rightarrow> daemon_facts \<Rightarrow> prog_cfg_load_result_t \<Rightarrow> protocol_message \<Rightarrow> nat \<Rightarrow> pm_tiny_server_t \<Rightarrow> exn + pm_tiny_server_t" where
  "handle_frame h df loaded request sid s =
     (let dec = decode_control_request request; nm = dc_name dec; payload = pm_payload request in
      if \<not> dc_success dec then Inr (reply sid (-1) (dc_error dec) s)
      else case dc_command dec of
        CC_list \<Rightarrow> Inr (emit [Out_frame sid (make_prog_info_data h s)] s)
      | CC_info \<Rightarrow> Inr (emit [Out_frame sid (make_daemon_info_data h df s)] s)
      | CC_stop \<Rightarrow> Inr (handle_stop h sid nm s)
      | CC_start \<Rightarrow> Inr (case server_exiting sid s of Some s1 \<Rightarrow> s1 | None \<Rightarrow> handle_cmd_start h sid payload s)
      | CC_save \<Rightarrow> Inr (handle_save sid s)
      | CC_remove \<Rightarrow> Inr (handle_remove h sid nm s)
      | CC_restart \<Rightarrow> (case rbind fget_string (\<lambda>nm. fget_i32) payload of
            Inl e \<Rightarrow> Inl e
          | Inr (show_log, rest) \<Rightarrow> Inr (handle_restart h sid nm show_log s))
      | CC_version \<Rightarrow> Inr (emit [Out_frame sid (reply_frame 0 ''success'' [fappend_string (df_version df)])] s)
      | CC_log \<Rightarrow> Inr (handle_log sid payload s)
      | CC_app_ready \<Rightarrow> Inr (handle_ready h sid nm s)
      | CC_app_tick \<Rightarrow> Inr (handle_tick h sid nm s)
      | CC_inspect \<Rightarrow> Inr (handle_cmd_inspect h sid nm s)
      | CC_quit \<Rightarrow> Inr (handle_quit h sid s)
      | CC_reload \<Rightarrow> Inr (handle_reload h loaded sid s))"

definition dispatch_message ::
  "host \<Rightarrow> daemon_facts \<Rightarrow> prog_cfg_load_result_t \<Rightarrow> protocol_message \<Rightarrow> nat \<Rightarrow> pm_tiny_server_t \<Rightarrow> pm_tiny_server_t" where
  "dispatch_message h df loaded request sid s =
     (case handle_frame h df loaded request sid s of
        Inl e \<Rightarrow> reply sid (-1) ''Invalid argument'' s
      | Inr s1 \<Rightarrow> s1)"

subsection \<open>The daemon as a state machine\<close>

text \<open>
  What the event loop delivers: a request, a closed connection, output of a program (whose pipe may have been closed
  in the meantime), the end of a background save, and a round of maintenance.
\<close>

datatype daemon_event =
    Ev_request nat protocol_message prog_cfg_load_result_t
  | Ev_disconnect nat
  | Ev_output string nat
  | Ev_saved int
  | Ev_maintenance bool "(int \<times> int) list option"

fun daemon_step :: "daemon_facts \<Rightarrow> host \<times> daemon_event \<Rightarrow> pm_tiny_server_t \<Rightarrow> pm_tiny_server_t" where
  "daemon_step df (h, Ev_request sid request loaded) s = dispatch_message h df loaded request sid s"
| "daemon_step df (h, Ev_disconnect sid) s = close_session sid s"
| "daemon_step df (h, Ev_output nm i) s = run_prog nm (\<lambda>p. if p_pipes p ! i then read_pipe h i False p else ([], p)) s"
| "daemon_step df (h, Ev_saved result) s = s\<lparr>sv_worker := worker_finish result (sv_worker s)\<rparr>"
| "daemon_step df (h, Ev_maintenance exit_signal reaped) s = snd (maintenance h exit_signal reaped s)"

text \<open>The start of the daemon: the configuration is loaded and the programs are started; \<open>None\<close> is an exit.\<close>

definition new_server :: "server_paths \<Rightarrow> pm_tiny_server_t" where
  "new_server paths = \<lparr>sv_paths = paths, sv_progs = [], sv_graph = empty_graph, sv_runtime = reset empty_graph,
     sv_exit = False, sv_reload = None, sv_wait_reload = [], sv_wait_save = [], sv_worker = new_worker,
     sv_saving = [], sv_closed = (\<lambda>_. False), sv_launches = 0, sv_errno = 0, sv_out = []\<rparr>"

definition boot_server :: "host \<Rightarrow> server_paths \<Rightarrow> prog_cfg_load_result_t \<Rightarrow> pm_tiny_server_t option" where
  "boot_server h paths loaded = (case parse_cfg loaded (new_server paths) of
       (False, s) \<Rightarrow> None
     | (True, s) \<Rightarrow> Some (spawn h s))"

end
