(* ===== verification/Supervisor_Frames.thy ===== *)
theory Supervisor_Frames
  imports Command_Handlers
begin

section \<open>Frames of the supervisor's operations\<close>

text \<open>
  Almost every operation of the daemon relates its state before and after by a \<open>frame\<close>: it keeps the definitions of
  the programs and the graph, does not make a program run that did not, and emits no forbidden effect.  Frames
  compose, so each operation needs one lemma.
\<close>

subsection \<open>Programs\<close>

definition live_state :: "prog_state \<Rightarrow> bool" where
  "live_state st \<longleftrightarrow> st = PS_starting \<or> st = PS_runing \<or> st = PS_request_delete"

text \<open>A program that is starting, running or being deleted has a process; while the daemon is exiting, none starts or runs.\<close>

definition prog_ok :: "bool \<Rightarrow> prog_info_t \<Rightarrow> bool" where
  "prog_ok ex p \<longleftrightarrow> (live_state (p_state p) \<longrightarrow> p_pid p \<noteq> -1) \<and>
     (ex \<longrightarrow> p_state p \<noteq> PS_starting \<and> p_state p \<noteq> PS_runing)"

definition prog_step :: "bool \<Rightarrow> prog_info_t \<Rightarrow> prog_info_t \<Rightarrow> bool" where
  "prog_step ex p p' \<longleftrightarrow> p_cfg p' = p_cfg p \<and> (prog_ok ex p \<longrightarrow> prog_ok ex p') \<and>
     (prog_ok False p \<longrightarrow> prog_ok False p') \<and>
     (p_state p' = PS_runing \<longrightarrow> p_state p = PS_runing) \<and>
     (ex \<longrightarrow> p_state p' = PS_starting \<longrightarrow> p_state p = PS_starting)"

lemma prog_step_refl [simp, intro]: "prog_step ex p p"
  by (simp add: prog_step_def)

lemma prog_step_trans: "prog_step ex p q \<Longrightarrow> prog_step ex q r \<Longrightarrow> prog_step ex p r"
  by (auto simp: prog_step_def)

text \<open>The effects of an operation that neither aborts the daemon nor, while it is exiting, starts a process.\<close>

fun is_start :: "effect \<Rightarrow> bool" where
  "is_start (Out_started nm pid exec) = True"
| "is_start _ = False"

definition quiet :: "bool \<Rightarrow> effect list \<Rightarrow> bool" where
  "quiet ex effs \<longleftrightarrow> list_all (\<lambda>e. e \<noteq> Out_abort \<and> (ex \<longrightarrow> \<not> is_start e)) effs"

lemma quiet_simps [simp]:
  "quiet ex []" "quiet ex (xs @ ys) \<longleftrightarrow> quiet ex xs \<and> quiet ex ys"
  "quiet ex (e # es) \<longleftrightarrow> e \<noteq> Out_abort \<and> (ex \<longrightarrow> \<not> is_start e) \<and> quiet ex es"
  "quiet ex (map (\<lambda>x. Out_frame (f x) (g x)) zs)" "quiet ex (map Out_mark_close zs')"
  by (auto simp: quiet_def list_all_iff)

lemma quiet_stream [simp]: "quiet ex (stream_to sids t c more_of)"
  by (auto simp: stream_to_def quiet_def list_all_iff split: sum.splits)

text \<open>What methods leave alone that only touch the logs, the sessions or the restart plan.\<close>

definition same_run :: "prog_info_t \<Rightarrow> prog_info_t \<Rightarrow> bool" where
  "same_run p p' \<longleftrightarrow> p_cfg p' = p_cfg p \<and> p_instance p' = p_instance p \<and> p_state p' = p_state p \<and>
     p_kill_pendingtasks p' = p_kill_pendingtasks p \<and> p_last_startup_ms p' = p_last_startup_ms p \<and>
     p_restart_state p' = p_restart_state p"

lemma same_run_refl [simp]: "same_run p p"
  by (simp add: same_run_def)

lemma same_run_trans: "same_run p q \<Longrightarrow> same_run q r \<Longrightarrow> same_run p r"
  by (simp add: same_run_def)

lemma same_run_step: "same_run p p' \<Longrightarrow> prog_step ex p p'"
  by (auto simp: same_run_def prog_step_def prog_ok_def)

lemma fold_same_run: "(\<And>x q. same_run q (f x q)) \<Longrightarrow> same_run p (fold f xs p)"
  by (induction xs arbitrary: p) (auto intro: same_run_trans)

lemma same_run_sessions [simp]:
  "same_run p (snd (fail_pending_log_sessions closed m p))" "same_run p (snd (detach_sessions closed p))"
  "same_run p (add_session sid p)" "same_run p (remove_session sid p)"
  "same_run p (wait_for_next_log_generation sid p)" "same_run p (snd (activate_pending_log_sessions closed p))"
  "same_run p (snd (write_msg_to_sessions t c p))" "same_run p (snd (write_prog_exit_message closed p))"
  by (simp_all add: same_run_def fail_pending_log_sessions_def detach_sessions_def add_session_def remove_session_def
      wait_for_next_log_generation_def activate_pending_log_sessions_def write_msg_to_sessions_def
      write_prog_exit_message_def Let_def split: prod.splits)

lemma quiet_sessions [simp]:
  "quiet ex (fst (fail_pending_log_sessions closed m p))" "quiet ex (fst (detach_sessions closed p))"
  "quiet ex (fst (activate_pending_log_sessions closed p))" "quiet ex (fst (write_msg_to_sessions t c p))"
  "quiet ex (fst (write_prog_exit_message closed p))" "quiet ex (write_cache_log_to_session sid p)"
  by (auto simp: fail_pending_log_sessions_def detach_sessions_def activate_pending_log_sessions_def
      write_msg_to_sessions_def write_prog_exit_message_def write_cache_log_to_session_def Let_def split: prod.splits)

lemma same_run_open_writer [simp]: "same_run p (open_writer h i p)"
  by (simp add: open_writer_def same_run_def split: option.splits)

lemma same_run_init_prog_log [simp]: "same_run p (init_prog_log h p)"
proof -
  have "same_run (p\<lparr>p_log_tail := clear_tail (p_log_tail p), p_log_health := reset_health (p_log_health p),
      p_residual_log := []\<rparr>) (init_prog_log h p)"
    unfolding init_prog_log_def by (rule fold_same_run) simp
  then show ?thesis by (simp add: same_run_def)
qed

lemma same_run_write_log [simp]: "same_run p (snd (write_log h w txt p))"
  by (simp add: write_log_def same_run_def split: option.splits)

lemma same_run_reopen [simp]: "same_run p (recover_log (reopen_siblings h p))"
proof -
  have "same_run p (reopen_siblings h p)" unfolding reopen_siblings_def by (rule fold_same_run) simp
  moreover have "same_run q (recover_log q)" for q by (simp add: recover_log_def same_run_def)
  ultimately show ?thesis by (blast intro: same_run_trans)
qed

lemma same_run_write_log_reopen: "same_run p (snd (write_log h w txt (recover_log (reopen_siblings h (p\<lparr>p_writers := ws\<rparr>)))))"
proof -
  have "same_run p (p\<lparr>p_writers := ws\<rparr>)" by (simp add: same_run_def)
  then show ?thesis by (blast intro: same_run_trans same_run_reopen same_run_write_log)
qed

lemma same_run_redirect [simp]: "same_run p (snd (redirect_output_log h i txt p))"
proof -
  have "same_run p (p\<lparr>p_log_health := x\<rparr>)" for x by (simp add: same_run_def)
  then show ?thesis
    by (simp add: redirect_output_log_def Let_def same_run_write_log_reopen split: option.splits)
qed

lemma quiet_redirect [simp]: "quiet ex (fst (redirect_output_log h i txt p))"
  by (auto simp: redirect_output_log_def write_log_def Let_def split: option.splits)

lemma read_piece_frame:
  "same_run p (snd (read_piece h i x (effs, p)))" "quiet ex effs \<Longrightarrow> quiet ex (fst (read_piece h i x (effs, p)))"
proof -
  let ?q = "snd (if cfg_pty (p_cfg p) then prog_remove_ANSI x p else (x, p))"
  have "same_run p ?q" by (simp add: prog_remove_ANSI_def same_run_def split: prod.splits)
  then show "same_run p (snd (read_piece h i x (effs, p)))"
    unfolding read_piece_def Let_def case_prod_beta fst_conv snd_conv
    by (rule same_run_trans) (rule same_run_redirect)
  show "quiet ex effs \<Longrightarrow> quiet ex (fst (read_piece h i x (effs, p)))"
    unfolding read_piece_def Let_def case_prod_beta fst_conv snd_conv by simp
qed

lemma fold_frame:
  assumes "\<And>x effs p. same_run p (snd (f x (effs, p)))"
    and "\<And>x effs p. quiet ex effs \<Longrightarrow> quiet ex (fst (f x (effs, p)))"
  shows "same_run p (snd (fold f xs (effs, p)))" "quiet ex effs \<Longrightarrow> quiet ex (fst (fold f xs (effs, p)))"
proof (induction xs arbitrary: effs p)
  case (Cons x xs)
  { case 1
    obtain e q where "f x (effs, p) = (e, q)" by fastforce
    then show ?case using Cons(1) [of q e] assms(1) [of p x effs] by (auto intro: same_run_trans) }
  { case 2
    obtain e q where "f x (effs, p) = (e, q)" by fastforce
    then show ?case using Cons(2) [of e q] assms(2) [of effs x p] 2 by simp }
qed simp_all

lemma read_round_frame:
  "same_run p (snd (read_round h i x (effs, p)))" "quiet ex effs \<Longrightarrow> quiet ex (fst (read_round h i x (effs, p)))"
proof -
  note f = fold_frame [where f = "read_piece h i" and xs = "split_contents 4096 x" and effs = effs and p = p and ex = ex,
      OF read_piece_frame]
  show "same_run p (snd (read_round h i x (effs, p)))"
    unfolding read_round_def Let_def case_prod_beta fst_conv snd_conv
    using same_run_trans [OF f(1) same_run_sessions(7)] by simp
  show "quiet ex effs \<Longrightarrow> quiet ex (fst (read_round h i x (effs, p)))"
    unfolding read_round_def Let_def case_prod_beta fst_conv snd_conv using f(2) by simp
qed

lemma read_pipe_frame [simp]: "same_run p (snd (read_pipe h i killed p))" "quiet ex (fst (read_pipe h i killed p))"
proof -
  have c: "same_run q (close_pipe i q)" for q by (simp add: close_pipe_def same_run_def)
  have r: "same_run p (snd (fold (read_round h i) xs ([], p)))" "quiet ex (fst (fold (read_round h i) xs ([], p)))" for xs
    by (simp_all add: fold_frame [OF read_round_frame])
  show "same_run p (snd (read_pipe h i killed p))"
    using same_run_trans [OF r(1) c] c read_round_frame(1)
    by (simp add: read_pipe_def Let_def case_prod_beta)
  show "quiet ex (fst (read_pipe h i killed p))"
    using r(2) read_round_frame(2) by (simp add: read_pipe_def Let_def case_prod_beta)
qed

text \<open>The end of a process: everything but the process is kept.\<close>

lemma close_fds_frame:
  "\<exists>q. same_run p q \<and> same_run (q\<lparr>p_instance := (p_instance q)\<lparr>mi_pid := -1\<rparr>\<rparr>) (snd (close_fds h closed p))"
  "quiet ex (fst (close_fds h closed p))"
proof -
  let ?p0 = "snd (if p_pipes p ! 0 then read_pipe h 0 True p else ([], p))"
  let ?p1 = "snd (if p_pipes ?p0 ! 1 then read_pipe h 1 True ?p0 else ([], ?p0))"
  let ?p2 = "snd (write_prog_exit_message closed ?p1)"
  have "same_run p ?p0" by simp
  moreover have "same_run ?p0 ?p1" by simp
  moreover have "same_run ?p1 ?p2" by simp
  ultimately have "same_run p ?p2" by (blast intro: same_run_trans)
  moreover have "same_run (?p2\<lparr>p_instance := (p_instance ?p2)\<lparr>mi_pid := -1\<rparr>\<rparr>) (snd (close_fds h closed p))"
    by (simp add: close_fds_def Let_def case_prod_beta same_run_def)
  ultimately show "\<exists>q. same_run p q \<and>
      same_run (q\<lparr>p_instance := (p_instance q)\<lparr>mi_pid := -1\<rparr>\<rparr>) (snd (close_fds h closed p))" by blast
  show "quiet ex (fst (close_fds h closed p))"
    by (simp add: close_fds_def Let_def case_prod_beta)
qed

subsection \<open>Frames\<close>

definition distinct_names :: "pm_tiny_server_t \<Rightarrow> bool" where
  "distinct_names s \<longleftrightarrow> distinct (map p_name (sv_progs s))"

definition runtime_ok :: "pm_tiny_server_t \<Rightarrow> bool" where
  "runtime_ok s \<longleftrightarrow> rt_wf (sv_runtime s) \<and> dr_graph (sv_runtime s) = sv_graph s"

definition emits :: "bool \<Rightarrow> pm_tiny_server_t \<Rightarrow> pm_tiny_server_t \<Rightarrow> bool" where
  "emits ex s s' \<longleftrightarrow> (\<exists>effs. sv_out s' = sv_out s @ effs \<and> quiet ex effs)"

text \<open>What an operation keeps, in a table whose names are distinct.\<close>

definition frame_of :: "pm_tiny_server_t \<Rightarrow> pm_tiny_server_t \<Rightarrow> bool" where
  "frame_of s s' \<longleftrightarrow> distinct_names s \<longrightarrow>
     list_all2 (prog_step (sv_exit s)) (sv_progs s) (sv_progs s') \<and>
     sv_graph s' = sv_graph s \<and> (runtime_ok s \<longrightarrow> runtime_ok s') \<and> emits (sv_exit s) s s' \<and>
     sv_exit s' = sv_exit s \<and> sv_reload s' = sv_reload s \<and> sv_paths s' = sv_paths s"

lemma emits_refl [simp]: "sv_out s' = sv_out s \<Longrightarrow> emits ex s s'"
  by (simp add: emits_def)

lemma emits_trans: "emits ex s t \<Longrightarrow> emits ex t u \<Longrightarrow> emits ex s u"
  unfolding emits_def by (metis append.assoc quiet_simps(2))

lemma steps_refl [simp]: "list_all2 (prog_step ex) ps ps"
  by (simp add: list_all2_conv_all_nth)

lemma steps_trans: "list_all2 (prog_step ex) ps qs \<Longrightarrow> list_all2 (prog_step ex) qs rs \<Longrightarrow> list_all2 (prog_step ex) ps rs"
  by (rule list_all2_trans) (rule prog_step_trans)

lemma steps_cfg: "list_all2 (prog_step ex) ps qs \<Longrightarrow> map p_cfg qs = map p_cfg ps"
  by (induction rule: list_all2_induct) (auto simp: prog_step_def)

lemma map_cfg_cong: "map p_cfg qs = map p_cfg ps \<Longrightarrow> map (\<lambda>p. f (p_cfg p)) qs = map (\<lambda>p. f (p_cfg p)) ps"
proof -
  assume "map p_cfg qs = map p_cfg ps"
  then have "map f (map p_cfg qs) = map f (map p_cfg ps)" by simp
  then show ?thesis by (simp add: comp_def)
qed

lemma steps_names: "list_all2 (prog_step ex) ps qs \<Longrightarrow> map p_name qs = map p_name ps"
  using map_cfg_cong [OF steps_cfg, of ex ps qs cfg_name] .

lemma frame_refl [simp, intro]: "frame_of s s"
  by (simp add: frame_of_def)

lemma frame_distinct: "frame_of s t \<Longrightarrow> distinct_names s \<Longrightarrow> distinct_names t"
  using steps_names by (auto simp: frame_of_def distinct_names_def)

lemma frame_trans [trans]:
  assumes "frame_of s t" "frame_of t u"
  shows "frame_of s u"
  unfolding frame_of_def
proof
  assume d: "distinct_names s"
  note f1 = assms(1) [unfolded frame_of_def, rule_format, OF d]
  note f2 = assms(2) [unfolded frame_of_def, rule_format, OF frame_distinct [OF assms(1) d]]
  show "list_all2 (prog_step (sv_exit s)) (sv_progs s) (sv_progs u) \<and> sv_graph u = sv_graph s \<and>
     (runtime_ok s \<longrightarrow> runtime_ok u) \<and> emits (sv_exit s) s u \<and> sv_exit u = sv_exit s \<and> sv_reload u = sv_reload s \<and>
     sv_paths u = sv_paths s"
    using f1 f2 by (auto intro: steps_trans emits_trans)
qed

lemma frame_fold: "(\<And>x t. frame_of t (f x t)) \<Longrightarrow> frame_of s (fold f xs s)"
  by (induction xs arbitrary: s) (auto intro: frame_trans)

lemma frameI:
  assumes "sv_progs s' = sv_progs s" "sv_graph s' = sv_graph s" "sv_out s' = sv_out s" "sv_exit s' = sv_exit s"
    "sv_reload s' = sv_reload s" "sv_paths s' = sv_paths s" "runtime_ok s \<Longrightarrow> runtime_ok s'"
  shows "frame_of s s'"
  using assms by (simp add: frame_of_def)

lemma frame_emit: "quiet (sv_exit s) effs \<Longrightarrow> frame_of s (emit effs s)"
  by (auto simp: frame_of_def emit_def emits_def runtime_ok_def)

lemma frame_emit_quiet: "(\<And>ex. quiet ex effs) \<Longrightarrow> frame_of s (emit effs s)"
  by (rule frame_emit) simp

lemma frame_update_prog:
  assumes "\<And>p. p \<in> set (sv_progs s) \<Longrightarrow> p_name p = nm \<Longrightarrow> prog_step (sv_exit s) p (f p)"
  shows "frame_of s (update_prog nm f s)"
  using assms by (auto simp: frame_of_def update_prog_def runtime_ok_def list_all2_conv_all_nth)

lemma frame_update_same_run: "(\<And>p. same_run p (f p)) \<Longrightarrow> frame_of s (update_prog nm f s)"
  by (rule frame_update_prog) (simp add: same_run_step)

lemma find_prog_Some: "find_prog nm s = Some p \<Longrightarrow> p \<in> set (sv_progs s) \<and> p_name p = nm"
  by (auto simp: find_prog_def find_Some_iff)

lemma find_prog_None: "find_prog nm s = None \<longleftrightarrow> nm \<notin> p_name ` set (sv_progs s)"
  by (auto simp: find_prog_def find_None_iff)

lemma find_prog_unique:
  "distinct_names s \<Longrightarrow> p \<in> set (sv_progs s) \<Longrightarrow> p_name p = nm \<Longrightarrow> find_prog nm s = Some p"
proof -
  assume d: "distinct_names s" and p: "p \<in> set (sv_progs s)" "p_name p = nm"
  then obtain q where q: "find_prog nm s = Some q" by (metis find_prog_None image_eqI not_None_eq)
  then have "q \<in> set (sv_progs s)" "p_name q = p_name p" using find_prog_Some p(2) by auto
  with d p(1) have "q = p" by (auto simp: distinct_names_def distinct_map dest: inj_onD)
  with q show ?thesis by simp
qed

text \<open>A program replaced by a successor.\<close>

lemma frame_replace:
  assumes "find_prog nm s = Some p" "prog_step (sv_exit s) p p'"
  shows "frame_of s (update_prog nm (\<lambda>_. p') s)"
  unfolding frame_of_def
proof
  assume d: "distinct_names s"
  have "frame_of s (update_prog nm (\<lambda>_. p') s)"
    by (rule frame_update_prog) (use find_prog_unique [OF d] assms in auto)
  with d show "list_all2 (prog_step (sv_exit s)) (sv_progs s) (sv_progs (update_prog nm (\<lambda>_. p') s)) \<and>
     sv_graph (update_prog nm (\<lambda>_. p') s) = sv_graph s \<and> (runtime_ok s \<longrightarrow> runtime_ok (update_prog nm (\<lambda>_. p') s)) \<and>
     emits (sv_exit s) s (update_prog nm (\<lambda>_. p') s) \<and> sv_exit (update_prog nm (\<lambda>_. p') s) = sv_exit s \<and>
     sv_reload (update_prog nm (\<lambda>_. p') s) = sv_reload s \<and> sv_paths (update_prog nm (\<lambda>_. p') s) = sv_paths s"
    by (simp add: frame_of_def)
qed

lemma update_prog_sel [simp]:
  "sv_graph (update_prog nm f s) = sv_graph s" "sv_runtime (update_prog nm f s) = sv_runtime s"
  "sv_exit (update_prog nm f s) = sv_exit s" "sv_closed (update_prog nm f s) = sv_closed s"
  "sv_out (update_prog nm f s) = sv_out s" "sv_reload (update_prog nm f s) = sv_reload s"
  "sv_progs (update_prog nm f s) = map (\<lambda>p. if p_name p = nm then f p else p) (sv_progs s)"
  "sv_launches (update_prog nm f s) = sv_launches s" "sv_paths (update_prog nm f s) = sv_paths s"
  "sv_errno (update_prog nm f s) = sv_errno s" "sv_worker (update_prog nm f s) = sv_worker s"
  by (simp_all add: update_prog_def)

lemma emit_sel [simp]:
  "sv_graph (emit effs s) = sv_graph s" "sv_runtime (emit effs s) = sv_runtime s" "sv_exit (emit effs s) = sv_exit s"
  "sv_closed (emit effs s) = sv_closed s" "sv_out (emit effs s) = sv_out s @ effs" "sv_reload (emit effs s) = sv_reload s"
  "sv_progs (emit effs s) = sv_progs s" "sv_launches (emit effs s) = sv_launches s" "sv_paths (emit effs s) = sv_paths s"
  "sv_errno (emit effs s) = sv_errno s" "sv_worker (emit effs s) = sv_worker s"
  by (simp_all add: emit_def)

lemma find_prog_emit [simp]: "find_prog nm (emit effs s) = find_prog nm s"
  by (simp add: find_prog_def)

lemma find_map: "List.find P (map f xs) = map_option f (List.find (P \<circ> f) xs)"
  by (induction xs) auto

lemma find_prog_update:
  assumes "\<And>p. p_name (f p) = p_name p"
  shows "find_prog nm' (update_prog nm f s) = map_option (\<lambda>p. if p_name p = nm then f p else p) (find_prog nm' s)"
proof -
  have "(\<lambda>p. p_name p = nm') \<circ> (\<lambda>p. if p_name p = nm then f p else p) = (\<lambda>p. p_name p = nm')"
    by (simp add: fun_eq_iff assms)
  then show ?thesis by (simp add: find_prog_def find_map)
qed

lemma find_prog_replace:
  assumes "find_prog nm s = Some p" "p_name p' = nm"
  shows "find_prog nm (update_prog nm (\<lambda>_. p') s) = Some p'"
proof -
  have "(\<lambda>q. p_name q = nm) \<circ> (\<lambda>q. if p_name q = nm then p' else q) = (\<lambda>q. p_name q = nm)"
    using assms(2) by (auto simp: fun_eq_iff)
  then show ?thesis using assms find_prog_Some [OF assms(1)] by (simp add: find_prog_def find_map)
qed

lemma find_prog_other:
  assumes "p_name p' = nm" "nm' \<noteq> nm"
  shows "find_prog nm' (update_prog nm (\<lambda>_. p') s) = find_prog nm' s"
proof -
  have "(\<lambda>q. p_name q = nm') \<circ> (\<lambda>q. if p_name q = nm then p' else q) = (\<lambda>q. p_name q = nm')"
    using assms by (auto simp: fun_eq_iff)
  then have "find_prog nm' (update_prog nm (\<lambda>_. p') s) = map_option (\<lambda>q. if p_name q = nm then p' else q) (find_prog nm' s)"
    by (simp add: find_prog_def find_map)
  also have "\<dots> = find_prog nm' s"
  proof (cases "find_prog nm' s")
    case (Some q)
    with assms(2) show ?thesis using find_prog_Some [OF Some] by simp
  qed simp
  finally show ?thesis .
qed

lemma frame_run_prog:
  assumes "\<And>p. find_prog nm s = Some p \<Longrightarrow> prog_step (sv_exit s) p (snd (m p)) \<and> quiet (sv_exit s) (fst (m p))"
  shows "frame_of s (run_prog nm m s)"
proof (cases "find_prog nm s")
  case (Some p)
  have "frame_of s (update_prog nm (\<lambda>_. snd (m p)) s)" by (rule frame_replace [OF Some]) (use assms Some in blast)
  moreover have "frame_of (update_prog nm (\<lambda>_. snd (m p)) s) (run_prog nm m s)"
    using assms [OF Some] Some by (simp add: run_prog_def frame_emit)
  ultimately show ?thesis by (rule frame_trans)
qed (simp add: run_prog_def)

lemma frame_run_same: "(\<And>p. same_run p (snd (m p)) \<and> quiet (sv_exit s) (fst (m p))) \<Longrightarrow> frame_of s (run_prog nm m s)"
  by (rule frame_run_prog) (simp add: same_run_step)

lemma run_prog_run_prog:
  assumes "\<And>p. p_name (snd (m p)) = p_name p"
  shows "run_prog nm n (run_prog nm m s) = run_prog nm (\<lambda>p. (fst (m p) @ fst (n (snd (m p))), snd (n (snd (m p))))) s"
proof (cases "find_prog nm s")
  case (Some p)
  with find_prog_Some have nm: "p_name p = nm" by blast
  have "find_prog nm (run_prog nm m s) = Some (snd (m p))"
    using Some find_prog_replace [OF Some, of "snd (m p)"] assms nm by (simp add: run_prog_def)
  then show ?thesis
    using Some assms nm by (simp add: run_prog_def emit_def update_prog_def comp_def cong: if_cong)
qed (simp add: run_prog_def)

subsection \<open>The frames of the table operations\<close>

lemma runtime_calls_wf:
  assumes "rt_wf r"
  shows "rt_wf (snd (mark_ready nm r))" "dr_graph (snd (mark_ready nm r)) = dr_graph r"
    "rt_wf (snd (request_closure nm r))" "dr_graph (snd (request_closure nm r)) = dr_graph r"
    "rt_wf (snd (request_all r))" "dr_graph (snd (request_all r)) = dr_graph r"
    "rt_wf (mark_idle nm r)" "dr_graph (mark_idle nm r) = dr_graph r"
  using runtime_step_wf [OF assms, of "Call_mark_ready nm"] runtime_step_wf [OF assms, of "Call_request_closure nm"]
    runtime_step_wf [OF assms, of Call_request_all] runtime_step_wf [OF assms, of "Call_mark_idle nm"]
  by (simp_all add: runtime_step_def)

lemma frame_set_state:
  "\<not> live_state st \<Longrightarrow> frame_of s (set_prog_state nm st s)"
  unfolding set_prog_state_def by (rule frame_update_prog) (auto simp: prog_step_def prog_ok_def live_state_def)

lemma frame_flag_startup_fail: "frame_of s (flag_startup_fail nm s)"
proof -
  let ?r = "snd (mark_failed nm (sv_runtime s))"
  have "frame_of s (s\<lparr>sv_runtime := ?r\<rparr>)"
    by (rule frameI) (use mark_failed_wf [of "sv_runtime s" nm] in \<open>simp_all add: runtime_ok_def\<close>)
  also have "frame_of (s\<lparr>sv_runtime := ?r\<rparr>) (set_prog_state nm PS_startup_fail (s\<lparr>sv_runtime := ?r\<rparr>))"
    by (rule frame_set_state) (simp add: live_state_def)
  also have "frame_of \<dots> (fold (\<lambda>b. set_prog_state b PS_blocked) bs \<dots>)" for bs
    by (rule frame_fold, rule frame_set_state) (simp add: live_state_def)
  finally show ?thesis by (simp add: flag_startup_fail_def case_prod_beta)
qed

lemma frame_spawn_prog:
  assumes "\<not> sv_exit s" "find_prog nm s = Some p" "p_pid p = -1"
  shows "frame_of s (snd (spawn_prog h nm s))"
proof -
  obtain err effs p' where r: "real_spawn_prog h (sv_paths s) (h_spawn h (sv_launches s)) p = (err, effs, p')"
    by (metis prod_cases3)
  let ?s = "s\<lparr>sv_launches := sv_launches s + 1, sv_errno := (case err of Some e \<Rightarrow> e | None \<Rightarrow> sv_errno s)\<rparr>"
  have step: "prog_step False p p' \<and> quiet False effs"
  proof (cases err)
    case None
    with r real_spawn_prog_ok [OF r [unfolded None]] real_spawn_prog_keeps(1) [OF r] show ?thesis
      by (auto simp: prog_step_def prog_ok_def)
  next
    case (Some e)
    with real_spawn_prog_failed [OF r [unfolded Some] assms(3)] real_spawn_prog_keeps(1) [OF r] assms(3) show ?thesis
      by (auto simp: prog_step_def prog_ok_def)
  qed
  have "frame_of s ?s" by (rule frameI) (simp_all add: runtime_ok_def)
  also have "frame_of ?s (update_prog nm (\<lambda>_. p') ?s)"
  proof (rule frame_replace)
    show "find_prog nm ?s = Some p" using assms(2) by (simp add: find_prog_def)
    show "prog_step (sv_exit ?s) p p'" using step assms(1) by simp
  qed
  also have "frame_of \<dots> (emit effs \<dots>)" using step assms(1) by (simp add: frame_emit)
  finally show ?thesis using assms(2) r by (simp add: spawn_prog_def)
qed

lemma frame_exit: "frame_of s t \<Longrightarrow> distinct_names s \<Longrightarrow> sv_exit t = sv_exit s"
  by (simp add: frame_of_def)

text \<open>Frames of operations that start programs need a daemon that is not exiting.\<close>

lemma frame_under:
  assumes "distinct_names s \<Longrightarrow> frame_of s t"
  shows "frame_of s t"
  using assms by (simp add: frame_of_def)

lemma spawn0_frame: "distinct_names s \<Longrightarrow> \<not> sv_exit s \<Longrightarrow> frame_of s (snd (spawn0 h nms s))"
proof (induction nms arbitrary: s)
  case (Cons nm nms)
  show ?case
  proof (cases "find_prog nm s")
    case (Some p)
    show ?thesis
    proof (cases "p_pid p = -1")
      case True
      obtain ok s1 where s1: "spawn_prog h nm s = (ok, s1)" by fastforce
      have f1: "frame_of s s1" using frame_spawn_prog [OF Cons.prems(2) Some True, of h] s1 by simp
      define s2 where "s2 = (if ok then update_prog nm (init_prog_log h) s1 else flag_startup_fail nm s1)"
      have f2: "frame_of s1 s2" by (simp add: s2_def frame_update_same_run frame_flag_startup_fail)
      from f1 f2 have f: "frame_of s s2" by (rule frame_trans)
      have "frame_of s2 (snd (spawn0 h nms s2))"
        using Cons frame_distinct [OF f] frame_exit [OF f] by simp
      with f have "frame_of s (snd (spawn0 h nms s2))" by (rule frame_trans)
      then show ?thesis using Some True s1 by (cases ok) (simp_all add: s2_def case_prod_beta)
    qed (use Some Cons in simp)
  qed (use Cons in simp)
qed simp

lemma frame_spawn0: "\<not> sv_exit s \<Longrightarrow> frame_of s (snd (spawn0 h nms s))"
  by (rule frame_under) (rule spawn0_frame)

lemma frame_run_runtime:
  assumes "\<And>r. rt_wf r \<Longrightarrow> rt_wf (snd (f r)) \<and> dr_graph (snd (f r)) = dr_graph r"
  shows "frame_of s (snd (run_runtime f s))"
  by (rule frameI) (use assms in \<open>simp_all add: run_runtime_def runtime_ok_def case_prod_beta\<close>)

lemma frame_mark_all_ready: "frame_of s (snd (mark_all_ready nms s))"
proof (induction nms arbitrary: s)
  case (Cons nm nms)
  have "frame_of s (snd (run_runtime (mark_ready nm) s))"
    by (rule frame_run_runtime) (simp add: runtime_calls_wf)
  from frame_trans [OF this Cons] show ?case by (simp add: case_prod_beta)
qed simp

lemma mark_all_ready_exit [simp]: "sv_exit (snd (mark_all_ready nms s)) = sv_exit s"
  by (induction nms arbitrary: s) (simp_all add: case_prod_beta run_runtime_def)

lemma frame_spawn1: "\<not> sv_exit s \<Longrightarrow> frame_of s (spawn1 h nms s)"
  using frame_trans [OF frame_mark_all_ready frame_spawn0] by (simp add: spawn1_def case_prod_beta)

lemma frame_show_pending: "frame_of s (show_pending s)"
  by (auto simp: show_pending_def frame_of_def runtime_ok_def list_all2_conv_all_nth prog_step_def prog_ok_def live_state_def)

lemma frame_start_prog: "\<not> sv_exit s \<Longrightarrow> frame_of s (snd (start_prog h nm s))"
proof (cases "find_prog nm s")
  case (Some p)
  assume ex: "\<not> sv_exit s"
  show ?thesis
  proof (cases "p_pid p = -1")
    case True
    obtain ok s1 where s1: "spawn_prog h nm s = (ok, s1)" by fastforce
    have "frame_of s s1" using frame_spawn_prog [OF ex Some True, of h] s1 by simp
    also have "frame_of s1 (update_prog nm (init_prog_log h) s1)" by (simp add: frame_update_same_run)
    also have "frame_of \<dots> (run_prog nm (activate_pending_log_sessions (sv_closed s1)) \<dots>)" by (simp add: frame_run_same)
    finally have "frame_of s (run_prog nm (activate_pending_log_sessions (sv_closed s1)) (update_prog nm (init_prog_log h) s1))" .
    with \<open>frame_of s s1\<close> Some True s1 show ?thesis by (simp add: start_prog_def)
  qed (use Some in \<open>simp add: start_prog_def\<close>)
qed (simp add: start_prog_def)

lemma run_runtime_exit [simp]: "sv_exit (snd (run_runtime f s)) = sv_exit s"
  by (simp add: run_runtime_def case_prod_beta)

lemma frame_request_start:
  assumes "\<not> sv_exit s"
  shows "frame_of s (snd (request_start h nm s))"
proof -
  let ?s1 = "snd (mark_all_ready (map p_name (filter (\<lambda>p. p_state p = PS_runing) (sv_progs s))) s)"
  let ?s2 = "snd (run_runtime (request_closure nm) ?s1)"
  have "frame_of s ?s1" by (rule frame_mark_all_ready)
  also have "frame_of ?s1 ?s2" by (rule frame_run_runtime) (simp add: runtime_calls_wf)
  also have "frame_of ?s2 (show_pending ?s2)" by (rule frame_show_pending)
  also have "frame_of \<dots> (snd (spawn0 h nms (show_pending ?s2)))" for nms
    by (rule frame_spawn0) (simp add: show_pending_def assms)
  finally show ?thesis by (simp add: request_start_def Let_def case_prod_beta)
qed

lemma frame_mark_dependency_stopped: "frame_of s (mark_dependency_stopped nm s)"
  unfolding mark_dependency_stopped_def
  by (rule frameI) (simp_all add: runtime_ok_def runtime_calls_wf)

lemma frame_reply: "frame_of s (reply sid code msg s)"
  by (simp add: reply_def frame_emit)

subsection \<open>The frames of the supervisor\<close>

lemma quiet_signal_tree [simp]: "quiet ex (signal_tree sig p)"
  by (simp add: signal_tree_def)

lemma async_kill_step:
  "prog_step ex p (snd (async_kill_prog h p))" "quiet ex (fst (async_kill_prog h p))"
  "p_instance (snd (async_kill_prog h p)) =
     (p_instance p)\<lparr>mi_job := mi_job (p_instance (snd (async_kill_prog h p))),
       mi_termination := mi_termination (p_instance (snd (async_kill_prog h p)))\<rparr>"
  "p_cfg (snd (async_kill_prog h p)) = p_cfg p" "p_state (snd (async_kill_prog h p)) = PS_request_stop"
  by (auto simp: async_kill_prog_def set_job_def prog_step_def prog_ok_def live_state_def split: prod.splits)

lemma force_kill_step: "prog_step ex p (snd (async_force_kill p))" "quiet ex (fst (async_force_kill p))"
  by (auto simp: async_force_kill_def set_job_def prog_step_def prog_ok_def split: prod.splits)

lemma plan_restart_keeps:
  "p_cfg (snd (prog_plan_restart now rt p)) = p_cfg p" "p_instance (snd (prog_plan_restart now rt p)) = p_instance p"
  "p_state (snd (prog_plan_restart now rt p)) = p_state p"
  by (simp_all add: prog_plan_restart_def split: prod.splits)

lemma reset_policy_step [simp]: "prog_step ex p (reset_restart_policy p)"
  by (simp add: reset_restart_policy_def prog_step_def prog_ok_def)

lemma enqueue_step [simp]: "prog_step ex p (enqueue_after_termination t p)"
  by (simp add: enqueue_after_termination_def prog_step_def prog_ok_def)

lemma frame_if_waiting: "(\<not> sv_exit s \<Longrightarrow> frame_of s (f s)) \<Longrightarrow> frame_of s (if_waiting sid f s)"
  by (simp add: if_waiting_def server_exiting_def is_reloading_def is_exiting_def frame_reply)

definition not_running :: "string \<Rightarrow> pm_tiny_server_t \<Rightarrow> bool" where
  "not_running nm s \<longleftrightarrow> (\<forall>p \<in> set (sv_progs s). p_name p = nm \<longrightarrow> p_state p \<noteq> PS_runing)"

lemma frame_not_running:
  assumes "frame_of s t" "distinct_names s" "not_running nm s"
  shows "not_running nm t"
  unfolding not_running_def
proof (intro ballI impI)
  fix q assume q: "q \<in> set (sv_progs t)" "p_name q = nm"
  have l: "list_all2 (prog_step (sv_exit s)) (sv_progs s) (sv_progs t)" using assms(1,2) by (simp add: frame_of_def)
  then obtain p where "p \<in> set (sv_progs s)" "prog_step (sv_exit s) p q"
    using q(1) by (metis in_set_conv_nth list_all2_conv_all_nth)
  with assms(3) q(2) show "p_state q \<noteq> PS_runing" by (auto simp: not_running_def prog_step_def)
qed

lemma frame_restart_task:
  assumes "\<not> sv_exit s" "not_running nm s"
  shows "frame_of s (restart_task h nm sid show_log s)"
proof -
  have r: "\<not> (case find_prog nm s of Some p \<Rightarrow> p_state p = PS_runing | None \<Rightarrow> False)"
    using assms(2) find_prog_Some by (fastforce simp: not_running_def split: option.splits)
  let ?s1 = "snd (start_prog h nm s)"
  let ?s2 = "update_prog nm (\<lambda>p. p\<lparr>p_dead_count := p_dead_count p + 1\<rparr>) ?s1"
  have f1: "frame_of s ?s1" by (rule frame_start_prog [OF assms(1)])
  have f2: "frame_of ?s1 ?s2" by (rule frame_update_same_run) (simp add: same_run_def)
  have f3: "frame_of ?s2 (prog_bind_session sid nm ?s2)" by (simp add: prog_bind_session_def frame_run_same)
  have "frame_of s (prog_bind_session sid nm ?s2)" "frame_of s (reply sid 0 ''success'' ?s2)"
    "frame_of s (reply sid (-1) (h_strerror h (sv_errno ?s1)) ?s1)"
    using f1 f2 f3 frame_reply by (blast intro: frame_trans)+
  with r show ?thesis by (simp add: restart_task_def Let_def case_prod_beta)
qed

lemma frame_run_task:
  assumes "sv_exit s \<or> not_running nm s"
  shows "frame_of s (run_task h nm t s)"
proof (cases t)
  case (Task_stop sid)
  then show ?thesis by (simp add: frame_if_waiting frame_reply)
next
  case (Task_delete sid)
  then show ?thesis by (simp add: frame_if_waiting frame_reply)
next
  case (Task_restart sid show_log)
  then show ?thesis using assms by (auto intro!: frame_if_waiting frame_restart_task)
next
  case (Task_drained now life)
  have "prog_step ex p ((snd (prog_plan_restart now life p))\<lparr>p_state := st\<rparr>)" if "\<not> live_state st" for ex p st
    using that plan_restart_keeps [of now life p] by (auto simp: prog_step_def prog_ok_def live_state_def)
  then show ?thesis using Task_drained
    by (simp add: case_prod_beta) (rule frame_update_prog, simp add: live_state_def)
next
  case (Task_timeout kind)
  show ?thesis
  proof (cases "find_prog nm s")
    case (Some p)
    let ?p = "snd (prog_plan_restart (h_now h) (h_now h - p_last_startup_ms p) p)"
    have k: "p_cfg ?p = p_cfg p" "p_instance ?p = p_instance p" "p_state ?p = p_state p"
      by (simp_all add: plan_restart_keeps)
    have "frame_of s (update_prog nm (\<lambda>_. ?p\<lparr>p_dead_count := p_dead_count ?p + 1, p_state := PS_waiting_start\<rparr>) s)"
      by (rule frame_replace [OF Some]) (simp add: k prog_step_def prog_ok_def live_state_def)
    moreover have "frame_of s (update_prog nm (\<lambda>_. ?p) s)"
      by (rule frame_replace [OF Some]) (simp add: k prog_step_def prog_ok_def)
    then have "frame_of s (flag_startup_fail nm (update_prog nm (\<lambda>_. ?p) s))"
      by (rule frame_trans) (rule frame_flag_startup_fail)
    ultimately show ?thesis using Some Task_timeout by (simp add: case_prod_beta)
  qed (use Task_timeout in simp)
qed

lemma run_tasks_frame:
  "distinct_names s \<Longrightarrow> sv_exit s \<or> not_running nm s \<Longrightarrow> frame_of s (run_tasks h nm gen ts s)"
proof (induction ts arbitrary: s)
  case (Cons t ts)
  let ?s = "if gt_generation t = gen \<and> map_option p_generation (find_prog nm s) = Some gen
      then run_task h nm (gt_task t) s else s"
  have f: "frame_of s ?s" using frame_run_task [OF Cons.prems(2)] by simp
  have "sv_exit ?s \<or> not_running nm ?s"
    using frame_exit [OF f Cons.prems(1)] frame_not_running [OF f Cons.prems(1)] Cons.prems(2) by blast
  from frame_trans [OF f Cons.IH [OF frame_distinct [OF f Cons.prems(1)] this]] show ?case by simp
qed simp

lemma frame_execute_tasks:
  assumes "sv_exit s \<or> not_running nm s"
  shows "frame_of s (execute_penddingtasks h nm s)"
proof (cases "find_prog nm s")
  case (Some p)
  have "frame_of s (run_tasks h nm (p_generation p) (p_kill_pendingtasks p) s)"
    by (rule frame_under) (rule run_tasks_frame [OF _ assms])
  also have "frame_of \<dots> (update_prog nm (\<lambda>p. p\<lparr>p_kill_pendingtasks := []\<rparr>) \<dots>)"
    by (rule frame_update_prog) (simp add: prog_step_def prog_ok_def)
  finally show ?thesis using Some by (simp add: execute_penddingtasks_def)
qed (simp add: execute_penddingtasks_def)

lemma update_run_prog:
  assumes "\<And>p. p_name (snd (m p)) = p_name p"
  shows "update_prog nm f (run_prog nm m s) = run_prog nm (\<lambda>p. (fst (m p), f (snd (m p)))) s"
proof (cases "find_prog nm s")
  case (Some p)
  then have "p_name (snd (m p)) = nm" using assms find_prog_Some by fastforce
  with Some show ?thesis by (simp add: run_prog_def emit_def update_prog_def comp_def cong: if_cong)
next
  case None
  then have "\<forall>p \<in> set (sv_progs s). p_name p \<noteq> nm" by (auto simp: find_prog_None)
  then have "map (\<lambda>p. if p_name p = nm then f p else p) (sv_progs s) = sv_progs s" by (simp add: map_idI)
  with None show ?thesis by (simp add: run_prog_def update_prog_def)
qed

lemma record_exit_keeps:
  "p_cfg (snd (record_exit h closed ws p)) = p_cfg p" "p_state (snd (record_exit h closed ws p)) = p_state p"
  "quiet ex (fst (record_exit h closed ws p))"
  "p_instance (snd (record_exit h closed ws p)) = (p_instance p)\<lparr>mi_pid := -1\<rparr>"
  "p_restart_state (snd (record_exit h closed ws p)) = p_restart_state p"
  "p_kill_pendingtasks (snd (record_exit h closed ws p)) = p_kill_pendingtasks p"
  "p_last_startup_ms (snd (record_exit h closed ws p)) = p_last_startup_ms p"
proof -
  let ?p = "(update_count_timer h p)\<lparr>p_last_wstatus := ws, p_has_last_exit := True, p_last_exit_time_unix_ms := h_unix h\<rparr>"
  obtain q where q: "same_run ?p q" "same_run (q\<lparr>p_instance := (p_instance q)\<lparr>mi_pid := -1\<rparr>\<rparr>) (snd (close_fds h closed ?p))"
    using close_fds_frame(1) by blast
  have "same_run p ?p" by (simp add: update_count_timer_def same_run_def)
  with q show "p_cfg (snd (record_exit h closed ws p)) = p_cfg p" "p_state (snd (record_exit h closed ws p)) = p_state p"
    "p_instance (snd (record_exit h closed ws p)) = (p_instance p)\<lparr>mi_pid := -1\<rparr>"
    "p_restart_state (snd (record_exit h closed ws p)) = p_restart_state p"
    "p_kill_pendingtasks (snd (record_exit h closed ws p)) = p_kill_pendingtasks p"
    "p_last_startup_ms (snd (record_exit h closed ws p)) = p_last_startup_ms p"
    by (simp_all add: record_exit_def same_run_def)
  show "quiet ex (fst (record_exit h closed ws p))" by (simp add: record_exit_def close_fds_frame)
qed

lemma drain_tree_keeps:
  "p_cfg (snd (drain_tree h life p)) = p_cfg p" "p_state (snd (drain_tree h life p)) = PS_request_stop"
  "quiet ex (fst (drain_tree h life p))"
  by (auto simp: drain_tree_def prog_mark_tree_draining_def enqueue_after_termination_def set_job_def Let_def
      split: prod.splits)

lemma settle_exit_keeps:
  "p_cfg (settle_exit h life p) = p_cfg p" "\<not> live_state (p_state (settle_exit h life p))"
  "p_instance (settle_exit h life p) = p_instance p"
  by (auto simp: settle_exit_def plan_restart_keeps live_state_def case_prod_beta)

lemma cleanup_tree_keeps:
  "p_cfg (cleanup_tree p) = p_cfg p" "p_state (cleanup_tree p) = p_state p" "p_pid (cleanup_tree p) = p_pid p"
  by (simp_all add: cleanup_tree_def)

text \<open>The program after a death, with the tree gone or not.\<close>

lemma frame_after_exit:
  "frame_of s (run_prog nm (drain_tree h life) (run_prog nm (record_exit h closed ws) s))"
  "frame_of s (update_prog nm (settle_exit h life \<circ> cleanup_tree) (run_prog nm (record_exit h closed ws) s))"
proof -
  show "frame_of s (run_prog nm (drain_tree h life) (run_prog nm (record_exit h closed ws) s))"
    by (subst run_prog_run_prog, simp add: record_exit_keeps, rule frame_run_prog)
      (simp add: record_exit_keeps drain_tree_keeps prog_step_def prog_ok_def live_state_def)
  show "frame_of s (update_prog nm (settle_exit h life \<circ> cleanup_tree) (run_prog nm (record_exit h closed ws) s))"
    by (subst update_run_prog, simp add: record_exit_keeps, rule frame_run_prog)
      (use settle_exit_keeps in \<open>auto simp: record_exit_keeps cleanup_tree_keeps prog_step_def prog_ok_def live_state_def\<close>)
qed

end
