(* ===== verification/Supervisor_Invariant.thy ===== *)
theory Supervisor_Invariant
  imports Supervisor_Frames
begin

section \<open>The invariant of the supervisor\<close>

text \<open>
  What holds in every state the daemon reaches.  The operations that are frames keep it by one lemma; those that are
  not (a program becomes ready, the table changes, a shutdown begins or a reload ends) are treated on their own.
\<close>

subsection \<open>The invariant\<close>

definition table_ok :: "pm_tiny_server_t \<Rightarrow> bool" where
  "table_ok s \<longleftrightarrow> distinct_names s \<and> p_name ` set (sv_progs s) \<subseteq> set (g_names (sv_graph s)) \<and> runtime_ok s"

definition progs_ok :: "pm_tiny_server_t \<Rightarrow> bool" where
  "progs_ok s \<longleftrightarrow> (\<forall>p \<in> set (sv_progs s). prog_ok (sv_exit s) p)"

definition reload_ok :: "pm_tiny_server_t \<Rightarrow> bool" where
  "reload_ok s \<longleftrightarrow> (case sv_reload s of None \<Rightarrow> True
     | Some rc \<Rightarrow> rl_valid rc \<and> build_prog_dependency_graph (rl_progs rc) = Inr (rl_graph rc))"

definition server_inv :: "pm_tiny_server_t \<Rightarrow> bool" where
  "server_inv s \<longleftrightarrow> table_ok s \<and> progs_ok s \<and> reload_ok s \<and> Out_abort \<notin> set (sv_out s)"

text \<open>An operation that keeps the invariant and the exit flag and is quiet.\<close>

definition sv_keeps :: "pm_tiny_server_t \<Rightarrow> pm_tiny_server_t \<Rightarrow> bool" where
  "sv_keeps s t \<longleftrightarrow> (server_inv s \<longrightarrow> server_inv t \<and> emits (sv_exit s) s t \<and> sv_exit t = sv_exit s)"

lemma keeps_refl [simp, intro]: "sv_keeps s s"
  by (simp add: sv_keeps_def)

lemma keeps_trans [trans]: "sv_keeps s t \<Longrightarrow> sv_keeps t u \<Longrightarrow> sv_keeps s u"
  by (auto simp: sv_keeps_def intro: emits_trans)

lemma keeps_fold: "(\<And>x t. sv_keeps t (f x t)) \<Longrightarrow> sv_keeps s (fold f xs s)"
  by (induction xs arbitrary: s) (auto intro: keeps_trans)

lemma emits_no_abort: "emits ex s t \<Longrightarrow> Out_abort \<notin> set (sv_out s) \<Longrightarrow> Out_abort \<notin> set (sv_out t)"
  by (auto simp: emits_def quiet_def list_all_iff)

lemma frame_keeps:
  assumes "server_inv s \<Longrightarrow> frame_of s t"
  shows "sv_keeps s t"
  unfolding sv_keeps_def
proof
  assume inv: "server_inv s"
  then have d: "distinct_names s" by (simp add: server_inv_def table_ok_def)
  note f = assms [OF inv]
  have l: "list_all2 (prog_step (sv_exit s)) (sv_progs s) (sv_progs t)" "sv_graph t = sv_graph s"
    "runtime_ok s \<longrightarrow> runtime_ok t" "emits (sv_exit s) s t" "sv_exit t = sv_exit s" "sv_reload t = sv_reload s"
    using f d by (auto simp: frame_of_def)
  have "p_name ` set (sv_progs t) = p_name ` set (sv_progs s)"
    using arg_cong [OF steps_names [OF l(1)], of set] by simp
  then have "table_ok t" using inv l frame_distinct [OF f d] by (simp add: server_inv_def table_ok_def)
  moreover have "progs_ok t"
    unfolding progs_ok_def
  proof
    fix q assume "q \<in> set (sv_progs t)"
    then obtain p where "p \<in> set (sv_progs s)" "prog_step (sv_exit s) p q"
      using l(1) by (metis in_set_conv_nth list_all2_conv_all_nth)
    with inv l(5) show "prog_ok (sv_exit t) q" by (simp add: server_inv_def progs_ok_def prog_step_def)
  qed
  ultimately show "server_inv t \<and> emits (sv_exit s) s t \<and> sv_exit t = sv_exit s"
    using inv l emits_no_abort [OF l(4)] by (simp add: server_inv_def reload_ok_def)
qed

text \<open>A change of one program that need not be a \<open>prog_step\<close>.\<close>

lemma keeps_update_prog:
  assumes "server_inv s \<Longrightarrow> \<forall>p \<in> set (sv_progs s). p_name p = nm \<longrightarrow> p_cfg (f p) = p_cfg p \<and> prog_ok (sv_exit s) (f p)"
  shows "sv_keeps s (update_prog nm f s)"
  unfolding sv_keeps_def
proof
  assume inv: "server_inv s"
  note a = assms [OF inv]
  let ?t = "update_prog nm f s"
  have n: "map p_name (sv_progs ?t) = map p_name (sv_progs s)" using a by auto
  then have "p_name ` set (sv_progs ?t) = p_name ` set (sv_progs s)" by (metis list.set_map)
  with n inv have "table_ok ?t"
    by (simp add: server_inv_def table_ok_def distinct_names_def runtime_ok_def del: update_prog_sel(7))
  moreover have "progs_ok ?t" using inv a by (auto simp: server_inv_def progs_ok_def)
  ultimately show "server_inv ?t \<and> emits (sv_exit s) s ?t \<and> sv_exit ?t = sv_exit s"
    using inv by (simp add: server_inv_def reload_ok_def)
qed

lemma server_inv_distinct: "server_inv s \<Longrightarrow> distinct_names s"
  by (simp add: server_inv_def table_ok_def)

lemma server_inv_prog: "server_inv s \<Longrightarrow> p \<in> set (sv_progs s) \<Longrightarrow> prog_ok (sv_exit s) p"
  by (simp add: server_inv_def progs_ok_def)

lemma built_table:
  assumes "build_prog_dependency_graph ps = Inr g"
  shows "wf_graph g" "g_names g = map p_name ps" "distinct (map p_name ps)"
proof -
  from assms have b: "build (map prog_node ps) = Inr g"
    by (simp add: build_prog_dependency_graph_def split: sum.splits)
  from build_Inr [OF this] show "wf_graph g" "g_names g = map p_name ps"
    by (simp_all add: prog_node_def comp_def)
  with b show "distinct (map p_name ps)" by (metis wf_graph_def)
qed

text \<open>A state with a freshly built graph and a runtime on it.\<close>

lemma server_invI:
  assumes "build_prog_dependency_graph (sv_progs s) = Inr (sv_graph s)" "rt_wf (sv_runtime s)"
    "dr_graph (sv_runtime s) = sv_graph s" "\<And>p. p \<in> set (sv_progs s) \<Longrightarrow> prog_ok (sv_exit s) p"
    "reload_ok s" "Out_abort \<notin> set (sv_out s)"
  shows "server_inv s"
  using assms built_table [OF assms(1)]
  by (simp add: server_inv_def table_ok_def progs_ok_def distinct_names_def runtime_ok_def)

definition mark_running :: "prog_info_t \<Rightarrow> dependency_runtime \<Rightarrow> dependency_runtime" where
  "mark_running p r = (if p_state p = PS_runing then snd (mark_ready (p_name p) r) else r)"

lemma fold_mark_running_wf:
  "rt_wf r \<Longrightarrow> rt_wf (fold mark_running ps r) \<and> dr_graph (fold mark_running ps r) = dr_graph r"
  by (induction ps arbitrary: r) (simp_all add: runtime_calls_wf mark_running_def)

lemma reset_graph [simp]: "dr_graph (reset g) = g"
  by (simp add: reset_def)

lemma keeps_rebuild: "sv_keeps s (snd (rebuild_dependency_graph s))"
proof (cases "build_prog_dependency_graph (sv_progs s)")
  case (Inr g)
  let ?t = "snd (rebuild_dependency_graph s)"
  have "server_inv ?t" if inv: "server_inv s"
    by (rule server_invI)
      (use inv Inr fold_mark_running_wf [OF reset_wf [OF built_table(1) [OF Inr]]] in
        \<open>auto simp: rebuild_dependency_graph_def mark_running_def [abs_def] server_inv_def progs_ok_def reload_ok_def\<close>)
  then show ?thesis using Inr by (simp add: sv_keeps_def rebuild_dependency_graph_def)
qed (simp add: rebuild_dependency_graph_def)

lemma keeps_remove_prog: "sv_keeps s (remove_prog nm s)"
proof (cases "find_prog nm s")
  case (Some p)
  let ?effs = "fst (detach_sessions (sv_closed s) p)"
  let ?t = "emit ?effs (s\<lparr>sv_progs := filter (\<lambda>q. p_name q \<noteq> nm) (sv_progs s)\<rparr>)"
  have e: "emits (sv_exit s) s ?t" by (auto simp: emits_def)
  have "server_inv ?t" if "server_inv s"
    using that emits_no_abort [OF e]
    by (auto simp: server_inv_def table_ok_def distinct_names_def runtime_ok_def progs_ok_def reload_ok_def
        intro: distinct_map_filter)
  with e have "sv_keeps s ?t" by (simp add: sv_keeps_def)
  also have "sv_keeps ?t (snd (rebuild_dependency_graph ?t))" by (rule keeps_rebuild)
  finally show ?thesis using Some by (simp add: remove_prog_def)
qed (simp add: remove_prog_def)

subsection \<open>Maintenance keeps the invariant\<close>

lemma frame_exiting_keeps: "(\<not> sv_exit s \<Longrightarrow> frame_of s t) \<Longrightarrow> \<not> sv_exit s \<Longrightarrow> sv_keeps s t"
  by (rule frame_keeps) simp

text \<open>The reaping loop: a frame, with lists that only name programs not running, or programs that were starting.\<close>

definition reap_inv :: "pm_tiny_server_t \<Rightarrow> reap_state \<Rightarrow> bool" where
  "reap_inv s r \<longleftrightarrow> sv_keeps s (rp_server r) \<and> (rp_starting r \<noteq> [] \<longrightarrow> \<not> sv_exit s) \<and>
     (\<forall>nm \<in> set (rp_tasks r). not_running nm (rp_server r))"

lemma find_pid_Some: "find_pid pid s = Some p \<Longrightarrow> p \<in> set (sv_progs s) \<and> p_pid p = pid"
  by (auto simp: find_pid_def find_Some_iff)

lemma settled_not_running:
  assumes "distinct_names s"
  shows "not_running nm (update_prog nm (settle_exit h life \<circ> cleanup_tree) (run_prog nm (record_exit h closed ws) s))"
  unfolding not_running_def
proof (intro ballI impI)
  fix q assume q: "q \<in> set (sv_progs (update_prog nm (settle_exit h life \<circ> cleanup_tree)
      (run_prog nm (record_exit h closed ws) s)))" "p_name q = nm"
  then obtain p where "q = (if p_name p = nm then (settle_exit h life \<circ> cleanup_tree) p else p)"
    unfolding update_prog_sel(7) list.set_map by (elim imageE)
  with q(2) settle_exit_keeps(2) [of h life "cleanup_tree p"] show "p_state q \<noteq> PS_runing"
    by (auto simp: live_state_def split: if_splits)
qed

lemma reap_child_inv:
  assumes "server_inv s" "reap_inv s r"
  shows "reap_inv s (reap_child h c r)"
proof (cases "find_pid (fst c) (rp_server r)")
  case (Some p)
  let ?s = "rp_server r"
  have k: "sv_keeps s ?s" and inv: "server_inv ?s" and ex: "sv_exit ?s = sv_exit s"
    using assms by (auto simp: reap_inv_def sv_keeps_def)
  have p: "p \<in> set (sv_progs ?s)" using find_pid_Some [OF Some] by simp
  let ?nm = "p_name p" and ?life = "h_now h - p_last_startup_ms p"
  let ?d = "mark_dependency_stopped ?nm ?s"
  let ?s1 = "run_prog ?nm (record_exit h (sv_closed ?s) (snd c)) ?d"
  have f0: "frame_of ?s ?d" using frame_mark_dependency_stopped [of ?s ?nm] .
  have d0: "distinct_names ?d" using frame_distinct [OF f0 server_inv_distinct [OF inv]] .
  have fd: "frame_of ?s (run_prog ?nm (drain_tree h ?life) ?s1)"
    "frame_of ?s (update_prog ?nm (settle_exit h ?life \<circ> cleanup_tree) ?s1)"
    using frame_trans [OF f0 frame_after_exit(1)] frame_trans [OF f0 frame_after_exit(2)] by simp_all
  have nr: "\<forall>nm \<in> set (rp_tasks r). not_running nm t" if "frame_of ?s t" for t
    using assms(2) frame_not_running [OF that server_inv_distinct [OF inv]] by (auto simp: reap_inv_def)
  have "sv_keeps s (run_prog ?nm (drain_tree h ?life) ?s1)"
    "sv_keeps s (update_prog ?nm (settle_exit h ?life \<circ> cleanup_tree) ?s1)"
    using fd k by (blast intro: keeps_trans frame_keeps)+
  moreover have "p_state p = PS_starting \<Longrightarrow> \<not> sv_exit s"
    using server_inv_prog [OF inv p] ex by (auto simp: prog_ok_def)
  ultimately show ?thesis
    using Some assms(2) nr [OF fd(1)] nr [OF fd(2)] settled_not_running [OF d0]
    by (simp add: reap_child_def reap_inv_def Let_def case_prod_beta)
qed (use assms in \<open>simp add: reap_child_def case_prod_beta\<close>)

lemma reap_fold_inv:
  "server_inv s \<Longrightarrow> reap_inv s r \<Longrightarrow> reap_inv s (fold (reap_child h) cs r)"
  by (induction cs arbitrary: r) (simp_all add: reap_child_inv)

lemma fold_tasks:
  "distinct_names s \<Longrightarrow> \<forall>nm \<in> set nms. not_running nm s \<Longrightarrow> frame_of s (fold (execute_penddingtasks h) nms s)"
proof (induction nms arbitrary: s)
  case (Cons nm nms)
  have f: "frame_of s (execute_penddingtasks h nm s)" using Cons.prems(2) by (simp add: frame_execute_tasks)
  have "\<forall>n \<in> set nms. not_running n (execute_penddingtasks h nm s)"
    using Cons.prems frame_not_running [OF f Cons.prems(1)] by simp
  from frame_trans [OF f Cons.IH [OF frame_distinct [OF f Cons.prems(1)] this]] show ?case by simp
qed simp

lemma keeps_reap_children: "sv_keeps s (reap_children h cs s)"
proof -
  let ?r = "fold (reap_child h) cs \<lparr>rp_server = s, rp_starting = [], rp_tasks = [], rp_deleting = []\<rparr>"
  let ?s1 = "if rp_starting ?r = [] then rp_server ?r else spawn1 h (rp_starting ?r) (rp_server ?r)"
  let ?s2 = "fold (execute_penddingtasks h) (rp_tasks ?r) ?s1"
  have main: "sv_keeps s (fold remove_prog (rp_deleting ?r) ?s2)" if inv: "server_inv s"
  proof -
    have r: "reap_inv s ?r" by (rule reap_fold_inv [OF inv]) (simp add: reap_inv_def)
    then have k: "sv_keeps s (rp_server ?r)" by (simp add: reap_inv_def)
    with inv have i: "server_inv (rp_server ?r)" "sv_exit (rp_server ?r) = sv_exit s" by (auto simp: sv_keeps_def)
    have f: "frame_of (rp_server ?r) ?s1" using r i(2) by (auto simp: reap_inv_def intro: frame_spawn1)
    have d: "distinct_names (rp_server ?r)" by (rule server_inv_distinct [OF i(1)])
    have "\<forall>nm \<in> set (rp_tasks ?r). not_running nm ?s1"
      using r frame_not_running [OF f d] by (auto simp: reap_inv_def)
    from fold_tasks [OF frame_distinct [OF f d] this] have f2: "frame_of ?s1 ?s2" .
    have "sv_keeps s ?s1" using k f by (blast intro: keeps_trans frame_keeps)
    also have "sv_keeps ?s1 ?s2" using f2 by (rule frame_keeps)
    also have "sv_keeps ?s2 (fold remove_prog (rp_deleting ?r) ?s2)" by (rule keeps_fold) (rule keeps_remove_prog)
    finally show ?thesis .
  qed
  then have "sv_keeps s (fold remove_prog (rp_deleting ?r) ?s2)" by (auto simp: sv_keeps_def)
  then show ?thesis by (simp add: reap_children_def Let_def)
qed

subsubsection \<open>Timers\<close>

lemma frame_restart_due:
  assumes "\<not> sv_exit s"
  shows "frame_of s (restart_due h nm s)"
proof -
  let ?s1 = "snd (start_prog h nm s)"
  let ?s2 = "update_prog nm (\<lambda>p. p\<lparr>p_restart_pending := False, p_restart_due_ms := 0\<rparr>) ?s1"
  let ?s3 = "run_prog nm (fail_pending_log_sessions (sv_closed ?s2) ''failed to start the next generation'') ?s2"
  have "frame_of s ?s1" by (rule frame_start_prog [OF assms])
  also have "frame_of ?s1 ?s2" by (rule frame_update_same_run) (simp add: same_run_def)
  finally have f2: "frame_of s ?s2" .
  also have "frame_of ?s2 ?s3" by (simp add: frame_run_same)
  also have "frame_of ?s3 (flag_startup_fail nm ?s3)" by (rule frame_flag_startup_fail)
  finally show ?thesis using f2 by (simp add: restart_due_def Let_def case_prod_beta split: option.splits)
qed

lemma fold_frame_running:
  "(\<And>x t. \<not> sv_exit t \<Longrightarrow> frame_of t (f x t)) \<Longrightarrow> distinct_names s \<Longrightarrow> \<not> sv_exit s \<Longrightarrow> frame_of s (fold f xs s)"
proof (induction xs arbitrary: s)
  case (Cons x xs)
  have f: "frame_of s (f x s)" using Cons.prems by simp
  with Cons.IH [of "f x s"] Cons.prems frame_distinct [OF f] frame_exit [OF f] show ?case
    by (auto intro: frame_trans)
qed simp

lemma keeps_due_restarts: "sv_keeps s (run_due_restarts h ordered due s)"
proof (cases "sv_exit s")
  case False
  have "frame_of s (fold (\<lambda>i s. if i < length ordered then restart_due h (ordered ! i) s else s) due s)"
    by (rule frame_under) (rule fold_frame_running, auto simp: frame_restart_due False)
  then show ?thesis using False by (auto simp: run_due_restarts_def is_exiting_def intro: frame_keeps)
qed (simp add: run_due_restarts_def is_exiting_def)

lemma keeps_accept_ready:
  assumes "\<not> sv_exit s" "find_prog nm s = Some p" "p_pid p \<noteq> -1"
    and f: "\<And>q. p_cfg (f q) = p_cfg q \<and> p_instance (f q) = p_instance q"
  shows "sv_keeps s (update_prog nm f s)"
proof (rule keeps_update_prog)
  assume inv: "server_inv s"
  have "q = p" if "q \<in> set (sv_progs s)" "p_name q = nm" for q
    using find_prog_unique [OF server_inv_distinct [OF inv] that] assms(2) by simp
  then show "\<forall>p \<in> set (sv_progs s). p_name p = nm \<longrightarrow> p_cfg (f p) = p_cfg p \<and> prog_ok (sv_exit s) (f p)"
    using assms f by (auto simp: prog_ok_def)
qed

lemma run_timeouts_keeps:
  "sv_keeps s (snd (snd (run_timeouts h ordered es s))) \<and> (server_inv s \<longrightarrow> fst (run_timeouts h ordered es s) \<noteq> [] \<longrightarrow> \<not> sv_exit s)"
proof (induction es arbitrary: s)
  case (Cons e es)
  let ?nm = "ordered ! le_process_index e"
  have go: "sv_keeps s (snd (snd (run_timeouts h ordered es t))) \<and>
      (server_inv s \<longrightarrow> fst (run_timeouts h ordered es t) \<noteq> [] \<longrightarrow> \<not> sv_exit s)" if "sv_keeps s t" for t
    using Cons [of t] that by (auto simp: sv_keeps_def intro: emits_trans)
  show ?case
  proof (cases "sv_exit s \<or> le_process_index e \<ge> length ordered")
    case True
    then show ?thesis using Cons [of s] by (auto simp: is_exiting_def)
  next
    case active: False
    show ?thesis
    proof (cases "find_prog ?nm s")
      case None
      then show ?thesis using active Cons [of s] by (simp add: is_exiting_def)
    next
      case (Some p)
      show ?thesis
      proof (cases "p_generation p \<noteq> le_generation e \<or> p_pid p = -1")
        case True
        then show ?thesis using active Some Cons [of s] by (auto simp: is_exiting_def)
      next
        case False
        let ?a = "update_prog ?nm (\<lambda>p. p\<lparr>p_state := PS_runing, p_last_tick_timepoint := h_now h, p_heartbeat_action_due_ms := 0\<rparr>) s"
        let ?i = "update_prog ?nm (\<lambda>p. p\<lparr>p_heartbeat_action_due_ms := h_now h + max 1 (cfg_heartbeat_timeout (p_cfg p)) * 1000\<rparr>) s"
        let ?k = "update_prog ?nm (enqueue_after_termination (Task_timeout (le_kind e))) (run_prog ?nm (async_kill_prog h) s)"
        have "sv_keeps s ?a" by (rule keeps_accept_ready [OF _ Some]) (use active False in auto)
        moreover have "sv_keeps s ?i" by (rule frame_keeps, rule frame_update_same_run) (simp add: same_run_def)
        moreover have "sv_keeps s ?k"
        proof (rule frame_keeps)
          have "frame_of s (run_prog ?nm (async_kill_prog h) s)" by (rule frame_run_prog) (simp add: async_kill_step)
          also have "frame_of \<dots> ?k" by (rule frame_update_prog) simp
          finally show "frame_of s ?k" .
        qed
        moreover have "sv_keeps s (emit [Out_reboot] s)" by (rule frame_keeps) (simp add: frame_emit)
        ultimately show ?thesis
          using active Some False go [of ?a] go [of ?i] go [of ?k]
          by (cases "le_action e") (auto simp: is_exiting_def Let_def case_prod_beta)
      qed
    qed
  qed
qed simp

lemma poll_step:
  "p_cfg (snd (poll_termination h p)) = p_cfg p" "p_state (snd (poll_termination h p)) = p_state p"
  "p_pid (snd (poll_termination h p)) = p_pid p"
  by (simp_all add: poll_termination_def set_job_def split: prod.splits)

lemma not_running_replace: "p_state p' \<noteq> PS_runing \<Longrightarrow> not_running nm (update_prog nm (\<lambda>_. p') s)"
  by (auto simp: not_running_def)

lemma not_running_update:
  "(\<And>p. p_state (f p) = p_state p \<and> p_name (f p) = p_name p) \<Longrightarrow> not_running nm s \<Longrightarrow> not_running nm (update_prog nm f s)"
  unfolding not_running_def update_prog_sel(7) list.set_map ball_simps by simp

lemma frame_drive_termination: "frame_of s (drive_termination h nm s)"
proof (cases "find_prog nm s")
  case (Some p)
  show ?thesis
  proof (cases "is_stopping (p_state p)")
    case True
    let ?p = "snd (poll_termination h p)"
    let ?s1 = "update_prog nm (\<lambda>_. ?p) s"
    let ?done = "\<lambda>p. (cleanup_tree p)\<lparr>p_instance := (p_instance (cleanup_tree p))\<lparr>mi_termination := TP_completed\<rparr>\<rparr>"
    have f1: "frame_of s ?s1" by (rule frame_replace [OF Some]) (simp add: poll_step prog_step_def prog_ok_def)
    have "prog_step ex q (?done q)" for ex q by (simp add: cleanup_tree_def prog_step_def prog_ok_def)
    then have f2: "frame_of ?s1 (update_prog nm ?done ?s1)" by (rule frame_update_prog)
    have "frame_of (update_prog nm ?done ?s1) (execute_penddingtasks h nm (update_prog nm ?done ?s1))"
    proof (rule frame_execute_tasks)
      have "p_state ?p \<noteq> PS_runing" using True by (auto simp: poll_step is_stopping_def)
      then have "not_running nm (update_prog nm ?done ?s1)"
        by (intro not_running_update not_running_replace) (simp_all add: cleanup_tree_def)
      then show "sv_exit (update_prog nm ?done ?s1) \<or> not_running nm (update_prog nm ?done ?s1)" ..
    qed
    with f1 f2 have "frame_of s (execute_penddingtasks h nm (update_prog nm ?done ?s1))" by (blast intro: frame_trans)
    moreover have "frame_of s (run_prog nm async_force_kill ?s1)"
      using f1 by (rule frame_trans) (rule frame_run_prog, simp add: force_kill_step)
    ultimately show ?thesis using Some True f1 by (simp add: drive_termination_def Let_def case_prod_beta)
  qed (use Some in \<open>simp add: drive_termination_def\<close>)
qed (simp add: drive_termination_def)

text \<open>What follows the due restarts.\<close>

definition after_restarts :: "host \<Rightarrow> string list \<Rightarrow> lifecycle_timeout_event list \<Rightarrow> pm_tiny_server_t \<Rightarrow> pm_tiny_server_t" where
  "after_restarts h ordered es s =
     (case run_timeouts h ordered es s of
       (starting, reboot, s2) \<Rightarrow>
         let s3 = fold (drive_termination h) (map p_name (sv_progs s2)) s2
         in if \<not> reboot \<and> starting \<noteq> [] then spawn1 h starting s3 else s3)"

lemma run_timers_alt:
  "run_timers h s = after_restarts h (map p_name (sv_progs s)) (lt_timeouts (tick_plan h s))
     (run_due_restarts h (map p_name (sv_progs s)) (lt_due_restarts (tick_plan h s)) s)"
  by (simp add: run_timers_def after_restarts_def Let_def)

lemma keeps_after_restarts: "sv_keeps s (after_restarts h ordered es s)"
proof -
  let ?t = "run_timeouts h ordered es s"
  let ?s2 = "snd (snd ?t)"
  let ?s3 = "fold (drive_termination h) (map p_name (sv_progs ?s2)) ?s2"
  have k2: "sv_keeps s ?s2" "server_inv s \<Longrightarrow> fst ?t \<noteq> [] \<Longrightarrow> \<not> sv_exit s"
    using run_timeouts_keeps by blast+
  have k3: "sv_keeps ?s2 ?s3" by (rule frame_keeps, rule frame_fold) (rule frame_drive_termination)
  from k2(1) k3 have k: "sv_keeps s ?s3" by (blast intro: keeps_trans)
  have "sv_keeps s (spawn1 h (fst ?t) ?s3)" if "fst ?t \<noteq> []"
  proof -
    have "sv_keeps ?s3 (spawn1 h (fst ?t) ?s3)" if "server_inv s"
    proof -
      have "\<not> sv_exit ?s3" using that k2 k3 \<open>fst ?t \<noteq> []\<close> by (auto simp: sv_keeps_def)
      then show ?thesis by (rule frame_keeps [OF frame_spawn1])
    qed
    with k show ?thesis by (auto simp: sv_keeps_def intro: emits_trans)
  qed
  with k show ?thesis by (simp add: after_restarts_def Let_def case_prod_beta)
qed

lemma keeps_run_timers: "sv_keeps s (run_timers h s)"
  unfolding run_timers_alt by (rule keeps_trans [OF keeps_due_restarts keeps_after_restarts])

subsubsection \<open>Shutdown and reload\<close>

lemma frame_ok:
  assumes "frame_of s t" "distinct_names s" "sv_exit s"
  shows "(\<forall>p \<in> set (sv_progs s). prog_ok False p) \<Longrightarrow> \<forall>p \<in> set (sv_progs t). prog_ok False p"
    and "(\<forall>p \<in> set (sv_progs s). p_name p \<in> N \<longrightarrow> prog_ok True p) \<Longrightarrow> \<forall>p \<in> set (sv_progs t). p_name p \<in> N \<longrightarrow> prog_ok True p"
proof -
  have "list_all2 (prog_step True) (sv_progs s) (sv_progs t)" using assms by (simp add: frame_of_def)
  then have b: "\<exists>p \<in> set (sv_progs s). prog_step True p q" if "q \<in> set (sv_progs t)" for q
    using that by (metis in_set_conv_nth list_all2_conv_all_nth)
  then show "(\<forall>p \<in> set (sv_progs s). prog_ok False p) \<Longrightarrow> \<forall>p \<in> set (sv_progs t). prog_ok False p"
    unfolding prog_step_def by blast
  show "(\<forall>p \<in> set (sv_progs s). p_name p \<in> N \<longrightarrow> prog_ok True p) \<Longrightarrow> \<forall>p \<in> set (sv_progs t). p_name p \<in> N \<longrightarrow> prog_ok True p"
    using b unfolding prog_step_def by metis
qed

text \<open>\<open>quit_prog\<close> up to its last step, on the state with the restart plan reset.\<close>

definition kill_and_run :: "host \<Rightarrow> string \<Rightarrow> pm_tiny_server_t \<Rightarrow> pm_tiny_server_t" where
  "kill_and_run h nm s = (case find_prog nm s of
       Some p \<Rightarrow> if p_pid p \<noteq> -1 then execute_penddingtasks h nm (run_prog nm (async_kill_prog h) s) else s
     | None \<Rightarrow> s)"

lemma quit_prog_alt:
  "quit_prog h nm s = update_prog nm (\<lambda>p. if p_state p = PS_waiting_start then p\<lparr>p_state := PS_no_run\<rparr> else p)
     (kill_and_run h nm (update_prog nm reset_restart_policy s))"
  by (simp add: quit_prog_def kill_and_run_def Let_def)

lemma frame_kill_and_run:
  assumes "sv_exit s"
  shows "frame_of s (kill_and_run h nm s)"
    and "distinct_names s \<Longrightarrow> \<forall>p \<in> set (sv_progs s). prog_ok False p \<Longrightarrow>
      \<forall>q \<in> set (sv_progs (kill_and_run h nm s)). p_name q \<in> {nm} \<longrightarrow> prog_ok True q"
proof -
  let ?k = "run_prog nm (async_kill_prog h) s"
  have fk: "frame_of s ?k" by (rule frame_run_prog) (simp add: async_kill_step)
  have exk: "sv_exit ?k" using assms by (simp add: run_prog_def split: option.splits)
  have fe: "frame_of ?k (execute_penddingtasks h nm ?k)" using exk by (simp add: frame_execute_tasks)
  show "frame_of s (kill_and_run h nm s)"
    using frame_trans [OF fk fe] by (simp add: kill_and_run_def split: option.splits)
  assume d: "distinct_names s" and ok: "\<forall>p \<in> set (sv_progs s). prog_ok False p"
  show "\<forall>q \<in> set (sv_progs (kill_and_run h nm s)). p_name q \<in> {nm} \<longrightarrow> prog_ok True q"
  proof (cases "find_prog nm s")
    case (Some p)
    show ?thesis
    proof (cases "p_pid p = -1")
      case True
      have "q = p" if "q \<in> set (sv_progs s)" "p_name q = nm" for q
        using find_prog_unique [OF d that] Some by simp
      moreover have "prog_ok True p"
        using True ok find_prog_Some [OF Some] by (auto simp: prog_ok_def live_state_def)
      ultimately show ?thesis using Some True by (auto simp: kill_and_run_def)
    next
      case False
      have "\<forall>q \<in> set (sv_progs ?k). p_name q \<in> {nm} \<longrightarrow> prog_ok True q"
        using Some async_kill_step(5) [of h p] by (auto simp: run_prog_def prog_ok_def live_state_def)
      from frame_ok(2) [OF fe frame_distinct [OF fk d] exk this] Some False show ?thesis by (simp add: kill_and_run_def)
    qed
  next
    case None
    then have "kill_and_run h nm s = s" by (simp add: kill_and_run_def)
    with None [unfolded find_prog_None] show ?thesis by auto
  qed
qed

lemma frame_quit_prog:
  assumes "sv_exit s"
  shows "frame_of s (quit_prog h nm s)"
    and "distinct_names s \<Longrightarrow> \<forall>p \<in> set (sv_progs s). prog_ok False p \<Longrightarrow>
      \<forall>q \<in> set (sv_progs (quit_prog h nm s)). p_name q \<in> {nm} \<longrightarrow> prog_ok True q"
proof -
  let ?s = "update_prog nm reset_restart_policy s"
  let ?t = "kill_and_run h nm ?s"
  have f1: "frame_of s ?s" by (rule frame_update_prog) simp
  have f2: "frame_of ?s ?t" using assms by (simp add: frame_kill_and_run)
  have f3: "frame_of ?t (quit_prog h nm s)"
    unfolding quit_prog_alt by (rule frame_update_prog) (simp add: prog_step_def prog_ok_def live_state_def)
  from f1 f2 f3 show "frame_of s (quit_prog h nm s)" by (blast intro: frame_trans)
  assume d: "distinct_names s" and ok: "\<forall>p \<in> set (sv_progs s). prog_ok False p"
  have d1: "distinct_names ?s" by (rule frame_distinct [OF f1 d])
  have "\<forall>q \<in> set (sv_progs ?t). p_name q \<in> {nm} \<longrightarrow> prog_ok True q"
    using frame_kill_and_run(2) [OF _ d1 frame_ok(1) [OF f1 d assms ok]] assms by simp
  from frame_ok(2) [OF f3 frame_distinct [OF f2 d1] _ this] frame_exit [OF f2 d1] assms
  show "\<forall>q \<in> set (sv_progs (quit_prog h nm s)). p_name q \<in> {nm} \<longrightarrow> prog_ok True q" by simp
qed

lemma fold_quit_prog:
  assumes "sv_exit s" "distinct_names s" "\<forall>p \<in> set (sv_progs s). prog_ok False p"
    "\<forall>p \<in> set (sv_progs s). p_name p \<in> N \<longrightarrow> prog_ok True p"
  shows "frame_of s (fold (quit_prog h) nms s) \<and>
    (\<forall>p \<in> set (sv_progs (fold (quit_prog h) nms s)). p_name p \<in> N \<union> set nms \<longrightarrow> prog_ok True p)"
  using assms
proof (induction nms arbitrary: s N)
  case (Cons nm nms)
  let ?t = "quit_prog h nm s"
  have f: "frame_of s ?t" using frame_quit_prog(1) Cons.prems(1) by blast
  have d: "distinct_names ?t" "sv_exit ?t" using frame_distinct [OF f] frame_exit [OF f] Cons.prems by simp_all
  have "\<forall>p \<in> set (sv_progs ?t). p_name p \<in> insert nm N \<longrightarrow> prog_ok True p"
    using frame_ok(2) [OF f Cons.prems(2,1,4)] frame_quit_prog(2) [OF Cons.prems(1,2,3)] by blast
  from Cons.IH [OF d(2,1) frame_ok(1) [OF f Cons.prems(2,1,3)] this] f show ?case
    by (auto intro: frame_trans)
qed simp

lemma stop_order_all: "p \<in> set (sv_progs s) \<Longrightarrow> p_name p \<in> set (stop_order s)"
  by (auto simp: stop_order_def Let_def)

text \<open>A request to quit: the invariant, and what it emits.\<close>

lemma request_quit_inv:
  assumes "server_inv s"
  shows "server_inv (request_quit h s)" "sv_exit (request_quit h s)" "emits True s (request_quit h s)"
    "sv_reload (request_quit h s) = sv_reload s"
proof -
  have "server_inv (request_quit h s) \<and> sv_exit (request_quit h s) \<and> emits True s (request_quit h s) \<and>
      sv_reload (request_quit h s) = sv_reload s"
  proof (cases "sv_exit s")
    case False
    let ?s = "s\<lparr>sv_exit := True\<rparr>"
    let ?t = "fold (quit_prog h) (stop_order s) ?s"
    have d: "distinct_names ?s" using assms by (simp add: server_inv_def table_ok_def distinct_names_def)
    have ok: "\<forall>p \<in> set (sv_progs ?s). prog_ok False p" using assms False by (simp add: server_inv_def progs_ok_def)
    have "\<forall>p \<in> set (sv_progs ?s). p_name p \<in> {} \<longrightarrow> prog_ok True p" by simp
    from fold_quit_prog [OF _ d ok this, of h "stop_order s"]
    have f: "frame_of ?s ?t" and all: "\<forall>p \<in> set (sv_progs ?t). p_name p \<in> set (stop_order s) \<longrightarrow> prog_ok True p" by simp_all
    have l: "list_all2 (prog_step True) (sv_progs s) (sv_progs ?t)" "sv_graph ?t = sv_graph s"
      "runtime_ok ?s \<longrightarrow> runtime_ok ?t" "emits True ?s ?t" "sv_exit ?t" "sv_reload ?t = sv_reload s"
      using f d by (auto simp: frame_of_def)
    have e: "emits True s ?t" using l(4) by (simp add: emits_def)
    have n: "p_name ` set (sv_progs ?t) = p_name ` set (sv_progs s)"
      using arg_cong [OF steps_names [OF l(1)], of set] by simp
    then have "table_ok ?t" using assms l frame_distinct [OF f d] by (simp add: server_inv_def table_ok_def runtime_ok_def)
    moreover have "progs_ok ?t"
      unfolding progs_ok_def
    proof
      fix p assume p: "p \<in> set (sv_progs ?t)"
      then have "p_name p \<in> p_name ` set (sv_progs s)" using n by blast
      then have "p_name p \<in> set (stop_order s)" using stop_order_all by auto
      with all p l(5) show "prog_ok (sv_exit ?t) p" by simp
    qed
    ultimately show ?thesis using assms l e emits_no_abort [OF e] False
      by (simp add: request_quit_def is_exiting_def server_inv_def reload_ok_def)
  qed (use assms in \<open>simp add: request_quit_def is_exiting_def\<close>)
  then show "server_inv (request_quit h s)" "sv_exit (request_quit h s)" "emits True s (request_quit h s)"
    "sv_reload (request_quit h s) = sv_reload s" by blast+
qed

lemma finish_save_frame: "frame_of s (finish_save s)"
proof -
  obtain r w where p: "worker_poll (sv_worker s) = (r, w)" by fastforce
  have "frame_of s (s\<lparr>sv_worker := w\<rparr>)" by (rule frameI) (simp_all add: runtime_ok_def)
  moreover have "frame_of t ((emit (map (\<lambda>sid. Out_frame sid fr) xs) t)\<lparr>sv_wait_save := []\<rparr>)" for t xs fr
  proof -
    have "frame_of t (emit (map (\<lambda>sid. Out_frame sid fr) xs) t)" by (simp add: frame_emit)
    also have "frame_of \<dots> (\<dots>\<lparr>sv_wait_save := []\<rparr>)" by (rule frameI) (simp_all add: runtime_ok_def)
    finally show ?thesis .
  qed
  ultimately show ?thesis using p
    by (auto simp: finish_save_def poll_save_proc_to_cfg_def split: option.splits intro: frame_trans)
qed

lemma keeps_spawn:
  assumes "\<not> sv_exit s" "build_prog_dependency_graph (sv_progs s) = Inr (sv_graph s)" "reload_ok s"
    "Out_abort \<notin> set (sv_out s)"
  shows "server_inv (spawn h s)" "\<not> sv_exit (spawn h s)"
proof -
  let ?s = "s\<lparr>sv_progs := map (\<lambda>p. p\<lparr>p_state := PS_waiting_start\<rparr>) (sv_progs s), sv_runtime := reset (sv_graph s)\<rparr>"
  let ?t = "snd (run_runtime request_all ?s)"
  have n: "map prog_node (sv_progs ?s) = map prog_node (sv_progs s)" by (simp add: prog_node_def)
  have b: "build_prog_dependency_graph (sv_progs ?s) = Inr (sv_graph s)"
    using assms(2) unfolding build_prog_dependency_graph_def n .
  have "server_inv ?s"
    by (rule server_invI) (use assms b reset_wf [OF built_table(1) [OF b]] in
        \<open>auto simp: prog_ok_def live_state_def reload_ok_def\<close>)
  moreover have "sv_keeps ?s ?t" by (rule frame_keeps, rule frame_run_runtime) (simp add: runtime_calls_wf)
  moreover have "\<not> sv_exit ?t" using assms(1) by simp
  then have "sv_keeps ?t (snd (spawn0 h nms ?t))" for nms by (rule frame_keeps [OF frame_spawn0])
  ultimately have "server_inv (snd (spawn0 h nms ?t)) \<and> \<not> sv_exit (snd (spawn0 h nms ?t))" for nms
    using assms(1) by (auto simp: sv_keeps_def)
  then show "server_inv (spawn h s)" "\<not> sv_exit (spawn h s)" by (simp_all add: spawn_def case_prod_beta)
qed

lemma quiet_detach_all [simp]: "quiet ex (concat (map (\<lambda>p. fst (detach_sessions closed p)) ps))"
  by (induction ps) simp_all

lemma check_quit_inv:
  assumes "server_inv s"
  shows "server_inv (snd (check_quit_or_reload h s))"
    "sv_exit (snd (check_quit_or_reload h s)) \<Longrightarrow> emits (sv_exit s) s (snd (check_quit_or_reload h s))"
proof -
  let ?s = "finish_save s"
  have k: "sv_keeps s ?s" by (rule frame_keeps) (rule finish_save_frame)
  with assms have inv: "server_inv ?s" "sv_exit ?s = sv_exit s" "emits (sv_exit s) s ?s" by (auto simp: sv_keeps_def)
  have "server_inv (snd (check_quit_or_reload h s)) \<and>
    (sv_exit (snd (check_quit_or_reload h s)) \<longrightarrow> emits (sv_exit s) s (snd (check_quit_or_reload h s)))"
  proof (cases "sv_exit ?s \<and> living_processes h ?s = [] \<and> \<not> persistence_busy ?s")
    case False
    then show ?thesis using inv by (auto simp: check_quit_or_reload_def Let_def is_exiting_def)
  next
    case True
    show ?thesis
    proof (cases "sv_reload ?s")
      case None
      then show ?thesis using True inv by (simp add: check_quit_or_reload_def Let_def is_exiting_def)
    next
      case (Some rc)
      let ?t = "(emit (map (\<lambda>sid. Out_frame sid (reply_frame 0 ''success'' []))
          (filter (\<lambda>sid. \<not> sv_closed ?s sid) (sv_wait_reload ?s))) ?s)\<lparr>sv_exit := False, sv_wait_reload := []\<rparr>"
      let ?u = "emit (concat (map (\<lambda>p. fst (detach_sessions (sv_closed ?t) p)) (sv_progs ?t))) (swap_reload_config rc ?t)"
      have rc: "rl_valid rc" "build_prog_dependency_graph (rl_progs rc) = Inr (rl_graph rc)"
        using inv(1) Some by (simp_all add: server_inv_def reload_ok_def)
      have e: "emits True ?s ?u" by (auto simp: emits_def swap_reload_config_def)
      have "Out_abort \<notin> set (sv_out ?u)" using emits_no_abort [OF e] inv(1) by (simp add: server_inv_def)
      then have "server_inv (spawn h ?u)" "\<not> sv_exit (spawn h ?u)"
        using keeps_spawn [of ?u h] rc by (simp_all add: swap_reload_config_def reload_ok_def)
      moreover have "check_quit_or_reload h s = (False, spawn h ?u)"
        using True Some rc(1) by (simp add: check_quit_or_reload_def Let_def is_exiting_def)
      ultimately show ?thesis by simp
    qed
  qed
  then show "server_inv (snd (check_quit_or_reload h s))"
    "sv_exit (snd (check_quit_or_reload h s)) \<Longrightarrow> emits (sv_exit s) s (snd (check_quit_or_reload h s))" by blast+
qed

subsection \<open>Requests keep the invariant\<close>

lemma migrate_wf:
  assumes "wf_graph g"
  shows "rt_wf (migrate g es)" "dr_graph (migrate g es) = g"
proof -
  have "rt_wf (fold migrate_entry es r) = rt_wf r \<and> dr_graph (fold migrate_entry es r) = dr_graph r" for r
    by (induction es arbitrary: r) simp_all
  with reset_wf [OF assms] show "rt_wf (migrate g es)" "dr_graph (migrate g es) = g" by (simp_all add: migrate_def)
qed

lemma keeps_drop_prog:
  assumes "build_prog_dependency_graph (sv_progs s) = Inr (sv_graph s)" "server_inv s"
  shows "server_inv (let s3 = s\<lparr>sv_progs := filter (\<lambda>p. p_name p \<noteq> nm) (sv_progs s), sv_errno := e\<rparr>
    in case build_prog_dependency_graph (sv_progs s3) of
         Inl e \<Rightarrow> s3 | Inr rebuilt \<Rightarrow> s3\<lparr>sv_graph := rebuilt, sv_runtime := migrate rebuilt snap\<rparr>)"
proof (cases "build_prog_dependency_graph (filter (\<lambda>p. p_name p \<noteq> nm) (sv_progs s))")
  case (Inl e)
  then show ?thesis using assms(2)
    by (auto simp: server_inv_def table_ok_def distinct_names_def runtime_ok_def progs_ok_def reload_ok_def Let_def
        intro: distinct_map_filter)
next
  case (Inr g)
  let ?t = "s\<lparr>sv_progs := filter (\<lambda>p. p_name p \<noteq> nm) (sv_progs s), sv_errno := e, sv_graph := g, sv_runtime := migrate g snap\<rparr>"
  have "server_inv ?t"
    by (rule server_invI) (use Inr assms(2) migrate_wf [OF built_table(1) [OF Inr]] in
        \<open>auto simp: server_inv_def progs_ok_def reload_ok_def\<close>)
  then show ?thesis using Inr by (simp add: Let_def)
qed

text \<open>The table right after a program was added, before anything is started.\<close>

definition added :: "prog_info_t \<Rightarrow> dependency_graph \<Rightarrow> pm_tiny_server_t \<Rightarrow> pm_tiny_server_t" where
  "added prog g s = s\<lparr>sv_progs := sv_progs s @ [prog], sv_graph := g, sv_runtime := migrate g (snapshot (sv_runtime s))\<rparr>"

lemma keeps_added:
  assumes "build_prog_dependency_graph (sv_progs s @ [prog]) = Inr g" "prog_ok (sv_exit s) prog"
  shows "sv_keeps s (added prog g s)"
proof -
  have "server_inv (added prog g s)" if "server_inv s"
    by (rule server_invI) (use assms that migrate_wf [OF built_table(1) [OF assms(1)]] in
        \<open>auto simp: added_def server_inv_def progs_ok_def reload_ok_def\<close>)
  then show ?thesis by (simp add: sv_keeps_def added_def)
qed

lemma frame_started:
  assumes "\<not> sv_exit s"
  shows "frame_of s (snd (spawn0 h nms (show_pending (snd (run_runtime (request_closure nm) s)))))"
proof -
  have "frame_of s (snd (run_runtime (request_closure nm) s))" by (rule frame_run_runtime) (simp add: runtime_calls_wf)
  also have "frame_of \<dots> (show_pending \<dots>)" by (rule frame_show_pending)
  also have "frame_of \<dots> (snd (spawn0 h nms \<dots>))" by (rule frame_spawn0) (simp add: show_pending_def assms)
  finally show ?thesis .
qed

lemma frame_built:
  assumes "frame_of s t" "distinct_names s"
  shows "build_prog_dependency_graph (sv_progs t) = build_prog_dependency_graph (sv_progs s)" "sv_graph t = sv_graph s"
proof -
  have l: "list_all2 (prog_step (sv_exit s)) (sv_progs s) (sv_progs t)" using assms by (simp add: frame_of_def)
  have "map prog_node (sv_progs t) = map prog_node (sv_progs s)"
    using map_cfg_cong [OF steps_cfg [OF l], of "\<lambda>c. \<lparr>dn_name = cfg_name c, dn_depends_on = cfg_depends_on c\<rparr>"]
    by (simp add: prog_node_def [abs_def])
  then show "build_prog_dependency_graph (sv_progs t) = build_prog_dependency_graph (sv_progs s)"
    by (simp only: build_prog_dependency_graph_def)
  show "sv_graph t = sv_graph s" using assms by (simp add: frame_of_def)
qed

lemma start_and_add_alt:
  "start_and_add_prog h prog s = (case build_prog_dependency_graph (sv_progs s @ [prog]) of
     Inl e \<Rightarrow> (False, s)
   | Inr g \<Rightarrow>
       let s1 = snd (run_runtime (request_closure (p_name prog)) (added prog g s));
           nms = fst (run_runtime (request_closure (p_name prog)) (added prog g s));
           s2 = snd (spawn0 h nms (show_pending s1))
       in if fst (spawn0 h nms (show_pending s1)) = [] then (True, s2)
          else (False, let s3 = s2\<lparr>sv_progs := filter (\<lambda>p. p_name p \<noteq> p_name prog) (sv_progs s2),
                             sv_errno := (if sv_errno s2 = 0 then EIO else sv_errno s2)\<rparr>
                       in case build_prog_dependency_graph (sv_progs s3) of
                            Inl e \<Rightarrow> s3
                          | Inr rebuilt \<Rightarrow> s3\<lparr>sv_graph := rebuilt, sv_runtime := migrate rebuilt (snapshot (sv_runtime s))\<rparr>))"
  by (simp add: start_and_add_prog_def added_def Let_def case_prod_beta split: sum.splits)

lemma keeps_start_and_add:
  assumes "\<not> sv_exit s" "prog_ok False prog"
  shows "sv_keeps s (snd (start_and_add_prog h prog s))"
proof (cases "build_prog_dependency_graph (sv_progs s @ [prog])")
  case (Inr g)
  let ?a = "added prog g s"
  let ?nms = "fst (run_runtime (request_closure (p_name prog)) ?a)"
  let ?s2 = "snd (spawn0 h ?nms (show_pending (snd (run_runtime (request_closure (p_name prog)) ?a))))"
  let ?e = "if sv_errno ?s2 = 0 then EIO else sv_errno ?s2"
  let ?s3 = "let s3 = ?s2\<lparr>sv_progs := filter (\<lambda>p. p_name p \<noteq> p_name prog) (sv_progs ?s2), sv_errno := ?e\<rparr>
      in case build_prog_dependency_graph (sv_progs s3) of
           Inl e \<Rightarrow> s3 | Inr rebuilt \<Rightarrow> s3\<lparr>sv_graph := rebuilt, sv_runtime := migrate rebuilt (snapshot (sv_runtime s))\<rparr>"
  have ka: "sv_keeps s ?a" by (rule keeps_added [OF Inr]) (use assms in simp)
  have ex: "\<not> sv_exit ?a" using assms by (simp add: added_def)
  have f: "frame_of ?a ?s2" by (rule frame_started [OF ex])
  have k2: "sv_keeps s ?s2" using ka by (rule keeps_trans) (rule frame_keeps [OF f])
  have k3: "sv_keeps ?s2 ?s3" if inv: "server_inv s"
  proof -
    have i2: "server_inv ?s2" "server_inv ?a" using inv ka k2 by (auto simp: sv_keeps_def)
    have "build_prog_dependency_graph (sv_progs ?s2) = Inr (sv_graph ?s2)"
      using frame_built [OF f server_inv_distinct [OF i2(2)]] Inr by (simp add: added_def)
    from keeps_drop_prog [OF this i2(1), where nm = "p_name prog" and e = ?e and snap = "snapshot (sv_runtime s)"]
    show ?thesis by (simp add: sv_keeps_def Let_def split: sum.splits)
  qed
  have "sv_keeps s ?s3" using k2 k3 by (auto simp: sv_keeps_def intro: emits_trans)
  with k2 Inr show ?thesis by (simp add: start_and_add_alt Let_def)
qed (simp add: start_and_add_alt)

lemma fresh_prog_ok:
  "create_prog dir config envs = Some p \<Longrightarrow> p_pid (complete_prog src config p) = -1 \<and>
     p_state (complete_prog src config p) = PS_no_run \<and> p_name (complete_prog src config p) = cfg_name config"
  by (auto simp: create_prog_def complete_prog_def Let_def default_prog_info_def new_instance_def split: if_splits)

lemma keeps_create_and_start:
  assumes "\<not> sv_exit s"
  shows "sv_keeps s (snd (create_and_start h sid request s))"
proof (cases "check_identity h sid request")
  case (Inr ce)
  obtain cfg inherited where ce: "ce = (cfg, inherited)" by fastforce
  show ?thesis
  proof (cases "create_prog (sp_app_log_dir (sv_paths s)) cfg inherited")
    case (Some p)
    let ?t = "complete_prog ''runtime'' cfg p"
    have "sv_keeps s (snd (start_and_add_prog h ?t s))"
      by (rule keeps_start_and_add [OF assms]) (use fresh_prog_ok [OF Some, of "''runtime''"] in \<open>simp add: prog_ok_def live_state_def\<close>)
    moreover obtain ok s1 where "start_and_add_prog h ?t s = (ok, s1)" by fastforce
    ultimately show ?thesis using Inr ce Some
      by (cases ok) (simp_all add: create_and_start_def Let_def split: sum.splits)
  qed (use Inr ce in \<open>simp add: create_and_start_def\<close>)
qed (simp add: create_and_start_def)

lemma keeps_answer_start: "sv_keeps s (answer_start sid request s)"
proof (rule frame_keeps)
  let ?s = "if sq_show_log request \<and> sp_result (start_reply (sq_name request) s) \<noteq> SR_blocked
      then update_prog (sq_name request) (add_session sid) s else s"
  have "frame_of s ?s" by (simp add: frame_update_same_run)
  also have "frame_of ?s (emit [Out_frame sid fr] ?s)" for fr by (simp add: frame_emit)
  finally show "frame_of s (answer_start sid request s)" by (simp add: answer_start_def Let_def)
qed

lemma keeps_reply: "sv_keeps s (reply sid code msg s)"
  by (rule frame_keeps) (rule frame_reply)

lemma keeps_handle_cmd_start:
  assumes "\<not> sv_exit s"
  shows "sv_keeps s (handle_cmd_start h sid payload s)"
proof (cases "read_start_request payload")
  case (Inr request)
  let ?nm = "sq_name request"
  have "sv_keeps s (update_prog ?nm reset_restart_policy s)" by (rule frame_keeps, rule frame_update_prog) simp
  also have "sv_keeps \<dots> (snd (request_start h ?nm \<dots>))" by (rule frame_keeps, rule frame_request_start) (simp add: assms)
  finally have rs: "sv_keeps s (snd (request_start h ?nm (update_prog ?nm reset_restart_policy s)))" .
  obtain ok s1 where s1: "request_start h ?nm (update_prog ?nm reset_restart_policy s) = (ok, s1)" by fastforce
  obtain msg s2 where s2: "create_and_start h sid request s = (msg, s2)" by fastforce
  have "sv_keeps s s1" "sv_keeps s s2" using rs s1 keeps_create_and_start [OF assms, of h sid request] s2 by simp_all
  then have k: "sv_keeps s (answer_start sid request s1)" "sv_keeps s (answer_start sid request s2)"
    "\<And>c m. sv_keeps s (reply sid c m s1)" "\<And>c m. sv_keeps s (reply sid c m s2)"
    using keeps_answer_start keeps_reply by (blast intro: keeps_trans)+
  show ?thesis
  proof (cases "sq_mode request = SM_existing")
    case True
    with Inr s1 k(1,3) show ?thesis
      by (cases ok) (simp_all add: handle_cmd_start_def Let_def keeps_reply split: option.splits)
  next
    case False
    with Inr s2 k(2,4) show ?thesis
      by (cases msg) (simp_all add: handle_cmd_start_def Let_def keeps_reply)
  qed
qed (simp add: handle_cmd_start_def keeps_reply)


subsection \<open>The other requests\<close>

lemma keeps_server_exiting: "server_exiting sid s = Some t \<Longrightarrow> sv_keeps s t"
  by (auto simp: server_exiting_def keeps_reply split: if_splits)

lemma server_exiting_None: "server_exiting sid s = None \<longleftrightarrow> \<not> sv_exit s"
  by (auto simp: server_exiting_def is_reloading_def is_exiting_def)

lemma keeps_kill_and_enqueue:
  "sv_keeps s (update_prog nm (enqueue_after_termination t) (run_prog nm (async_kill_prog h) s))"
proof (rule frame_keeps)
  have "frame_of s (run_prog nm (async_kill_prog h) s)" by (rule frame_run_prog) (auto simp: async_kill_step)
  also have "frame_of \<dots> (update_prog nm (enqueue_after_termination t) \<dots>)" by (rule frame_update_prog) simp
  finally show "frame_of s (update_prog nm (enqueue_after_termination t) (run_prog nm (async_kill_prog h) s))" .
qed

lemma keeps_handle_stop: "sv_keeps s (handle_stop h sid nm s)"
proof (cases "find_prog nm s")
  case (Some p)
  let ?s1 = "run_prog nm (fail_pending_log_sessions (sv_closed s) ''log wait canceled by stop'')
    (update_prog nm reset_restart_policy s)"
  have "frame_of s (update_prog nm reset_restart_policy s)" by (rule frame_update_prog) simp
  also have "frame_of \<dots> ?s1" by (rule frame_run_same) simp
  finally have f1: "frame_of s ?s1" .
  have "frame_of ?s1 (set_prog_state nm PS_stoped ?s1)" by (rule frame_set_state) (simp_all add: live_state_def)
  also have "frame_of \<dots> (mark_dependency_stopped nm \<dots>)" by (rule frame_mark_dependency_stopped)
  also have "frame_of \<dots> (reply sid 0 ''success'' \<dots>)" by (rule frame_reply)
  finally have "sv_keeps s (reply sid 0 ''success'' (mark_dependency_stopped nm (set_prog_state nm PS_stoped ?s1)))"
    by (rule frame_keeps [OF frame_trans [OF f1]])
  moreover have "sv_keeps s (update_prog nm (enqueue_after_termination (Task_stop sid)) (run_prog nm (async_kill_prog h) ?s1))"
    by (rule keeps_trans [OF frame_keeps [OF f1] keeps_kill_and_enqueue])
  ultimately show ?thesis using Some
    by (auto simp: handle_stop_def Let_def keeps_reply keeps_server_exiting split: option.splits)
qed (simp add: handle_stop_def keeps_reply)

lemma keeps_run_task:
  assumes "find_prog nm s = Some p" "p_pid p = -1"
  shows "sv_keeps s (run_task h nm t s)"
proof (rule frame_keeps)
  assume inv: "server_inv s"
  have "q = p" if "q \<in> set (sv_progs s)" "p_name q = nm" for q
    using find_prog_unique [OF server_inv_distinct [OF inv] that] assms(1) by simp
  moreover have "prog_ok (sv_exit s) p" using server_inv_prog [OF inv] find_prog_Some [OF assms(1)] by blast
  ultimately have "not_running nm s" using assms(2) by (auto simp: not_running_def prog_ok_def live_state_def)
  then show "frame_of s (run_task h nm t s)" by (intro frame_run_task disjI2)
qed

lemma keeps_trigger: "sv_keeps s (trigger_DAG_traversal_next_node p s)"
  using frame_mark_dependency_stopped [of s "p_name p"]
  by (auto simp: trigger_DAG_traversal_next_node_def mark_dependency_stopped_def intro: frame_keeps)

text \<open>The stop that a delete of a living program begins.\<close>

lemma keeps_kill_delete:
  assumes "\<not> sv_exit s" "find_prog nm s = Some p" "p_pid p \<noteq> -1"
  shows "sv_keeps s (set_prog_state nm PS_request_delete (run_prog nm (async_kill_prog h) s))"
proof -
  let ?t = "run_prog nm (async_kill_prog h) s"
  have f: "frame_of s ?t" by (rule frame_run_prog) (auto simp: async_kill_step)
  have "find_prog nm ?t = Some (snd (async_kill_prog h p))"
    using assms(2) find_prog_Some [OF assms(2)]
    by (simp add: run_prog_def find_prog_replace async_kill_step del: update_prog_sel(7))
  moreover have "p_pid (snd (async_kill_prog h p)) \<noteq> -1"
    using assms(3) by (subst async_kill_step(3)) simp
  moreover have "\<not> sv_exit ?t" using assms by (simp add: run_prog_def)
  ultimately have "sv_keeps ?t (set_prog_state nm PS_request_delete ?t)"
    unfolding set_prog_state_def by (intro keeps_accept_ready) auto
  then show ?thesis by (rule keeps_trans [OF frame_keeps [OF f]])
qed

lemma keeps_handle_remove: "sv_keeps s (handle_remove h sid nm s)"
proof (cases "find_prog nm s")
  case (Some p)
  have "sv_keeps s (update_prog nm (enqueue_after_termination (Task_delete sid))
      (set_prog_state nm PS_request_delete (run_prog nm (async_kill_prog h) s)))" if "\<not> sv_exit s" "p_pid p \<noteq> -1"
    by (rule keeps_trans [OF keeps_kill_delete [OF that(1) Some that(2)]], rule frame_keeps, rule frame_update_prog) simp
  moreover have "sv_keeps s (remove_prog nm (run_task h nm (Task_delete sid) (trigger_DAG_traversal_next_node p s)))"
    if "p_pid p = -1"
  proof -
    have "find_prog nm (trigger_DAG_traversal_next_node p s) = Some p"
      using Some by (simp add: trigger_DAG_traversal_next_node_def find_prog_def)
    then show ?thesis using that keeps_trigger keeps_run_task keeps_remove_prog by (blast intro: keeps_trans)
  qed
  ultimately show ?thesis using Some
    by (auto simp: handle_remove_def Let_def keeps_reply keeps_server_exiting server_exiting_None split: option.splits)
qed (simp add: handle_remove_def keeps_reply)

lemma keeps_handle_restart: "sv_keeps s (handle_restart h sid nm show_log s)"
proof (cases "find_prog nm s")
  case (Some p)
  let ?s1 = "update_prog nm reset_restart_policy s"
  have k: "sv_keeps s ?s1" by (rule frame_keeps, rule frame_update_prog) simp
  have "find_prog nm ?s1 = Some (reset_restart_policy p)" "p_pid (reset_restart_policy p) = p_pid p"
    using Some find_prog_Some [OF Some]
    by (auto simp: find_prog_update reset_restart_policy_def simp del: update_prog_sel(7))
  then have "sv_keeps s (run_task h nm t ?s1)" if "p_pid p = -1" for t
    using that k by (metis keeps_run_task keeps_trans)
  moreover have "sv_keeps s (update_prog nm (enqueue_after_termination t) (run_prog nm (async_kill_prog h) ?s1))" for t
    by (rule keeps_trans [OF k keeps_kill_and_enqueue])
  moreover have "sv_keeps s (reply sid c m ?s1)" for c m by (rule keeps_trans [OF k keeps_reply])
  ultimately show ?thesis using Some by (simp add: handle_restart_def Let_def del: run_task.simps)
qed (simp add: handle_restart_def keeps_reply)

lemma keeps_handle_log: "sv_keeps s (handle_log sid payload s)"
proof (cases "read_program_log_request payload")
  case (Inr q)
  let ?nm = "lq_name q"
  have "frame_of s (update_prog ?nm (wait_for_next_log_generation sid) s)" by (rule frame_update_same_run) simp
  moreover have "frame_of s (emit (Out_frame sid fr # write_cache_log_to_session sid p) (update_prog ?nm (add_session sid) s))"
    for fr p
    by (rule frame_trans [OF frame_update_same_run frame_emit]) simp_all
  moreover have "frame_of s (emit (Out_frame sid fr # write_cache_log_to_session sid p @
      stream_to [sid] 0 [] (\<lambda>i n. False)) s)" for fr p
    by (rule frame_emit) simp
  ultimately show ?thesis using Inr
    by (auto simp: handle_log_def Let_def keeps_reply frame_keeps split: option.splits)
qed (simp add: handle_log_def keeps_reply)

lemma keeps_close_session: "sv_keeps s (close_session sid s)"
proof (rule frame_keeps)
  let ?s = "s\<lparr>sv_closed := (sv_closed s)(sid := True), sv_progs := map (remove_session sid) (sv_progs s)\<rparr>"
  have "frame_of s ?s"
    by (auto simp: frame_of_def runtime_ok_def list_all2_conv_all_nth same_run_step)
  also have "frame_of ?s (emit [Out_close sid] ?s)" by (rule frame_emit) simp
  finally show "frame_of s (close_session sid s)" by (simp add: close_session_def)
qed


lemma keeps_spawn1: "\<not> sv_exit s \<Longrightarrow> sv_keeps s (spawn1 h nms s)"
  by (rule frame_keeps) (rule frame_spawn1)

lemma keeps_handle_ready: "sv_keeps s (handle_ready h sid nm s)"
proof (cases "find_prog nm s")
  case (Some p)
  let ?f = "\<lambda>p. p\<lparr>p_state := PS_runing, p_last_tick_timepoint := h_now h, p_heartbeat_action_due_ms := 0\<rparr>"
  have "sv_keeps s (spawn1 h [nm] (update_prog nm ?f s))" if "heartbeat_peer_matches h sid p" "p_state p = PS_starting"
  proof (cases "server_inv s")
    case True
    then have "prog_ok (sv_exit s) p" using server_inv_prog find_prog_Some [OF Some] by blast
    then have x: "\<not> sv_exit s" "p_pid p \<noteq> -1" using that(2) by (auto simp: prog_ok_def live_state_def)
    have "sv_keeps s (update_prog nm ?f s)" by (rule keeps_accept_ready [OF x(1) Some x(2)]) simp
    also have "sv_keeps \<dots> (spawn1 h [nm] \<dots>)" by (rule keeps_spawn1) (simp add: x)
    finally show ?thesis .
  qed (simp add: sv_keeps_def)
  then show ?thesis using Some by (simp add: handle_ready_def keeps_close_session)
qed (simp add: handle_ready_def keeps_close_session)

lemma keeps_handle_tick: "sv_keeps s (handle_tick h sid nm s)"
proof -
  have "sv_keeps s (update_prog nm (\<lambda>p. p\<lparr>p_last_tick_timepoint := x, p_heartbeat_action_due_ms := 0\<rparr>) s)" for x
    by (rule frame_keeps, rule frame_update_same_run) (simp add: same_run_def)
  then show ?thesis by (auto simp: handle_tick_def keeps_close_session split: option.splits)
qed

lemma frame_worker: "frame_of s (s\<lparr>sv_worker := w, sv_saving := x, sv_wait_save := y\<rparr>)"
  by (rule frameI) (simp_all add: runtime_ok_def)

lemma keeps_handle_save: "sv_keeps s (handle_save sid s)"
proof -
  obtain ok w where w: "worker_submit (sv_worker s) = (ok, w)" by fastforce
  have f: "frame_of s (s\<lparr>sv_worker := w\<rparr>)"
    using frame_worker [where s = s and w = w and x = "sv_saving s" and y = "sv_wait_save s"] by simp
  have "sv_keeps s (reply sid c m (s\<lparr>sv_worker := w\<rparr>))" for c m
    by (rule keeps_trans [OF frame_keeps [OF f] keeps_reply])
  moreover have "sv_keeps s (s\<lparr>sv_worker := w, sv_saving := x, sv_wait_save := y\<rparr>)" for x y
    by (rule frame_keeps) (rule frame_worker)
  ultimately show ?thesis using w
    by (cases ok) (simp_all add: handle_save_def begin_save_proc_to_cfg_def keeps_reply)
qed

subsection \<open>Every step keeps the invariant\<close>

text \<open>A step may begin a shutdown or end a reload; unless it ends one, an exiting daemon starts nothing.\<close>

definition sv_step :: "pm_tiny_server_t \<Rightarrow> pm_tiny_server_t \<Rightarrow> bool" where
  "sv_step s t \<longleftrightarrow> (server_inv s \<longrightarrow> server_inv t \<and> (sv_exit s \<longrightarrow> sv_exit t \<longrightarrow> emits True s t))"

lemma keeps_step: "sv_keeps s t \<Longrightarrow> sv_step s t"
  by (auto simp: sv_keeps_def sv_step_def)

lemma step_request_quit: "sv_step s (request_quit h s)"
  using request_quit_inv [of s h] by (simp add: sv_step_def)

lemma step_handle_quit: "sv_step s (handle_quit h sid s)"
proof -
  let ?t = "emit [Out_frame sid (reply_frame 0 ''success'' [fappend_i32 (h_getpid h)])] s"
  have "sv_keeps s ?t" by (rule frame_keeps, rule frame_emit) simp
  moreover have "sv_step ?t (request_quit h ?t)" by (rule step_request_quit)
  ultimately show ?thesis
    unfolding handle_quit_def sv_step_def sv_keeps_def by (auto simp del: emit_sel intro: emits_trans [of _ _ ?t])
qed

lemma parse_cfg2_valid:
  "rl_valid (parse_cfg2 loaded s) \<Longrightarrow>
     build_prog_dependency_graph (rl_progs (parse_cfg2 loaded s)) = Inr (rl_graph (parse_cfg2 loaded s))"
  by (auto simp: parse_cfg2_def split: option.splits sum.splits)

lemma step_handle_reload: "sv_step s (handle_reload h loaded sid s)"
proof (cases "server_exiting sid s")
  case None
  then have x: "\<not> sv_exit s" by (simp add: server_exiting_None)
  let ?rc = "parse_cfg2 loaded s"
  let ?t = "request_quit h (s\<lparr>sv_reload := Some ?rc\<rparr>)"
  have "server_inv (?t\<lparr>sv_wait_reload := y\<rparr>)" if "server_inv s" "rl_valid ?rc" for y
  proof -
    have "server_inv (s\<lparr>sv_reload := Some ?rc\<rparr>)"
      using that parse_cfg2_valid [OF that(2)]
      by (simp add: server_inv_def table_ok_def progs_ok_def reload_ok_def distinct_names_def runtime_ok_def)
    from request_quit_inv(1) [OF this] show ?thesis
      by (simp add: server_inv_def table_ok_def progs_ok_def reload_ok_def distinct_names_def runtime_ok_def)
  qed
  then have "sv_step s (?t\<lparr>sv_wait_reload := y\<rparr>)" if "rl_valid ?rc" for y using that x by (simp add: sv_step_def)
  then show ?thesis using None by (simp add: handle_reload_def Let_def keeps_step [OF keeps_reply])
qed (simp add: handle_reload_def keeps_step [OF keeps_server_exiting])

lemma step_handle_frame:
  "handle_frame h df loaded request sid s = Inr t \<Longrightarrow> sv_step s t"
proof -
  assume a: "handle_frame h df loaded request sid s = Inr t"
  have f: "sv_keeps s (emit [Out_frame sid fr] s)" for fr by (rule frame_keeps, rule frame_emit) simp
  have i: "sv_keeps s (handle_cmd_inspect h sid nm s)" for nm
    by (simp add: handle_cmd_inspect_def keeps_reply f split: option.splits)
  have st: "sv_keeps s (case server_exiting sid s of Some s1 \<Rightarrow> s1 | None \<Rightarrow> handle_cmd_start h sid p s)" for p
    using keeps_handle_cmd_start [of s h sid p]
    by (auto simp: keeps_server_exiting server_exiting_None split: option.splits)
  note k = keeps_reply f i st keeps_handle_stop keeps_handle_save keeps_handle_remove keeps_handle_restart
    keeps_handle_log keeps_handle_ready keeps_handle_tick
  show ?thesis using a
    by (auto simp: handle_frame_def Let_def k [THEN keeps_step] step_handle_quit step_handle_reload
        split: if_splits control_command.splits sum.splits)
qed

lemma step_dispatch: "sv_step s (dispatch_message h df loaded request sid s)"
  by (auto simp: dispatch_message_def keeps_step [OF keeps_reply] step_handle_frame split: sum.splits)

lemma keeps_chld: "sv_keeps s (check_delayed_chld_sig h reaped s)"
  using keeps_trans [OF keeps_reap_children keeps_run_timers]
  by (auto simp: check_delayed_chld_sig_def keeps_run_timers split: option.splits)

lemma step_maintenance: "sv_step s (snd (maintenance h exit_signal reaped s))"
  unfolding sv_step_def
proof (intro impI)
  assume inv: "server_inv s"
  let ?s = "if exit_signal then request_quit h s else s"
  let ?t = "check_delayed_chld_sig h reaped ?s"
  have q: "server_inv ?s" "sv_exit s \<Longrightarrow> emits True s ?s \<and> sv_exit ?s" using request_quit_inv [OF inv, of h] inv by auto
  with keeps_chld [of ?s h reaped] have t: "server_inv ?t" "sv_exit s \<Longrightarrow> emits True s ?t \<and> sv_exit ?t"
    unfolding sv_keeps_def by (auto intro: emits_trans)
  show "server_inv (snd (maintenance h exit_signal reaped s)) \<and>
    (sv_exit s \<longrightarrow> sv_exit (snd (maintenance h exit_signal reaped s)) \<longrightarrow> emits True s (snd (maintenance h exit_signal reaped s)))"
    unfolding maintenance_def using check_quit_inv [OF t(1), of h] t(2) by (auto intro: emits_trans)
qed

lemma daemon_step_ok: "sv_step s (daemon_step df e s)"
proof (cases "(df, e, s)" rule: daemon_step.cases)
  case (3 df h nm i s)
  have "sv_keeps s (run_prog nm (\<lambda>p. if p_pipes p ! i then read_pipe h i False p else ([], p)) s)"
    by (rule frame_keeps, rule frame_run_same) simp
  with 3 show ?thesis by (simp add: keeps_step)
next
  case (4 df h result s)
  have "sv_keeps s (s\<lparr>sv_worker := w\<rparr>)" for w
    using frame_keeps [OF frame_worker [where s = s and w = w and x = "sv_saving s" and y = "sv_wait_save s"]] by simp
  with 4 show ?thesis by (simp add: keeps_step)
qed (auto simp: step_dispatch step_maintenance keeps_step [OF keeps_close_session])

interpretation supervisor: invariant_machine "\<lambda>e s. daemon_step df e s" "\<lambda>_. True" server_inv for df
  by unfold_locales (use daemon_step_ok in \<open>simp add: sv_step_def\<close>)


subsection \<open>The start of the daemon\<close>

lemma boot_server_inv:
  assumes "boot_server h paths loaded = Some s"
  shows "server_inv s" "\<not> sv_exit s"
proof -
  obtain progs where p: "parse_cfg_into (sp_app_log_dir (sv_paths (new_server paths))) loaded [] = Some progs"
    using assms by (auto simp: boot_server_def parse_cfg_def new_server_def split: option.splits)
  let ?s = "(new_server paths)\<lparr>sv_progs := progs\<rparr>"
  obtain t where t: "rebuild_dependency_graph ?s = (True, t)" "s = spawn h t"
    using assms p by (auto simp: boot_server_def parse_cfg_def new_server_def split: prod.splits bool.splits)
  then have "build_prog_dependency_graph (sv_progs t) = Inr (sv_graph t)" "\<not> sv_exit t" "reload_ok t" "sv_out t = []"
    by (auto simp: rebuild_dependency_graph_def new_server_def reload_ok_def split: sum.splits)
  with keeps_spawn [of t h] t(2) show "server_inv s" "\<not> sv_exit s" by simp_all
qed

lemma run_daemon_inv: "boot_server h paths loaded = Some s \<Longrightarrow> server_inv (fold (daemon_step df) es s)"
  using supervisor.inv_run [OF boot_server_inv(1), where es = es and df = df] by (simp add: list_all_iff)

end
