(* ===== verification/Program_Output.thy ===== *)
theory Program_Output
  imports Managed_Program
begin

section \<open>The output of a program\<close>

text \<open>
  Where the bytes go that a program writes: every byte read from its pipes reaches the log file or is counted as
  dropped, and enters the log tail.
\<close>

definition logged :: "effect list \<Rightarrow> string" where
  "logged effs = concat (map (\<lambda>e. case e of Out_log path txt \<Rightarrow> txt | _ \<Rightarrow> []) effs)"

definition dropped :: "prog_info_t \<Rightarrow> nat" where
  "dropped p = lh_dropped_bytes (p_log_health p)"

text \<open>The file that the output of pipe \<open>i\<close> goes to.\<close>

definition log_path :: "nat \<Rightarrow> prog_info_t \<Rightarrow> string" where
  "log_path i p = p_logfile p ! (if cfg_log_mode (p_cfg p) = LM_combined then 0 else i)"

lemma logged_simps [simp]:
  "logged [] = []" "logged (xs @ ys) = logged xs @ logged ys" "logged [Out_log path txt] = txt"
  by (simp_all add: logged_def)

text \<open>Some bytes were handled: logged whole or counted, on the right file, with the rest of the program as it was.\<close>

definition handled :: "nat \<Rightarrow> string \<Rightarrow> prog_info_t \<Rightarrow> effect list \<Rightarrow> prog_info_t \<Rightarrow> bool" where
  "handled i bytes p effs q \<longleftrightarrow>
     length (logged effs) + dropped q = dropped p + length bytes \<and> dropped p \<le> dropped q \<and>
     (dropped q = dropped p \<longrightarrow> logged effs = bytes) \<and>
     (\<forall>path txt. Out_log path txt \<in> set effs \<longrightarrow> path = log_path i p) \<and> p_cfg q = p_cfg p \<and> p_logfile q = p_logfile p"

lemma handled_refl [simp]: "handled i [] p [] p"
  by (simp add: handled_def)

lemma handled_trans: "handled i xs p es q \<Longrightarrow> handled i ys q fs r \<Longrightarrow> handled i (xs @ ys) p (es @ fs) r"
  by (auto simp: handled_def log_path_def)

lemma open_writer_sel:
  "dropped (open_writer h j p) = dropped p" "p_cfg (open_writer h j p) = p_cfg p" "p_logfile (open_writer h j p) = p_logfile p"
  "p_log_tail (open_writer h j p) = p_log_tail p"
  by (simp_all add: open_writer_def dropped_def record_failure_def split: option.splits)

lemma reopen_sel:
  "dropped (recover_log (reopen_siblings h p)) = dropped p" "p_cfg (recover_log (reopen_siblings h p)) = p_cfg p"
  "p_logfile (recover_log (reopen_siblings h p)) = p_logfile p" "p_log_tail (recover_log (reopen_siblings h p)) = p_log_tail p"
proof -
  have f: "dropped (fold (\<lambda>i p. if p_writers p ! i then p else open_writer h i p) xs p) = dropped p \<and>
    p_cfg (fold (\<lambda>i p. if p_writers p ! i then p else open_writer h i p) xs p) = p_cfg p \<and>
    p_logfile (fold (\<lambda>i p. if p_writers p ! i then p else open_writer h i p) xs p) = p_logfile p \<and>
    p_log_tail (fold (\<lambda>i p. if p_writers p ! i then p else open_writer h i p) xs p) = p_log_tail p" for xs
    by (induction xs arbitrary: p) (simp_all add: open_writer_sel)
  have r: "dropped (recover_log p) = dropped p" "p_cfg (recover_log p) = p_cfg p" "p_logfile (recover_log p) = p_logfile p"
    "p_log_tail (recover_log p) = p_log_tail p" for p
    by (simp_all add: recover_log_def dropped_def record_recovery_def)
  show "dropped (recover_log (reopen_siblings h p)) = dropped p" "p_cfg (recover_log (reopen_siblings h p)) = p_cfg p"
    "p_logfile (recover_log (reopen_siblings h p)) = p_logfile p" "p_log_tail (recover_log (reopen_siblings h p)) = p_log_tail p"
    using f by (simp_all add: r reopen_siblings_def)
qed

lemma write_log_handled:
  assumes "w = (if cfg_log_mode (p_cfg p) = LM_combined then 0 else i)"
  shows "handled i txt p (fst (write_log h w txt p)) (snd (write_log h w txt p))"
    "p_log_tail (snd (write_log h w txt p)) = p_log_tail p"
  using assms by (auto simp: write_log_def handled_def dropped_def record_failure_def log_path_def split: option.splits)

lemma redirect_handled:
  "handled i txt p (fst (redirect_output_log h i txt p)) (snd (redirect_output_log h i txt p)) \<and>
   p_log_tail (snd (redirect_output_log h i txt p)) = p_log_tail p"
proof -
  define w where w: "w = (if cfg_log_mode (p_cfg p) = LM_combined then 0 else i)"
  let ?q = "recover_log (reopen_siblings h (p\<lparr>p_writers := (p_writers p)[w := True]\<rparr>))"
  have s: "dropped ?q = dropped p" "p_cfg ?q = p_cfg p" "p_logfile ?q = p_logfile p" "p_log_tail ?q = p_log_tail p"
    by (simp_all add: reopen_sel) (simp add: dropped_def)
  then have "handled i [] p [] ?q" by (simp add: handled_def)
  from handled_trans [OF this write_log_handled(1) [of w ?q i "txt" h]] s w
  have "handled i txt p (fst (write_log h w txt ?q)) (snd (write_log h w txt ?q))"
    "p_log_tail (snd (write_log h w txt ?q)) = p_log_tail p"
    using write_log_handled(2) [of w ?q i h "txt"] by simp_all
  moreover have "handled i txt p [] (p\<lparr>p_log_health := record_failure n (length txt) e (p_log_health p)\<rparr>)" for n e
    by (simp add: handled_def dropped_def record_failure_def)
  ultimately show ?thesis unfolding redirect_output_log_def Let_def w [symmetric]
    using write_log_handled [OF w] by (simp split: option.splits)
qed

lemma pieces_handled:
  assumes "\<not> cfg_pty (p_cfg p)"
  shows "\<exists>es. fst (fold (read_piece h i) cs (effs, p)) = effs @ es \<and>
    handled i (concat cs) p es (snd (fold (read_piece h i) cs (effs, p))) \<and>
    p_log_tail (snd (fold (read_piece h i) cs (effs, p))) = p_log_tail p"
  using assms
proof (induction cs arbitrary: effs p)
  case (Cons c cs)
  let ?e = "fst (redirect_output_log h i c p)" and ?q = "snd (redirect_output_log h i c p)"
  have r: "handled i c p ?e ?q" "p_log_tail ?q = p_log_tail p" using redirect_handled by blast+
  have s: "read_piece h i c (effs, p) = (effs @ ?e, ?q)" using Cons.prems by (simp add: read_piece_def case_prod_beta)
  have "\<not> cfg_pty (p_cfg ?q)" using r(1) Cons.prems by (simp add: handled_def)
  from Cons.IH [OF this, of "effs @ ?e"] obtain es where
    "fst (fold (read_piece h i) cs (effs @ ?e, ?q)) = (effs @ ?e) @ es"
    "handled i (concat cs) ?q es (snd (fold (read_piece h i) cs (effs @ ?e, ?q)))"
    "p_log_tail (snd (fold (read_piece h i) cs (effs @ ?e, ?q))) = p_log_tail ?q" by blast
  with handled_trans [OF r(1)] r(2) show ?case by (auto simp: s)
qed simp

lemma stream_not_logged: "logged (stream_to sids t c m) = []" "Out_log path txt \<notin> set (stream_to sids t c m)"
  by (auto simp: stream_to_def logged_def split: sum.splits)

lemma round_handled:
  assumes "\<not> cfg_pty (p_cfg p)"
  shows "\<exists>es. fst (read_round h i bytes (effs, p)) = effs @ es \<and> handled i bytes p es (snd (read_round h i bytes (effs, p))) \<and>
    p_log_tail (snd (read_round h i bytes (effs, p))) = append_tail bytes (p_log_tail p)"
proof -
  let ?cs = "split_contents 4096 bytes"
  let ?q = "snd (fold (read_piece h i) ?cs (effs, p))"
  from pieces_handled [OF assms, of h i ?cs effs] obtain es where
    e: "fst (fold (read_piece h i) ?cs (effs, p)) = effs @ es" "handled i bytes p es ?q" "p_log_tail ?q = p_log_tail p"
    by (auto simp: concat_split_contents)
  let ?w = "write_msg_to_sessions 1 bytes ?q"
  have "handled i [] ?q (fst ?w) (snd ?w)"
    by (auto simp: write_msg_to_sessions_def handled_def dropped_def stream_not_logged)
  from handled_trans [OF e(2) this] e(1,3) show ?thesis
    by (auto simp: read_round_def case_prod_beta Let_def write_msg_to_sessions_def)
qed

lemma rounds_handled:
  assumes "\<not> cfg_pty (p_cfg p)"
  shows "\<exists>es. fst (fold (read_round h i) rs (effs, p)) = effs @ es \<and>
    handled i (concat rs) p es (snd (fold (read_round h i) rs (effs, p))) \<and>
    p_log_tail (snd (fold (read_round h i) rs (effs, p))) = fold append_tail rs (p_log_tail p)"
  using assms
proof (induction rs arbitrary: effs p)
  case (Cons r rs)
  let ?x = "read_round h i r (effs, p)"
  from round_handled [OF Cons.prems, of h i r effs] obtain es where
    e: "fst ?x = effs @ es" "handled i r p es (snd ?x)" "p_log_tail (snd ?x) = append_tail r (p_log_tail p)" by blast
  have "\<not> cfg_pty (p_cfg (snd ?x))" using e(2) Cons.prems by (simp add: handled_def)
  from Cons.IH [OF this, of "fst ?x"] obtain fs where
    "fst (fold (read_round h i) rs ?x) = fst ?x @ fs" "handled i (concat rs) (snd ?x) fs (snd (fold (read_round h i) rs ?x))"
    "p_log_tail (snd (fold (read_round h i) rs ?x)) = fold append_tail rs (p_log_tail (snd ?x))" by auto
  with e handled_trans [OF e(2)] show ?case by auto
qed simp

subsection \<open>Property\<close>


text \<open>A host on which every call works, for examples.\<close>

definition demo_launch :: "int \<Rightarrow> spawn_calls" where
  "demo_launch pid = \<lparr>sc_prepare = True, sc_block = True, sc_fork = pid,
     sc_attach = Inr (\<lparr>th_mode = TM_process_group, th_root_pid = pid, th_pgid = pid, th_cgroup_path = [], th_active = True\<rparr>, []),
     sc_gate_write = 1, sc_poll = 1, sc_exec_status = 0, sc_child_errno = 0, sc_errno = 0\<rparr>"

definition demo_host :: host where
  "demo_host = \<lparr>h_now = 1000, h_unix = 5000, h_tree_empty = (\<lambda>t. \<not> th_active t), h_tree_contains = (\<lambda>t pid. th_root_pid t = pid),
     h_spawn = (\<lambda>n. demo_launch (100 + int n)), h_pipe = (\<lambda>nm i. []), h_log_open = (\<lambda>f. None), h_log_append = (\<lambda>f t. None),
     h_rss = (\<lambda>pid. 0), h_strerror = (\<lambda>e. ''error''), h_user_named = (\<lambda>u. None), h_user_uid = (\<lambda>u. None),
     h_euid = 0, h_egid = 0, h_getpid = 7, h_realpath = (\<lambda>f. Some f), h_is_dir = (\<lambda>f. True), h_is_executable = (\<lambda>f. True),
     h_peer = (\<lambda>sid. Some (100, 0, 0)), h_controller = (False, [])\<rparr>"


end
