(* ===== verification/Supervisor_Shutdown.thy ===== *)
theory Supervisor_Shutdown
  imports Supervisor_Invariant Program_Output
begin

section \<open>The daemon's invariant and its shutdown\<close>

text \<open>
  The properties of the running daemon: its invariant, the order of a shutdown, its end and the reload.  The witnesses
  use a daemon with two programs, the second of which depends on the first.
\<close>

subsection \<open>Two programs\<close>

definition demo_cfg :: "string \<Rightarrow> string list \<Rightarrow> prog_cfg_t" where
  "demo_cfg nm deps = default_prog_cfg\<lparr>cfg_name := nm, cfg_cwd := ''/'', cfg_executable := ''/sh'', cfg_depends_on := deps\<rparr>"

definition demo_prog :: "string \<Rightarrow> string list \<Rightarrow> prog_info_t" where
  "demo_prog nm deps = complete_prog ''file'' (demo_cfg nm deps) (the (create_prog ''/l'' (demo_cfg nm deps) []))"

definition demo_paths :: server_paths where
  "demo_paths = \<lparr>sp_home_dir = ''/h'', sp_sock_file = ''/s'', sp_uds_abstract = False, sp_app_log_dir = ''/l''\<rparr>"

definition demo_loaded :: prog_cfg_load_result_t where
  "demo_loaded = load_ok [demo_cfg ''a'' [], demo_cfg ''b'' [''a'']]"

definition demo_nodes :: "dependency_node_config list" where
  "demo_nodes = [\<lparr>dn_name = ''a'', dn_depends_on = []\<rparr>, \<lparr>dn_name = ''b'', dn_depends_on = [''a'']\<rparr>]"

definition demo_graph :: dependency_graph where
  "demo_graph = (case build demo_nodes of Inr g \<Rightarrow> g | Inl e \<Rightarrow> empty_graph)"

text \<open>The daemon before it starts the two programs.\<close>

definition demo_table :: pm_tiny_server_t where
  "demo_table = (new_server demo_paths)\<lparr>sv_progs := [demo_prog ''a'' [], demo_prog ''b'' [''a'']], sv_graph := demo_graph,
     sv_runtime := reset demo_graph\<rparr>"

lemma demo_cfg_sel [simp]:
  "cfg_name (demo_cfg nm deps) = nm" "cfg_depends_on (demo_cfg nm deps) = deps" "cfg_envs (demo_cfg nm deps) = []"
  "cfg_run_as (demo_cfg nm deps) = []" "cfg_executable (demo_cfg nm deps) = ''/sh''" "cfg_cwd (demo_cfg nm deps) = ''/''"
  by (simp_all add: demo_cfg_def default_prog_cfg_def)

lemma demo_prog_sel [simp]:
  "p_cfg (demo_prog nm deps) = demo_cfg nm deps" "p_state (demo_prog nm deps) = PS_no_run"
  "p_instance (demo_prog nm deps) = new_instance"
  by (simp_all add: demo_prog_def demo_cfg_def create_prog_def complete_prog_def Let_def default_prog_info_def
      default_prog_cfg_def)

lemma demo_build: "build_prog_dependency_graph [demo_prog ''a'' [], demo_prog ''b'' [''a'']] = Inr demo_graph"
proof -
  have "\<not> isl (build demo_nodes)" by code_simp
  then have "build demo_nodes = Inr demo_graph" unfolding demo_graph_def by (auto split: sum.splits)
  then show ?thesis by (simp add: build_prog_dependency_graph_def prog_node_def demo_nodes_def)
qed

lemma demo_parse: "parse_cfg_into ''/l'' demo_loaded [] = Some [demo_prog ''a'' [], demo_prog ''b'' [''a'']]"
  by (simp add: parse_cfg_into_def demo_loaded_def load_ok_def add_loaded_def demo_prog_def create_prog_def
      complete_prog_def Let_def)

lemma demo_boot: "boot_server demo_host demo_paths demo_loaded = Some (spawn demo_host demo_table)"
  by (simp add: boot_server_def parse_cfg_def new_server_def demo_paths_def rebuild_dependency_graph_def demo_build
      demo_table_def demo_parse)

subsection \<open>The invariant\<close>

text \<open>
  C1: Whatever the kernel answers and whatever requests, disconnections, output, exits and signals arrive, in every
  state the daemon reaches after its start: program names are unique and all known to the dependency graph, which
  is well formed, as is the dependency runtime on it; a program that is starting, online or being deleted has a process;
  while the daemon is exiting, no program is starting or online; and the \<open>assert\<close> of \<open>restart\<close> never failed.
\<close>

theorem daemon_invariant:
  assumes "boot_server h paths loaded = Some s" "t = fold (daemon_step df) es s"
  shows "distinct (map p_name (sv_progs t)) \<and> p_name ` set (sv_progs t) \<subseteq> set (g_names (sv_graph t)) \<and>
    wf_graph (sv_graph t) \<and> rt_wf (sv_runtime t) \<and> dr_graph (sv_runtime t) = sv_graph t \<and>
    (\<forall>p \<in> set (sv_progs t). p_state p \<in> {PS_starting, PS_runing, PS_request_delete} \<longrightarrow> p_pid p \<noteq> -1) \<and>
    (sv_exit t \<longrightarrow> (\<forall>p \<in> set (sv_progs t). p_state p \<notin> {PS_starting, PS_runing})) \<and>
    Out_abort \<notin> set (sv_out t)"
proof -
  have "server_inv t" using run_daemon_inv assms by blast
  then show ?thesis
    by (auto simp: server_inv_def table_ok_def progs_ok_def prog_ok_def live_state_def runtime_ok_def distinct_names_def
        rt_wf_def)
qed

lemma daemon_invariant_witness:
  "\<exists>s t. boot_server demo_host demo_paths demo_loaded = Some s \<and>
    t = fold (daemon_step (undefined :: daemon_facts)) [(demo_host, Ev_maintenance True (Some [(100, 0)]))] s \<and>
    distinct (map p_name (sv_progs t)) \<and> Out_abort \<notin> set (sv_out t)"
  using daemon_invariant [OF demo_boot refl] demo_boot by blast

subsection \<open>Shutting down\<close>

lemma exiting_run_emits:
  assumes "server_inv s" "\<And>n. n \<le> length es \<Longrightarrow> sv_exit (fold (daemon_step df) (take n es) s)"
  shows "emits True s (fold (daemon_step df) es s)"
  using assms
proof (induction es arbitrary: s)
  case (Cons e es)
  let ?t = "daemon_step df e s"
  have x: "sv_exit s" using Cons.prems(2) [of 0] by simp
  have "sv_exit ?t" using Cons.prems(2) [of 1] by simp
  then have t: "server_inv ?t" "emits True s ?t" using daemon_step_ok [of s df e] Cons.prems(1) x by (auto simp: sv_step_def)
  have "emits True ?t (fold (daemon_step df) es ?t)"
    by (rule Cons.IH [OF t(1)]) (use Cons.prems(2) [of "Suc n" for n] in simp)
  with t(2) show ?case by (auto intro: emits_trans)
qed simp

text \<open>
  C2: Once the daemon is exiting (for a reload or for good) and as long as it stays so, nothing is started: no step
  launches a process, whatever pending restarts, timeouts, requests or unlocked dependents there are.
\<close>

theorem exiting_starts_nothing:
  assumes "boot_server h paths loaded = Some s" "t = fold (daemon_step df) es s"
    "\<forall>n \<le> length es'. sv_exit (fold (daemon_step df) (take n es') t)"
  shows "\<exists>effs. sv_out (fold (daemon_step df) es' t) = sv_out t @ effs \<and>
    (\<forall>nm pid exec. Out_started nm pid exec \<notin> set effs)"
proof -
  have "emits True t (fold (daemon_step df) es' t)"
    by (rule exiting_run_emits) (use run_daemon_inv assms in auto)
  then show ?thesis by (fastforce simp: emits_def quiet_def list_all_iff)
qed

definition demo_quit :: protocol_message where
  "demo_quit = \<lparr>pm_type = control_command_code CC_quit, pm_flags = 0, pm_request_id = 1, pm_payload = []\<rparr>"

lemma demo_quit_step: "dispatch_message h df loaded demo_quit sid s = handle_quit h sid s"
proof -
  have "decode_control_request demo_quit = \<lparr>dc_success = True, dc_command = CC_quit, dc_name = [], dc_error = []\<rparr>"
    by code_simp
  then show ?thesis by (simp add: dispatch_message_def handle_frame_def)
qed

lemma handle_quit_exits: "server_inv s \<Longrightarrow> sv_exit (handle_quit h sid s)"
proof -
  assume inv: "server_inv s"
  have "sv_keeps s (emit [Out_frame sid f] s)" for f by (rule frame_keeps, rule frame_emit) simp
  with inv have "server_inv (emit [Out_frame sid f] s)" for f by (simp add: sv_keeps_def)
  then show ?thesis by (simp add: handle_quit_def request_quit_inv(2))
qed

lemma exiting_starts_nothing_witness:
  "\<exists>s t. boot_server demo_host demo_paths demo_loaded = Some s \<and>
    t = fold (daemon_step (undefined :: daemon_facts)) [(demo_host, Ev_request 1 demo_quit demo_loaded)] s \<and> sv_exit t \<and>
    (\<exists>effs. sv_out (fold (daemon_step (undefined :: daemon_facts)) [(demo_host, Ev_disconnect 1)] t) = sv_out t @ effs \<and>
      (\<forall>nm pid exec. Out_started nm pid exec \<notin> set effs))"
proof -
  let ?s = "spawn demo_host demo_table"
  let ?t = "fold (daemon_step (undefined :: daemon_facts)) [(demo_host, Ev_request 1 demo_quit demo_loaded)] ?s"
  have x: "sv_exit ?t" using handle_quit_exits [OF boot_server_inv(1) [OF demo_boot]] by (simp add: demo_quit_step)
  then have "\<forall>n \<le> length [(demo_host, Ev_disconnect 1)].
      sv_exit (fold (daemon_step undefined) (take n [(demo_host, Ev_disconnect 1)]) ?t)"
    by (auto simp: le_Suc_eq close_session_def emit_def)
  from exiting_starts_nothing [OF demo_boot refl this] x show ?thesis using demo_boot by blast
qed

lemma names_in_order_built:
  assumes "build_prog_dependency_graph (sv_progs s) = Inr (sv_graph s)"
  shows "names_in_order (reverse_topological_order (sv_graph s)) s =
    rev (map ((!) (map p_name (sv_progs s))) (g_topological_order (sv_graph s)))"
proof -
  have b: "g_names (sv_graph s) = map p_name (sv_progs s)" "wf_graph (sv_graph s)" using built_table [OF assms] by simp_all
  then have "find_prog (map p_name (sv_progs s) ! i) s \<noteq> None" if "i \<in> set (g_topological_order (sv_graph s))" for i
    using that by (auto simp: find_prog_None wf_graph_def graph_size_def)
  then show ?thesis using b(1)
    by (simp add: names_in_order_def reverse_topological_order_def rev_map [symmetric] filter_id_conv)
qed

lemma stop_order_built:
  assumes "build_prog_dependency_graph (sv_progs s) = Inr (sv_graph s)"
  shows "stop_order s = rev (map ((!) (map p_name (sv_progs s))) (g_topological_order (sv_graph s)))"
proof -
  have "g_names (sv_graph s) = map p_name (sv_progs s)" "wf_graph (sv_graph s)" using built_table [OF assms] by simp_all
  then have "set (map ((!) (map p_name (sv_progs s))) (g_topological_order (sv_graph s))) = p_name ` set (sv_progs s)"
    using nth_image [of _ "map p_name (sv_progs s)", OF order_refl] by (simp add: wf_graph_def graph_size_def lessThan_atLeast0)
  then show ?thesis by (auto simp: stop_order_def names_in_order_built [OF assms] filter_empty_conv)
qed

text \<open>In a built table the dependencies of a program come earlier in the start order.\<close>

lemma dependency_earlier:
  assumes "build_prog_dependency_graph ps = Inr g" "p \<in> set ps" "d \<in> set (cfg_depends_on (p_cfg p))"
  obtains i j xs ys zs where "i < length ps" "j < length ps" "p_name (ps ! i) = p_name p" "p_name (ps ! j) = d"
    "g_topological_order g = xs @ j # ys @ i # zs"
proof -
  let ?cs = "map prog_node ps" and ?o = "g_topological_order g"
  have b: "build ?cs = Inr g" using assms(1) by (simp add: build_prog_dependency_graph_def split: sum.splits)
  note B = build_Inr [OF b]
  have ns: "dn_name \<circ> prog_node = (\<lambda>p. p_name p)" by (auto simp: prog_node_def)
  from assms(2) obtain i where i: "i < length ps" "ps ! i = p" by (auto simp: in_set_conv_nth)
  have "valid_depends_on (map dn_name ?cs) (prog_node p)" using B assms(2) by (auto simp: valid_configs_def)
  then have d: "d \<in> set (map p_name ps)" using assms(3) by (auto simp: valid_depends_on_def ns) (auto simp: prog_node_def)
  define j where "j = position (map p_name ps) d"
  have j: "j < length ps" "p_name (ps ! j) = d"
    using position_less [OF d] nth_position [OF d] by (simp_all add: j_def)
  have "i \<in> set ?o" using B i(1) by (auto simp: wf_graph_def graph_size_def)
  then obtain k where k: "k < length ?o" "?o ! k = i" by (auto simp: in_set_conv_nth)
  have "j \<in> set (g_dependencies g ! i)"
    using B i assms(3) by (simp add: config_ids_nth ns j_def) (simp add: prog_node_def)
  moreover have "closed_order (g_dependencies g) ?o" using B least_first_closed by (auto simp: wf_graph_def)
  ultimately have "j \<in> set (take k ?o)" using k by (auto simp: closed_order_def)
  then obtain xs ys where "take k ?o = xs @ j # ys" by (meson split_list)
  with k have "?o = xs @ j # ys @ i # drop (Suc k) ?o" by (metis append.assoc append_Cons id_take_nth_drop)
  with i j that show ?thesis by blast
qed

lemma stop_order_facts:
  assumes "build_prog_dependency_graph (sv_progs s) = Inr (sv_graph s)"
  shows "distinct (stop_order s) \<and> set (stop_order s) = p_name ` set (sv_progs s) \<and>
    (\<forall>p \<in> set (sv_progs s). \<forall>d \<in> set (cfg_depends_on (p_cfg p)).
      \<exists>xs ys zs. stop_order s = xs @ [p_name p] @ ys @ [d] @ zs)"
proof (intro conjI ballI)
  let ?g = "sv_graph s" and ?ns = "map p_name (sv_progs s)"
  let ?o = "g_topological_order ?g"
  note b = built_table [OF assms]
  have w: "distinct ?o" "set ?o = {..<length (sv_progs s)}" "closed_order (g_dependencies ?g) ?o"
    using b(1,2) least_first_closed least_first_distinct by (auto simp: wf_graph_def graph_size_def)
  show "distinct (stop_order s)"
    using w(1,2) b(3) by (simp add: stop_order_built [OF assms] distinct_map inj_on_def nth_eq_iff_index_eq del: nth_map)
  show "set (stop_order s) = p_name ` set (sv_progs s)"
    using w(2) nth_image [of _ ?ns, OF order_refl] by (simp add: stop_order_built [OF assms] lessThan_atLeast0)
  fix p d assume p: "p \<in> set (sv_progs s)" and d: "d \<in> set (cfg_depends_on (p_cfg p))"
  from dependency_earlier [OF assms p d] obtain i j xs ys zs where o: "i < length (sv_progs s)" "j < length (sv_progs s)"
    "p_name (sv_progs s ! i) = p_name p" "p_name (sv_progs s ! j) = d" "?o = xs @ j # ys @ i # zs" .
  then have "stop_order s = rev (map ((!) ?ns) zs) @ [p_name p] @ rev (map ((!) ?ns) ys) @ [d] @ rev (map ((!) ?ns) xs)"
    by (simp add: stop_order_built [OF assms])
  then show "\<exists>xs ys zs. stop_order s = xs @ [p_name p] @ ys @ [d] @ zs" by blast
qed

text \<open>What a shutdown signals.\<close>

fun is_signal :: "effect \<Rightarrow> bool" where
  "is_signal (Out_signal nm tree sig) = True"
| "is_signal _ = False"

definition terminates :: "prog_info_t \<Rightarrow> effect list" where
  "terminates p = (let j = mi_job (p_instance p) in
     if p_pid p \<noteq> -1 \<and> (tj_phase j = TP_none \<or> tj_generation j \<noteq> p_generation p)
     then [Out_signal (p_name p) (mi_tree (p_instance p)) SIG_term] else [])"

text \<open>An operation that signals nothing and leaves all processes alone.\<close>

definition same_procs :: "pm_tiny_server_t \<Rightarrow> pm_tiny_server_t \<Rightarrow> bool" where
  "same_procs s t \<longleftrightarrow> map (\<lambda>p. (p_cfg p, p_instance p)) (sv_progs t) = map (\<lambda>p. (p_cfg p, p_instance p)) (sv_progs s) \<and>
     sv_exit t = sv_exit s \<and> filter is_signal (sv_out t) = filter is_signal (sv_out s)"

lemma same_procs_refl [simp]: "same_procs s s"
  by (simp add: same_procs_def)

lemma same_procs_trans [trans]: "same_procs s t \<Longrightarrow> same_procs t u \<Longrightarrow> same_procs s u"
  by (simp add: same_procs_def)

lemma same_procs_update:
  "(\<And>p. p_cfg (f p) = p_cfg p \<and> p_instance (f p) = p_instance p) \<Longrightarrow> same_procs s (update_prog nm f s)"
  by (simp add: same_procs_def)

lemma same_procs_fold: "(\<And>x t. same_procs t (f x t)) \<Longrightarrow> same_procs s (fold f xs s)"
  by (induction xs arbitrary: s) (auto intro: same_procs_trans)

lemma same_procs_flag: "same_procs s (flag_startup_fail nm s)"
proof -
  obtain failure r where f: "mark_failed nm (sv_runtime s) = (failure, r)" by fastforce
  have "same_procs t (set_prog_state x st t)" for x st t unfolding set_prog_state_def by (rule same_procs_update) simp
  note st = this
  let ?s = "s\<lparr>sv_runtime := r\<rparr>"
  have "same_procs ?s (set_prog_state nm PS_startup_fail ?s)" by (rule st)
  also have "same_procs \<dots> (fold (\<lambda>b. set_prog_state b PS_blocked) (fr_blocked failure) \<dots>)" by (rule same_procs_fold) (rule st)
  finally have "same_procs ?s (fold (\<lambda>b. set_prog_state b PS_blocked) (fr_blocked failure)
      (set_prog_state nm PS_startup_fail ?s))" .
  with f show ?thesis by (simp add: flag_startup_fail_def same_procs_def)
qed

lemma exiting_if_waiting: "sv_exit s \<Longrightarrow> same_procs s (if_waiting sid f s)"
  by (simp add: if_waiting_def server_exiting_def is_exiting_def reply_def same_procs_def)

lemma same_procs_replace:
  assumes "distinct_names s" "find_prog nm s = Some p" "p_cfg p' = p_cfg p" "p_instance p' = p_instance p"
  shows "same_procs s (update_prog nm (\<lambda>_. p') s)"
proof -
  have "q = p" if "q \<in> set (sv_progs s)" "p_name q = nm" for q
    using find_prog_unique [OF assms(1) that] assms(2) by simp
  with assms(3,4) show ?thesis by (auto simp: same_procs_def)
qed

lemma same_procs_distinct: "same_procs s t \<Longrightarrow> distinct_names s \<Longrightarrow> distinct_names t"
proof -
  assume a: "same_procs s t" "distinct_names s"
  have "map p_name (sv_progs t) = map (\<lambda>x. cfg_name (fst x)) (map (\<lambda>p. (p_cfg p, p_instance p)) (sv_progs t))" by simp
  also have "\<dots> = map p_name (sv_progs s)" using a(1) by (simp add: same_procs_def)
  finally show ?thesis using a(2) by (simp add: distinct_names_def)
qed

lemma exiting_run_task:
  assumes "sv_exit s" "distinct_names s"
  shows "same_procs s (run_task h nm t s)"
proof (cases t)
  case (Task_drained now_ms life_time)
  show ?thesis unfolding Task_drained run_task.simps
    by (rule same_procs_update) (simp add: prog_plan_restart_def split: prod.splits)
next
  case (Task_timeout kind)
  show ?thesis
  proof (cases "find_prog nm s")
    case (Some p)
    obtain decision p' where d: "prog_plan_restart (h_now h) (h_now h - p_last_startup_ms p) p = (decision, p')" by fastforce
    then have k: "p_cfg p' = p_cfg p" "p_instance p' = p_instance p" using plan_restart_keeps [of "h_now h"] by (metis snd_conv)+
    have "same_procs s (update_prog nm (\<lambda>_. p'\<lparr>p_dead_count := n, p_state := st\<rparr>) s)" for n st
      by (rule same_procs_replace [OF assms(2) Some]) (use k in simp_all)
    moreover have "same_procs s (flag_startup_fail nm (update_prog nm (\<lambda>_. p') s))"
      by (rule same_procs_trans [OF same_procs_replace [OF assms(2) Some k] same_procs_flag])
    ultimately show ?thesis by (simp add: Task_timeout Some d)
  qed (simp add: Task_timeout)
qed (simp_all add: assms exiting_if_waiting)

lemma exiting_run_tasks:
  "sv_exit s \<Longrightarrow> distinct_names s \<Longrightarrow> same_procs s (run_tasks h nm gen ts s)"
proof (induction ts arbitrary: s)
  case (Cons t ts)
  let ?s = "if gt_generation t = gen \<and> map_option p_generation (find_prog nm s) = Some gen then run_task h nm (gt_task t) s else s"
  have a: "same_procs s ?s" using Cons.prems by (simp add: exiting_run_task)
  then have "same_procs ?s (run_tasks h nm gen ts ?s)"
    using Cons.prems same_procs_distinct [OF a] by (intro Cons.IH) (simp_all add: same_procs_def)
  with a show ?case by (simp only: run_tasks.simps) (rule same_procs_trans)
qed simp

lemma exiting_execute_tasks: "sv_exit s \<Longrightarrow> distinct_names s \<Longrightarrow> same_procs s (execute_penddingtasks h nm s)"
  by (auto simp: execute_penddingtasks_def split: option.splits intro: same_procs_trans [OF exiting_run_tasks same_procs_update])

text \<open>One program of a shutdown: its signal, and the other programs.\<close>

lemma find_prog_map: "find_prog nm s = Some p \<Longrightarrow> sv_progs t = map f (sv_progs s) \<Longrightarrow> (\<And>q. p_name (f q) = p_name q) \<Longrightarrow>
    find_prog nm t = Some (f p)"
  by (simp add: find_prog_def find_map comp_def)

lemma same_procs_find:
  assumes "same_procs s t"
  shows "map_option (\<lambda>p. (p_cfg p, p_instance p)) (find_prog nm t) = map_option (\<lambda>p. (p_cfg p, p_instance p)) (find_prog nm s)"
proof -
  have "map_option (\<lambda>p. (p_cfg p, p_instance p)) (find_prog nm u) =
      List.find (\<lambda>x. cfg_name (fst x) = nm) (map (\<lambda>p. (p_cfg p, p_instance p)) (sv_progs u))" for u
    by (simp add: find_prog_def find_map comp_def)
  with assms show ?thesis by (simp add: same_procs_def)
qed

definition proc_of :: "string \<Rightarrow> pm_tiny_server_t \<Rightarrow> (prog_cfg_t \<times> managed_process_instance) option" where
  "proc_of nm s = map_option (\<lambda>p. (p_cfg p, p_instance p)) (find_prog nm s)"

definition signals_for :: "pm_tiny_server_t \<Rightarrow> string \<Rightarrow> effect list" where
  "signals_for s nm = (case find_prog nm s of Some p \<Rightarrow> terminates p | None \<Rightarrow> [])"

lemma signals_for_cong: "proc_of nm t = proc_of nm s \<Longrightarrow> signals_for t nm = signals_for s nm"
  by (cases "find_prog nm t"; cases "find_prog nm s") (auto simp: proc_of_def signals_for_def terminates_def Let_def)

lemma kill_run:
  assumes "find_prog nm s = Some p" "p_pid p \<noteq> -1"
  shows "filter is_signal (sv_out (run_prog nm (async_kill_prog h) s)) = filter is_signal (sv_out s) @ terminates p"
    "nm' \<noteq> nm \<Longrightarrow> proc_of nm' (run_prog nm (async_kill_prog h) s) = proc_of nm' s"
proof -
  have "filter is_signal (fst (async_kill_prog h p)) = terminates p"
    using assms(2) by (auto simp: async_kill_prog_def terminates_def term_request_def signal_tree_def Let_def)
  then show "filter is_signal (sv_out (run_prog nm (async_kill_prog h) s)) = filter is_signal (sv_out s) @ terminates p"
    using assms by (simp add: run_prog_def)
  have "p_name (snd (async_kill_prog h p)) = nm" using find_prog_Some [OF assms(1)] by (simp add: async_kill_step)
  then show "proc_of nm' (run_prog nm (async_kill_prog h) s) = proc_of nm' s" if "nm' \<noteq> nm"
    using assms(1) find_prog_other [OF _ that] by (simp add: run_prog_def proc_of_def)
qed

lemma same_procs_proc: "same_procs s t \<Longrightarrow> proc_of nm t = proc_of nm s"
  unfolding proc_of_def by (rule same_procs_find)

lemma kill_and_run_signals:
  assumes "sv_exit s" "distinct_names s"
  shows "filter is_signal (sv_out (kill_and_run h nm s)) = filter is_signal (sv_out s) @ signals_for s nm"
    "nm' \<noteq> nm \<Longrightarrow> proc_of nm' (kill_and_run h nm s) = proc_of nm' s"
proof -
  let ?k = "run_prog nm (async_kill_prog h) s"
  have d: "sv_exit ?k" "distinct_names ?k"
    using frame_exit frame_distinct [of s ?k] frame_run_prog [of nm s "async_kill_prog h"] assms
    by (auto simp: async_kill_step run_prog_def split: option.splits)
  note e = exiting_execute_tasks [OF d]
  show "filter is_signal (sv_out (kill_and_run h nm s)) = filter is_signal (sv_out s) @ signals_for s nm"
    using kill_run(1) [of nm s] e [of h nm]
    by (auto simp: kill_and_run_def signals_for_def same_procs_def terminates_def split: option.splits)
  assume n: "nm' \<noteq> nm"
  show "proc_of nm' (kill_and_run h nm s) = proc_of nm' s"
    using kill_run(2) [OF _ _ n] same_procs_proc [OF e]
    by (auto simp: kill_and_run_def split: option.splits)
qed

lemma quit_prog_signals:
  assumes "sv_exit s" "distinct_names s"
  shows "filter is_signal (sv_out (quit_prog h nm s)) = filter is_signal (sv_out s) @ signals_for s nm"
    "nm' \<noteq> nm \<Longrightarrow> proc_of nm' (quit_prog h nm s) = proc_of nm' s"
proof -
  let ?s = "update_prog nm reset_restart_policy s"
  have a: "same_procs s ?s" by (rule same_procs_update) (simp add: reset_restart_policy_def)
  have b: "same_procs (kill_and_run h nm ?s) (quit_prog h nm s)"
    unfolding quit_prog_alt by (rule same_procs_update) simp
  note k = kill_and_run_signals [of ?s, OF _ same_procs_distinct [OF a assms(2)]]
  have "signals_for ?s nm = signals_for s nm" by (rule signals_for_cong) (rule same_procs_proc [OF a])
  then show "filter is_signal (sv_out (quit_prog h nm s)) = filter is_signal (sv_out s) @ signals_for s nm"
    using k(1) [of h nm] a b assms by (simp add: same_procs_def)
  assume n: "nm' \<noteq> nm"
  show "proc_of nm' (quit_prog h nm s) = proc_of nm' s"
    using k(2) [OF _ n, of h] same_procs_proc [OF a, of nm'] same_procs_proc [OF b, of nm'] assms by simp
qed

lemma fold_quit_signals:
  assumes "sv_exit s" "distinct_names s" "distinct nms"
  shows "filter is_signal (sv_out (fold (quit_prog h) nms s)) = filter is_signal (sv_out s) @ concat (map (signals_for s) nms)"
  using assms
proof (induction nms arbitrary: s)
  case (Cons nm nms)
  let ?t = "quit_prog h nm s"
  note f = frame_quit_prog(1) [OF Cons.prems(1), of h nm]
  have t: "sv_exit ?t" "distinct_names ?t"
    using frame_exit [OF f Cons.prems(2)] frame_distinct [OF f Cons.prems(2)] Cons.prems(1) by simp_all
  have "signals_for ?t n = signals_for s n" if "n \<in> set nms" for n
    using that Cons.prems(3) by (auto intro!: signals_for_cong quit_prog_signals(2) [OF Cons.prems(1,2)])
  then have "map (signals_for ?t) nms = map (signals_for s) nms" by simp
  with Cons.IH [OF t] Cons.prems(3) show ?case by (simp add: quit_prog_signals(1) [OF Cons.prems(1,2)])
qed simp

lemma request_quit_signals:
  assumes "\<not> sv_exit s" "distinct_names s" "distinct (stop_order s)"
  shows "filter is_signal (sv_out (request_quit h s)) = filter is_signal (sv_out s) @ concat (map (signals_for s) (stop_order s))"
proof -
  let ?s = "s\<lparr>sv_exit := True\<rparr>"
  have "signals_for ?s = signals_for s" by (simp add: fun_eq_iff signals_for_def find_prog_def)
  moreover have "distinct_names ?s" using assms(2) by (simp add: distinct_names_def)
  ultimately show ?thesis using assms(1,3) fold_quit_signals [of ?s "stop_order s" h]
    by (simp add: request_quit_def is_exiting_def)
qed

text \<open>
  C12: A shutdown visits every program exactly once, dependents before the programs they depend on, and in that order
  sends a termination signal to the process tree of every program that has a process and is not being stopped already;
  it sends no other signal.
\<close>

theorem shutdown_in_order:
  assumes "build_prog_dependency_graph (sv_progs s) = Inr (sv_graph s)" "\<not> sv_exit s"
  shows "distinct (stop_order s) \<and> set (stop_order s) = p_name ` set (sv_progs s) \<and>
    (\<forall>p \<in> set (sv_progs s). \<forall>d \<in> set (cfg_depends_on (p_cfg p)).
      \<exists>xs ys zs. stop_order s = xs @ [p_name p] @ ys @ [d] @ zs) \<and>
    filter is_signal (sv_out (request_quit h s)) =
      filter is_signal (sv_out s) @ concat (map (signals_for s) (stop_order s))"
proof -
  have "distinct_names s" using built_table(3) [OF assms(1)] by (simp add: distinct_names_def)
  then show ?thesis using stop_order_facts [OF assms(1)] request_quit_signals [OF assms(2)] by blast
qed

lemma shutdown_in_order_witness:
  "set (stop_order demo_table) = {''a'', ''b''} \<and>
   (\<exists>xs ys zs. stop_order demo_table = xs @ [''b''] @ ys @ [''a''] @ zs)"
proof -
  have "build_prog_dependency_graph (sv_progs demo_table) = Inr (sv_graph demo_table)" "\<not> sv_exit demo_table"
    using demo_build by (simp_all add: demo_table_def new_server_def)
  from shutdown_in_order [OF this] show ?thesis by (simp add: demo_table_def)
qed

subsection \<open>The end of a shutdown\<close>

lemma spawn_keeps_table:
  assumes "\<not> sv_exit s" "distinct_names s"
  shows "map p_cfg (sv_progs (spawn h s)) = map p_cfg (sv_progs s)" "sv_graph (spawn h s) = sv_graph s"
    "sv_reload (spawn h s) = sv_reload s" "sv_exit (spawn h s) = sv_exit s" "set (sv_out s) \<subseteq> set (sv_out (spawn h s))"
proof -
  let ?s = "s\<lparr>sv_progs := map (\<lambda>p. p\<lparr>p_state := PS_waiting_start\<rparr>) (sv_progs s), sv_runtime := reset (sv_graph s)\<rparr>"
  let ?n = "fst (run_runtime request_all ?s)" and ?t = "snd (run_runtime request_all ?s)"
  have d: "distinct_names ?s" using assms(2) by (simp add: distinct_names_def comp_def)
  have "frame_of ?s ?t" by (rule frame_run_runtime) (simp add: runtime_calls_wf)
  also have "frame_of ?t (snd (spawn0 h ?n ?t))" by (rule frame_spawn0) (use assms in simp)
  finally have f: "frame_of ?s (spawn h s)" by (simp add: spawn_def case_prod_beta)
  with d have "list_all2 (prog_step (sv_exit s)) (sv_progs ?s) (sv_progs (spawn h s))" by (simp add: frame_of_def)
  from steps_cfg [OF this] show "map p_cfg (sv_progs (spawn h s)) = map p_cfg (sv_progs s)" by simp
  show "sv_graph (spawn h s) = sv_graph s" "sv_reload (spawn h s) = sv_reload s" "sv_exit (spawn h s) = sv_exit s"
    "set (sv_out s) \<subseteq> set (sv_out (spawn h s))"
    using f d by (auto simp: frame_of_def emits_def)
qed

lemma finish_save_sel:
  "sv_progs (finish_save s) = sv_progs s" "sv_exit (finish_save s) = sv_exit s" "sv_reload (finish_save s) = sv_reload s"
  "sv_wait_reload (finish_save s) = sv_wait_reload s" "sv_closed (finish_save s) = sv_closed s"
  by (simp_all add: finish_save_def poll_save_proc_to_cfg_def emit_def split: prod.splits option.splits)

lemma reload_swaps:
  assumes "reload_ok s" "sv_exit s" "sv_reload s = Some rc" "\<not> persistence_busy (finish_save s)" "living_processes h s = []"
  defines "t \<equiv> snd (check_quit_or_reload h s)"
  shows "\<not> sv_exit t" "sv_reload t = None" "map p_cfg (sv_progs t) = map p_cfg (rl_progs rc)" "sv_graph t = rl_graph rc"
    "sid \<in> set (sv_wait_reload s) \<Longrightarrow> \<not> sv_closed s sid \<Longrightarrow> Out_frame sid (reply_frame 0 ''success'' []) \<in> set (sv_out t)"
proof -
  have rc: "rl_valid rc" "build_prog_dependency_graph (rl_progs rc) = Inr (rl_graph rc)"
    using assms(1,3) by (simp_all add: reload_ok_def)
  let ?u = "finish_save s"
  let ?v = "(emit (map (\<lambda>sid. Out_frame sid (reply_frame 0 ''success'' []))
      (filter (\<lambda>sid. \<not> sv_closed ?u sid) (sv_wait_reload ?u))) ?u)\<lparr>sv_exit := False, sv_wait_reload := []\<rparr>"
  let ?w = "emit (concat (map (\<lambda>p. fst (detach_sessions (sv_closed ?v) p)) (sv_progs ?v))) (swap_reload_config rc ?v)"
  have c: "t = spawn h ?w"
    using assms rc(1) by (simp add: check_quit_or_reload_def Let_def is_exiting_def living_processes_def finish_save_sel)
  have w: "\<not> sv_exit ?w" "distinct_names ?w" "sv_progs ?w = rl_progs rc" "sv_graph ?w = rl_graph rc" "sv_reload ?w = None"
    using built_table(3) [OF rc(2)] by (simp_all add: swap_reload_config_def distinct_names_def)
  note k = spawn_keeps_table [OF w(1,2), of h]
  show "\<not> sv_exit t" "sv_reload t = None" "map p_cfg (sv_progs t) = map p_cfg (rl_progs rc)" "sv_graph t = rl_graph rc"
    unfolding c using k w by auto
  assume "sid \<in> set (sv_wait_reload s)" "\<not> sv_closed s sid"
  then have "Out_frame sid (reply_frame 0 ''success'' []) \<in> set (sv_out ?w)"
    by (simp add: swap_reload_config_def finish_save_sel)
  with k(5) show "Out_frame sid (reply_frame 0 ''success'' []) \<in> set (sv_out t)" unfolding c by blast
qed

text \<open>
  C13: An exiting daemon ends exactly when no reload is pending, no program has a process or a living descendant, and no
  save is running.  With a reload pending it goes on then instead: it is no longer exiting, its programs are exactly
  those of the new configuration, in order, with its dependency graph, and every session that waits for the reload and
  is still there was told of the success.
\<close>

theorem shutdown_completes:
  assumes "boot_server h' paths loaded = Some s0" "s = fold (daemon_step df) es s0"
  shows "(fst (check_quit_or_reload h s) \<longleftrightarrow> sv_exit s \<and> sv_reload s = None \<and> \<not> persistence_busy (finish_save s) \<and>
      (\<forall>p \<in> set (sv_progs s). p_pid p = -1 \<and> is_tree_empty h p)) \<and>
    (sv_exit s \<and> sv_reload s = Some rc \<and> \<not> persistence_busy (finish_save s) \<and>
      (\<forall>p \<in> set (sv_progs s). p_pid p = -1 \<and> is_tree_empty h p) \<longrightarrow>
     (let t = snd (check_quit_or_reload h s) in
      \<not> sv_exit t \<and> sv_reload t = None \<and> map p_cfg (sv_progs t) = map p_cfg (rl_progs rc) \<and> sv_graph t = rl_graph rc \<and>
      (\<forall>sid \<in> set (sv_wait_reload s). \<not> sv_closed s sid \<longrightarrow>
         Out_frame sid (reply_frame 0 ''success'' []) \<in> set (sv_out t))))"
proof -
  have l: "living_processes h u = [] \<longleftrightarrow> (\<forall>p \<in> set (sv_progs u). p_pid p = -1 \<and> is_tree_empty h p)" for u
    by (auto simp: living_processes_def filter_empty_conv)
  have "fst (check_quit_or_reload h s) \<longleftrightarrow> sv_exit s \<and> sv_reload s = None \<and> \<not> persistence_busy (finish_save s) \<and>
      living_processes h (finish_save s) = []"
    by (auto simp: check_quit_or_reload_def Let_def is_exiting_def finish_save_sel split: option.splits)
  moreover have "reload_ok s" using run_daemon_inv assms by (metis server_inv_def)
  ultimately show ?thesis using reload_swaps [of s rc h] by (auto simp: l finish_save_sel Let_def)
qed

definition demo_reload :: protocol_message where
  "demo_reload = \<lparr>pm_type = control_command_code CC_reload, pm_flags = 0, pm_request_id = 1, pm_payload = []\<rparr>"

lemma demo_reload_step: "dispatch_message h df loaded demo_reload sid s = handle_reload h loaded sid s"
proof -
  have "decode_control_request demo_reload = \<lparr>dc_success = True, dc_command = CC_reload, dc_name = [], dc_error = []\<rparr>"
    by code_simp
  then show ?thesis by (simp add: dispatch_message_def handle_frame_def)
qed

text \<open>A daemon without programs, and the same daemon asked to reload.\<close>

definition demo_void :: dependency_graph where
  "demo_void = (case build [] of Inr g \<Rightarrow> g | Inl e \<Rightarrow> empty_graph)"

definition demo_idle :: pm_tiny_server_t where
  "demo_idle = (new_server demo_paths)\<lparr>sv_graph := demo_void, sv_runtime := snd (request_all (reset demo_void))\<rparr>"

definition demo_new :: reload_config_t where
  "demo_new = \<lparr>rl_progs = [demo_prog ''a'' [], demo_prog ''b'' [''a'']], rl_graph = demo_graph, rl_valid = True, rl_error_message = []\<rparr>"

lemma demo_idle_boot: "boot_server demo_host demo_paths (load_ok []) = Some demo_idle"
proof -
  have "\<not> isl (build [])" by code_simp
  then have "build [] = Inr demo_void" unfolding demo_void_def by (auto split: sum.splits)
  then have b: "build_prog_dependency_graph [] = Inr demo_void" by (simp add: build_prog_dependency_graph_def)
  have "fst (request_all (reset demo_void)) = []" by code_simp
  then show ?thesis
    by (simp add: boot_server_def parse_cfg_def parse_cfg_into_def load_ok_def new_server_def rebuild_dependency_graph_def b
        spawn_def run_runtime_def demo_idle_def case_prod_beta)
qed

lemma demo_reloading:
  "daemon_step df (demo_host, Ev_request 5 demo_reload demo_loaded) demo_idle =
     demo_idle\<lparr>sv_exit := True, sv_reload := Some demo_new, sv_wait_reload := [5]\<rparr>"
proof -
  have "parse_cfg2 demo_loaded demo_idle = demo_new"
    by (simp add: parse_cfg2_def demo_idle_def new_server_def demo_paths_def demo_parse demo_build demo_new_def)
  moreover have "server_exiting 5 demo_idle = None" "\<not> persistence_busy demo_idle"
    by (simp_all add: server_exiting_None demo_idle_def new_server_def persistence_busy_def worker_busy_def new_worker_def)
  moreover have "stop_order (demo_idle\<lparr>sv_reload := Some demo_new\<rparr>) = []"
    by (simp add: stop_order_def names_in_order_def demo_idle_def new_server_def find_prog_def)
  ultimately show ?thesis
    by (simp add: demo_reload_step handle_reload_def demo_new_def request_quit_def is_exiting_def demo_idle_def new_server_def)
qed

lemma shutdown_completes_witness:
  "\<exists>s. s = fold (daemon_step (undefined :: daemon_facts)) [(demo_host, Ev_request 5 demo_reload demo_loaded)] demo_idle \<and>
    sv_exit s \<and> \<not> fst (check_quit_or_reload demo_host s) \<and>
    map p_name (sv_progs (snd (check_quit_or_reload demo_host s))) = [''a'', ''b'']"
proof -
  let ?s = "fold (daemon_step (undefined :: daemon_facts)) [(demo_host, Ev_request 5 demo_reload demo_loaded)] demo_idle"
  have s: "?s = demo_idle\<lparr>sv_exit := True, sv_reload := Some demo_new, sv_wait_reload := [5]\<rparr>"
    by (simp add: demo_reloading del: daemon_step.simps)
  have "\<not> persistence_busy (finish_save ?s)" "sv_progs ?s = []" "sv_exit ?s" "sv_reload ?s = Some demo_new"
    unfolding s by (simp_all add: finish_save_def poll_save_proc_to_cfg_def worker_poll_def persistence_busy_def worker_busy_def
        demo_idle_def new_server_def new_worker_def)
  with shutdown_completes [OF demo_idle_boot refl, where df = undefined and h = demo_host and rc = demo_new
      and es = "[(demo_host, Ev_request 5 demo_reload demo_loaded)]"]
  have "\<not> fst (check_quit_or_reload demo_host ?s)"
    "map p_cfg (sv_progs (snd (check_quit_or_reload demo_host ?s))) = map p_cfg (rl_progs demo_new)"
    by (auto simp: Let_def simp del: fold_simps daemon_step.simps)
  with map_cfg_cong [OF this(2), of cfg_name] \<open>sv_exit ?s\<close> show ?thesis by (auto simp: demo_new_def simp del: fold_simps)
qed

end
