(* ===== verification/Supervisor_Restart.thy ===== *)
theory Supervisor_Restart
  imports Supervisor_Shutdown
begin

section \<open>Starts, restarts and exits\<close>

text \<open>
  How programs come and go: adding one is all or nothing, a due restart happens, and an exit leaves the program in the
  state its definition, the pending request and the restart policy ask for.
\<close>

subsection \<open>Starting a new program\<close>

lemma frame_cfgs: "frame_of s t \<Longrightarrow> distinct_names s \<Longrightarrow> map p_cfg (sv_progs t) = map p_cfg (sv_progs s)"
  by (rule steps_cfg [of "sv_exit s"]) (simp add: frame_of_def)

lemma filter_cfgs:
  assumes "map p_cfg qs = map p_cfg ps"
  shows "map p_cfg (filter (\<lambda>p. p_name p \<noteq> nm) qs) = map p_cfg (filter (\<lambda>p. p_name p \<noteq> nm) ps)"
proof -
  have "map p_cfg (filter (\<lambda>p. p_name p \<noteq> nm) us) = filter (\<lambda>c. cfg_name c \<noteq> nm) (map p_cfg us)" for us
    by (simp add: filter_map comp_def)
  with assms show ?thesis by metis
qed

lemma build_cfgs:
  "map p_cfg qs = map p_cfg ps \<Longrightarrow> build_prog_dependency_graph qs = build_prog_dependency_graph ps"
  using map_cfg_cong [of qs ps "\<lambda>c. \<lparr>dn_name = cfg_name c, dn_depends_on = cfg_depends_on c\<rparr>"]
  by (simp add: build_prog_dependency_graph_def prog_node_def [abs_def])

text \<open>
  C15: Adding a program is all or nothing.  When the definition fits the table and it and the dependencies that had to be
  launched with it were launched, the table is the old one with the program at its end and a graph built from it.
  Otherwise the definitions, the graph and the dependency states are exactly what they were.
\<close>

theorem start_and_add_atomic:
  assumes "build_prog_dependency_graph (sv_progs s) = Inr (sv_graph s)" "rt_wf (sv_runtime s)"
    "dr_graph (sv_runtime s) = sv_graph s" "\<not> sv_exit s" "start_and_add_prog h prog s = (ok, t)"
  shows "if ok
    then map p_cfg (sv_progs t) = map p_cfg (sv_progs s) @ [p_cfg prog] \<and>
      build_prog_dependency_graph (sv_progs t) = Inr (sv_graph t)
    else map p_cfg (sv_progs t) = map p_cfg (sv_progs s) \<and> sv_graph t = sv_graph s \<and> sv_runtime t = sv_runtime s"
proof (cases "build_prog_dependency_graph (sv_progs s @ [prog])")
  case (Inr g)
  let ?a = "added prog g s"
  let ?nms = "fst (run_runtime (request_closure (p_name prog)) ?a)"
  let ?s1 = "show_pending (snd (run_runtime (request_closure (p_name prog)) ?a))"
  let ?s2 = "snd (spawn0 h ?nms ?s1)"
  note b = built_table [OF Inr]
  have d: "distinct_names ?a" "sv_progs ?a = sv_progs s @ [prog]" "sv_graph ?a = g" "\<not> sv_exit ?a"
    using b(3) assms(4) by (simp_all add: added_def distinct_names_def)
  have f: "frame_of ?a ?s2" by (rule frame_started [OF d(4)])
  have c: "map p_cfg (sv_progs ?s2) = map p_cfg (sv_progs s @ [prog])" using frame_cfgs [OF f d(1)] d(2) by simp
  have old: "filter (\<lambda>p. p_name p \<noteq> p_name prog) (sv_progs s @ [prog]) = sv_progs s"
    using b(3) by (auto simp: filter_id_conv image_iff)
  have c3: "map p_cfg (filter (\<lambda>p. p_name p \<noteq> p_name prog) (sv_progs ?s2)) = map p_cfg (sv_progs s)"
    using filter_cfgs [OF c, of "p_name prog"] by (simp only: old)
  have m: "migrate (sv_graph s) (snapshot (sv_runtime s)) = sv_runtime s"
    by (rule migrate_same) (use assms(2,3) built_table(1) [OF assms(1)] in simp_all)
  show ?thesis
    using assms(5) Inr frame_built [OF f d(1)] d(2,3) c c3 build_cfgs [OF c3] assms(1) m
    by (auto simp: start_and_add_alt Let_def split: if_splits)
next
  case (Inl e)
  then show ?thesis using assms(5) by (auto simp: start_and_add_alt)
qed

lemma start_and_add_atomic_witness:
  "\<exists>ok t. start_and_add_prog demo_host (demo_prog ''c'' [''a'']) demo_table = (ok, t) \<and>
    map p_cfg (sv_progs t) = [demo_cfg ''a'' [], demo_cfg ''b'' [''a'']] @ (if ok then [demo_cfg ''c'' [''a'']] else [])"
proof -
  obtain ok t where s: "start_and_add_prog demo_host (demo_prog ''c'' [''a'']) demo_table = (ok, t)" by fastforce
  have b: "build_prog_dependency_graph (sv_progs demo_table) = Inr (sv_graph demo_table)"
    using demo_build by (simp add: demo_table_def)
  have r: "rt_wf (sv_runtime demo_table)" "dr_graph (sv_runtime demo_table) = sv_graph demo_table" "\<not> sv_exit demo_table"
    using reset_wf [OF built_table(1) [OF demo_build]] by (simp_all add: demo_table_def new_server_def)
  from start_and_add_atomic [OF b r s] s show ?thesis by (cases ok) (auto simp: demo_table_def)
qed

subsection \<open>Restarts\<close>

text \<open>What decides whether a due restart of a program happens.\<close>

definition plan_of :: "string \<Rightarrow> pm_tiny_server_t \<Rightarrow> (prog_cfg_t \<times> managed_process_instance \<times> bool \<times> int) option" where
  "plan_of nm s = map_option (\<lambda>p. (p_cfg p, p_instance p, p_restart_pending p, p_restart_due_ms p)) (find_prog nm s)"

lemma plan_of_update:
  assumes "\<And>p. (p_cfg (f p), p_instance (f p), p_restart_pending (f p), p_restart_due_ms (f p)) =
    (p_cfg p, p_instance p, p_restart_pending p, p_restart_due_ms p)"
  shows "plan_of nm (update_prog nm' f s) = plan_of nm s"
  using assms by (cases "find_prog nm s") (simp_all add: plan_of_def find_prog_update)

lemma plan_of_other:
  assumes "\<And>p. p_cfg (f p) = p_cfg p" "nm \<noteq> nm'"
  shows "plan_of nm (update_prog nm' f s) = plan_of nm s"
proof (cases "find_prog nm s")
  case (Some p)
  with find_prog_Some [OF Some] assms show ?thesis by (simp add: plan_of_def find_prog_update)
qed (simp add: plan_of_def find_prog_update assms)

lemma plan_of_run_other:
  assumes "\<And>p. p_cfg (snd (m p)) = p_cfg p" "nm \<noteq> nm'"
  shows "plan_of nm (run_prog nm' m s) = plan_of nm s"
proof (cases "find_prog nm' s")
  case (Some p)
  have "p_name (snd (m p)) = nm'" using find_prog_Some [OF Some] assms(1) by simp
  with Some find_prog_other [OF this assms(2)] show ?thesis by (simp add: run_prog_def plan_of_def)
qed (simp add: run_prog_def)

lemma plan_of_fields:
  "plan_of nm (s\<lparr>sv_runtime := r\<rparr>) = plan_of nm s" "plan_of nm (emit effs s) = plan_of nm s"
  "plan_of nm (s\<lparr>sv_launches := n, sv_errno := e\<rparr>) = plan_of nm s"
  by (simp_all add: plan_of_def find_prog_def)

lemma plan_of_flag: "plan_of nm (flag_startup_fail nm' s) = plan_of nm s"
proof -
  have st: "plan_of nm (set_prog_state x st t) = plan_of nm t" for x st t
    unfolding set_prog_state_def by (rule plan_of_update) simp
  have "plan_of nm (fold (\<lambda>b. set_prog_state b PS_blocked) xs t) = plan_of nm t" for xs t
    by (induction xs arbitrary: t) (simp_all add: st)
  then show ?thesis by (simp add: flag_startup_fail_def st plan_of_fields case_prod_beta)
qed

lemma plan_of_spawn_other:
  assumes "nm \<noteq> nm'"
  shows "plan_of nm (snd (spawn_prog h nm' s)) = plan_of nm s"
proof (cases "find_prog nm' s")
  case (Some p)
  obtain err effs p' where r: "real_spawn_prog h (sv_paths s) (h_spawn h (sv_launches s)) p = (err, effs, p')"
    by (metis prod_cases3)
  have "p_name p' = nm'" using find_prog_Some [OF Some] real_spawn_prog_keeps(1) [OF r] by simp
  from find_prog_other [OF this assms] Some r show ?thesis
    by (simp add: spawn_prog_def plan_of_fields) (simp add: plan_of_def find_prog_def)
qed (simp add: spawn_prog_def)

lemma plan_of_start_other:
  assumes "nm \<noteq> nm'"
  shows "plan_of nm (snd (start_prog h nm' s)) = plan_of nm s"
proof -
  have c: "p_cfg (init_prog_log h p) = p_cfg p" "p_cfg (snd (activate_pending_log_sessions x p)) = p_cfg p" for p x
    using same_run_init_prog_log [of p h] same_run_sessions(6) [of p x] by (simp_all only: same_run_def)
  note k = plan_of_run_other [OF c(2) assms] plan_of_other [OF c(1) assms] plan_of_spawn_other [OF assms]
  show ?thesis by (simp add: start_prog_def k case_prod_beta split: option.splits)
qed

lemma plan_of_restart_other:
  assumes "nm \<noteq> nm'"
  shows "plan_of nm (restart_due h nm' s) = plan_of nm s"
proof -
  let ?f = "\<lambda>p. p\<lparr>p_restart_pending := False, p_restart_due_ms := 0\<rparr>"
  have "p_cfg (snd (fail_pending_log_sessions x m p)) = p_cfg p" for p x m by (simp add: fail_pending_log_sessions_def)
  note k = plan_of_run_other [OF this assms] plan_of_start_other [OF assms] plan_of_flag plan_of_other [of ?f nm nm', OF _ assms]
  show ?thesis by (simp add: restart_due_def k Let_def case_prod_beta split: option.splits)
qed

lemma spawn_error_cfg:
  "p_cfg q = p_cfg p \<Longrightarrow> fst (real_spawn_prog h sp sc q) = fst (real_spawn_prog h sp sc p)"
  by (auto simp: real_spawn_prog_def identity_error_def resolve_executable_def after_fork_def fail_start_def Let_def
      split: option.splits sum.splits)

definition restart_ready :: "host \<Rightarrow> string \<Rightarrow> pm_tiny_server_t \<Rightarrow> bool" where
  "restart_ready h nm s \<longleftrightarrow> (\<exists>p. find_prog nm s = Some p \<and> p_restart_pending p \<and> p_pid p = -1 \<and> is_tree_empty h p \<and>
     p_restart_due_ms p \<le> h_now h \<and> (\<forall>n. fst (real_spawn_prog h (sv_paths s) (h_spawn h n) p) = None))"

lemma restart_ready_cong:
  assumes "plan_of nm t = plan_of nm s" "sv_paths t = sv_paths s" "restart_ready h nm s"
  shows "restart_ready h nm t"
proof -
  obtain p where p: "find_prog nm s = Some p" "p_restart_pending p" "p_pid p = -1" "is_tree_empty h p"
    "p_restart_due_ms p \<le> h_now h" "\<And>n. fst (real_spawn_prog h (sv_paths s) (h_spawn h n) p) = None"
    using assms(3) by (auto simp: restart_ready_def)
  obtain q where q: "find_prog nm t = Some q" "p_cfg q = p_cfg p" "p_instance q = p_instance p"
    "p_restart_pending q = p_restart_pending p" "p_restart_due_ms q = p_restart_due_ms p"
    using assms(1) p(1) by (cases "find_prog nm t") (auto simp: plan_of_def)
  then show ?thesis using p assms(2) spawn_error_cfg [OF q(2)] by (simp add: restart_ready_def is_tree_empty_def)
qed

lemma start_prog_launches:
  assumes "find_prog nm s = Some p" "p_pid p = -1"
    "fst (real_spawn_prog h (sv_paths s) (h_spawn h (sv_launches s)) p) = None"
  shows "fst (start_prog h nm s) = 0"
    "\<exists>effs pid exec. sv_out (snd (start_prog h nm s)) = sv_out s @ Out_started nm pid exec # effs"
proof -
  obtain effs p' where r: "real_spawn_prog h (sv_paths s) (h_spawn h (sv_launches s)) p = (None, effs, p')"
    using assms(3) by (metis prod.collapse)
  obtain exec where e: "effs = [Out_started nm (sc_fork (h_spawn h (sv_launches s))) exec]"
    using real_spawn_prog_ok(5) [OF r] find_prog_Some [OF assms(1)] by auto
  have sp: "fst (spawn_prog h nm s)" "sv_out (snd (spawn_prog h nm s)) = sv_out s @ effs"
    using assms(1) r by (simp_all add: spawn_prog_def)
  have "\<exists>more. sv_out (run_prog nm m t) = sv_out t @ more" for m t
    by (auto simp: run_prog_def split: option.splits)
  then obtain effs' where "sv_out (run_prog nm (activate_pending_log_sessions (sv_closed (snd (spawn_prog h nm s))))
      (update_prog nm (init_prog_log h) (snd (spawn_prog h nm s)))) = sv_out s @ effs @ effs'"
    using sp(2) by (metis append.assoc update_prog_sel(5))
  with assms(1,2) sp(1) e show "fst (start_prog h nm s) = 0"
    "\<exists>effs pid exec. sv_out (snd (start_prog h nm s)) = sv_out s @ Out_started nm pid exec # effs"
    by (simp_all add: start_prog_def case_prod_beta del: split_paired_Ex)
qed

lemma restart_due_launches:
  assumes "restart_ready h nm s"
  shows "\<exists>effs pid exec. sv_out (restart_due h nm s) = sv_out s @ Out_started nm pid exec # effs"
proof -
  obtain p where p: "find_prog nm s = Some p" "p_restart_pending p" "p_pid p = -1" "is_tree_empty h p"
    "p_restart_due_ms p \<le> h_now h" "fst (real_spawn_prog h (sv_paths s) (h_spawn h (sv_launches s)) p) = None"
    using assms by (auto simp: restart_ready_def)
  with start_prog_launches [OF p(1,3,6)] show ?thesis by (simp add: restart_due_def Let_def case_prod_beta)
qed

lemma fold_restarts_launch:
  assumes "distinct_names s" "\<not> sv_exit s" "restart_ready h nm s" "nm \<in> set nms"
  shows "\<exists>effs pid exec. sv_out (fold (restart_due h) nms s) = sv_out s @ effs \<and> Out_started nm pid exec \<in> set effs"
  using assms
proof (induction nms arbitrary: s)
  case (Cons x nms)
  let ?t = "restart_due h x s"
  note f = frame_restart_due [OF Cons.prems(2), of h x]
  have t: "distinct_names ?t" "\<not> sv_exit ?t" "sv_paths ?t = sv_paths s" "\<exists>effs. sv_out ?t = sv_out s @ effs"
    using frame_distinct [OF f Cons.prems(1)] f Cons.prems(1,2) by (auto simp: frame_of_def emits_def)
  show ?case
  proof (cases "x = nm")
    case True
    from restart_due_launches [OF Cons.prems(3)] True
    obtain effs pid exec where o: "sv_out ?t = sv_out s @ Out_started nm pid exec # effs" by auto
    have "frame_of ?t (fold (restart_due h) nms ?t)"
      by (rule fold_frame_running [OF _ t(1,2)]) (rule frame_restart_due)
    with t(1) obtain effs' where "sv_out (fold (restart_due h) nms ?t) = sv_out ?t @ effs'"
      by (auto simp: frame_of_def emits_def)
    with o show ?thesis by (auto simp del: split_paired_Ex)
  next
    case False
    then have "restart_ready h nm ?t"
      using restart_ready_cong [OF plan_of_restart_other t(3) Cons.prems(3)] by auto
    from Cons.IH [OF t(1,2) this] False Cons.prems(4) t(4) show ?thesis by (auto simp del: split_paired_Ex) blast
  qed
qed simp

lemma due_restarts_names:
  "run_due_restarts h (map p_name (sv_progs s)) (lt_due_restarts (tick_plan h s)) s =
     (if sv_exit s then s
      else fold (restart_due h) (map p_name (filter (\<lambda>p. p_pid p = -1 \<and> p_restart_pending p \<and> p_restart_due_ms p \<le> h_now h) (sv_progs s))) s)"
proof -
  let ?due = "\<lambda>p. p_pid p = -1 \<and> p_restart_pending p \<and> p_restart_due_ms p \<le> h_now h"
  let ?ns = "map p_name (sv_progs s)" and ?e = "filter (\<lambda>x. ?due (snd x)) (enumerate 0 (sv_progs s))"
  have d: "lt_due_restarts (tick_plan h s) = map fst ?e"
    by (simp add: tick_plan_def plan_lifecycle_tick_def Let_def fold_tick_process observations_def filter_map comp_def
        restart_is_due_def observe_def case_prod_beta conj_ac)
  have n: "map (\<lambda>x. p_name (snd x)) (filter (\<lambda>x. ?due (snd x)) (enumerate n ps)) = map p_name (filter ?due ps)" for n ps
    by (induction ps arbitrary: n) auto
  have "fold (\<lambda>i s. if i < length ?ns then restart_due h (?ns ! i) s else s) (map fst xs) =
      fold (restart_due h) (map (\<lambda>x. p_name (snd x)) xs)"
    if "\<forall>x \<in> set xs. fst x < length ?ns \<and> ?ns ! fst x = p_name (snd x)" for xs
    using that by (induction xs) (auto simp: fun_eq_iff)
  moreover have "\<forall>x \<in> set ?e. fst x < length ?ns \<and> ?ns ! fst x = p_name (snd x)"
    by (auto simp: in_set_enumerate_eq)
  ultimately show ?thesis unfolding d run_due_restarts_def is_exiting_def using n [of 0 "sv_progs s"] by simp
qed

text \<open>
  C3: An automatic restart that is due happens.  In every state with the daemon's invariant in which it is not exiting, a program
  without a process whose process tree is gone, whose restart is pending and due, and whose launch the kernel does not
  refuse, is launched by the next run of the timers, whatever the other programs do in it.
\<close>

theorem due_restart_happens:
  assumes "server_inv s" "\<not> sv_exit s"
    "p \<in> set (sv_progs s)" "p_restart_pending p" "p_pid p = -1" "is_tree_empty h p" "p_restart_due_ms p \<le> h_now h"
    "\<forall>n. fst (real_spawn_prog h (sv_paths s) (h_spawn h n) p) = None"
  shows "\<exists>effs pid exec. sv_out (run_timers h s) = sv_out s @ effs \<and> Out_started (p_name p) pid exec \<in> set effs"
proof -
  let ?due = "map p_name (filter (\<lambda>p. p_pid p = -1 \<and> p_restart_pending p \<and> p_restart_due_ms p \<le> h_now h) (sv_progs s))"
  have d: "distinct_names s" by (rule server_inv_distinct [OF assms(1)])
  have f: "find_prog (p_name p) s = Some p" by (rule find_prog_unique [OF d assms(3) refl])
  then have r: "restart_ready h (p_name p) s" using assms(4-8) by (simp add: restart_ready_def)
  have "p_name p \<in> set ?due" using assms(3-5,7) by auto
  from fold_restarts_launch [OF d assms(2) r this] obtain effs pid exec
    where o: "sv_out (fold (restart_due h) ?due s) = sv_out s @ effs" "Out_started (p_name p) pid exec \<in> set effs" by blast
  let ?t = "fold (restart_due h) ?due s"
  have "sv_keeps s ?t" using keeps_due_restarts [of s h "map p_name (sv_progs s)" "lt_due_restarts (tick_plan h s)"] assms(2)
    by (simp add: due_restarts_names)
  then have "server_inv ?t" using assms(1) by (simp add: sv_keeps_def)
  with keeps_after_restarts [of ?t h] have "\<exists>effs'. sv_out (after_restarts h ns evs ?t) = sv_out ?t @ effs'" for ns evs
    by (auto simp: sv_keeps_def emits_def)
  then obtain effs' where "sv_out (run_timers h s) = sv_out ?t @ effs'"
    unfolding run_timers_alt due_restarts_names using assms(2) by auto
  with o have "sv_out (run_timers h s) = sv_out s @ (effs @ effs')" "Out_started (p_name p) pid exec \<in> set (effs @ effs')" by auto
  then show ?thesis by blast
qed

definition demo_crashed :: pm_tiny_server_t where
  "demo_crashed = demo_table\<lparr>sv_progs := map (\<lambda>p. p\<lparr>p_state := PS_waiting_start, p_restart_pending := True,
     p_restart_due_ms := 900\<rparr>) (sv_progs demo_table)\<rparr>"

lemma demo_crashed_inv: "server_inv demo_crashed"
proof (rule server_invI)
  have "map p_cfg (sv_progs demo_crashed) = map p_cfg [demo_prog ''a'' [], demo_prog ''b'' [''a'']]"
    by (simp add: demo_crashed_def demo_table_def)
  from build_cfgs [OF this] demo_build show "build_prog_dependency_graph (sv_progs demo_crashed) = Inr (sv_graph demo_crashed)"
    by (simp add: demo_crashed_def demo_table_def)
qed (use reset_wf [OF built_table(1) [OF demo_build]] in
  \<open>auto simp: demo_crashed_def demo_table_def new_server_def prog_ok_def live_state_def reload_ok_def\<close>)

lemma due_restart_happens_witness:
  "\<exists>effs pid exec. sv_out (run_timers demo_host demo_crashed) = sv_out demo_crashed @ effs \<and> Out_started ''b'' pid exec \<in> set effs"
proof -
  let ?b = "(demo_prog ''b'' [''a''])\<lparr>p_state := PS_waiting_start, p_restart_pending := True, p_restart_due_ms := 900\<rparr>"
  have "fst (real_spawn_prog demo_host (sv_paths demo_crashed) (h_spawn demo_host n) ?b) = None" for n
    by (simp add: real_spawn_prog_def identity_error_def resolve_executable_def resolve_executable_candidate_def after_fork_def
        demo_host_def demo_launch_def Let_def)
  then show ?thesis using due_restart_happens [OF demo_crashed_inv, of ?b demo_host]
    by (simp add: demo_crashed_def demo_table_def new_server_def demo_host_def is_tree_empty_def new_instance_def no_tree_def)
qed

subsection \<open>Exits\<close>

lemma find_prog_run:
  assumes "find_prog nm s = Some p" "p_name (snd (m p)) = nm"
  shows "find_prog nm (run_prog nm m s) = Some (snd (m p))"
  using assms(1) find_prog_replace [OF assms] by (simp add: run_prog_def)

lemma drain_tree_sel:
  "p_pid (snd (drain_tree h life p)) = p_pid p" "p_generation (snd (drain_tree h life p)) = p_generation p"
  "mi_tree (p_instance (snd (drain_tree h life p))) = mi_tree (p_instance p)"
  "mi_termination (p_instance (snd (drain_tree h life p))) = TP_tree_draining"
  "p_kill_pendingtasks (snd (drain_tree h life p)) = p_kill_pendingtasks p @
     (if cfg_daemon (p_cfg p) \<and> \<not> is_stopping (p_state p)
      then [\<lparr>gt_generation = p_generation p, gt_task = Task_drained (h_now h) life\<rparr>] else [])"
  by (simp_all add: drain_tree_def prog_mark_tree_draining_def enqueue_after_termination_def set_job_def Let_def
      split: prod.splits)

lemma plan_decision_cong:
  "p_cfg q = p_cfg p \<Longrightarrow> p_restart_state q = p_restart_state p \<Longrightarrow>
     fst (prog_plan_restart now life q) = fst (prog_plan_restart now life p)"
  by (simp add: prog_plan_restart_def split: prod.splits)

lemma plan_restart_pending:
  "p_restart_pending (snd (prog_plan_restart now life p)) = rd_restart (fst (prog_plan_restart now life p))"
  "p_restart_due_ms (snd (prog_plan_restart now life p)) = (if rd_restart (fst (prog_plan_restart now life p))
     then now + rd_delay_ms (fst (prog_plan_restart now life p)) else 0)"
  by (simp_all add: prog_plan_restart_def split: prod.splits)

text \<open>The program that \<open>reap_child\<close> leaves.\<close>

lemma reap_child_prog:
  fixes h :: host and ws :: int
  assumes "distinct_names (rp_server r)" "find_pid pid (rp_server r) = Some p"
  defines "life \<equiv> h_now h - p_last_startup_ms p"
    and "e \<equiv> snd (record_exit h (sv_closed (rp_server r)) ws p)"
  shows "find_prog (p_name p) (rp_server (reap_child h (pid, ws) r)) =
    Some (if is_tree_empty h p then settle_exit h life (cleanup_tree e) else snd (drain_tree h life e))"
proof -
  let ?nm = "p_name p" and ?s = "mark_dependency_stopped (p_name p) (rp_server r)"
  let ?m = "record_exit h (sv_closed (rp_server r)) ws"
  have "find_prog ?nm (rp_server r) = Some p"
    using find_prog_unique [OF assms(1)] find_pid_Some [OF assms(2)] by blast
  then have f: "find_prog ?nm ?s = Some p" by (simp add: mark_dependency_stopped_def find_prog_def)
  then have g: "find_prog ?nm (run_prog ?nm ?m ?s) = Some e"
    using find_prog_run [OF f, of ?m] by (simp add: e_def record_exit_keeps)
  have "find_prog ?nm (run_prog ?nm (drain_tree h life) (run_prog ?nm ?m ?s)) = Some (snd (drain_tree h life e))"
    by (rule find_prog_run [OF g]) (simp add: drain_tree_keeps e_def record_exit_keeps)
  moreover have "find_prog ?nm (update_prog ?nm (settle_exit h life \<circ> cleanup_tree) (run_prog ?nm ?m ?s)) =
      Some (settle_exit h life (cleanup_tree e))"
    using g by (simp add: find_prog_update settle_exit_keeps cleanup_tree_keeps e_def record_exit_keeps)
  ultimately show ?thesis using assms(2) by (simp add: reap_child_def Let_def life_def)
qed



end
