(* ===== verification/Rotating_Log.thy ===== *)
theory Rotating_Log
  imports Yaml_Instance "HOL-Library.Sublist"
begin

section \<open>Rotating log files (platform/linux/rotating_log_writer)\<close>

text \<open>
  The writer of a program's log: it appends to a file and, when that is full, shifts it through a row of archives.  The
  file system is a record of files and directories with a script of the answers that its calls will give; when the script is
  used up, every call works.  Nothing else touches the log and its archives.  Results are \<open>None\<close> for success and \<open>Some\<close> of
  the error text otherwise.
\<close>

subsection \<open>System calls\<close>

text \<open>
  \<open>A_wrote n\<close> is a write of \<open>n\<close> bytes (at least one, at most all), \<open>A_intr\<close> an interrupted one; \<open>A_error\<close> carries the
  text of the error number.  \<open>ENOENT\<close> follows from the files and directories and is never scripted; every other failure
  (permissions, a full disk, a directory in the place of a file) is.  \<open>A_exists\<close> is \<open>EEXIST\<close>, which \<open>mkdir\<close> forgives.
\<close>

datatype answer = A_ok | A_wrote nat | A_intr | A_exists | A_error string

record log_fs =
  lf_files :: "string \<Rightarrow> string option"
  lf_dirs :: "string \<Rightarrow> bool"
  lf_script :: "answer list"

definition next_answer :: "log_fs \<Rightarrow> answer \<times> log_fs" where
  "next_answer f = (case lf_script f of [] \<Rightarrow> (A_ok, f) | a # rest \<Rightarrow> (a, f\<lparr>lf_script := rest\<rparr>))"

definition call_error :: "log_fs \<Rightarrow> string option \<times> log_fs" where
  "call_error f = (case next_answer f of
       (A_error e, f1) \<Rightarrow> (Some e, f1)
     | (A_exists, f1) \<Rightarrow> (Some ''File exists'', f1)
     | (_, f1) \<Rightarrow> (None, f1))"

definition system_error :: "string \<Rightarrow> string \<Rightarrow> string" where
  "system_error operation err = operation @ '': '' @ err"

subsection \<open>Directories\<close>

definition before_slash :: "string \<Rightarrow> string option" where
  "before_slash path =
     (if CHR ''/'' \<in> set path then Some (rev (tl (dropWhile (\<lambda>c. c \<noteq> CHR ''/'') (rev path)))) else None)"

lemma before_slash_shorter: "before_slash path = Some d \<Longrightarrow> length d < length path"
proof -
  assume a: "before_slash path = Some d"
  let ?r = "dropWhile (\<lambda>c. c \<noteq> CHR ''/'') (rev path)"
  have "?r \<noteq> []" using a by (auto simp: before_slash_def dropWhile_eq_Nil_conv split: if_splits)
  moreover have "length ?r \<le> length path" using length_dropWhile_le [of _ "rev path"] by simp
  ultimately show ?thesis using a by (cases ?r) (auto simp: before_slash_def split: if_splits)
qed

definition make_directory :: "string \<Rightarrow> log_fs \<Rightarrow> string option \<times> log_fs" where
  "make_directory path f = (case next_answer f of
       (A_error e, f1) \<Rightarrow> (Some (system_error (''mkdir '' @ path) e), f1)
     | (_, f1) \<Rightarrow> (None, f1\<lparr>lf_dirs := (lf_dirs f1)(path := True)\<rparr>))"

function ensure_directory :: "string \<Rightarrow> log_fs \<Rightarrow> string option \<times> log_fs" where
  "ensure_directory path f =
     (if path = [] \<or> path = ''.'' \<or> path = ''/'' then (None, f)
      else case call_error f of
        (Some e, f1) \<Rightarrow> (Some (system_error (''stat '' @ path) e), f1)
      | (None, f1) \<Rightarrow>
          if lf_dirs f1 path then (None, f1)
          else if lf_files f1 path \<noteq> None then (Some (path @ '': not a directory''), f1)
          else (case before_slash path of
              None \<Rightarrow> make_directory path f1
            | Some d \<Rightarrow> (case ensure_directory d f1 of
                  (Some e, f2) \<Rightarrow> (Some e, f2)
                | (None, f2) \<Rightarrow> make_directory path f2)))"
  by pat_completeness auto

termination
  by (relation "measure (\<lambda>(path, f). length path)") (auto simp: before_slash_shorter)

declare ensure_directory.simps [simp del]

definition ensure_parent_directory :: "string \<Rightarrow> log_fs \<Rightarrow> string option \<times> log_fs" where
  "ensure_parent_directory path f = (case before_slash path of None \<Rightarrow> (None, f) | Some d \<Rightarrow> ensure_directory d f)"

subsection \<open>The writer\<close>

record rotating_log_writer =
  rw_path :: string
  rw_max_size_bytes :: nat
  rw_archive_count :: int
  rw_handle :: bool
  rw_current_size :: nat

type_synonym writer_result = "string option \<times> rotating_log_writer \<times> log_fs"

definition new_writer :: "string \<Rightarrow> nat \<Rightarrow> int \<Rightarrow> rotating_log_writer" where
  "new_writer path max_size archives =
     \<lparr>rw_path = path, rw_max_size_bytes = max_size, rw_archive_count = archives, rw_handle = False, rw_current_size = 0\<rparr>"

definition writer_close :: "rotating_log_writer \<Rightarrow> rotating_log_writer" where
  "writer_close w = w\<lparr>rw_handle := False, rw_current_size := 0\<rparr>"

definition contents :: "log_fs \<Rightarrow> string \<Rightarrow> string" where
  "contents f path = (case lf_files f path of None \<Rightarrow> [] | Some s \<Rightarrow> s)"

definition writer_open :: "rotating_log_writer \<Rightarrow> log_fs \<Rightarrow> writer_result" where
  "writer_open w0 f =
     (let w = writer_close w0; path = rw_path w in
      if path = [] \<or> rw_max_size_bytes w = 0 \<or> rw_archive_count w < 0
      then (Some ''invalid rotating log writer configuration'', w, f)
      else case ensure_parent_directory path f of
        (Some e, f1) \<Rightarrow> (Some e, w, f1)
      | (None, f1) \<Rightarrow>
          (case call_error f1 of
             (Some e, f2) \<Rightarrow> (Some (system_error (''open '' @ path) e), w, f2)
           | (None, f2) \<Rightarrow>
               let f3 = f2\<lparr>lf_files := (lf_files f2)(path := Some (contents f2 path))\<rparr> in
               case call_error f3 of
                 (Some e, f4) \<Rightarrow> (Some (system_error (''fstat '' @ path) e), w, f4)
               | (None, f4) \<Rightarrow> (None, w\<lparr>rw_handle := True, rw_current_size := length (contents f4 path)\<rparr>, f4)))"

definition archive :: "string \<Rightarrow> nat \<Rightarrow> string" where
  "archive path i = (if i = 0 then path else path @ ''.'' @ nat_to_string i)"

text \<open>The renames of \<open>rotate\<close>, from the oldest archive down; a source that does not exist is passed over.\<close>

definition rename_file :: "string \<Rightarrow> string \<Rightarrow> log_fs \<Rightarrow> log_fs" where
  "rename_file source target f =
     (if lf_files f source = None then f
      else f\<lparr>lf_files := (lf_files f)(target := lf_files f source, source := None)\<rparr>)"

fun shift_archives :: "string \<Rightarrow> nat \<Rightarrow> log_fs \<Rightarrow> string option \<times> log_fs" where
  "shift_archives path 0 f = (None, f)"
| "shift_archives path (Suc i) f = (case call_error f of
       (Some e, f1) \<Rightarrow> (Some (system_error (''rename '' @ archive path i @ '' to '' @ archive path (Suc i)) e), f1)
     | (None, f1) \<Rightarrow> shift_archives path i (rename_file (archive path i) (archive path (Suc i)) f1))"

definition writer_rotate :: "rotating_log_writer \<Rightarrow> log_fs \<Rightarrow> writer_result" where
  "writer_rotate w0 f =
     (let w = writer_close w0; path = rw_path w in
      if rw_archive_count w = 0
      then (case call_error f of
          (Some e, f1) \<Rightarrow> (Some (system_error (''truncate '' @ path) e), w, f1)
        | (None, f1) \<Rightarrow> (None, w\<lparr>rw_handle := True, rw_current_size := 0\<rparr>, f1\<lparr>lf_files := (lf_files f1)(path := Some [])\<rparr>))
      else case shift_archives path (nat (rw_archive_count w)) f of
        (Some e, f1) \<Rightarrow> (Some e, w, f1)
      | (None, f1) \<Rightarrow> writer_open w f1)"

definition append_file :: "string \<Rightarrow> string \<Rightarrow> log_fs \<Rightarrow> log_fs" where
  "append_file path data f = f\<lparr>lf_files := (lf_files f)(path := Some (contents f path @ data))\<rparr>"

text \<open>The inner loop of \<open>append\<close>.\<close>

lemma next_answer_script: "length (lf_script (snd (next_answer f))) \<le> length (lf_script f)"
  "fst (next_answer f) \<noteq> A_ok \<Longrightarrow> length (lf_script (snd (next_answer f))) < length (lf_script f)"
  by (auto simp: next_answer_def split: list.splits)

function write_chunk :: "string \<Rightarrow> string \<Rightarrow> log_fs \<Rightarrow> string option \<times> log_fs" where
  "write_chunk path data f =
     (if data = [] then (None, f)
      else case next_answer f of
        (A_ok, f1) \<Rightarrow> (None, append_file path data f1)
      | (A_wrote n, f1) \<Rightarrow>
          let k = max 1 (min n (length data)) in write_chunk path (drop k data) (append_file path (take k data) f1)
      | (A_intr, f1) \<Rightarrow> write_chunk path data f1
      | (A_exists, f1) \<Rightarrow> (Some (system_error (''write '' @ path) ''File exists''), f1)
      | (A_error e, f1) \<Rightarrow> (Some (system_error (''write '' @ path) e), f1))"
  by pat_completeness auto

termination
proof (relation "measure (\<lambda>(path, data, f). length data + length (lf_script f))", goal_cases)
  case (2 path data f x f1 n k)
  then have "length (lf_script f1) < length (lf_script f)" using next_answer_script(2) [of f] by (metis answer.distinct(1) fst_conv snd_conv)
  then show ?case by (simp add: append_file_def)
next
  case (3 path data f x f1)
  then have "length (lf_script f1) < length (lf_script f)" using next_answer_script(2) [of f] by (metis answer.distinct(3) fst_conv snd_conv)
  then show ?case by simp
qed simp

declare write_chunk.simps [simp del]

text \<open>The outer loop of \<open>append\<close>, with fuel: \<open>None\<close> is a loop that has not ended.\<close>

fun append_loop :: "nat \<Rightarrow> string \<Rightarrow> rotating_log_writer \<Rightarrow> log_fs \<Rightarrow> writer_result option" where
  "append_loop 0 data w f = None"
| "append_loop (Suc fuel) data w f =
     (if data = [] then Some (None, w, f)
      else case (if rw_current_size w \<ge> rw_max_size_bytes w then writer_rotate w f else (None, w, f)) of
        (Some e, w1, f1) \<Rightarrow> Some (Some e, w1, f1)
      | (None, w1, f1) \<Rightarrow>
          let chunk = min (length data) (rw_max_size_bytes w1 - rw_current_size w1) in
          case write_chunk (rw_path w1) (take chunk data) f1 of
            (Some e, f2) \<Rightarrow> Some (Some e, writer_close w1, f2)
          | (None, f2) \<Rightarrow> append_loop fuel (drop chunk data) (w1\<lparr>rw_current_size := rw_current_size w1 + chunk\<rparr>) f2)"

definition writer_append :: "nat \<Rightarrow> string \<Rightarrow> rotating_log_writer \<Rightarrow> log_fs \<Rightarrow> writer_result option" where
  "writer_append fuel data w f =
     (if data = [] then Some (None, w, f)
      else case (if rw_handle w then (None, w, f) else writer_open w f) of
        (Some e, w1, f1) \<Rightarrow> Some (Some e, w1, f1)
      | (None, w1, f1) \<Rightarrow> append_loop fuel data w1 f1)"

definition writer_flush :: "rotating_log_writer \<Rightarrow> log_fs \<Rightarrow> string option \<times> log_fs" where
  "writer_flush w f =
     (if \<not> rw_handle w then (None, f)
      else case call_error f of
        (Some e, f1) \<Rightarrow> (Some (system_error (''fsync '' @ rw_path w) e), f1)
      | (None, f1) \<Rightarrow> (None, f1))"


subsection \<open>What is in the files\<close>

text \<open>The archives and the log from the oldest byte to the newest.\<close>

definition history :: "nat \<Rightarrow> string \<Rightarrow> log_fs \<Rightarrow> string" where
  "history n path f = concat (map (\<lambda>i. contents f (archive path i)) (rev [0..<Suc n]))"

lemma archive_inject [simp]: "archive path i = archive path j \<longleftrightarrow> i = j"
proof
  assume "archive path i = archive path j"
  then have "i = 0 \<and> j = 0 \<or> i > 0 \<and> j > 0 \<and> nat_to_string i = nat_to_string j"
    by (auto simp: archive_def split: if_splits)
  then show "i = j" by (metis parse_nat_to_string option.inject)
qed simp

lemma archive_0 [simp]: "archive path 0 = path"
  by (simp add: archive_def)

lemma archive_path [simp]: "archive path i = path \<longleftrightarrow> i = 0" "path = archive path i \<longleftrightarrow> i = 0"
  using archive_inject [of path i 0] by auto

lemma history_cong: "(\<And>i. i \<le> n \<Longrightarrow> contents f (archive path i) = contents g (archive path i)) \<Longrightarrow> history n path f = history n path g"
  unfolding history_def by (intro arg_cong [where f = concat] map_cong) auto

lemma history_Suc: "history (Suc n) path f = contents f (archive path (Suc n)) @ history n path f"
  by (simp add: history_def)

lemma history_0: "history 0 path f = contents f path"
  by (simp add: history_def)

lemma history_files: "lf_files g = lf_files f \<Longrightarrow> history n path g = history n path f"
  by (rule history_cong) (simp add: contents_def)

lemma history_append: "history n path (append_file path data f) = history n path f @ data"
proof (induction n)
  case (Suc n)
  have "contents (append_file path data f) (archive path (Suc n)) = contents f (archive path (Suc n))"
    by (simp add: contents_def append_file_def)
  then show ?case using Suc by (simp add: history_Suc)
qed (simp add: history_0 contents_def append_file_def)

subsection \<open>What the calls keep\<close>

lemma next_answer_frame:
  "next_answer f = (a, f1) \<Longrightarrow> lf_files f1 = lf_files f"
  by (auto simp: next_answer_def split: list.splits)

lemma call_error_frame: "call_error f = (r, f1) \<Longrightarrow> lf_files f1 = lf_files f"
  by (auto simp: call_error_def split: prod.splits answer.splits dest: next_answer_frame)

lemma make_directory_frame: "make_directory path f = (r, f1) \<Longrightarrow> lf_files f1 = lf_files f"
  by (auto simp: make_directory_def split: prod.splits answer.splits dest: next_answer_frame)

lemma ensure_directory_frame: "ensure_directory path f = (r, f1) \<Longrightarrow> lf_files f1 = lf_files f"
proof (induction path f arbitrary: r f1 rule: ensure_directory.induct)
  case (1 path f)
  obtain r1 g1 where g1: "call_error f = (r1, g1)" by fastforce
  note unf = "1.prems" [unfolded ensure_directory.simps [of path f] g1]
  have fr: "lf_files g1 = lf_files f" by (rule call_error_frame [OF g1])
  show ?case
  proof (cases "path = [] \<or> path = ''.'' \<or> path = ''/'' \<or> r1 \<noteq> None \<or> lf_dirs g1 path \<or> lf_files g1 path \<noteq> None")
    case True
    then show ?thesis using unf fr by (auto split: if_splits option.splits)
  next
    case False
    then have rest: "(case before_slash path of None \<Rightarrow> make_directory path g1
        | Some d \<Rightarrow> (case ensure_directory d g1 of (Some e, f2) \<Rightarrow> (Some e, f2) | (None, f2) \<Rightarrow> make_directory path f2)) = (r, f1)"
      using unf by (simp split: if_splits)
    show ?thesis
    proof (cases "before_slash path")
      case None
      then show ?thesis using rest fr make_directory_frame [of path g1 r f1] by simp
    next
      case (Some d)
      obtain r2 g2 where g2: "ensure_directory d g1 = (r2, g2)" by fastforce
      have "lf_files g2 = lf_files g1" using False by (intro "1.IH" [OF _ g1 [symmetric] _ _ _ Some g2]) simp_all
      then show ?thesis using rest Some g2 fr make_directory_frame [of path g2 r f1] by (cases r2) auto
    qed
  qed
qed

lemma ensure_parent_frame: "ensure_parent_directory path f = (r, f1) \<Longrightarrow> lf_files f1 = lf_files f"
  by (auto simp: ensure_parent_directory_def split: option.splits dest: ensure_directory_frame)

lemma writer_close_simps [simp]:
  "rw_path (writer_close w) = rw_path w" "rw_max_size_bytes (writer_close w) = rw_max_size_bytes w"
  "rw_archive_count (writer_close w) = rw_archive_count w" "rw_handle (writer_close w) = False"
  by (simp_all add: writer_close_def)

lemma writer_open_cases:
  assumes "writer_open w f = (r, w1, f1)"
  obtains e f2 where "r = Some e" "w1 = writer_close w" "lf_files f1 = lf_files f"
  | e where "r = Some e" "w1 = writer_close w" "lf_files f1 = (lf_files f)(rw_path w := Some (contents f (rw_path w)))"
  | "r = None" "w1 = w\<lparr>rw_handle := True, rw_current_size := length (contents f (rw_path w))\<rparr>"
    "lf_files f1 = (lf_files f)(rw_path w := Some (contents f (rw_path w)))" "0 < rw_max_size_bytes w" "0 \<le> rw_archive_count w"
proof (cases "rw_path w = [] \<or> rw_max_size_bytes w = 0 \<or> rw_archive_count w < 0")
  case True
  then show ?thesis using assms that(1) by (auto simp: writer_open_def Let_def)
next
  case False
  obtain r1 g1 where g1: "ensure_parent_directory (rw_path w) f = (r1, g1)" by fastforce
  obtain r2 g2 where g2: "call_error g1 = (r2, g2)" by fastforce
  let ?g3 = "g2\<lparr>lf_files := (lf_files g2)(rw_path w := Some (contents g2 (rw_path w)))\<rparr>"
  obtain r4 g4 where g4: "call_error ?g3 = (r4, g4)" by fastforce
  have fr: "lf_files g1 = lf_files f" "lf_files g2 = lf_files f"
    "lf_files g4 = (lf_files f)(rw_path w := Some (contents f (rw_path w)))"
    using ensure_parent_frame [OF g1] call_error_frame [OF g2] call_error_frame [OF g4] by (simp_all add: contents_def)
  show ?thesis
  proof (cases "r1 \<noteq> None \<or> r2 \<noteq> None")
    case True
    then show ?thesis using assms False g1 g2 fr that(1) by (cases r1) (auto simp: writer_open_def Let_def)
  next
    case ok: False
    have "contents g4 (rw_path w) = contents f (rw_path w)" by (simp add: contents_def fr)
    then show ?thesis using assms False ok g1 g2 g4 fr that(2,3)
      by (cases r4) (auto simp: writer_open_def Let_def writer_close_def)
  qed
qed

lemma writer_open_frame:
  assumes "writer_open w f = (r, w1, f1)"
  shows "contents f1 p = contents f p"
    and "rw_path w1 = rw_path w" "rw_archive_count w1 = rw_archive_count w" "rw_max_size_bytes w1 = rw_max_size_bytes w"
    and "r = None \<Longrightarrow> rw_handle w1 \<and> rw_current_size w1 = length (contents f (rw_path w)) \<and> 0 < rw_max_size_bytes w"
  by (rule writer_open_cases [OF assms]; simp add: contents_def)+

lemma writer_open_history: "writer_open w f = (r, w1, f1) \<Longrightarrow> history n path f1 = history n path f"
  by (rule history_cong) (simp add: writer_open_frame(1))


lemma write_chunk_history:
  "write_chunk path data f = (r, f1) \<Longrightarrow>
   \<exists>n \<le> length data. history m path f1 = history m path f @ take n data \<and> (r = None \<longrightarrow> n = length data)"
proof (induction path data f rule: write_chunk.induct)
  case (1 path data f)
  obtain a g where g: "next_answer f = (a, g)" by fastforce
  have fr: "history m path g = history m path f" by (rule history_files) (rule next_answer_frame [OF g])
  note unf = "1.prems" [unfolded write_chunk.simps [of path data f] g]
  show ?case
  proof (cases "data = []")
    case True
    then show ?thesis using unf by simp
  next
    case ne: False
    show ?thesis
    proof (cases a)
      case A_ok
      then show ?thesis using unf ne fr by (auto simp: history_append)
    next
      case (A_wrote k)
      define j where "j = max 1 (min k (length data))"
      have j: "j \<le> length data" using ne by (cases data) (auto simp: j_def)
      have eq: "write_chunk path (drop j data) (append_file path (take j data) g) = (r, f1)"
        using unf ne A_wrote by (simp add: j_def Let_def)
      obtain n where n: "n \<le> length (drop j data)" "r = None \<longrightarrow> n = length (drop j data)"
        "history m path f1 = history m path (append_file path (take j data) g) @ take n (drop j data)"
        using "1.IH"(1) [OF ne g [symmetric] A_wrote j_def eq] by blast
      have "history m path f1 = history m path f @ take (j + n) data"
        using n(3) fr by (simp add: history_append take_add)
      then show ?thesis using n j by (intro exI [of _ "j + n"]) auto
    next
      case A_intr
      then show ?thesis using unf ne fr "1.IH"(2) [OF ne g [symmetric] A_intr] by simp
    qed (use unf ne fr in \<open>auto intro: exI [of _ 0]\<close>)
  qed
qed

subsection \<open>Rotation keeps the order and loses only the oldest bytes\<close>

lemma contents_rename:
  "contents (rename_file a b f) p =
     (if lf_files f a = None then contents f p else if p = a then [] else if p = b then contents f a else contents f p)"
  by (simp add: rename_file_def contents_def)

lemma rename_source_gone: "a \<noteq> b \<Longrightarrow> lf_files (rename_file a b f) a = None"
  by (simp add: rename_file_def)

lemma history_top: "history n path f = contents f (archive path n) @ concat (map (\<lambda>i. contents f (archive path i)) (rev [0..<n]))"
  by (simp add: history_def)

lemma contents_shift:
  "contents (rename_file (archive path i) (archive path j) f) (archive path k) =
     (if lf_files f (archive path i) = None then contents f (archive path k)
      else if k = i then [] else if k = j then contents f (archive path i) else contents f (archive path k))"
  unfolding contents_rename archive_inject ..

lemma history_rename_last:
  "history (Suc n) path (rename_file (archive path n) (archive path (Suc n)) f) =
     (if lf_files f (archive path n) = None then history (Suc n) path f else history n path f)"
proof -
  let ?g = "rename_file (archive path n) (archive path (Suc n)) f"
  have eq: "map (\<lambda>i. contents ?g (archive path i)) (rev [0..<n]) = map (\<lambda>i. contents f (archive path i)) (rev [0..<n])"
    by (rule map_cong) (simp_all add: contents_shift)
  have "history (Suc n) path ?g = contents ?g (archive path (Suc n)) @ contents ?g (archive path n) @
      concat (map (\<lambda>i. contents f (archive path i)) (rev [0..<n]))"
    unfolding history_Suc history_top [of n] eq ..
  then show ?thesis unfolding history_Suc history_top [of n] contents_shift by simp
qed

lemma history_rename:
  assumes "i < n" "lf_files f (archive path (Suc i)) = None"
  shows "history n path (rename_file (archive path i) (archive path (Suc i)) f) = history n path f"
  using assms(1)
proof (induction n)
  case (Suc n)
  show ?case
  proof (cases "i = n")
    case True
    then show ?thesis using assms(2) history_rename_last [of n path f] by (simp add: history_Suc contents_def)
  next
    case False
    then show ?thesis using Suc by (simp add: history_Suc contents_shift)
  qed
qed simp

lemma shift_archives_cases:
  assumes "shift_archives path (Suc k) f = (r, f1)"
  obtains e where "r = Some e" "lf_files f1 = lf_files f"
  | g where "lf_files g = lf_files f" "shift_archives path k (rename_file (archive path k) (archive path (Suc k)) g) = (r, f1)"
proof (cases "call_error f")
  case (Pair r0 g)
  show ?thesis using assms call_error_frame [OF Pair] Pair that by (cases r0) auto
qed

lemma shift_archives_history:
  "shift_archives path k f = (r, f1) \<Longrightarrow> k \<le> n \<Longrightarrow> lf_files f (archive path k) = None \<Longrightarrow> history n path f1 = history n path f"
proof (induction k arbitrary: f)
  case (Suc k)
  from Suc.prems(1) show ?case
  proof (cases rule: shift_archives_cases)
    case (1 e)
    then show ?thesis by (simp add: history_files [OF 1(2)])
  next
    case (2 g)
    have "history n path f1 = history n path (rename_file (archive path k) (archive path (Suc k)) g)"
      using Suc.prems(2) by (intro Suc.IH [OF 2(2)]) (simp_all add: rename_source_gone)
    also have "\<dots> = history n path g" using Suc.prems 2(1) by (intro history_rename) simp_all
    also have "\<dots> = history n path f" by (rule history_files [OF 2(1)])
    finally show ?thesis .
  qed
qed simp

lemma shift_archives_suffix:
  assumes "shift_archives path n f = (r, f1)"
  shows "suffix (history n path f1) (history n path f)"
proof (cases n)
  case (Suc k)
  from assms [unfolded Suc] show ?thesis
  proof (cases rule: shift_archives_cases)
    case (1 e)
    then show ?thesis by (simp add: history_files [OF 1(2)])
  next
    case (2 g)
    have "history n path f1 = history n path (rename_file (archive path k) (archive path (Suc k)) g)"
      by (rule shift_archives_history [OF 2(2)]) (simp_all add: Suc rename_source_gone)
    then have "suffix (history n path f1) (history n path g)"
      unfolding Suc history_rename_last by (simp add: history_Suc suffix_def)
    then show ?thesis by (simp add: history_files [OF 2(1)])
  qed
qed (use assms in simp)

lemma shift_archives_gone:
  "shift_archives path k f = (None, f1) \<Longrightarrow> 0 < k \<or> lf_files f path = None \<Longrightarrow> lf_files f1 path = None"
proof (induction k arbitrary: f)
  case (Suc k)
  from Suc.prems(1) show ?case
  proof (cases rule: shift_archives_cases)
    case (2 g)
    have "k = 0 \<Longrightarrow> lf_files (rename_file (archive path k) (archive path (Suc k)) g) path = None"
      using rename_source_gone [of path "archive path (Suc k)" g] by simp
    then show ?thesis by (intro Suc.IH [OF 2(2)]) (cases k, simp_all)
  qed simp
qed simp

lemma writer_rotate_suffix:
  assumes "writer_rotate w f = (r, w1, f1)"
  shows "suffix (history (nat (rw_archive_count w)) (rw_path w) f1) (history (nat (rw_archive_count w)) (rw_path w) f)"
    and "rw_path w1 = rw_path w" "rw_archive_count w1 = rw_archive_count w" "rw_max_size_bytes w1 = rw_max_size_bytes w"
    and "r = None \<Longrightarrow> rw_handle w1 \<and> rw_current_size w1 = 0"
proof -
  let ?n = "nat (rw_archive_count w)" and ?p = "rw_path w"
  obtain r0 g where g: "call_error f = (r0, g)" by fastforce
  obtain r2 g2 where g2: "shift_archives ?p ?n f = (r2, g2)" by fastforce
  have all: "suffix (history ?n ?p f1) (history ?n ?p f) \<and> rw_path w1 = ?p \<and> rw_archive_count w1 = rw_archive_count w \<and>
      rw_max_size_bytes w1 = rw_max_size_bytes w \<and> (r = None \<longrightarrow> rw_handle w1 \<and> rw_current_size w1 = 0)"
  proof (cases "rw_archive_count w = 0")
    case True
    then show ?thesis using assms g call_error_frame [OF g]
      by (cases r0) (auto simp: writer_rotate_def Let_def history_0 contents_def)
  next
    case nz: False
    show ?thesis
    proof (cases r2)
      case None
      then have op: "writer_open (writer_close w) g2 = (r, w1, f1)"
        using assms nz g2 by (simp add: writer_rotate_def Let_def)
      have "contents g2 ?p = []" if "0 \<le> rw_archive_count w"
        using shift_archives_gone [of ?p ?n f g2] g2 None nz that by (simp add: contents_def)
      moreover have "r = None \<Longrightarrow> 0 \<le> rw_archive_count w" by (rule writer_open_cases [OF op]) simp_all
      ultimately show ?thesis
        using writer_open_frame(2-5) [OF op] writer_open_history [OF op, of ?n ?p] shift_archives_suffix [OF g2]
        by auto
    next
      case (Some e)
      then show ?thesis using assms nz g2 shift_archives_suffix [OF g2] by (auto simp: writer_rotate_def Let_def)
    qed
  qed
  show "suffix (history ?n ?p f1) (history ?n ?p f)" "rw_path w1 = ?p" "rw_archive_count w1 = rw_archive_count w"
    "rw_max_size_bytes w1 = rw_max_size_bytes w" "r = None \<Longrightarrow> rw_handle w1 \<and> rw_current_size w1 = 0"
    using all by blast+
qed


subsection \<open>Appending under any failures\<close>

definition appended :: "nat \<Rightarrow> string \<Rightarrow> string \<Rightarrow> log_fs \<Rightarrow> writer_result \<Rightarrow> bool" where
  "appended m path data f res = (case res of (r, w1, f1) \<Rightarrow>
     \<exists>n \<le> length data. suffix (history m path f1) (history m path f @ take n data) \<and> (r = None \<longrightarrow> n = length data))"

lemma appended_stop: "suffix (history m path f1) (history m path f) \<Longrightarrow> appended m path data f (Some e, w1, f1)"
  by (auto simp: appended_def intro!: exI [of _ 0])

lemma appended_stop_chunk:
  "suffix (history m path f1) (history m path f @ take n (take k data)) \<Longrightarrow> appended m path data f (Some e, w1, f1)"
  by (cases "min n k \<le> length data") (auto simp: appended_def intro: exI [of _ "min n k"] exI [of _ "length data"])

lemma appended_step:
  assumes "appended m path (drop k data) f1 res" "k \<le> length data"
    and "suffix (history m path f1) (history m path f @ take k data)"
  shows "appended m path data f res"
proof -
  obtain r w2 f2 where res: "res = (r, w2, f2)" by (cases res)
  obtain n where n: "n \<le> length (drop k data)" "r = None \<longrightarrow> n = length (drop k data)"
    "suffix (history m path f2) (history m path f1 @ take n (drop k data))"
    using assms(1) by (auto simp: appended_def res)
  have "suffix (history m path f1 @ take n (drop k data)) (history m path f @ take k data @ take n (drop k data))"
    using assms(3) by (auto simp: suffix_def)
  then have "suffix (history m path f2) (history m path f @ take (k + n) data)"
    unfolding take_add by (rule suffix_order.trans [OF n(3)])
  moreover have "k + n \<le> length data" "r = None \<longrightarrow> k + n = length data" using n(1,2) assms(2) by auto
  ultimately show ?thesis unfolding appended_def res prod.case by blast
qed

lemma rotate_if_full:
  assumes "(if rw_current_size w \<ge> rw_max_size_bytes w then writer_rotate w f else (None, w, f)) = (r1, w1, f1)"
    and "0 < rw_max_size_bytes w"
  shows "suffix (history (nat (rw_archive_count w)) (rw_path w) f1) (history (nat (rw_archive_count w)) (rw_path w) f)"
    and "rw_path w1 = rw_path w" "rw_archive_count w1 = rw_archive_count w" "rw_max_size_bytes w1 = rw_max_size_bytes w"
    and "r1 = None \<Longrightarrow> rw_current_size w1 < rw_max_size_bytes w"
proof -
  have "writer_rotate w f = (r1, w1, f1) \<or> (w1 = w \<and> f1 = f \<and> rw_current_size w < rw_max_size_bytes w)"
    using assms(1) by (auto split: if_splits)
  then show "suffix (history (nat (rw_archive_count w)) (rw_path w) f1) (history (nat (rw_archive_count w)) (rw_path w) f)"
    "rw_path w1 = rw_path w" "rw_archive_count w1 = rw_archive_count w" "rw_max_size_bytes w1 = rw_max_size_bytes w"
    by (blast dest: writer_rotate_suffix(1-4))+
  show "r1 = None \<Longrightarrow> rw_current_size w1 < rw_max_size_bytes w"
    using assms writer_rotate_suffix(5) [of w f r1 w1 f1] by (cases "rw_current_size w \<ge> rw_max_size_bytes w") simp_all
qed

text \<open>One turn of the loop: it ends with an error, or goes on with less data.\<close>

lemma append_loop_turn:
  assumes ne: "data \<noteq> []" and pos: "0 < rw_max_size_bytes w"
  obtains res where "append_loop (Suc fuel) data w f = Some res" "appended (nat (rw_archive_count w)) (rw_path w) data f res"
  | k w2 f2 where "append_loop (Suc fuel) data w f = append_loop fuel (drop k data) w2 f2" "0 < k" "k \<le> length data"
    "suffix (history (nat (rw_archive_count w)) (rw_path w) f2) (history (nat (rw_archive_count w)) (rw_path w) f @ take k data)"
    "rw_path w2 = rw_path w" "rw_archive_count w2 = rw_archive_count w" "rw_max_size_bytes w2 = rw_max_size_bytes w"
proof -
  let ?m = "nat (rw_archive_count w)" and ?p = "rw_path w"
  obtain r1 w1 f1 where rot: "(if rw_current_size w \<ge> rw_max_size_bytes w then writer_rotate w f else (None, w, f)) = (r1, w1, f1)"
    by (metis prod_cases3)
  note fr = rotate_if_full [OF rot pos]
  define k where "k = min (length data) (rw_max_size_bytes w1 - rw_current_size w1)"
  obtain r2 f2 where wr: "write_chunk ?p (take k data) f1 = (r2, f2)" by fastforce
  obtain n where n: "r2 = None \<longrightarrow> n = length (take k data)" "history ?m ?p f2 = history ?m ?p f1 @ take n (take k data)"
    using write_chunk_history [OF wr] by blast
  have suf: "suffix (history ?m ?p f2) (history ?m ?p f @ take n (take k data))"
    using fr(1) n(2) by (auto simp: suffix_def)
  show ?thesis
  proof (cases r1)
    case (Some e)
    have "append_loop (Suc fuel) data w f = Some (Some e, w1, f1)" using ne rot Some by simp
    then show ?thesis using appended_stop [OF fr(1)] that(1) by blast
  next
    case r1: None
    have k: "0 < k" "k \<le> length data" using fr(4) fr(5) [OF r1] ne by (auto simp: k_def)
    show ?thesis
    proof (cases r2)
      case (Some e)
      have "append_loop (Suc fuel) data w f = Some (Some e, writer_close w1, f2)"
        using ne rot r1 wr Some by (simp add: k_def Let_def fr(2))
      then show ?thesis using appended_stop_chunk [OF suf] that(1) by blast
    next
      case r2: None
      have eq: "append_loop (Suc fuel) data w f =
          append_loop fuel (drop k data) (w1\<lparr>rw_current_size := rw_current_size w1 + k\<rparr>) f2"
        using ne rot r1 wr r2 by (simp add: k_def Let_def fr(2))
      show ?thesis using suf n(1) r2 k(2) by (intro that(2) [OF eq k]) (simp_all add: fr min_absorb2)
    qed
  qed
qed

lemma append_loop_appended:
  "length data < fuel \<Longrightarrow> 0 < rw_max_size_bytes w \<Longrightarrow>
   \<exists>res. append_loop fuel data w f = Some res \<and> appended (nat (rw_archive_count w)) (rw_path w) data f res"
proof (induction fuel arbitrary: data w f)
  case (Suc fuel)
  show ?case
  proof (cases "data = []")
    case True
    then show ?thesis by (simp add: appended_def)
  next
    case False
    then show ?thesis
    proof (cases rule: append_loop_turn [OF False Suc.prems(2), where fuel = fuel and f = f, case_names stop turn])
      case (turn k w2 f2)
      have "length (drop k data) < fuel" "0 < rw_max_size_bytes w2" using Suc.prems turn by auto
      from Suc.IH [OF this, of f2] show ?thesis
        unfolding turn(1,5,6) using appended_step [OF _ turn(3,4)] by blast
    qed blast
  qed
qed simp

lemma append_loop_fits:
  assumes "rw_current_size w + length data \<le> rw_max_size_bytes w" "append_loop (Suc (length data)) data w f = Some (r, w1, f1)"
  shows "\<exists>n. history m (rw_path w) f1 = history m (rw_path w) f @ take n data"
proof (cases data)
  case (Cons a rest)
  obtain r2 f2 where wr: "write_chunk (rw_path w) data f = (r2, f2)" by fastforce
  have "f1 = f2" using assms wr Cons by (cases r2) (simp_all add: min_absorb1 Let_def)
  then show ?thesis using write_chunk_history [OF wr, of m] by blast
qed (use assms in simp)

text \<open>
  C23: whatever the calls answer, \<open>append\<close> ends, and the archives and the log, read from the oldest byte, hold what they held
  followed by a prefix of the data (all of it when it succeeds), less bytes at the old end; when the data fits into the
  current file nothing is lost.
\<close>

theorem rotating_append_safe:
  assumes "rw_handle w \<Longrightarrow> 0 < rw_max_size_bytes w"
  shows "\<exists>r w1 f1. writer_append (Suc (length data)) data w f = Some (r, w1, f1) \<and>
     (\<exists>n \<le> length data. suffix (history (nat (rw_archive_count w)) (rw_path w) f1)
          (history (nat (rw_archive_count w)) (rw_path w) f @ take n data) \<and> (r = None \<longrightarrow> n = length data)) \<and>
     ((if rw_handle w then rw_current_size w else length (contents f (rw_path w))) + length data \<le> rw_max_size_bytes w \<longrightarrow>
        (\<exists>n. history (nat (rw_archive_count w)) (rw_path w) f1 =
             history (nat (rw_archive_count w)) (rw_path w) f @ take n data))"
proof -
  let ?m = "nat (rw_archive_count w)" and ?p = "rw_path w"
  obtain r1 w1 f1 where op: "(if rw_handle w then (None, w, f) else writer_open w f) = (r1, w1, f1)"
    by (metis prod_cases3)
  have "writer_open w f = (r1, w1, f1) \<or> (w1 = w \<and> f1 = f)" using op by (auto split: if_splits)
  then have fr: "history ?m ?p f1 = history ?m ?p f" "rw_path w1 = ?p" "rw_archive_count w1 = rw_archive_count w"
    "rw_max_size_bytes w1 = rw_max_size_bytes w"
    by (blast dest: writer_open_history writer_open_frame(2-4))+
  show ?thesis
  proof (cases "data = [] \<or> r1 \<noteq> None")
    case True
    then show ?thesis using op fr(1) by (auto simp: writer_append_def intro!: exI [of _ 0])
  next
    case False
    have ok: "0 < rw_max_size_bytes w1 \<and>
      rw_current_size w1 = (if rw_handle w then rw_current_size w else length (contents f ?p))"
    proof (cases "rw_handle w")
      case True
      then show ?thesis
        using op assms by simp_all
    next
      case nh: False
      then have "writer_open w f = (r1, w1, f1)" using op by simp
      then show ?thesis
        using writer_open_frame(5) [of w f r1 w1 f1] False nh fr(4) by simp_all
    qed
    have "writer_append (Suc (length data)) data w f = append_loop (Suc (length data)) data w1 f1"
      using op False by (simp add: writer_append_def)
    moreover obtain r2 w2 f2 where "append_loop (Suc (length data)) data w1 f1 = Some (r2, w2, f2)" "appended ?m ?p data f1 (r2, w2, f2)"
      using append_loop_appended [OF lessI, of w1 data f1] ok unfolding fr(2,3) by (metis prod_cases3)
    ultimately show ?thesis using ok fr(1,2,4) append_loop_fits [of w1 data f1 r2 w2 f2 ?m] by (simp add: appended_def)
  qed
qed

theorem rotating_append_safe_witness:
  "\<exists>r w1 f1. writer_append (Suc (length ''abc'')) ''abc'' (new_writer ''l'' 2 1)
       \<lparr>lf_files = Map.empty, lf_dirs = (\<lambda>_. False), lf_script = [A_ok, A_ok, A_intr, A_wrote 1, A_error ''EIO'']\<rparr> = Some (r, w1, f1) \<and>
     (\<exists>n \<le> 3. suffix (history 1 ''l'' f1) (take n ''abc'') \<and> (r = None \<longrightarrow> n = 3))"
proof -
  let ?f = "\<lparr>lf_files = Map.empty, lf_dirs = (\<lambda>_. False), lf_script = [A_ok, A_ok, A_intr, A_wrote 1, A_error ''EIO'']\<rparr>"
  have "history 1 ''l'' ?f = []" by (simp add: history_def contents_def)
  then show ?thesis
    using rotating_append_safe [of "new_writer ''l'' 2 1" "''abc''" ?f] by (simp add: new_writer_def numeral_eq_Suc)
qed

end
