(* ===== verification/Rotating_Layout.thy ===== *)
theory Rotating_Layout
  imports Rotating_Log
begin

section \<open>The files of a rotating log\<close>

subsection \<open>The layout of the files when nothing fails\<close>

text \<open>
  The files that hold the stream \<open>bytes\<close> when every archive holds \<open>m\<close> bytes of it and \<open>q\<close> rotations have been made: the
  current file has the rest, and archive \<open>i\<close> the block \<open>i\<close> before it, down to the \<open>n\<close> archives that are kept.
\<close>

definition log_layout :: "nat \<Rightarrow> nat \<Rightarrow> nat \<Rightarrow> string \<Rightarrow> nat \<Rightarrow> string option" where
  "log_layout m n q bytes i =
     (if i = 0 then Some (drop (q * m) bytes)
      else if i \<le> min q n then Some (take m (drop ((q - i) * m) bytes)) else None)"

definition parent_ready :: "string \<Rightarrow> log_fs \<Rightarrow> bool" where
  "parent_ready path f \<longleftrightarrow>
     (case before_slash path of None \<Rightarrow> True | Some d \<Rightarrow> d = [] \<or> d = ''.'' \<or> d = ''/'' \<or> lf_dirs f d)"

definition laid_out :: "nat \<Rightarrow> string \<Rightarrow> rotating_log_writer \<Rightarrow> log_fs \<Rightarrow> bool" where
  "laid_out q bytes w f \<longleftrightarrow>
     lf_script f = [] \<and> parent_ready (rw_path w) f \<and>
     rw_handle w \<and> 0 < rw_max_size_bytes w \<and> 0 \<le> rw_archive_count w \<and> rw_path w \<noteq> [] \<and>
     rw_current_size w = length bytes - q * rw_max_size_bytes w \<and> q * rw_max_size_bytes w \<le> length bytes \<and>
     length bytes \<le> Suc q * rw_max_size_bytes w \<and>
     (\<forall>i. lf_files f (archive (rw_path w) i) = log_layout (rw_max_size_bytes w) (nat (rw_archive_count w)) q bytes i)"

definition same_config :: "rotating_log_writer \<Rightarrow> rotating_log_writer \<Rightarrow> bool" where
  "same_config w1 w \<longleftrightarrow> rw_path w1 = rw_path w \<and> rw_archive_count w1 = rw_archive_count w \<and>
     rw_max_size_bytes w1 = rw_max_size_bytes w"

lemma parent_ready_dirs: "parent_ready path f \<Longrightarrow> lf_dirs g = lf_dirs f \<Longrightarrow> parent_ready path g"
  by (simp add: parent_ready_def split: option.splits)

lemma call_works [simp]: "lf_script f = [] \<Longrightarrow> next_answer f = (A_ok, f)" "lf_script f = [] \<Longrightarrow> call_error f = (None, f)"
  by (simp_all add: next_answer_def call_error_def)

lemma make_directory_works:
  "lf_script f = [] \<Longrightarrow> make_directory path f = (None, f\<lparr>lf_dirs := (lf_dirs f)(path := True)\<rparr>)"
  by (simp add: make_directory_def)

lemma ensure_directory_script:
  "lf_script f = [] \<Longrightarrow> lf_script (snd (ensure_directory path f)) = []"
proof (induction path f rule: ensure_directory.induct)
  case (1 path f)
  show ?case
  proof (cases "path = [] \<or> path = ''.'' \<or> path = ''/'' \<or> lf_dirs f path \<or> lf_files f path \<noteq> None")
    case True
    then show ?thesis using "1.prems" by (subst ensure_directory.simps) auto
  next
    case False
    show ?thesis
    proof (cases "before_slash path")
      case None
      then show ?thesis using False "1.prems" by (subst ensure_directory.simps) (auto simp: make_directory_works)
    next
      case (Some d)
      obtain r g where g: "ensure_directory d f = (r, g)" by fastforce
      have "lf_script (snd (ensure_directory d f)) = []" using False "1.prems" Some by (intro "1.IH") auto
      then show ?thesis using False "1.prems" Some g
        by (subst ensure_directory.simps) (cases r; simp add: make_directory_works)
    qed
  qed
qed

lemma ensure_directory_ready:
  assumes script: "lf_script f = []" and ok: "ensure_directory d f = (None, g)"
  shows "d = [] \<or> d = ''.'' \<or> d = ''/'' \<or> lf_dirs g d"
proof (cases "d = [] \<or> d = ''.'' \<or> d = ''/'' \<or> lf_dirs f d \<or> lf_files f d \<noteq> None")
  case True
  then show ?thesis using script ok [unfolded ensure_directory.simps [of d f]] by (auto split: if_splits)
next
  case False
  show ?thesis
  proof (cases "before_slash d")
    case None
    then show ?thesis using False script ok [unfolded ensure_directory.simps [of d f]] by (auto simp: make_directory_works)
  next
    case (Some e)
    obtain r h where h: "ensure_directory e f = (r, h)" by fastforce
    have "lf_script h = []" using ensure_directory_script [OF script, of e] h by simp
    then show ?thesis using False script Some h ok [unfolded ensure_directory.simps [of d f]]
      by (cases r) (auto simp: make_directory_works)
  qed
qed

lemma parent_ready_works:
  assumes "lf_script f = []" "parent_ready path f"
  shows "ensure_parent_directory path f = (None, f)"
proof (cases "before_slash path")
  case (Some d)
  then show ?thesis using assms unfolding ensure_parent_directory_def parent_ready_def
    by (auto simp: ensure_directory.simps [of d f] simp del: ensure_directory.simps)
qed (simp add: ensure_parent_directory_def)

lemma ensure_parent_ready:
  "lf_script f = [] \<Longrightarrow> ensure_parent_directory path f = (None, g) \<Longrightarrow> parent_ready path g \<and> lf_script g = []"
  using ensure_directory_script [of f] ensure_directory_ready [of f]
  by (auto simp: parent_ready_def ensure_parent_directory_def split: option.splits) (metis snd_conv)


lemma shift_archives_works:
  assumes "lf_script f = []" "\<And>j. j < k \<Longrightarrow> lf_files f (archive path j) = None \<Longrightarrow> lf_files f (archive path (Suc j)) = None"
  obtains g where "shift_archives path k f = (None, g)" "lf_script g = []" "lf_dirs g = lf_dirs f"
    "\<And>i. lf_files g (archive path i) =
       (if i \<le> k then if i = 0 \<and> 0 < k then None else lf_files f (archive path (i - 1)) else lf_files f (archive path i))"
  using assms
proof (induction k arbitrary: f thesis)
  case (Suc k)
  let ?g = "rename_file (archive path k) (archive path (Suc k)) f"
  have g: "lf_script ?g = []" "lf_dirs ?g = lf_dirs f"
    "\<And>i. lf_files ?g (archive path i) = (if i = Suc k then lf_files f (archive path k) else if i = k then None else lf_files f (archive path i))"
    using Suc.prems(2,3) by (auto simp: rename_file_def)
  have gaps: "lf_files ?g (archive path (Suc j)) = None" if "j < k" "lf_files ?g (archive path j) = None" for j
    using that Suc.prems(3) [of j] unfolding g(3) by (auto split: if_splits)
  obtain h where h: "shift_archives path k ?g = (None, h)" "lf_script h = []" "lf_dirs h = lf_dirs ?g"
    "\<And>i. lf_files h (archive path i) =
       (if i \<le> k then if i = 0 \<and> 0 < k then None else lf_files ?g (archive path (i - 1)) else lf_files ?g (archive path i))"
    using Suc.IH [OF _ g(1) gaps] by blast
  show ?case
  proof (rule Suc.prems(1))
    show "shift_archives path (Suc k) f = (None, h)" using Suc.prems(2) h(1) by simp
    show "lf_files h (archive path i) = (if i \<le> Suc k then if i = 0 \<and> 0 < Suc k then None
        else lf_files f (archive path (i - 1)) else lf_files f (archive path i))" for i
      unfolding h(4) g(3) by auto
  qed (use h g in simp_all)
qed simp

lemma writer_open_works:
  assumes "lf_script f = []" "parent_ready (rw_path w) f" "rw_path w \<noteq> []" "0 < rw_max_size_bytes w" "0 \<le> rw_archive_count w"
  shows "writer_open w f = (None, w\<lparr>rw_handle := True, rw_current_size := length (contents f (rw_path w))\<rparr>,
           f\<lparr>lf_files := (lf_files f)(rw_path w := Some (contents f (rw_path w)))\<rparr>)"
  using assms by (simp add: writer_open_def Let_def parent_ready_works writer_close_def contents_def)


lemma log_layout_step:
  assumes "length bytes = Suc q * m" "i \<noteq> 0" "i \<le> n"
  shows "log_layout m n q bytes (i - 1) = log_layout m n (Suc q) bytes i"
proof (cases "i = 1")
  case True
  have "length (drop (q * m) bytes) = m" using assms(1) by simp
  then show ?thesis using True assms(3) by (simp add: log_layout_def)
next
  case False
  then obtain j where "i = Suc (Suc j)" using assms(2) by (metis One_nat_def not0_implies_Suc)
  then show ?thesis using assms(3) by (auto simp: log_layout_def)
qed

lemma laid_out_rotated:
  assumes "laid_out q bytes w f" "length bytes = Suc q * rw_max_size_bytes w"
    and "lf_script g = []" "lf_dirs g = lf_dirs f"
    and "\<And>i. i \<noteq> 0 \<Longrightarrow> lf_files g (archive (rw_path w) i) =
      (if i \<le> nat (rw_archive_count w) then lf_files f (archive (rw_path w) (i - 1)) else lf_files f (archive (rw_path w) i))"
    and "lf_files g (rw_path w) = Some []"
  shows "laid_out (Suc q) bytes (w\<lparr>rw_handle := True, rw_current_size := 0\<rparr>) g"
proof -
  let ?p = "rw_path w" and ?m = "rw_max_size_bytes w" and ?n = "nat (rw_archive_count w)"
  have lay: "lf_files f (archive ?p i) = log_layout ?m ?n q bytes i" for i using assms(1) by (simp add: laid_out_def)
  have "lf_files g (archive ?p i) = log_layout ?m ?n (Suc q) bytes i" for i
  proof (cases "i = 0")
    case True
    then show ?thesis using assms(2,6) by (simp add: log_layout_def)
  next
    case False
    then show ?thesis using log_layout_step [OF assms(2) False, of ?n] assms(5) [OF False] unfolding lay
      by (auto simp: log_layout_def)
  qed
  then show ?thesis using assms(1-4) by (auto simp: laid_out_def elim: parent_ready_dirs)
qed

lemma laid_out_rotate:
  assumes lo: "laid_out q bytes w f" and full: "length bytes = Suc q * rw_max_size_bytes w"
  obtains w1 f1 where "writer_rotate w f = (None, w1, f1)" "laid_out (Suc q) bytes w1 f1" "same_config w1 w"
proof -
  let ?p = "rw_path w" and ?w = "w\<lparr>rw_handle := True, rw_current_size := 0\<rparr>"
  have st: "lf_script f = []" "parent_ready ?p f" "?p \<noteq> []" "0 < rw_max_size_bytes w" "0 \<le> rw_archive_count w"
    using lo by (simp_all add: laid_out_def)
  show ?thesis
  proof (cases "rw_archive_count w = 0")
    case True
    let ?g = "f\<lparr>lf_files := (lf_files f)(?p := Some [])\<rparr>"
    have "laid_out (Suc q) bytes ?w ?g" by (rule laid_out_rotated [OF lo full]) (simp_all add: st True)
    then show ?thesis using that [of ?w ?g] st True by (simp add: writer_rotate_def Let_def writer_close_def same_config_def)
  next
    case False
    then have n: "0 < nat (rw_archive_count w)" using st(5) by simp
    have gaps: "lf_files f (archive ?p (Suc j)) = None" if "lf_files f (archive ?p j) = None" for j
      using lo that by (auto simp: laid_out_def log_layout_def split: if_splits)
    obtain g where g: "shift_archives ?p (nat (rw_archive_count w)) f = (None, g)" "lf_script g = []" "lf_dirs g = lf_dirs f"
      "\<And>i. lf_files g (archive ?p i) = (if i \<le> nat (rw_archive_count w) then if i = 0 \<and> 0 < nat (rw_archive_count w) then None
         else lf_files f (archive ?p (i - 1)) else lf_files f (archive ?p i))"
      using shift_archives_works [OF st(1) gaps] by blast
    have gone: "lf_files g ?p = None" using g(4) [of 0] n by simp
    let ?h = "g\<lparr>lf_files := (lf_files g)(?p := Some [])\<rparr>"
    have "writer_open (writer_close w) g = (None, ?w, ?h)"
      using writer_open_works [of g "writer_close w"] parent_ready_dirs [OF st(2) g(3)] st g(2) gone
      by (simp add: contents_def writer_close_def)
    then have "writer_rotate w f = (None, ?w, ?h)" using g(1) False by (simp add: writer_rotate_def Let_def)
    moreover have "laid_out (Suc q) bytes ?w ?h" by (rule laid_out_rotated [OF lo full]) (simp_all add: g)
    ultimately show ?thesis using that by (simp add: same_config_def)
  qed
qed

lemma laid_out_write:
  assumes lo: "laid_out q bytes w f" and room: "length bytes + length data \<le> Suc q * rw_max_size_bytes w"
  shows "laid_out q (bytes @ data) (w\<lparr>rw_current_size := rw_current_size w + length data\<rparr>) (append_file (rw_path w) data f)"
proof -
  let ?m = "rw_max_size_bytes w" and ?n = "nat (rw_archive_count w)"
  have q: "q * ?m \<le> length bytes" using lo by (simp add: laid_out_def)
  have lay: "lf_files f (archive (rw_path w) i) = log_layout ?m ?n q bytes i" for i using lo by (simp add: laid_out_def)
  have "log_layout ?m ?n q (bytes @ data) i = log_layout ?m ?n q bytes i" if "i \<noteq> 0" for i
  proof -
    have "(q - i) * ?m + ?m \<le> length bytes" if "i \<le> q" using q that \<open>i \<noteq> 0\<close>
      by (metis Suc_leI add.commute diff_less le_trans mult_Suc mult_le_mono1 not_gr0 order_less_le_trans)
    then show ?thesis using that by (auto simp: log_layout_def)
  qed
  moreover have "log_layout ?m ?n q (bytes @ data) 0 = Some (drop (q * ?m) bytes @ data)" using q by (simp add: log_layout_def)
  ultimately have "lf_files (append_file (rw_path w) data f) (archive (rw_path w) i) = log_layout ?m ?n q (bytes @ data) i" for i
    using lay [of i] lay [of 0] by (cases "i = 0") (simp_all add: append_file_def contents_def log_layout_def)
  then show ?thesis using lo room q by (auto simp: laid_out_def append_file_def elim: parent_ready_dirs)
qed


lemma write_chunk_works: "lf_script f = [] \<Longrightarrow> data \<noteq> [] \<Longrightarrow> write_chunk path data f = (None, append_file path data f)"
  by (simp add: write_chunk.simps)

lemma laid_out_turn:
  assumes lo: "laid_out q bytes w f" and ne: "data \<noteq> []"
  obtains k q1 w1 f1 where "append_loop (Suc fuel) data w f = append_loop fuel (drop k data) w1 f1" "0 < k" "k \<le> length data"
    "laid_out q1 (bytes @ take k data) w1 f1" "q1 * rw_max_size_bytes w < length bytes + k" "same_config w1 w"
proof -
  let ?m = "rw_max_size_bytes w"
  obtain q1 w1 f1 where rot: "(if rw_current_size w \<ge> ?m then writer_rotate w f else (None, w, f)) = (None, w1, f1)"
    and lo1: "laid_out q1 bytes w1 f1" and cfg: "same_config w1 w" and room: "rw_current_size w1 < ?m"
  proof (cases "rw_current_size w \<ge> ?m")
    case True
    then have "length bytes = Suc q * ?m" using lo by (auto simp: laid_out_def)
    then obtain w1 f1 where r: "writer_rotate w f = (None, w1, f1)" "laid_out (Suc q) bytes w1 f1" "same_config w1 w"
      and len: "length bytes = Suc q * ?m"
      by (metis laid_out_rotate [OF lo])
    moreover have "rw_current_size w1 < ?m" using r(2,3) len by (auto simp: laid_out_def same_config_def)
    ultimately show ?thesis using that True by simp
  next
    case False
    then show ?thesis using lo that [of w f q] by (simp add: same_config_def)
  qed
  define k where "k = min (length data) (?m - rw_current_size w1)"
  have k: "0 < k" "k \<le> length data" "take k data \<noteq> []" using room ne by (auto simp: k_def)
  have m: "rw_max_size_bytes w1 = ?m" "rw_path w1 = rw_path w" using cfg by (simp_all add: same_config_def)
  have fits: "length bytes + length (take k data) \<le> Suc q1 * rw_max_size_bytes w1"
    using lo1 room by (auto simp: laid_out_def m k_def)
  have "append_loop (Suc fuel) data w f =
      append_loop fuel (drop k data) (w1\<lparr>rw_current_size := rw_current_size w1 + k\<rparr>) (append_file (rw_path w1) (take k data) f1)"
    using ne rot lo1 k(3) write_chunk_works [of f1 "take k data" "rw_path w1"] by (simp add: Let_def k_def m laid_out_def)
  moreover have "laid_out q1 (bytes @ take k data) (w1\<lparr>rw_current_size := rw_current_size w1 + k\<rparr>) (append_file (rw_path w1) (take k data) f1)"
    using laid_out_write [OF lo1 fits] k(2) by (simp add: min_absorb2)
  moreover have "q1 * ?m < length bytes + k" using lo1 k(1) by (auto simp: laid_out_def m)
  ultimately show ?thesis using that k(1,2) cfg by (force simp: same_config_def)
qed

lemma append_loop_works:
  "laid_out q bytes w f \<Longrightarrow> data \<noteq> [] \<Longrightarrow> length data < fuel \<Longrightarrow>
   \<exists>q1 w1 f1. append_loop fuel data w f = Some (None, w1, f1) \<and> laid_out q1 (bytes @ data) w1 f1 \<and>
     q1 * rw_max_size_bytes w < length (bytes @ data) \<and> same_config w1 w"
proof (induction fuel arbitrary: q bytes w f data)
  case (Suc fuel)
  obtain k q1 w1 f1 where turn: "append_loop (Suc fuel) data w f = append_loop fuel (drop k data) w1 f1" "0 < k" "k \<le> length data"
    "laid_out q1 (bytes @ take k data) w1 f1" "q1 * rw_max_size_bytes w < length bytes + k" "same_config w1 w"
    by (rule laid_out_turn [OF Suc.prems(1,2)])
  have len: "length (drop k data) < fuel" using Suc.prems(3) turn(2,3) by simp
  show ?case
  proof (cases "drop k data = []")
    case True
    then have "take k data = data" "append_loop fuel (drop k data) w1 f1 = Some (None, w1, f1)"
      using len by (auto, cases fuel, auto)
    then show ?thesis using turn by (intro exI [of _ q1] exI [of _ w1] exI [of _ f1]) simp
  next
    case False
    have "(bytes @ take k data) @ drop k data = bytes @ data" by simp
    then show ?thesis using Suc.IH [OF turn(4) False len] turn(1,6) by (auto simp: same_config_def)
  qed
qed simp

fun writer_appends :: "string list \<Rightarrow> rotating_log_writer \<Rightarrow> log_fs \<Rightarrow> writer_result option" where
  "writer_appends [] w f = Some (None, w, f)"
| "writer_appends (data # rest) w f = (case writer_append (Suc (length data)) data w f of
       Some (None, w1, f1) \<Rightarrow> writer_appends rest w1 f1
     | res \<Rightarrow> res)"

definition well_laid :: "string \<Rightarrow> rotating_log_writer \<Rightarrow> log_fs \<Rightarrow> bool" where
  "well_laid bytes w f \<longleftrightarrow> (\<exists>q. laid_out q bytes w f \<and> q * rw_max_size_bytes w < length bytes)"

lemma writer_append_works:
  assumes "laid_out q bytes w f" "data \<noteq> []"
  shows "\<exists>w1 f1. writer_append (Suc (length data)) data w f = Some (None, w1, f1) \<and> well_laid (bytes @ data) w1 f1 \<and> same_config w1 w"
  using append_loop_works [OF assms lessI] assms
  by (auto simp: writer_append_def laid_out_def [of q bytes] well_laid_def same_config_def)

lemma writer_appends_works:
  "well_laid bytes w f \<Longrightarrow>
   \<exists>w1 f1. writer_appends datas w f = Some (None, w1, f1) \<and> well_laid (bytes @ concat datas) w1 f1 \<and> same_config w1 w"
proof (induction datas arbitrary: bytes w f)
  case Nil
  then show ?case by (simp add: same_config_def)
next
  case (Cons data rest)
  show ?case
  proof (cases "data = []")
    case True
    then show ?thesis using Cons.IH [OF Cons.prems] by (simp add: writer_append_def)
  next
    case False
    then obtain w1 f1 where "writer_append (Suc (length data)) data w f = Some (None, w1, f1)" "same_config w1 w"
      "well_laid (bytes @ data) w1 f1"
      using writer_append_works Cons.prems by (metis well_laid_def)
    then show ?thesis using Cons.IH [of "bytes @ data" w1 f1] by (auto simp: same_config_def)
  qed
qed

lemma fresh_open:
  assumes "path \<noteq> []" "0 < m" "0 \<le> n" "lf_script f = []" "fst (ensure_parent_directory path f) = None"
    and "\<And>i. lf_files f (archive path i) = None"
  obtains w1 f1 where "writer_open (new_writer path m n) f = (None, w1, f1)" "laid_out 0 [] w1 f1" "same_config w1 (new_writer path m n)"
proof -
  obtain g where g: "ensure_parent_directory path f = (None, g)" using assms(5) by (cases "ensure_parent_directory path f") simp
  have g2: "parent_ready path g" "lf_script g = []" "lf_files g = lf_files f"
    using ensure_parent_ready [OF assms(4) g] ensure_parent_frame [OF g] by simp_all
  let ?h = "g\<lparr>lf_files := (lf_files g)(path := Some [])\<rparr>" and ?w = "(new_writer path m n)\<lparr>rw_handle := True\<rparr>"
  have "lf_files f path = None" using assms(6) [of 0] by simp
  then have "writer_open (new_writer path m n) f = (None, ?w, ?h)"
    using assms g g2 by (simp add: writer_open_def Let_def writer_close_def new_writer_def contents_def)
  moreover have "laid_out 0 [] ?w ?h"
    using assms g2 parent_ready_dirs [OF g2(1), of ?h] by (simp add: laid_out_def new_writer_def log_layout_def)
  ultimately show ?thesis using that by (simp add: same_config_def)
qed

lemma fresh_appends:
  assumes "path \<noteq> []" "0 < m" "0 \<le> n" "lf_script f = []" "fst (ensure_parent_directory path f) = None"
    and "\<And>i. lf_files f (archive path i) = None" and "concat datas \<noteq> []"
  shows "\<exists>w1 f1. writer_appends datas (new_writer path m n) f = Some (None, w1, f1) \<and> well_laid (concat datas) w1 f1 \<and>
     same_config w1 (new_writer path m n)"
  using assms(7)
proof (induction datas)
  case (Cons data rest)
  show ?case
  proof (cases "data = []")
    case True
    then show ?thesis using Cons by (simp add: writer_append_def)
  next
    case False
    obtain w1 f1 where op: "writer_open (new_writer path m n) f = (None, w1, f1)" "laid_out 0 [] w1 f1"
      "same_config w1 (new_writer path m n)"
      using fresh_open [OF assms(1-6)] by blast
    obtain w2 f2 where ap: "writer_append (Suc (length data)) data w1 f1 = Some (None, w2, f2)" "well_laid data w2 f2" "same_config w2 w1"
      using writer_append_works [OF op(2) False] by auto
    have "writer_append (Suc (length data)) data (new_writer path m n) f = Some (None, w2, f2)"
      using ap(1) op(1,2) False by (simp add: writer_append_def new_writer_def laid_out_def)
    then show ?thesis using writer_appends_works [OF ap(2), of rest] ap(3) op(3) by (auto simp: same_config_def)
  qed
qed simp

text \<open>
  C11: when no call fails, any sequence of appends to a fresh log leaves exactly the layout of the stream: with \<open>L\<close> bytes
  written and \<open>q = (L - 1) div m\<close>, the current file holds the bytes from \<open>q * m\<close> on, archive \<open>i\<close> the \<open>m\<close> bytes of the \<open>i\<close>th
  block before it, for at most the configured number of archives, and there is no other archive.
\<close>

theorem rotating_log_layout:
  assumes "path \<noteq> []" "0 < m" "0 \<le> n" "lf_script f = []" "fst (ensure_parent_directory path f) = None"
    and "\<And>i. lf_files f (archive path i) = None" and "concat datas \<noteq> []"
  shows "\<exists>w1 f1. writer_appends datas (new_writer path m n) f = Some (None, w1, f1) \<and>
     (\<forall>i. lf_files f1 (archive path i) = log_layout m (nat n) ((length (concat datas) - 1) div m) (concat datas) i)"
proof -
  obtain w1 f1 q where res: "writer_appends datas (new_writer path m n) f = Some (None, w1, f1)" "laid_out q (concat datas) w1 f1"
    "q * rw_max_size_bytes w1 < length (concat datas)" "same_config w1 (new_writer path m n)"
    using fresh_appends [OF assms] by (auto simp: well_laid_def)
  have cfg: "rw_path w1 = path" "rw_max_size_bytes w1 = m" "rw_archive_count w1 = n"
    using res(4) by (simp_all add: same_config_def new_writer_def)
  have "(length (concat datas) - 1) div m = q"
    using res(2,3) unfolding laid_out_def cfg by (intro div_nat_eqI) (auto simp: mult.commute)
  then show ?thesis using res(1,2) by (simp add: laid_out_def cfg)
qed

theorem rotating_log_layout_witness:
  "\<exists>w1 f1. writer_appends [''abc'', ''de''] (new_writer ''l'' 2 1)
       \<lparr>lf_files = Map.empty, lf_dirs = (\<lambda>_. False), lf_script = []\<rparr> = Some (None, w1, f1) \<and>
     lf_files f1 ''l'' = Some ''e'' \<and> lf_files f1 ''l.1'' = Some ''cd'' \<and> lf_files f1 ''l.2'' = None"
proof -
  let ?f = "\<lparr>lf_files = Map.empty, lf_dirs = (\<lambda>_. False), lf_script = []\<rparr>"
  have names: "archive ''l'' 0 = ''l''" "archive ''l'' 1 = ''l.1''" "archive ''l'' 2 = ''l.2''" by code_simp+
  obtain w1 f1 where "writer_appends [''abc'', ''de''] (new_writer ''l'' 2 1) ?f = Some (None, w1, f1)"
    and lay: "\<And>i. lf_files f1 (archive ''l'' i) = log_layout 2 1 ((length (concat [''abc'', ''de'']) - 1) div 2) (concat [''abc'', ''de'']) i"
    using rotating_log_layout [of "''l''" 2 1 ?f "[''abc'', ''de'']"] by (auto simp: ensure_parent_directory_def before_slash_def)
  then show ?thesis using lay [of 0, unfolded names] lay [of 1, unfolded names] lay [of 2, unfolded names]
    by (auto simp: log_layout_def)
qed

end
