(* ===== verification/Cli_Command.thy ===== *)
theory Cli_Command
  imports Control Daemon_Config
begin

section \<open>The command line of pm (cli/cli_command)\<close>

text \<open>
  The parser of the command line: a command word, for \<open>start\<close> a list of options that ends at \<open>--\<close> and the program's own
  command line.  A parse gives \<open>Inr\<close> of the command or \<open>Inl\<close> of the error text, as \<open>command_parse_result\<close> does.
\<close>

subsection \<open>Commands\<close>

datatype command_kind =
    CK_help | CK_list | CK_graph | CK_start | CK_stop | CK_restart | CK_remove | CK_save | CK_log
  | CK_inspect | CK_reload | CK_quit | CK_version | CK_info

record start_command_options =
  so_name :: string
  so_cwd :: string
  so_executable :: string
  so_args :: "string list"
  so_kill_timeout_sec :: int
  so_run_as :: string
  so_env :: "string list"
  so_depends_on :: "string list"
  so_start_timeout :: int
  so_failure_action :: failure_action_t
  so_daemon :: bool
  so_heartbeat_timeout :: int
  so_oom_score_adj :: int
  so_pty :: bool
  so_show_log :: bool
  so_log_mode :: log_mode_t
  so_log_mode_explicit :: bool
  so_log_dir :: string
  so_log_file_name :: string
  so_log_max_size_kb :: int
  so_log_archive_count :: int
  so_create :: bool
  so_restart_delay_ms :: int
  so_restart_max_delay_ms :: int
  so_restart_window_ms :: int
  so_restart_max_attempts :: int
  so_restart_reset_after_ms :: int

definition default_start_options :: start_command_options where
  "default_start_options =
     \<lparr>so_name = [], so_cwd = [], so_executable = [], so_args = [], so_kill_timeout_sec = 3, so_run_as = [], so_env = [],
      so_depends_on = [], so_start_timeout = 0, so_failure_action = FA_skip, so_daemon = True, so_heartbeat_timeout = -1,
      so_oom_score_adj = 0, so_pty = False, so_show_log = False, so_log_mode = LM_split, so_log_mode_explicit = False,
      so_log_dir = [], so_log_file_name = [], so_log_max_size_kb = 4096, so_log_archive_count = 3, so_create = False,
      so_restart_delay_ms = 1000, so_restart_max_delay_ms = 30000, so_restart_window_ms = 60000,
      so_restart_max_attempts = 10, so_restart_reset_after_ms = 60000\<rparr>"

record list_render_options =
  lr_wide :: bool
  lr_json :: bool
  lr_no_color :: bool
  lr_stdout_is_tty :: bool
  lr_terminal_width :: nat

record dependency_graph_render_options =
  gr_focus :: string
  gr_json :: bool
  gr_dot :: bool
  gr_no_color :: bool
  gr_stdout_is_tty :: bool

record parsed_command =
  pc_kind :: command_kind
  pc_name :: string
  pc_show_log :: bool
  pc_log_history :: bool
  pc_no_list :: bool
  pc_list_options :: list_render_options
  pc_graph_options :: dependency_graph_render_options
  pc_start :: start_command_options
  pc_info_json :: bool

definition default_list_options :: list_render_options where
  "default_list_options = \<lparr>lr_wide = False, lr_json = False, lr_no_color = False, lr_stdout_is_tty = False, lr_terminal_width = 0\<rparr>"

definition default_graph_options :: dependency_graph_render_options where
  "default_graph_options = \<lparr>gr_focus = [], gr_json = False, gr_dot = False, gr_no_color = False, gr_stdout_is_tty = False\<rparr>"

definition default_command :: parsed_command where
  "default_command =
     \<lparr>pc_kind = CK_help, pc_name = [], pc_show_log = False, pc_log_history = False, pc_no_list = False,
      pc_list_options = default_list_options, pc_graph_options = default_graph_options,
      pc_start = default_start_options, pc_info_json = False\<rparr>"

subsection \<open>Words and numbers\<close>

definition lowercase :: "string \<Rightarrow> string" where
  "lowercase = map (\<lambda>c. let n = (of_char c :: nat) in if 65 \<le> n \<and> n \<le> 90 then char_of (n + 32) else c)"

text \<open>\<open>std::stoll\<close> reads up to a zero byte, which then leaves text behind.\<close>

definition parse_integer :: "string \<Rightarrow> int option" where
  "parse_integer text =
     (if CHR 0x00 \<in> set text then None
      else case strtol_whole text of
        None \<Rightarrow> None
      | Some n \<Rightarrow> if in_i32 n then Some n else None)"

subsection \<open>The options of start\<close>

type_synonym option_result = "string + start_command_options \<times> string list"

definition require_value :: "string \<Rightarrow> string list \<Rightarrow> (string \<Rightarrow> string + start_command_options) \<Rightarrow> option_result" where
  "require_value option rest k = (case rest of
       [] \<Rightarrow> Inl (option @ '' requires a value'')
     | value # rest' \<Rightarrow> res_bind (k value) (\<lambda>o'. Inr (o', rest')))"

definition require_integer :: "string \<Rightarrow> string list \<Rightarrow> (int \<Rightarrow> string + start_command_options) \<Rightarrow> option_result" where
  "require_integer option rest k = require_value option rest (\<lambda>value. case parse_integer value of
       None \<Rightarrow> Inl (option @ '' requires an integer, got `'' @ value @ ''`'')
     | Some n \<Rightarrow> k n)"

definition env_option :: "start_command_options \<Rightarrow> string \<Rightarrow> string + start_command_options" where
  "env_option o' value =
     (if CHR ''='' \<notin> set value \<or> value ! 0 = CHR ''='' then Inl ''--env requires KEY=VALUE''
      else if take 8 value = ''PM_TINY_'' then Inl ''--env cannot override reserved PM_TINY_* variables''
      else Inr (o'\<lparr>so_env := so_env o' @ [value]\<rparr>))"

definition start_option :: "string \<Rightarrow> string list \<Rightarrow> start_command_options \<Rightarrow> option_result" where
  "start_option option rest o' =
     (if option = ''--cwd'' then require_value option rest (\<lambda>v. Inr (o'\<lparr>so_cwd := v\<rparr>))
      else if option = ''--kill-timeout'' then require_integer option rest (\<lambda>n. Inr (o'\<lparr>so_kill_timeout_sec := n\<rparr>))
      else if option = ''--user'' then require_value option rest (\<lambda>v. Inr (o'\<lparr>so_run_as := v\<rparr>))
      else if option = ''--env'' then require_value option rest (env_option o')
      else if option = ''--depends-on'' then require_value option rest (\<lambda>v. Inr (o'\<lparr>so_depends_on := so_depends_on o' @ [v]\<rparr>))
      else if option = ''--start-timeout'' then require_integer option rest (\<lambda>n. Inr (o'\<lparr>so_start_timeout := n\<rparr>))
      else if option = ''--failure-action'' then require_value option rest (\<lambda>v. case str_to_failure_action v of
          Inl e \<Rightarrow> Inl (exn_what e)
        | Inr a \<Rightarrow> Inr (o'\<lparr>so_failure_action := a\<rparr>))
      else if option = ''--heartbeat-timeout'' then require_integer option rest (\<lambda>n. Inr (o'\<lparr>so_heartbeat_timeout := n\<rparr>))
      else if option = ''--oom-score-adj'' then require_integer option rest (\<lambda>n. Inr (o'\<lparr>so_oom_score_adj := n\<rparr>))
      else if option = ''--daemon'' then Inr (o'\<lparr>so_daemon := True\<rparr>, rest)
      else if option = ''--no-daemon'' then Inr (o'\<lparr>so_daemon := False\<rparr>, rest)
      else if option = ''--log'' then Inr (o'\<lparr>so_show_log := True\<rparr>, rest)
      else if option = ''--log-mode'' then require_value option rest (\<lambda>v. case parse_log_mode v of
          None \<Rightarrow> Inl ''--log-mode requires `split` or `combined`''
        | Some m \<Rightarrow> Inr (o'\<lparr>so_log_mode := m, so_log_mode_explicit := True\<rparr>))
      else if option = ''--log-dir'' then require_value option rest (\<lambda>v. Inr (o'\<lparr>so_log_dir := v\<rparr>))
      else if option = ''--log-file-name'' then require_value option rest (\<lambda>v. Inr (o'\<lparr>so_log_file_name := v\<rparr>))
      else if option = ''--log-max-size-kb'' then require_integer option rest (\<lambda>n.
        if n < 1 \<or> n > 1048576 then Inl ''--log-max-size-kb must be between 1 and 1048576''
        else Inr (o'\<lparr>so_log_max_size_kb := n\<rparr>))
      else if option = ''--log-archive-count'' then require_integer option rest (\<lambda>n.
        if n < 0 \<or> n > 100 then Inl ''--log-archive-count must be between 0 and 100''
        else Inr (o'\<lparr>so_log_archive_count := n\<rparr>))
      else if option = ''--no-pty'' then Inr (o'\<lparr>so_pty := False\<rparr>, rest)
      else if option = ''--pty'' then Inr (o'\<lparr>so_pty := True\<rparr>, rest)
      else if option = ''--restart-delay-ms'' then require_integer option rest (\<lambda>n. Inr (o'\<lparr>so_restart_delay_ms := n\<rparr>))
      else if option = ''--restart-max-delay-ms'' then require_integer option rest (\<lambda>n. Inr (o'\<lparr>so_restart_max_delay_ms := n\<rparr>))
      else if option = ''--restart-window-ms'' then require_integer option rest (\<lambda>n. Inr (o'\<lparr>so_restart_window_ms := n\<rparr>))
      else if option = ''--restart-max-attempts'' then require_integer option rest (\<lambda>n. Inr (o'\<lparr>so_restart_max_attempts := n\<rparr>))
      else if option = ''--restart-reset-after-ms'' then require_integer option rest (\<lambda>n. Inr (o'\<lparr>so_restart_reset_after_ms := n\<rparr>))
      else Inl (''unknown start option: '' @ option))"

text \<open>
  What an option may do to the options and the rest of the arguments, as a predicate that is followed through the choices:
  here that the rest gets no longer.
\<close>

definition option_keeps :: "(start_command_options \<Rightarrow> bool) \<Rightarrow> string list \<Rightarrow> option_result \<Rightarrow> bool" where
  "option_keeps P rest r \<longleftrightarrow> (\<forall>o' rest'. r = Inr (o', rest') \<longrightarrow> P o' \<and> length rest' \<le> length rest)"

lemma option_keeps_if: "option_keeps P rest a \<Longrightarrow> option_keeps P rest b \<Longrightarrow> option_keeps P rest (if c then a else b)"
  by simp

lemma option_keeps_done: "option_keeps P rest (Inl e)" "P o' \<Longrightarrow> option_keeps P rest (Inr (o', rest))"
  by (simp_all add: option_keeps_def)

lemma option_keeps_value:
  "(\<And>v o'. k v = Inr o' \<Longrightarrow> P o') \<Longrightarrow> option_keeps P rest (require_value opt rest k)"
  by (auto simp: option_keeps_def require_value_def res_bind_eq_Inr split: list.splits)

lemma option_keeps_integer:
  "(\<And>n o'. in_i32 n \<Longrightarrow> k n = Inr o' \<Longrightarrow> P o') \<Longrightarrow> option_keeps P rest (require_integer opt rest k)"
  unfolding require_integer_def
  by (rule option_keeps_value) (auto simp: parse_integer_def split: option.splits if_splits)

lemmas option_keeps_rules = option_keeps_if option_keeps_done option_keeps_value option_keeps_integer

lemma start_option_rest: "start_option opt rest o1 = Inr (o2, rest') \<Longrightarrow> length rest' \<le> length rest"
proof -
  have "option_keeps (\<lambda>_. True) rest (start_option opt rest o1)"
    unfolding start_option_def by (intro option_keeps_rules TrueI)
  then show "start_option opt rest o1 = Inr (o2, rest') \<Longrightarrow> length rest' \<le> length rest"
    by (simp add: option_keeps_def)
qed

function start_options :: "string list \<Rightarrow> start_command_options \<Rightarrow> string + start_command_options" where
  "start_options [] o' = Inr o'"
| "start_options (option # rest) o' =
     (if option = ''--''
      then (case rest of
          [] \<Rightarrow> Inl ''-- requires an executable''
        | executable # args \<Rightarrow> Inr (o'\<lparr>so_create := True, so_executable := executable, so_args := args\<rparr>))
      else case start_option option rest o' of
        Inl e \<Rightarrow> Inl e
      | Inr (o2, rest') \<Rightarrow> start_options rest' o2)"
  by pat_completeness auto
termination
  by (relation "measure (\<lambda>(args, o'). length args)") (auto dest: start_option_rest)

definition plain_start :: "start_command_options \<Rightarrow> bool" where
  "plain_start s \<longleftrightarrow>
     \<not> (so_cwd s \<noteq> [] \<or> so_run_as s \<noteq> [] \<or> so_env s \<noteq> [] \<or> so_depends_on s \<noteq> [] \<or> so_pty s \<or>
        \<not> so_daemon s \<or> so_kill_timeout_sec s \<noteq> 3 \<or> so_start_timeout s \<noteq> 0 \<or>
        so_failure_action s \<noteq> FA_skip \<or> so_heartbeat_timeout s \<noteq> -1 \<or> so_oom_score_adj s \<noteq> 0 \<or>
        so_restart_delay_ms s \<noteq> 1000 \<or> so_restart_max_delay_ms s \<noteq> 30000 \<or> so_restart_window_ms s \<noteq> 60000 \<or>
        so_restart_max_attempts s \<noteq> 10 \<or> so_restart_reset_after_ms s \<noteq> 60000 \<or> so_log_mode_explicit s \<or>
        so_log_dir s \<noteq> [] \<or> so_log_file_name s \<noteq> [] \<or> so_log_max_size_kb s \<noteq> 4096 \<or> so_log_archive_count s \<noteq> 3)"

definition parse_start :: "string list \<Rightarrow> string + parsed_command" where
  "parse_start args =
     (if length args < 3 \<or> args ! 2 = [] \<or> args ! 2 ! 0 = CHR ''-'' then Inl ''start requires an explicit process name''
      else res_bind (start_options (drop 3 args) (default_start_options\<lparr>so_name := args ! 2\<rparr>)) (\<lambda>s.
        if \<not> so_create s \<and> \<not> plain_start s then Inl ''definition options require `-- <executable> [args...]`''
        else Inr (default_command\<lparr>pc_kind := CK_start, pc_start := s\<rparr>)))"

subsection \<open>The other commands\<close>

fun list_arguments :: "string list \<Rightarrow> list_render_options \<Rightarrow> string + list_render_options" where
  "list_arguments [] opts = Inr opts"
| "list_arguments (arg # rest) opts =
     (if arg = ''--wide'' then list_arguments rest (opts\<lparr>lr_wide := True\<rparr>)
      else if arg = ''--json'' then list_arguments rest (opts\<lparr>lr_json := True\<rparr>)
      else if arg = ''--no-color'' then list_arguments rest (opts\<lparr>lr_no_color := True\<rparr>)
      else Inl (''unexpected list argument: '' @ arg))"

fun graph_arguments :: "string list \<Rightarrow> dependency_graph_render_options \<Rightarrow> string + dependency_graph_render_options" where
  "graph_arguments [] opts = Inr opts"
| "graph_arguments (arg # rest) opts =
     (if arg = ''--json'' then graph_arguments rest (opts\<lparr>gr_json := True\<rparr>)
      else if arg = ''--dot'' then graph_arguments rest (opts\<lparr>gr_dot := True\<rparr>)
      else if arg = ''--no-color'' then graph_arguments rest (opts\<lparr>gr_no_color := True\<rparr>)
      else if arg \<noteq> [] \<and> arg ! 0 = CHR ''-'' then Inl (''unexpected graph argument: '' @ arg)
      else if gr_focus opts \<noteq> [] then Inl ''graph accepts at most one process name''
      else graph_arguments rest (opts\<lparr>gr_focus := arg\<rparr>))"

text \<open>A named command and whether it takes \<open>--log\<close>, \<open>--no-list\<close> and \<open>--history\<close>.\<close>

type_synonym named_command = "string \<times> command_kind \<times> bool \<times> bool \<times> bool"

definition named_commands :: "named_command list" where
  "named_commands =
     [(''stop'', CK_stop, False, True, False),
      (''restart'', CK_restart, True, True, False),
      (''delete'', CK_remove, False, True, False),
      (''log'', CK_log, False, False, True),
      (''inspect'', CK_inspect, False, False, False)]"

fun named_arguments :: "named_command \<Rightarrow> string list \<Rightarrow> parsed_command \<Rightarrow> string + parsed_command" where
  "named_arguments candidate [] c = Inr c"
| "named_arguments (name, kind, allow_log, allow_no_list, allow_history) (arg # rest) c =
     (if allow_log \<and> arg = ''--log''
      then named_arguments (name, kind, allow_log, allow_no_list, allow_history) rest (c\<lparr>pc_show_log := True\<rparr>)
      else if allow_no_list \<and> arg = ''--no-list''
      then named_arguments (name, kind, allow_log, allow_no_list, allow_history) rest (c\<lparr>pc_no_list := True\<rparr>)
      else if allow_history \<and> arg = ''--history''
      then named_arguments (name, kind, allow_log, allow_no_list, allow_history) rest (c\<lparr>pc_log_history := True\<rparr>)
      else Inl (''unexpected '' @ name @ '' argument: '' @ arg))"

definition parse_named :: "named_command \<Rightarrow> string list \<Rightarrow> string + parsed_command" where
  "parse_named candidate args =
     (if length args < 3 then Inl (fst candidate @ '' requires a process name'')
      else named_arguments candidate (drop 3 args)
             (default_command\<lparr>pc_kind := fst (snd candidate), pc_name := args ! 2\<rparr>))"

definition plain_commands :: "(string \<times> command_kind) list" where
  "plain_commands = [(''save'', CK_save), (''reload'', CK_reload), (''quit'', CK_quit), (''shutdown'', CK_quit)]"

definition parse_plain :: "string \<Rightarrow> command_kind \<Rightarrow> string list \<Rightarrow> string + parsed_command" where
  "parse_plain name kind args =
     (if name = ''reload'' \<and> length args = 3 \<and> args ! 2 = ''--no-list''
      then Inr (default_command\<lparr>pc_kind := kind, pc_no_list := True\<rparr>)
      else if length args \<noteq> 2 then Inl (name @ '' does not accept arguments'')
      else Inr (default_command\<lparr>pc_kind := kind\<rparr>))"

definition parse_command_line :: "string list \<Rightarrow> string + parsed_command" where
  "parse_command_line args =
     (if length args < 2 then Inl ''a command is required''
      else let name = lowercase (args ! 1) in
      if name = ''help'' \<or> name = ''--help'' \<or> name = ''-h''
      then (if length args \<noteq> 2 then Inl ''help does not accept arguments'' else Inr (default_command\<lparr>pc_kind := CK_help\<rparr>))
      else if name = ''version'' \<or> name = ''--version'' \<or> name = ''-v''
      then (if length args \<noteq> 2 then Inl ''version does not accept arguments'' else Inr (default_command\<lparr>pc_kind := CK_version\<rparr>))
      else if name = ''start'' then parse_start args
      else if name = ''info''
      then (if length args = 3 \<and> args ! 2 = ''--json'' then Inr (default_command\<lparr>pc_kind := CK_info, pc_info_json := True\<rparr>)
            else if length args \<noteq> 2 then Inl (''unexpected info argument: '' @ args ! 2)
            else Inr (default_command\<lparr>pc_kind := CK_info\<rparr>))
      else if name = ''list'' \<or> name = ''ls'' \<or> name = ''status''
      then res_bind (list_arguments (drop 2 args) default_list_options) (\<lambda>opts.
        if lr_wide opts \<and> lr_json opts then Inl ''--wide and --json cannot be used together''
        else Inr (default_command\<lparr>pc_kind := CK_list, pc_list_options := opts\<rparr>))
      else if name = ''graph'' \<or> name = ''dag''
      then res_bind (graph_arguments (drop 2 args) default_graph_options) (\<lambda>opts.
        if gr_json opts \<and> gr_dot opts then Inl ''--json and --dot cannot be used together''
        else Inr (default_command\<lparr>pc_kind := CK_graph, pc_graph_options := opts\<rparr>))
      else case List.find (\<lambda>candidate. fst candidate = name) named_commands of
        Some candidate \<Rightarrow> parse_named candidate args
      | None \<Rightarrow>
          (case List.find (\<lambda>candidate. fst candidate = name) plain_commands of
             Some (_, kind) \<Rightarrow> parse_plain name kind args
           | None \<Rightarrow> Inl (''unknown command: '' @ args ! 1)))"

fun command_protocol_type :: "command_kind \<Rightarrow> exn + 16 word" where
  "command_protocol_type CK_list = Inr (control_command_code CC_list)"
| "command_protocol_type CK_graph = Inr (control_command_code CC_list)"
| "command_protocol_type CK_stop = Inr (control_command_code CC_stop)"
| "command_protocol_type CK_start = Inr (control_command_code CC_start)"
| "command_protocol_type CK_save = Inr (control_command_code CC_save)"
| "command_protocol_type CK_remove = Inr (control_command_code CC_remove)"
| "command_protocol_type CK_restart = Inr (control_command_code CC_restart)"
| "command_protocol_type CK_version = Inr (control_command_code CC_version)"
| "command_protocol_type CK_log = Inr (control_command_code CC_log)"
| "command_protocol_type CK_inspect = Inr (control_command_code CC_inspect)"
| "command_protocol_type CK_reload = Inr (control_command_code CC_reload)"
| "command_protocol_type CK_quit = Inr (control_command_code CC_quit)"
| "command_protocol_type CK_info = Inr (control_command_code CC_info)"
| "command_protocol_type CK_help = Inl (Invalid_argument ''command has no protocol type'')"

end
