(* ===== verification/Cli_Client.thy ===== *)
theory Cli_Client
  imports Cli_Command Command_Handlers Session
begin

section \<open>The pm client (cli/pm, cli/pm_funcs, cli/cli_response)\<close>

text \<open>
  From a parsed command to the exit status: the definition of a program to create is resolved against the file system, the
  request is built and sent, and the reply is turned into output.  The calls to the file system and the connection are
  values; the renderers of tables are parameters.
\<close>

subsection \<open>Resolving a program to start\<close>

text \<open>\<open>realpath\<close> gives \<open>Inl\<close> of the error text; \<open>ch_executable\<close> is \<open>executable_file\<close>, a regular file that may be executed.\<close>

record client_host =
  ch_getcwd :: "string option"
  ch_realpath :: "string \<Rightarrow> string + string"
  ch_executable :: "string \<Rightarrow> bool"
  ch_last_error :: string
  ch_path :: "string option"
  ch_environ :: "string list"
  ch_user :: "string \<Rightarrow> int option"
  ch_euid :: int

definition absolute_existing_path :: "client_host \<Rightarrow> string \<Rightarrow> string \<Rightarrow> string + string" where
  "absolute_existing_path h path kind = (case ch_realpath h path of
       Inl e \<Rightarrow> Inl (''resolve '' @ kind @ '' `'' @ path @ ''`: '' @ e)
     | Inr resolved \<Rightarrow> Inr resolved)"

text \<open>The directory before the last slash and the leaf after it.\<close>

definition split_leaf :: "string \<Rightarrow> string \<times> string" where
  "split_leaf path = (case rfind CHR ''/'' path of
       None \<Rightarrow> (''.'', path)
     | Some i \<Rightarrow> (take i path, drop (Suc i) path))"

definition absolute_path_preserving_leaf :: "client_host \<Rightarrow> string \<Rightarrow> string + string" where
  "absolute_path_preserving_leaf h path =
     (let (directory, leaf) = split_leaf path in
      if leaf = [] then Inl (''resolve executable `'' @ path @ ''`: '' @ ch_last_error h)
      else case ch_realpath h (if directory = [] then ''/'' else directory) of
        Inl e \<Rightarrow> Inl (''resolve executable `'' @ path @ ''`: '' @ e)
      | Inr resolved \<Rightarrow> Inr (resolved @ (if resolved = ''/'' then [] else ''/'') @ leaf))"

function search_directories :: "string \<Rightarrow> string list" where
  "search_directories p = (case dropWhile (\<lambda>c. c \<noteq> CHR '':'') p of
       [] \<Rightarrow> [p]
     | _ # rest \<Rightarrow> takeWhile (\<lambda>c. c \<noteq> CHR '':'') p # search_directories rest)"
  by pat_completeness auto
termination
proof (relation "measure length", goal_cases)
  case (2 p c rest)
  have "length (dropWhile (\<lambda>c. c \<noteq> CHR '':'') p) \<le> length p" by (rule length_dropWhile_le)
  then show ?case using 2 by simp
qed simp

declare search_directories.simps [simp del]

definition runnable :: "client_host \<Rightarrow> string \<Rightarrow> bool" where
  "runnable h candidate = (case ch_realpath h candidate of Inl _ \<Rightarrow> False | Inr resolved \<Rightarrow> ch_executable h resolved)"

definition resolve_start_executable :: "client_host \<Rightarrow> string \<Rightarrow> string \<Rightarrow> string + string" where
  "resolve_start_executable h input cwd =
     (if input = [] then Inl ''resolve executable: empty path''
      else if CHR ''/'' \<in> set input
      then (let candidate = (if hd input = CHR ''/'' then input else cwd @ ''/'' @ input) in
        res_bind (absolute_existing_path h candidate ''executable'') (\<lambda>resolved.
        if \<not> ch_executable h resolved then Inl (''resolve executable `'' @ input @ ''`: file is not executable'')
        else absolute_path_preserving_leaf h candidate))
      else if runnable h (cwd @ ''/'' @ input) then absolute_path_preserving_leaf h (cwd @ ''/'' @ input)
      else case List.find (runnable h)
            (map (\<lambda>d. (if d = [] then ''.'' else d) @ ''/'' @ input) (search_directories (case ch_path h of None \<Rightarrow> [] | Some p \<Rightarrow> p))) of
          Some candidate \<Rightarrow> absolute_path_preserving_leaf h candidate
        | None \<Rightarrow> Inl (''resolve executable not found: '' @ input))"

text \<open>
  The request for \<open>start\<close>, as \<open>main\<close> puts it together.  A plain start carries the default configuration.  The error texts
  are what goes to the terminal; \<open>getcwd\<close> reports its own.
\<close>

definition start_config :: "start_command_options \<Rightarrow> string \<Rightarrow> string \<Rightarrow> log_mode_t \<Rightarrow> prog_cfg_t" where
  "start_config s cwd executable mode = default_prog_cfg\<lparr>
     cfg_name := so_name s, cfg_cwd := cwd, cfg_executable := executable, cfg_args := so_args s,
     cfg_kill_timeout_s := so_kill_timeout_sec s, cfg_run_as := so_run_as s, cfg_env_vars := so_env s,
     cfg_depends_on := so_depends_on s, cfg_start_timeout := so_start_timeout s,
     cfg_failure_action := so_failure_action s, cfg_daemon := so_daemon s,
     cfg_heartbeat_timeout := so_heartbeat_timeout s, cfg_oom_score_adj := so_oom_score_adj s, cfg_pty := so_pty s,
     cfg_log_mode := mode, cfg_log_dir := so_log_dir s, cfg_log_file_name := so_log_file_name s,
     cfg_log_max_size_kb := so_log_max_size_kb s, cfg_log_archive_count := so_log_archive_count s,
     cfg_restart_delay_ms := so_restart_delay_ms s, cfg_restart_max_delay_ms := so_restart_max_delay_ms s,
     cfg_restart_window_ms := so_restart_window_ms s, cfg_restart_max_attempts := so_restart_max_attempts s,
     cfg_restart_reset_after_ms := so_restart_reset_after_ms s\<rparr>"

text \<open>A C string ends at its first zero byte.\<close>

definition newline :: char where "newline = CHR 0x0A"

definition c_str :: "string \<Rightarrow> string" where
  "c_str s = takeWhile (\<lambda>c. c \<noteq> CHR 0x00) s"

definition pm_error :: "string + 'a \<Rightarrow> string + 'a" where
  "pm_error r = (case r of Inl e \<Rightarrow> Inl (''pm: '' @ c_str e @ [newline]) | Inr x \<Rightarrow> Inr x)"

definition chosen_log_mode :: "start_command_options \<Rightarrow> log_mode_t" where
  "chosen_log_mode s = (if so_log_mode_explicit s then so_log_mode s else if so_pty s then LM_combined else LM_split)"

definition build_start_request :: "client_host \<Rightarrow> start_command_options \<Rightarrow> string + start_request" where
  "build_start_request h s =
     (if \<not> so_create s
      then Inr \<lparr>sq_mode = SM_existing, sq_name = so_name s, sq_config = default_prog_cfg, sq_inherited_env = [],
                sq_show_log = so_show_log s\<rparr>
      else case (if so_cwd s = [] then ch_getcwd h else Some (so_cwd s)) of
        None \<Rightarrow> Inl (''getcwd: '' @ ch_last_error h @ [newline])
      | Some dir \<Rightarrow>
          res_bind (pm_error (absolute_existing_path h dir ''cwd'')) (\<lambda>cwd.
          res_bind (pm_error (resolve_start_executable h (so_executable s) cwd)) (\<lambda>executable.
          if so_pty s \<and> chosen_log_mode s = LM_split then Inl (''PTY requires --log-mode combined'' @ [newline])
          else Inr \<lparr>sq_mode = SM_create, sq_name = so_name s,
                sq_config = start_config s cwd executable (chosen_log_mode s),
                sq_inherited_env = filter (\<lambda>e. take 8 e \<noteq> ''PM_TINY_'') (ch_environ h),
                sq_show_log = so_show_log s\<rparr>)))"

subsection \<open>Requests\<close>

text \<open>The payload that follows the type byte in the functions of \<open>pm_funcs\<close>.\<close>

fun request_payload :: "command_kind \<Rightarrow> parsed_command \<Rightarrow> start_request \<Rightarrow> appender list" where
  "request_payload CK_stop c q = [fappend_string (pc_name c)]"
| "request_payload CK_remove c q = [fappend_string (pc_name c)]"
| "request_payload CK_inspect c q = [fappend_string (pc_name c)]"
| "request_payload CK_restart c q = [fappend_string (pc_name c), fappend_i32 (if pc_show_log c then 1 else 0)]"
| "request_payload CK_log c q = [append_program_log_request
     \<lparr>lq_name = pc_name c, lq_mode = (if pc_log_history c then LR_history else LR_live)\<rparr>]"
| "request_payload CK_start c q = [append_start_request q]"
| "request_payload _ c q = []"

definition request_frame :: "parsed_command \<Rightarrow> start_request \<Rightarrow> exn + frame" where
  "request_frame c q =
     res_bind (command_protocol_type (pc_kind c)) (\<lambda>type. append_all (request_payload (pc_kind c) c q) [ucast type])"

subsection \<open>Replies\<close>

record cli_response_result =
  rr_success :: bool
  rr_stream_expected :: bool
  rr_post_list :: bool
  rr_daemon_pid :: int
  rr_log_response :: program_log_response
  rr_stdout :: string
  rr_stderr :: string

definition no_log_response :: program_log_response where
  "no_log_response = \<lparr>lp_mode = LR_live, lp_generation = 0, lp_last_pid = -1, lp_last_exit_time_unix_ms = 0,
     lp_exit_reason = [], lp_exit_code = 0\<rparr>"

definition no_response :: cli_response_result where
  "no_response = \<lparr>rr_success = False, rr_stream_expected = False, rr_post_list = False, rr_daemon_pid = -1,
     rr_log_response = no_log_response, rr_stdout = [], rr_stderr = []\<rparr>"

text \<open>The renderers draw a result or throw.\<close>

record renderers =
  rd_list :: "process_list_entry list \<Rightarrow> list_render_options \<Rightarrow> exn + string"
  rd_graph :: "process_list_entry list \<Rightarrow> dependency_graph_render_options \<Rightarrow> exn + string"
  rd_inspect :: "inspect_snapshot \<Rightarrow> exn + string"
  rd_info :: "daemon_info_snapshot \<Rightarrow> bool \<Rightarrow> exn + string"
  rd_history :: "string \<Rightarrow> program_log_response \<Rightarrow> string"

definition trim_message :: "string \<Rightarrow> string" where
  "trim_message message =
     (let m = (if take 4 message = ''ERR '' then drop 4 message else message)
      in rev (dropWhile (\<lambda>c. c = CHR 0x0A \<or> c = CHR 0x0D) (rev m)))"

definition error_text :: "int \<Rightarrow> string \<Rightarrow> string" where
  "error_text status message =
     (let clean = trim_message message
      in if take 10 clean = ''pm: error('' then clean @ [newline]
         else ''pm: error('' @ int_to_string status @ ''): '' @ clean @ [newline])"

definition action_is_silent :: "command_kind \<Rightarrow> bool" where
  "action_is_silent kind \<longleftrightarrow>
     kind = CK_stop \<or> kind = CK_restart \<or> kind = CK_remove \<or> kind = CK_save \<or> kind = CK_reload \<or> kind = CK_quit"

definition should_post_list :: "parsed_command \<Rightarrow> bool" where
  "should_post_list c \<longleftrightarrow>
     \<not> (pc_no_list c \<or> pc_show_log c) \<and>
     (pc_kind c = CK_stop \<or> pc_kind c = CK_restart \<or> pc_kind c = CK_remove \<or> pc_kind c = CK_reload)"

fun comma_list :: "string list \<Rightarrow> string" where
  "comma_list [] = []"
| "comma_list [x] = x"
| "comma_list (x # xs) = x @ '','' @ comma_list xs"

definition start_outcome :: "start_command_options \<Rightarrow> start_response \<Rightarrow> cli_response_result \<Rightarrow> cli_response_result" where
  "start_outcome s p r =
     (let blockers = comma_list (sp_blocked_by p) in
      if sp_result p = SR_blocked
      then r\<lparr>rr_success := False, rr_stderr := ''pm: error(-7): blocked `'' @ so_name s @ ''` by: '' @ blockers @ [newline]\<rparr>
      else if so_show_log s then r\<lparr>rr_stream_expected := True\<rparr>
      else if sp_result p = SR_started
      then r\<lparr>rr_stdout := ''started `'' @ so_name s @ ''` pid='' @ int_to_string (sp_pid p) @
               (if so_create s then ''; run `pm save` to persist'' else []) @ [newline]\<rparr>
      else r\<lparr>rr_stdout := ''waiting `'' @ so_name s @ ''`'' @
               (if sp_blocked_by p \<noteq> [] then '' for: '' @ blockers else []) @ [newline]\<rparr>)"

text \<open>What follows a status of 0, by the kind of the command.\<close>

definition interpret_success ::
  "renderers \<Rightarrow> string \<Rightarrow> list_render_options option \<Rightarrow> dependency_graph_render_options option \<Rightarrow> parsed_command \<Rightarrow> string \<Rightarrow>
   frame \<Rightarrow> cli_response_result \<Rightarrow> exn + cli_response_result" where
  "interpret_success rd client_version list_options graph_options c message rest r =
     (let kind = pc_kind c in
      if kind = CK_list \<or> kind = CK_graph
      then res_bind (read_payload read_process_list rest) (\<lambda>entries.
        if kind = CK_graph
        then (case graph_options of
            None \<Rightarrow> Inl (Protocol_error ''missing graph render options'')
          | Some opts \<Rightarrow> res_bind (rd_graph rd entries opts) (\<lambda>out. Inr (r\<lparr>rr_stdout := out\<rparr>)))
        else (case list_options of
            None \<Rightarrow> Inl (Protocol_error ''missing list render options'')
          | Some opts \<Rightarrow> res_bind (rd_list rd entries opts) (\<lambda>out. Inr (r\<lparr>rr_stdout := out\<rparr>))))
      else if kind = CK_inspect
      then res_bind (read_payload read_inspect_snapshot rest) (\<lambda>snap.
        res_bind (rd_inspect rd snap) (\<lambda>out. Inr (r\<lparr>rr_stdout := out\<rparr>)))
      else if kind = CK_info
      then res_bind (read_daemon_info rest) (\<lambda>info.
        res_bind (rd_info rd info (pc_info_json c)) (\<lambda>out. Inr (r\<lparr>rr_stdout := out\<rparr>)))
      else if kind = CK_version
      then res_bind (read_payload fget_string rest) (\<lambda>daemon_version.
        Inr (r\<lparr>rr_stdout := ''pm: '' @ client_version @ [newline] @ ''pm_tiny: '' @ daemon_version @ [newline]\<rparr>))
      else if kind = CK_quit
      then res_bind (read_payload fget_i32 rest) (\<lambda>pid. Inr (r\<lparr>rr_daemon_pid := pid\<rparr>))
      else if kind = CK_start
      then res_bind (read_start_response rest) (\<lambda>p. Inr (start_outcome (pc_start c) p r))
      else if kind = CK_log \<or> (kind = CK_restart \<and> pc_show_log c)
      then res_bind (read_payload read_program_log_response rest) (\<lambda>p.
        if lp_mode p \<noteq> (if pc_log_history c then LR_history else LR_live)
        then Inl (Protocol_error ''program-log response mode mismatch'')
        else Inr (r\<lparr>rr_log_response := p, rr_stream_expected := True,
                    rr_stdout := (if kind = CK_log \<and> pc_log_history c then rd_history rd (pc_name c) p else rr_stdout r)\<rparr>))
      else if \<not> action_is_silent kind
      then (let txt = trim_message message in Inr (r\<lparr>rr_stdout := (if txt \<noteq> [] then txt @ [newline] else txt)\<rparr>))
      else Inr r)"

definition interpret_control_response ::
  "renderers \<Rightarrow> string \<Rightarrow> list_render_options option \<Rightarrow> dependency_graph_render_options option \<Rightarrow> parsed_command \<Rightarrow> frame \<Rightarrow>
   exn + cli_response_result" where
  "interpret_control_response rd client_version list_options graph_options c payload =
     res_bind (fget_i32 payload) (\<lambda>(status, rest).
     res_bind (fget_string rest) (\<lambda>(message, rest').
     if status \<noteq> 0 then Inr (no_response\<lparr>rr_stderr := error_text status message\<rparr>)
     else interpret_success rd client_version list_options graph_options c message rest'
            (no_response\<lparr>rr_success := True, rr_post_list := should_post_list c\<rparr>)))"


subsection \<open>Running a command\<close>

text \<open>
  The connection answers each request with a frame or none, says whether it is closed and whether the user interrupted;
  \<open>io_log\<close> are the frames of the
  log stream and \<open>io_log_stop\<close> says whether the user interrupted it.  An exception that nothing catches is
  \<open>Inl\<close>.
\<close>

type_synonym exchange = "frame option \<times> bool \<times> bool"

datatype wait_result = PW_exited | PW_timed_out | PW_interrupted

record client_io =
  io_out :: string
  io_err :: string
  io_sent :: "frame list"
  io_replies :: "exchange list"
  io_log :: "frame list"
  io_stop :: bool
  io_log_stop :: bool
  io_wait :: "int \<Rightarrow> wait_result"

definition put_out :: "string \<Rightarrow> client_io \<Rightarrow> client_io" where
  "put_out txt io = io\<lparr>io_out := io_out io @ txt\<rparr>"

definition put_err :: "string \<Rightarrow> client_io \<Rightarrow> client_io" where
  "put_err txt io = io\<lparr>io_err := io_err io @ txt\<rparr>"

definition request_reply :: "frame \<Rightarrow> client_io \<Rightarrow> exchange \<times> client_io" where
  "request_reply f io = (case io_replies io of
       [] \<Rightarrow> ((None, True, False), io\<lparr>io_sent := io_sent io @ [f]\<rparr>)
     | r # rs \<Rightarrow> (r, io\<lparr>io_sent := io_sent io @ [f], io_replies := rs, io_stop := io_stop io \<or> snd (snd r)\<rparr>))"

definition handle_response ::
  "renderers \<Rightarrow> string \<Rightarrow> list_render_options option \<Rightarrow> dependency_graph_render_options option \<Rightarrow> parsed_command \<Rightarrow> frame \<Rightarrow>
   client_io \<Rightarrow> (bool \<times> cli_response_result) \<times> client_io" where
  "handle_response rd ver lo go c f io = (case interpret_control_response rd ver lo go c f of
       Inl e \<Rightarrow> ((False, no_response), put_err (''pm: invalid response from pm_tiny: '' @ c_str (exn_what e) @ [newline]) io)
     | Inr r \<Rightarrow> ((rr_success r, r), put_err (c_str (rr_stderr r)) (put_out (c_str (rr_stdout r)) io)))"

type_synonym 'a client_op = "client_io \<Rightarrow> exn + 'a \<times> client_io"

definition ask ::
  "renderers \<Rightarrow> string \<Rightarrow> list_render_options option \<Rightarrow> dependency_graph_render_options option \<Rightarrow> parsed_command \<Rightarrow> start_request \<Rightarrow>
   (bool \<times> cli_response_result) client_op" where
  "ask rd ver lo go c q io = res_bind (request_frame c q) (\<lambda>f.
     case request_reply f io of
       ((None, closed, stopped), io1) \<Rightarrow> Inr ((False, no_response), io1)
     | ((Some p, closed, stopped), io1) \<Rightarrow> Inr (handle_response rd ver lo go c p io1))"

definition no_start :: start_request where
  "no_start = \<lparr>sq_mode = SM_existing, sq_name = [], sq_config = default_prog_cfg, sq_inherited_env = [], sq_show_log = False\<rparr>"

definition ansi_red :: string where "ansi_red = CHR 0x1B # ''[31m''"
definition ansi_reset :: string where "ansi_reset = CHR 0x1B # ''[0m''"

definition display_proc_infos :: "renderers \<Rightarrow> string \<Rightarrow> list_render_options \<Rightarrow> bool client_op" where
  "display_proc_infos rd ver opts io =
     res_bind (request_frame (default_command\<lparr>pc_kind := CK_list\<rparr>) no_start) (\<lambda>f.
     case request_reply f io of ((resp, closed, stopped), io1) \<Rightarrow>
       if closed then Inr (False, put_out (ansi_red @ ''Connection closed.'' @ ansi_reset @ [newline]) io1)
       else case resp of
         Some p \<Rightarrow> (case handle_response rd ver (Some opts) None (default_command\<lparr>pc_kind := CK_list\<rparr>) p io1 of
             ((ok, _), io2) \<Rightarrow> Inr (ok, io2))
       | None \<Rightarrow> Inr (False, if io_stop io1 then io1 else put_out (''no data read'' @ [newline]) io1))"

definition display_dependency_graph :: "renderers \<Rightarrow> string \<Rightarrow> dependency_graph_render_options \<Rightarrow> bool client_op" where
  "display_dependency_graph rd ver opts io =
     res_bind (request_frame (default_command\<lparr>pc_kind := CK_graph\<rparr>) no_start) (\<lambda>f.
     case request_reply f io of ((resp, closed, stopped), io1) \<Rightarrow>
       if closed then Inr (False, put_err (''Connection closed.'' @ [newline]) io1)
       else case resp of
         Some p \<Rightarrow> (case handle_response rd ver None (Some opts) (default_command\<lparr>pc_kind := CK_graph\<rparr>) p io1 of
             ((ok, _), io2) \<Rightarrow> Inr (ok, io2))
       | None \<Rightarrow> Inr (False, if io_stop io1 then io1 else put_err (''no data read'' @ [newline]) io1))"

text \<open>The list that follows a command that changed something, when it is wanted.\<close>

definition after_response ::
  "renderers \<Rightarrow> string \<Rightarrow> list_render_options \<Rightarrow> (bool \<times> cli_response_result) \<times> client_io \<Rightarrow> exn + bool \<times> client_io" where
  "after_response rd ver tty = (\<lambda>((ok, r), io).
     if \<not> ok then Inr (False, io)
     else if rr_post_list r
     then display_proc_infos rd ver (default_list_options\<lparr>lr_terminal_width := lr_terminal_width tty,
            lr_stdout_is_tty := lr_stdout_is_tty tty\<rparr>) io
     else Inr (True, io))"

text \<open>
  The log stream: messages come in frames, all but the last of a message with type 2; type 0 ends the stream.  \<open>log_text\<close>
  gives the text that is printed and the type of the last frame.
\<close>

fun log_text :: "frame list \<Rightarrow> int \<Rightarrow> string \<Rightarrow> exn + string \<times> int" where
  "log_text [] msg_type msg_content = Inr ([], msg_type)"
| "log_text (f # fs) msg_type msg_content =
     res_bind (rbind fget_i32 (\<lambda>ty. rbind fget_string (\<lambda>s. rreturn (ty, s))) f) (\<lambda>((ty, s), rest).
     if ty = 2 then log_text fs ty (msg_content @ s)
     else if ty = 0 then Inr (c_str (msg_content @ s), ty)
     else res_bind (log_text fs ty []) (\<lambda>(out, last). Inr (c_str (msg_content @ s) @ out, last)))"

definition loop_read_show_process_log :: "bool client_op" where
  "loop_read_show_process_log io =
     (if io_stop io then Inr (False, io)
      else res_bind (log_text (io_log io) 1 []) (\<lambda>(out, last).
        let io1 = put_out out (io\<lparr>io_stop := io_log_stop io\<rparr>) in Inr (\<not> io_stop io1 \<and> last = 0, io1)))"

definition stop_proc :: "renderers \<Rightarrow> string \<Rightarrow> list_render_options \<Rightarrow> string \<Rightarrow> bool \<Rightarrow> bool client_op" where
  "stop_proc rd ver tty nm no_list io =
     res_bind (ask rd ver None None (default_command\<lparr>pc_kind := CK_stop, pc_name := nm, pc_no_list := no_list\<rparr>) no_start io)
       (after_response rd ver tty)"

definition delete_prog :: "renderers \<Rightarrow> string \<Rightarrow> list_render_options \<Rightarrow> string \<Rightarrow> bool \<Rightarrow> bool client_op" where
  "delete_prog rd ver tty nm no_list io =
     res_bind (ask rd ver None None (default_command\<lparr>pc_kind := CK_remove, pc_name := nm, pc_no_list := no_list\<rparr>) no_start io)
       (after_response rd ver tty)"

definition pm_tiny_reload :: "renderers \<Rightarrow> string \<Rightarrow> list_render_options \<Rightarrow> bool \<Rightarrow> bool client_op" where
  "pm_tiny_reload rd ver tty no_list io =
     res_bind (ask rd ver None None (default_command\<lparr>pc_kind := CK_reload, pc_no_list := no_list\<rparr>) no_start io)
       (after_response rd ver tty)"

definition restart_prog :: "renderers \<Rightarrow> string \<Rightarrow> list_render_options \<Rightarrow> string \<Rightarrow> bool \<Rightarrow> bool \<Rightarrow> bool client_op" where
  "restart_prog rd ver tty nm show_log no_list io =
     res_bind (ask rd ver None None (default_command\<lparr>pc_kind := CK_restart, pc_name := nm, pc_show_log := show_log,
       pc_no_list := no_list\<rparr>) no_start io) (\<lambda>((ok, r), io1).
     if \<not> ok then Inr (False, io1)
     else if rr_stream_expected r then loop_read_show_process_log io1
     else after_response rd ver tty ((ok, r), io1))"

definition start_proc :: "renderers \<Rightarrow> string \<Rightarrow> start_request \<Rightarrow> bool client_op" where
  "start_proc rd ver q io =
     res_bind (ask rd ver None None (default_command\<lparr>pc_kind := CK_start, pc_start := default_start_options\<lparr>so_name := sq_name q,
       so_create := (sq_mode q = SM_create), so_show_log := sq_show_log q\<rparr>\<rparr>) q io) (\<lambda>((ok, r), io1).
     if \<not> ok then Inr (False, io1)
     else if rr_stream_expected r then loop_read_show_process_log io1
     else Inr (True, io1))"

definition simple_proc :: "renderers \<Rightarrow> string \<Rightarrow> parsed_command \<Rightarrow> bool client_op" where
  "simple_proc rd ver c io = res_bind (ask rd ver None None c no_start io) (\<lambda>((ok, r), io1). Inr (ok, io1))"

definition inspect_proc :: "renderers \<Rightarrow> string \<Rightarrow> string \<Rightarrow> bool client_op" where
  "inspect_proc rd ver nm = simple_proc rd ver (default_command\<lparr>pc_kind := CK_inspect, pc_name := nm\<rparr>)"

definition save_proc :: "renderers \<Rightarrow> string \<Rightarrow> bool client_op" where
  "save_proc rd ver = simple_proc rd ver (default_command\<lparr>pc_kind := CK_save\<rparr>)"

definition show_version :: "renderers \<Rightarrow> string \<Rightarrow> bool client_op" where
  "show_version rd ver = simple_proc rd ver (default_command\<lparr>pc_kind := CK_version\<rparr>)"

definition display_daemon_info :: "renderers \<Rightarrow> string \<Rightarrow> bool \<Rightarrow> bool client_op" where
  "display_daemon_info rd ver json = simple_proc rd ver (default_command\<lparr>pc_kind := CK_info, pc_info_json := json\<rparr>)"

definition show_prog_log :: "renderers \<Rightarrow> string \<Rightarrow> string \<Rightarrow> bool \<Rightarrow> bool client_op" where
  "show_prog_log rd ver nm history io =
     res_bind (ask rd ver None None (default_command\<lparr>pc_kind := CK_log, pc_name := nm, pc_log_history := history\<rparr>) no_start io)
     (\<lambda>((ok, r), io1).
     if \<not> ok \<or> \<not> rr_stream_expected r then Inr (False, io1) else loop_read_show_process_log io1)"

definition pm_tiny_quit :: "renderers \<Rightarrow> string \<Rightarrow> bool client_op" where
  "pm_tiny_quit rd ver io =
     res_bind (ask rd ver None None (default_command\<lparr>pc_kind := CK_quit\<rparr>) no_start io) (\<lambda>((ok, r), io1).
     if \<not> ok then Inr (False, io1)
     else let pid = rr_daemon_pid r in
       (case io_wait io1 pid of
          PW_exited \<Rightarrow> Inr (True, io1)
        | PW_timed_out \<Rightarrow> Inr (False, put_err (''pm: timed out after 30 seconds waiting for pm_tiny (pid '' @ int_to_string pid @
            '') to exit'' @ [newline] @ ''  hint: inspect the daemon process state and pm_tiny log for a blocked shutdown.'' @ [newline]) io1)
        | PW_interrupted \<Rightarrow> Inr (False, put_err (''pm: interrupted while waiting for pm_tiny (pid '' @ int_to_string pid @
            '') to exit'' @ [newline]) io1)))"

subsection \<open>The program\<close>

definition run_start :: "client_host \<Rightarrow> renderers \<Rightarrow> string \<Rightarrow> start_command_options \<Rightarrow> bool client_op" where
  "run_start h rd ver s io = (case build_start_request h s of
       Inl e \<Rightarrow> Inr (False, put_err e io)
     | Inr q \<Rightarrow> start_proc rd ver q io)"

fun run_command :: "client_host \<Rightarrow> renderers \<Rightarrow> string \<Rightarrow> list_render_options \<Rightarrow> command_kind \<Rightarrow> parsed_command \<Rightarrow> bool client_op" where
  "run_command h rd ver tty CK_list c io = display_proc_infos rd ver ((pc_list_options c)\<lparr>
     lr_terminal_width := lr_terminal_width tty, lr_stdout_is_tty := lr_stdout_is_tty tty\<rparr>) io"
| "run_command h rd ver tty CK_graph c io = display_dependency_graph rd ver ((pc_graph_options c)\<lparr>
     gr_stdout_is_tty := lr_stdout_is_tty tty\<rparr>) io"
| "run_command h rd ver tty CK_start c io = run_start h rd ver (pc_start c) io"
| "run_command h rd ver tty CK_stop c io = stop_proc rd ver tty (pc_name c) (pc_no_list c) io"
| "run_command h rd ver tty CK_restart c io = restart_prog rd ver tty (pc_name c) (pc_show_log c) (pc_no_list c) io"
| "run_command h rd ver tty CK_remove c io = delete_prog rd ver tty (pc_name c) (pc_no_list c) io"
| "run_command h rd ver tty CK_save c io = save_proc rd ver io"
| "run_command h rd ver tty CK_log c io = show_prog_log rd ver (pc_name c) (pc_log_history c) io"
| "run_command h rd ver tty CK_inspect c io = inspect_proc rd ver (pc_name c) io"
| "run_command h rd ver tty CK_reload c io = pm_tiny_reload rd ver tty (pc_no_list c) io"
| "run_command h rd ver tty CK_quit c io = pm_tiny_quit rd ver io"
| "run_command h rd ver tty CK_version c io = show_version rd ver io"
| "run_command h rd ver tty CK_info c io = display_daemon_info rd ver (pc_info_json c) io"
| "run_command h rd ver tty CK_help c io = Inr (True, io)"

text \<open>
  \<open>main\<close> from the arguments to the exit status.  \<open>connected\<close> is the result of \<open>connect_to_daemon\<close>, which reports its errors
  itself, and \<open>usage\<close> the text of \<open>command_usage\<close>.
\<close>

definition is_privilege_wrapper_executable :: "string \<Rightarrow> bool" where
  "is_privilege_wrapper_executable executable =
     (let basename = (case rfind CHR ''/'' executable of None \<Rightarrow> executable | Some i \<Rightarrow> drop (Suc i) executable)
      in basename = ''sudo'' \<or> basename = ''su'' \<or> basename = ''doas'')"

definition warn_privilege_wrapper :: "parsed_command \<Rightarrow> client_io \<Rightarrow> client_io" where
  "warn_privilege_wrapper c io =
     (if pc_kind c = CK_start \<and> so_create (pc_start c) \<and> is_privilege_wrapper_executable (so_executable (pc_start c))
      then put_err (''pm: warning: interactive privilege elevation is unsupported; run pm_tiny as root and use --user instead of `'' @
             c_str (so_executable (pc_start c)) @ ''`'' @ [newline]) io
      else io)"

definition cross_user_start :: "client_host \<Rightarrow> parsed_command \<Rightarrow> bool" where
  "cross_user_start h c \<longleftrightarrow>
     pc_kind c = CK_start \<and> so_create (pc_start c) \<and> so_run_as (pc_start c) \<noteq> [] \<and>
     CHR ''/'' \<notin> set (so_executable (pc_start c)) \<and>
     (case ch_user h (so_run_as (pc_start c)) of None \<Rightarrow> False | Some uid \<Rightarrow> uid \<noteq> ch_euid h)"

definition pm_main ::
  "client_host \<Rightarrow> renderers \<Rightarrow> string \<Rightarrow> string \<Rightarrow> list_render_options \<Rightarrow> bool \<Rightarrow> string list \<Rightarrow> client_io \<Rightarrow> exn + int \<times> client_io" where
  "pm_main h rd ver usage tty connected args io = (case parse_command_line args of
       Inl e \<Rightarrow> Inr (2, put_err (''pm: '' @ c_str e @ [newline, newline] @ usage) io)
     | Inr c \<Rightarrow>
         if pc_kind c = CK_help then Inr (0, put_out usage io)
         else let io0 = warn_privilege_wrapper c io in
           if cross_user_start h c
           then Inr (1, put_err (''pm: cross-user start requires executable containing `/`: `'' @
                  c_str (so_executable (pc_start c)) @ ''`'' @ [newline]) io0)
           else if \<not> connected then Inr (1, io0)
           else res_bind (run_command h rd ver tty (pc_kind c) c io0) (\<lambda>(ok, io1).
             Inr (if io_stop io1 then 130 else if ok then 0 else 1, io1)))"

end
