(* ===== verification/Cli_Correct.thy ===== *)
theory Cli_Correct
  imports Cli_Command
begin

section \<open>What the command line accepts\<close>

text \<open>
  Everything the parser accepts is well formed, and every set of options of \<open>start\<close> has a command line that the parser
  reads back.
\<close>

subsection \<open>Numbers\<close>

lemma nat_to_string_digits: "list_all is_dec_digit (nat_to_string n) \<and> digits_value (nat_to_string n) = int n \<and> nat_to_string n \<noteq> []"
proof (induction n rule: nat_to_string.induct)
  case (1 n)
  show ?case
  proof (cases "n < 10")
    case True
    then show ?thesis by (simp add: nat_to_string.simps [of n] is_dec_digit_def digits_value_def)
  next
    case False
    with 1 have IH: "list_all is_dec_digit (nat_to_string (n div 10))" "digits_value (nat_to_string (n div 10)) = int (n div 10)"
      by simp_all
    have "is_dec_digit (char_of (48 + n mod 10))" by (simp add: is_dec_digit_def)
    moreover have "digits_value (nat_to_string (n div 10) @ [char_of (48 + n mod 10)]) = int n"
      using IH(2) by (simp add: digits_value_def) presburger
    ultimately show ?thesis using False IH by (simp add: nat_to_string.simps [of n])
  qed
qed

lemma digit_char:
  assumes "is_dec_digit c"
  shows "c \<noteq> CHR ''-''" "c \<noteq> CHR ''+''" "\<not> is_space c" "c \<noteq> CHR 0x00"
  using assms by (auto simp: is_dec_digit_def is_space_def Let_def)

lemma takeWhile_digits: "list_all is_dec_digit ds \<Longrightarrow> takeWhile (\<lambda>c. c \<noteq> CHR 0x00) ds = ds"
  by (simp add: takeWhile_eq_all_conv list_all_iff digit_char(4))

lemma strtol_int_to_string: "in_i64 n \<Longrightarrow> strtol_whole (int_to_string n) = Some n"
proof -
  assume n: "in_i64 n"
  obtain d ds where nat: "nat_to_string (nat \<bar>n\<bar>) = d # ds" using nat_to_string_digits [of "nat \<bar>n\<bar>"] by (meson neq_Nil_conv)
  then have digits: "is_dec_digit d" "list_all is_dec_digit (d # ds)" "digits_value (d # ds) = \<bar>n\<bar>"
    using nat_to_string_digits [of "nat \<bar>n\<bar>"] by simp_all
  have tw: "takeWhile (\<lambda>c. c \<noteq> CHR 0x00) ds = ds" by (rule takeWhile_digits) (use digits(2) in simp)
  show ?thesis
  proof (cases "n < 0")
    case True
    then have "int_to_string n = CHR ''-'' # d # ds" using nat by (simp add: int_to_string_def)
    then show ?thesis using n True digits digit_char [OF digits(1)] by (simp add: tw strtol_whole_def Let_def is_space_def)
  next
    case False
    then have "int_to_string n = d # ds" using nat by (simp add: int_to_string_def)
    then show ?thesis using n False digits digit_char [OF digits(1)] by (simp add: tw strtol_whole_def Let_def)
  qed
qed

lemma int_to_string_no_zero: "CHR 0x00 \<notin> set (int_to_string n)"
  using nat_to_string_digits [of "nat n"] nat_to_string_digits [of "nat (- n)"]
  by (auto simp: int_to_string_def list_all_iff dest!: digit_char(4))

lemma parse_integer_to_string [simp]: "in_i32 n \<Longrightarrow> parse_integer (int_to_string n) = Some n"
proof -
  assume "in_i32 n"
  moreover from this have "in_i64 n" by (simp add: in_i32_def in_i64_def)
  ultimately show ?thesis by (simp add: parse_integer_def int_to_string_no_zero strtol_int_to_string)
qed

subsection \<open>Well-formed options\<close>

definition opts_ok :: "start_command_options \<Rightarrow> bool" where
  "opts_ok s \<longleftrightarrow>
     list_all in_i32 [so_kill_timeout_sec s, so_start_timeout s, so_heartbeat_timeout s, so_oom_score_adj s,
       so_restart_delay_ms s, so_restart_max_delay_ms s, so_restart_window_ms s, so_restart_max_attempts s,
       so_restart_reset_after_ms s] \<and>
     1 \<le> so_log_max_size_kb s \<and> so_log_max_size_kb s \<le> 1048576 \<and>
     0 \<le> so_log_archive_count s \<and> so_log_archive_count s \<le> 100 \<and>
     list_all (\<lambda>e. env_entry_error e = None) (so_env s) \<and>
     (so_log_mode_explicit s \<or> so_log_mode s = LM_split)"

lemma opts_ok_default: "opts_ok (default_start_options\<lparr>so_name := n\<rparr>)"
  by (simp add: opts_ok_def default_start_options_def in_i32_def)

lemma env_option_ok: "opts_ok s \<Longrightarrow> env_option s v = Inr s' \<Longrightarrow> opts_ok s'"
proof -
  assume ok: "opts_ok s" and eq: "env_option s v = Inr s'"
  then have "env_entry_error v = None" "s' = s\<lparr>so_env := so_env s @ [v]\<rparr>"
    by (auto simp: env_option_def env_entry_error_def split: if_splits)
  with ok show "opts_ok s'" by (simp add: opts_ok_def)
qed

lemma start_option_keeps: "opts_ok s \<Longrightarrow> option_keeps opts_ok rest (start_option opt rest s)"
  unfolding start_option_def
  by (intro option_keeps_rules; (erule (1) env_option_ok)?)
    (auto simp: opts_ok_def split: if_splits sum.splits option.splits)

lemma start_option_same_name: "option_keeps (\<lambda>s'. so_name s' = so_name s) rest (start_option opt rest s)"
  unfolding start_option_def
  by (intro option_keeps_rules) (auto simp: env_option_def split: if_splits sum.splits option.splits)

lemma start_options_ok:
  "start_options args s = Inr s' \<Longrightarrow> opts_ok s \<Longrightarrow> opts_ok s' \<and> so_name s' = so_name s"
proof (induction args s rule: start_options.induct)
  case (2 option rest s)
  show ?case
  proof (cases "option = ''--''")
    case True
    then show ?thesis using "2.prems" by (auto simp: opts_ok_def split: list.splits)
  next
    case False
    then obtain s2 rest' where step: "start_option option rest s = Inr (s2, rest')" "start_options rest' s2 = Inr s'"
      using "2.prems"(1) by (auto split: sum.splits)
    then have "opts_ok s2" "so_name s2 = so_name s"
      using start_option_keeps [OF "2.prems"(2), of rest option] start_option_same_name [of s rest option]
      by (simp_all add: option_keeps_def)
    then show ?thesis using "2.IH" [OF False step(1) refl step(2)] by simp
  qed
qed simp


subsection \<open>Commands\<close>

lemma named_arguments_keep:
  "named_arguments candidate args c = Inr c' \<Longrightarrow>
   pc_kind c' = pc_kind c \<and> pc_name c' = pc_name c \<and> pc_list_options c' = pc_list_options c \<and>
   pc_graph_options c' = pc_graph_options c \<and> (pc_show_log c' \<longrightarrow> pc_show_log c \<or> fst (snd (snd candidate))) \<and>
   (pc_log_history c' \<longrightarrow> pc_log_history c \<or> snd (snd (snd (snd candidate))))"
  by (induction candidate args c rule: named_arguments.induct) (auto split: if_splits)

definition command_ok :: "string list \<Rightarrow> parsed_command \<Rightarrow> bool" where
  "command_ok args c \<longleftrightarrow>
     (pc_kind c = CK_start \<longrightarrow>
        opts_ok (pc_start c) \<and> so_name (pc_start c) = args ! 2 \<and> args ! 2 \<noteq> [] \<and> hd (args ! 2) \<noteq> CHR ''-'' \<and>
        (so_create (pc_start c) \<or> plain_start (pc_start c))) \<and>
     (pc_kind c \<in> {CK_stop, CK_restart, CK_remove, CK_log, CK_inspect} \<longrightarrow> 2 < length args \<and> pc_name c = args ! 2) \<and>
     (pc_show_log c \<longrightarrow> pc_kind c = CK_restart) \<and> (pc_log_history c \<longrightarrow> pc_kind c = CK_log) \<and>
     \<not> (lr_wide (pc_list_options c) \<and> lr_json (pc_list_options c)) \<and>
     \<not> (gr_json (pc_graph_options c) \<and> gr_dot (pc_graph_options c))"

lemmas default_sel = default_command_def default_list_options_def default_graph_options_def default_start_options_def

lemma parse_start_ok:
  assumes "parse_start args = Inr c"
  shows "command_ok args c"
proof -
  obtain s where s: "start_options (drop 3 args) (default_start_options\<lparr>so_name := args ! 2\<rparr>) = Inr s"
    "so_create s \<or> plain_start s" "c = default_command\<lparr>pc_kind := CK_start, pc_start := s\<rparr>"
    and name: "args ! 2 \<noteq> []" "args ! 2 ! 0 \<noteq> CHR ''-''"
    using assms by (auto simp: parse_start_def res_bind_eq_Inr split: if_splits)
  have "opts_ok s" "so_name s = args ! 2" using start_options_ok [OF s(1) opts_ok_default] by simp_all
  then show ?thesis using s(2,3) name by (simp add: command_ok_def default_sel hd_conv_nth)
qed

lemma parse_named_ok:
  assumes "candidate \<in> set named_commands" "parse_named candidate args = Inr c"
  shows "command_ok args c"
proof -
  let ?c0 = "default_command\<lparr>pc_kind := fst (snd candidate), pc_name := args ! 2\<rparr>"
  have len: "2 < length args" and eq: "named_arguments candidate (drop 3 args) ?c0 = Inr c"
    using assms(2) by (auto simp: parse_named_def split: if_splits)
  show ?thesis using named_arguments_keep [OF eq] assms(1) len
    by (auto simp: command_ok_def named_commands_def default_sel)
qed


lemma parse_plain_ok:
  "kind \<in> {CK_save, CK_reload, CK_quit} \<Longrightarrow> parse_plain name kind args = Inr c \<Longrightarrow> command_ok args c"
  by (auto simp: parse_plain_def command_ok_def default_sel split: if_splits)

lemma parse_words_ok:
  assumes "(case List.find (\<lambda>candidate. fst candidate = n) named_commands of
        Some candidate \<Rightarrow> parse_named candidate args
      | None \<Rightarrow> (case List.find (\<lambda>candidate. fst candidate = n) plain_commands of
           Some (_, kind) \<Rightarrow> parse_plain n kind args
         | None \<Rightarrow> Inl e)) = Inr c"
  shows "command_ok args c"
proof (cases "List.find (\<lambda>candidate. fst candidate = n) named_commands")
  case (Some candidate)
  then have "candidate \<in> set named_commands" by (metis find_Some_iff nth_mem)
  then show ?thesis using assms Some parse_named_ok by simp
next
  case None
  then obtain m kind where pl: "List.find (\<lambda>candidate. fst candidate = n) plain_commands = Some (m, kind)"
    "parse_plain n kind args = Inr c"
    using assms by (auto split: option.splits)
  then have "(m, kind) \<in> set plain_commands" by (metis find_Some_iff nth_mem)
  then have "kind \<in> {CK_save, CK_reload, CK_quit}" by (auto simp: plain_commands_def)
  then show ?thesis using pl(2) parse_plain_ok by auto
qed

lemma command_ok_if:
  "(x = Inr c \<Longrightarrow> command_ok args c) \<Longrightarrow> (y = Inr c \<Longrightarrow> command_ok args c) \<Longrightarrow>
   (if b then x else y) = Inr c \<Longrightarrow> command_ok args c"
  by (simp split: if_splits)

lemma command_ok_simple:
  assumes "kind \<notin> {CK_start, CK_stop, CK_restart, CK_remove, CK_log, CK_inspect}"
  shows "command_ok args (default_command\<lparr>pc_kind := kind\<rparr>)"
    and "command_ok args (default_command\<lparr>pc_kind := kind, pc_info_json := j\<rparr>)"
    and "\<not> (lr_wide lo \<and> lr_json lo) \<Longrightarrow> command_ok args (default_command\<lparr>pc_kind := kind, pc_list_options := lo\<rparr>)"
    and "\<not> (gr_json go \<and> gr_dot go) \<Longrightarrow> command_ok args (default_command\<lparr>pc_kind := kind, pc_graph_options := go\<rparr>)"
  using assms by (auto simp: command_ok_def default_sel)

lemma parse_command_ok:
  assumes "parse_command_line args = Inr c"
  shows "command_ok args c"
proof -
  define n where "n = lowercase (args ! 1)"
  show ?thesis using assms unfolding parse_command_line_def Let_def n_def [symmetric]
  proof (elim command_ok_if [rotated 2])
  qed (auto simp: command_ok_simple res_bind_eq_Inr intro: parse_start_ok parse_words_ok split: if_splits)
qed

lemma command_line_sound:
  assumes "parse_command_line args = Inr c"
  shows "2 \<le> length args \<and> command_ok args c"
proof
  show "2 \<le> length args" using assms by (cases "length args < 2") (simp_all add: parse_command_line_def)
qed (rule parse_command_ok [OF assms])

subsection \<open>A command line for every set of options\<close>

definition start_arguments :: "start_command_options \<Rightarrow> string list" where
  "start_arguments s =
     [''--cwd'', so_cwd s, ''--kill-timeout'', int_to_string (so_kill_timeout_sec s), ''--user'', so_run_as s] @
     concat (map (\<lambda>e. [''--env'', e]) (so_env s)) @ concat (map (\<lambda>d. [''--depends-on'', d]) (so_depends_on s)) @
     [''--start-timeout'', int_to_string (so_start_timeout s),
      ''--failure-action'', failure_action_to_str (so_failure_action s),
      ''--heartbeat-timeout'', int_to_string (so_heartbeat_timeout s),
      ''--oom-score-adj'', int_to_string (so_oom_score_adj s),
      if so_daemon s then ''--daemon'' else ''--no-daemon'', if so_pty s then ''--pty'' else ''--no-pty''] @
     (if so_show_log s then [''--log''] else []) @
     (if so_log_mode_explicit s then [''--log-mode'', log_mode_name (so_log_mode s)] else []) @
     [''--log-dir'', so_log_dir s, ''--log-file-name'', so_log_file_name s,
      ''--log-max-size-kb'', int_to_string (so_log_max_size_kb s),
      ''--log-archive-count'', int_to_string (so_log_archive_count s),
      ''--restart-delay-ms'', int_to_string (so_restart_delay_ms s),
      ''--restart-max-delay-ms'', int_to_string (so_restart_max_delay_ms s),
      ''--restart-window-ms'', int_to_string (so_restart_window_ms s),
      ''--restart-max-attempts'', int_to_string (so_restart_max_attempts s),
      ''--restart-reset-after-ms'', int_to_string (so_restart_reset_after_ms s),
      ''--'', so_executable s] @ so_args s"

lemma require_value_Cons [simp]: "require_value opt (v # rest) k = res_bind (k v) (\<lambda>o'. Inr (o', rest))"
  by (simp add: require_value_def)

lemma require_integer_Cons [simp]:
  "in_i32 n \<Longrightarrow> require_integer opt (int_to_string n # rest) k = res_bind (k n) (\<lambda>o'. Inr (o', rest))"
  by (simp add: require_integer_def)

lemma start_options_step:
  "opt \<noteq> ''--'' \<Longrightarrow> start_option opt rest s = Inr (s2, rest') \<Longrightarrow> start_options (opt # rest) s = start_options rest' s2"
  by simp

lemma failure_action_roundtrip [simp]: "str_to_failure_action (failure_action_to_str a) = Inr a"
  by (cases a) (simp_all add: str_to_failure_action_def)

lemma log_mode_roundtrip [simp]: "parse_log_mode (log_mode_name m) = Some m"
  by (cases m) (simp_all add: parse_log_mode_def)

lemma start_options_env:
  "list_all (\<lambda>e. env_entry_error e = None) es \<Longrightarrow>
   start_options (concat (map (\<lambda>e. [''--env'', e]) es) @ rest) s = start_options rest (s\<lparr>so_env := so_env s @ es\<rparr>)"
proof (induction es arbitrary: s)
  case (Cons e es)
  have "start_option ''--env'' (e # rest') s = Inr (s\<lparr>so_env := so_env s @ [e]\<rparr>, rest')" for rest'
    using Cons.prems by (auto simp: start_option_def env_option_def env_entry_error_def split: if_splits)
  then show ?case using Cons by (simp add: start_options_step)
qed simp

lemma start_options_depends:
  "start_options (concat (map (\<lambda>d. [''--depends-on'', d]) ds) @ rest) s = start_options rest (s\<lparr>so_depends_on := so_depends_on s @ ds\<rparr>)"
proof (induction ds arbitrary: s)
  case (Cons d ds)
  have "start_option ''--depends-on'' (d # rest') s = Inr (s\<lparr>so_depends_on := so_depends_on s @ [d]\<rparr>, rest')" for rest'
    by (simp add: start_option_def)
  then show ?case using Cons by (simp add: start_options_step)
qed simp

lemma start_options_values:
  "start_options (''--cwd'' # v # rest) s = start_options rest (s\<lparr>so_cwd := v\<rparr>)"
  "start_options (''--user'' # v # rest) s = start_options rest (s\<lparr>so_run_as := v\<rparr>)"
  "start_options (''--failure-action'' # failure_action_to_str a # rest) s = start_options rest (s\<lparr>so_failure_action := a\<rparr>)"
  "start_options (''--log-mode'' # log_mode_name m # rest) s = start_options rest (s\<lparr>so_log_mode := m, so_log_mode_explicit := True\<rparr>)"
  "start_options (''--log-dir'' # v # rest) s = start_options rest (s\<lparr>so_log_dir := v\<rparr>)"
  "start_options (''--log-file-name'' # v # rest) s = start_options rest (s\<lparr>so_log_file_name := v\<rparr>)"
  by (simp_all add: start_option_def)

lemma start_options_integers:
  assumes "in_i32 n"
  shows "start_options (''--kill-timeout'' # int_to_string n # rest) s = start_options rest (s\<lparr>so_kill_timeout_sec := n\<rparr>)"
  "start_options (''--start-timeout'' # int_to_string n # rest) s = start_options rest (s\<lparr>so_start_timeout := n\<rparr>)"
  "start_options (''--heartbeat-timeout'' # int_to_string n # rest) s = start_options rest (s\<lparr>so_heartbeat_timeout := n\<rparr>)"
  "start_options (''--oom-score-adj'' # int_to_string n # rest) s = start_options rest (s\<lparr>so_oom_score_adj := n\<rparr>)"
  "start_options (''--restart-delay-ms'' # int_to_string n # rest) s = start_options rest (s\<lparr>so_restart_delay_ms := n\<rparr>)"
  "start_options (''--restart-max-delay-ms'' # int_to_string n # rest) s = start_options rest (s\<lparr>so_restart_max_delay_ms := n\<rparr>)"
  "start_options (''--restart-window-ms'' # int_to_string n # rest) s = start_options rest (s\<lparr>so_restart_window_ms := n\<rparr>)"
  "start_options (''--restart-max-attempts'' # int_to_string n # rest) s = start_options rest (s\<lparr>so_restart_max_attempts := n\<rparr>)"
  "start_options (''--restart-reset-after-ms'' # int_to_string n # rest) s = start_options rest (s\<lparr>so_restart_reset_after_ms := n\<rparr>)"
  using assms by (simp_all add: start_option_def)

lemma start_options_limits:
  "1 \<le> n \<Longrightarrow> n \<le> 1048576 \<Longrightarrow>
   start_options (''--log-max-size-kb'' # int_to_string n # rest) s = start_options rest (s\<lparr>so_log_max_size_kb := n\<rparr>)"
  "0 \<le> n \<Longrightarrow> n \<le> 100 \<Longrightarrow>
   start_options (''--log-archive-count'' # int_to_string n # rest) s = start_options rest (s\<lparr>so_log_archive_count := n\<rparr>)"
  by (simp_all add: start_option_def in_i32_def)

lemma start_options_flags:
  "start_options ((if b then ''--daemon'' else ''--no-daemon'') # rest) s = start_options rest (s\<lparr>so_daemon := b\<rparr>)"
  "start_options ((if b then ''--pty'' else ''--no-pty'') # rest) s = start_options rest (s\<lparr>so_pty := b\<rparr>)"
  "start_options (''--log'' # rest) s = start_options rest (s\<lparr>so_show_log := True\<rparr>)"
  "start_options (''--'' # exe # rest) s = Inr (s\<lparr>so_create := True, so_executable := exe, so_args := rest\<rparr>)"
  by (simp_all add: start_option_def)


lemmas start_options_read = start_options_values start_options_integers start_options_limits start_options_flags
  start_options_env start_options_depends

lemma start_options_all:
  assumes "opts_ok s" "so_create s"
  shows "start_options (start_arguments s) (default_start_options\<lparr>so_name := so_name s\<rparr>) = Inr s"
proof -
  have ints: "in_i32 (so_kill_timeout_sec s)" "in_i32 (so_start_timeout s)" "in_i32 (so_heartbeat_timeout s)" "in_i32 (so_oom_score_adj s)"
    "in_i32 (so_restart_delay_ms s)" "in_i32 (so_restart_max_delay_ms s)" "in_i32 (so_restart_window_ms s)"
    "in_i32 (so_restart_max_attempts s)" "in_i32 (so_restart_reset_after_ms s)"
    and limits: "1 \<le> so_log_max_size_kb s" "so_log_max_size_kb s \<le> 1048576" "0 \<le> so_log_archive_count s" "so_log_archive_count s \<le> 100"
    and env: "list_all (\<lambda>e. env_entry_error e = None) (so_env s)" and mode: "so_log_mode_explicit s \<or> so_log_mode s = LM_split"
    using assms(1) by (simp_all add: opts_ok_def)
  note read = start_options_values start_options_flags start_options_depends start_options_integers ints start_options_limits limits
    start_options_env [OF env]
  show ?thesis unfolding start_arguments_def
    by (cases "so_show_log s"; cases "so_log_mode_explicit s")
      (use assms(2) mode in \<open>simp_all only: append_Cons append_Nil append_assoc if_True if_False read,
         simp_all add: default_start_options_def\<close>)
qed

lemma start_command_roundtrip:
  assumes "opts_ok s" "so_create s" "so_name s \<noteq> []" "hd (so_name s) \<noteq> CHR ''-''"
  shows "parse_command_line (prog # ''start'' # so_name s # start_arguments s) =
     Inr (default_command\<lparr>pc_kind := CK_start, pc_start := s\<rparr>)"
proof -
  have "lowercase ''start'' = ''start''" by code_simp
  then have "parse_command_line (prog # ''start'' # so_name s # start_arguments s) = parse_start (prog # ''start'' # so_name s # start_arguments s)"
    by (simp add: parse_command_line_def)
  also have "\<dots> = Inr (default_command\<lparr>pc_kind := CK_start, pc_start := s\<rparr>)"
    using assms start_options_all [OF assms(1,2)] by (simp add: parse_start_def hd_conv_nth numeral_eq_Suc)
  finally show ?thesis .
qed

text \<open>
  C28: the command line is read correctly.  What is accepted is well formed: \<open>start\<close> has a name that is no option, numbers
  that fit an \<open>int\<close>, log limits in their ranges, explicit environment entries that the daemon accepts, and definition options
  only together with an executable; named commands carry the name they were given, and flags appear only where they mean
  something.  And every set of options that creates a program has a command line: the parser reads the printed options
  back exactly, whatever the program's own arguments look like.
\<close>

theorem command_line_correct:
  "(parse_command_line args = Inr c \<longrightarrow> 2 \<le> length args \<and> command_ok args c) \<and>
   (opts_ok s \<and> so_create s \<and> so_name s \<noteq> [] \<and> hd (so_name s) \<noteq> CHR ''-'' \<longrightarrow>
      parse_command_line (prog # ''start'' # so_name s # start_arguments s) =
        Inr (default_command\<lparr>pc_kind := CK_start, pc_start := s\<rparr>))"
  using command_line_sound start_command_roundtrip by blast

theorem command_line_correct_witness:
  "command_ok [''pm'', ''Stop'', ''web''] (default_command\<lparr>pc_kind := CK_stop, pc_name := ''web''\<rparr>) \<and>
   parse_command_line (''pm'' # ''start'' # ''db'' # start_arguments (default_start_options\<lparr>so_name := ''db'', so_create := True,
       so_executable := ''db'', so_args := [''--'', ''--cwd''], so_env := [''A='']\<rparr>)) =
     Inr (default_command\<lparr>pc_kind := CK_start, pc_start := default_start_options\<lparr>so_name := ''db'', so_create := True,
       so_executable := ''db'', so_args := [''--'', ''--cwd''], so_env := [''A='']\<rparr>\<rparr>)"
proof -
  let ?s = "default_start_options\<lparr>so_name := ''db'', so_create := True, so_executable := ''db'', so_args := [''--'', ''--cwd''], so_env := [''A='']\<rparr>"
  have "parse_command_line [''pm'', ''Stop'', ''web''] = Inr (default_command\<lparr>pc_kind := CK_stop, pc_name := ''web''\<rparr>)" by code_simp
  moreover have "opts_ok ?s" by (simp add: opts_ok_def default_start_options_def in_i32_def env_entry_error_def)
  ultimately show ?thesis
    using command_line_correct [of "[''pm'', ''Stop'', ''web'']" "default_command\<lparr>pc_kind := CK_stop, pc_name := ''web''\<rparr>" ?s "''pm''"]
    by simp
qed

end
