(* ===== verification/Cli_End_To_End.thy ===== *)
theory Cli_End_To_End
  imports Cli_Client Cli_Correct
begin

section \<open>From the command line to the daemon and back\<close>

text \<open>
  The client and the daemon fit together: a request is dispatched to the handler its command line asked for, with the
  options given there, and the reply and the log stream come out on the terminal.
\<close>

subsection \<open>Requests\<close>

definition named_kinds :: "command_kind set" where
  "named_kinds = {CK_stop, CK_restart, CK_remove, CK_log, CK_inspect}"

text \<open>What the daemon is to do for a command; \<open>payload\<close> is the rest of the request, which \<open>start\<close> and \<open>log\<close> read themselves.\<close>

fun requested_action ::
  "host \<Rightarrow> daemon_facts \<Rightarrow> prog_cfg_load_result_t \<Rightarrow> nat \<Rightarrow> frame \<Rightarrow> parsed_command \<Rightarrow> command_kind \<Rightarrow> pm_tiny_server_t \<Rightarrow> pm_tiny_server_t" where
  "requested_action h df loaded sid payload c CK_list s = emit [Out_frame sid (make_prog_info_data h s)] s"
| "requested_action h df loaded sid payload c CK_graph s = emit [Out_frame sid (make_prog_info_data h s)] s"
| "requested_action h df loaded sid payload c CK_info s = emit [Out_frame sid (make_daemon_info_data h df s)] s"
| "requested_action h df loaded sid payload c CK_start s =
     (case server_exiting sid s of Some s1 \<Rightarrow> s1 | None \<Rightarrow> handle_cmd_start h sid payload s)"
| "requested_action h df loaded sid payload c CK_stop s = handle_stop h sid (pc_name c) s"
| "requested_action h df loaded sid payload c CK_restart s = handle_restart h sid (pc_name c) (if pc_show_log c then 1 else 0) s"
| "requested_action h df loaded sid payload c CK_remove s = handle_remove h sid (pc_name c) s"
| "requested_action h df loaded sid payload c CK_save s = handle_save sid s"
| "requested_action h df loaded sid payload c CK_log s = handle_log sid payload s"
| "requested_action h df loaded sid payload c CK_inspect s = handle_cmd_inspect h sid (pc_name c) s"
| "requested_action h df loaded sid payload c CK_reload s = handle_reload h loaded sid s"
| "requested_action h df loaded sid payload c CK_quit s = handle_quit h sid s"
| "requested_action h df loaded sid payload c CK_version s =
     emit [Out_frame sid (reply_frame 0 ''success'' [fappend_string (df_version df)])] s"
| "requested_action h df loaded sid payload c CK_help s = s"

definition request_ok :: "parsed_command \<Rightarrow> start_request \<Rightarrow> bool" where
  "request_ok c q \<longleftrightarrow> pc_kind c \<noteq> CK_help \<and>
     (pc_kind c \<in> named_kinds \<longrightarrow> pc_name c \<noteq> [] \<and> ok_string (pc_name c)) \<and> (pc_kind c = CK_start \<longrightarrow> ok_start_request q)"

fun request_command :: "command_kind \<Rightarrow> control_command" where
  "request_command CK_stop = CC_stop"
| "request_command CK_start = CC_start"
| "request_command CK_save = CC_save"
| "request_command CK_remove = CC_remove"
| "request_command CK_restart = CC_restart"
| "request_command CK_version = CC_version"
| "request_command CK_log = CC_log"
| "request_command CK_inspect = CC_inspect"
| "request_command CK_reload = CC_reload"
| "request_command CK_quit = CC_quit"
| "request_command CK_info = CC_info"
| "request_command _ = CC_list"

fun request_bytes :: "command_kind \<Rightarrow> parsed_command \<Rightarrow> start_request \<Rightarrow> frame" where
  "request_bytes CK_stop c q = enc_string (pc_name c)"
| "request_bytes CK_remove c q = enc_string (pc_name c)"
| "request_bytes CK_inspect c q = enc_string (pc_name c)"
| "request_bytes CK_restart c q = enc_string (pc_name c) @ enc_i32 (if pc_show_log c then 1 else 0)"
| "request_bytes CK_log c q = enc_string (pc_name c) @ enc_i32 1 @ enc_i32 (if pc_log_history c then 1 else 0)"
| "request_bytes CK_start c q = enc_start_request q"
| "request_bytes _ c q = []"

lemma in_i32_flag [simp]: "in_i32 1" "in_i32 0" "in_i32 (if b then 1 else 0)"
  by (simp_all add: in_i32_def)

lemma request_frame_bytes:
  assumes "request_ok c q"
  shows "request_frame c q = Inr (ucast (control_command_code (request_command (pc_kind c))) # request_bytes (pc_kind c) c q)"
  using assms
  by (cases "pc_kind c")
    (simp_all add: request_ok_def named_kinds_def request_frame_def primitive_puts start_request.payload_put
      append_program_log_request_def program_log_request_schema_version_def)

lemma request_type: "ucast (ucast (control_command_code k) :: byte) = control_command_code k"
  by (cases k) simp_all

lemma request_message:
  assumes "request_ok c q" "request_frame c q = Inr f"
  shows "command_message f rid flags ses =
    \<lparr>pm_type = control_command_code (request_command (pc_kind c)), pm_flags = flags,
     pm_request_id = (if rid = 0 then s_next_id ses else rid), pm_payload = request_bytes (pc_kind c) c q\<rparr>"
  using assms(2) [unfolded request_frame_bytes [OF assms(1)]] by (auto simp: command_message_def request_type)

lemma get_string_enc: "ok_string n \<Longrightarrow> fget_string (enc_string n @ r) = Inr (n, r)" "ok_string n \<Longrightarrow> fget_string (enc_string n) = Inr (n, [])"
  using str.get_iff [of "enc_string n @ r" n r] str.get_iff [of "enc_string n" n "[]"] by simp_all

lemma get_i32_enc: "in_i32 n \<Longrightarrow> fget_i32 (enc_i32 n @ r) = Inr (n, r)" "in_i32 n \<Longrightarrow> fget_i32 (enc_i32 n) = Inr (n, [])"
  using i32.get_iff [of "enc_i32 n @ r" n r] i32.get_iff [of "enc_i32 n" n "[]"] by simp_all

lemma request_decoded:
  assumes "request_ok c q"
  shows "decode_control_request \<lparr>pm_type = control_command_code (request_command (pc_kind c)), pm_flags = flags,
       pm_request_id = rid, pm_payload = request_bytes (pc_kind c) c q\<rparr> =
     \<lparr>dc_success = True, dc_command = request_command (pc_kind c),
      dc_name = (if pc_kind c \<in> named_kinds then pc_name c else []), dc_error = []\<rparr>"
  using assms
  by (cases "pc_kind c")
    (simp_all add: decode_control_request_def control_command_of_code request_ok_def named_kinds_def get_string_enc
      del: control_command_code.simps)

lemma dispatch_request:
  assumes "request_ok c q"
  shows "dispatch_message h df loaded \<lparr>pm_type = control_command_code (request_command (pc_kind c)), pm_flags = flags,
       pm_request_id = rid, pm_payload = request_bytes (pc_kind c) c q\<rparr> sid s =
     requested_action h df loaded sid (request_bytes (pc_kind c) c q) c (pc_kind c) s"
proof -
  have restart: "pc_kind c = CK_restart \<Longrightarrow> rbind fget_string (\<lambda>nm. fget_i32) (request_bytes (pc_kind c) c q) =
      Inr (if pc_show_log c then 1 else 0, [])"
    using assms by (simp add: request_ok_def named_kinds_def rbind_def get_string_enc get_i32_enc)
  show ?thesis
    using request_decoded [OF assms, of flags rid] restart assms
    by (cases "pc_kind c") (simp_all add: dispatch_message_def handle_frame_def Let_def named_kinds_def request_ok_def
        del: control_command_code.simps)
qed

lemma log_request_read:
  assumes "ok_string n" "n \<noteq> []"
  shows "read_program_log_request (enc_string n @ enc_i32 1 @ enc_i32 (if history then 1 else 0)) =
     Inr \<lparr>lq_name = n, lq_mode = (if history then LR_history else LR_live)\<rparr>"
proof -
  have ne: "enc_i32 1 @ enc_i32 (if history then 1 else 0) \<noteq> []"
    using get_i32_enc(1) [of 1 "[]"] by (auto simp: enc_i32_def be_bytes_def)
  show ?thesis using assms ne
    by (auto simp: read_program_log_request_def program_log_request_reader_def read_payload_def rbind_enc rbind_def
        get_string_enc get_i32_enc rguard_def rguard_end_def rreturn_def program_log_request_schema_version_def
        log_request_mode_of_def)
qed


lemma client_request_dispatched:
  assumes "request_ok c q"
  shows "\<exists>f. request_frame c q = Inr f \<and>
     dispatch_message h df loaded (command_message f rid flags ses) sid s = requested_action h df loaded sid (tl f) c (pc_kind c) s \<and>
     (pc_kind c = CK_start \<longrightarrow> read_start_request (tl f) = Inr q) \<and>
     (pc_kind c = CK_log \<longrightarrow> read_program_log_request (tl f) =
        Inr \<lparr>lq_name = pc_name c, lq_mode = (if pc_log_history c then LR_history else LR_live)\<rparr>)"
proof -
  let ?f = "ucast (control_command_code (request_command (pc_kind c))) # request_bytes (pc_kind c) c q"
  have "pc_kind c = CK_start \<longrightarrow> read_start_request (request_bytes (pc_kind c) c q) = Inr q"
    using assms by (simp add: request_ok_def start_request.payload_iff)
  moreover have "pc_kind c = CK_log \<longrightarrow> read_program_log_request (request_bytes (pc_kind c) c q) =
      Inr \<lparr>lq_name = pc_name c, lq_mode = (if pc_log_history c then LR_history else LR_live)\<rparr>"
    using assms log_request_read [of "pc_name c" "pc_log_history c"] by (simp add: request_ok_def named_kinds_def)
  ultimately show ?thesis
    using request_frame_bytes [OF assms] request_message [OF assms request_frame_bytes [OF assms]] dispatch_request [OF assms]
    by (intro exI [of _ ?f]) simp
qed

subsection \<open>Starting a program\<close>

definition start_fits :: "start_request \<Rightarrow> bool" where
  "start_fits q \<longleftrightarrow> ok_string (sq_name q) \<and>
     list_all ok_string [cfg_cwd (sq_config q), cfg_executable (sq_config q), cfg_run_as (sq_config q),
       cfg_log_dir (sq_config q), cfg_log_file_name (sq_config q)] \<and>
     list_all (ok_strings max_start_items) [cfg_args (sq_config q), cfg_env_vars (sq_config q), cfg_depends_on (sq_config q),
       sq_inherited_env q]"

definition start_limits :: "prog_cfg_t \<Rightarrow> bool" where
  "start_limits cfg \<longleftrightarrow> cfg_cwd cfg \<noteq> [] \<and> 1 \<le> cfg_kill_timeout_s cfg \<and>
     -1000 \<le> cfg_oom_score_adj cfg \<and> cfg_oom_score_adj cfg \<le> 1000 \<and>
     0 \<le> cfg_restart_delay_ms cfg \<and> cfg_restart_delay_ms cfg \<le> cfg_restart_max_delay_ms cfg \<and>
     1 \<le> cfg_restart_window_ms cfg \<and> 0 \<le> cfg_restart_max_attempts cfg \<and> 0 \<le> cfg_restart_reset_after_ms cfg"

lemma absolute_leaf_nonempty: "absolute_path_preserving_leaf h p = Inr r \<Longrightarrow> r \<noteq> []"
  by (auto simp: absolute_path_preserving_leaf_def split: prod.splits if_splits sum.splits)

lemma resolve_nonempty: "resolve_start_executable h input cwd = Inr r \<Longrightarrow> r \<noteq> []"
  by (auto simp: resolve_start_executable_def Let_def res_bind_eq_Inr dest: absolute_leaf_nonempty
      split: if_splits option.splits)

lemma pm_error_Inr [simp]: "pm_error r = Inr x \<longleftrightarrow> r = Inr x"
  by (cases r) (simp_all add: pm_error_def)

lemma build_create:
  assumes "build_start_request h s = Inr q" "so_create s"
  obtains cwd executable where "q = \<lparr>sq_mode = SM_create, sq_name = so_name s, sq_config = start_config s cwd executable (chosen_log_mode s),
      sq_inherited_env = filter (\<lambda>e. take 8 e \<noteq> ''PM_TINY_'') (ch_environ h), sq_show_log = so_show_log s\<rparr>"
    "executable \<noteq> []" "\<not> (so_pty s \<and> chosen_log_mode s = LM_split)"
  using assms that by (auto simp: build_start_request_def res_bind_eq_Inr dest: resolve_nonempty split: option.splits if_splits)

lemma env_entries_ok: "list_all (\<lambda>e. env_entry_error e = None) es \<Longrightarrow> filter (\<lambda>e. env_entry_error e \<noteq> None) es = []"
  by (simp add: filter_empty_conv list_all_iff)

lemma validate_limits:
  assumes "opts_ok s" "so_name s \<noteq> []" "executable \<noteq> []" "\<not> (so_pty s \<and> mode = LM_split)"
  shows "validate_start_config (start_config s cwd executable mode) = None \<longleftrightarrow> start_limits (start_config s cwd executable mode)"
proof -
  have "filter (\<lambda>e. env_entry_error e \<noteq> None) (so_env s) = []" using assms(1) by (intro env_entries_ok) (simp add: opts_ok_def)
  then show ?thesis using assms by (auto simp: validate_start_config_def start_limits_def start_config_def opts_ok_def)
qed

lemma start_config_ok:
  assumes "opts_ok s" "ok_string (so_name s)" "list_all ok_string [cwd, executable, so_run_as s, so_log_dir s, so_log_file_name s]"
    and "list_all (ok_strings max_start_items) [so_args s, so_env s, so_depends_on s]"
  shows "ok_prog_cfg (start_config s cwd executable mode)"
  using assms by (simp add: ok_prog_cfg_def start_config_def opts_ok_def default_prog_cfg_def in_i32_def)

lemma default_cfg_ok: "ok_prog_cfg default_prog_cfg"
  by (simp add: ok_prog_cfg_def default_prog_cfg_def in_i32_def ok_string_def ok_strings_def max_start_items_def)

text \<open>
  A \<open>start\<close> that the command line accepted and that fits the protocol is well formed for the daemon exactly when the
  numbers of a new definition are within the limits the daemon checks; everything else the client has checked.
\<close>

lemma start_command_accepted:
  assumes "parse_command_line args = Inr c" "pc_kind c = CK_start"
    and "build_start_request h (pc_start c) = Inr q" "start_fits q"
  shows "request_ok c q \<longleftrightarrow> (so_create (pc_start c) \<longrightarrow> start_limits (sq_config q))"
proof -
  let ?s = "pc_start c"
  have s: "opts_ok ?s" "so_name ?s \<noteq> []" using parse_command_ok [OF assms(1)] assms(2) by (auto simp: command_ok_def)
  have "ok_start_request q \<longleftrightarrow> (so_create ?s \<longrightarrow> start_limits (sq_config q))"
  proof (cases "so_create ?s")
    case True
    obtain cwd executable where q: "q = \<lparr>sq_mode = SM_create, sq_name = so_name ?s, sq_config = start_config ?s cwd executable (chosen_log_mode ?s),
        sq_inherited_env = filter (\<lambda>e. take 8 e \<noteq> ''PM_TINY_'') (ch_environ h), sq_show_log = so_show_log ?s\<rparr>"
      and ex: "executable \<noteq> []" "\<not> (so_pty ?s \<and> chosen_log_mode ?s = LM_split)"
      by (rule build_create [OF assms(3) True])
    have "ok_prog_cfg (start_config ?s cwd executable (chosen_log_mode ?s))"
      using assms(4) s by (intro start_config_ok) (simp_all add: q start_fits_def start_config_def)
    then show ?thesis using True s ex assms(4) validate_limits [OF s ex, of cwd] by (simp add: ok_start_request_def q start_fits_def)
  next
    case False
    then have "q = \<lparr>sq_mode = SM_existing, sq_name = so_name ?s, sq_config = default_prog_cfg, sq_inherited_env = [], sq_show_log = so_show_log ?s\<rparr>"
      using assms(3) by (simp add: build_start_request_def)
    then show ?thesis using False s assms(4) default_cfg_ok by (simp add: ok_start_request_def start_fits_def)
  qed
  then show ?thesis using assms(2) by (simp add: request_ok_def named_kinds_def)
qed


definition sample_host :: client_host where
  "sample_host = \<lparr>ch_getcwd = Some ''/srv'', ch_realpath = Inr, ch_executable = (\<lambda>_. True), ch_last_error = [],
     ch_path = None, ch_environ = [''HOME=/'', ''PM_TINY_APP=x''], ch_user = (\<lambda>_. None), ch_euid = 0\<rparr>"

definition sample_options :: start_command_options where
  "sample_options = default_start_options\<lparr>so_name := ''web'', so_create := True, so_executable := ''sh'', so_args := [''-c'']\<rparr>"

definition sample_start :: start_request where
  "sample_start = \<lparr>sq_mode = SM_create, sq_name = ''web'', sq_config = start_config sample_options ''/srv'' ''/srv/sh'' LM_split,
     sq_inherited_env = [''HOME=/''], sq_show_log = False\<rparr>"

text \<open>
  C10: the daemon does what the command line says.  A command line that parses, with a name that is not empty and, for
  \<open>start\<close>, a program that was resolved, fits the protocol and keeps the daemon's limits, becomes a request whose dispatch
  is the handler of that command on that name; \<open>start\<close> and \<open>log\<close> read back exactly the request that was built.
\<close>

theorem command_line_dispatched:
  assumes "parse_command_line args = Inr c" "pc_kind c \<noteq> CK_help"
    and "pc_kind c \<in> named_kinds \<Longrightarrow> args ! 2 \<noteq> [] \<and> ok_string (args ! 2)"
    and "pc_kind c = CK_start \<Longrightarrow> build_start_request ch (pc_start c) = Inr q \<and> start_fits q \<and>
      (so_create (pc_start c) \<longrightarrow> start_limits (sq_config q))"
  shows "\<exists>f. request_frame c q = Inr f \<and>
     dispatch_message h df loaded (command_message f rid flags ses) sid s = requested_action h df loaded sid (tl f) c (pc_kind c) s \<and>
     (pc_kind c \<in> named_kinds \<longrightarrow> pc_name c = args ! 2) \<and>
     (pc_kind c = CK_start \<longrightarrow> so_name (pc_start c) = args ! 2 \<and> read_start_request (tl f) = Inr q) \<and>
     (pc_kind c = CK_log \<longrightarrow> read_program_log_request (tl f) =
        Inr \<lparr>lq_name = pc_name c, lq_mode = (if pc_log_history c then LR_history else LR_live)\<rparr>)"
proof -
  have ok: "command_ok args c" by (rule parse_command_ok [OF assms(1)])
  have named: "pc_kind c \<in> named_kinds \<Longrightarrow> pc_name c = args ! 2" using ok by (auto simp: command_ok_def named_kinds_def)
  have "request_ok c q"
  proof (cases "pc_kind c = CK_start")
    case True
    then show ?thesis using start_command_accepted [OF assms(1)] assms(4) by blast
  next
    case False
    then show ?thesis using assms(2,3) named by (auto simp: request_ok_def)
  qed
  then show ?thesis using client_request_dispatched [of c q h df loaded rid flags ses sid s] named ok
    by (auto simp: command_ok_def)
qed

theorem command_line_dispatched_witness:
  "\<forall>h df loaded ses sid s. \<exists>f. request_frame (default_command\<lparr>pc_kind := CK_start, pc_start := sample_options\<rparr>) sample_start = Inr f \<and>
     dispatch_message h df loaded (command_message f 0 0 ses) sid s =
       (case server_exiting sid s of Some s1 \<Rightarrow> s1 | None \<Rightarrow> handle_cmd_start h sid (tl f) s) \<and>
     read_start_request (tl f) = Inr sample_start"
proof (intro allI)
  fix h df loaded ses sid s
  let ?args = "[''pm'', ''start'', ''web'', ''--'', ''sh'', ''-c'']" and ?c = "default_command\<lparr>pc_kind := CK_start, pc_start := sample_options\<rparr>"
  have "parse_command_line ?args = Inr ?c" by code_simp
  moreover have "build_start_request sample_host sample_options = Inr sample_start"
    by code_simp
  moreover have "start_fits sample_start" "start_limits (sq_config sample_start)"
    by (simp_all add: start_fits_def start_limits_def sample_start_def start_config_def sample_options_def default_start_options_def
        ok_string_def ok_strings_def protocol_v3_max_payload_def max_start_items_def)
  ultimately show "\<exists>f. request_frame ?c sample_start = Inr f \<and>
     dispatch_message h df loaded (command_message f 0 0 ses) sid s =
       (case server_exiting sid s of Some s1 \<Rightarrow> s1 | None \<Rightarrow> handle_cmd_start h sid (tl f) s) \<and>
     read_start_request (tl f) = Inr sample_start"
    using command_line_dispatched [of ?args ?c sample_host sample_start h df loaded 0 0 ses sid s] by (auto simp: named_kinds_def)
qed

subsection \<open>Replies\<close>

lemma reply_frame_ok:
  assumes "in_i32 code" "ok_string msg" "append_all extra (enc_i32 code @ enc_string msg) = Inr (enc_i32 code @ enc_string msg @ rest)"
  shows "reply_frame code msg extra = Inr (enc_i32 code @ enc_string msg @ rest)"
  using assms by (simp add: reply_frame_def primitive_puts)

lemma interpret_reply:
  assumes "in_i32 code" "ok_string msg"
  shows "interpret_control_response rd ver lo go c (enc_i32 code @ enc_string msg @ rest) =
     (if code \<noteq> 0 then Inr (no_response\<lparr>rr_stderr := error_text code msg\<rparr>)
      else interpret_success rd ver lo go c msg rest (no_response\<lparr>rr_success := True, rr_post_list := should_post_list c\<rparr>))"
  using assms by (simp add: interpret_control_response_def get_i32_enc get_string_enc)

lemma ok_success: "ok_string ''success''"
  by (simp add: ok_string_def protocol_v3_max_payload_def)

text \<open>
  The replies one by one: a refusal is an error with its status and text; the answer to \<open>start\<close> becomes the
  outcome that the daemon computed, and to \<open>list\<close> the rendered entries.
\<close>

lemma refusal_understood:
  assumes "in_i32 code" "code \<noteq> 0" "ok_string msg"
  shows "\<exists>f. reply_frame code msg [] = Inr f \<and>
     interpret_control_response rd ver lo go c f = Inr (no_response\<lparr>rr_stderr := error_text code msg\<rparr>)"
  using reply_frame_ok [OF assms(1,3), of "[]" "[]"] interpret_reply [OF assms(1,3), of rd ver lo go c "[]"] assms(2) by simp

lemma start_answer_understood:
  assumes "pc_kind c = CK_start" "ok_start_response p"
  shows "\<exists>f. reply_frame 0 ''success'' [append_start_response p] = Inr f \<and>
     interpret_control_response rd ver lo go c f = Inr (start_outcome (pc_start c) p (no_response\<lparr>rr_success := True\<rparr>))"
proof -
  have "reply_frame 0 ''success'' [append_start_response p] = Inr (enc_i32 0 @ enc_string ''success'' @ enc_start_response p)"
    by (rule reply_frame_ok) (simp_all add: ok_success start_response.payload_put assms(2))
  moreover have "read_start_response (enc_start_response p) = Inr p" using assms(2) by (simp add: start_response.payload_iff)
  moreover have "\<not> should_post_list c" using assms(1) by (simp add: should_post_list_def)
  ultimately show ?thesis
    using interpret_reply [OF in_i32_flag(2) ok_success, of rd ver lo go c "enc_start_response p"] assms(1)
    by (simp add: interpret_success_def no_response_def)
qed

lemma list_answer_understood:
  assumes "pc_kind c = CK_list" "ok_process_list es"
  shows "\<exists>f. reply_frame 0 ''success'' [append_process_list es] = Inr f \<and>
     interpret_control_response rd ver (Some opts) go c f = res_bind (rd_list rd es opts) (\<lambda>out. Inr (no_response\<lparr>rr_success := True, rr_stdout := out\<rparr>))"
proof -
  have "reply_frame 0 ''success'' [append_process_list es] = Inr (enc_i32 0 @ enc_string ''success'' @ enc_process_list es)"
    by (rule reply_frame_ok) (simp_all add: ok_success process_list.put_ok assms(2))
  moreover have "read_payload read_process_list (enc_process_list es) = Inr es"
    using assms(2) process_list.get_iff [of "enc_process_list es" es "[]"] by (simp add: read_payload_def)
  moreover have "\<not> should_post_list c" using assms(1) by (simp add: should_post_list_def)
  ultimately show ?thesis
    using interpret_reply [OF in_i32_flag(2) ok_success, of rd ver "Some opts" go c "enc_process_list es"] assms(1)
    by (simp add: interpret_success_def no_response_def)
qed

subsection \<open>The log stream\<close>

definition read_log_frame :: "(int \<times> string) reader" where
  "read_log_frame = rbind fget_i32 (\<lambda>ty. rbind fget_string (\<lambda>s. rreturn (ty, s)))"

lemma log_text_message:
  assumes "length frames = length parts" "frames \<noteq> []" "t \<noteq> 2"
    and "\<And>i. i < length frames \<Longrightarrow> read_log_frame (frames ! i) = Inr ((if Suc i < length parts then 2 else t, parts ! i), [])"
  shows "log_text (frames @ rest) t0 acc =
     (if t = 0 then Inr (c_str (acc @ concat parts), 0)
      else res_bind (log_text rest t []) (\<lambda>(out, last). Inr (c_str (acc @ concat parts) @ out, last)))"
  using assms
proof (induction frames arbitrary: parts acc t0)
  case (Cons f fs)
  obtain p ps where parts: "parts = p # ps" using Cons.prems(1) by (cases parts) auto
  have hd: "read_log_frame f = Inr ((if ps \<noteq> [] then 2 else t, p), [])" using Cons.prems(4) [of 0] by (simp add: parts)
  show ?case
  proof (cases "fs = []")
    case True
    then show ?thesis using hd Cons.prems(1,3) by (simp add: parts read_log_frame_def)
  next
    case False
    have "log_text (fs @ rest) 2 (acc @ p) = (if t = 0 then Inr (c_str ((acc @ p) @ concat ps), 0)
        else res_bind (log_text rest t []) (\<lambda>(out, last). Inr (c_str ((acc @ p) @ concat ps) @ out, last)))"
    proof (rule Cons.IH)
      show "read_log_frame (fs ! i) = Inr ((if Suc i < length ps then 2 else t, ps ! i), [])" if "i < length fs" for i
        using Cons.prems(4) [of "Suc i"] that by (simp add: parts)
    qed (use Cons.prems False in \<open>simp_all add: parts\<close>)
    moreover have "ps \<noteq> []" using False Cons.prems(1) by (auto simp: parts)
    ultimately show ?thesis using hd by (simp add: parts read_log_frame_def)
  qed
qed simp

lemma str_to_frames_log:
  assumes "in_i32 t" "t \<noteq> 2"
  obtains frames where "str_to_frames t msg = Inr frames"
    "\<And>rest t0. log_text (frames @ rest) t0 [] =
       (if t = 0 then Inr (c_str msg, 0) else res_bind (log_text rest t []) (\<lambda>(out, last). Inr (c_str msg @ out, last)))"
proof -
  obtain frames parts where fr: "str_to_frames t msg = Inr frames" "concat parts = msg" "length frames = length parts" "frames \<noteq> []"
    "list_all (\<lambda>i. rbind fget_i32 (\<lambda>ty. rbind fget_string (\<lambda>s. rreturn (ty, s))) (frames ! i)
      = Inr ((if Suc i < length parts then 2 else t, parts ! i), [])) [0..<length frames]"
    using str_to_frames_reassembles [OF assms(1), of msg] by blast
  have "log_text (frames @ rest) t0 [] = (if t = 0 then Inr (c_str ([] @ concat parts), 0)
      else res_bind (log_text rest t []) (\<lambda>(out, last). Inr (c_str ([] @ concat parts) @ out, last)))" for rest t0
    by (rule log_text_message [OF fr(3,4) assms(2)]) (use fr(5) in \<open>simp add: list_all_iff read_log_frame_def\<close>)
  then show ?thesis using that fr(1,2) by simp
qed





subsection \<open>The exit status\<close>

definition accepted :: "client_io \<Rightarrow> bool" where
  "accepted io \<longleftrightarrow> (\<exists>f closed stopped replies rest. io_replies io = (Some f, closed, stopped) # replies \<and> fget_i32 f = Inr (0, rest))"

lemma handle_response_accepted:
  assumes "handle_response rd ver lo go c f io = ((True, r), io1)"
  shows "\<exists>rest. fget_i32 f = Inr (0, rest)"
proof (cases "fget_i32 f")
  case (Inl e)
  then show ?thesis using assms by (simp add: handle_response_def interpret_control_response_def)
next
  case (Inr x)
  then show ?thesis using assms
    by (cases x; cases "fget_string (snd x)")
      (auto simp: handle_response_def interpret_control_response_def no_response_def split: if_splits)
qed

lemma request_reply_accepted:
  assumes "request_reply f io = ((Some p, closed, stopped), io1)" "fget_i32 p = Inr (0, rest)"
  shows "accepted io"
  using assms by (auto simp: request_reply_def accepted_def split: list.splits)

lemma ask_accepted:
  assumes "ask rd ver lo go c q io = Inr ((True, r), io1)"
  shows "accepted io"
proof -
  obtain f where f: "request_frame c q = Inr f" using assms by (auto simp: ask_def res_bind_eq_Inr)
  obtain resp closed stopped io2 where rep: "request_reply f io = ((resp, closed, stopped), io2)" by (metis surj_pair)
  obtain p where p: "resp = Some p" "handle_response rd ver lo go c p io2 = ((True, r), io1)"
    using assms f rep by (cases resp) (simp_all add: ask_def)
  then show ?thesis using handle_response_accepted [OF p(2)] request_reply_accepted rep by auto
qed

lemma display_proc_infos_accepted:
  assumes "display_proc_infos rd ver opts io = Inr (True, io1)"
  shows "accepted io"
proof -
  let ?c = "default_command\<lparr>pc_kind := CK_list\<rparr>"
  obtain f where f: "request_frame ?c no_start = Inr f" using assms by (auto simp: display_proc_infos_def res_bind_eq_Inr)
  obtain resp closed stopped io2 where rep: "request_reply f io = ((resp, closed, stopped), io2)" by (metis surj_pair)
  obtain p r where p: "resp = Some p" "handle_response rd ver (Some opts) None ?c p io2 = ((True, r), io1)"
    using assms f rep by (cases resp) (auto simp: display_proc_infos_def split: if_splits prod.splits)
  then show ?thesis using handle_response_accepted [OF p(2)] request_reply_accepted rep by auto
qed

lemma display_dependency_graph_accepted:
  assumes "display_dependency_graph rd ver opts io = Inr (True, io1)"
  shows "accepted io"
proof -
  let ?c = "default_command\<lparr>pc_kind := CK_graph\<rparr>"
  obtain f where f: "request_frame ?c no_start = Inr f" using assms by (auto simp: display_dependency_graph_def res_bind_eq_Inr)
  obtain resp closed stopped io2 where rep: "request_reply f io = ((resp, closed, stopped), io2)" by (metis surj_pair)
  obtain p r where p: "resp = Some p" "handle_response rd ver None (Some opts) ?c p io2 = ((True, r), io1)"
    using assms f rep by (cases resp) (auto simp: display_dependency_graph_def split: if_splits prod.splits)
  then show ?thesis using handle_response_accepted [OF p(2)] request_reply_accepted rep by auto
qed

text \<open>A command that reports success has asked first, and the answer said so.\<close>

lemma asked_first:
  assumes "res_bind (ask rd ver lo go c q io) k = Inr (True, io1)" "\<And>r io2. k ((False, r), io2) \<noteq> Inr (True, io1)"
  shows "accepted io"
proof -
  obtain ok r io2 where "ask rd ver lo go c q io = Inr ((ok, r), io2)" "k ((ok, r), io2) = Inr (True, io1)"
    using assms(1) by (auto simp: res_bind_eq_Inr)
  then show ?thesis using assms(2) ask_accepted by (cases ok) auto
qed

lemma run_command_accepted:
  assumes "run_command h rd ver tty kind c io = Inr (True, io1)" "kind \<noteq> CK_help"
  shows "accepted io"
proof (cases kind)
  case CK_list
  then show ?thesis using assms display_proc_infos_accepted by simp
next
  case CK_graph
  then show ?thesis using assms display_dependency_graph_accepted by simp
next
  case CK_start
  then show ?thesis using assms
    by (auto simp: run_start_def start_proc_def split: sum.splits elim!: asked_first)
qed (use assms in \<open>auto simp: stop_proc_def restart_prog_def delete_prog_def pm_tiny_reload_def after_response_def simple_proc_def
      inspect_proc_def save_proc_def show_version_def display_daemon_info_def show_prog_log_def pm_tiny_quit_def elim!: asked_first\<close>)

text \<open>
  C30: the exit status of \<open>pm\<close> can be trusted: it is 2 exactly for a command line that does not parse, and it is 0 for a
  command other than \<open>help\<close> only when the daemon answered the request with status 0.
\<close>

theorem client_exit_status:
  assumes "pm_main h rd ver usage tty connected args io = Inr (code, io1)"
  shows "(code = 2 \<longleftrightarrow> (\<exists>e. parse_command_line args = Inl e)) \<and>
     (code = 0 \<longrightarrow> (\<exists>c. parse_command_line args = Inr c \<and> (pc_kind c = CK_help \<or> accepted io)))"
proof (cases "parse_command_line args")
  case (Inl e)
  then show ?thesis using assms by (auto simp: pm_main_def)
next
  case (Inr c)
  have same: "accepted (warn_privilege_wrapper c io) \<longleftrightarrow> accepted io"
    by (simp add: warn_privilege_wrapper_def put_err_def accepted_def)
  show ?thesis using assms Inr run_command_accepted [of h rd ver tty "pc_kind c" c "warn_privilege_wrapper c io"] same
    by (auto simp: pm_main_def Let_def res_bind_eq_Inr split: if_splits)
qed

theorem client_exit_status_witness:
  "\<forall>rd io. accepted (io\<lparr>io_replies := [(Some (enc_i32 0 @ enc_string ''success''), False, False)]\<rparr>)"
proof (intro allI)
  fix rd :: renderers and io :: client_io
  let ?f = "enc_i32 0 @ enc_string ''success''"
  let ?io = "io\<lparr>io_replies := [(Some ?f, False, False)], io_stop := False\<rparr>"
  have parse: "parse_command_line [''pm'', ''save''] = Inr (default_command\<lparr>pc_kind := CK_save\<rparr>)" by code_simp
  have "interpret_control_response rd ''1'' None None (default_command\<lparr>pc_kind := CK_save\<rparr>) ?f =
      Inr (no_response\<lparr>rr_success := True\<rparr>)"
    using interpret_reply [OF in_i32_flag(2) ok_success, of rd "''1''" None None "default_command\<lparr>pc_kind := CK_save\<rparr>" "[]"]
    by (simp add: interpret_success_def action_is_silent_def should_post_list_def no_response_def)
  then obtain io1 where "pm_main sample_host rd ''1'' [] default_list_options True [''pm'', ''save''] ?io = Inr (0, io1)"
    by (simp add: pm_main_def parse warn_privilege_wrapper_def cross_user_start_def save_proc_def simple_proc_def ask_def
        request_frame_def request_reply_def handle_response_def put_out_def put_err_def no_response_def c_str_def)
  from client_exit_status [OF this] parse have "accepted ?io" by auto
  then show "accepted (io\<lparr>io_replies := [(Some ?f, False, False)]\<rparr>)" by (simp add: accepted_def)
qed

end
