(* ===== verification/Process_Tree.thy ===== *)
theory Process_Tree
  imports Managed_Program
begin

section \<open>Process trees (platform/linux: cgroup_fs, cgroup_v2_backend, process_group_backend, process_tree_controller)\<close>

text \<open>
  A program and its descendants are held together by a control group or, where there is none, by a process group.  The
  state of the system is a list of processes with their groups and the tree of control groups; a call that can fail for
  reasons outside of them asks \<open>os_fault\<close>, which does not change during one operation.  Signals are valid ones, and the
  pid of a child is never 0 or 1, so that a negative pid always names one process group.
\<close>

subsection \<open>The system\<close>

datatype cgroup = Cgroup (cg_path: string) (cg_children: "cgroup list")

datatype cg_call = Open_procs string | Open_dir string | Stat_dir string | Make_dir string | Remove_dir string | Write_procs string

text \<open>\<open>F_gone\<close> is \<open>ENOENT\<close>, \<open>F_exists\<close> is \<open>EEXIST\<close>; every other error carries its text.\<close>

datatype fault = F_gone | F_exists | F_error string

fun fault_text :: "fault \<Rightarrow> string" where
  "fault_text F_gone = ''No such file or directory''"
| "fault_text F_exists = ''File exists''"
| "fault_text (F_error e) = e"

record os_process =
  pr_pid :: int
  pr_pgid :: int
  pr_cgroup :: string

record os_state =
  os_procs :: "os_process list"
  os_denied :: "int \<Rightarrow> bool"
  os_root :: cgroup
  os_fault :: "cg_call \<Rightarrow> fault option"
  os_signals :: "(int \<times> int) list"

definition SIGKILL :: int where "SIGKILL = 9"

datatype kill_result = K_ok | K_esrch | K_eperm

definition pids_of :: "(os_process \<Rightarrow> bool) \<Rightarrow> os_state \<Rightarrow> int list" where
  "pids_of P os = map pr_pid (filter P (os_procs os))"

definition alive :: "int \<Rightarrow> os_state \<Rightarrow> bool" where
  "alive pid os \<longleftrightarrow> pid \<in> pr_pid ` set (os_procs os)"

text \<open>\<open>kill\<close> of a process and of a process group; signal 0 only asks.\<close>

definition send :: "int list \<Rightarrow> int \<Rightarrow> os_state \<Rightarrow> os_state" where
  "send pids signo os = (if signo = 0 then os else os\<lparr>os_signals := os_signals os @ map (\<lambda>p. (p, signo)) pids\<rparr>)"

definition kill_pid :: "int \<Rightarrow> int \<Rightarrow> os_state \<Rightarrow> kill_result \<times> os_state" where
  "kill_pid pid signo os =
     (if \<not> alive pid os then (K_esrch, os)
      else if os_denied os pid then (K_eperm, os)
      else (K_ok, send [pid] signo os))"

definition kill_group :: "int \<Rightarrow> int \<Rightarrow> os_state \<Rightarrow> kill_result \<times> os_state" where
  "kill_group pgid signo os =
     (let members = pids_of (\<lambda>p. pr_pgid p = pgid) os; permitted = filter (\<lambda>p. \<not> os_denied os p) members in
      if members = [] then (K_esrch, os)
      else if permitted = [] then (K_eperm, os)
      else (K_ok, send permitted signo os))"

definition getpgid :: "int \<Rightarrow> os_state \<Rightarrow> int option" where
  "getpgid pid os = map_option pr_pgid (List.find (\<lambda>p. pr_pid p = pid) (os_procs os))"

subsection \<open>Process groups\<close>

type_synonym attach_result = "string + process_tree_handle"

definition pg_attach :: "int \<Rightarrow> os_state \<Rightarrow> attach_result \<times> os_state" where
  "pg_attach pid os = (Inr (no_tree\<lparr>th_mode := TM_process_group, th_root_pid := pid, th_pgid := pid, th_active := True\<rparr>), os)"

definition pg_signal :: "process_tree_handle \<Rightarrow> int \<Rightarrow> os_state \<Rightarrow> int \<times> os_state" where
  "pg_signal h signo os =
     (if \<not> th_active h \<or> th_pgid h \<le> 0 then (0, os)
      else case kill_group (th_pgid h) signo os of
        (K_ok, os1) \<Rightarrow> (0, os1)
      | (_, os1) \<Rightarrow> (-1, os1))"

definition pg_contains :: "process_tree_handle \<Rightarrow> int \<Rightarrow> os_state \<Rightarrow> bool" where
  "pg_contains h pid os =
     (if \<not> th_active h \<or> th_pgid h \<le> 0 \<or> pid \<le> 0 then False
      else case getpgid pid os of None \<Rightarrow> False | Some pgid \<Rightarrow> pgid > 0 \<and> pgid = th_pgid h)"

definition pg_empty :: "process_tree_handle \<Rightarrow> os_state \<Rightarrow> bool" where
  "pg_empty h os = (if \<not> th_active h \<or> th_pgid h \<le> 0 then True else fst (kill_group (th_pgid h) 0 os) = K_esrch)"

definition pg_cleanup :: "process_tree_handle \<Rightarrow> os_state \<Rightarrow> process_tree_handle \<times> os_state" where
  "pg_cleanup h os = (no_tree, os)"

subsection \<open>The tree of control groups\<close>

fun cg_find :: "string \<Rightarrow> cgroup \<Rightarrow> cgroup option"
  and cg_find_in :: "string \<Rightarrow> cgroup list \<Rightarrow> cgroup option" where
  "cg_find p (Cgroup q cs) = (if q = p then Some (Cgroup q cs) else cg_find_in p cs)"
| "cg_find_in p [] = None"
| "cg_find_in p (c # cs) = (case cg_find p c of Some x \<Rightarrow> Some x | None \<Rightarrow> cg_find_in p cs)"

text \<open>\<open>mkdir\<close> adds a group at the end of its parent.\<close>

fun cg_add :: "string \<Rightarrow> string \<Rightarrow> cgroup \<Rightarrow> cgroup" where
  "cg_add parent p (Cgroup q cs) = Cgroup q (map (cg_add parent p) cs @ (if q = parent then [Cgroup p []] else []))"

text \<open>The children at a path replaced; the root of the tree is not touched.\<close>

fun cg_replace :: "string \<Rightarrow> cgroup list \<Rightarrow> cgroup \<Rightarrow> cgroup" where
  "cg_replace p new (Cgroup q cs) = Cgroup q (concat (map (\<lambda>c. if cg_path c = p then new else [cg_replace p new c]) cs))"

definition leaf_name :: "string \<Rightarrow> string" where
  "leaf_name path = (case rfind CHR ''/'' path of None \<Rightarrow> path | Some i \<Rightarrow> drop (Suc i) path)"

definition hidden :: "cgroup \<Rightarrow> bool" where
  "hidden c \<longleftrightarrow> leaf_name (cg_path c) \<noteq> [] \<and> hd (leaf_name (cg_path c)) = CHR ''.''"

subsection \<open>The control group file system\<close>

definition procs_in :: "os_state \<Rightarrow> string \<Rightarrow> int list" where
  "procs_in os g = pids_of (\<lambda>p. pr_cgroup p = g) os"

text \<open>
  \<open>is_cgroup2_path\<close> reads /proc/self/mountinfo: the mount point is the fifth field of a line.  The part of a string before the first
  occurrence of a marker is \<open>find\<close> with \<open>substr\<close>.
\<close>

fun before_marker :: "string \<Rightarrow> string \<Rightarrow> string option" where
  "before_marker m [] = (if m = [] then Some [] else None)"
| "before_marker m (c # s) = (if starts_with m (c # s) then Some [] else map_option ((#) c) (before_marker m s))"

definition mount_point :: "string \<Rightarrow> string option" where
  "mount_point line = map_option
     (\<lambda>part. let fields = filter (\<lambda>f. f \<noteq> []) (split_str part [CHR '' '', CHR 0x09, CHR 0x0A, CHR 0x0B, CHR 0x0C, CHR 0x0D])
             in if length fields < 5 then [] else fields ! 4)
     (before_marker '' - cgroup2 '' line)"

definition is_cgroup2_path :: "string list \<Rightarrow> string \<Rightarrow> bool" where
  "is_cgroup2_path mounts path \<longleftrightarrow> list_ex
     (\<lambda>line. case mount_point line of
        None \<Rightarrow> False
      | Some m \<Rightarrow> m = path \<or> length m < length path \<and> starts_with m path \<and> path ! length m = CHR ''/'') mounts"

definition is_v2_available :: "string list \<Rightarrow> (string \<Rightarrow> bool) \<Rightarrow> string \<Rightarrow> bool" where
  "is_v2_available mounts stat_ok root \<longleftrightarrow>
     is_cgroup2_path mounts root \<and> stat_ok (root @ ''/cgroup.procs'') \<and> stat_ok (root @ ''/cgroup.controllers'')"

text \<open>A directory that has gone in the meantime is passed over.\<close>

fun collect_recursive :: "os_state \<Rightarrow> cgroup \<Rightarrow> int list \<Rightarrow> string + int list"
  and collect_entries :: "os_state \<Rightarrow> cgroup list \<Rightarrow> int list \<Rightarrow> string + int list" where
  "collect_recursive os (Cgroup g cs) pids = (case os_fault os (Open_procs g) of
       Some e \<Rightarrow> Inl (fault_text e)
     | None \<Rightarrow> (case os_fault os (Open_dir g) of
           Some e \<Rightarrow> Inl (fault_text e)
         | None \<Rightarrow> collect_entries os cs (pids @ procs_in os g)))"
| "collect_entries os [] pids = Inr pids"
| "collect_entries os (c # cs) pids =
     (if hidden c then collect_entries os cs pids
      else case os_fault os (Stat_dir (cg_path c)) of
        Some F_gone \<Rightarrow> collect_entries os cs pids
      | Some e \<Rightarrow> Inl (fault_text e)
      | None \<Rightarrow> (case collect_recursive os c pids of
            Inl e \<Rightarrow> Inl e
          | Inr pids' \<Rightarrow> collect_entries os cs pids'))"

definition collect_pids :: "string \<Rightarrow> os_state \<Rightarrow> string + int list" where
  "collect_pids path os = (case cg_find path (os_root os) of
       None \<Rightarrow> Inl (fault_text F_gone)
     | Some c \<Rightarrow> collect_recursive os c [])"

text \<open>
  \<open>remove_recursive\<close>: what is left in the place of the group, and the result.  A group with processes or children in it
  is busy.
\<close>

fun remove_recursive :: "os_state \<Rightarrow> cgroup \<Rightarrow> cgroup list \<times> (string + unit)"
  and remove_entries :: "os_state \<Rightarrow> cgroup list \<Rightarrow> cgroup list \<times> (string + unit)" where
  "remove_recursive os (Cgroup g cs) = (case os_fault os (Open_dir g) of
       Some F_gone \<Rightarrow> ([Cgroup g cs], Inr ())
     | Some e \<Rightarrow> ([Cgroup g cs], Inl (fault_text e))
     | None \<Rightarrow> (case remove_entries os cs of
           (cs', Inl e) \<Rightarrow> ([Cgroup g cs'], Inl e)
         | (cs', Inr _) \<Rightarrow> (case os_fault os (Remove_dir g) of
               Some F_gone \<Rightarrow> ([Cgroup g cs'], Inr ())
             | Some e \<Rightarrow> ([Cgroup g cs'], Inl (fault_text e))
             | None \<Rightarrow> if procs_in os g \<noteq> [] \<or> cs' \<noteq> [] then ([Cgroup g cs'], Inl ''Device or resource busy'') else ([], Inr ()))))"
| "remove_entries os [] = ([], Inr ())"
| "remove_entries os (c # cs) =
     (if hidden c then (case remove_entries os cs of (cs', r) \<Rightarrow> (c # cs', r))
      else case os_fault os (Stat_dir (cg_path c)) of
        Some F_gone \<Rightarrow> (case remove_entries os cs of (cs', r) \<Rightarrow> (c # cs', r))
      | Some e \<Rightarrow> (c # cs, Inl (fault_text e))
      | None \<Rightarrow> (case remove_recursive os c of
            (left, Inl e) \<Rightarrow> (left @ cs, Inl e)
          | (left, Inr _) \<Rightarrow> (case remove_entries os cs of (cs', r) \<Rightarrow> (left @ cs', r))))"

definition remove_group :: "string \<Rightarrow> os_state \<Rightarrow> (string + unit) \<times> os_state" where
  "remove_group path os = (case cg_find path (os_root os) of
       None \<Rightarrow> (Inr (), os)
     | Some c \<Rightarrow> (case remove_recursive os c of
           (left, r) \<Rightarrow> (r, os\<lparr>os_root := cg_replace path left (os_root os)\<rparr>)))"

definition parent_path :: "string \<Rightarrow> string" where
  "parent_path path = (case rfind CHR ''/'' path of None \<Rightarrow> [] | Some i \<Rightarrow> take i path)"

definition create_group :: "string \<Rightarrow> os_state \<Rightarrow> (string + unit) \<times> os_state" where
  "create_group path os = (case os_fault os (Make_dir path) of
       Some F_exists \<Rightarrow> (Inr (), os)
     | Some e \<Rightarrow> (Inl (fault_text e), os)
     | None \<Rightarrow>
         if cg_find path (os_root os) \<noteq> None then (Inr (), os)
         else if cg_find (parent_path path) (os_root os) = None then (Inl (fault_text F_gone), os)
         else (Inr (), os\<lparr>os_root := cg_add (parent_path path) path (os_root os)\<rparr>))"

definition move_process :: "int \<Rightarrow> string \<Rightarrow> os_state \<Rightarrow> os_state" where
  "move_process pid g os = os\<lparr>os_procs := map (\<lambda>p. if pr_pid p = pid then p\<lparr>pr_cgroup := g\<rparr> else p) (os_procs os)\<rparr>"

definition attach_pid :: "string \<Rightarrow> int \<Rightarrow> os_state \<Rightarrow> (string + unit) \<times> os_state" where
  "attach_pid path pid os = (case os_fault os (Write_procs path) of
       Some e \<Rightarrow> (Inl (fault_text e), os)
     | None \<Rightarrow>
         if cg_find path (os_root os) = None then (Inl (fault_text F_gone), os)
         else if \<not> alive pid os then (Inl ''No such process'', os)
         else (Inr (), move_process pid path os))"

definition list_child_groups :: "string \<Rightarrow> os_state \<Rightarrow> string + string list" where
  "list_child_groups path os = (case cg_find path (os_root os) of
       None \<Rightarrow> Inl (fault_text F_gone)
     | Some c \<Rightarrow> (case os_fault os (Open_dir path) of
           Some e \<Rightarrow> Inl (fault_text e)
         | None \<Rightarrow>
             let entries = filter (\<lambda>d. \<not> hidden d \<and> os_fault os (Stat_dir (cg_path d)) \<noteq> Some F_gone) (cg_children c)
             in case List.find (\<lambda>d. os_fault os (Stat_dir (cg_path d)) \<noteq> None) entries of
                  Some d \<Rightarrow> Inl (case os_fault os (Stat_dir (cg_path d)) of Some e \<Rightarrow> fault_text e | None \<Rightarrow> [])
                | None \<Rightarrow> Inr (map cg_path entries)))"

subsection \<open>Control groups as process trees\<close>

definition app_group :: "string \<Rightarrow> int \<Rightarrow> string" where
  "app_group root pid = root @ ''/app-'' @ int_to_string pid"

definition cg_attach :: "string \<Rightarrow> int \<Rightarrow> os_state \<Rightarrow> attach_result \<times> os_state" where
  "cg_attach root pid os =
     (let path = app_group root pid;
          h = no_tree\<lparr>th_mode := TM_cgroup, th_root_pid := pid, th_pgid := pid, th_active := True, th_cgroup_path := path\<rparr>
      in case create_group path os of
           (Inl e, os1) \<Rightarrow> (Inl e, os1)
         | (Inr _, os1) \<Rightarrow> (case attach_pid path pid os1 of
               (Inl e, os2) \<Rightarrow> (Inl e, snd (remove_group path os2))
             | (Inr _, os2) \<Rightarrow> (Inr h, os2)))"

fun signal_pids :: "int list \<Rightarrow> int \<Rightarrow> int \<Rightarrow> os_state \<Rightarrow> int \<times> os_state" where
  "signal_pids [] signo rc os = (rc, os)"
| "signal_pids (pid # pids) signo rc os = (case kill_pid pid signo os of
       (K_eperm, os1) \<Rightarrow> signal_pids pids signo (-1) os1
     | (_, os1) \<Rightarrow> signal_pids pids signo rc os1)"

definition cg_signal :: "process_tree_handle \<Rightarrow> int \<Rightarrow> os_state \<Rightarrow> int \<times> os_state" where
  "cg_signal h signo os =
     (if \<not> th_active h then (0, os)
      else case collect_pids (th_cgroup_path h) os of
        Inl e \<Rightarrow> (-1, os)
      | Inr pids \<Rightarrow> signal_pids pids signo 0 os)"

definition cg_contains :: "process_tree_handle \<Rightarrow> int \<Rightarrow> os_state \<Rightarrow> bool" where
  "cg_contains h pid os =
     (if \<not> th_active h \<or> pid \<le> 0 then False
      else case collect_pids (th_cgroup_path h) os of Inl e \<Rightarrow> False | Inr pids \<Rightarrow> pid \<in> set pids)"

definition cg_empty :: "process_tree_handle \<Rightarrow> os_state \<Rightarrow> bool" where
  "cg_empty h os =
     (if \<not> th_active h then True
      else case collect_pids (th_cgroup_path h) os of Inl e \<Rightarrow> False | Inr pids \<Rightarrow> pids = [])"

definition cg_cleanup :: "process_tree_handle \<Rightarrow> os_state \<Rightarrow> process_tree_handle \<times> os_state" where
  "cg_cleanup h os =
     (no_tree, if th_cgroup_path h \<noteq> [] \<and> collect_pids (th_cgroup_path h) os = Inr []
               then snd (remove_group (th_cgroup_path h) os) else os)"


subsection \<open>The controller\<close>

datatype backend = Process_group_backend | Cgroup_v2_backend string

record process_tree_controller =
  ct_effective_mode :: process_tree_mode
  ct_requested_mode :: process_tree_mode
  ct_root :: string
  ct_degradation_reason :: string
  ct_backend :: "backend option"

definition new_controller :: process_tree_controller where
  "new_controller = \<lparr>ct_effective_mode = TM_process_group, ct_requested_mode = TM_auto_detect, ct_root = [],
     ct_degradation_reason = [], ct_backend = None\<rparr>"

definition degraded :: "process_tree_controller \<Rightarrow> bool" where
  "degraded c \<longleftrightarrow> ct_requested_mode c = TM_auto_detect \<and> ct_effective_mode c \<noteq> TM_cgroup"

definition parse_process_tree_mode :: "string \<Rightarrow> process_tree_mode option" where
  "parse_process_tree_mode v =
     (if v = ''auto'' then Some TM_auto_detect
      else if v = ''cgroup'' \<or> v = ''cgroup_v2'' then Some TM_cgroup
      else if v = ''process_group'' then Some TM_process_group
      else None)"

definition safe_char :: "char \<Rightarrow> bool" where
  "safe_char c \<longleftrightarrow> (let n = (of_char c :: nat) in
     97 \<le> n \<and> n \<le> 122 \<or> 65 \<le> n \<and> n \<le> 90 \<or> 48 \<le> n \<and> n \<le> 57 \<or> c = CHR ''_'' \<or> c = CHR ''-'' \<or> c = CHR ''.'')"

definition sanitize :: "string \<Rightarrow> string" where
  "sanitize value =
     (let result = map (\<lambda>c. if safe_char c then c else CHR ''_'') value
      in take 48 (if result = [] then ''app'' else result))"

text \<open>Falling back to process groups, or failing when control groups were asked for.\<close>

type_synonym init_result = "(bool \<times> string) \<times> process_tree_controller \<times> os_state"

definition fall_back :: "process_tree_mode \<Rightarrow> string \<Rightarrow> string \<Rightarrow> os_state \<Rightarrow> init_result" where
  "fall_back requested root reason os =
     (if requested = TM_cgroup
      then ((False, reason), new_controller\<lparr>ct_requested_mode := requested, ct_effective_mode := requested, ct_root := root\<rparr>, os)
      else ((True, reason), new_controller\<lparr>ct_requested_mode := requested, ct_effective_mode := TM_process_group,
              ct_degradation_reason := reason, ct_backend := Some Process_group_backend\<rparr>, os))"

text \<open>
  The probe: a group is made below the root and a child that only waits is moved into it; then the child is killed and
  reaped and the group removed.  \<open>fork\<close> is the process made, or \<open>Inl\<close> of the error text.  The result is the reason of a failure.
\<close>

definition probe_group :: "string \<Rightarrow> string + os_process \<Rightarrow> os_state \<Rightarrow> string option \<times> os_state" where
  "probe_group probe fork os = (case create_group probe os of
       (Inl e, os1) \<Rightarrow> (Some e, snd (remove_group probe os1))
     | (Inr _, os1) \<Rightarrow> (case fork of
           Inl e \<Rightarrow> (Some e, snd (remove_group probe os1))
         | Inr child \<Rightarrow>
             let pid = pr_pid child;
                 (r, os2) = attach_pid probe pid (os1\<lparr>os_procs := os_procs os1 @ [child]\<rparr>);
                 os3 = snd (kill_pid pid SIGKILL os2);
                 os4 = os3\<lparr>os_procs := filter (\<lambda>p. pr_pid p \<noteq> pid) (os_procs os3)\<rparr>
             in (case r of Inl e \<Rightarrow> Some e | Inr _ \<Rightarrow> None, snd (remove_group probe os4))))"

text \<open>
  Groups that a former daemon left behind: their processes are killed, and a group that is empty then is removed.
  \<open>settle\<close> is what happens between the signals and the second look.
\<close>

definition clear_stale :: "(os_state \<Rightarrow> os_state) \<Rightarrow> string \<Rightarrow> os_state \<Rightarrow> os_state" where
  "clear_stale settle stale os =
     (if take 4 (leaf_name stale) \<noteq> ''app-'' then os
      else case collect_pids stale os of
        Inl e \<Rightarrow> os
      | Inr pids \<Rightarrow>
          let os1 = settle (fold (\<lambda>pid os. snd (kill_pid pid SIGKILL os)) pids os)
          in if collect_pids stale os1 = Inr [] then snd (remove_group stale os1) else os1)"

definition initialize ::
  "(string \<Rightarrow> bool) \<Rightarrow> string + os_process \<Rightarrow> (os_state \<Rightarrow> os_state) \<Rightarrow> process_tree_mode \<Rightarrow> string \<Rightarrow> string \<Rightarrow> os_state \<Rightarrow> init_result" where
  "initialize v2_available fork settle requested configured_root instance_key os =
     (if requested = TM_process_group
      then ((True, []), new_controller\<lparr>ct_requested_mode := requested, ct_effective_mode := requested,
              ct_backend := Some Process_group_backend\<rparr>, os)
      else let base = (if configured_root = [] then ''/sys/fs/cgroup'' else configured_root) in
      if \<not> v2_available base then fall_back requested [] ''cgroup v2 cgroup.procs is unavailable'' os
      else let root = base @ ''/pm_tiny-'' @ sanitize instance_key in
      case create_group root os of
        (Inl e, os1) \<Rightarrow> fall_back requested root e os1
      | (Inr _, os1) \<Rightarrow>
          (case probe_group (root @ ''/.probe'') fork os1 of
             (Some e, os2) \<Rightarrow> fall_back requested [] (''cgroup attach probe failed: '' @ e) (snd (remove_group root os2))
           | (None, os2) \<Rightarrow>
               let os3 = (case list_child_groups root os2 of
                   Inl e \<Rightarrow> os2
                 | Inr stale_groups \<Rightarrow> fold (clear_stale settle) stale_groups os2)
               in ((True, []), new_controller\<lparr>ct_requested_mode := requested, ct_effective_mode := TM_cgroup,
                     ct_root := root, ct_backend := Some (Cgroup_v2_backend root)\<rparr>, os3)))"

text \<open>The operations of the controller go to its backend; without one nothing is attached and every tree is empty.\<close>

definition tree_attach :: "process_tree_controller \<Rightarrow> int \<Rightarrow> os_state \<Rightarrow> attach_result \<times> os_state" where
  "tree_attach c pid os = (case ct_backend c of
       None \<Rightarrow> (Inl ''process tree controller is not initialized'', os)
     | Some Process_group_backend \<Rightarrow> pg_attach pid os
     | Some (Cgroup_v2_backend root) \<Rightarrow> cg_attach root pid os)"

definition tree_signal :: "process_tree_controller \<Rightarrow> process_tree_handle \<Rightarrow> int \<Rightarrow> os_state \<Rightarrow> int \<times> os_state" where
  "tree_signal c h signo os = (case ct_backend c of
       None \<Rightarrow> (0, os)
     | Some Process_group_backend \<Rightarrow> pg_signal h signo os
     | Some (Cgroup_v2_backend root) \<Rightarrow> cg_signal h signo os)"

definition tree_contains :: "process_tree_controller \<Rightarrow> process_tree_handle \<Rightarrow> int \<Rightarrow> os_state \<Rightarrow> bool" where
  "tree_contains c h pid os = (case ct_backend c of
       None \<Rightarrow> False
     | Some Process_group_backend \<Rightarrow> pg_contains h pid os
     | Some (Cgroup_v2_backend root) \<Rightarrow> cg_contains h pid os)"

definition tree_empty :: "process_tree_controller \<Rightarrow> process_tree_handle \<Rightarrow> os_state \<Rightarrow> bool" where
  "tree_empty c h os = (case ct_backend c of
       None \<Rightarrow> True
     | Some Process_group_backend \<Rightarrow> pg_empty h os
     | Some (Cgroup_v2_backend root) \<Rightarrow> cg_empty h os)"

definition tree_cleanup :: "process_tree_controller \<Rightarrow> process_tree_handle \<Rightarrow> os_state \<Rightarrow> process_tree_handle \<times> os_state" where
  "tree_cleanup c h os = (case ct_backend c of
       None \<Rightarrow> (no_tree, os)
     | Some Process_group_backend \<Rightarrow> pg_cleanup h os
     | Some (Cgroup_v2_backend root) \<Rightarrow> cg_cleanup h os)"

end
