(* ===== verification/Process_Tree_Correct.thy ===== *)
theory Process_Tree_Correct
  imports Process_Tree
begin

section \<open>Process trees are killed as a whole\<close>

text \<open>
  What \<open>process_tree_backend\<close> promises, as a locale: which processes are of a tree, and what \<open>signal\<close>, \<open>contains\<close> and
  \<open>empty\<close> do with them.  Both backends and the controller are instances; a control group moreover holds processes
  that change their process group.
\<close>

subsection \<open>The system between the calls\<close>

text \<open>A fork keeps the groups of the parent; a process that becomes a daemon changes its process group.\<close>

inductive spawned :: "bool \<Rightarrow> os_process \<Rightarrow> os_process \<Rightarrow> bool" for detaches where
  spawned_self: "spawned detaches p p"
| spawned_fork: "spawned detaches p q \<Longrightarrow> spawned detaches p (q\<lparr>pr_pid := pid\<rparr>)"
| spawned_setpgid: "spawned detaches p q \<Longrightarrow> detaches \<Longrightarrow> spawned detaches p (q\<lparr>pr_pgid := pgid\<rparr>)"

text \<open>The processes that a \<open>SIGKILL\<close> was sent to between two states are reaped.\<close>

definition reap_killed :: "os_state \<Rightarrow> os_state \<Rightarrow> os_state" where
  "reap_killed os0 os1 =
     os1\<lparr>os_procs := filter (\<lambda>p. (pr_pid p, SIGKILL) \<notin> set (drop (length (os_signals os0)) (os_signals os1))) (os_procs os1)\<rparr>"

definition os_ok :: "os_state \<Rightarrow> bool" where
  "os_ok os \<longleftrightarrow> distinct (map pr_pid (os_procs os)) \<and> (\<forall>p \<in> set (os_procs os). 0 < pr_pid p)"

lemma SIGKILL_nonzero [simp]: "SIGKILL \<noteq> 0"
  by (simp add: SIGKILL_def)

lemma same_pid: "os_ok os \<Longrightarrow> p \<in> set (os_procs os) \<Longrightarrow> q \<in> set (os_procs os) \<Longrightarrow> pr_pid p = pr_pid q \<longleftrightarrow> p = q"
  by (auto simp: os_ok_def distinct_map inj_on_def)

lemma os_ok_filter [intro]: "os_ok os \<Longrightarrow> os_ok (os\<lparr>os_procs := filter P (os_procs os), os_signals := s\<rparr>)"
  by (auto simp: os_ok_def distinct_map_filter)

lemma set_pids_of: "set (pids_of P os) = {pr_pid p | p. p \<in> set (os_procs os) \<and> P p}"
  by (auto simp: pids_of_def)

lemma pids_of_Nil: "pids_of P os = [] \<longleftrightarrow> (\<forall>p \<in> set (os_procs os). \<not> P p)"
  by (auto simp: pids_of_def filter_empty_conv)

subsection \<open>The contract\<close>

locale process_tree =
  fixes signal :: "'h \<Rightarrow> int \<Rightarrow> os_state \<Rightarrow> int \<times> os_state"
    and contains :: "'h \<Rightarrow> int \<Rightarrow> os_state \<Rightarrow> bool"
    and empty :: "'h \<Rightarrow> os_state \<Rightarrow> bool"
    and in_tree :: "'h \<Rightarrow> os_state \<Rightarrow> os_process \<Rightarrow> bool"
    and ready :: "'h \<Rightarrow> os_state \<Rightarrow> bool"
  assumes ready_ok: "ready h os \<Longrightarrow> os_ok os"
    and signal_sent: "ready h os \<Longrightarrow> signo \<noteq> 0 \<Longrightarrow>
      \<exists>sent. set sent = {pr_pid p | p. p \<in> set (os_procs os) \<and> in_tree h os p \<and> \<not> os_denied os (pr_pid p)} \<and>
        snd (signal h signo os) = send sent signo os"
    and signal_result: "ready h os \<Longrightarrow> (\<exists>p \<in> set (os_procs os). in_tree h os p) \<Longrightarrow>
      (\<forall>p \<in> set (os_procs os). in_tree h os p \<longrightarrow> \<not> os_denied os (pr_pid p)) \<Longrightarrow> fst (signal h signo os) = 0"
    and contains_member: "ready h os \<Longrightarrow> contains h pid os \<longleftrightarrow> (\<exists>p \<in> set (os_procs os). pr_pid p = pid \<and> in_tree h os p)"
    and empty_members: "ready h os \<Longrightarrow> empty h os \<longleftrightarrow> (\<forall>p \<in> set (os_procs os). \<not> in_tree h os p)"
    and ready_later: "ready h os \<Longrightarrow> ready h (os\<lparr>os_procs := filter P (os_procs os), os_signals := s\<rparr>)"
    and in_tree_later: "in_tree h (os\<lparr>os_procs := ps, os_signals := s\<rparr>) = in_tree h os"
    and in_tree_fork: "in_tree h os (p\<lparr>pr_pid := pid\<rparr>) = in_tree h os p"
begin

lemma kill_exact:
  assumes "ready h os" "\<forall>p \<in> set (os_procs os). in_tree h os p \<longrightarrow> \<not> os_denied os (pr_pid p)"
  shows "\<exists>s. reap_killed os (snd (signal h SIGKILL os)) =
           os\<lparr>os_procs := filter (\<lambda>p. \<not> in_tree h os p) (os_procs os), os_signals := s\<rparr>"
proof -
  obtain sent where sent: "set sent = {pr_pid p | p. p \<in> set (os_procs os) \<and> in_tree h os p \<and> \<not> os_denied os (pr_pid p)}"
    "snd (signal h SIGKILL os) = send sent SIGKILL os"
    using signal_sent [OF assms(1), of SIGKILL] by auto
  have "(pr_pid p, SIGKILL) \<notin> set (map (\<lambda>q. (q, SIGKILL)) sent) \<longleftrightarrow> \<not> in_tree h os p" if "p \<in> set (os_procs os)" for p
    using that same_pid [OF ready_ok [OF assms(1)]] assms(2) by (auto simp: sent(1) image_iff)
  then have "filter (\<lambda>p. (pr_pid p, SIGKILL) \<notin> set (map (\<lambda>q. (q, SIGKILL)) sent)) (os_procs os) =
      filter (\<lambda>p. \<not> in_tree h os p) (os_procs os)"
    by (intro filter_cong) auto
  then have "reap_killed os (snd (signal h SIGKILL os)) = os\<lparr>os_procs := filter (\<lambda>p. \<not> in_tree h os p) (os_procs os),
      os_signals := os_signals os @ map (\<lambda>q. (q, SIGKILL)) sent\<rparr>"
    by (simp add: reap_killed_def sent(2) send_def)
  then show ?thesis
    by blast
qed

lemma kill_empties:
  assumes "ready h os" "\<forall>p \<in> set (os_procs os). in_tree h os p \<longrightarrow> \<not> os_denied os (pr_pid p)"
  shows "empty h (reap_killed os (snd (signal h SIGKILL os)))"
proof -
  obtain s where s: "reap_killed os (snd (signal h SIGKILL os)) =
      os\<lparr>os_procs := filter (\<lambda>p. \<not> in_tree h os p) (os_procs os), os_signals := s\<rparr>"
    using kill_exact [OF assms] by blast
  show ?thesis
    unfolding s using empty_members [OF ready_later [OF assms(1)]] by (simp add: in_tree_later)
qed

lemma kill_spares:
  assumes "ready h os" "\<forall>p \<in> set (os_procs os). in_tree h os p \<longrightarrow> \<not> os_denied os (pr_pid p)"
  shows "os_procs (reap_killed os (snd (signal h SIGKILL os))) = filter (\<lambda>p. \<not> in_tree h os p) (os_procs os)"
  using kill_exact [OF assms] by auto

lemma spawned_in_tree: "spawned False p q \<Longrightarrow> in_tree h os p \<Longrightarrow> in_tree h os q"
  by (induction rule: spawned.induct) (auto simp: in_tree_fork)

lemma spawned_contained:
  assumes "ready h os" "spawned False p q" "q \<in> set (os_procs os)" "in_tree h os p"
  shows "contains h (pr_pid q) os"
  using assms spawned_in_tree [OF assms(2,4)] by (auto simp: contains_member [OF assms(1)])

end

text \<open>A tree that processes do not leave by changing their process group.\<close>

locale tracking_tree = process_tree +
  assumes in_tree_setpgid: "in_tree h os (p\<lparr>pr_pgid := pgid\<rparr>) = in_tree h os p"
begin

lemma detached_in_tree: "spawned d p q \<Longrightarrow> in_tree h os p \<Longrightarrow> in_tree h os q"
  by (induction rule: spawned.induct) (auto simp: in_tree_fork in_tree_setpgid)

lemma detached_killed:
  assumes "ready h os" "\<forall>p \<in> set (os_procs os). in_tree h os p \<longrightarrow> \<not> os_denied os (pr_pid p)"
    and "in_tree h os p" "spawned d p q"
  shows "q \<notin> set (os_procs (reap_killed os (snd (signal h SIGKILL os))))"
  using detached_in_tree [OF assms(4,3)] by (simp add: kill_spares [OF assms(1,2)])

end

subsection \<open>Process groups\<close>

definition pg_in_tree :: "process_tree_handle \<Rightarrow> os_state \<Rightarrow> os_process \<Rightarrow> bool" where
  "pg_in_tree h os p \<longleftrightarrow> pr_pgid p = th_pgid h"

definition pg_ready :: "process_tree_handle \<Rightarrow> os_state \<Rightarrow> bool" where
  "pg_ready h os \<longleftrightarrow> os_ok os \<and> th_active h \<and> 0 < th_pgid h"

lemma send_nothing [simp]: "send [] signo os = os"
  by (simp add: send_def)

lemma send_nobody: "set sent = {} \<Longrightarrow> send sent signo os = os"
  by simp

lemma kill_group_sent:
  "snd (kill_group g signo os) = send (filter (\<lambda>p. \<not> os_denied os p) (pids_of (\<lambda>p. pr_pgid p = g) os)) signo os"
  by (auto simp: kill_group_def Let_def)

lemma kill_group_result:
  "fst (kill_group g signo os) = K_esrch \<longleftrightarrow> (\<forall>p \<in> set (os_procs os). pr_pgid p \<noteq> g)"
  "\<exists>p \<in> set (os_procs os). pr_pgid p = g \<Longrightarrow> \<forall>p \<in> set (os_procs os). pr_pgid p = g \<longrightarrow> \<not> os_denied os (pr_pid p) \<Longrightarrow>
    fst (kill_group g signo os) = K_ok"
  by (auto simp: kill_group_def Let_def pids_of_Nil filter_empty_conv set_pids_of)

lemma find_process:
  assumes "os_ok os"
  shows "List.find (\<lambda>p. pr_pid p = pid) (os_procs os) = Some q \<longleftrightarrow> q \<in> set (os_procs os) \<and> pr_pid q = pid"
proof (cases "List.find (\<lambda>p. pr_pid p = pid) (os_procs os)")
  case (Some r)
  then have "r \<in> set (os_procs os)" "pr_pid r = pid"
    by (auto simp: find_Some_iff)
  then show ?thesis
    using Some same_pid [OF assms] by auto
next
  case None
  then have "\<forall>p \<in> set (os_procs os). pr_pid p \<noteq> pid"
    by (auto simp: find_None_iff)
  then show ?thesis
    using None by auto
qed

lemma getpgid_member:
  "os_ok os \<Longrightarrow> getpgid pid os = Some g \<longleftrightarrow> (\<exists>p \<in> set (os_procs os). pr_pid p = pid \<and> pr_pgid p = g)"
  by (auto simp: getpgid_def find_process)

lemma pg_contains_getpgid:
  "th_active h \<Longrightarrow> 0 < th_pgid h \<Longrightarrow> pg_contains h pid os \<longleftrightarrow> 0 < pid \<and> getpgid pid os = Some (th_pgid h)"
  by (auto simp: pg_contains_def split: option.splits)

interpretation pg: process_tree pg_signal pg_contains pg_empty pg_in_tree pg_ready
proof unfold_locales
  fix h os signo
  show "pg_ready h os \<Longrightarrow> signo \<noteq> 0 \<Longrightarrow>
      \<exists>sent. set sent = {pr_pid p | p. p \<in> set (os_procs os) \<and> pg_in_tree h os p \<and> \<not> os_denied os (pr_pid p)} \<and>
        snd (pg_signal h signo os) = send sent signo os"
    using kill_group_sent [of "th_pgid h" signo os]
    by (intro exI [of _ "filter (\<lambda>p. \<not> os_denied os p) (pids_of (\<lambda>p. pr_pgid p = th_pgid h) os)"])
      (auto simp: pg_ready_def pg_signal_def pg_in_tree_def set_pids_of split: prod.splits kill_result.splits)
  show "pg_ready h os \<Longrightarrow> \<exists>p \<in> set (os_procs os). pg_in_tree h os p \<Longrightarrow>
      \<forall>p \<in> set (os_procs os). pg_in_tree h os p \<longrightarrow> \<not> os_denied os (pr_pid p) \<Longrightarrow> fst (pg_signal h signo os) = 0"
    using kill_group_result(2) [of os "th_pgid h" signo]
    by (auto simp: pg_signal_def pg_in_tree_def split: prod.splits kill_result.splits)
  fix pid
  show "pg_ready h os \<Longrightarrow> pg_contains h pid os \<longleftrightarrow> (\<exists>p \<in> set (os_procs os). pr_pid p = pid \<and> pg_in_tree h os p)"
    by (auto simp: pg_ready_def pg_contains_getpgid getpgid_member pg_in_tree_def os_ok_def)
  show "pg_ready h os \<Longrightarrow> pg_empty h os \<longleftrightarrow> (\<forall>p \<in> set (os_procs os). \<not> pg_in_tree h os p)"
    using kill_group_result(1) [of "th_pgid h" 0 os] by (auto simp: pg_ready_def pg_empty_def pg_in_tree_def)
qed (auto simp: pg_ready_def pg_in_tree_def)

subsection \<open>Control groups\<close>

text \<open>The groups a walk visits, and whether it ends without an error; both depend on the faults only.\<close>

fun visible :: "(cg_call \<Rightarrow> fault option) \<Rightarrow> cgroup \<Rightarrow> string list"
  and visible_in :: "(cg_call \<Rightarrow> fault option) \<Rightarrow> cgroup list \<Rightarrow> string list" where
  "visible F (Cgroup g cs) = g # visible_in F cs"
| "visible_in F [] = []"
| "visible_in F (c # cs) =
     (if hidden c \<or> F (Stat_dir (cg_path c)) = Some F_gone then visible_in F cs else visible F c @ visible_in F cs)"

fun readable :: "(cg_call \<Rightarrow> fault option) \<Rightarrow> cgroup \<Rightarrow> bool"
  and readable_in :: "(cg_call \<Rightarrow> fault option) \<Rightarrow> cgroup list \<Rightarrow> bool" where
  "readable F (Cgroup g cs) \<longleftrightarrow> F (Open_procs g) = None \<and> F (Open_dir g) = None \<and> readable_in F cs"
| "readable_in F [] \<longleftrightarrow> True"
| "readable_in F (c # cs) \<longleftrightarrow>
     (hidden c \<or> F (Stat_dir (cg_path c)) = Some F_gone \<or> F (Stat_dir (cg_path c)) = None \<and> readable F c) \<and> readable_in F cs"

lemma collect_visible:
  "readable (os_fault os) c \<Longrightarrow> collect_recursive os c pids = Inr (pids @ concat (map (procs_in os) (visible (os_fault os) c)))"
  "readable_in (os_fault os) cs \<Longrightarrow>
    collect_entries os cs pids = Inr (pids @ concat (map (procs_in os) (visible_in (os_fault os) cs)))"
  by (induction os c pids and os cs pids rule: collect_recursive_collect_entries.induct)
    (auto split: option.splits fault.splits)

lemma collect_unreadable:
  "\<not> readable (os_fault os) c \<Longrightarrow> \<exists>e. collect_recursive os c pids = Inl e"
  "\<not> readable_in (os_fault os) cs \<Longrightarrow> \<exists>e. collect_entries os cs pids = Inl e"
  by (induction os c pids and os cs pids rule: collect_recursive_collect_entries.induct)
    (auto split: option.splits fault.splits sum.splits)

lemma collect_pids_result:
  "collect_pids path os = Inr pids \<longleftrightarrow> (\<exists>c. cg_find path (os_root os) = Some c \<and> readable (os_fault os) c \<and>
     pids = concat (map (procs_in os) (visible (os_fault os) c)))"
  using collect_visible(1) [of os _ "[]"] collect_unreadable(1) [of os _ "[]"]
  by (auto simp: collect_pids_def split: option.splits) (metis Inl_Inr_False append_Nil sum.inject(2))+

definition cg_in_tree :: "process_tree_handle \<Rightarrow> os_state \<Rightarrow> os_process \<Rightarrow> bool" where
  "cg_in_tree h os p \<longleftrightarrow> (case cg_find (th_cgroup_path h) (os_root os) of
       None \<Rightarrow> False
     | Some c \<Rightarrow> pr_cgroup p \<in> set (visible (os_fault os) c))"

definition cg_ready :: "process_tree_handle \<Rightarrow> os_state \<Rightarrow> bool" where
  "cg_ready h os \<longleftrightarrow> os_ok os \<and> th_active h \<and>
     (case cg_find (th_cgroup_path h) (os_root os) of None \<Rightarrow> False | Some c \<Rightarrow> readable (os_fault os) c)"

lemma cg_ready_collect:
  assumes "cg_ready h os"
  obtains pids where "collect_pids (th_cgroup_path h) os = Inr pids" "set pids = {pr_pid p | p. p \<in> set (os_procs os) \<and> cg_in_tree h os p}"
proof -
  obtain c where c: "cg_find (th_cgroup_path h) (os_root os) = Some c" "readable (os_fault os) c"
    using assms by (auto simp: cg_ready_def split: option.splits)
  show ?thesis
  proof (rule that)
    show "collect_pids (th_cgroup_path h) os = Inr (concat (map (procs_in os) (visible (os_fault os) c)))"
      using c by (simp add: collect_pids_result)
  qed (auto simp: procs_in_def set_pids_of cg_in_tree_def c(1))
qed

lemma alive_send [simp]: "alive p (send pids signo os) = alive p os" "os_denied (send pids signo os) = os_denied os"
  by (simp_all add: alive_def send_def)

lemma send_append: "send qs signo (send ps signo os) = send (ps @ qs) signo os"
  by (simp add: send_def)

lemma signal_pids_sent:
  "\<forall>p \<in> set pids. alive p os \<Longrightarrow> snd (signal_pids pids signo rc os) = send (filter (\<lambda>p. \<not> os_denied os p) pids) signo os"
  by (induction pids signo rc os rule: signal_pids.induct) (auto simp: kill_pid_def send_append)

lemma signal_pids_result:
  "\<forall>p \<in> set pids. \<not> os_denied os p \<Longrightarrow> fst (signal_pids pids signo rc os) = rc"
  by (induction pids signo rc os rule: signal_pids.induct) (auto simp: kill_pid_def)

interpretation cg: tracking_tree cg_signal cg_contains cg_empty cg_in_tree cg_ready
proof unfold_locales
  fix h os signo
  assume ready: "cg_ready h os"
  then have active: "th_active h" and ok: "os_ok os"
    by (simp_all add: cg_ready_def)
  show "os_ok os"
    by (rule ok)
  obtain pids where pids: "collect_pids (th_cgroup_path h) os = Inr pids"
      "set pids = {pr_pid p | p. p \<in> set (os_procs os) \<and> cg_in_tree h os p}"
    using cg_ready_collect [OF ready] .
  show "\<exists>sent. set sent = {pr_pid p | p. p \<in> set (os_procs os) \<and> cg_in_tree h os p \<and> \<not> os_denied os (pr_pid p)} \<and>
      snd (cg_signal h signo os) = send sent signo os"
    using pids(2) by (intro exI [of _ "filter (\<lambda>p. \<not> os_denied os p) pids"])
      (auto simp: cg_signal_def active pids(1) alive_def intro!: signal_pids_sent)
  show "\<forall>p \<in> set (os_procs os). cg_in_tree h os p \<longrightarrow> \<not> os_denied os (pr_pid p) \<Longrightarrow> fst (cg_signal h signo os) = 0"
    using pids(2) by (auto simp: cg_signal_def active pids(1) intro!: signal_pids_result)
  show "cg_contains h pid os \<longleftrightarrow> (\<exists>p \<in> set (os_procs os). pr_pid p = pid \<and> cg_in_tree h os p)" for pid
    using pids(2) ok by (auto simp: cg_contains_def active pids(1) os_ok_def)
  show "cg_empty h os \<longleftrightarrow> (\<forall>p \<in> set (os_procs os). \<not> cg_in_tree h os p)"
    using pids(2) by (auto simp: cg_empty_def active pids(1) simp flip: set_empty)
qed (auto simp: cg_ready_def cg_in_tree_def fun_eq_iff split: option.splits)

lemma cg_find_path:
  "cg_find p c = Some d \<Longrightarrow> cg_path d = p"
  "cg_find_in p cs = Some d \<Longrightarrow> cg_path d = p"
  by (induction p c and p cs rule: cg_find_cg_find_in.induct) (auto split: if_splits option.splits)

lemma visible_path: "cg_path c \<in> set (visible F c)"
  by (cases c) simp

lemma create_group_frame:
  "create_group path os = (r, os1) \<Longrightarrow> os_procs os1 = os_procs os \<and> os_signals os1 = os_signals os"
  by (auto simp: create_group_def split: option.splits fault.splits if_splits)

lemma remove_group_frame: "os_procs (snd (remove_group path os)) = os_procs os"
  by (auto simp: remove_group_def split: option.splits prod.splits)

lemma attach_pid_moved:
  "fst (attach_pid path pid os) = Inr u \<Longrightarrow> cg_find path (os_root os) \<noteq> None \<and> snd (attach_pid path pid os) = move_process pid path os"
  by (cases "os_fault os (Write_procs path)") (simp_all add: attach_pid_def split: if_splits)

lemma attach_pid_failed: "fst (attach_pid path pid os) = Inl e \<Longrightarrow> snd (attach_pid path pid os) = os"
  by (cases "os_fault os (Write_procs path)") (simp_all add: attach_pid_def split: if_splits)

lemma move_process_moved:
  assumes "p \<in> set (os_procs (move_process pid g os))" "pr_pid p = pid"
  shows "pr_cgroup p = g"
proof -
  obtain q where "p = q\<lparr>pr_cgroup := g\<rparr>"
    using assms unfolding move_process_def by (simp add: image_iff) blast
  then show ?thesis
    by simp
qed

lemma move_process_root [simp]: "os_root (move_process pid g os) = os_root os"
  by (simp add: move_process_def)

text \<open>A process that was attached is in its tree; one that was not has not been moved.\<close>

lemma cg_attach_in_tree:
  assumes "cg_attach root pid os = (Inr h, os1)" "p \<in> set (os_procs os1)" "pr_pid p = pid"
  shows "cg_in_tree h os1 p"
proof -
  let ?path = "app_group root pid"
  obtain os2 u where *: "attach_pid ?path pid os2 = (Inr u, os1)" and h: "th_cgroup_path h = ?path"
    using assms(1) by (auto simp: cg_attach_def Let_def split: prod.splits sum.splits)
  then have moved: "cg_find ?path (os_root os1) \<noteq> None" "os1 = move_process pid ?path os2"
    using attach_pid_moved [of ?path pid os2 u] by simp_all
  then obtain c where c: "cg_find ?path (os_root os1) = Some c" and "pr_cgroup p = ?path"
    using move_process_moved assms(2,3) by blast
  then show ?thesis
    using cg_find_path(1) [OF c] visible_path [of c] by (simp add: cg_in_tree_def h)
qed

lemma cg_attach_failed:
  assumes "fst (cg_attach root pid os) = Inl e"
  shows "os_procs (snd (cg_attach root pid os)) = os_procs os"
proof -
  obtain r os1 where create: "create_group (app_group root pid) os = (r, os1)"
    by fastforce
  obtain r2 os2 where attach: "attach_pid (app_group root pid) pid os1 = (r2, os2)"
    by fastforce
  show ?thesis
    using assms create_group_frame [OF create] attach_pid_failed [of "app_group root pid" pid os1]
    by (cases r; cases r2) (simp_all add: cg_attach_def Let_def create attach remove_group_frame)
qed

text \<open>Cleaning up after the last process removes the group and everything below it.\<close>

fun all_shown :: "cgroup \<Rightarrow> bool"
  and all_shown_in :: "cgroup list \<Rightarrow> bool" where
  "all_shown (Cgroup g cs) \<longleftrightarrow> all_shown_in cs"
| "all_shown_in [] \<longleftrightarrow> True"
| "all_shown_in (c # cs) \<longleftrightarrow> \<not> hidden c \<and> all_shown c \<and> all_shown_in cs"

lemma remove_recursive_all:
  "os_fault os = (\<lambda>_. None) \<Longrightarrow> all_shown c \<Longrightarrow> \<forall>g \<in> set (visible (\<lambda>_. None) c). procs_in os g = [] \<Longrightarrow>
    remove_recursive os c = ([], Inr ())"
  "os_fault os = (\<lambda>_. None) \<Longrightarrow> all_shown_in cs \<Longrightarrow> \<forall>g \<in> set (visible_in (\<lambda>_. None) cs). procs_in os g = [] \<Longrightarrow>
    remove_entries os cs = ([], Inr ())"
  by (induction os c and os cs rule: remove_recursive_remove_entries.induct) auto

lemma cg_find_in_None: "cg_find_in p cs = None \<longleftrightarrow> (\<forall>c \<in> set cs. cg_find p c = None)"
  by (induction cs) (auto split: option.splits)

lemma cg_replace_gone: "cg_path c \<noteq> p \<Longrightarrow> cg_find p (cg_replace p [] c) = None"
  by (induction p "[] :: cgroup list" c rule: cg_replace.induct) (auto simp: cg_find_in_None)

lemma cg_cleanup_removes:
  assumes "cg_ready h os" "cg_empty h os" "os_fault os = (\<lambda>_. None)"
    and "cg_find (th_cgroup_path h) (os_root os) = Some c" "all_shown c" "th_cgroup_path h \<noteq> []" "cg_path (os_root os) \<noteq> th_cgroup_path h"
  shows "cg_find (th_cgroup_path h) (os_root (snd (cg_cleanup h os))) = None"
proof -
  have empty: "collect_pids (th_cgroup_path h) os = Inr []"
    using assms(1,2) by (auto simp: cg_ready_def cg_empty_def split: sum.splits)
  then have "\<forall>g \<in> set (visible (\<lambda>_. None) c). procs_in os g = []"
    using assms(3,4) by (auto simp: collect_pids_result)
  then have "remove_recursive os c = ([], Inr ())"
    using assms(3,5) by (intro remove_recursive_all(1))
  then show ?thesis
    using empty assms(4,6,7) by (simp add: cg_cleanup_def remove_group_def cg_replace_gone)
qed

subsection \<open>The controller\<close>

definition in_tree :: "process_tree_controller \<Rightarrow> process_tree_handle \<Rightarrow> os_state \<Rightarrow> os_process \<Rightarrow> bool" where
  "in_tree c h os p \<longleftrightarrow> (case ct_backend c of
       None \<Rightarrow> False
     | Some Process_group_backend \<Rightarrow> pg_in_tree h os p
     | Some (Cgroup_v2_backend root) \<Rightarrow> cg_in_tree h os p)"

definition tree_ready :: "process_tree_controller \<Rightarrow> process_tree_handle \<Rightarrow> os_state \<Rightarrow> bool" where
  "tree_ready c h os \<longleftrightarrow> (case ct_backend c of
       None \<Rightarrow> False
     | Some Process_group_backend \<Rightarrow> pg_ready h os
     | Some (Cgroup_v2_backend root) \<Rightarrow> cg_ready h os)"

lemmas controller_defs = tree_signal_def tree_contains_def tree_empty_def in_tree_def tree_ready_def

lemma controller_cases:
  obtains "ct_backend c = None" | "ct_backend c = Some Process_group_backend" | root where "ct_backend c = Some (Cgroup_v2_backend root)"
  by (cases "ct_backend c") (auto intro: backend.exhaust)

lemma controller_delegates:
  "ct_backend c = Some Process_group_backend \<Longrightarrow>
    tree_signal c = pg_signal \<and> tree_contains c = pg_contains \<and> tree_empty c = pg_empty \<and> in_tree c = pg_in_tree \<and> tree_ready c = pg_ready"
  "ct_backend c = Some (Cgroup_v2_backend root) \<Longrightarrow>
    tree_signal c = cg_signal \<and> tree_contains c = cg_contains \<and> tree_empty c = cg_empty \<and> in_tree c = cg_in_tree \<and> tree_ready c = cg_ready"
  "ct_backend c = None \<Longrightarrow> in_tree c = (\<lambda>h os p. False) \<and> tree_ready c = (\<lambda>h os. False)"
  by (simp_all add: controller_defs fun_eq_iff)

lemma controller_process_tree: "process_tree (tree_signal c) (tree_contains c) (tree_empty c) (in_tree c) (tree_ready c)"
proof (cases c rule: controller_cases)
  case 1
  then show ?thesis
    by unfold_locales (simp_all add: controller_delegates)
next
  case 2
  then show ?thesis
    using controller_delegates(1) [OF 2] pg.process_tree_axioms by simp
next
  case (3 root)
  then show ?thesis
    using controller_delegates(2) [OF 3] cg.process_tree_axioms by simp
qed

interpretation tree: process_tree "tree_signal c" "tree_contains c" "tree_empty c" "in_tree c" "tree_ready c" for c
  by (rule controller_process_tree)

text \<open>
  The choice of the backend: only a request for control groups fails, a controller that has a backend reports it as its
  effective mode, and one that fell back from auto-detection is degraded.
\<close>

definition mode_of_backend :: "backend option \<Rightarrow> process_tree_mode option" where
  "mode_of_backend b = map_option (case_backend TM_process_group (\<lambda>_. TM_cgroup)) b"

lemma initialize_cases:
  obtains "requested = TM_process_group" "initialize v2 fork settle requested configured_root key os =
      ((True, []), new_controller\<lparr>ct_requested_mode := requested, ct_effective_mode := requested,
         ct_backend := Some Process_group_backend\<rparr>, os)"
  | root reason os1 where "requested \<noteq> TM_process_group"
      "initialize v2 fork settle requested configured_root key os = fall_back requested root reason os1"
  | root os1 where "requested \<noteq> TM_process_group" "initialize v2 fork settle requested configured_root key os =
      ((True, []), new_controller\<lparr>ct_requested_mode := requested, ct_effective_mode := TM_cgroup,
         ct_root := root, ct_backend := Some (Cgroup_v2_backend root)\<rparr>, os1)"
proof -
  define base where "base = (if configured_root = [] then ''/sys/fs/cgroup'' else configured_root)"
  define root where "root = base @ ''/pm_tiny-'' @ sanitize key"
  obtain r os1 where create: "create_group root os = (r, os1)"
    by fastforce
  obtain probed os2 where probe: "probe_group (root @ ''/.probe'') fork os1 = (probed, os2)"
    by fastforce
  note unfold = initialize_def Let_def base_def [symmetric] root_def [symmetric] create probe prod.case
  show thesis
  proof (cases "requested = TM_process_group")
    case True
    then show ?thesis
      by (intro that(1)) (simp_all add: unfold)
  next
    case mode: False
    consider "\<not> v2 base" | e where "v2 base" "r = Inl e" | u e where "v2 base" "r = Inr u" "probed = Some e"
      | u where "v2 base" "r = Inr u" "probed = None"
      by (metis not_None_eq sum.exhaust)
    then show ?thesis
    proof cases
      case (4 u)
      then show ?thesis
        by (intro that(3) [OF mode]) (unfold unfold, simp add: mode)
    qed (rule that(2) [OF mode], unfold unfold, simp add: mode)+
  qed
qed

lemma initialize_result:
  assumes "initialize v2 fork settle requested configured_root key os = ((ok, reason), c, os1)"
  shows "ok \<longleftrightarrow> ct_backend c \<noteq> None" "\<not> ok \<Longrightarrow> requested = TM_cgroup \<and> \<not> degraded c"
    and "ok \<Longrightarrow> mode_of_backend (ct_backend c) = Some (ct_effective_mode c)"
    and "degraded c \<longleftrightarrow> requested = TM_auto_detect \<and> ct_backend c = Some Process_group_backend"
    and "requested \<noteq> TM_process_group \<Longrightarrow> ct_degradation_reason c = (if ct_effective_mode c = TM_process_group then reason else [])"
  by (rule initialize_cases [of requested v2 fork settle configured_root key os]; use assms in
      \<open>cases requested; auto simp: fall_back_def new_controller_def degraded_def mode_of_backend_def\<close>)+

subsection \<open>Property\<close>

lemma attached_in_tree:
  assumes "tree_attach c pid os = (Inr h, os1)" "p \<in> set (os_procs os1)" "pr_pid p = pid" "pr_pgid p = pid"
  shows "in_tree c h os1 p"
proof (cases c rule: controller_cases)
  case (3 root)
  then show ?thesis
    using assms cg_attach_in_tree by (simp add: tree_attach_def in_tree_def)
qed (use assms in \<open>auto simp: tree_attach_def in_tree_def pg_attach_def pg_in_tree_def\<close>)

lemma controller_spawned:
  assumes "in_tree c h os p" "spawned (ct_effective_mode c = TM_cgroup) p q"
    and "mode_of_backend (ct_backend c) = Some (ct_effective_mode c)"
  shows "in_tree c h os q"
proof (cases c rule: controller_cases)
  case 2
  then have "spawned False p q"
    using assms(2,3) by (simp add: mode_of_backend_def)
  then show ?thesis
    using assms(1) by (rule tree.spawned_in_tree)
next
  case (3 root)
  then show ?thesis
    using assms(1,2) cg.detached_in_tree by (simp add: controller_delegates)
qed (use assms in \<open>simp add: in_tree_def\<close>)


text \<open>
  A daemon on a host with control groups.  The program 7 has forked 8 and 9, and 9 has left the process group.  A
  stranger 5, which may not be signalled, is spared.
\<close>

definition example_host :: os_state where
  "example_host = \<lparr>os_procs = [\<lparr>pr_pid = 5, pr_pgid = 5, pr_cgroup = ''/cg''\<rparr>, \<lparr>pr_pid = 7, pr_pgid = 7, pr_cgroup = ''/cg''\<rparr>],
     os_denied = (\<lambda>pid. pid = 5), os_root = Cgroup ''/cg'' [], os_fault = (\<lambda>_. None), os_signals = []\<rparr>"

definition example_init :: init_result where
  "example_init = initialize (\<lambda>_. True) (Inr \<lparr>pr_pid = 6, pr_pgid = 4, pr_cgroup = ''/cg''\<rparr>) (\<lambda>os. os) TM_auto_detect ''/cg'' ''k'' example_host"

definition example_controller :: process_tree_controller where
  "example_controller = fst (snd example_init)"

definition example_attach :: "attach_result \<times> os_state" where
  "example_attach = tree_attach example_controller 7 (snd (snd example_init))"

definition example_handle :: process_tree_handle where
  "example_handle = no_tree\<lparr>th_mode := TM_cgroup, th_root_pid := 7, th_pgid := 7, th_active := True, th_cgroup_path := ''/cg/pm_tiny-k/app-7''\<rparr>"

definition example_procs :: "os_process list" where
  "example_procs = (let g = ''/cg/pm_tiny-k/app-7'' in
     [\<lparr>pr_pid = 5, pr_pgid = 5, pr_cgroup = ''/cg''\<rparr>, \<lparr>pr_pid = 7, pr_pgid = 7, pr_cgroup = g\<rparr>,
      \<lparr>pr_pid = 8, pr_pgid = 7, pr_cgroup = g\<rparr>, \<lparr>pr_pid = 9, pr_pgid = 9, pr_cgroup = g\<rparr>])"

definition example_child :: os_process where
  "example_child = \<lparr>pr_pid = 7, pr_pgid = 7, pr_cgroup = ''/cg/pm_tiny-k/app-7''\<rparr>"

lemma example_facts:
  "fst example_init = (True, [])" "fst example_attach = Inr example_handle" "example_child \<in> set (os_procs (snd example_attach))"
  "ct_effective_mode example_controller = TM_cgroup"
  "tree_ready example_controller example_handle ((snd example_attach)\<lparr>os_procs := example_procs\<rparr>)"
  "\<forall>p \<in> set example_procs. in_tree example_controller example_handle ((snd example_attach)\<lparr>os_procs := example_procs\<rparr>) p \<longrightarrow>
     \<not> os_denied ((snd example_attach)\<lparr>os_procs := example_procs\<rparr>) (pr_pid p)"
  "filter (\<lambda>p. \<not> in_tree example_controller example_handle ((snd example_attach)\<lparr>os_procs := example_procs\<rparr>) p) example_procs =
    [\<lparr>pr_pid = 5, pr_pgid = 5, pr_cgroup = ''/cg''\<rparr>]"
  by code_simp+

lemma example_spawned: "spawned True example_child (\<lparr>pr_pid = 9, pr_pgid = 9, pr_cgroup = ''/cg/pm_tiny-k/app-7''\<rparr>)"
  using spawned_setpgid [where pgid = 9, OF spawned_fork [where pid = 9, OF spawned_self [where p = example_child and detaches = True]]]
  by (simp add: example_child_def)


end
