(* ===== verification/Spec2Isabelle.thy ===== *)
theory Spec2Isabelle
  imports Daemon_Config_Correct Session_Blocking Supervisor_Restart Rotating_Layout Cli_End_To_End Process_Tree_Correct
begin

text \<open>
  A verification library for pm_tiny, a process manager: a daemon starts programs in the order of their dependencies, restarts
  them when they die, keeps their logs, and is controlled over a local socket by the \<open>pm\<close> command line tool.  All paths below are
  under src/src.

  \<^bold>\<open>Parts and theories.\<close>  Each theory models the source files named in its section title, in the order of the code: a
  C++ struct is a record, an enum a datatype, a function a HOL function, code that throws has the result type \<open>exn + 'a\<close>, and code
  that changes an object maps its record to the changed one.

  \<^item> Prelude: exceptions, results, the ranges of the signed integers, and the locale \<open>invariant_machine\<close> of the state machines that keep
    an invariant.
  \<^item> Dependency_Graph, Dependency_Graph_Correct (core/dependency_graph): \<open>build\<close> validates the \<open>depends_on\<close> edges and orders the
    programs.  It accepts exactly the valid configurations and names the check that failed, a cycle error carries a real cycle, and the
    start order is the least one that respects the dependencies.
  \<^item> Dependency_Runtime, Dependency_Runtime_Correct (the class \<open>dependency_runtime\<close>): the start state of every program.  Only programs whose
    dependencies are ready are handed out, a failure blocks exactly the programs that need the failed one, and starting a
    configuration cannot get stuck.
  \<^item> Frame_Stream, Prog_Cfg, Protocol_V3, Protocol_V3_Correct, Snapshots (core/frame_stream, prog_cfg_codec, protocol_v3, process_list,
    runtime_snapshot): the wire format.  The locale \<open>codec\<close> is the contract of one field, interpreted for every field type; the locale
    \<open>payload_codec\<close> is that of a whole payload.  Readers accept exactly what writers produce, and the stream decoder does not depend
    on how the bytes are cut into reads.
  \<^item> Session, Session_Blocking (core/session): the send queue and the receive buffer of a connection over a socket that takes as much as it likes.
    Accepted messages reach the peer in order, the queue is bounded, and a blocking write ends.
  \<^item> Program_Log (core/program_log): log file names, the ring buffer with the tail of the output, and the back-off of a failing sink.
  \<^item> Restart_Policy (core/restart_policy): delays and limits of automatic restarts.
  \<^item> Lifecycle (core/lifecycle_orchestrator, termination_job, persistence_worker): the timer tick, the state machine that stops a process
    tree, and the background worker.
  \<^item> Control (core/control_command): decoding requests, building replies, and the end of deferred operations.
  \<^item> Program_Names (core/program_name, prog_cfg_order, daemon/launch_environment): valid names, ordering of configurations, and the
    environment of a started program.
  \<^item> String_Utils, Prog_Cfg_Yaml, Yaml_Instance (core/string_utils, prog_cfg_yaml_helper): the program configuration as YAML.  The YAML library is a parameter
    with the laws \<open>yaml_scalars\<close> and \<open>yaml_text\<close>; Yaml_Instance is a concrete library that satisfies them.
  \<^item> File_System, Save_Transaction, Save_Transaction_Correct, Config_Load (daemon/prog_cfg): the journalled save, its recovery and the load,
    over a file system whose calls work, fail or kill the process as a script says, with a Hoare logic for crashes.  A save is atomic
    and durable, and what was saved is what is loaded.
  \<^item> Daemon_Config, Daemon_Config_Correct (core/daemon_config): the settings of the daemon, equal to a layered reference definition.
  \<^item> Daemon_Info (core/daemon_info): the snapshot the daemon sends about itself.
  \<^item> Managed_Program, Program_Output (daemon/prog): the record \<open>prog_info_t\<close> of a program and its methods.  Every byte of its output is logged
    or counted as dropped.
  \<^item> Process_Spawn (daemon/pm_tiny_server, \<open>real_spawn_prog\<close>): how an executable is found and launched.
  \<^item> Program_Table (daemon/pm_tiny_server): the state \<open>pm_tiny_server_t\<close> of the daemon and the operations on its programs.
  \<^item> Supervisor (daemon/pm_tiny.cpp, \<open>request_quit\<close> of pm_tiny_server): pending tasks, shutdown, and the maintenance round of the event loop
    (\<open>check_delayed_chld_sig\<close>, \<open>check_quit_or_reload\<close>).
  \<^item> Command_Handlers (daemon/pm_tiny_funcs): \<open>handle_frame\<close> with one definition per command, and the daemon as a state machine, \<open>daemon_step\<close>,
    over the events of its loop: requests, closed connections, output, finished saves and maintenance.
  \<^item> Supervisor_Frames, Supervisor_Invariant: every operation of the daemon keeps its invariant.  Most operations are frames: they keep
    the definitions and the graph, do not make a program run, and emit no forbidden effect; frames compose.
  \<^item> Supervisor_Shutdown, Supervisor_Restart: the properties of the running daemon.  The invariant holds in every reachable state, an
    exiting daemon starts nothing, a shutdown goes against the start order and ends when nothing lives, a reload installs exactly the new
    configuration, adding a program is all or nothing, due restarts happen, and an exit leaves the right state.

  \<^item> Rotating_Log, Rotating_Layout (platform/linux/rotating_log_writer): the log file with its numbered archives, over files whose calls answer
    as a script says.  An append ends and never corrupts the history, and without failures the files are exactly the layout of the stream.
  \<^item> Process_Tree, Process_Tree_Correct (platform/linux: cgroup_fs, cgroup_v2_backend, process_group_backend, process_tree_controller): the processes of a
    host, their process groups and the tree of control groups.  The locale \<open>process_tree\<close> is the contract of a back end, interpreted for
    both back ends and the controller; \<open>tracking_tree\<close> is the stronger one of control groups.  A program dies with everything it started.
  \<^item> Cli_Command, Cli_Correct (cli/cli_command): the command line of \<open>pm\<close>.  Accepted commands are well formed, and printed options are read back.
  \<^item> Cli_Client (cli/pm.cpp, pm_funcs, cli_response): requests, replies, the log stream and the exit status of \<open>pm\<close>.  The renderers are parameters.
  \<^item> Cli_End_To_End: the client against the daemon.  A command line reaches the handler of its command, replies are read as they were
    meant, the log stream is shown in order, and the exit status tells the truth.

  \<^bold>\<open>How they interact.\<close>  A configuration file goes through Prog_Cfg_Yaml, Program_Names and Config_Load into the program table and its dependency
  graph; the runtime over that graph says what to start, and Process_Spawn starts it; a death goes through the reaping of Supervisor, Restart_Policy
  and Lifecycle, which stop a Process_Tree; a command leaves Cli_Client, arrives through Session, Protocol_V3 and Control at Command_Handlers, and its answer leaves in the formats of
  Frame_Stream, Snapshots, Program_Log and Daemon_Info; a save goes through Lifecycle's worker into Save_Transaction.

  \<^bold>\<open>The outside of the daemon.\<close>  What the kernel answers during one event of the loop (clocks, process trees, pipes, log files, users, the calls of
  each launch) is a \<open>host\<close> record, an argument of every step, and arbitrary in the theorems; what the daemon does to the outside
  (frames, signals, launches, log writes) is a list of \<open>effect\<close>s.  A program pointer of the source is the program's name, and a
  session is a number.  The closures that wait for a process to die are the datatype \<open>pending_task\<close>.

  \<^bold>\<open>Numbers, bounds and fuel.\<close>  Wire values are words of their width; a signed C++ integer is an \<open>int\<close> with \<open>in_i32\<close> or \<open>in_i64\<close> where a width
  matters.  The loops of the source are structural recursion or have a termination proof.  Two loops may run for ever in the source, the
  blocking read and the blocking write of a session: they take the answers of the socket as a list, and \<open>drain\<close> also a number of
  rounds; \<open>None\<close> then says that the call has not returned.  One round per answer of the socket, plus one, is enough for the write to end when
  it makes progress often enough (\<open>blocking_write_ends\<close>).  The append to a rotating log has fuel: one round per byte, plus one, always ends it
  (\<open>rotating_append_safe\<close>).

  \<^bold>\<open>Not modelled.\<close>  What a child does between \<open>fork\<close> and \<open>exec\<close>, the accepting of connections and the asio callbacks around the events
  (daemon/asio_daemon_loop), signal handlers, daemonizing and \<open>kill_all_prog\<close>, which runs after the loop; how the client connects and waits for its
  socket, the text of its usage, and the tables and texts that it draws (cli renderers, over libfort and utf8proc); the daemon's own
  log, the wrappers of system calls, the Windows and Android back ends, and the client SDK.  The vendored libraries (asio, yaml-cpp,
  nlohmann-json, libfort, utf8proc) are used through parameters or not at all.
\<close>

end
